(* ===== verification/Prelude.thy ===== *)
theory Prelude
  imports Main "HOL-Library.AList"
begin

text \<open>
  What every component of the development shares:
  \<^item> Python text as lists of Unicode code points, with the library's white-space predicate,
    \<open>strip\<close> and the decimal rendering of integers in f-strings;
  \<^item> Python dictionaries as association lists in insertion order, with the laws of a
    dictionary as the locale \<open>dict_laws\<close>, interpreted on those lists;
  \<^item> labelled step relations with the locale \<open>machine\<close>: an invariant that the initial states
    satisfy and every step keeps holds in every reachable state, and a property that every step
    keeps is stable from the moment it holds.
\<close>

named_theorems lib_simps \<open>equations that unfold the small operations of the components\<close>

section \<open>Python text\<close>

type_synonym ptext = "nat list"

definition lit :: "string \<Rightarrow> ptext" where
  "lit s = map of_char s"

lemma lit_Nil [simp]: "lit [] = []"
  by (simp add: lit_def)

lemma lit_Cons [simp]: "lit (c # s) = of_char c # lit s"
  by (simp add: lit_def)

text \<open>
  \<open>str.isspace\<close> on one character, which is also what \<open>\<backslash>s\<close> of the \<open>re\<close> module accepts.
\<close>

definition py_space :: "nat \<Rightarrow> bool" where
  "py_space c \<longleftrightarrow> (9 \<le> c \<and> c \<le> 13) \<or> (28 \<le> c \<and> c \<le> 32) \<or> c = 133 \<or> c = 160 \<or> c = 5760
     \<or> (8192 \<le> c \<and> c \<le> 8202) \<or> c = 8232 \<or> c = 8233 \<or> c = 8239 \<or> c = 8287 \<or> c = 12288"

lemma py_space_code [code]:
  "py_space c \<longleftrightarrow> (if c < 128 then (if c \<le> 32 then 28 \<le> c \<or> (9 \<le> c \<and> c \<le> 13) else False)
     else c = 133 \<or> c = 160 \<or> c = 5760 \<or> (8192 \<le> c \<and> c \<le> 8202) \<or> c = 8232 \<or> c = 8233
       \<or> c = 8239 \<or> c = 8287 \<or> c = 12288)"
  by (auto simp: py_space_def)

definition lstrip :: "ptext \<Rightarrow> ptext" where
  "lstrip t = dropWhile py_space t"

definition rstrip :: "ptext \<Rightarrow> ptext" where
  "rstrip t = rev (dropWhile py_space (rev t))"

definition strip :: "ptext \<Rightarrow> ptext" where
  "strip t = rstrip (lstrip t)"

text \<open>The characters of a text that are not white space: what stripping never loses.\<close>

definition visible :: "ptext \<Rightarrow> ptext" where
  "visible t = filter (\<lambda>c. \<not> py_space c) t"

lemma visible_Nil [simp]: "visible [] = []"
  by (simp add: visible_def)

lemma visible_append [simp]: "visible (s @ t) = visible s @ visible t"
  by (simp add: visible_def)

lemma filter_dropWhile_neg: "filter (\<lambda>x. \<not> P x) (dropWhile P xs) = filter (\<lambda>x. \<not> P x) xs"
  by (induction xs) auto

lemma visible_lstrip [simp]: "visible (lstrip t) = visible t"
  by (simp add: visible_def lstrip_def filter_dropWhile_neg)

lemma visible_rstrip [simp]: "visible (rstrip t) = visible t"
  by (simp add: visible_def rstrip_def rev_filter [symmetric] filter_dropWhile_neg)

lemma visible_strip [simp]: "visible (strip t) = visible t"
  by (simp add: strip_def)

lemma visible_empty_iff: "visible t = [] \<longleftrightarrow> (\<forall>c\<in>set t. py_space c)"
  by (auto simp: visible_def filter_empty_conv)

lemma rstrip_Nil_iff: "rstrip t = [] \<longleftrightarrow> (\<forall>c\<in>set t. py_space c)"
  by (auto simp: rstrip_def)

lemma strip_Nil_iff: "strip t = [] \<longleftrightarrow> (\<forall>c\<in>set t. py_space c)"
proof -
  have "(\<forall>c\<in>set (dropWhile py_space t). py_space c) \<longleftrightarrow> (\<forall>c\<in>set t. py_space c)"
    by (induction t) auto
  then show ?thesis by (simp add: strip_def lstrip_def rstrip_Nil_iff)
qed

lemma strip_Nil_visible: "strip t = [] \<longleftrightarrow> visible t = []"
  by (simp add: strip_Nil_iff visible_empty_iff)

lemma length_lstrip: "length (lstrip t) \<le> length t"
  by (simp add: lstrip_def length_dropWhile_le)

text \<open>The decimal rendering of an integer, as an f-string prints it.\<close>

fun nat_str :: "nat \<Rightarrow> string" where
  "nat_str n = (if n < 10 then [char_of (48 + n)] else nat_str (n div 10) @ [char_of (48 + n mod 10)])"

declare nat_str.simps [simp del]

definition int_str :: "int \<Rightarrow> string" where
  "int_str i = (if i < 0 then CHR ''-'' # nat_str (nat (- i)) else nat_str (nat i))"

section \<open>Exceptions\<close>

text \<open>
  The built-in exceptions that the program raises itself, with their messages; a fallible operation
  returns \<open>py_error + 'a\<close>.
\<close>

datatype py_error =
    Value_error string
  | Type_error string
  | Runtime_error string
  | Key_error ptext
  | Index_error

definition bind_res :: "'e + 'a \<Rightarrow> ('a \<Rightarrow> 'e + 'b) \<Rightarrow> 'e + 'b" where
  "bind_res r f = (case r of Inl e \<Rightarrow> Inl e | Inr a \<Rightarrow> f a)"

lemma bind_res_simps [simp]: "bind_res (Inl e) f = Inl e" "bind_res (Inr a) f = f a"
  by (simp_all add: bind_res_def)

lemma bind_res_Inr_iff: "bind_res r f = Inr b \<longleftrightarrow> (\<exists>a. r = Inr a \<and> f a = Inr b)"
  by (cases r) auto

lemma bind_res_Inl_iff: "bind_res r f = Inl e \<longleftrightarrow> r = Inl e \<or> (\<exists>a. r = Inr a \<and> f a = Inl e)"
  by (cases r) auto

text \<open>The first exception of a pass over a list, or the list of the results.\<close>

fun map_res :: "('a \<Rightarrow> 'e + 'b) \<Rightarrow> 'a list \<Rightarrow> 'e + 'b list" where
  "map_res f [] = Inr []"
| "map_res f (x # xs) = bind_res (f x) (\<lambda>y. bind_res (map_res f xs) (\<lambda>ys. Inr (y # ys)))"

lemma map_res_Inr: "map_res f xs = Inr ys \<Longrightarrow> list_all2 (\<lambda>x y. f x = Inr y) xs ys"
  by (induction xs arbitrary: ys) (auto simp: bind_res_Inr_iff)

section \<open>Python dictionaries\<close>

type_synonym ('k, 'v) dict = "('k \<times> 'v) list"

abbreviation dget :: "('k, 'v) dict \<Rightarrow> 'k \<Rightarrow> 'v option" where
  "dget \<equiv> map_of"

definition dset :: "'k \<Rightarrow> 'v \<Rightarrow> ('k, 'v) dict \<Rightarrow> ('k, 'v) dict" where
  "dset k v d = AList.update k v d"

definition dpop :: "'k \<Rightarrow> ('k, 'v) dict \<Rightarrow> ('k, 'v) dict" where
  "dpop k d = AList.delete k d"

definition dict_ok :: "('k, 'v) dict \<Rightarrow> bool" where
  "dict_ok d \<longleftrightarrow> distinct (map fst d)"

locale dict_laws =
  fixes empty :: "'d" and get :: "'d \<Rightarrow> 'k \<Rightarrow> 'v option"
    and put :: "'k \<Rightarrow> 'v \<Rightarrow> 'd \<Rightarrow> 'd" and pop :: "'k \<Rightarrow> 'd \<Rightarrow> 'd" and ok :: "'d \<Rightarrow> bool"
  assumes get_empty: "get empty k = None"
    and get_put: "get (put k v d) k' = (if k' = k then Some v else get d k')"
    and get_pop: "get (pop k d) k' = (if k' = k then None else get d k')"
    and ok_empty: "ok empty"
    and ok_put: "ok d \<Longrightarrow> ok (put k v d)"
    and ok_pop: "ok d \<Longrightarrow> ok (pop k d)"
begin

lemma get_put_same: "get (put k v d) k = Some v"
  by (simp add: get_put)

lemma get_put_other: "k' \<noteq> k \<Longrightarrow> get (put k v d) k' = get d k'"
  by (simp add: get_put)

lemma put_put: "get (put k w (put k v d)) k' = get (put k w d) k'"
  by (simp add: get_put)

lemma pop_put_other: "k' \<noteq> k \<Longrightarrow> get (pop k (put k' v d)) k' = Some v"
  by (simp add: get_put get_pop)

end

interpretation pydict: dict_laws "[]" dget dset dpop dict_ok
proof unfold_locales
  fix k k' :: 'a and v :: 'b and d :: "('a, 'b) dict"
  show "dget (dset k v d) k' = (if k' = k then Some v else dget d k')"
    by (simp add: dset_def update_conv')
  show "dget (dpop k d) k' = (if k' = k then None else dget d k')"
    by (simp add: dpop_def delete_conv')
  show "dict_ok d \<Longrightarrow> dict_ok (dset k v d)"
    by (simp add: dict_ok_def dset_def distinct_update)
  show "dict_ok d \<Longrightarrow> dict_ok (dpop k d)"
    by (simp add: dict_ok_def dpop_def distinct_delete)
qed (auto simp: dict_ok_def)

lemmas dict_simps [simp] = pydict.get_put pydict.get_pop
lemmas dict_oks [simp, intro] = pydict.ok_put pydict.ok_pop

lemma dict_ok_Nil [simp]: "dict_ok []"
  by (simp add: dict_ok_def)

lemma dict_ok_Cons [simp]: "dict_ok ((k, v) # d) \<longleftrightarrow> k \<notin> fst ` set d \<and> dict_ok d"
  by (simp add: dict_ok_def)

lemma dget_mem: "dict_ok d \<Longrightarrow> (k, v) \<in> set d \<longleftrightarrow> dget d k = Some v"
  by (auto simp: dict_ok_def map_of_is_SomeI dest: map_of_SomeD)

text \<open>A pass over the values of a dictionary that keeps its keys.\<close>

definition dmap :: "('v \<Rightarrow> 'w) \<Rightarrow> ('k, 'v) dict \<Rightarrow> ('k, 'w) dict" where
  "dmap f d = map (\<lambda>(k, v). (k, f v)) d"

lemma dget_dmap [simp]: "dget (dmap f d) k = map_option f (dget d k)"
  by (induction d) (auto simp: dmap_def)

lemma dict_ok_dmap [simp]: "dict_ok (dmap f d) = dict_ok d"
  by (simp add: dict_ok_def dmap_def case_prod_beta comp_def)

section \<open>Step relations\<close>

inductive reach :: "('s \<Rightarrow> bool) \<Rightarrow> ('s \<Rightarrow> 'l \<Rightarrow> 's \<Rightarrow> bool) \<Rightarrow> 's \<Rightarrow> bool"
  for init step where
  reach_init: "init s \<Longrightarrow> reach init step s"
| reach_step: "reach init step s \<Longrightarrow> step s l t \<Longrightarrow> reach init step t"

inductive run_of :: "('s \<Rightarrow> 'l \<Rightarrow> 's \<Rightarrow> bool) \<Rightarrow> 's \<Rightarrow> 'l list \<Rightarrow> 's \<Rightarrow> bool"
  for step where
  run_nil: "run_of step s [] s"
| run_cons: "step s l t \<Longrightarrow> run_of step t ls u \<Longrightarrow> run_of step s (l # ls) u"

lemma run_of_reach: "run_of step s ls t \<Longrightarrow> reach init step s \<Longrightarrow> reach init step t"
  by (induction rule: run_of.induct) (auto intro: reach.reach_step)

locale machine =
  fixes init :: "'s \<Rightarrow> bool" and step :: "'s \<Rightarrow> 'l \<Rightarrow> 's \<Rightarrow> bool" and inv :: "'s \<Rightarrow> bool"
  assumes inv_init: "init s \<Longrightarrow> inv s"
    and inv_step: "step s l t \<Longrightarrow> inv s \<Longrightarrow> inv t"
begin

lemma inv_reach: "reach init step s \<Longrightarrow> inv s"
  by (induction rule: reach.induct) (auto intro: inv_init inv_step)

lemma inv_run: "run_of step s ls t \<Longrightarrow> inv s \<Longrightarrow> inv t"
  by (induction rule: run_of.induct) (auto intro: inv_step)

lemma stable_run:
  assumes keep: "\<And>s l t. step s l t \<Longrightarrow> inv s \<Longrightarrow> P s \<Longrightarrow> P t"
  shows "run_of step s ls t \<Longrightarrow> inv s \<Longrightarrow> P s \<Longrightarrow> P t"
  by (induction rule: run_of.induct) (auto intro: inv_step keep)

end

end
