(* ===== verification/SpeechLedger.thy ===== *)
theory SpeechLedger
  imports Prelude Complex_Main
begin

text \<open>
  The ledger of spoken segments of a call (\<open>ai-backend/app/call/session.py\<close>): one
  \<open>_TtsTurnLedger\<close> per turn, one \<open>_TtsSegmentLedgerEntry\<close> per segment, and the critical
  sections of \<open>CallSession\<close> that claim, commit, release and cancel a segment's attempt. Each
  of these runs under the session's lifecycle lock with no await inside, so it is one function
  on the state. Objects have an address (\<open>seg_object\<close>), since the code compares entries by
  identity, and each \<open>asyncio.Event\<close> is a number, fired once it is in \<open>fired\<close>. SHA-256 is the
  parameter \<open>sha\<close>; playback seconds are exact rationals.
\<close>

section \<open>Data\<close>

datatype seg_state = Reserved | In_flight | Committed | Seg_cancelled

datatype turn_state = Turn_active | Turn_cancelled | Turn_completed

datatype speech_error =
    Segment_conflict string
  | Turn_terminal string
  | Runtime_failure string
  | Selection_error string

record 'r segment =
  seg_object :: nat
  segment_id :: string
  ordinal :: int
  content_digest :: string
  final_chunk :: bool
  worker_request_id :: string
  attempt_generation :: nat
  sg_state :: seg_state
  response :: "'r option"
  attempt_done :: nat

record 'r turn_ledger =
  lg_state :: turn_state
  next_ordinal :: int
  segments :: "(string, 'r segment) dict"
  ordinal_owners :: "(int, string) dict"

record 'r speech =
  turn_ledgers :: "(string, 'r turn_ledger) dict"
  playback_seconds :: "(string, rat) dict"
  allocated :: nat
  fired :: "nat set"

definition new_ledger :: "'r turn_ledger" where
  "new_ledger = \<lparr>lg_state = Turn_active, next_ordinal = 0, segments = [], ordinal_owners = []\<rparr>"

definition init_speech :: "'r speech" where
  "init_speech = \<lparr>turn_ledgers = [], playback_seconds = [], allocated = 0, fired = {}\<rparr>"

section \<open>Operations\<close>

definition turn_state_name :: "turn_state \<Rightarrow> string" where
  "turn_state_name s = (case s of Turn_active \<Rightarrow> ''active'' | Turn_cancelled \<Rightarrow> ''cancelled''
     | Turn_completed \<Rightarrow> ''completed'')"

definition ledger_of :: "string \<Rightarrow> 'r speech \<Rightarrow> 'r turn_ledger" where
  "ledger_of turn st = (case dget (turn_ledgers st) turn of None \<Rightarrow> new_ledger | Some l \<Rightarrow> l)"

definition put_ledger :: "string \<Rightarrow> 'r turn_ledger \<Rightarrow> 'r speech \<Rightarrow> 'r speech" where
  "put_ledger turn l st = st\<lparr>turn_ledgers := dset turn l (turn_ledgers st)\<rparr>"

definition put_segment :: "'r segment \<Rightarrow> 'r turn_ledger \<Rightarrow> 'r turn_ledger" where
  "put_segment s l = l\<lparr>segments := dset (segment_id s) s (segments l)\<rparr>"

definition fire :: "nat \<Rightarrow> 'r speech \<Rightarrow> 'r speech" where
  "fire e st = st\<lparr>fired := insert e (fired st)\<rparr>"

definition worker_request_id_for_segment ::
  "(string \<Rightarrow> string) \<Rightarrow> string \<Rightarrow> string \<Rightarrow> int \<Rightarrow> string \<Rightarrow> nat \<Rightarrow> string" where
  "worker_request_id_for_segment sha turn seg ord digest gen =
     ''tts-segment-'' @ take 32 (sha (turn @ char_of (0::nat) # seg @ char_of (0::nat) # int_str ord
       @ char_of (0::nat) # digest @ char_of (0::nat) # ''attempt:'' @ nat_str gen))"

definition segment_identity ::
  "'r turn_ledger \<Rightarrow> string \<Rightarrow> bool \<Rightarrow> string option \<Rightarrow> int option \<Rightarrow> string" where
  "segment_identity ledger digest final sid req =
     (case sid of Some i \<Rightarrow> i
      | None \<Rightarrow>
         (case req of
            Some k \<Rightarrow> ''ordinal:'' @ int_str k
          | None \<Rightarrow> ''legacy:'' @ int_str (next_ordinal ledger) @ '':'' @ digest @ '':''
                     @ (if final then ''1'' else ''0'')))"

type_synonym 'r claim = "speech_error + ('r segment \<times> 'r option \<times> nat option)"

text \<open>
  The claim of a segment: a replayed response, an event to wait for, a fresh attempt, or an
  error. The ledger that \<open>setdefault\<close> inserts stays there also when the claim raises.
\<close>

definition claim_tts_segment_locked ::
  "(string \<Rightarrow> string) \<Rightarrow> string \<Rightarrow> string \<Rightarrow> bool \<Rightarrow> string option \<Rightarrow> int option \<Rightarrow> 'r speech
   \<Rightarrow> 'r claim \<times> 'r speech" where
  "claim_tts_segment_locked sha turn digest final sid req st =
     (let ledger = ledger_of turn st;
          st0 = put_ledger turn ledger st;
          identity = segment_identity ledger digest final sid req in
      case dget (segments ledger) identity of
        Some existing \<Rightarrow>
          if (req \<noteq> None \<and> req \<noteq> Some (ordinal existing))
             \<or> content_digest existing \<noteq> digest \<or> final_chunk existing \<noteq> final
          then (Inl (Segment_conflict ''segment identity was reused with different content''), st0)
          else if sg_state existing = Committed
          then (case response existing of
                  None \<Rightarrow> (Inl (Runtime_failure ''committed segment has no cached response''), st0)
                | Some r \<Rightarrow> (Inr (existing, Some r, None), st0))
          else if lg_state ledger \<noteq> Turn_active
          then (Inl (Turn_terminal (''speech turn is '' @ turn_state_name (lg_state ledger))), st0)
          else (case sg_state existing of
                  In_flight \<Rightarrow> (Inr (existing, None, Some (attempt_done existing)), st0)
                | Reserved \<Rightarrow>
                    let gen = Suc (attempt_generation existing);
                        again = existing\<lparr>sg_state := In_flight, attempt_done := allocated st0,
                          attempt_generation := gen,
                          worker_request_id := worker_request_id_for_segment sha turn identity
                            (ordinal existing) digest gen\<rparr> in
                    (Inr (again, None, None),
                     put_ledger turn (put_segment again ledger)
                       (st0\<lparr>allocated := Suc (allocated st0)\<rparr>))
                | _ \<Rightarrow> (Inl (Turn_terminal ''speech segment is cancelled''), st0))
      | None \<Rightarrow>
          if lg_state ledger \<noteq> Turn_active
          then (Inl (Turn_terminal (''speech turn is '' @ turn_state_name (lg_state ledger))), st0)
          else
            let ord = (case req of Some k \<Rightarrow> k | None \<Rightarrow> next_ordinal ledger) in
            if ord \<noteq> next_ordinal ledger
            then (Inl (Segment_conflict ''segment ordinal is not the next expected ordinal''), st0)
            else if (case dget (ordinal_owners ledger) ord of None \<Rightarrow> False | Some i \<Rightarrow> i \<noteq> identity)
            then (Inl (Segment_conflict ''segment ordinal is already owned by another identity''), st0)
            else
              let entry = \<lparr>seg_object = allocated st0, segment_id = identity, ordinal = ord,
                    content_digest = digest, final_chunk = final,
                    worker_request_id = worker_request_id_for_segment sha turn identity ord digest 1,
                    attempt_generation = 1, sg_state = In_flight, response = None,
                    attempt_done = Suc (allocated st0)\<rparr> in
              (Inr (entry, None, None),
               put_ledger turn
                 (put_segment entry ledger
                    \<lparr>ordinal_owners := dset ord identity (ordinal_owners ledger)\<rparr>)
                 (st0\<lparr>allocated := allocated st0 + 2\<rparr>)))"

text \<open>The entry an attempt still owns: the one its identity maps to, if it is the same object.\<close>

definition owned_entry :: "string \<Rightarrow> 'r segment \<Rightarrow> 'r speech \<Rightarrow> ('r turn_ledger \<times> 'r segment) option" where
  "owned_entry turn seg st =
     (case dget (turn_ledgers st) turn of
        None \<Rightarrow> None
      | Some ledger \<Rightarrow>
          (case dget (segments ledger) (segment_id seg) of
             None \<Rightarrow> None
           | Some s \<Rightarrow> if seg_object s = seg_object seg then Some (ledger, s) else None))"

definition commit_tts_segment ::
  "string \<Rightarrow> 'r segment \<Rightarrow> 'r \<Rightarrow> 'r speech \<Rightarrow> speech_error + 'r speech" where
  "commit_tts_segment turn seg resp st =
     (case owned_entry turn seg st of
        None \<Rightarrow> Inl (Runtime_failure ''speech segment ledger ownership was lost'')
      | Some (ledger, s) \<Rightarrow>
          let ledger' = (put_segment (s\<lparr>sg_state := Committed, response := Some resp\<rparr>) ledger)
                          \<lparr>next_ordinal := ordinal s + 1\<rparr>;
              st1 = put_ledger turn ledger' st;
              st2 = (if final_chunk s
                     then (put_ledger turn (ledger'\<lparr>lg_state := Turn_completed\<rparr>) st)
                            \<lparr>playback_seconds := dpop turn (playback_seconds st)\<rparr>
                     else st1) in
          Inr (fire (attempt_done s) st2))"

definition release_tts_segment_attempt :: "string \<Rightarrow> 'r segment \<Rightarrow> 'r speech \<Rightarrow> 'r speech" where
  "release_tts_segment_attempt turn seg st =
     (case owned_entry turn seg st of
        None \<Rightarrow> st
      | Some (ledger, s) \<Rightarrow>
          if lg_state ledger = Turn_active \<and> sg_state s = In_flight
          then fire (attempt_done s)
                 (put_ledger turn (put_segment (s\<lparr>sg_state := Reserved\<rparr>) ledger) st)
          else st)"

definition cancel_segment :: "'r segment \<Rightarrow> 'r segment" where
  "cancel_segment s = (if sg_state s \<noteq> Committed then s\<lparr>sg_state := Seg_cancelled\<rparr> else s)"

definition open_events :: "'r turn_ledger \<Rightarrow> nat set" where
  "open_events l = set (map attempt_done (filter (\<lambda>s. sg_state s \<noteq> Committed) (map snd (segments l))))"

definition cancel_tts_turn_locked :: "string \<Rightarrow> 'r speech \<Rightarrow> 'r speech" where
  "cancel_tts_turn_locked turn st =
     (let ledger = ledger_of turn st; st0 = put_ledger turn ledger st in
      if lg_state ledger = Turn_completed then st0
      else (put_ledger turn
              (ledger\<lparr>lg_state := Turn_cancelled, segments := dmap cancel_segment (segments ledger)\<rparr>) st0)
             \<lparr>fired := fired st \<union> open_events ledger,
              playback_seconds := dpop turn (playback_seconds st)\<rparr>)"

definition record_tts_turn_playback :: "string \<Rightarrow> rat \<Rightarrow> 'r speech \<Rightarrow> rat \<times> 'r speech" where
  "record_tts_turn_playback turn secs st =
     (let total = (case dget (playback_seconds st) turn of None \<Rightarrow> 0 | Some t \<Rightarrow> t) + max secs 0 in
      (total, st\<lparr>playback_seconds := dset turn total (playback_seconds st)\<rparr>))"

section \<open>The invariant of one ledger\<close>

definition entry_ok :: "'r turn_ledger \<Rightarrow> string \<Rightarrow> 'r segment \<Rightarrow> bool" where
  "entry_ok l i s \<longleftrightarrow> segment_id s = i \<and> dget (ordinal_owners l) (ordinal s) = Some i
     \<and> (sg_state s = Committed \<longrightarrow> response s \<noteq> None \<and> 0 \<le> ordinal s \<and> ordinal s < next_ordinal l)
     \<and> (sg_state s \<noteq> Committed \<longrightarrow> ordinal s = next_ordinal l)
     \<and> (sg_state s = Seg_cancelled \<longrightarrow> lg_state l = Turn_cancelled)
     \<and> (sg_state s = In_flight \<or> sg_state s = Reserved \<longrightarrow> lg_state l = Turn_active)
     \<and> (sg_state s = Committed \<and> final_chunk s \<longrightarrow> lg_state l = Turn_completed)"

definition ledger_ok :: "'r turn_ledger \<Rightarrow> bool" where
  "ledger_ok l \<longleftrightarrow> dict_ok (segments l) \<and> dict_ok (ordinal_owners l) \<and> 0 \<le> next_ordinal l
     \<and> (\<forall>i s. dget (segments l) i = Some s \<longrightarrow> entry_ok l i s)
     \<and> (\<forall>k i. dget (ordinal_owners l) k = Some i \<longrightarrow> (\<exists>s. dget (segments l) i = Some s \<and> ordinal s = k))
     \<and> (\<forall>k. 0 \<le> k \<and> k < next_ordinal l \<longrightarrow>
          (\<exists>i s. dget (segments l) i = Some s \<and> ordinal s = k \<and> sg_state s = Committed))"

lemma new_ledger_ok [simp]: "ledger_ok new_ledger"
  by (simp add: ledger_ok_def new_ledger_def)

lemma ledger_entryD: "ledger_ok l \<Longrightarrow> dget (segments l) i = Some s \<Longrightarrow> entry_ok l i s"
  by (simp add: ledger_ok_def)

lemma ledger_ownerD:
  "ledger_ok l \<Longrightarrow> dget (ordinal_owners l) k = Some i \<Longrightarrow> \<exists>s. dget (segments l) i = Some s \<and> ordinal s = k"
  by (simp add: ledger_ok_def)

lemma ledger_prefixD:
  "ledger_ok l \<Longrightarrow> 0 \<le> k \<Longrightarrow> k < next_ordinal l
   \<Longrightarrow> \<exists>i s. dget (segments l) i = Some s \<and> ordinal s = k \<and> sg_state s = Committed"
  by (simp add: ledger_ok_def)

lemma ledger_okI:
  assumes "dict_ok (segments l)" "dict_ok (ordinal_owners l)" "0 \<le> next_ordinal l"
    and "\<And>i s. dget (segments l) i = Some s \<Longrightarrow> entry_ok l i s"
    and "\<And>k i. dget (ordinal_owners l) k = Some i \<Longrightarrow> \<exists>s. dget (segments l) i = Some s \<and> ordinal s = k"
    and "\<And>k. 0 \<le> k \<Longrightarrow> k < next_ordinal l
          \<Longrightarrow> \<exists>i s. dget (segments l) i = Some s \<and> ordinal s = k \<and> sg_state s = Committed"
  shows "ledger_ok l"
  using assms by (simp add: ledger_ok_def)

lemma ledger_dicts:
  assumes "ledger_ok l"
  shows "dict_ok (segments l)" "dict_ok (ordinal_owners l)" "0 \<le> next_ordinal l"
  using assms by (simp_all add: ledger_ok_def)

text \<open>The owner of an ordinal is unique, so two entries with one ordinal are one entry.\<close>

lemma same_ordinal_same_entry:
  assumes ok: "ledger_ok l" and s: "dget (segments l) i = Some s" and t: "dget (segments l) j = Some t"
    and eq: "ordinal s = ordinal t"
  shows "i = j \<and> s = t"
proof -
  have "i = j" using ledger_entryD [OF ok s] ledger_entryD [OF ok t] eq by (simp add: entry_ok_def)
  with s t show ?thesis by simp
qed

lemma one_open_entry:
  assumes ok: "ledger_ok l" and s: "dget (segments l) i = Some s" and t: "dget (segments l) j = Some t"
    and "sg_state s \<noteq> Committed" "sg_state t \<noteq> Committed"
  shows "i = j \<and> s = t"
  using ledger_entryD [OF ok s] ledger_entryD [OF ok t] assms(4,5)
  by (intro same_ordinal_same_entry [OF ok s t]) (simp add: entry_ok_def)

section \<open>Each operation keeps it\<close>

lemma ledger_ok_new_entry:
  assumes ok: "ledger_ok l" and act: "lg_state l = Turn_active"
    and none: "dget (segments l) i = None" "\<And>j. dget (ordinal_owners l) (next_ordinal l) = Some j \<Longrightarrow> j = i"
    and s: "segment_id s = i" "ordinal s = next_ordinal l" "sg_state s = In_flight"
  shows "ledger_ok (put_segment s l\<lparr>ordinal_owners := dset (next_ordinal l) i (ordinal_owners l)\<rparr>)"
    (is "ledger_ok ?l")
proof -
  have free: "dget (ordinal_owners l) (next_ordinal l) = None"
    using none(1) none(2) ledger_ownerD [OF ok, of "next_ordinal l" i]
    by (cases "dget (ordinal_owners l) (next_ordinal l)") auto
  have clash: "ordinal t \<noteq> next_ordinal l" if "dget (segments l) j = Some t" for j t
    using ledger_entryD [OF ok that] free by (auto simp: entry_ok_def)
  show ?thesis
  proof (rule ledger_okI)
    fix j t assume t: "dget (segments ?l) j = Some t"
    show "entry_ok ?l j t"
    proof (cases "j = i")
      case True
      with t s act show ?thesis by (simp add: put_segment_def entry_ok_def)
    next
      case False
      with t s have "dget (segments l) j = Some t" by (simp add: put_segment_def)
      from ledger_entryD [OF ok this] clash [OF this] False show ?thesis
        by (simp add: put_segment_def entry_ok_def)
    qed
  next
    fix k j assume "dget (ordinal_owners ?l) k = Some j"
    then show "\<exists>t. dget (segments ?l) j = Some t \<and> ordinal t = k"
      using s none(1) ledger_ownerD [OF ok, of k j] by (auto simp: put_segment_def split: if_splits)
  next
    fix k assume "0 \<le> k" "k < next_ordinal ?l"
    then obtain j t where jt: "dget (segments l) j = Some t" "ordinal t = k" "sg_state t = Committed"
      using ledger_prefixD [OF ok, of k] by (auto simp: put_segment_def)
    with none(1) have "j \<noteq> i" by auto
    with jt s show "\<exists>i s. dget (segments ?l) i = Some s \<and> ordinal s = k \<and> sg_state s = Committed"
      by (intro exI [of _ j] exI [of _ t]) (simp add: put_segment_def)
  qed (use ledger_dicts [OF ok] in \<open>simp_all add: put_segment_def\<close>)
qed

text \<open>Changing an open entry's state, or its attempt, keeps its identity and its ordinal.\<close>

lemma ledger_ok_touch:
  assumes ok: "ledger_ok l" and s: "dget (segments l) i = Some s"
    and st: "sg_state s \<noteq> Committed" "sg_state s \<noteq> Seg_cancelled"
    and t: "segment_id t = i" "ordinal t = ordinal s" "sg_state t = In_flight \<or> sg_state t = Reserved"
  shows "ledger_ok (put_segment t l)" (is "ledger_ok ?l")
proof -
  have e: "entry_ok l i s" by (rule ledger_entryD [OF ok s])
  have st': "sg_state s = In_flight \<or> sg_state s = Reserved" using st by (cases "sg_state s") auto
  show ?thesis
  proof (rule ledger_okI)
    fix j u assume u: "dget (segments ?l) j = Some u"
    show "entry_ok ?l j u"
    proof (cases "j = i")
      case True
      with u t e st st' show ?thesis by (auto simp: put_segment_def entry_ok_def)
    next
      case False
      with u t have "dget (segments l) j = Some u" by (simp add: put_segment_def)
      from ledger_entryD [OF ok this] show ?thesis by (simp add: put_segment_def entry_ok_def)
    qed
  next
    fix k j assume "dget (ordinal_owners ?l) k = Some j"
    then show "\<exists>u. dget (segments ?l) j = Some u \<and> ordinal u = k"
      using s t ledger_ownerD [OF ok, of k j] by (auto simp: put_segment_def)
  next
    fix k assume "0 \<le> k" "k < next_ordinal ?l"
    then obtain j u where ju: "dget (segments l) j = Some u" "ordinal u = k" "sg_state u = Committed"
      using ledger_prefixD [OF ok, of k] by (auto simp: put_segment_def)
    with s st have "j \<noteq> i" by auto
    with ju t show "\<exists>i s. dget (segments ?l) i = Some s \<and> ordinal s = k \<and> sg_state s = Committed"
      by (intro exI [of _ j] exI [of _ u]) (simp add: put_segment_def)
  qed (use ledger_dicts [OF ok] in \<open>simp_all add: put_segment_def\<close>)
qed

lemma ledger_ok_commit:
  assumes ok: "ledger_ok l" and s: "dget (segments l) i = Some s" and st: "sg_state s \<noteq> Committed"
    and fin: "final_chunk s \<longleftrightarrow> final" and ls: "ls = (if final then Turn_completed else lg_state l)"
  shows "ledger_ok (put_segment (s\<lparr>sg_state := Committed, response := Some r\<rparr>) l
           \<lparr>next_ordinal := ordinal s + 1, lg_state := ls\<rparr>)" (is "ledger_ok ?l")
proof -
  have e: "entry_ok l i s" by (rule ledger_entryD [OF ok s])
  have only: "sg_state u = Committed" if "dget (segments l) j = Some u" "j \<noteq> i" for j u
    using one_open_entry [OF ok s that(1) st] that(2) by blast
  have act: "lg_state l \<noteq> Turn_completed" using e st by (cases "sg_state s") (auto simp: entry_ok_def)
  show ?thesis
  proof (rule ledger_okI)
    fix j u assume u: "dget (segments ?l) j = Some u"
    show "entry_ok ?l j u"
    proof (cases "j = i")
      case True
      with u e st fin ls ledger_dicts(3) [OF ok] show ?thesis
        by (auto simp: put_segment_def entry_ok_def)
    next
      case False
      with u e have u': "dget (segments l) j = Some u" by (simp add: put_segment_def entry_ok_def)
      from ledger_entryD [OF ok u'] only [OF u' False] act e st show ?thesis
        by (auto simp: put_segment_def entry_ok_def)
    qed
  next
    fix k j assume "dget (ordinal_owners ?l) k = Some j"
    then show "\<exists>u. dget (segments ?l) j = Some u \<and> ordinal u = k"
      using s e ledger_ownerD [OF ok, of k j] by (auto simp: put_segment_def entry_ok_def)
  next
    fix k assume k: "0 \<le> k" "k < next_ordinal ?l"
    show "\<exists>j u. dget (segments ?l) j = Some u \<and> ordinal u = k \<and> sg_state u = Committed"
    proof (cases "k = ordinal s")
      case True
      with e show ?thesis by (intro exI [of _ i]) (simp add: put_segment_def entry_ok_def)
    next
      case False
      with k e st have "k < next_ordinal l" by (simp add: put_segment_def entry_ok_def)
      then obtain j u where ju: "dget (segments l) j = Some u" "ordinal u = k" "sg_state u = Committed"
        using ledger_prefixD [OF ok k(1)] by auto
      with s st have "j \<noteq> i" by auto
      with ju e show ?thesis
        by (intro exI [of _ j] exI [of _ u]) (simp add: put_segment_def entry_ok_def)
    qed
  qed (use ledger_dicts [OF ok] e st in \<open>simp_all add: put_segment_def entry_ok_def\<close>)
qed

lemma cancel_segment_simps [simp]:
  "segment_id (cancel_segment s) = segment_id s" "ordinal (cancel_segment s) = ordinal s"
  "final_chunk (cancel_segment s) = final_chunk s" "response (cancel_segment s) = response s"
  "attempt_done (cancel_segment s) = attempt_done s" "seg_object (cancel_segment s) = seg_object s"
  "content_digest (cancel_segment s) = content_digest s"
  "sg_state (cancel_segment s) = (if sg_state s = Committed then Committed else Seg_cancelled)"
  by (simp_all add: cancel_segment_def)

lemma ledger_ok_cancel:
  assumes ok: "ledger_ok l" and st: "lg_state l \<noteq> Turn_completed"
  shows "ledger_ok (l\<lparr>lg_state := Turn_cancelled, segments := dmap cancel_segment (segments l)\<rparr>)"
    (is "ledger_ok ?l")
proof (rule ledger_okI)
  fix i s assume "dget (segments ?l) i = Some s"
  then obtain u where "dget (segments l) i = Some u" "s = cancel_segment u" by auto
  with ledger_entryD [OF ok this(1)] st show "entry_ok ?l i s" by (auto simp: entry_ok_def)
next
  fix k i assume "dget (ordinal_owners ?l) k = Some i"
  then show "\<exists>s. dget (segments ?l) i = Some s \<and> ordinal s = k"
    using ledger_ownerD [OF ok, of k i] by auto
next
  fix k assume "0 \<le> k" "k < next_ordinal ?l"
  then obtain i s where "dget (segments l) i = Some s" "ordinal s = k" "sg_state s = Committed"
    using ledger_prefixD [OF ok, of k] by auto
  then show "\<exists>i s. dget (segments ?l) i = Some s \<and> ordinal s = k \<and> sg_state s = Committed"
    by (intro exI [of _ i] exI [of _ "cancel_segment s"]) simp
qed (use ledger_dicts [OF ok] in simp_all)

section \<open>The speech state and its steps\<close>

text \<open>
  \<open>held\<close> are the attempts that a coroutine owns: a claim that returned neither a cached response
  nor an event adds one, the commit or the release that ends the attempt removes it.
\<close>

record 'r ledger_sys =
  speech :: "'r speech"
  held :: "(string \<times> 'r segment) set"

datatype 'r ledger_op =
    Op_claim string string bool "string option" "int option"
  | Op_commit string "'r segment" 'r
  | Op_release string "'r segment"
  | Op_cancel string
  | Op_playback string rat

definition hold_claim :: "string \<Rightarrow> 'r claim \<Rightarrow> (string \<times> 'r segment) set \<Rightarrow> (string \<times> 'r segment) set" where
  "hold_claim turn c h = (case c of Inr (s, None, None) \<Rightarrow> insert (turn, s) h | _ \<Rightarrow> h)"

inductive ledger_step :: "(string \<Rightarrow> string) \<Rightarrow> 'r ledger_sys \<Rightarrow> 'r ledger_op \<Rightarrow> 'r ledger_sys \<Rightarrow> bool"
  for sha where
  step_claim: "claim_tts_segment_locked sha turn digest final sid req (speech y) = (c, st)
     \<Longrightarrow> ledger_step sha y (Op_claim turn digest final sid req)
           \<lparr>speech = st, held = hold_claim turn c (held y)\<rparr>"
| step_commit: "(turn, seg) \<in> held y \<Longrightarrow> commit_tts_segment turn seg r (speech y) = Inr st
     \<Longrightarrow> ledger_step sha y (Op_commit turn seg r) \<lparr>speech = st, held = held y - {(turn, seg)}\<rparr>"
| step_release: "(turn, seg) \<in> held y
     \<Longrightarrow> ledger_step sha y (Op_release turn seg)
           \<lparr>speech = release_tts_segment_attempt turn seg (speech y), held = held y - {(turn, seg)}\<rparr>"
| step_cancel: "ledger_step sha y (Op_cancel turn) (y\<lparr>speech := cancel_tts_turn_locked turn (speech y)\<rparr>)"
| step_playback: "ledger_step sha y (Op_playback turn secs)
     (y\<lparr>speech := snd (record_tts_turn_playback turn secs (speech y))\<rparr>)"

inductive_cases ledger_stepE: "ledger_step sha y l z"

definition entry_at :: "'r speech \<Rightarrow> string \<Rightarrow> string \<Rightarrow> 'r segment option" where
  "entry_at st turn i =
     (case dget (turn_ledgers st) turn of None \<Rightarrow> None | Some l \<Rightarrow> dget (segments l) i)"

text \<open>
  The invariant: every ledger is well formed; addresses and events are allocated, and an event
  belongs to one entry; the event of an entry is unfired exactly while an attempt is in flight;
  every attempt in flight is held, and a held attempt is in flight or cancelled.
\<close>

definition events_ok :: "'r speech \<Rightarrow> bool" where
  "events_ok st \<longleftrightarrow>
     (\<forall>e\<in>fired st. e < allocated st)
     \<and> (\<forall>t i s. entry_at st t i = Some s \<longrightarrow> attempt_done s < allocated st \<and> seg_object s < allocated st
          \<and> (sg_state s = In_flight \<longleftrightarrow> attempt_done s \<notin> fired st))
     \<and> (\<forall>t i s t' i' s'. entry_at st t i = Some s \<longrightarrow> entry_at st t' i' = Some s'
          \<longrightarrow> attempt_done s = attempt_done s' \<longrightarrow> t = t' \<and> i = i')"

definition held_ok :: "'r ledger_sys \<Rightarrow> bool" where
  "held_ok y \<longleftrightarrow>
     (\<forall>t g. (t, g) \<in> held y \<longrightarrow> (\<exists>s. entry_at (speech y) t (segment_id g) = Some s
          \<and> seg_object s = seg_object g \<and> attempt_done s = attempt_done g
          \<and> (sg_state s = In_flight \<or> sg_state s = Seg_cancelled)))
     \<and> (\<forall>t i s. entry_at (speech y) t i = Some s \<longrightarrow> sg_state s = In_flight
          \<longrightarrow> (\<exists>g. (t, g) \<in> held y \<and> segment_id g = i \<and> attempt_done g = attempt_done s))
     \<and> (\<forall>t g g'. (t, g) \<in> held y \<longrightarrow> (t, g') \<in> held y \<longrightarrow> segment_id g = segment_id g' \<longrightarrow> g = g')"

definition speech_ok :: "'r speech \<Rightarrow> bool" where
  "speech_ok st \<longleftrightarrow> dict_ok (turn_ledgers st)
     \<and> (\<forall>t l. dget (turn_ledgers st) t = Some l \<longrightarrow> ledger_ok l)"

definition ledger_inv :: "'r ledger_sys \<Rightarrow> bool" where
  "ledger_inv y \<longleftrightarrow> speech_ok (speech y) \<and> events_ok (speech y) \<and> held_ok y"

definition ledger_init :: "'r ledger_sys \<Rightarrow> bool" where
  "ledger_init y \<longleftrightarrow> y = \<lparr>speech = init_speech, held = {}\<rparr>"

lemma put_ledger_fields [simp]:
  "turn_ledgers (put_ledger t l st) = dset t l (turn_ledgers st)"
  "playback_seconds (put_ledger t l st) = playback_seconds st"
  "allocated (put_ledger t l st) = allocated st" "fired (put_ledger t l st) = fired st"
  by (simp_all add: put_ledger_def)

lemma fire_fields [simp]:
  "turn_ledgers (fire e st) = turn_ledgers st" "playback_seconds (fire e st) = playback_seconds st"
  "allocated (fire e st) = allocated st" "fired (fire e st) = insert e (fired st)"
  by (simp_all add: fire_def)

lemma put_segment_fields [simp]:
  "segments (put_segment s l) = dset (segment_id s) s (segments l)"
  "lg_state (put_segment s l) = lg_state l" "next_ordinal (put_segment s l) = next_ordinal l"
  "ordinal_owners (put_segment s l) = ordinal_owners l"
  by (simp_all add: put_segment_def)

lemma speech_ok_put: "speech_ok st \<Longrightarrow> ledger_ok l \<Longrightarrow> speech_ok (put_ledger t l st)"
  by (simp add: speech_ok_def)

lemma speech_ok_cong:
  "speech_ok st \<Longrightarrow> turn_ledgers st' = turn_ledgers st \<Longrightarrow> speech_ok st'"
  by (simp add: speech_ok_def)

lemma ledger_of_ok: "speech_ok st \<Longrightarrow> ledger_ok (ledger_of t st)"
  by (auto simp: speech_ok_def ledger_of_def split: option.split)

lemma entry_at_ledger_of: "entry_at st t i = dget (segments (ledger_of t st)) i"
  by (auto simp: entry_at_def ledger_of_def new_ledger_def split: option.split)

lemma ledger_of_put [simp]: "ledger_of t (put_ledger u l st) = (if t = u then l else ledger_of t st)"
  by (simp add: ledger_of_def)

lemma ledger_of_fields [simp]:
  "ledger_of t (st\<lparr>allocated := n\<rparr>) = ledger_of t st"
  "ledger_of t (st\<lparr>playback_seconds := p\<rparr>) = ledger_of t st"
  "ledger_of t (st\<lparr>fired := f\<rparr>) = ledger_of t st"
  "ledger_of t (fire e st) = ledger_of t st"
  by (simp_all add: ledger_of_def fire_def)

lemma ledger_of_cong: "turn_ledgers st' = turn_ledgers st \<Longrightarrow> ledger_of t st' = ledger_of t st"
  by (simp add: ledger_of_def)

text \<open>\<open>setdefault\<close> on its own changes nothing that the operations see.\<close>

lemma entry_at_setdefault [simp]: "entry_at (put_ledger u (ledger_of u st) st) t i = entry_at st t i"
  by (simp add: entry_at_ledger_of)

lemma owned_entryD:
  "owned_entry t g st = Some (l, s) \<Longrightarrow> dget (turn_ledgers st) t = Some l \<and> ledger_of t st = l
     \<and> dget (segments l) (segment_id g) = Some s \<and> seg_object s = seg_object g"
  by (auto simp: owned_entry_def ledger_of_def split: option.splits if_splits)

lemma owned_entry_held:
  assumes "held_ok y" "(t, g) \<in> held y"
  obtains l s where "owned_entry t g (speech y) = Some (l, s)" "attempt_done s = attempt_done g"
    "sg_state s = In_flight \<or> sg_state s = Seg_cancelled"
proof -
  from assms obtain s where "entry_at (speech y) t (segment_id g) = Some s" "seg_object s = seg_object g"
    "attempt_done s = attempt_done g" "sg_state s = In_flight \<or> sg_state s = Seg_cancelled"
    unfolding held_ok_def by blast
  then show thesis
    by (intro that [of "ledger_of t (speech y)" s])
      (auto simp: owned_entry_def entry_at_def ledger_of_def split: option.splits)
qed

text \<open>The outcomes of a claim.\<close>

lemma claim_cases:
  assumes claim: "claim_tts_segment_locked sha turn digest final sid req st = (c, st')"
  defines "l \<equiv> ledger_of turn st"
  defines "i \<equiv> segment_identity l digest final sid req"
  obtains
    (refused) e where "c = Inl e" "st' = put_ledger turn l st"
  | (replay) s r where "c = Inr (s, Some r, None)" "st' = put_ledger turn l st"
      "dget (segments l) i = Some s" "sg_state s = Committed" "response s = Some r"
      "content_digest s = digest" "final_chunk s = final"
  | (wait) s where "c = Inr (s, None, Some (attempt_done s))" "st' = put_ledger turn l st"
      "dget (segments l) i = Some s" "sg_state s = In_flight"
      "content_digest s = digest" "final_chunk s = final"
  | (reopen) s t where "c = Inr (t, None, None)" "dget (segments l) i = Some s"
      "sg_state s = Reserved" "lg_state l = Turn_active"
      "segment_id t = segment_id s" "ordinal t = ordinal s" "sg_state t = In_flight"
      "seg_object t = seg_object s"
      "content_digest t = digest" "final_chunk t = final"
      "attempt_done t = allocated st" "attempt_generation t = Suc (attempt_generation s)"
      "st' = put_ledger turn (put_segment t l) (put_ledger turn l st\<lparr>allocated := Suc (allocated st)\<rparr>)"
  | (fresh) t where "c = Inr (t, None, None)" "dget (segments l) i = None"
      "lg_state l = Turn_active" "\<And>j. dget (ordinal_owners l) (next_ordinal l) = Some j \<Longrightarrow> j = i"
      "segment_id t = i" "ordinal t = next_ordinal l" "sg_state t = In_flight" "response t = None"
      "content_digest t = digest" "final_chunk t = final"
      "seg_object t = allocated st" "attempt_done t = Suc (allocated st)" "attempt_generation t = 1"
      "st' = put_ledger turn (put_segment t l\<lparr>ordinal_owners := dset (next_ordinal l) i (ordinal_owners l)\<rparr>)
               (put_ledger turn l st\<lparr>allocated := allocated st + 2\<rparr>)"
proof (cases "dget (segments l) i")
  case (Some s)
  note C = claim [unfolded claim_tts_segment_locked_def Let_def, folded l_def, folded i_def,
      unfolded Some option.case]
  show thesis
  proof (cases "(req \<noteq> None \<and> req \<noteq> Some (ordinal s)) \<or> content_digest s \<noteq> digest \<or> final_chunk s \<noteq> final")
    case True
    then show thesis using C by (intro refused) auto
  next
    case same: False
    show thesis
    proof (cases "sg_state s = Committed")
      case True
      then show thesis using C same Some by (cases "response s") (auto intro: refused replay)
    next
      case open_: False
      show thesis
      proof (cases "lg_state l = Turn_active")
        case True
        show thesis
        proof (cases "sg_state s")
          case Reserved
          let ?t = "s\<lparr>sg_state := In_flight, attempt_done := allocated st,
            attempt_generation := Suc (attempt_generation s), worker_request_id :=
              worker_request_id_for_segment sha turn i (ordinal s) digest (Suc (attempt_generation s))\<rparr>"
          from Reserved show thesis using C same open_ True Some by (intro reopen [of ?t s]) auto
        next
          case In_flight
          then show thesis using C same open_ True Some by (intro wait) auto
        qed (use C same open_ True in \<open>auto intro: refused\<close>)
      next
        case False
        then show thesis using C same open_ by (intro refused) auto
      qed
    qed
  qed
next
  case None
  note C = claim [unfolded claim_tts_segment_locked_def Let_def, folded l_def, folded i_def,
      unfolded None option.case]
  let ?ord = "case req of Some k \<Rightarrow> k | None \<Rightarrow> next_ordinal l"
  show thesis
  proof (cases "lg_state l = Turn_active \<and> ?ord = next_ordinal l
      \<and> (\<forall>j. dget (ordinal_owners l) (next_ordinal l) = Some j \<longrightarrow> j = i)")
    case True
    then have free: "\<not> (case dget (ordinal_owners l) (next_ordinal l) of None \<Rightarrow> False | Some j \<Rightarrow> j \<noteq> i)"
      by (auto split: option.splits)
    let ?t = "\<lparr>seg_object = allocated st, segment_id = i, ordinal = next_ordinal l,
      content_digest = digest, final_chunk = final,
      worker_request_id = worker_request_id_for_segment sha turn i (next_ordinal l) digest 1,
      attempt_generation = 1, sg_state = In_flight, response = None,
      attempt_done = Suc (allocated st)\<rparr>"
    from True free C None show thesis by (intro fresh [of ?t]) auto
  next
    case False
    then have "\<exists>e. c = Inl e \<and> st' = put_ledger turn l st"
      using C by (auto split: if_splits option.splits)
    then show thesis by (auto intro: refused)
  qed
qed

section \<open>Every step keeps the invariant\<close>

lemma events_okD:
  assumes "events_ok st" "entry_at st t i = Some s"
  shows "attempt_done s < allocated st" "seg_object s < allocated st"
    "sg_state s = In_flight \<longleftrightarrow> attempt_done s \<notin> fired st"
    "entry_at st t' i' = Some s' \<Longrightarrow> attempt_done s = attempt_done s' \<Longrightarrow> t = t' \<and> i = i'"
  using assms unfolding events_ok_def by blast+

lemma fired_allocated: "events_ok st \<Longrightarrow> e \<in> fired st \<Longrightarrow> e < allocated st"
  unfolding events_ok_def by blast

lemma events_okI:
  assumes "\<And>e. e \<in> fired st \<Longrightarrow> e < allocated st"
    and "\<And>t i s. entry_at st t i = Some s \<Longrightarrow> attempt_done s < allocated st \<and> seg_object s < allocated st
          \<and> (sg_state s = In_flight \<longleftrightarrow> attempt_done s \<notin> fired st)"
    and "\<And>t i s t' i' s'. entry_at st t i = Some s \<Longrightarrow> entry_at st t' i' = Some s'
          \<Longrightarrow> attempt_done s = attempt_done s' \<Longrightarrow> t = t' \<and> i = i'"
  shows "events_ok st"
  using assms unfolding events_ok_def by blast

lemma held_okD:
  assumes "held_ok y" "(t, g) \<in> held y"
  shows "\<exists>s. entry_at (speech y) t (segment_id g) = Some s \<and> seg_object s = seg_object g
      \<and> attempt_done s = attempt_done g \<and> (sg_state s = In_flight \<or> sg_state s = Seg_cancelled)"
    and "(t, g') \<in> held y \<Longrightarrow> segment_id g = segment_id g' \<Longrightarrow> g = g'"
  using assms unfolding held_ok_def by blast+

lemma in_flight_held:
  assumes "held_ok y" "entry_at (speech y) t i = Some s" "sg_state s = In_flight"
  shows "\<exists>g. (t, g) \<in> held y \<and> segment_id g = i \<and> attempt_done g = attempt_done s"
  using assms unfolding held_ok_def by blast

lemma held_okI:
  assumes "\<And>t g. (t, g) \<in> held y \<Longrightarrow> \<exists>s. entry_at (speech y) t (segment_id g) = Some s
      \<and> seg_object s = seg_object g \<and> attempt_done s = attempt_done g
      \<and> (sg_state s = In_flight \<or> sg_state s = Seg_cancelled)"
    and "\<And>t i s. entry_at (speech y) t i = Some s \<Longrightarrow> sg_state s = In_flight
          \<Longrightarrow> \<exists>g. (t, g) \<in> held y \<and> segment_id g = i \<and> attempt_done g = attempt_done s"
    and "\<And>t g g'. (t, g) \<in> held y \<Longrightarrow> (t, g') \<in> held y \<Longrightarrow> segment_id g = segment_id g' \<Longrightarrow> g = g'"
  shows "held_ok y"
  using assms unfolding held_ok_def by blast

lemma events_ok_open:
  assumes ok: "events_ok st"
    and at: "\<And>t i. entry_at st' t i = (if t = T \<and> i = I then Some s else entry_at st t i)"
    and s: "sg_state s = In_flight" "allocated st \<le> attempt_done s" "attempt_done s < allocated st'"
      "seg_object s < allocated st'"
    and f: "fired st' = fired st"
  shows "events_ok st'"
proof (rule events_okI)
  have le: "allocated st < allocated st'" using s(2,3) by simp
  fix e assume "e \<in> fired st'"
  then have "e < allocated st" using f fired_allocated [OF ok] by simp
  with le show "e < allocated st'" by simp
next
  fix t i u assume u: "entry_at st' t i = Some u"
  show "attempt_done u < allocated st' \<and> seg_object u < allocated st'
      \<and> (sg_state u = In_flight \<longleftrightarrow> attempt_done u \<notin> fired st')"
  proof (cases "t = T \<and> i = I")
    case True
    then have "u = s" using u at by simp
    then show ?thesis using s f fired_allocated [OF ok, of "attempt_done s"] by auto
  next
    case False
    then have "entry_at st t i = Some u" using u at by auto
    from events_okD(1-3) [OF ok this] s f show ?thesis by auto
  qed
next
  fix t i u t' i' u'
  assume u: "entry_at st' t i = Some u" "entry_at st' t' i' = Some u'" "attempt_done u = attempt_done u'"
  have old: "attempt_done v < allocated st" if "entry_at st a b = Some v" for a b v
    using events_okD(1) [OF ok that] .
  show "t = t' \<and> i = i'"
    using u s(2) events_okD(4) [OF ok, of t i u t' i' u']
    by (auto simp: at split: if_splits dest!: old)
qed

lemma events_ok_close:
  assumes ok: "events_ok st" and old: "entry_at st T I = Some s"
    and at: "\<And>t i. entry_at st' t i = (if t = T \<and> i = I then Some s' else entry_at st t i)"
    and s': "sg_state s' \<noteq> In_flight" "attempt_done s' = attempt_done s" "seg_object s' = seg_object s"
    and f: "fired st' = insert (attempt_done s) (fired st)" "allocated st' = allocated st"
  shows "events_ok st'"
proof (rule events_okI)
  fix e assume "e \<in> fired st'"
  then show "e < allocated st'" using f fired_allocated [OF ok] events_okD(1) [OF ok old] by auto
next
  fix t i u assume u: "entry_at st' t i = Some u"
  show "attempt_done u < allocated st' \<and> seg_object u < allocated st'
      \<and> (sg_state u = In_flight \<longleftrightarrow> attempt_done u \<notin> fired st')"
  proof (cases "t = T \<and> i = I")
    case True
    then have "u = s'" using u at by simp
    then show ?thesis using s' f events_okD(1,2) [OF ok old] by simp
  next
    case False
    then have u': "entry_at st t i = Some u" using u at by auto
    then have "attempt_done u \<noteq> attempt_done s" using False events_okD(4) [OF ok u' old] by auto
    with events_okD(1-3) [OF ok u'] f show ?thesis by simp
  qed
next
  fix t i u t' i' u'
  assume u: "entry_at st' t i = Some u" "entry_at st' t' i' = Some u'" "attempt_done u = attempt_done u'"
  define pre where "pre a b v = (if a = T \<and> b = I then s else v)" for a b v
  have pre: "entry_at st a b = Some (pre a b v) \<and> attempt_done (pre a b v) = attempt_done v"
    if "entry_at st' a b = Some v" for a b v
    using that at old s' by (auto simp: pre_def split: if_splits)
  show "t = t' \<and> i = i'"
    using events_okD(4) [OF ok, of t i "pre t i u" t' i' "pre t' i' u'"] pre [OF u(1)] pre [OF u(2)] u(3)
    by simp
qed

lemma held_ok_open:
  assumes ok: "held_ok y"
    and at: "\<And>t i. entry_at st t i = (if t = T \<and> i = segment_id s then Some s else entry_at (speech y) t i)"
    and s: "sg_state s = In_flight"
    and none: "\<And>g. (T, g) \<in> held y \<Longrightarrow> segment_id g \<noteq> segment_id s"
  shows "held_ok \<lparr>speech = st, held = insert (T, s) (held y)\<rparr>" (is "held_ok ?y")
proof (rule held_okI)
  fix t g assume g: "(t, g) \<in> held ?y"
  show "\<exists>s. entry_at (speech ?y) t (segment_id g) = Some s \<and> seg_object s = seg_object g
      \<and> attempt_done s = attempt_done g \<and> (sg_state s = In_flight \<or> sg_state s = Seg_cancelled)"
  proof (cases "t = T \<and> segment_id g = segment_id s")
    case True
    then have "g = s" using g none by auto
    then show ?thesis using True s by (simp add: at)
  next
    case False
    then have "(t, g) \<in> held y" using g by auto
    from held_okD(1) [OF ok this] False show ?thesis by (auto simp: at)
  qed
next
  fix t i u assume "entry_at (speech ?y) t i = Some u" "sg_state u = In_flight"
  then show "\<exists>g. (t, g) \<in> held ?y \<and> segment_id g = i \<and> attempt_done g = attempt_done u"
    using in_flight_held [OF ok, of t i u] by (auto simp: at split: if_splits)
next
  fix t g g' assume h: "(t, g) \<in> held ?y" "(t, g') \<in> held ?y" "segment_id g = segment_id g'"
  show "g = g'"
  proof (cases "t = T \<and> segment_id g = segment_id s")
    case True
    then have "(t, g) \<notin> held y" "(t, g') \<notin> held y" using none [of g] none [of g'] h(3) by auto
    then show ?thesis using h by simp
  next
    case False
    then have "(t, g) \<in> held y" "(t, g') \<in> held y" using h by auto
    then show ?thesis using held_okD(2) [OF ok] h(3) by blast
  qed
qed

lemma held_ok_close:
  assumes ok: "held_ok y" and g: "(T, g) \<in> held y"
    and at: "\<And>t i. entry_at st t i = (if t = T \<and> i = segment_id g then Some s' else entry_at (speech y) t i)"
    and s': "sg_state s' \<noteq> In_flight"
  shows "held_ok \<lparr>speech = st, held = held y - {(T, g)}\<rparr>" (is "held_ok ?y")
proof (rule held_okI)
  fix t h assume h: "(t, h) \<in> held ?y"
  then have "\<not> (t = T \<and> segment_id h = segment_id g)" using held_okD(2) [OF ok, of T h g] g by auto
  with held_okD(1) [OF ok, of t h] h
  show "\<exists>s. entry_at (speech ?y) t (segment_id h) = Some s \<and> seg_object s = seg_object h
      \<and> attempt_done s = attempt_done h \<and> (sg_state s = In_flight \<or> sg_state s = Seg_cancelled)"
    by (auto simp: at)
next
  fix t i u assume "entry_at (speech ?y) t i = Some u" "sg_state u = In_flight"
  then show "\<exists>g. (t, g) \<in> held ?y \<and> segment_id g = i \<and> attempt_done g = attempt_done u"
    using in_flight_held [OF ok, of t i u] s' by (fastforce simp: at split: if_splits)
next
  fix t h h' assume "(t, h) \<in> held ?y" "(t, h') \<in> held ?y" "segment_id h = segment_id h'"
  then show "h = h'" using held_okD(2) [OF ok, of t h h'] by auto
qed

lemma no_holder:
  assumes "held_ok y" "entry_at (speech y) T I = None \<or> (\<exists>s. entry_at (speech y) T I = Some s \<and> sg_state s = Reserved)"
    and "(T, g) \<in> held y"
  shows "segment_id g \<noteq> I"
  using assms unfolding held_ok_def by fastforce

lemma entry_at_put_segment:
  "entry_at (put_ledger T (put_segment s (ledger_of T st)) st') t i =
     (if t = T then (if i = segment_id s then Some s else entry_at st T i) else entry_at st' t i)"
  by (simp add: entry_at_ledger_of)

lemma entry_at_cong: "turn_ledgers st' = turn_ledgers st \<Longrightarrow> entry_at st' t i = entry_at st t i"
  by (simp add: entry_at_def)

lemma events_ok_cong:
  assumes "events_ok st" "\<And>t i. entry_at st' t i = entry_at st t i" "fired st' = fired st"
    "allocated st' = allocated st"
  shows "events_ok st'"
  using assms unfolding events_ok_def by simp

lemma held_ok_cong:
  assumes "held_ok y" "\<And>t i. entry_at (speech z) t i = entry_at (speech y) t i" "held z = held y"
  shows "held_ok z"
  using assms unfolding held_ok_def by simp

lemma claim_keeps:
  assumes inv: "ledger_inv y" and claim: "claim_tts_segment_locked sha turn digest final sid req (speech y) = (c, st)"
  shows "ledger_inv \<lparr>speech = st, held = hold_claim turn c (held y)\<rparr>"
proof -
  define l where "l = ledger_of turn (speech y)"
  define i where "i = segment_identity l digest final sid req"
  have ok: "speech_ok (speech y)" "events_ok (speech y)" "held_ok y" using inv by (simp_all add: ledger_inv_def)
  have lok: "ledger_ok l" using ok(1) by (simp add: l_def ledger_of_ok)
  have same: "ledger_inv \<lparr>speech = put_ledger turn l (speech y), held = held y\<rparr>"
    using ok lok unfolding ledger_inv_def
    by (auto intro: speech_ok_put events_ok_cong [of "speech y"] held_ok_cong [of y] simp: l_def)
  from claim show ?thesis
  proof (cases rule: claim_cases [case_names refused replay wait reopen fresh])
    case (reopen s t)
    note reopen = reopen [folded l_def, folded i_def]
    have i: "segment_id t = i" "segment_id s = i"
      using ledger_entryD [OF lok reopen(2)] reopen(5) by (simp_all add: entry_ok_def)
    have at: "entry_at st u j = (if u = turn \<and> j = segment_id t then Some t else entry_at (speech y) u j)" for u j
      using reopen i by (simp add: entry_at_ledger_of l_def)
    have old: "entry_at (speech y) turn i = Some s" using reopen by (simp add: entry_at_ledger_of l_def)
    have "ledger_ok (put_segment t l)"
      using reopen i by (intro ledger_ok_touch [OF lok, of i s t]) auto
    moreover have "speech_ok (put_ledger turn l (speech y))" using ok(1) lok by (rule speech_ok_put)
    ultimately have "speech_ok st" using reopen by (auto intro!: speech_ok_put elim: speech_ok_cong)
    moreover have "events_ok st"
      using ok(2) old reopen by (intro events_ok_open [OF ok(2) at]) (auto simp: events_ok_def less_Suc_eq)
    moreover have "held_ok \<lparr>speech = st, held = insert (turn, t) (held y)\<rparr>"
      by (rule held_ok_open [OF ok(3) at reopen(7) no_holder [OF ok(3)]]) (use reopen i old in auto)
    ultimately show ?thesis using reopen by (simp add: ledger_inv_def hold_claim_def)
  next
    case (fresh t)
    note fresh = fresh [folded l_def, folded i_def]
    have at: "entry_at st u j = (if u = turn \<and> j = segment_id t then Some t else entry_at (speech y) u j)" for u j
      using fresh by (simp add: entry_at_ledger_of l_def)
    have old: "entry_at (speech y) turn i = None" using fresh by (simp add: entry_at_ledger_of l_def)
    have "ledger_ok (put_segment t l\<lparr>ordinal_owners := dset (next_ordinal l) i (ordinal_owners l)\<rparr>)"
      using fresh by (intro ledger_ok_new_entry [OF lok]) auto
    moreover have "speech_ok (put_ledger turn l (speech y))" using ok(1) lok by (rule speech_ok_put)
    ultimately have "speech_ok st" using fresh by (auto intro!: speech_ok_put elim: speech_ok_cong)
    moreover have "events_ok st"
      using fresh by (intro events_ok_open [OF ok(2) at]) auto
    moreover have "held_ok \<lparr>speech = st, held = insert (turn, t) (held y)\<rparr>"
      by (rule held_ok_open [OF ok(3) at fresh(7) no_holder [OF ok(3)]]) (use fresh old in auto)
    ultimately show ?thesis using fresh by (simp add: ledger_inv_def hold_claim_def)
  qed (use same in \<open>auto simp: hold_claim_def l_def\<close>)
qed

lemma commit_keeps:
  assumes inv: "ledger_inv y" and h: "(turn, g) \<in> held y"
    and com: "commit_tts_segment turn g r (speech y) = Inr st"
  shows "ledger_inv \<lparr>speech = st, held = held y - {(turn, g)}\<rparr>"
proof -
  have ok: "speech_ok (speech y)" "events_ok (speech y)" "held_ok y" using inv by (simp_all add: ledger_inv_def)
  obtain l s where own: "owned_entry turn g (speech y) = Some (l, s)"
    and s: "attempt_done s = attempt_done g" "sg_state s = In_flight \<or> sg_state s = Seg_cancelled"
    using owned_entry_held [OF ok(3) h] by metis
  note o = owned_entryD [OF own]
  have lok: "ledger_ok l" using ledger_of_ok [OF ok(1), of turn] o by simp
  have id: "segment_id s = segment_id g" using ledger_entryD [OF lok] o by (simp add: entry_ok_def)
  let ?s = "s\<lparr>sg_state := Committed, response := Some r\<rparr>"
  let ?ls = "if final_chunk s then Turn_completed else lg_state l"
  define l' where "l' = put_segment ?s l\<lparr>next_ordinal := ordinal s + 1, lg_state := ?ls\<rparr>"
  have l': "ledger_ok l'" unfolding l'_def
    using o s by (intro ledger_ok_commit [OF lok, of "segment_id g"]) auto
  have st: "turn_ledgers st = dset turn l' (turn_ledgers (speech y))"
    "fired st = insert (attempt_done s) (fired (speech y))" "allocated st = allocated (speech y)"
    using com own by (cases l; cases "final_chunk s"; auto simp: commit_tts_segment_def Let_def l'_def put_segment_def)+
  have at: "entry_at st u j = (if u = turn \<and> j = segment_id g then Some ?s else entry_at (speech y) u j)" for u j
    using o id by (simp add: entry_at_def st l'_def)
  have old: "entry_at (speech y) turn (segment_id g) = Some s" using o by (simp add: entry_at_def)
  have "speech_ok st" using ok(1) l' by (simp add: speech_ok_def st)
  moreover have "events_ok st"
    by (rule events_ok_close [OF ok(2) old at]) (simp_all add: st)
  moreover have "held_ok \<lparr>speech = st, held = held y - {(turn, g)}\<rparr>"
    by (rule held_ok_close [OF ok(3) h at]) simp
  ultimately show ?thesis by (simp add: ledger_inv_def)
qed

lemma release_keeps:
  assumes inv: "ledger_inv y" and h: "(turn, g) \<in> held y"
  shows "ledger_inv \<lparr>speech = release_tts_segment_attempt turn g (speech y), held = held y - {(turn, g)}\<rparr>"
proof -
  have ok: "speech_ok (speech y)" "events_ok (speech y)" "held_ok y" using inv by (simp_all add: ledger_inv_def)
  obtain l s where own: "owned_entry turn g (speech y) = Some (l, s)"
    and s: "attempt_done s = attempt_done g" "sg_state s = In_flight \<or> sg_state s = Seg_cancelled"
    using owned_entry_held [OF ok(3) h] by metis
  note o = owned_entryD [OF own]
  have lok: "ledger_ok l" using ledger_of_ok [OF ok(1), of turn] o by simp
  have e: "entry_ok l (segment_id g) s" using ledger_entryD [OF lok] o by simp
  have old: "entry_at (speech y) turn (segment_id g) = Some s" using o by (simp add: entry_at_def)
  show ?thesis
  proof (cases "sg_state s = In_flight")
    case True
    let ?s = "s\<lparr>sg_state := Reserved\<rparr>"
    define st where "st = release_tts_segment_attempt turn g (speech y)"
    have st: "turn_ledgers st = dset turn (put_segment ?s l) (turn_ledgers (speech y))"
      "fired st = insert (attempt_done s) (fired (speech y))" "allocated st = allocated (speech y)"
      using own True e by (simp_all add: st_def release_tts_segment_attempt_def entry_ok_def)
    have at: "entry_at st u j = (if u = turn \<and> j = segment_id g then Some ?s else entry_at (speech y) u j)" for u j
      using o e by (simp add: entry_at_def st entry_ok_def)
    have "ledger_ok (put_segment ?s l)"
      using o e True by (intro ledger_ok_touch [OF lok, of "segment_id g" s]) (auto simp: entry_ok_def)
    then have "speech_ok st" using ok(1) by (simp add: speech_ok_def st)
    moreover have "events_ok st"
      by (rule events_ok_close [OF ok(2) old at]) (simp_all add: st)
    moreover have "held_ok \<lparr>speech = st, held = held y - {(turn, g)}\<rparr>"
      by (rule held_ok_close [OF ok(3) h at]) simp
    ultimately show ?thesis by (simp add: ledger_inv_def st_def)
  next
    case False
    have at: "entry_at (speech y) u j = (if u = turn \<and> j = segment_id g then Some s else entry_at (speech y) u j)" for u j
      using old by simp
    have "held_ok \<lparr>speech = speech y, held = held y - {(turn, g)}\<rparr>"
      by (rule held_ok_close [OF ok(3) h at]) (use False in simp)
    moreover have "release_tts_segment_attempt turn g (speech y) = speech y"
      using own False by (simp add: release_tts_segment_attempt_def)
    ultimately show ?thesis using ok by (simp add: ledger_inv_def)
  qed
qed

lemma open_events_iff:
  assumes "dict_ok (segments l)"
  shows "e \<in> open_events l \<longleftrightarrow> (\<exists>i s. dget (segments l) i = Some s \<and> sg_state s \<noteq> Committed \<and> attempt_done s = e)"
  using dget_mem [OF assms] by (fastforce simp: open_events_def image_iff)

lemma cancel_keeps:
  assumes inv: "ledger_inv y"
  shows "ledger_inv (y\<lparr>speech := cancel_tts_turn_locked turn (speech y)\<rparr>)"
proof -
  define l where "l = ledger_of turn (speech y)"
  have ok: "speech_ok (speech y)" "events_ok (speech y)" "held_ok y" using inv by (simp_all add: ledger_inv_def)
  have lok: "ledger_ok l" using ok(1) by (simp add: l_def ledger_of_ok)
  define st where "st = cancel_tts_turn_locked turn (speech y)"
  show ?thesis
  proof (cases "lg_state l = Turn_completed")
    case True
    then have "st = put_ledger turn l (speech y)"
      by (simp add: st_def cancel_tts_turn_locked_def l_def Let_def)
    moreover have "ledger_inv (y\<lparr>speech := put_ledger turn l (speech y)\<rparr>)"
      using ok lok unfolding ledger_inv_def
      by (auto intro: speech_ok_put events_ok_cong [of "speech y"] held_ok_cong [of y] simp: l_def)
    ultimately show ?thesis by (simp add: st_def)
  next
    case False
    define l' where "l' = l\<lparr>lg_state := Turn_cancelled, segments := dmap cancel_segment (segments l)\<rparr>"
    have st: "turn_ledgers st = dset turn l' (dset turn l (turn_ledgers (speech y)))"
      "fired st = fired (speech y) \<union> open_events l" "allocated st = allocated (speech y)"
      using False by (simp_all add: st_def cancel_tts_turn_locked_def l_def Let_def l'_def)
    have at: "entry_at st u j =
        (if u = turn then map_option cancel_segment (entry_at (speech y) u j) else entry_at (speech y) u j)" for u j
      by (simp add: entry_at_ledger_of ledger_of_def st l'_def l_def)
    have opn: "e \<in> open_events l \<longleftrightarrow>
        (\<exists>i s. entry_at (speech y) turn i = Some s \<and> sg_state s \<noteq> Committed \<and> attempt_done s = e)" for e
      using open_events_iff [of l e] ledger_dicts [OF lok] by (simp add: entry_at_ledger_of l_def)
    have pre: "\<exists>u. entry_at (speech y) t i = Some u \<and> s = (if t = turn then cancel_segment u else u)
        \<and> attempt_done s = attempt_done u \<and> seg_object s = seg_object u"
      if "entry_at st t i = Some s" for t i s
      using that by (auto simp: at split: if_splits)
    have "ledger_ok l'" unfolding l'_def by (rule ledger_ok_cancel [OF lok False])
    then have "speech_ok st" using ok(1) lok by (auto simp: speech_ok_def st)
    moreover have "events_ok st"
    proof (rule events_okI)
      fix e assume "e \<in> fired st"
      then show "e < allocated st"
        using fired_allocated [OF ok(2)] events_okD(1) [OF ok(2)] by (auto simp: st opn)
    next
      fix t i s assume "entry_at st t i = Some s"
      then obtain u where u: "entry_at (speech y) t i = Some u" "s = (if t = turn then cancel_segment u else u)"
        using pre by blast
      have "attempt_done u \<in> open_events l \<longleftrightarrow> t = turn \<and> sg_state u \<noteq> Committed"
      proof
        assume "attempt_done u \<in> open_events l"
        then obtain j v where v: "entry_at (speech y) turn j = Some v" "sg_state v \<noteq> Committed"
          "attempt_done v = attempt_done u" unfolding opn by blast
        then have "t = turn \<and> i = j" using events_okD(4) [OF ok(2) u(1) v(1)] by simp
        with u(1) v show "t = turn \<and> sg_state u \<noteq> Committed" by simp
      next
        assume "t = turn \<and> sg_state u \<noteq> Committed"
        with u(1) show "attempt_done u \<in> open_events l" unfolding opn by blast
      qed
      then show "attempt_done s < allocated st \<and> seg_object s < allocated st
          \<and> (sg_state s = In_flight \<longleftrightarrow> attempt_done s \<notin> fired st)"
        using events_okD(1-3) [OF ok(2) u(1)] u(2) by (auto simp: st)
    next
      fix t i s t' i' s'
      assume s: "entry_at st t i = Some s" "entry_at st t' i' = Some s'" and eq: "attempt_done s = attempt_done s'"
      obtain u u' where "entry_at (speech y) t i = Some u" "entry_at (speech y) t' i' = Some u'"
        "attempt_done u = attempt_done u'"
        using pre [OF s(1)] pre [OF s(2)] eq by auto
      then show "t = t' \<and> i = i'" by (rule events_okD(4) [OF ok(2)])
    qed
    moreover have "held_ok (y\<lparr>speech := st\<rparr>)"
    proof (rule held_okI)
      fix t g assume "(t, g) \<in> held (y\<lparr>speech := st\<rparr>)"
      then show "\<exists>s. entry_at (speech (y\<lparr>speech := st\<rparr>)) t (segment_id g) = Some s \<and> seg_object s = seg_object g
          \<and> attempt_done s = attempt_done g \<and> (sg_state s = In_flight \<or> sg_state s = Seg_cancelled)"
        using held_okD(1) [OF ok(3), of t g] by (auto simp: at)
    next
      fix t i s assume "entry_at (speech (y\<lparr>speech := st\<rparr>)) t i = Some s" "sg_state s = In_flight"
      then show "\<exists>g. (t, g) \<in> held (y\<lparr>speech := st\<rparr>) \<and> segment_id g = i \<and> attempt_done g = attempt_done s"
        using in_flight_held [OF ok(3), of t i s] by (auto simp: at split: if_splits)
    qed (use held_okD(2) [OF ok(3)] in auto)
    ultimately show ?thesis by (simp add: ledger_inv_def st_def)
  qed
qed

lemma playback_keeps:
  "ledger_inv y \<Longrightarrow> ledger_inv (y\<lparr>speech := snd (record_tts_turn_playback turn secs (speech y))\<rparr>)"
  by (simp add: ledger_inv_def record_tts_turn_playback_def Let_def speech_ok_def events_ok_def held_ok_def
      entry_at_def)

interpretation ledger: machine ledger_init "ledger_step sha" ledger_inv for sha
proof unfold_locales
  fix y :: "'r ledger_sys" assume "ledger_init y"
  then show "ledger_inv y"
    by (simp add: ledger_init_def ledger_inv_def init_speech_def speech_ok_def events_ok_def held_ok_def
        entry_at_def)
next
  fix y l z assume "ledger_step sha y l z" "ledger_inv (y :: 'r ledger_sys)"
  then show "ledger_inv z"
  proof (cases rule: ledger_step.cases)
    case (step_claim turn digest final sid req c st)
    with \<open>ledger_inv y\<close> show ?thesis by (simp add: claim_keeps)
  next
    case (step_commit turn seg r st)
    with \<open>ledger_inv y\<close> show ?thesis by (simp add: commit_keeps)
  next
    case (step_release turn seg)
    with \<open>ledger_inv y\<close> show ?thesis by (simp add: release_keeps)
  next
    case (step_cancel turn)
    with \<open>ledger_inv y\<close> show ?thesis by (simp add: cancel_keeps)
  next
    case (step_playback turn secs)
    with \<open>ledger_inv y\<close> show ?thesis by (simp add: playback_keeps)
  qed
qed

section \<open>What a claim can return in a reachable state\<close>

abbreviation ledger_reach :: "(string \<Rightarrow> string) \<Rightarrow> 'r ledger_sys \<Rightarrow> bool" where
  "ledger_reach sha \<equiv> reach ledger_init (ledger_step sha)"

lemma reach_ledger_ok:
  "ledger_reach sha y \<Longrightarrow> dget (turn_ledgers (speech y)) turn = Some l \<Longrightarrow> ledger_ok l"
  using ledger.inv_reach by (fastforce simp: ledger_inv_def speech_ok_def)

lemma setdefault_turn_ledgers:
  "dget (turn_ledgers (put_ledger t (ledger_of t st) st)) u =
     (if u = t then Some (ledger_of t st) else dget (turn_ledgers st) u)"
  by simp

definition committed_entry :: "string \<Rightarrow> string \<Rightarrow> string \<Rightarrow> bool \<Rightarrow> int \<Rightarrow> 'r \<Rightarrow> 'r speech \<Rightarrow> bool" where
  "committed_entry turn i digest final k r st \<longleftrightarrow>
     (\<exists>s. entry_at st turn i = Some s \<and> sg_state s = Committed \<and> response s = Some r
        \<and> content_digest s = digest \<and> final_chunk s = final \<and> ordinal s = k)"

lemma claim_keeps_committed:
  assumes ok: "speech_ok st" and c: "committed_entry turn i digest final k r st"
    and claim: "claim_tts_segment_locked sha T D F sid req st = (c, st')"
  shows "committed_entry turn i digest final k r st'"
proof -
  from claim have "entry_at st' t j = Some u" if "entry_at st t j = Some u" "sg_state u = Committed" for t j u
  proof (cases rule: claim_cases [case_names refused replay wait reopen fresh])
    case (reopen s v)
    then have "segment_id s = segment_identity (ledger_of T st) D F sid req"
      using ledger_entryD [OF ledger_of_ok [OF ok]] by (simp add: entry_ok_def)
    with reopen that show ?thesis by (auto simp: entry_at_ledger_of)
  next
    case (fresh v)
    with that show ?thesis by (auto simp: entry_at_ledger_of)
  qed (use that in simp_all)
  with c show ?thesis unfolding committed_entry_def by blast
qed

lemma step_keeps_committed:
  assumes "ledger_step sha y l z" "ledger_inv y" "committed_entry turn i digest final k r (speech y)"
  shows "committed_entry turn i digest final k r (speech z)"
  using assms
proof (cases rule: ledger_step.cases)
  case (step_claim T D F sid req c st)
  then show ?thesis using claim_keeps_committed [OF _ assms(3) step_claim(3)] assms(2)
    by (simp add: ledger_inv_def)
next
  case (step_commit T g q st)
  have hok: "held_ok y" using assms(2) by (simp add: ledger_inv_def)
  have lok: "ledger_ok (ledger_of T (speech y))" using assms(2) by (simp add: ledger_inv_def ledger_of_ok)
  obtain m s where own: "owned_entry T g (speech y) = Some (m, s)" "sg_state s = In_flight \<or> sg_state s = Seg_cancelled"
    using owned_entry_held [OF hok step_commit(3)] by metis
  note o = owned_entryD [OF own(1)]
  have "segment_id s = segment_id g" using ledger_entryD [OF lok] o by (auto simp: entry_ok_def)
  then have "entry_at st t j = (if t = T \<and> j = segment_id g
      then Some (s\<lparr>sg_state := Committed, response := Some q\<rparr>) else entry_at (speech y) t j)" for t j
    using step_commit own(1) o
    by (auto simp: commit_tts_segment_def Let_def entry_at_ledger_of split: if_splits)
  moreover have "entry_at (speech y) T (segment_id g) = Some s" using o by (simp add: entry_at_def)
  ultimately show ?thesis using assms(3) own(2) step_commit unfolding committed_entry_def by auto
next
  case (step_release T g)
  have lok: "ledger_ok (ledger_of T (speech y))" using assms(2) by (simp add: ledger_inv_def ledger_of_ok)
  show ?thesis
  proof (cases "owned_entry T g (speech y)")
    case None
    with assms step_release show ?thesis by (simp add: release_tts_segment_attempt_def)
  next
    case (Some p)
    obtain m s where p: "p = (m, s)" by (cases p)
    note o = owned_entryD [OF Some [unfolded p]]
    have "segment_id s = segment_id g" using ledger_entryD [OF lok] o by (auto simp: entry_ok_def)
    with Some p o assms(3) step_release show ?thesis unfolding committed_entry_def
      by (auto simp: release_tts_segment_attempt_def entry_at_ledger_of)
  qed
next
  case (step_cancel T)
  with assms(3) show ?thesis unfolding committed_entry_def
    by (auto simp: cancel_tts_turn_locked_def Let_def entry_at_ledger_of cancel_segment_def)
next
  case (step_playback T secs)
  with assms(3) show ?thesis by (simp add: record_tts_turn_playback_def Let_def committed_entry_def entry_at_ledger_of)
qed

lemma run_keeps_committed:
  assumes r: "run_of (ledger_step sha) y ls z" and i: "ledger_inv y"
    and c: "committed_entry turn i digest final k r (speech y)"
  shows "committed_entry turn i digest final k r (speech z)"
  by (rule ledger.stable_run [where P = "\<lambda>y. committed_entry turn i digest final k r (speech y)", OF _ r i c])
    (rule step_keeps_committed)

lemma claim_committed_replays:
  assumes "committed_entry turn i digest final k r st" and "req = None \<or> req = Some k"
  shows "\<exists>s. claim_tts_segment_locked sha turn digest final (Some i) req st
           = (Inr (s, Some r, None), put_ledger turn (ledger_of turn st) st)"
  using assms
  by (auto simp: committed_entry_def claim_tts_segment_locked_def segment_identity_def Let_def entry_at_ledger_of)

text \<open>A turn that is no longer active stays so.\<close>

definition turn_closed :: "string \<Rightarrow> 'r speech \<Rightarrow> bool" where
  "turn_closed turn st \<longleftrightarrow> lg_state (ledger_of turn st) \<noteq> Turn_active"

lemma step_keeps_closed:
  assumes "ledger_step sha y l z" "ledger_inv y" "turn_closed turn (speech y)"
  shows "turn_closed turn (speech z)"
  using assms
proof (cases rule: ledger_step.cases)
  case (step_claim T D F sid req c st)
  from step_claim(3) have "turn_closed turn st"
    using assms(3) by (cases rule: claim_cases) (auto simp: turn_closed_def)
  with step_claim show ?thesis by simp
next
  case (step_commit T g q st)
  then show ?thesis using assms(3)
    by (auto simp: turn_closed_def commit_tts_segment_def Let_def split: option.splits if_splits
        dest!: owned_entryD)
next
  case (step_release T g)
  then show ?thesis using assms(3)
    by (auto simp: turn_closed_def release_tts_segment_attempt_def split: option.splits dest!: owned_entryD)
next
  case (step_cancel T)
  then show ?thesis using assms(3)
    by (auto simp: turn_closed_def cancel_tts_turn_locked_def Let_def)
next
  case (step_playback T secs)
  then show ?thesis using assms(3) by (simp add: turn_closed_def record_tts_turn_playback_def Let_def)
qed

lemma run_keeps_closed:
  assumes r: "run_of (ledger_step sha) y ls z" and i: "ledger_inv y" and c: "turn_closed turn (speech y)"
  shows "turn_closed turn (speech z)"
  by (rule ledger.stable_run [where P = "\<lambda>y. turn_closed turn (speech y)", OF _ r i c])
    (rule step_keeps_closed)

lemma closed_turn_claims:
  assumes closed: "turn_closed turn st" and ok: "speech_ok st"
    and claim: "claim_tts_segment_locked sha turn digest final sid req st = (c, st')"
  shows "(\<exists>e. c = Inl e) \<or> (\<exists>s r. c = Inr (s, Some r, None))"
  using claim
proof (cases rule: claim_cases [case_names refused replay wait reopen fresh])
  case (wait s)
  then show ?thesis
    using closed ledger_entryD [OF ledger_of_ok [OF ok]] by (auto simp: turn_closed_def entry_ok_def)
qed (use closed in \<open>auto simp: turn_closed_def\<close>)

section \<open>Properties\<close>

text \<open>
  A run for the witnesses: the first segment of a turn is claimed, then committed with the
  response 7.
\<close>

definition demo_sha :: "string \<Rightarrow> string" where
  "demo_sha s = s"

definition demo_claim :: "nat claim \<times> nat speech" where
  "demo_claim = claim_tts_segment_locked demo_sha ''t'' ''d'' False (Some ''a'') None init_speech"

definition demo_seg :: "nat segment" where
  "demo_seg = fst (projr (fst demo_claim))"

definition demo1 :: "nat ledger_sys" where
  "demo1 = \<lparr>speech = snd demo_claim, held = {(''t'', demo_seg)}\<rparr>"

definition demo2 :: "nat ledger_sys" where
  "demo2 = \<lparr>speech = projr (commit_tts_segment ''t'' demo_seg 7 (speech demo1)), held = {}\<rparr>"

lemmas ledger_eval = claim_tts_segment_locked_def commit_tts_segment_def release_tts_segment_attempt_def
  cancel_tts_turn_locked_def owned_entry_def ledger_of_def put_ledger_def put_segment_def fire_def
  new_ledger_def init_speech_def segment_identity_def Let_def dset_def dpop_def entry_at_def

lemma demo_claim_eq:
  "demo_claim = (Inr (demo_seg, None, None), snd demo_claim)"
  by (simp add: demo_claim_def demo_seg_def ledger_eval)

lemma demo1_reach: "ledger_reach demo_sha demo1"
proof -
  have "ledger_step demo_sha \<lparr>speech = init_speech, held = {}\<rparr> (Op_claim ''t'' ''d'' False (Some ''a'') None)
      \<lparr>speech = snd demo_claim, held = hold_claim ''t'' (fst demo_claim) {}\<rparr>"
    by (rule ledger_step.step_claim [of demo_sha _ _ _ _ _ "\<lparr>speech = init_speech, held = {}\<rparr>", simplified])
      (simp add: demo_claim_def)
  moreover have "hold_claim ''t'' (fst demo_claim) {} = {(''t'', demo_seg)}"
    by (subst demo_claim_eq) (simp add: hold_claim_def)
  ultimately show ?thesis
    by (auto simp: demo1_def ledger_init_def intro: reach.reach_step [OF reach.reach_init])
qed

lemma demo2_step: "ledger_step demo_sha demo1 (Op_commit ''t'' demo_seg 7) demo2"
proof -
  have "commit_tts_segment ''t'' demo_seg 7 (speech demo1) = Inr (speech demo2)"
    by (simp add: demo2_def demo1_def demo_seg_def demo_claim_def ledger_eval)
  from ledger_step.step_commit [OF _ this] show ?thesis by (simp add: demo1_def demo2_def)
qed

lemma demo2_reach: "ledger_reach demo_sha demo2"
  by (rule reach.reach_step [OF demo1_reach demo2_step])

lemma demo2_committed: "committed_entry ''t'' ''a'' ''d'' False 0 7 (speech demo2)"
  by (simp add: committed_entry_def demo2_def demo1_def demo_seg_def demo_claim_def ledger_eval)

text \<open>
  \<^bold>\<open>C25\<close>. In every reachable state the ordinals of a turn's committed segments are exactly
  \<open>0, ..., next_ordinal - 1\<close>, no two segments share an ordinal, and at most one segment is not
  committed: speech is committed in order, without gaps or duplicates, and one attempt at a time.
\<close>

theorem committed_segments_form_prefix:
  assumes "ledger_reach sha y" and "dget (turn_ledgers (speech y)) turn = Some l"
  shows "{ordinal s |i s. dget (segments l) i = Some s \<and> sg_state s = Committed} = {0..<next_ordinal l}
    \<and> (\<forall>i s j t. dget (segments l) i = Some s \<longrightarrow> dget (segments l) j = Some t
         \<longrightarrow> (ordinal s = ordinal t \<or> (sg_state s \<noteq> Committed \<and> sg_state t \<noteq> Committed)) \<longrightarrow> i = j)"
proof -
  have ok: "ledger_ok l" using assms by (rule reach_ledger_ok)
  have "{ordinal s |i s. dget (segments l) i = Some s \<and> sg_state s = Committed} = {0..<next_ordinal l}"
  proof (intro set_eqI iffI)
    fix k assume "k \<in> {ordinal s |i s. dget (segments l) i = Some s \<and> sg_state s = Committed}"
    then show "k \<in> {0..<next_ordinal l}" using ledger_entryD [OF ok] by (auto simp: entry_ok_def)
  next
    fix k assume "k \<in> {0..<next_ordinal l}"
    then obtain i s where "dget (segments l) i = Some s" "ordinal s = k" "sg_state s = Committed"
      using ledger_prefixD [OF ok, of k] by auto
    then show "k \<in> {ordinal s |i s. dget (segments l) i = Some s \<and> sg_state s = Committed}" by blast
  qed
  moreover have "i = j" if "dget (segments l) i = Some s" "dget (segments l) j = Some t"
      "ordinal s = ordinal t \<or> (sg_state s \<noteq> Committed \<and> sg_state t \<noteq> Committed)" for i s j t
    using that same_ordinal_same_entry [OF ok that(1,2)] one_open_entry [OF ok that(1,2)] by auto
  ultimately show ?thesis by simp
qed

theorem committed_segments_form_prefix_witness:
  "\<exists>l. dget (turn_ledgers (speech demo2)) ''t'' = Some l \<and> next_ordinal l = 1
     \<and> {ordinal s |i s. dget (segments l) i = Some s \<and> sg_state s = Committed} = {0..<1}"
proof -
  obtain l where l: "dget (turn_ledgers (speech demo2)) ''t'' = Some l" "next_ordinal l = 1"
    by (simp add: demo2_def demo1_def demo_seg_def demo_claim_def ledger_eval)
  with committed_segments_form_prefix [OF demo2_reach l(1)] show ?thesis by simp
qed

text \<open>
  \<^bold>\<open>C29\<close>. Retries of a spoken segment are idempotent: once a segment is committed with a response,
  then after any further operations of the session (cancellation and completion of the turn
  included) a claim with the same identity, text and finality replays that response, starts no
  attempt and changes no ledger entry.
\<close>

theorem committed_segment_replays:
  assumes "ledger_reach sha y" and "run_of (ledger_step sha) y ls z"
    and "committed_entry turn i digest final k r (speech y)" and "req = None \<or> req = Some k"
  shows "\<exists>s. claim_tts_segment_locked sha turn digest final (Some i) req (speech z)
           = (Inr (s, Some r, None), put_ledger turn (ledger_of turn (speech z)) (speech z))"
proof -
  have "ledger_inv y" using assms(1) by (rule ledger.inv_reach)
  then have "committed_entry turn i digest final k r (speech z)"
    using run_keeps_committed [OF assms(2)] assms(3) by blast
  then show ?thesis using assms(4) by (rule claim_committed_replays)
qed

theorem committed_segment_replays_witness:
  "\<exists>z s. z = demo2\<lparr>speech := cancel_tts_turn_locked ''t'' (speech demo2)\<rparr>
     \<and> fst (claim_tts_segment_locked demo_sha ''t'' ''d'' False (Some ''a'') (Some 0) (speech z))
         = Inr (s, Some 7, None)"
proof -
  have "run_of (ledger_step demo_sha) demo2 [Op_cancel ''t'']
      (demo2\<lparr>speech := cancel_tts_turn_locked ''t'' (speech demo2)\<rparr>)"
    by (rule run_of.run_cons, rule ledger_step.step_cancel, rule run_of.run_nil)
  from committed_segment_replays [OF demo2_reach this demo2_committed, of "Some 0"] show ?thesis by auto
qed

text \<open>
  \<^bold>\<open>C30\<close>. A turn that was cancelled or completed admits no further speech: after any further
  operations, a claim on it either raises or replays a committed response; it never starts an
  attempt and never waits.
\<close>

theorem closed_turn_admits_nothing:
  assumes "ledger_reach sha y" and "turn_closed turn (speech y)" and "run_of (ledger_step sha) y ls z"
    and "claim_tts_segment_locked sha turn digest final sid req (speech z) = (c, st)"
  shows "(\<exists>e. c = Inl e) \<or> (\<exists>s r. c = Inr (s, Some r, None))"
proof -
  have inv: "ledger_inv y" using assms(1) by (rule ledger.inv_reach)
  have "turn_closed turn (speech z)"
    by (rule run_keeps_closed [OF assms(3) inv assms(2)])
  moreover have "speech_ok (speech z)"
    using ledger.inv_run [OF assms(3) inv] by (simp add: ledger_inv_def)
  ultimately show ?thesis using assms(4) by (rule closed_turn_claims)
qed

theorem closed_turn_admits_nothing_witness:
  "(\<exists>e. fst (claim_tts_segment_locked demo_sha ''t'' ''e'' True (Some ''b'') None
        (cancel_tts_turn_locked ''t'' (speech demo1))) = Inl e)"
proof -
  let ?y = "demo1\<lparr>speech := cancel_tts_turn_locked ''t'' (speech demo1)\<rparr>"
  let ?c = "claim_tts_segment_locked demo_sha ''t'' ''e'' True (Some ''b'') None (speech ?y)"
  have r: "ledger_reach demo_sha ?y" by (rule reach.reach_step [OF demo1_reach ledger_step.step_cancel])
  have cl: "turn_closed ''t'' (speech ?y)"
    by (simp add: turn_closed_def demo1_def demo_claim_def ledger_eval)
  have "(\<exists>e. fst ?c = Inl e) \<or> (\<exists>s r. fst ?c = Inr (s, Some r, None))"
    by (rule closed_turn_admits_nothing [OF r cl run_of.run_nil]) (rule prod.collapse [symmetric])
  moreover have "\<not> (\<exists>s r. fst ?c = Inr (s, Some r, None))"
    by (simp add: demo1_def demo_claim_def ledger_eval dmap_def cancel_segment_def)
  ultimately show ?thesis by simp
qed

text \<open>
  \<^bold>\<open>C32\<close>. No lost wake-up: when a claim makes its caller wait, the event it returns is unfired and
  belongs to an attempt that some coroutine holds, and each way for that attempt to end - its
  commit, its release, the cancellation of the turn - fires the event.
\<close>

theorem waiting_claim_is_woken:
  assumes "ledger_reach sha y"
    and "claim_tts_segment_locked sha turn digest final sid req (speech y) = (Inr (s, None, Some e), st)"
  shows "e \<notin> fired (speech y)
    \<and> (\<exists>g. (turn, g) \<in> held y
         \<and> (\<exists>st'. commit_tts_segment turn g r (speech y) = Inr st' \<and> e \<in> fired st')
         \<and> e \<in> fired (release_tts_segment_attempt turn g (speech y))
         \<and> e \<in> fired (cancel_tts_turn_locked turn (speech y)))"
proof -
  have inv: "speech_ok (speech y)" "events_ok (speech y)" "held_ok y"
    using ledger.inv_reach [OF assms(1)] by (simp_all add: ledger_inv_def)
  let ?l = "ledger_of turn (speech y)"
  have lok: "ledger_ok ?l" using inv(1) by (rule ledger_of_ok)
  obtain i where i: "dget (segments ?l) i = Some s" "sg_state s = In_flight" "e = attempt_done s"
    using assms(2) by (cases rule: claim_cases) auto
  have at: "entry_at (speech y) turn i = Some s" using i by (simp add: entry_at_ledger_of)
  have act: "lg_state ?l = Turn_active" using ledger_entryD [OF lok i(1)] i(2) by (simp add: entry_ok_def)
  obtain g where g: "(turn, g) \<in> held y" "segment_id g = i" using in_flight_held [OF inv(3) at i(2)] by auto
  obtain m u where own: "owned_entry turn g (speech y) = Some (m, u)"
    using owned_entry_held [OF inv(3) g(1)] by metis
  have mu: "m = ?l" "u = s" using owned_entryD [OF own] i g by auto
  have "\<exists>st'. commit_tts_segment turn g r (speech y) = Inr st' \<and> e \<in> fired st'"
    using own mu i by (simp add: commit_tts_segment_def Let_def)
  moreover have "e \<in> fired (release_tts_segment_attempt turn g (speech y))"
    using own mu i act by (simp add: release_tts_segment_attempt_def)
  moreover have "e \<in> fired (cancel_tts_turn_locked turn (speech y))"
  proof -
    have "e \<in> open_events ?l"
      unfolding open_events_iff [OF ledger_dicts(1) [OF lok]]
      using i by (intro exI [of _ i] exI [of _ s]) simp
    then show ?thesis using act by (simp add: cancel_tts_turn_locked_def Let_def)
  qed
  moreover have "e \<notin> fired (speech y)" using events_okD(3) [OF inv(2) at] i by simp
  ultimately show ?thesis using g(1) by blast
qed

theorem waiting_claim_is_woken_witness:
  "1 \<notin> fired (speech demo1) \<and> (\<exists>g. (''t'', g) \<in> held demo1
     \<and> 1 \<in> fired (release_tts_segment_attempt ''t'' g (speech demo1)))"
proof -
  have "\<exists>s st. claim_tts_segment_locked demo_sha ''t'' ''d'' False (Some ''a'') None (speech demo1)
      = (Inr (s, None, Some 1), st)"
    by (simp add: demo1_def demo_claim_def ledger_eval)
  then obtain s st where
    c: "claim_tts_segment_locked demo_sha ''t'' ''d'' False (Some ''a'') None (speech demo1)
      = (Inr (s, None, Some 1), st)" by blast
  from waiting_claim_is_woken [OF demo1_reach c, of 0] show ?thesis by blast
qed

text \<open>
  Reusing a segment's identity with another text, another finality or another ordinal is
  refused as a conflict and changes neither the entry nor any event.
\<close>

theorem reused_identity_conflicts:
  assumes "entry_at st turn i = Some s"
    and "digest \<noteq> content_digest s \<or> final \<noteq> final_chunk s \<or> (req \<noteq> None \<and> req \<noteq> Some (ordinal s))"
  shows "\<exists>m st'. claim_tts_segment_locked sha turn digest final (Some i) req st = (Inl (Segment_conflict m), st')
    \<and> fired st' = fired st \<and> (\<forall>t j. entry_at st' t j = entry_at st t j)"
  using assms
  by (auto simp: claim_tts_segment_locked_def segment_identity_def Let_def entry_at_ledger_of [of st turn])

theorem reused_identity_conflicts_witness:
  "\<exists>m st'. claim_tts_segment_locked demo_sha ''t'' ''other'' False (Some ''a'') None (speech demo1)
     = (Inl (Segment_conflict m), st') \<and> fired st' = fired (speech demo1)"
proof -
  have "entry_at (speech demo1) ''t'' ''a'' = Some demo_seg" "content_digest demo_seg = ''d''"
    by (simp_all add: demo1_def demo_seg_def demo_claim_def ledger_eval)
  with reused_identity_conflicts [of "speech demo1" "''t''" "''a''" demo_seg "''other''" False None demo_sha]
  show ?thesis by auto
qed

end
