(* ===== verification/Regex.thy ===== *)
theory Regex
  imports Prelude
begin

text \<open>
  The part of Python's \<open>re\<close> module that the program uses, as an executable backtracking
  matcher over code-point texts. \<open>ends al r t i\<close> lists the end positions of the matches of \<open>r\<close> in
  \<open>t\<close> that start at \<open>i\<close>, in the order in which the module's backtracking finds them: greedy
  repetition tries the longest run first, an alternative its left side first. The head of the list is
  the match that \<open>match\<close> reports, and \<open>search\<close> and \<open>finditer\<close> are built on it. Patterns are
  written as terms of \<open>rx\<close>, constructor by constructor from the source's pattern strings.
\<close>

datatype cls = Any | Space | Non_space | One_of "nat list" | None_of "nat list"

text \<open>
  \<open>\<backslash>w\<close> on ASCII is written out; on the rest of Unicode it is \<open>str.isalnum\<close>, the parameter \<open>al\<close>
  (the Unicode character database).
\<close>

definition word_char :: "(nat \<Rightarrow> bool) \<Rightarrow> nat \<Rightarrow> bool" where
  "word_char al c \<longleftrightarrow> (if c < 128 then (48 \<le> c \<and> c \<le> 57) \<or> (65 \<le> c \<and> c \<le> 90) \<or> (97 \<le> c \<and> c \<le> 122) \<or> c = 95
     else al c)"

fun in_cls :: "cls \<Rightarrow> nat \<Rightarrow> bool" where
  "in_cls Any c \<longleftrightarrow> c \<noteq> 10"
| "in_cls Space c \<longleftrightarrow> py_space c"
| "in_cls Non_space c \<longleftrightarrow> \<not> py_space c"
| "in_cls (One_of cs) c \<longleftrightarrow> c \<in> set cs"
| "in_cls (None_of cs) c \<longleftrightarrow> c \<notin> set cs"

datatype rx =
    Eps
  | Lit "nat list"
  | Rep cls nat "nat option"
  | Seq rx rx
  | Alt rx rx
  | Bos
  | Eos
  | Word_boundary
  | Ahead rx
  | Behind cls

text \<open>The length of the longest run of a class at a position, cut at an upper bound.\<close>

fun run_len :: "cls \<Rightarrow> nat option \<Rightarrow> ptext \<Rightarrow> nat" where
  "run_len c b [] = 0"
| "run_len c b (x # xs) =
     (if b \<noteq> Some 0 \<and> in_cls c x then Suc (run_len c (map_option (\<lambda>n. n - 1) b) xs) else 0)"

fun ends :: "(nat \<Rightarrow> bool) \<Rightarrow> rx \<Rightarrow> ptext \<Rightarrow> nat \<Rightarrow> nat list" where
  "ends al Eps t i = [i]"
| "ends al (Lit w) t i = (if take (length w) (drop i t) = w then [i + length w] else [])"
| "ends al (Rep c lo hi) t i =
     map (\<lambda>n. i + n) (rev [lo..<Suc (run_len c hi (drop i t))])"
| "ends al (Seq r s) t i = concat (map (ends al s t) (ends al r t i))"
| "ends al (Alt r s) t i = ends al r t i @ ends al s t i"
| "ends al Bos t i = (if i = 0 then [i] else [])"
| "ends al Eos t i = (if i = length t \<or> (Suc i = length t \<and> t ! i = 10) then [i] else [])"
| "ends al Word_boundary t i =
     (if (0 < i \<and> i \<le> length t \<and> word_char al (t ! (i - 1))) \<noteq> (i < length t \<and> word_char al (t ! i))
      then [i] else [])"
| "ends al (Ahead r) t i = (if ends al r t i = [] then [] else [i])"
| "ends al (Behind c) t i = (if 0 < i \<and> i \<le> length t \<and> in_cls c (t ! (i - 1)) then [i] else [])"

definition opt :: "rx \<Rightarrow> rx" where
  "opt r = Alt r Eps"

fun seqs :: "rx list \<Rightarrow> rx" where
  "seqs [] = Eps"
| "seqs [r] = r"
| "seqs (r # rs) = Seq r (seqs rs)"

fun alts :: "rx list \<Rightarrow> rx" where
  "alts [] = Eps"
| "alts [r] = r"
| "alts (r # rs) = Alt r (alts rs)"

definition word_lit :: "string \<Rightarrow> rx" where
  "word_lit s = Lit (lit s)"

definition spaces1 :: rx where
  "spaces1 = Rep Space 1 None"

definition spaces0 :: rx where
  "spaces0 = Rep Space 0 None"

text \<open>\<open>pattern.search(text) is not None\<close>.\<close>

definition found :: "(nat \<Rightarrow> bool) \<Rightarrow> rx \<Rightarrow> ptext \<Rightarrow> bool" where
  "found al r t \<longleftrightarrow> list_ex (\<lambda>i. ends al r t i \<noteq> []) [0..<Suc (length t)]"

text \<open>
  \<open>finditer\<close>: the matches from left to right, each search resuming at the end of the match before
  it (the program's patterns never match the empty text, so the resumption rule for empty matches is
  not needed: a start whose first match is empty is skipped).
\<close>

function finditer_from :: "(nat \<Rightarrow> bool) \<Rightarrow> rx \<Rightarrow> ptext \<Rightarrow> nat \<Rightarrow> (nat \<times> nat) list" where
  "finditer_from al r t i =
     (if length t < i then []
      else case ends al r t i of
             e # _ \<Rightarrow> if i < e then (i, e) # finditer_from al r t e else finditer_from al r t (Suc i)
           | [] \<Rightarrow> finditer_from al r t (Suc i))"
  by pat_completeness auto
termination
  by (relation "measure (\<lambda>(al, r, t, i). Suc (length t) - i)") auto

declare finditer_from.simps [simp del]

definition finditer :: "(nat \<Rightarrow> bool) \<Rightarrow> rx \<Rightarrow> ptext \<Rightarrow> (nat \<times> nat) list" where
  "finditer al r t = finditer_from al r t 0"

section \<open>Laws\<close>

lemma run_len_le: "run_len c b t \<le> length t"
  by (induction c b t rule: run_len.induct) auto

lemma run_len_bound: "run_len c (Some n) t \<le> n"
proof (induction t arbitrary: n)
  case (Cons x xs)
  show ?case using Cons [of "n - 1"] by (cases n) auto
qed simp

lemma run_len_all: "j < run_len c b t \<Longrightarrow> in_cls c (t ! j)"
proof (induction c b t arbitrary: j rule: run_len.induct)
  case (2 c b x xs)
  then show ?case by (cases j) (auto split: if_splits)
qed simp

text \<open>A match ends inside the text and never before its start.\<close>

lemma ends_range: "i \<le> length t \<Longrightarrow> e \<in> set (ends al r t i) \<Longrightarrow> i \<le> e \<and> e \<le> length t"
proof (induction r arbitrary: i e)
  case (Lit w)
  have "length w \<le> length (drop i t)" if "take (length w) (drop i t) = w"
    using that by (metis length_take min.cobounded1)
  then show ?case using Lit by (auto split: if_splits)
next
  case (Rep c lo hi)
  then show ?case using run_len_le [of c hi "drop i t"] by auto
next
  case (Seq r s)
  from Seq.prems obtain m where m: "m \<in> set (ends al r t i)" "e \<in> set (ends al s t m)" by auto
  from Seq.IH(1) [OF Seq.prems(1) m(1)] have "i \<le> m \<and> m \<le> length t" .
  moreover from this Seq.IH(2) [of m e] m(2) have "m \<le> e \<and> e \<le> length t" by simp
  ultimately show ?case by simp
next
  case (Alt r s)
  from Alt.prems(2) have "e \<in> set (ends al r t i) \<or> e \<in> set (ends al s t i)" by simp
  with Alt.IH(1) [OF Alt.prems(1)] Alt.IH(2) [OF Alt.prems(1)] show ?case by blast
next
  case (Ahead r)
  from Ahead.prems show ?case by (simp split: if_splits)
qed (simp_all split: if_splits)

lemma found_iff: "found al r t \<longleftrightarrow> (\<exists>i\<le>length t. ends al r t i \<noteq> [])"
  unfolding found_def list_ex_iff set_upt by (auto simp: less_Suc_eq_le Bex_def)

lemma finditer_from_range:
  "(s, e) \<in> set (finditer_from al r t i) \<Longrightarrow> i \<le> s \<and> s < e \<and> e \<le> length t \<and> hd (ends al r t s) = e \<and> ends al r t s \<noteq> []"
proof (induction al r t i rule: finditer_from.induct)
  case (1 al r t i)
  show ?case
  proof (cases "length t < i")
    case True
    then show ?thesis using "1.prems" by (simp add: finditer_from.simps [of al r t i])
  next
    case False
    show ?thesis
    proof (cases "ends al r t i")
      case Nil
      then show ?thesis using "1.prems" False "1.IH"(1) [OF False Nil] by (auto simp: finditer_from.simps [of al r t i])
    next
      case (Cons a as)
      then have a: "a \<le> length t" using False ends_range [of i t a al r] by simp
      show ?thesis
        using "1.prems" False Cons a "1.IH"(2) [OF False Cons] "1.IH"(3) [OF False Cons]
        by (auto simp: finditer_from.simps [of al r t i] split: if_splits)
    qed
  qed
qed

lemma finditer_range:
  "(s, e) \<in> set (finditer al r t) \<Longrightarrow> s < e \<and> e \<le> length t \<and> hd (ends al r t s) = e \<and> ends al r t s \<noteq> []"
  unfolding finditer_def by (drule finditer_from_range) simp

section \<open>A matcher on suffixes\<close>

text \<open>
  The same matches computed without positions: a place in the text is the character before it and the
  text after it. \<open>found\<close> is evaluated with it.
\<close>

type_synonym place = "nat option \<times> ptext"

definition place_at :: "ptext \<Rightarrow> nat \<Rightarrow> place" where
  "place_at t i = ((if i = 0 then None else Some (t ! (i - 1))), drop i t)"

fun eat :: "nat list \<Rightarrow> place \<Rightarrow> place list" where
  "eat [] p = [p]"
| "eat (c # w) (b, x # xs) = (if c = x then eat w (Some x, xs) else [])"
| "eat (c # w) (b, []) = []"

fun runs :: "cls \<Rightarrow> nat \<Rightarrow> nat option \<Rightarrow> nat option \<Rightarrow> ptext \<Rightarrow> place list" where
  "runs c lo hi b [] = (if lo = 0 then [(b, [])] else [])"
| "runs c lo hi b (x # xs) =
     (if hi \<noteq> Some 0 \<and> in_cls c x then runs c (lo - 1) (map_option (\<lambda>n. n - 1) hi) (Some x) xs else [])
     @ (if lo = 0 then [(b, x # xs)] else [])"

fun boundary_at :: "(nat \<Rightarrow> bool) \<Rightarrow> place \<Rightarrow> bool" where
  "boundary_at al (b, xs) \<longleftrightarrow>
     (case b of None \<Rightarrow> False | Some c \<Rightarrow> word_char al c)
     \<noteq> (case xs of [] \<Rightarrow> False | c # _ \<Rightarrow> word_char al c)"

fun matches :: "(nat \<Rightarrow> bool) \<Rightarrow> rx \<Rightarrow> place \<Rightarrow> place list" where
  "matches al Eps p = [p]"
| "matches al (Lit w) p = eat w p"
| "matches al (Rep c lo hi) p = runs c lo hi (fst p) (snd p)"
| "matches al (Seq r s) p = concat (map (matches al s) (matches al r p))"
| "matches al (Alt r s) p = matches al r p @ matches al s p"
| "matches al Bos p = (if fst p = None then [p] else [])"
| "matches al Eos p = (if snd p = [] \<or> snd p = [10] then [p] else [])"
| "matches al Word_boundary p = (if boundary_at al p then [p] else [])"
| "matches al (Ahead r) p = (if matches al r p = [] then [] else [p])"
| "matches al (Behind c) p = (case fst p of None \<Rightarrow> [] | Some x \<Rightarrow> if in_cls c x then [p] else [])"

lemma place_at_Suc: "i < length t \<Longrightarrow> place_at t (Suc i) = (Some (t ! i), drop (Suc i) t)"
  by (simp add: place_at_def)

lemma place_at_Cons:
  "i < length t \<Longrightarrow> \<exists>b. place_at t i = (b, t ! i # drop (Suc i) t) \<and> fst (place_at t i) = b"
  by (simp add: place_at_def Cons_nth_drop_Suc)

lemma eat_place:
  "i \<le> length t \<Longrightarrow> eat w (place_at t i)
     = (if take (length w) (drop i t) = w then [place_at t (i + length w)] else [])"
proof (induction w arbitrary: i)
  case (Cons c w)
  show ?case
  proof (cases "i < length t")
    case True
    then have d: "drop i t = t ! i # drop (Suc i) t" by (simp add: Cons_nth_drop_Suc)
    obtain b where "place_at t i = (b, t ! i # drop (Suc i) t)" using place_at_Cons [OF True] by blast
    moreover have "eat w (Some (t ! i), drop (Suc i) t)
        = (if take (length w) (drop (Suc i) t) = w then [place_at t (Suc i + length w)] else [])"
      using Cons.IH [of "Suc i"] True by (simp add: place_at_Suc)
    ultimately show ?thesis unfolding d by auto
  next
    case False
    with Cons.prems show ?thesis by (simp add: place_at_def)
  qed
qed simp

lemma runs_place:
  "i \<le> length t \<Longrightarrow> runs c lo hi (fst (place_at t i)) (drop i t)
     = map (\<lambda>n. place_at t (i + n)) (rev [lo..<Suc (run_len c hi (drop i t))])"
proof (induction "length t - i" arbitrary: i lo hi)
  case 0
  then show ?case by (simp add: place_at_def)
next
  case (Suc n)
  then have i: "i < length t" by simp
  let ?h = "map_option (\<lambda>n. n - 1) hi"
  have d: "drop i t = t ! i # drop (Suc i) t" using i by (simp add: Cons_nth_drop_Suc)
  have here: "(fst (place_at t i), t ! i # drop (Suc i) t) = place_at t i"
    using place_at_Cons [OF i] by auto
  have "n = length t - Suc i" "Suc i \<le> length t" using Suc.hyps(2) i by simp_all
  from Suc.hyps(1) [OF this, of "lo - 1" ?h]
  have IH: "runs c (lo - 1) ?h (Some (t ! i)) (drop (Suc i) t)
      = map (\<lambda>n. place_at t (Suc i + n)) (rev [lo - 1..<Suc (run_len c ?h (drop (Suc i) t))])"
    by (simp add: place_at_Suc [OF i])
  have shift: "rev [lo..<Suc (Suc m)] = map Suc (rev [lo - 1..<Suc m]) @ (if lo = 0 then [0] else [])" for m
  proof (cases lo)
    case 0
    have "[0..<Suc (Suc m)] = 0 # map Suc [0..<Suc m]" using upt_conv_Cons [of 0 "Suc (Suc m)"] by (simp only: map_Suc_upt)
    with 0 show ?thesis by (simp add: rev_map del: upt_Suc)
  next
    case (Suc k)
    then show ?thesis by (simp add: map_Suc_upt del: upt_Suc flip: rev_map)
  qed
  show ?case
  proof (cases "hi \<noteq> Some 0 \<and> in_cls c (t ! i)")
    case True
    have "map (\<lambda>n. place_at t (i + n)) (rev [lo..<Suc (Suc m)])
        = map (\<lambda>n. place_at t (Suc i + n)) (rev [lo - 1..<Suc m]) @ (if lo = 0 then [place_at t i] else [])" for m
      unfolding shift by (simp add: comp_def del: upt_Suc)
    with True show ?thesis unfolding d by (simp add: IH here del: upt_Suc One_nat_def)
  next
    case False
    have "run_len c hi (t ! i # drop (Suc i) t) = 0"
      and "runs c lo hi b (t ! i # drop (Suc i) t) = (if lo = 0 then [(b, t ! i # drop (Suc i) t)] else [])" for b
      using False by (auto simp del: Cons_nth_drop_Suc)
    then show ?thesis unfolding d using here by (cases lo) (simp_all del: Cons_nth_drop_Suc)
  qed
qed

lemma boundary_place:
  "i \<le> length t \<Longrightarrow> boundary_at al (place_at t i) \<longleftrightarrow>
     (0 < i \<and> i \<le> length t \<and> word_char al (t ! (i - 1))) \<noteq> (i < length t \<and> word_char al (t ! i))"
  by (cases "i < length t") (auto simp: place_at_def simp flip: Cons_nth_drop_Suc)

lemma matches_ends: "i \<le> length t \<Longrightarrow> matches al r (place_at t i) = map (place_at t) (ends al r t i)"
proof (induction r arbitrary: i)
  case (Lit w)
  then show ?case by (simp add: eat_place)
next
  case (Rep c lo hi)
  then show ?case using runs_place [of i t c lo hi] by (simp add: place_at_def comp_def del: upt_Suc)
next
  case (Seq r s)
  have "matches al s (place_at t e) = map (place_at t) (ends al s t e)" if "e \<in> set (ends al r t i)" for e
    using Seq.IH(2) ends_range [OF Seq.prems that] by simp
  then show ?case using Seq.IH(1) [OF Seq.prems]
    by (simp add: map_concat comp_def cong: map_cong)
next
  case Eos
  have "drop i t = [10] \<longleftrightarrow> Suc i = length t \<and> t ! i = 10"
  proof (cases "i < length t")
    case True
    then show ?thesis by (auto simp flip: Cons_nth_drop_Suc)
  qed simp
  with Eos show ?case by (auto simp: place_at_def)
next
  case Word_boundary
  show ?case
    unfolding matches.simps ends.simps boundary_place [OF Word_boundary]
    by (simp only: if_distrib [of "map (place_at t)"] list.map)
next
  case (Behind c)
  then show ?case by (simp add: place_at_def)
qed (auto simp: place_at_def)

fun found_at :: "(nat \<Rightarrow> bool) \<Rightarrow> rx \<Rightarrow> nat option \<Rightarrow> ptext \<Rightarrow> bool" where
  "found_at al r b [] \<longleftrightarrow> matches al r (b, []) \<noteq> []"
| "found_at al r b (x # xs) \<longleftrightarrow> (if matches al r (b, x # xs) \<noteq> [] then True else found_at al r (Some x) xs)"

lemma found_at_iff:
  "i \<le> length t \<Longrightarrow> found_at al r (fst (place_at t i)) (drop i t) \<longleftrightarrow> (\<exists>j\<ge>i. j \<le> length t \<and> ends al r t j \<noteq> [])"
proof (induction "length t - i" arbitrary: i)
  case 0
  then have "i = length t" by simp
  with matches_ends [of i t al r] show ?case by (auto simp: place_at_def dest: le_antisym)
next
  case (Suc n)
  then have i: "i < length t" by simp
  have d: "drop i t = t ! i # drop (Suc i) t" using i by (simp add: Cons_nth_drop_Suc)
  have "n = length t - Suc i" "Suc i \<le> length t" using Suc.hyps(2) i by simp_all
  from Suc.hyps(1) [OF this]
  have IH: "found_at al r (Some (t ! i)) (drop (Suc i) t) \<longleftrightarrow> (\<exists>j\<ge>Suc i. j \<le> length t \<and> ends al r t j \<noteq> [])"
    by (simp add: place_at_Suc [OF i])
  have "matches al r (fst (place_at t i), t ! i # drop (Suc i) t) = map (place_at t) (ends al r t i)"
    using matches_ends [of i t al r] place_at_Cons [OF i] i by auto
  then have "found_at al r (fst (place_at t i)) (drop i t) \<longleftrightarrow>
      ends al r t i \<noteq> [] \<or> (\<exists>j\<ge>Suc i. j \<le> length t \<and> ends al r t j \<noteq> [])"
    unfolding d by (simp add: IH)
  also have "\<dots> \<longleftrightarrow> (\<exists>j\<ge>i. j \<le> length t \<and> ends al r t j \<noteq> [])"
    using i by (metis Suc_leD le_antisym less_imp_le not_less_eq_eq order_refl)
  finally show ?case .
qed

lemma found_code [code]: "found al r t \<longleftrightarrow> found_at al r None t"
  using found_at_iff [of 0 t al r] by (simp add: found_iff place_at_def)

end
