(* ===== verification/TtsSegmenter.thy ===== *)
theory TtsSegmenter
  imports Regex
begin

text \<open>
  \<open>web-ui/server/app/domain/call_tts_segments.py\<close>: \<open>CallTtsSegmenter\<close> splits the text that a
  language model streams into phrases for speech synthesis. The three patterns are terms of the regular
  expression library; the \<open>while True\<close> loop of \<open>feed\<close> is a recursion on the buffer, which
  every boundary shortens.
\<close>

section \<open>Model\<close>

definition no_alnum :: "nat \<Rightarrow> bool" where
  "no_alnum c = False"

definition WORD_RE :: rx where
  "WORD_RE = Rep Non_space 1 None"

definition HARD_BOUNDARY_RE :: rx where
  "HARD_BOUNDARY_RE =
     Seq (Alt (Seq (Rep (One_of [46, 33, 63]) 1 None) (Rep (One_of [34, 39, 41, 93]) 0 None))
              (Rep (One_of [10]) 1 None))
         (Ahead (Alt (Rep Space 1 (Some 1)) Eos))"

definition SOFT_BOUNDARY_RE :: rx where
  "SOFT_BOUNDARY_RE =
     Seq (Alt (Rep (One_of [44, 59, 58]) 1 (Some 1)) (Rep (One_of [8212, 8211]) 1 (Some 1)))
         (Ahead (Alt (Rep Space 1 (Some 1)) Eos))"

definition word_count :: "ptext \<Rightarrow> nat" where
  "word_count t = length (finditer no_alnum WORD_RE t)"

record segmenter =
  max_words :: nat
  min_words :: nat
  buffer :: ptext
  finished :: bool

definition new_segmenter :: "int \<Rightarrow> int \<Rightarrow> py_error + segmenter" where
  "new_segmenter mx mn =
     (if mx < 1 then Inl (Value_error ''max_words must be positive'')
      else if mn < 1 \<or> mn > mx then Inl (Value_error ''min_words must be between one and max_words'')
      else Inr \<lparr>max_words = nat mx, min_words = nat mn, buffer = [], finished = False\<rparr>)"

fun hard_boundary :: "nat \<Rightarrow> nat \<Rightarrow> ptext \<Rightarrow> (nat \<times> nat) list \<Rightarrow> nat option" where
  "hard_boundary mn mx buf [] = None"
| "hard_boundary mn mx buf ((s, e) # ms) =
     (let wc = word_count (take e buf) in
      if wc < mn then hard_boundary mn mx buf ms
      else if wc \<le> mx then Some e else None)"

definition next_boundary :: "segmenter \<Rightarrow> nat option \<times> segmenter" where
  "next_boundary g =
     (let words = finditer no_alnum WORD_RE (buffer g) in
      if words = []
      then (None, if buffer g \<noteq> [] \<and> strip (buffer g) = [] then g\<lparr>buffer := []\<rparr> else g)
      else
        (case hard_boundary (min_words g) (max_words g) (buffer g)
                (finditer no_alnum HARD_BOUNDARY_RE (buffer g)) of
           Some b \<Rightarrow> (Some b, g)
         | None \<Rightarrow>
             if length words < max_words g then (None, g)
             else
               let word_limit = snd (words ! (max_words g - 1));
                   soft = filter (\<lambda>e. min_words g \<le> word_count (take e (buffer g)))
                            (map snd (finditer no_alnum SOFT_BOUNDARY_RE (take (word_limit + 1) (buffer g)))) in
               (Some (if soft \<noteq> [] then last soft else word_limit), g)))"

lemma hard_boundary_mem: "hard_boundary mn mx buf ms = Some b \<Longrightarrow> b \<in> snd ` set ms"
  by (induction mn mx buf ms rule: hard_boundary.induct) (auto simp: Let_def split: if_splits)

lemma next_boundary_range:
  assumes "next_boundary g = (Some b, g')" and "0 < max_words g"
  shows "0 < b \<and> b \<le> length (buffer g) \<and> g' = g"
proof -
  let ?ws = "finditer no_alnum WORD_RE (buffer g)"
  have word: "0 < snd (?ws ! k) \<and> snd (?ws ! k) \<le> length (buffer g)" if "k < length ?ws" for k
    using finditer_range [of "fst (?ws ! k)" "snd (?ws ! k)" no_alnum WORD_RE "buffer g"] nth_mem [OF that]
    by auto
  have ne: "?ws \<noteq> []" using assms by (auto simp: next_boundary_def Let_def split: if_splits)
  show ?thesis
  proof (cases "hard_boundary (min_words g) (max_words g) (buffer g)
      (finditer no_alnum HARD_BOUNDARY_RE (buffer g))")
    case (Some e)
    then obtain s where "(s, e) \<in> set (finditer no_alnum HARD_BOUNDARY_RE (buffer g))"
      using hard_boundary_mem by fastforce
    with finditer_range assms Some ne show ?thesis
      by (fastforce simp: next_boundary_def Let_def)
  next
    case None
    let ?lim = "snd (?ws ! (max_words g - 1))"
    let ?soft = "filter (\<lambda>e. min_words g \<le> word_count (take e (buffer g)))
      (map snd (finditer no_alnum SOFT_BOUNDARY_RE (take (?lim + 1) (buffer g))))"
    have len: "\<not> length ?ws < max_words g" and b: "b = (if ?soft \<noteq> [] then last ?soft else ?lim)" "g' = g"
      using assms None ne by (auto simp: next_boundary_def Let_def split: if_splits)
    have "0 < e \<and> e \<le> length (buffer g)" if "e \<in> set ?soft" for e
    proof -
      from that obtain s where "(s, e) \<in> set (finditer no_alnum SOFT_BOUNDARY_RE (take (?lim + 1) (buffer g)))"
        by auto
      with finditer_range [OF this] show ?thesis by auto
    qed
    then have "?soft \<noteq> [] \<Longrightarrow> 0 < last ?soft \<and> last ?soft \<le> length (buffer g)"
      using last_in_set by blast
    then show ?thesis using b word [of "max_words g - 1"] len assms(2) by auto
  qed
qed

text \<open>
  The \<open>while True\<close> loop of \<open>feed\<close>. The constructor refuses \<open>max_words < 1\<close>; the guard on it
  keeps the recursion total on the records that no constructor builds.
\<close>

function feed_loop :: "segmenter \<Rightarrow> ptext list \<times> segmenter" where
  "feed_loop g =
     (if max_words g = 0 then ([], g)
      else case next_boundary g of
             (None, g') \<Rightarrow> ([], g')
           | (Some b, g') \<Rightarrow>
               let segment = strip (take b (buffer g'));
                   (emitted, g'') = feed_loop (g'\<lparr>buffer := lstrip (drop b (buffer g'))\<rparr>) in
               (if segment \<noteq> [] then segment # emitted else emitted, g''))"
  by pat_completeness auto
termination
proof (relation "measure (\<lambda>g. length (buffer g))")
  fix g x g' y and segment :: ptext
  assume "max_words g \<noteq> 0" "(x, g') = next_boundary g" "x = Some y"
  then have "0 < y \<and> y \<le> length (buffer g) \<and> g' = g"
    using next_boundary_range [of g y g'] by simp
  then show "(g'\<lparr>buffer := lstrip (drop y (buffer g'))\<rparr>, g) \<in> measure (\<lambda>g. length (buffer g))"
    using length_lstrip [of "drop y (buffer g)"] by (simp, linarith)
qed simp

declare feed_loop.simps [simp del]

definition feed :: "ptext \<Rightarrow> segmenter \<Rightarrow> py_error + (ptext list \<times> segmenter)" where
  "feed tok g =
     (if finished g then Inl (Runtime_error ''call TTS segmenter is already finished'')
      else Inr (feed_loop (g\<lparr>buffer := buffer g @ tok\<rparr>)))"

definition finish :: "segmenter \<Rightarrow> ptext option \<times> segmenter" where
  "finish g =
     (if finished g then (None, g)
      else
        let tail = strip (buffer g) in
        (if tail = [] then None else Some tail, g\<lparr>finished := True, buffer := []\<rparr>))"

section \<open>Words\<close>

text \<open>
  The number of words as a structural recursion: a word starts at a visible character that follows
  white space or the start of the text.
\<close>

fun wc :: "bool \<Rightarrow> ptext \<Rightarrow> nat" where
  "wc p [] = 0"
| "wc p (c # cs) = (if py_space c then wc True cs else (if p then 1 else 0) + wc False cs)"

lemma wc_spaces: "\<forall>c\<in>set u. py_space c \<Longrightarrow> wc p u = 0"
  by (induction u arbitrary: p) auto

lemma wc_append_spaces: "\<forall>c\<in>set u. py_space c \<Longrightarrow> wc p (s @ u) = wc p s"
  by (induction s arbitrary: p) (auto simp: wc_spaces)

lemma wc_prefix_le: "wc p s \<le> wc p (s @ u)"
  by (induction s arbitrary: p) auto

lemma wc_take_mono: "a \<le> b \<Longrightarrow> wc p (take a t) \<le> wc p (take b t)"
proof -
  assume "a \<le> b"
  then have "take b t = take a t @ drop a (take b t)"
    using append_take_drop_id [of a "take b t"] by (simp add: min_absorb1)
  then show ?thesis using wc_prefix_le by metis
qed

lemma wc_lstrip [simp]: "wc True (lstrip t) = wc True t"
  by (induction t) (auto simp: lstrip_def)

lemma rstrip_split: "\<exists>u. t = rstrip t @ u \<and> (\<forall>c\<in>set u. py_space c)"
proof (intro exI conjI)
  show "t = rstrip t @ rev (takeWhile py_space (rev t))"
    unfolding rstrip_def rev_append [symmetric] takeWhile_dropWhile_id by simp
qed (auto dest: set_takeWhileD)

lemma wc_strip [simp]: "wc True (strip t) = wc True t"
proof -
  obtain u where "lstrip t = strip t @ u" "\<forall>c\<in>set u. py_space c"
    using rstrip_split [of "lstrip t"] by (auto simp: strip_def)
  then have "wc True (lstrip t) = wc True (strip t)" by (metis wc_append_spaces)
  then show ?thesis by simp
qed

lemma ends_word:
  "ends no_alnum WORD_RE t i = map (\<lambda>n. i + n) (rev [1..<Suc (run_len Non_space None (drop i t))])"
  by (simp add: WORD_RE_def)

lemma run_len_visible:
  "run_len Non_space None t = length (takeWhile (\<lambda>c. \<not> py_space c) t)"
  by (induction t) auto

lemma wc_run: "\<forall>c\<in>set u. \<not> py_space c \<Longrightarrow> wc False (u @ t) = wc False t"
  by (induction u) auto

lemma wc_False_space: "t = [] \<or> py_space (hd t) \<Longrightarrow> wc False t = wc True t"
  by (cases t) auto

lemma wc_word:
  assumes "u \<noteq> []" "\<forall>c\<in>set u. \<not> py_space c"
  shows "wc True (u @ t) = Suc (wc False t)"
  using assms wc_run [of "tl u" t] by (cases u) auto

text \<open>The matches of \<open>WORD_RE\<close> are those words, and the \<open>k\<close>-th match ends after \<open>k + 1\<close> words.\<close>

lemma finditer_words:
  "i \<le> length t \<Longrightarrow> length (finditer_from no_alnum WORD_RE t i) = wc True (drop i t)
    \<and> (\<forall>k<length (finditer_from no_alnum WORD_RE t i).
         wc True (take (snd (finditer_from no_alnum WORD_RE t i ! k) - i) (drop i t)) = Suc k
       \<and> i < snd (finditer_from no_alnum WORD_RE t i ! k)
       \<and> snd (finditer_from no_alnum WORD_RE t i ! k) \<le> length t
       \<and> (snd (finditer_from no_alnum WORD_RE t i ! k) < length t
            \<longrightarrow> py_space (t ! snd (finditer_from no_alnum WORD_RE t i ! k))))"
proof (induction "length t - i" arbitrary: i rule: less_induct)
  case less
  let ?F = "finditer_from no_alnum WORD_RE t"
  let ?n = "run_len Non_space None (drop i t)"
  show ?case
  proof (cases "drop i t")
    case Nil
    then have "i = length t" using less.prems by simp
    moreover have "?F (length t) = []"
      by (simp add: finditer_from.simps [of _ _ _ "length t"] finditer_from.simps [of _ _ _ "Suc (length t)"]
          ends_word)
    ultimately show ?thesis by simp
  next
    case (Cons c cs)
    then have i: "i < length t" using less.prems by (cases "i < length t") auto
    have tail: "cs = drop (Suc i) t" using Cons by (metis drop_Suc list.sel(3) tl_drop)
    show ?thesis
    proof (cases "py_space c")
      case True
      then have F: "?F i = ?F (Suc i)" using Cons i
        by (simp add: finditer_from.simps [of _ _ _ i] ends_word)
      have IH: "length (?F (Suc i)) = wc True cs \<and> (\<forall>k<length (?F (Suc i)).
          wc True (take (snd (?F (Suc i) ! k) - Suc i) cs) = Suc k \<and> Suc i < snd (?F (Suc i) ! k)
          \<and> snd (?F (Suc i) ! k) \<le> length t
          \<and> (snd (?F (Suc i) ! k) < length t \<longrightarrow> py_space (t ! snd (?F (Suc i) ! k))))"
        using less.hyps [of "Suc i"] i by (simp add: tail)
      have "take (m - i) (c # cs) = c # take (m - Suc i) cs" if "Suc i < m" for m
        using that by (simp add: take_Cons' Suc_diff_Suc)
      with IH True show ?thesis unfolding F Cons by auto
    next
      case False
      let ?u = "takeWhile (\<lambda>c. \<not> py_space c) (drop i t)"
      let ?v = "dropWhile (\<lambda>c. \<not> py_space c) (drop i t)"
      have n: "?n = length ?u" by (rule run_len_visible)
      have u: "?u \<noteq> []" "\<forall>c\<in>set ?u. \<not> py_space c" using Cons False by (auto dest: set_takeWhileD)
      then have n0: "0 < ?n" using n by simp
      have F: "?F i = (i, i + ?n) # ?F (i + ?n)"
        using i n0 by (simp add: finditer_from.simps [of _ _ _ i] ends_word)
      have v: "drop (i + ?n) t = ?v"
        unfolding n by (simp add: dropWhile_eq_drop add.commute)
      have le: "i + ?n \<le> length t" using run_len_le [of Non_space None "drop i t"] i by simp
      have sp: "?v = [] \<or> py_space (hd ?v)" using hd_dropWhile by blast
      have split: "drop i t = ?u @ ?v" by simp
      have IH: "length (?F (i + ?n)) = wc True ?v \<and> (\<forall>k<length (?F (i + ?n)).
          wc True (take (snd (?F (i + ?n) ! k) - (i + ?n)) ?v) = Suc k \<and> i + ?n < snd (?F (i + ?n) ! k)
          \<and> snd (?F (i + ?n) ! k) \<le> length t
          \<and> (snd (?F (i + ?n) ! k) < length t \<longrightarrow> py_space (t ! snd (?F (i + ?n) ! k))))"
        using less.hyps [of "i + ?n"] i n0 le v by simp
      have len: "length (?F i) = wc True (drop i t)"
        unfolding F using IH wc_word [OF u, of ?v] wc_False_space [OF sp] split by simp
      moreover have "wc True (take (snd (?F i ! k) - i) (drop i t)) = Suc k \<and> i < snd (?F i ! k)
          \<and> snd (?F i ! k) \<le> length t \<and> (snd (?F i ! k) < length t \<longrightarrow> py_space (t ! snd (?F i ! k)))"
        if k: "k < length (?F i)" for k
      proof (cases k)
        case 0
        have "take ?n (drop i t) = ?u" unfolding n by (rule takeWhile_eq_take [symmetric])
        moreover have "py_space (t ! (i + ?n))" if "i + ?n < length t"
          using sp v that by (metis drop_eq_Nil hd_drop_conv_nth leD)
        ultimately show ?thesis using 0 F le n0 wc_word [OF u, of "[]"] by simp
      next
        case (Suc j)
        let ?m = "snd (?F (i + ?n) ! j)"
        have j: "wc True (take (?m - (i + ?n)) ?v) = Suc j" "i + ?n < ?m" "?m \<le> length t"
          "?m < length t \<longrightarrow> py_space (t ! ?m)"
          using IH k F Suc by auto
        have "?m - i = length ?u + (?m - (i + ?n))" using j(2) n by simp
        then have "take (?m - i) (?u @ ?v) = ?u @ take (?m - (i + ?n)) ?v"
          by (simp del: takeWhile_dropWhile_id)
        then have "take (?m - i) (drop i t) = ?u @ take (?m - (i + ?n)) ?v"
          by (simp only: takeWhile_dropWhile_id)
        moreover have "wc False (take (?m - (i + ?n)) ?v) = wc True (take (?m - (i + ?n)) ?v)"
          using sp j(2) by (intro wc_False_space) (cases ?v; auto simp: take_Cons')
        ultimately show ?thesis using F Suc j n0 wc_word [OF u, of "take (?m - (i + ?n)) ?v"] by simp
      qed
      ultimately show ?thesis by blast
    qed
  qed
qed

lemma word_count_wc: "word_count t = wc True t"
  using finditer_words [of 0 t] by (simp add: word_count_def finditer_def)

lemma word_end:
  assumes "k < length (finditer no_alnum WORD_RE t)"
  shows "wc True (take (snd (finditer no_alnum WORD_RE t ! k)) t) = Suc k"
    and "snd (finditer no_alnum WORD_RE t ! k) < length t \<Longrightarrow> py_space (t ! snd (finditer no_alnum WORD_RE t ! k))"
  using finditer_words [of 0 t] assms by (auto simp: finditer_def)

section \<open>What a boundary guarantees\<close>

lemma hard_boundary_bounds:
  "hard_boundary mn mx buf ms = Some b \<Longrightarrow> mn \<le> word_count (take b buf) \<and> word_count (take b buf) \<le> mx"
  by (induction mn mx buf ms rule: hard_boundary.induct) (auto simp: Let_def split: if_splits)

lemma next_boundary_bounds:
  assumes nb: "next_boundary g = (Some b, g')" and mx: "0 < max_words g" and mn: "min_words g \<le> max_words g"
  shows "min_words g \<le> wc True (take b (buffer g)) \<and> wc True (take b (buffer g)) \<le> max_words g"
proof -
  let ?ws = "finditer no_alnum WORD_RE (buffer g)"
  have ne: "?ws \<noteq> []" using nb by (auto simp: next_boundary_def Let_def split: if_splits)
  show ?thesis
  proof (cases "hard_boundary (min_words g) (max_words g) (buffer g)
      (finditer no_alnum HARD_BOUNDARY_RE (buffer g))")
    case (Some e)
    then have "b = e" using nb ne by (simp add: next_boundary_def Let_def)
    with hard_boundary_bounds [OF Some] show ?thesis by (simp add: word_count_wc)
  next
    case None
    let ?lim = "snd (?ws ! (max_words g - 1))"
    let ?soft = "filter (\<lambda>e. min_words g \<le> word_count (take e (buffer g)))
      (map snd (finditer no_alnum SOFT_BOUNDARY_RE (take (?lim + 1) (buffer g))))"
    have len: "\<not> length ?ws < max_words g" and b: "b = (if ?soft \<noteq> [] then last ?soft else ?lim)"
      using nb None ne by (auto simp: next_boundary_def Let_def split: if_splits)
    have k: "max_words g - 1 < length ?ws" using len mx by simp
    have lim: "wc True (take ?lim (buffer g)) = max_words g" using word_end(1) [OF k] mx by simp
    have "wc True (take (?lim + 1) (buffer g)) = wc True (take ?lim (buffer g))"
    proof (cases "?lim < length (buffer g)")
      case True
      with word_end(2) [OF k True] show ?thesis
        by (simp add: take_Suc_conv_app_nth wc_append_spaces)
    qed simp
    then have lim': "wc True (take (?lim + 1) (buffer g)) = max_words g" using lim by simp
    have "min_words g \<le> wc True (take e (buffer g)) \<and> wc True (take e (buffer g)) \<le> max_words g"
      if "e \<in> set ?soft" for e
    proof -
      from that obtain s where "(s, e) \<in> set (finditer no_alnum SOFT_BOUNDARY_RE (take (?lim + 1) (buffer g)))"
        and le: "min_words g \<le> wc True (take e (buffer g))" by (auto simp: word_count_wc)
      from finditer_range [OF this(1)] have "e \<le> ?lim + 1" by auto
      then show ?thesis using le wc_take_mono [of e "?lim + 1" True "buffer g"] lim' by simp
    qed
    then have "?soft \<noteq> [] \<Longrightarrow> min_words g \<le> wc True (take (last ?soft) (buffer g))
        \<and> wc True (take (last ?soft) (buffer g)) \<le> max_words g"
      using last_in_set by blast
    then show ?thesis using b lim mn by auto
  qed
qed

lemma next_boundary_None:
  assumes "next_boundary g = (None, g')" and "0 < max_words g"
  shows "wc True (buffer g') < max_words g"
    and "visible (buffer g') = visible (buffer g)" and "max_words g' = max_words g"
    and "min_words g' = min_words g" and "finished g' = finished g"
proof -
  have w: "length (finditer no_alnum WORD_RE (buffer g)) = wc True (buffer g)"
    using word_count_wc by (simp add: word_count_def)
  show "visible (buffer g') = visible (buffer g)" "max_words g' = max_words g"
    "min_words g' = min_words g" "finished g' = finished g"
    using assms by (auto simp: next_boundary_def Let_def strip_Nil_visible split: if_splits option.splits)
  show "wc True (buffer g') < max_words g"
    using assms w by (auto simp: next_boundary_def Let_def split: if_splits option.splits)
qed

definition segmenter_ok :: "segmenter \<Rightarrow> bool" where
  "segmenter_ok g \<longleftrightarrow> 1 \<le> min_words g \<and> min_words g \<le> max_words g"

lemma new_segmenter_ok: "new_segmenter mx mn = Inr g \<Longrightarrow> segmenter_ok g \<and> \<not> finished g \<and> buffer g = []"
  by (auto simp: new_segmenter_def segmenter_ok_def split: if_splits)

lemma feed_loop_correct:
  assumes "segmenter_ok g" and "feed_loop g = (segs, g')"
  shows "visible (buffer g) = visible (concat segs) @ visible (buffer g')
    \<and> (\<forall>s\<in>set segs. min_words g \<le> wc True s \<and> wc True s \<le> max_words g)
    \<and> wc True (buffer g') < max_words g
    \<and> max_words g' = max_words g \<and> min_words g' = min_words g \<and> finished g' = finished g"
  using assms
proof (induction g arbitrary: segs g' rule: feed_loop.induct)
  case (1 g)
  have mx: "0 < max_words g" "min_words g \<le> max_words g" "1 \<le> min_words g"
    using "1.prems"(1) by (auto simp: segmenter_ok_def)
  obtain ob h where nb: "next_boundary g = (ob, h)" by (cases "next_boundary g")
  show ?case
  proof (cases ob)
    case None
    with nb mx "1.prems"(2) have "segs = []" "g' = h" by (auto simp: feed_loop.simps [of g])
    with next_boundary_None [of g h] nb None mx show ?thesis by auto
  next
    case (Some b)
    note r = next_boundary_range [of g b h] and bd = next_boundary_bounds [of g b h]
    have hg: "h = g" using r nb Some mx by simp
    let ?seg = "strip (take b (buffer g))" and ?n = "g\<lparr>buffer := lstrip (drop b (buffer g))\<rparr>"
    obtain em k where rec: "feed_loop ?n = (em, k)" by (cases "feed_loop ?n")
    have out: "segs = (if ?seg \<noteq> [] then ?seg # em else em)" "g' = k"
      using "1.prems"(2) nb Some mx rec hg by (auto simp: feed_loop.simps [of g] Let_def)
    have "segmenter_ok ?n" using "1.prems"(1) by (simp add: segmenter_ok_def)
    with "1.IH" [of ob h b ?seg em k] nb Some mx rec hg
    have IH: "visible (buffer ?n) = visible (concat em) @ visible (buffer k)
      \<and> (\<forall>s\<in>set em. min_words g \<le> wc True s \<and> wc True s \<le> max_words g)
      \<and> wc True (buffer k) < max_words g
      \<and> max_words k = max_words g \<and> min_words k = min_words g \<and> finished k = finished g"
      by auto
    have vis: "visible (buffer g) = visible ?seg @ visible (buffer ?n)"
      using visible_append [of "take b (buffer g)" "drop b (buffer g)"] by simp
    have "min_words g \<le> wc True ?seg \<and> wc True ?seg \<le> max_words g" using bd nb Some mx by simp
    with IH out vis show ?thesis by (auto simp: strip_Nil_visible)
  qed
qed

fun feed_all :: "ptext list \<Rightarrow> segmenter \<Rightarrow> py_error + (ptext list \<times> segmenter)" where
  "feed_all [] g = Inr ([], g)"
| "feed_all (t # ts) g =
     (case feed t g of
        Inl e \<Rightarrow> Inl e
      | Inr (segs, g') \<Rightarrow>
          (case feed_all ts g' of Inl e \<Rightarrow> Inl e | Inr (rest, g'') \<Rightarrow> Inr (segs @ rest, g'')))"

lemma feed_all_correct:
  assumes "segmenter_ok g" "\<not> finished g" "wc True (buffer g) < max_words g"
  shows "\<exists>segs g'. feed_all ts g = Inr (segs, g')
    \<and> visible (buffer g) @ visible (concat ts) = visible (concat segs) @ visible (buffer g')
    \<and> (\<forall>s\<in>set segs. min_words g \<le> wc True s \<and> wc True s \<le> max_words g)
    \<and> wc True (buffer g') < max_words g \<and> \<not> finished g'"
  using assms
proof (induction ts arbitrary: g)
  case Nil
  then show ?case by simp
next
  case (Cons t ts)
  obtain em k where fl: "feed_loop (g\<lparr>buffer := buffer g @ t\<rparr>) = (em, k)"
    by (cases "feed_loop (g\<lparr>buffer := buffer g @ t\<rparr>)")
  have ok: "segmenter_ok (g\<lparr>buffer := buffer g @ t\<rparr>)" using Cons.prems(1) by (simp add: segmenter_ok_def)
  note c = feed_loop_correct [OF ok fl]
  have "segmenter_ok k" "\<not> finished k" "wc True (buffer k) < max_words k"
    using c Cons.prems by (auto simp: segmenter_ok_def)
  from Cons.IH [OF this] obtain segs g' where "feed_all ts k = Inr (segs, g')"
    "visible (buffer k) @ visible (concat ts) = visible (concat segs) @ visible (buffer g')"
    "\<forall>s\<in>set segs. min_words k \<le> wc True s \<and> wc True s \<le> max_words k"
    "wc True (buffer g') < max_words k" "\<not> finished g'" by blast
  moreover from this(2) c
  have "visible (buffer g) @ visible (concat (t # ts)) = visible (concat (em @ segs)) @ visible (buffer g')"
    by (simp flip: append_assoc) (metis append_assoc)
  ultimately show ?case using c Cons.prems(2) fl
    by (intro exI [of _ "em @ segs"] exI [of _ g']) (auto simp: feed_def)
qed

section \<open>Properties\<close>

text \<open>
  The segmenter loses, duplicates and reorders nothing: from a fresh segmenter, feeding any
  stream of tokens never raises, and the visible characters of the tokens are those of the emitted
  segments followed by those of the tail that \<open>finish\<close> returns.
\<close>

theorem segmenter_preserves_text:
  assumes "new_segmenter mx mn = Inr g"
  shows "\<exists>segs g'. feed_all ts g = Inr (segs, g')
    \<and> visible (concat ts) = visible (concat segs)
        @ (case fst (finish g') of None \<Rightarrow> [] | Some tail \<Rightarrow> visible tail)"
proof -
  have "segmenter_ok g" "\<not> finished g" "buffer g = []" using new_segmenter_ok [OF assms] by auto
  moreover from this have "wc True (buffer g) < max_words g" by (simp add: segmenter_ok_def)
  ultimately obtain segs g' where f: "feed_all ts g = Inr (segs, g')"
    and v: "visible (concat ts) = visible (concat segs) @ visible (buffer g')" "\<not> finished g'"
    using feed_all_correct [of g ts] by auto
  have "visible (buffer g') = (case fst (finish g') of None \<Rightarrow> [] | Some tail \<Rightarrow> visible tail)"
    using v(2) strip_Nil_visible [of "buffer g'"] by (auto simp: finish_def Let_def)
  with f v(1) show ?thesis by auto
qed

theorem segmenter_preserves_text_witness:
  "\<exists>g segs g'. new_segmenter 60 4 = Inr g \<and> feed_all [lit ''Hi there'', lit ''. Bye''] g = Inr (segs, g')
     \<and> visible (concat [lit ''Hi there'', lit ''. Bye'']) = visible (concat segs)
        @ (case fst (finish g') of None \<Rightarrow> [] | Some tail \<Rightarrow> visible tail)"
proof -
  obtain g where g: "new_segmenter 60 4 = Inr g" by (simp add: new_segmenter_def)
  with segmenter_preserves_text [OF g, of "[lit ''Hi there'', lit ''. Bye'']"] show ?thesis by blast
qed

text \<open>
  Phrases are bounded and so is the delay: every segment emitted while tokens arrive has at
  least \<open>min_words\<close> and at most \<open>max_words\<close> words, and after each token fewer than
  \<open>max_words\<close> words are still held back.
\<close>

theorem segmenter_bounds:
  assumes "new_segmenter mx mn = Inr g" and "feed_all ts g = Inr (segs, g')"
  shows "(\<forall>s\<in>set segs. nat mn \<le> word_count s \<and> word_count s \<le> nat mx)
    \<and> word_count (buffer g') < nat mx"
proof -
  have g: "segmenter_ok g" "\<not> finished g" "buffer g = []" using new_segmenter_ok [OF assms(1)] by auto
  moreover from this have "wc True (buffer g) < max_words g" by (simp add: segmenter_ok_def)
  ultimately have "(\<forall>s\<in>set segs. min_words g \<le> wc True s \<and> wc True s \<le> max_words g)
      \<and> wc True (buffer g') < max_words g"
    using feed_all_correct [of g ts] assms(2) by auto
  moreover have "min_words g = nat mn" "max_words g = nat mx"
    using assms(1) by (auto simp: new_segmenter_def split: if_splits)
  ultimately show ?thesis by (simp add: word_count_wc)
qed

theorem segmenter_bounds_witness:
  "\<exists>g segs g'. new_segmenter 3 1 = Inr g \<and> feed_all [lit ''a b c d e''] g = Inr (segs, g')
     \<and> (\<forall>s\<in>set segs. nat 1 \<le> word_count s \<and> word_count s \<le> nat 3) \<and> word_count (buffer g') < nat 3"
proof -
  obtain g where g: "new_segmenter 3 1 = Inr g" by (simp add: new_segmenter_def)
  obtain segs g' where f: "feed_all [lit ''a b c d e''] g = Inr (segs, g')"
    using feed_all_correct [of g] new_segmenter_ok [OF g] by (fastforce simp: segmenter_ok_def)
  from segmenter_bounds [OF g f] g f show ?thesis by blast
qed

end
