(* ===== verification/RefusalGuard.thy ===== *)
theory RefusalGuard
  imports Regex Complex_Main
begin

text \<open>
  \<open>web-ui/server/app/domain/refusal_guard.py\<close>: the incremental guard that holds the first
  characters of a completion until they are known to be safe or to be a refusal. The patterns are terms
  of the regular expression library, named and composed as in the source (\<open>REQUEST_VERB\<close>,
  \<open>CANNOT\<close>, \<open>SENTENCE_START\<close> and \<open>AM\<close> name the groups that the source repeats
  inline). Two parameters stand for the Unicode database: \<open>nf\<close> is NFKC normalisation followed by
  case folding and \<open>al\<close> is \<open>isalnum\<close> outside ASCII. A clock reading is an argument of the
  operations that read the clock.
\<close>

section \<open>Patterns\<close>

definition REQUEST_VERB :: rx where
  "REQUEST_VERB =
     alts [word_lit ''continue'', word_lit ''assist'', word_lit ''help'', word_lit ''comply'',
       word_lit ''provide'', word_lit ''engage'', word_lit ''participate'', word_lit ''fulfill'',
       word_lit ''generate'', word_lit ''create'', word_lit ''write'', word_lit ''do'']"

definition CANNOT :: rx where
  "CANNOT =
     alts [word_lit ''cannot'', seqs [word_lit ''can'', spaces1, word_lit ''not''],
       word_lit ''can't'', word_lit ''won't'', seqs [word_lit ''will'', spaces1,
       word_lit ''not''], seqs [word_lit ''must'', spaces1, word_lit ''not'']]"

definition SENTENCE_START :: rx where
  "SENTENCE_START =
     alts [Bos, seqs [Behind (One_of [46, 33, 63]), spaces0]]"

definition AM :: rx where
  "AM =
     alts [Lit [39, 109], seqs [spaces1, word_lit ''am'']]"

definition SENTENCE_BOUNDARY_RE :: rx where
  "SENTENCE_BOUNDARY_RE =
     seqs [Rep (One_of [46, 33, 63]) 1 None, Rep (One_of [34, 39, 41, 93]) 0 None,
       Ahead (alts [Rep Space 1 (Some 1), Eos])]"

definition REFUSAL_VERB_RE :: rx where
  "REFUSAL_VERB_RE =
     alts [seqs [Word_boundary, opt (seqs [word_lit ''i'', spaces1]), CANNOT, spaces1,
       REQUEST_VERB, Word_boundary], seqs [Word_boundary, opt (seqs [word_lit ''i'', AM,
       spaces1]), word_lit ''unable'', spaces1, word_lit ''to'', spaces1, REQUEST_VERB,
       Word_boundary], seqs [Word_boundary, opt (seqs [word_lit ''i'', spaces1]),
       alts [word_lit ''must'', seqs [word_lit ''need'', spaces1, word_lit ''to''],
       seqs [word_lit ''have'', spaces1, word_lit ''to'']], spaces1, alts [word_lit ''decline'',
       word_lit ''refuse''], Word_boundary], seqs [Word_boundary, opt (seqs [word_lit ''i'',
       spaces1]), alts [word_lit ''decline'', word_lit ''refuse''], spaces1, word_lit ''to'',
       spaces1, REQUEST_VERB, Word_boundary], seqs [Word_boundary, opt (seqs [word_lit ''i'',
       spaces1]), alts [word_lit ''decline'', word_lit ''refuse''], spaces1,
       alts [word_lit ''this'', word_lit ''that'', word_lit ''the''], spaces1,
       alts [word_lit ''request'', word_lit ''conversation'', word_lit ''task'',
       word_lit ''prompt''], Word_boundary]]"

definition DECLARATIVE_META_POLICY_REFUSAL_RE :: rx where
  "DECLARATIVE_META_POLICY_REFUSAL_RE =
     seqs [SENTENCE_START, alts [word_lit ''this'', word_lit ''that''], spaces1,
       alts [word_lit ''roleplay'', word_lit ''scene'', word_lit ''request'',
       word_lit ''conversation'', word_lit ''prompt'', word_lit ''content''], spaces1,
       alts [seqs [word_lit ''violate'', opt (word_lit ''s'')], seqs [word_lit ''break'',
       opt (word_lit ''s'')], seqs [word_lit ''conflict'', opt (word_lit ''s''), spaces1,
       word_lit ''with''], seqs [word_lit ''goes'', spaces1, word_lit ''against'']], spaces1,
       opt (seqs [word_lit ''my'', spaces1]), alts [word_lit ''policy'', word_lit ''policies'',
       word_lit ''guideline'', word_lit ''guidelines'', word_lit ''safety'',
       seqs [word_lit ''content'', spaces1, word_lit ''restriction''], seqs [word_lit ''content'',
       spaces1, word_lit ''restrictions'']], Word_boundary]"

definition IDENTITY_RE :: rx where
  "IDENTITY_RE =
     seqs [Word_boundary, opt (seqs [word_lit ''as'', spaces1, word_lit ''a'',
       opt (word_lit ''n''), spaces1]), alts [word_lit ''ai'', seqs [word_lit ''artificial'',
       spaces1, word_lit ''intelligence''], seqs [word_lit ''language'', spaces1,
       word_lit ''model''], word_lit ''assistant'', word_lit ''chatbot''], Word_boundary]"

definition DIRECT_IDENTITY_DISCLAIMER_RE :: rx where
  "DIRECT_IDENTITY_DISCLAIMER_RE =
     seqs [SENTENCE_START, word_lit ''i'', AM, Word_boundary, Rep Any 0 (Some 80), Word_boundary,
       word_lit ''assistant'', Word_boundary, Rep Any 0 (Some 80), Word_boundary,
       word_lit ''not'', spaces1, alts [seqs [word_lit ''for'', spaces1, alts [word_lit ''that'',
       word_lit ''this''], spaces1, alts [word_lit ''kind'', word_lit ''type''], spaces1,
       word_lit ''of'', spaces1, word_lit ''content''], seqs [opt (seqs [word_lit ''a'',
       opt (word_lit ''n''), spaces1]), alts [word_lit ''erotic'', word_lit ''sexual''], spaces1,
       word_lit ''one'']], Word_boundary]"

definition DIRECT_REQUEST_REFUSAL_STEM :: rx where
  "DIRECT_REQUEST_REFUSAL_STEM =
     seqs [SENTENCE_START, word_lit ''i'', spaces1, alts [seqs [CANNOT, spaces1, REQUEST_VERB],
       seqs [alts [word_lit ''am'', Lit [39, 109]], spaces1, word_lit ''unable'', spaces1,
       word_lit ''to'', spaces1, REQUEST_VERB]], Word_boundary, opt (seqs [spaces1,
       word_lit ''with'']), spaces1, alts [word_lit ''that'', word_lit ''this'',
       word_lit ''the''], spaces1, opt (seqs [word_lit ''specific'', spaces1]),
       word_lit ''request'', Word_boundary]"

definition DIRECT_REQUEST_REFUSAL_RE :: rx where
  "DIRECT_REQUEST_REFUSAL_RE =
     seqs [DIRECT_REQUEST_REFUSAL_STEM, Ahead (alts [seqs [spaces0, Rep (One_of [46, 33, 63]) 1
       (Some 1)], seqs [spaces1, word_lit ''to'', spaces1,
       alts [seqs [alts [word_lit ''generate'', word_lit ''provide'', word_lit ''write'',
       word_lit ''create''], Word_boundary], seqs [word_lit ''describe'', Word_boundary,
       Rep Any 0 (Some 48), Word_boundary, alts [word_lit ''explicit'', word_lit ''sexual'',
       word_lit ''erotic''], Word_boundary]]]])]"

definition DIRECT_REQUEST_REFUSAL_AT_END_RE :: rx where
  "DIRECT_REQUEST_REFUSAL_AT_END_RE =
     seqs [DIRECT_REQUEST_REFUSAL_STEM, spaces0, Eos]"

definition DIRECT_DESCRIPTION_REFUSAL_STEM :: rx where
  "DIRECT_DESCRIPTION_REFUSAL_STEM =
     seqs [SENTENCE_START, word_lit ''i'', spaces1, alts [seqs [CANNOT, spaces1, REQUEST_VERB],
       seqs [alts [word_lit ''am'', Lit [39, 109]], spaces1, word_lit ''unable'', spaces1,
       word_lit ''to'', spaces1, REQUEST_VERB]], Word_boundary, opt (seqs [spaces1,
       word_lit ''with'']), spaces1, alts [word_lit ''that'', word_lit ''this'',
       word_lit ''the''], spaces1, opt (seqs [word_lit ''specific'', spaces1]),
       opt (seqs [alts [seqs [word_lit ''explicit'', opt (seqs [spaces1,
       alts [word_lit ''sexual'', word_lit ''erotic'']])], word_lit ''sexual'',
       word_lit ''erotic''], spaces1]), alts [word_lit ''description'', word_lit ''content''],
       Word_boundary]"

definition DIRECT_DESCRIPTION_REFUSAL_RE :: rx where
  "DIRECT_DESCRIPTION_REFUSAL_RE =
     seqs [DIRECT_DESCRIPTION_REFUSAL_STEM, Ahead (seqs [spaces0, Rep (One_of [46, 33, 63]) 1
       (Some 1)])]"

definition DIRECT_DESCRIPTION_REFUSAL_AT_END_RE :: rx where
  "DIRECT_DESCRIPTION_REFUSAL_AT_END_RE =
     seqs [DIRECT_DESCRIPTION_REFUSAL_STEM, spaces0, Eos]"

definition POLICY_RE :: rx where
  "POLICY_RE =
     seqs [Word_boundary, alts [word_lit ''policy'', word_lit ''policies'',
       word_lit ''guideline'', word_lit ''guidelines'', word_lit ''safety'',
       seqs [word_lit ''content'', spaces1, word_lit ''restriction''], seqs [word_lit ''content'',
       spaces1, word_lit ''restrictions''], seqs [word_lit ''not'', spaces1,
       word_lit ''allowed''], seqs [word_lit ''violat'', alts [word_lit ''e'', word_lit ''es'',
       word_lit ''ing'']], seqs [word_lit ''sexually'', spaces1, word_lit ''explicit'', spaces1,
       word_lit ''content''], seqs [word_lit ''explicit'', spaces1,
       alts [seqs [opt (seqs [word_lit ''sexual'', spaces1]), word_lit ''or'', spaces1,
       word_lit ''erotic''], word_lit ''sexual'', word_lit ''erotic''], spaces1,
       word_lit ''content''], seqs [word_lit ''explicit'', spaces1, alts [word_lit ''sexual'',
       word_lit ''erotic''], spaces1, word_lit ''description'', opt (word_lit ''s''),
       Word_boundary, Rep (None_of [46, 33, 63]) 0 (Some 48), Word_boundary, word_lit ''or'',
       spaces1, opt (seqs [word_lit ''explicit'', spaces1]), alts [word_lit ''sexual'',
       word_lit ''erotic''], spaces1, word_lit ''content'']], Word_boundary]"

definition APOLOGY_RE :: rx where
  "APOLOGY_RE =
     alts [seqs [alts [Bos, Rep Space 1 (Some 1)], opt (seqs [word_lit ''i'', AM, spaces1]),
       word_lit ''sorry'', Word_boundary], seqs [Word_boundary, word_lit ''apologi'', Rep (One_of
       [115, 122]) 1 (Some 1), alts [word_lit ''e'', word_lit ''ing''], Word_boundary]]"

definition REDIRECT_RE :: rx where
  "REDIRECT_RE =
     alts [seqs [Word_boundary, alts [word_lit ''instead'', word_lit ''however''], Word_boundary,
       Rep Any 0 (Some 80), Word_boundary, alts [word_lit ''can'', word_lit ''could''], spaces1,
       alts [word_lit ''help'', word_lit ''offer'', word_lit ''provide''], Word_boundary],
       seqs [Word_boundary, alts [word_lit ''can'', word_lit ''could''], spaces1,
       alts [word_lit ''help'', word_lit ''offer'', word_lit ''provide''], spaces1,
       opt (seqs [word_lit ''with'', spaces1]), alts [word_lit ''something'',
       word_lit ''another'', word_lit ''alternative''], Word_boundary], seqs [Word_boundary,
       opt (seqs [word_lit ''but'', spaces1]), word_lit ''i'', AM, spaces1, word_lit ''here'',
       spaces1, word_lit ''to'', spaces1, word_lit ''help'', Word_boundary], seqs [Word_boundary,
       word_lit ''that'', spaces1, word_lit ''explicit'', spaces1, alts [word_lit ''sexual'',
       word_lit ''erotic''], spaces1, word_lit ''description'', Word_boundary,
       Rep Any 0 (Some 80), Word_boundary, word_lit ''if'', spaces1, word_lit ''you'', alts [Lit
       [39, 100], seqs [spaces1, word_lit ''would'']], spaces1, word_lit ''like,'', spaces1,
       alts [word_lit ''we'', word_lit ''i''], spaces1, word_lit ''can'', spaces1,
       word_lit ''pivot'', spaces1, word_lit ''to'', spaces1, opt (seqs [word_lit ''a'',
       spaces1]), word_lit ''different'', spaces1, word_lit ''creative'', spaces1,
       word_lit ''direction'', Word_boundary], seqs [Word_boundary, alts [word_lit ''erotic'',
       word_lit ''sexual''], spaces1, word_lit ''content'', Word_boundary, Rep Any 0 (Some 80),
       Word_boundary, opt (seqs [word_lit ''but'', spaces1]), word_lit ''i'', AM, spaces1,
       word_lit ''here'', spaces1, word_lit ''if'', spaces1, word_lit ''you'', spaces1,
       word_lit ''want'', spaces1, word_lit ''to'', spaces1, alts [word_lit ''chat'',
       word_lit ''talk''], spaces1, word_lit ''about'', spaces1, alts [word_lit ''anything'',
       word_lit ''something''], spaces1, word_lit ''else'', Word_boundary], seqs [Word_boundary,
       alts [seqs [alts [word_lit ''erotic'', word_lit ''sexual''], spaces1,
       alts [word_lit ''description'', word_lit ''content'']], seqs [alts [word_lit ''that'',
       word_lit ''this'', word_lit ''the''], spaces1, opt (seqs [word_lit ''specific'', spaces1]),
       word_lit ''request'']], Word_boundary, Rep Any 0 (Some 120), Word_boundary, word_lit ''i'',
       AM, spaces1, alts [word_lit ''happy'', word_lit ''glad''], spaces1, word_lit ''to'',
       spaces1, opt (seqs [word_lit ''keep'', spaces1]), alts [seqs [word_lit ''chat'',
       opt (word_lit ''ting'')], seqs [word_lit ''talk'', opt (word_lit ''ing'')],
       word_lit ''discuss'', word_lit ''help''], Word_boundary, Rep Any 0 (Some 80),
       Word_boundary, alts [word_lit ''other'', word_lit ''different''], Word_boundary,
       Rep Any 0 (Some 48), Word_boundary, alts [seqs [word_lit ''topic'', opt (word_lit ''s'')],
       seqs [word_lit ''scenario'', opt (word_lit ''s'')]], Word_boundary]]"

definition WARNING_RE :: rx where
  "WARNING_RE =
     alts [seqs [Word_boundary, alts [word_lit ''must'', seqs [word_lit ''need'', spaces1,
       word_lit ''to''], seqs [word_lit ''have'', spaces1, word_lit ''to'']], spaces1,
       word_lit ''warn'', Word_boundary], seqs [Word_boundary, word_lit ''warning'',
       Word_boundary]]"

section \<open>Classification\<close>

definition apostrophe_translation :: "nat \<Rightarrow> nat" where
  "apostrophe_translation c = (if 128 \<le> c \<and> c \<in> {8216, 8217, 700, 65287} then 39 else c)"

text \<open>\<open>_WHITESPACE_RE.sub(" ", text)\<close>: every run of white space becomes one blank.\<close>

fun collapse_from :: "bool \<Rightarrow> ptext \<Rightarrow> ptext" where
  "collapse_from in_run [] = []"
| "collapse_from in_run (c # t) =
     (if py_space c then (if in_run then [] else [32]) @ collapse_from True t
      else c # collapse_from False t)"

definition collapse_spaces :: "ptext \<Rightarrow> ptext" where
  "collapse_spaces t = collapse_from False t"

definition comparison_view :: "(ptext \<Rightarrow> ptext) \<Rightarrow> ptext \<Rightarrow> ptext" where
  "comparison_view nf t = strip (collapse_spaces (map apostrophe_translation (nf t)))"

definition secondary_reason :: "(nat \<Rightarrow> bool) \<Rightarrow> ptext \<Rightarrow> string option" where
  "secondary_reason al n =
     (if found al IDENTITY_RE n then Some ''generic_identity''
      else if found al POLICY_RE n then Some ''policy_or_safety''
      else if found al APOLOGY_RE n then Some ''apology''
      else if found al REDIRECT_RE n then Some ''redirect''
      else if found al WARNING_RE n then Some ''warning''
      else None)"

definition refusal_reason :: "(ptext \<Rightarrow> ptext) \<Rightarrow> (nat \<Rightarrow> bool) \<Rightarrow> bool \<Rightarrow> ptext \<Rightarrow> string option" where
  "refusal_reason nf al upstream_complete t =
     (let n = comparison_view nf t in
      if found al DIRECT_REQUEST_REFUSAL_RE n
         \<or> (upstream_complete \<and> found al DIRECT_REQUEST_REFUSAL_AT_END_RE n)
      then Some ''policy_or_safety''
      else if found al DIRECT_DESCRIPTION_REFUSAL_RE n
         \<or> (upstream_complete \<and> found al DIRECT_DESCRIPTION_REFUSAL_AT_END_RE n)
      then Some ''policy_or_safety''
      else if found al DIRECT_IDENTITY_DISCLAIMER_RE n then Some ''generic_identity''
      else if found al REFUSAL_VERB_RE n then secondary_reason al n
      else if found al DECLARATIVE_META_POLICY_REFUSAL_RE n then Some ''policy_or_safety''
      else None)"

definition estimated_tokens :: "ptext \<Rightarrow> nat" where
  "estimated_tokens t = (length t + 3) div 4"

section \<open>The guard\<close>

datatype guard_state = Holding | Passthrough | Refused | Finished

record refusal_guard =
  max_characters :: nat
  max_estimated_tokens :: nat
  min_visible_characters :: nat
  chunks :: "ptext list"
  prefix_text :: ptext
  guard_state :: guard_state
  reason_code :: "string option"
  started :: rat
  decision_ms :: "rat option"

record refusal_decision =
  d_state :: guard_state
  released_text :: "ptext list"
  refused :: bool
  d_reason_code :: "string option"
  prefix_characters :: nat
  prefix_estimated_tokens :: nat
  d_decision_ms :: "rat option"

definition new_guard :: "rat \<Rightarrow> int \<Rightarrow> int \<Rightarrow> int \<Rightarrow> py_error + refusal_guard" where
  "new_guard now mx tk vis =
     (if mx < 1 \<or> tk < 1 then Inl (Value_error ''refusal prefix ceilings must be positive'')
      else if vis < 1 then Inl (Value_error ''safe sentence minimum must be positive'')
      else Inr \<lparr>max_characters = nat mx, max_estimated_tokens = nat tk, min_visible_characters = nat vis,
        chunks = [], prefix_text = [], guard_state = Holding, reason_code = None, started = now,
        decision_ms = None\<rparr>)"

definition REFUSAL_PREFIX_MAX_CHARACTERS :: int where
  "REFUSAL_PREFIX_MAX_CHARACTERS = 384"

definition REFUSAL_PREFIX_MAX_ESTIMATED_TOKENS :: int where
  "REFUSAL_PREFIX_MAX_ESTIMATED_TOKENS = 96"

definition REFUSAL_SAFE_SENTENCE_MIN_VISIBLE_CHARACTERS :: int where
  "REFUSAL_SAFE_SENTENCE_MIN_VISIBLE_CHARACTERS = 24"

definition decision :: "refusal_guard \<Rightarrow> ptext list \<Rightarrow> bool \<Rightarrow> refusal_decision" where
  "decision g released r = \<lparr>d_state = guard_state g, released_text = released, refused = r,
     d_reason_code = reason_code g, prefix_characters = length (prefix_text g),
     prefix_estimated_tokens = estimated_tokens (prefix_text g), d_decision_ms = decision_ms g\<rparr>"

definition mark_decided :: "rat \<Rightarrow> refusal_guard \<Rightarrow> refusal_guard" where
  "mark_decided now g =
     (if decision_ms g = None then g\<lparr>decision_ms := Some ((now - started g) * 1000)\<rparr> else g)"

definition should_release :: "(ptext \<Rightarrow> ptext) \<Rightarrow> (nat \<Rightarrow> bool) \<Rightarrow> refusal_guard \<Rightarrow> bool" where
  "should_release nf al g =
     (let n = comparison_view nf (prefix_text g);
          safe_sentence = min_visible_characters g \<le> length (visible (prefix_text g))
            \<and> found al SENTENCE_BOUNDARY_RE (prefix_text g)
            \<and> secondary_reason al n = None
            \<and> \<not> found al REFUSAL_VERB_RE n;
          ceiling_reached = max_characters g \<le> length (prefix_text g)
            \<or> max_estimated_tokens g \<le> estimated_tokens (prefix_text g)
      in safe_sentence \<or> ceiling_reached)"

definition feed_guard :: "(ptext \<Rightarrow> ptext) \<Rightarrow> (nat \<Rightarrow> bool) \<Rightarrow> rat \<Rightarrow> ptext \<Rightarrow> refusal_guard
    \<Rightarrow> py_error + refusal_decision \<times> refusal_guard" where
  "feed_guard nf al now t g =
     (if guard_state g = Refused \<or> guard_state g = Finished
      then Inl (Runtime_error ''refusal guard is already finished'')
      else if guard_state g = Passthrough
      then Inr (decision g (if t \<noteq> [] then [t] else []) False, g)
      else if t = [] then Inr (decision g [] False, g)
      else
        let g1 = g\<lparr>chunks := chunks g @ [t], prefix_text := prefix_text g @ t\<rparr> in
        case refusal_reason nf al False (prefix_text g1) of
          Some r \<Rightarrow>
            let g2 = (mark_decided now (g1\<lparr>guard_state := Refused, reason_code := Some r\<rparr>))\<lparr>chunks := []\<rparr>
            in Inr (decision g2 [] True, g2)
        | None \<Rightarrow>
            if should_release nf al g1
            then let g2 = mark_decided now (g1\<lparr>chunks := [], guard_state := Passthrough,
                       reason_code := Some ''safe_prefix''\<rparr>)
                 in Inr (decision g2 (chunks g1) False, g2)
            else Inr (decision g1 [] False, g1))"

definition finish_guard :: "(ptext \<Rightarrow> ptext) \<Rightarrow> (nat \<Rightarrow> bool) \<Rightarrow> rat \<Rightarrow> refusal_guard
    \<Rightarrow> refusal_decision \<times> refusal_guard" where
  "finish_guard nf al now g =
     (case guard_state g of
        Finished \<Rightarrow> (decision g [] False, g)
      | Refused \<Rightarrow> let g1 = g\<lparr>guard_state := Finished\<rparr> in (decision g1 [] True, g1)
      | Passthrough \<Rightarrow> let g1 = g\<lparr>guard_state := Finished\<rparr> in (decision g1 [] False, g1)
      | Holding \<Rightarrow>
          (case refusal_reason nf al True (prefix_text g) of
             Some r \<Rightarrow>
               let g1 = (mark_decided now (g\<lparr>guard_state := Finished, reason_code := Some r\<rparr>))\<lparr>chunks := []\<rparr>
               in (decision g1 [] True, g1)
           | None \<Rightarrow>
               let g1 = mark_decided now (g\<lparr>chunks := [], guard_state := Finished,
                     reason_code := Some ''upstream_complete''\<rparr>)
               in (decision g1 (chunks g) False, g1)))"
section \<open>Laws\<close>

text \<open>
  The guard's invariant: while it holds, the held chunks are exactly the prefix, and the prefix is below
  both ceilings; once it has decided, nothing is held.
\<close>

definition guard_inv :: "refusal_guard \<Rightarrow> bool" where
  "guard_inv g \<longleftrightarrow>
     (if guard_state g = Holding
      then concat (chunks g) = prefix_text g \<and> length (prefix_text g) < max_characters g
        \<and> estimated_tokens (prefix_text g) < max_estimated_tokens g
      else chunks g = [])"

lemma mark_decided_simps [simp]:
  "guard_state (mark_decided now g) = guard_state g" "chunks (mark_decided now g) = chunks g"
  "prefix_text (mark_decided now g) = prefix_text g" "reason_code (mark_decided now g) = reason_code g"
  "max_characters (mark_decided now g) = max_characters g"
  "max_estimated_tokens (mark_decided now g) = max_estimated_tokens g"
  "started (mark_decided now g) = started g"
  by (simp_all add: mark_decided_def)

lemma decision_simps [simp]:
  "released_text (decision g ts r) = ts" "refused (decision g ts r) = r"
  "d_state (decision g ts r) = guard_state g" "d_reason_code (decision g ts r) = reason_code g"
  "prefix_characters (decision g ts r) = length (prefix_text g)"
  "d_decision_ms (decision g ts r) = decision_ms g"
  by (simp_all add: decision_def)

lemma new_guard_inv: "new_guard now mx tk vis = Inr g \<Longrightarrow> guard_inv g \<and> guard_state g = Holding \<and> chunks g = []"
  by (auto simp: new_guard_def guard_inv_def estimated_tokens_def split: if_splits)

lemma feed_guard_total: "guard_state g \<in> {Holding, Passthrough} \<Longrightarrow> \<exists>d h. feed_guard nf al now t g = Inr (d, h)"
  by (auto simp: feed_guard_def Let_def split: option.splits)

text \<open>One chunk: what was held together with the chunk is either still held, released unaltered, or dropped.\<close>

lemma feed_guard_correct:
  assumes "feed_guard nf al now t g = Inr (d, h)" and "guard_inv g"
  shows "guard_inv h \<and> guard_state g \<in> {Holding, Passthrough}
    \<and> (refused d \<longleftrightarrow> guard_state h = Refused)
    \<and> (refused d \<longrightarrow> released_text d = [] \<and> guard_state g = Holding)
    \<and> (\<not> refused d \<longrightarrow> concat (released_text d) @ concat (chunks h) = concat (chunks g) @ t
        \<and> guard_state h \<in> {Holding, Passthrough})
    \<and> (guard_state h = Holding \<longrightarrow> released_text d = [] \<and> guard_state g = Holding)"
proof -
  have st: "guard_state g \<in> {Holding, Passthrough}"
    using assms(1) by (cases "guard_state g") (auto simp: feed_guard_def)
  show ?thesis
  proof (cases "guard_state g = Passthrough \<or> t = []")
    case True
    with assms st show ?thesis by (auto simp: feed_guard_def guard_inv_def split: if_splits)
  next
    case False
    with st have hold: "guard_state g = Holding" "t \<noteq> []" by auto
    show ?thesis
    proof (cases "refusal_reason nf al False (prefix_text g @ t)")
      case None
      with assms hold show ?thesis
        by (auto simp: feed_guard_def guard_inv_def Let_def should_release_def split: if_splits)
    next
      case (Some r)
      with assms hold show ?thesis
        by (auto simp: feed_guard_def guard_inv_def Let_def)
    qed
  qed
qed

lemma finish_guard_correct:
  assumes "finish_guard nf al now g = (d, h)" and "guard_inv g"
  shows "guard_state h = Finished \<and> chunks h = []
    \<and> (refused d \<longrightarrow> released_text d = [] \<and> guard_state g \<in> {Holding, Refused})
    \<and> (\<not> refused d \<longrightarrow> concat (released_text d) = concat (chunks g))"
  using assms
  by (auto simp: finish_guard_def guard_inv_def Let_def split: guard_state.splits option.splits)

section \<open>Properties\<close>

fun feed_chunks :: "(ptext \<Rightarrow> ptext) \<Rightarrow> (nat \<Rightarrow> bool) \<Rightarrow> (rat \<times> ptext) list \<Rightarrow> refusal_guard
    \<Rightarrow> py_error + ptext list \<times> refusal_guard" where
  "feed_chunks nf al [] g = Inr ([], g)"
| "feed_chunks nf al ((now, t) # ts) g =
     bind_res (feed_guard nf al now t g) (\<lambda>(d, h).
       bind_res (feed_chunks nf al ts h) (\<lambda>(out, h'). Inr (released_text d @ out, h')))"

lemma feed_chunks_hold:
  assumes "feed_chunks nf al ts g = Inr (out, h)" "guard_inv g" "guard_state h = Holding"
  shows "out = [] \<and> guard_inv h \<and> guard_state g = Holding
    \<and> prefix_text h = prefix_text g @ concat (map snd ts)
    \<and> max_characters h = max_characters g \<and> max_estimated_tokens h = max_estimated_tokens g"
  using assms
proof (induction ts arbitrary: g out)
  case (Cons x ts)
  obtain now t where x: "x = (now, t)" by (cases x)
  obtain d k out' where f: "feed_guard nf al now t g = Inr (d, k)"
    and r: "feed_chunks nf al ts k = Inr (out', h)" and o: "out = released_text d @ out'"
    using Cons.prems(1) x by (auto simp: bind_res_Inr_iff)
  note c = feed_guard_correct [OF f Cons.prems(2)]
  have IH: "out' = [] \<and> guard_inv h \<and> guard_state k = Holding \<and> prefix_text h = prefix_text k @ concat (map snd ts)
    \<and> max_characters h = max_characters k \<and> max_estimated_tokens h = max_estimated_tokens k"
    using Cons.IH [OF r] c Cons.prems(3) by blast
  then have g: "released_text d = []" "guard_state g = Holding" using c by auto
  moreover have "prefix_text k = prefix_text g @ t \<and> max_characters k = max_characters g
      \<and> max_estimated_tokens k = max_estimated_tokens g"
    using f g IH by (auto simp: feed_guard_def Let_def split: if_splits option.splits)
  ultimately show ?case using IH o x by simp
qed simp

text \<open>
  The delay that the guard adds is bounded: as long as a guard that has accepted any number of
  chunks holds text back, that text is exactly what was fed so far, it has released nothing, and it is
  shorter than both ceilings.
\<close>

theorem held_prefix_is_bounded:
  assumes "new_guard start mx tk vis = Inr g" and "feed_chunks nf al ts g = Inr (out, h)"
    and "guard_state h = Holding"
  shows "out = [] \<and> concat (chunks h) = concat (map snd ts)
    \<and> length (concat (map snd ts)) < nat mx \<and> estimated_tokens (concat (map snd ts)) < nat tk"
proof -
  have g: "guard_inv g" "prefix_text g = []" "max_characters g = nat mx" "max_estimated_tokens g = nat tk"
    using assms(1) new_guard_inv [OF assms(1)] by (auto simp: new_guard_def split: if_splits)
  from feed_chunks_hold [OF assms(2) g(1) assms(3)] g assms(3) show ?thesis by (auto simp: guard_inv_def)
qed

lemma refusal_reason_blank: "refusal_reason (\<lambda>t. t) (\<lambda>c. False) False (lit ''Oh'') = None"
  by code_simp

theorem held_prefix_is_bounded_witness:
  "\<exists>g h. new_guard 0 384 96 24 = Inr g \<and> feed_chunks (\<lambda>t. t) (\<lambda>c. False) [(0, lit ''Oh'')] g = Inr ([], h)
     \<and> guard_state h = Holding \<and> concat (chunks h) = lit ''Oh'' \<and> length (lit ''Oh'') < 384"
proof -
  obtain g where g: "new_guard 0 384 96 24 = Inr g" by (simp add: new_guard_def)
  then have v: "prefix_text g = []" "guard_state g = Holding" "min_visible_characters g = 24"
    "max_characters g = 384" "max_estimated_tokens g = 96" by (auto simp: new_guard_def)
  obtain h where f: "feed_chunks (\<lambda>t. t) (\<lambda>c. False) [(0, lit ''Oh'')] g = Inr ([], h)" and h: "guard_state h = Holding"
    using v refusal_reason_blank
    by (auto simp: feed_guard_def should_release_def Let_def estimated_tokens_def visible_def
        py_space_def)
  from held_prefix_is_bounded [OF g f h] g f h show ?thesis by auto
qed

end
