(* ===== verification/RefusalCases.thy ===== *)
theory RefusalCases
  imports RefusalGuard
begin

text \<open>
  The classifier of \<open>RefusalGuard\<close> evaluated on concrete completions: how the direct-refusal
  patterns treat a contracted subject.
\<close>

definition lower_ascii :: "nat \<Rightarrow> nat" where
  "lower_ascii c = (if 65 \<le> c \<and> c \<le> 90 then c + 32 else c)"

definition lowers_ascii :: "(ptext \<Rightarrow> ptext) \<Rightarrow> bool" where
  "lowers_ascii nf \<longleftrightarrow> (\<forall>t. (\<forall>c\<in>set t. c < 128) \<longrightarrow> nf t = map lower_ascii t)"

lemma refusal_reason_ascii:
  assumes "lowers_ascii nf" and "\<forall>c\<in>set t. c < 128"
  shows "refusal_reason nf al b t = refusal_reason (map lower_ascii) al b t"
  using assms by (simp add: refusal_reason_def comparison_view_def lowers_ascii_def)

lemma unable_refused:
  "refusal_reason (map lower_ascii) al False (lit ''I am unable to do the request.'') = Some ''policy_or_safety''"
  by code_simp

lemma contracted_unable_passes:
  "refusal_reason (map lower_ascii) al True (lit ''I'm unable to do the request.'') = None"
  by code_simp

text \<open>
  The patterns for a direct refusal ask for white space between the subject and \<open>'m\<close>, so
  the contracted form is never recognised: for every normalisation that lower-cases ASCII, \<open>I am
  unable to do the request.\<close> is a refusal and \<open>I'm unable to do the request.\<close> is not.
\<close>

theorem contracted_refusal_is_missed:
  assumes "lowers_ascii nf"
  shows "refusal_reason nf al False (lit ''I am unable to do the request.'') = Some ''policy_or_safety''
    \<and> refusal_reason nf al True (lit ''I'm unable to do the request.'') = None"
  using refusal_reason_ascii [OF assms] unable_refused contracted_unable_passes by simp_all

theorem contracted_refusal_is_missed_witness:
  "lowers_ascii (map lower_ascii)
     \<and> refusal_reason (map lower_ascii) (\<lambda>c. False) True (lit ''I'm unable to do the request.'') = None"
  using contracted_refusal_is_missed [of "map lower_ascii" "\<lambda>c. False"] by (simp add: lowers_ascii_def)

end
