(* ===== verification/PyText.thy ===== *)
theory PyText
  imports Prelude
begin

text \<open>
  The methods of \<open>str\<close> that the program calls: \<open>startswith\<close>, \<open>in\<close>, \<open>replace\<close>,
  \<open>split\<close> on a separator, \<open>splitlines\<close>, \<open>join\<close>, zero padding in format strings and the
  length of the UTF-8 encoding. Case folding depends on the Unicode database and is a parameter of the
  definitions that use it.
\<close>

definition starts_with :: "ptext \<Rightarrow> ptext \<Rightarrow> bool" where
  "starts_with p t \<longleftrightarrow> take (length p) t = p"

definition ends_with :: "ptext \<Rightarrow> ptext \<Rightarrow> bool" where
  "ends_with p t \<longleftrightarrow> length p \<le> length t \<and> drop (length t - length p) t = p"

lemma starts_with_iff: "starts_with p t \<longleftrightarrow> (\<exists>u. t = p @ u)"
  by (metis append_eq_conv_conj append_take_drop_id starts_with_def)

fun contains :: "ptext \<Rightarrow> ptext \<Rightarrow> bool" where
  "contains p [] \<longleftrightarrow> p = []"
| "contains p (c # t) \<longleftrightarrow> starts_with p (c # t) \<or> contains p t"

lemma contains_iff: "contains p t \<longleftrightarrow> (\<exists>u v. t = u @ p @ v)"
proof (induction t)
  case (Cons c t)
  show ?case
  proof
    assume "contains p (c # t)"
    then consider "starts_with p (c # t)" | "contains p t" by auto
    then show "\<exists>u v. c # t = u @ p @ v"
    proof cases
      case 1
      then obtain w where "c # t = [] @ p @ w" by (auto simp: starts_with_iff)
      then show ?thesis by blast
    next
      case 2
      with Cons.IH obtain u v where "t = u @ p @ v" by blast
      then have "c # t = (c # u) @ p @ v" by simp
      then show ?thesis by blast
    qed
  next
    assume "\<exists>u v. c # t = u @ p @ v"
    then obtain u v where uv: "c # t = u @ p @ v" by blast
    show "contains p (c # t)"
    proof (cases u)
      case Nil
      with uv have "starts_with p (c # t)" by (auto simp: starts_with_iff)
      then show ?thesis by simp
    next
      case (Cons d w)
      with uv have "t = w @ p @ v" by simp
      with Cons.IH show ?thesis by auto
    qed
  qed
qed auto

text \<open>\<open>t.split(sep)\<close> for a non-empty separator, with the piece read so far as an accumulator.\<close>

function split_acc :: "ptext \<Rightarrow> ptext \<Rightarrow> ptext \<Rightarrow> ptext list" where
  "split_acc sep acc t =
     (if sep \<noteq> [] \<and> starts_with sep t \<and> t \<noteq> []
      then rev acc # split_acc sep [] (drop (length sep) t)
      else case t of [] \<Rightarrow> [rev acc] | c # u \<Rightarrow> split_acc sep (c # acc) u)"
  by pat_completeness auto
termination
  by (relation "measure (\<lambda>(sep, acc, t). length t)") auto

declare split_acc.simps [simp del]

definition split_on :: "ptext \<Rightarrow> ptext \<Rightarrow> ptext list" where
  "split_on sep t = split_acc sep [] t"

fun join :: "ptext \<Rightarrow> ptext list \<Rightarrow> ptext" where
  "join sep [] = []"
| "join sep [t] = t"
| "join sep (t # u # us) = t @ sep @ join sep (u # us)"

lemma split_acc_not_Nil: "split_acc sep acc t \<noteq> []"
  by (induction sep acc t rule: split_acc.induct) (subst split_acc.simps, auto split: list.splits)

lemma join_split_acc: "join sep (split_acc sep acc t) = rev acc @ t"
proof (induction sep acc t rule: split_acc.induct)
  case (1 sep acc t)
  show ?case
  proof (cases "sep \<noteq> [] \<and> starts_with sep t \<and> t \<noteq> []")
    case True
    then obtain u where t: "t = sep @ u" by (auto simp: starts_with_iff)
    then have "join sep (split_acc sep [] u) = u" using 1(1) [OF True] by simp
    moreover have "split_acc sep acc t = rev acc # split_acc sep [] u"
      using True unfolding t by (simp add: split_acc.simps [of sep acc "sep @ u"])
    ultimately show ?thesis
      using split_acc_not_Nil [of sep "[]" u] t by (cases "split_acc sep [] u") simp_all
  next
    case False
    show ?thesis
    proof (cases t)
      case Nil
      then show ?thesis by (simp add: split_acc.simps [of sep acc "[]"])
    next
      case (Cons c u)
      have "split_acc sep acc (c # u) = split_acc sep (c # acc) u"
        using False unfolding Cons by (subst split_acc.simps) auto
      with 1(2) [OF False Cons] Cons show ?thesis by simp
    qed
  qed
qed

lemma join_split_on: "join sep (split_on sep t) = t"
  by (simp add: split_on_def join_split_acc)

text \<open>\<open>t.replace(old, new)\<close> for a non-empty \<open>old\<close>.\<close>

definition replace_all :: "ptext \<Rightarrow> ptext \<Rightarrow> ptext \<Rightarrow> ptext" where
  "replace_all old new t = join new (split_on old t)"

lemma split_acc_absent: "\<not> contains sep t \<Longrightarrow> split_acc sep acc t = [rev acc @ t]"
  by (induction t arbitrary: acc) (simp_all add: split_acc.simps)

lemma replace_absent: "\<not> contains old t \<Longrightarrow> replace_all old new t = t"
  by (simp add: replace_all_def split_on_def split_acc_absent)

text \<open>\<open>splitlines()\<close>: every line boundary of Python, with \<open>\<backslash>r\<backslash>n\<close> as one.\<close>

definition line_break :: "nat \<Rightarrow> bool" where
  "line_break c \<longleftrightarrow> c \<in> {10, 11, 12, 13, 28, 29, 30, 133, 8232, 8233}"

fun lines_acc :: "ptext \<Rightarrow> ptext \<Rightarrow> ptext list" where
  "lines_acc acc [] = (if acc = [] then [] else [rev acc])"
| "lines_acc acc [c] = (if line_break c then [rev acc] else [rev (c # acc)])"
| "lines_acc acc (c # d # t) =
     (if c = 13 \<and> d = 10 then rev acc # lines_acc [] t
      else if line_break c then rev acc # lines_acc [] (d # t)
      else lines_acc (c # acc) (d # t))"

definition splitlines :: "ptext \<Rightarrow> ptext list" where
  "splitlines t = lines_acc [] t"

lemma lines_acc_no_break:
  "\<forall>c\<in>set acc. \<not> line_break c \<Longrightarrow> l \<in> set (lines_acc acc t) \<Longrightarrow> c \<in> set l \<Longrightarrow> \<not> line_break c"
  by (induction acc t arbitrary: l rule: lines_acc.induct) (auto split: if_splits)

lemma splitlines_no_break: "l \<in> set (splitlines t) \<Longrightarrow> c \<in> set l \<Longrightarrow> \<not> line_break c"
  using lines_acc_no_break [of "[]" l t c] by (simp add: splitlines_def)

text \<open>\<open>f"{n:03d}"\<close>.\<close>

definition pad3 :: "nat \<Rightarrow> ptext" where
  "pad3 n = (let s = lit (nat_str n) in replicate (3 - length s) 48 @ s)"

definition pad6 :: "nat \<Rightarrow> ptext" where
  "pad6 n = (let s = lit (nat_str n) in replicate (6 - length s) 48 @ s)"

text \<open>The number of bytes of the UTF-8 encoding of a text of Unicode scalar values.\<close>

definition utf8_width :: "nat \<Rightarrow> nat" where
  "utf8_width c = (if c < 128 then 1 else if c < 2048 then 2 else if c < 65536 then 3 else 4)"

definition utf8_length :: "ptext \<Rightarrow> nat" where
  "utf8_length t = sum_list (map utf8_width t)"

lemma utf8_length_append [simp]: "utf8_length (s @ t) = utf8_length s + utf8_length t"
  by (simp add: utf8_length_def)

lemma utf8_length_bounds: "length t \<le> utf8_length t \<and> utf8_length t \<le> 4 * length t"
  by (induction t) (auto simp: utf8_length_def utf8_width_def)

end
