(* ===== verification/PyValue.thy ===== *)
theory PyValue
  imports Prelude Complex_Main
begin

text \<open>
  Python values that travel as JSON between the services: a datatype with one constructor per JSON type,
  truthiness, mapping access, and \<open>json.dumps\<close> with the compact separators and ASCII escaping that
  the event encoders use. The rendering of a \<open>float\<close> is a parameter (\<open>float.__repr__\<close>).
\<close>

text \<open>
  A \<open>float\<close>: a finite one is the rational number that its shortest decimal representation denotes
  (what \<open>Decimal(str(x))\<close> yields, and in the same order as the floats themselves).
\<close>

datatype pyfloat = Fin rat | Infinity bool | Not_a_number

datatype pv =
    PNone
  | PBool bool
  | PInt int
  | PFloat pyfloat
  | PStr ptext
  | PList "pv list"
  | PDict "(ptext \<times> pv) list"

abbreviation pstr :: "string \<Rightarrow> pv" where
  "pstr s \<equiv> PStr (lit s)"

fun truthy :: "pv \<Rightarrow> bool" where
  "truthy PNone = False"
| "truthy (PBool b) = b"
| "truthy (PInt i) = (i \<noteq> 0)"
| "truthy (PFloat r) = (r \<noteq> Fin 0)"
| "truthy (PStr t) = (t \<noteq> [])"
| "truthy (PList vs) = (vs \<noteq> [])"
| "truthy (PDict d) = (d \<noteq> [])"

fun is_str :: "pv \<Rightarrow> bool" where
  "is_str (PStr _) = True"
| "is_str _ = False"

fun is_mapping :: "pv \<Rightarrow> bool" where
  "is_mapping (PDict _) = True"
| "is_mapping _ = False"

fun is_list :: "pv \<Rightarrow> bool" where
  "is_list (PList _) = True"
| "is_list _ = False"

fun is_bool :: "pv \<Rightarrow> bool" where
  "is_bool (PBool _) = True"
| "is_bool _ = False"

text \<open>\<open>isinstance(v, int)\<close> accepts a \<open>bool\<close>.\<close>

fun is_int :: "pv \<Rightarrow> bool" where
  "is_int (PInt _) = True"
| "is_int (PBool _) = True"
| "is_int _ = False"

fun is_number :: "pv \<Rightarrow> bool" where
  "is_number (PInt _) = True"
| "is_number (PBool _) = True"
| "is_number (PFloat _) = True"
| "is_number _ = False"

text \<open>The comparison \<open>a < b\<close> of two numbers; every comparison with NaN is false.\<close>

fun num_of :: "pv \<Rightarrow> pyfloat" where
  "num_of (PInt i) = Fin (of_int i)"
| "num_of (PBool b) = Fin (if b then 1 else 0)"
| "num_of (PFloat r) = r"
| "num_of _ = Not_a_number"

fun float_le :: "pyfloat \<Rightarrow> pyfloat \<Rightarrow> bool" where
  "float_le (Fin a) (Fin b) \<longleftrightarrow> a \<le> b"
| "float_le (Infinity p) (Fin b) \<longleftrightarrow> \<not> p"
| "float_le (Fin a) (Infinity p) \<longleftrightarrow> p"
| "float_le (Infinity p) (Infinity q) \<longleftrightarrow> (p \<longrightarrow> q)"
| "float_le _ _ \<longleftrightarrow> False"

fun float_less :: "pyfloat \<Rightarrow> pyfloat \<Rightarrow> bool" where
  "float_less (Fin a) (Fin b) \<longleftrightarrow> a < b"
| "float_less (Infinity p) (Fin b) \<longleftrightarrow> \<not> p"
| "float_less (Fin a) (Infinity p) \<longleftrightarrow> p"
| "float_less (Infinity p) (Infinity q) \<longleftrightarrow> \<not> p \<and> q"
| "float_less _ _ \<longleftrightarrow> False"

text \<open>\<open>mapping.get(key)\<close> and \<open>mapping.get(key, default)\<close> on the members of a dictionary.\<close>

definition vget_or :: "(ptext \<times> pv) list \<Rightarrow> string \<Rightarrow> pv \<Rightarrow> pv" where
  "vget_or d k dflt = (case dget d (lit k) of None \<Rightarrow> dflt | Some v \<Rightarrow> v)"

abbreviation vget :: "(ptext \<times> pv) list \<Rightarrow> string \<Rightarrow> pv" where
  "vget d k \<equiv> vget_or d k PNone"

section \<open>JSON text\<close>

definition hex_digit :: "nat \<Rightarrow> nat" where
  "hex_digit n = (if n < 10 then 48 + n else 87 + n)"

definition u_escape :: "nat \<Rightarrow> ptext" where
  "u_escape c = [92, 117, hex_digit (c div 4096 mod 16), hex_digit (c div 256 mod 16),
     hex_digit (c div 16 mod 16), hex_digit (c mod 16)]"

definition json_char :: "nat \<Rightarrow> ptext" where
  "json_char c =
     (if c = 34 then [92, 34] else if c = 92 then [92, 92]
      else if c = 10 then [92, 110] else if c = 13 then [92, 114] else if c = 9 then [92, 116]
      else if c = 12 then [92, 102] else if c = 8 then [92, 98]
      else if 32 \<le> c \<and> c \<le> 126 then [c]
      else if c < 65536 then u_escape c
      else u_escape (55296 + (c - 65536) div 1024) @ u_escape (56320 + (c - 65536) mod 1024))"

definition json_str :: "ptext \<Rightarrow> ptext" where
  "json_str t = 34 # concat (map json_char t) @ [34]"

fun json_dumps :: "(pyfloat \<Rightarrow> ptext) \<Rightarrow> pv \<Rightarrow> ptext"
  and json_items :: "(pyfloat \<Rightarrow> ptext) \<Rightarrow> pv list \<Rightarrow> ptext"
  and json_members :: "(pyfloat \<Rightarrow> ptext) \<Rightarrow> (ptext \<times> pv) list \<Rightarrow> ptext" where
  "json_dumps fr PNone = lit ''null''"
| "json_dumps fr (PBool b) = lit (if b then ''true'' else ''false'')"
| "json_dumps fr (PInt i) = lit (int_str i)"
| "json_dumps fr (PFloat r) = fr r"
| "json_dumps fr (PStr t) = json_str t"
| "json_dumps fr (PList vs) = 91 # json_items fr vs @ [93]"
| "json_dumps fr (PDict d) = 123 # json_members fr d @ [125]"
| "json_items fr [] = []"
| "json_items fr [v] = json_dumps fr v"
| "json_items fr (v # w # vs) = json_dumps fr v @ 44 # json_items fr (w # vs)"
| "json_members fr [] = []"
| "json_members fr [(k, v)] = json_str k @ 58 # json_dumps fr v"
| "json_members fr ((k, v) # m # ms) = json_str k @ 58 # json_dumps fr v @ 44 # json_members fr (m # ms)"

text \<open>Everything that \<open>json.dumps\<close> writes is printable ASCII.\<close>

definition printable :: "ptext \<Rightarrow> bool" where
  "printable t \<longleftrightarrow> (\<forall>c\<in>set t. 32 \<le> c \<and> c \<le> 126)"

lemma printable_simps [simp]:
  "printable []" "printable (c # t) \<longleftrightarrow> 32 \<le> c \<and> c \<le> 126 \<and> printable t"
  "printable (s @ t) \<longleftrightarrow> printable s \<and> printable t"
  by (auto simp: printable_def)

lemma hex_digit_range: "n < 16 \<Longrightarrow> 32 \<le> hex_digit n \<and> hex_digit n \<le> 126"
  by (simp add: hex_digit_def)

lemma printable_u_escape: "printable (u_escape c)"
  by (simp add: u_escape_def hex_digit_range)

lemma printable_json_char: "printable (json_char c)"
  by (simp add: json_char_def printable_u_escape)

lemma printable_json_str: "printable (json_str t)"
proof -
  have "printable (concat (map json_char t))"
    by (induction t) (auto simp: printable_json_char)
  then show ?thesis by (simp add: json_str_def)
qed

lemma printable_nat_str: "printable (lit (nat_str n))"
proof (induction n rule: nat_str.induct)
  case (1 n)
  have "printable (lit (s @ t)) \<longleftrightarrow> printable (lit s) \<and> printable (lit t)" for s t
    by (simp add: lit_def)
  moreover have "(of_char (char_of (48 + n mod 10)) :: nat) = 48 + n mod 10" for n :: nat
    by (simp add: of_char_mod_256)
  ultimately show ?case
    using 1 by (subst nat_str.simps) (auto simp: of_char_mod_256)
qed

lemma printable_int_str: "printable (lit (int_str i))"
  by (auto simp: int_str_def printable_nat_str)

lemma printable_json:
  assumes "\<And>r. printable (fr r)"
  shows "printable (json_dumps fr v)" "printable (json_items fr vs)" "printable (json_members fr d)"
  using assms
  by (induction fr v and fr vs and fr d rule: json_dumps_json_items_json_members.induct)
     (auto simp: printable_json_str printable_int_str)

end
