(* ===== verification/PromptBuilder.thy ===== *)
theory PromptBuilder
  imports PromptProfiles "HOL-Library.List_Lexorder" "HOL-Library.Product_Lexorder"
begin

text \<open>
  \<open>web-ui/server/app/domain/prompt_builder.py\<close>: the composer that turns settings, a character
  snapshot and the selected history into the messages of one request. The value classes are records, the
  literal types datatypes, \<open>PromptBudgetExceeded\<close> an error value. Both trimming loops of
  \<open>compose_prompt\<close> are the recursion \<open>trim\<close>, which every pass shortens. A thread as the
  repository returns it is a value whose attributes are the members of a dictionary;
  \<open>rp\<close> renders the values that are not text (\<open>str\<close>).
\<close>

section \<open>Data\<close>

datatype prompt_action = Send | Regenerate | Swipe | Continue | Call_offer | Call_turn | Preview

datatype prompt_role = System | User | Assistant

datatype call_mode = Text_mode | Call_mode

datatype override_state = Global | Inherited | Replaced | Includes_original | Not_applicable

definition PROMPT_ESTIMATOR_VERSION :: ptext where
  "PROMPT_ESTIMATOR_VERSION = lit ''rayme-utf8-bytes-v1''"

definition CALL_OFFER_MAX_MESSAGES :: nat where
  "CALL_OFFER_MAX_MESSAGES = 48"

definition CALL_OFFER_MAX_CONTENT_LENGTH :: nat where
  "CALL_OFFER_MAX_CONTENT_LENGTH = 20000"

record character_snapshot =
  c_name :: ptext
  description :: ptext
  personality :: ptext
  scenario :: ptext
  system_prompt :: "ptext option"
  post_history_instructions :: "ptext option"
  mes_example :: "ptext option"

record thread_snapshot =
  thread_id :: ptext
  variant :: string

record history_entry =
  entry_id :: ptext
  entry_sequence :: int
  entry_role :: prompt_role
  entry_content :: ptext

record build_input =
  b_settings :: prompt_settings
  b_character :: character_snapshot
  b_thread :: thread_snapshot
  b_history :: "history_entry list"
  b_action :: prompt_action
  b_call_mode :: call_mode
  composer_text :: "ptext option"

record prompt_section =
  section_id :: ptext
  logical_role :: prompt_role
  section_content :: ptext
  section_source :: string
  section_override :: override_state
  mandatory :: bool
  estimated_tokens_of :: nat
  atomic_group_id :: "ptext option"

record message_candidate =
  m_role :: prompt_role
  m_content :: ptext
  m_section_ids :: "ptext list"

record target_constraints =
  max_messages :: "nat option"
  max_content_length :: "nat option"

record example_turn =
  turn_role :: prompt_role
  turn_content :: ptext

record example_group =
  group_id :: ptext
  turns :: "example_turn list"

record preview_projection =
  p_action :: prompt_action
  p_mode :: pv
  p_contract_version :: ptext
  p_estimator_version :: ptext
  p_sections :: "prompt_section list"
  p_messages :: "message_candidate list"
  p_input_budget :: int
  p_estimated_input_tokens :: nat
  p_dropped_history_count :: nat
  p_dropped_example_group_count :: nat
  p_warnings :: "ptext list"

record build_result =
  r_action :: prompt_action
  r_variant :: string
  r_call_mode :: call_mode
  r_mode :: pv
  r_contract_version :: ptext
  r_estimator_version :: ptext
  r_settings :: prompt_settings
  r_character :: character_snapshot
  r_thread :: thread_snapshot
  r_history :: "history_entry list"
  r_sections :: "prompt_section list"
  transmitted_message_candidates :: "message_candidate list"
  public_preview :: preview_projection
  r_context_limit :: int
  configured_max_output :: int
  safety_margin :: int
  input_budget :: int
  estimated_input_tokens :: nat
  dropped_history_count :: nat
  dropped_example_group_count :: nat
  r_warnings :: "ptext list"
  r_target_constraints :: target_constraints

record budget_error =
  err_input_budget :: int
  err_estimated_tokens :: nat
  err_limit :: string

section \<open>Texts\<close>

definition estimate_prompt_tokens :: "ptext \<Rightarrow> nat" where
  "estimate_prompt_tokens t = (if t = [] then 0 else (utf8_length t + 2) div 3 + 6)"

lemma drop_macro_shorter: "take (Suc n) t = c # p \<Longrightarrow> length t - 8 < length t"
  by (cases t) auto

text \<open>\<open>_NAME_MACRO.sub\<close>: both macros are replaced in one pass from left to right.\<close>

function expand_names :: "ptext \<Rightarrow> ptext \<Rightarrow> ptext" where
  "expand_names t name =
     (if starts_with (lit ''{{char}}'') t then name @ expand_names (drop 8 t) name
      else if starts_with (lit ''{{user}}'') t then lit ''User'' @ expand_names (drop 8 t) name
      else case t of [] \<Rightarrow> [] | c # u \<Rightarrow> c # expand_names u name)"
  by pat_completeness auto
termination
  by (relation "measure (\<lambda>(t, name). length t)") (auto simp: starts_with_def intro: drop_macro_shorter)

declare expand_names.simps [simp del]

definition resolve_card_prompt :: "ptext option \<Rightarrow> ptext \<Rightarrow> ptext \<Rightarrow> ptext \<times> override_state" where
  "resolve_card_prompt card_text global_text name =
     (case card_text of
        None \<Rightarrow> (expand_names global_text name, Inherited)
      | Some t \<Rightarrow>
          if strip t = [] then (expand_names global_text name, Inherited)
          else (expand_names (replace_all (lit ''{{original}}'') global_text t) name,
                if contains (lit ''{{original}}'') t then Includes_original else Replaced))"

definition continue_instruction :: ptext where
  "continue_instruction =
     lit ''Continue the previous assistant message. Return the complete assistant message, ''
     @ lit ''including the existing text and the continuation.''"

section \<open>Example groups\<close>

text \<open>
  The loop over the lines of one raw group: \<open>None\<close> is the \<open>invalid\<close> exit; otherwise the closed
  turns, the role of the open turn and its lines.
\<close>

definition line_marker :: "ptext \<Rightarrow> (prompt_role \<times> ptext) option" where
  "line_marker l =
     (if starts_with (lit ''{{user}}:'') l then Some (User, lit ''{{user}}:'')
      else if starts_with (lit ''{{char}}:'') l then Some (Assistant, lit ''{{char}}:'')
      else None)"

fun group_lines :: "ptext list \<Rightarrow> example_turn list \<Rightarrow> prompt_role option \<Rightarrow> ptext list
    \<Rightarrow> (example_turn list \<times> prompt_role option \<times> ptext list) option" where
  "group_lines [] ts role cur = Some (ts, role, cur)"
| "group_lines (l # ls) ts role cur =
     (case line_marker l of
        Some (r, marker) \<Rightarrow>
          let ts' = (case role of None \<Rightarrow> ts
                     | Some cr \<Rightarrow> ts @ [\<lparr>turn_role = cr, turn_content = join [10] cur\<rparr>]);
              remainder = drop (length marker) l;
              remainder' = (if starts_with [32] remainder then drop 1 remainder else remainder)
          in group_lines ls ts' (Some r) [remainder']
      | None \<Rightarrow>
          (case role of
             None \<Rightarrow> if strip l \<noteq> [] then None else group_lines ls ts role cur
           | Some _ \<Rightarrow> group_lines ls ts role (cur @ [l])))"

fun parse_groups :: "ptext list \<Rightarrow> example_group list \<Rightarrow> nat \<Rightarrow> example_group list \<times> nat" where
  "parse_groups [] parsed malformed = (parsed, malformed)"
| "parse_groups (raw # raws) parsed malformed =
     (if strip raw = [] then parse_groups raws parsed malformed
      else case group_lines (splitlines raw) [] None [] of
             Some (ts, Some cr, cur) \<Rightarrow>
               let ts' = ts @ [\<lparr>turn_role = cr, turn_content = join [10] cur\<rparr>]
               in parse_groups raws
                    (parsed @ [\<lparr>group_id = lit ''example:'' @ pad3 (length parsed), turns = ts'\<rparr>]) malformed
           | _ \<Rightarrow> parse_groups raws parsed (malformed + 1))"

definition parse_example_groups_counted :: "ptext option \<Rightarrow> example_group list \<times> nat" where
  "parse_example_groups_counted v =
     (case v of None \<Rightarrow> ([], 0)
      | Some t \<Rightarrow>
          if t = [] \<or> \<not> contains (lit ''<START>'') t then ([], 0)
          else parse_groups (tl (split_on (lit ''<START>'') t)) [] 0)"

definition parse_example_groups :: "ptext option \<Rightarrow> example_group list" where
  "parse_example_groups v = fst (parse_example_groups_counted v)"

section \<open>Sections and messages\<close>

definition make_section :: "ptext \<Rightarrow> prompt_role \<Rightarrow> ptext \<Rightarrow> string \<Rightarrow> override_state \<Rightarrow> bool \<Rightarrow> ptext option
    \<Rightarrow> prompt_section" where
  "make_section sid r t src ov mand grp = \<lparr>section_id = sid, logical_role = r, section_content = t,
     section_source = src, section_override = ov, mandatory = mand,
     estimated_tokens_of = estimate_prompt_tokens t, atomic_group_id = grp\<rparr>"

definition estimated_total :: "prompt_section list \<Rightarrow> nat" where
  "estimated_total ss = sum_list (map estimated_tokens_of ss)"

definition message_candidates :: "prompt_section list \<Rightarrow> message_candidate list" where
  "message_candidates ss =
     map (\<lambda>s. \<lparr>m_role = logical_role s, m_content = section_content s, m_section_ids = [section_id s]\<rparr>)
       (filter (\<lambda>s. section_content s \<noteq> []) ss)"

definition violates_offer_constraints :: "prompt_section list \<Rightarrow> bool" where
  "violates_offer_constraints ss =
     (let cs = message_candidates ss in
      CALL_OFFER_MAX_MESSAGES < length cs
      \<or> list_ex (\<lambda>c. CALL_OFFER_MAX_CONTENT_LENGTH < length (m_content c)) cs)"

definition ordered_history :: "history_entry list \<Rightarrow> history_entry list" where
  "ordered_history h = sort_key (\<lambda>e. (entry_sequence e, entry_id e)) h"

section \<open>The composer\<close>

definition selected_prompts :: "prompt_settings \<Rightarrow> prompt_set" where
  "selected_prompts s =
     (if mode s = pstr ''roleplay'' then roleplay s
      else if mode s = pstr ''assistant'' then assistant s else custom s)"

definition main_section :: "build_input \<Rightarrow> prompt_section" where
  "main_section b =
     (let (t, ov) = resolve_card_prompt (system_prompt (b_character b)) (main (selected_prompts (b_settings b)))
            (c_name (b_character b))
      in make_section (lit ''main'') System t ''resolved_main'' ov True None)"

definition base_sections :: "build_input \<Rightarrow> prompt_section list" where
  "base_sections b =
     (let c = b_character b;
          snap = (\<lambda>i t. make_section (lit i) System t ''character_snapshot'' Not_applicable True None)
      in [main_section b,
          snap ''character_name'' (lit ''Name: '' @ c_name c),
          snap ''description'' (lit ''Description: '' @ description c),
          snap ''personality'' (lit ''Personality: '' @ personality c),
          snap ''scenario'' (lit ''Scenario: '' @ scenario c),
          make_section (lit ''auxiliary'') System
            (expand_names (auxiliary (selected_prompts (b_settings b))) (c_name c))
            ''global_profile'' Global True None])"

definition example_section :: "ptext \<Rightarrow> ptext \<Rightarrow> nat \<Rightarrow> nat \<Rightarrow> example_turn \<Rightarrow> prompt_section" where
  "example_section name grp gi ti turn = make_section (lit ''example:'' @ pad3 gi @ lit '':'' @ pad3 ti)
     (turn_role turn) (expand_names (turn_content turn) name) ''example_snapshot'' Not_applicable False (Some grp)"

definition example_sections :: "build_input \<Rightarrow> prompt_section list list" where
  "example_sections b =
     (let groups = parse_example_groups (mes_example (b_character b)) in
      map (\<lambda>(gi, g). map (\<lambda>(ti, t). example_section (c_name (b_character b)) (group_id g) gi ti t)
             (enumerate 0 (turns g)))
        (enumerate 0 groups))"

definition next_sequence :: "history_entry list \<Rightarrow> int" where
  "next_sequence h = (if h = [] then - 1 else Max (set (map entry_sequence h))) + 1"

definition composed_history :: "build_input \<Rightarrow> history_entry list" where
  "composed_history b =
     (let h = ordered_history (b_history b);
          typed = (case composer_text b of None \<Rightarrow> [] | Some t \<Rightarrow> t) in
      if b_action b \<noteq> Continue \<and> typed \<noteq> []
      then h @ [\<lparr>entry_id = lit ''composer-user'', entry_sequence = next_sequence h, entry_role = User,
                 entry_content = typed\<rparr>]
      else if b_action b = Continue \<and> typed = []
      then h @ [\<lparr>entry_id = lit ''continue-instruction'', entry_sequence = next_sequence h, entry_role = User,
                 entry_content = continue_instruction\<rparr>]
      else h)"

definition newest_user_id :: "history_entry list \<Rightarrow> ptext option" where
  "newest_user_id h = map_option entry_id (find (\<lambda>e. entry_role e = User) (rev h))"

definition history_sections :: "history_entry list \<Rightarrow> prompt_section list" where
  "history_sections h =
     map (\<lambda>e. make_section (lit ''history:'' @ entry_id e) (entry_role e) (entry_content e)
        ''selected_history'' Not_applicable (Some (entry_id e) = newest_user_id h)
        (Some (lit ''history:'' @ entry_id e))) h"

definition phi_section :: "build_input \<Rightarrow> prompt_section" where
  "phi_section b =
     (let (t, ov) = resolve_card_prompt (post_history_instructions (b_character b))
            (post_history (selected_prompts (b_settings b))) (c_name (b_character b))
      in make_section (lit ''late_phi'') System t ''resolved_post_history'' ov True None)"

definition prefill_sections :: "build_input \<Rightarrow> prompt_section list" where
  "prefill_sections b =
     (case composer_text b of
        Some t \<Rightarrow>
          if b_action b = Continue \<and> t \<noteq> []
          then [make_section (lit ''assistant_prefill'') Assistant t ''assistant_prefill'' Not_applicable True None]
          else []
      | None \<Rightarrow> [])"

text \<open>
  \<open>math.ceil(context_limit * 0.05)\<close>: for the accepted context limits the product is rounded to the
  exact twentieth, so the ceiling is the integer one.
\<close>

definition safety_margin_of :: "prompt_settings \<Rightarrow> int" where
  "safety_margin_of s = max 256 ((context_limit s + 19) div 20)"

definition input_budget_of :: "prompt_settings \<Rightarrow> int" where
  "input_budget_of s = context_limit s - max_tokens s - safety_margin_of s"

definition assembled :: "build_input \<Rightarrow> prompt_section list \<Rightarrow> prompt_section list list \<Rightarrow> prompt_section list" where
  "assembled b hist exs = base_sections b @ concat exs @ hist @ [phi_section b] @ prefill_sections b"

fun pop_optional :: "prompt_section list \<Rightarrow> prompt_section list option" where
  "pop_optional [] = None"
| "pop_optional (s # ss) = (if \<not> mandatory s then Some ss else map_option (Cons s) (pop_optional ss))"

record trim_state =
  retained_history :: "prompt_section list"
  retained_examples :: "prompt_section list list"
  history_dropped :: nat
  examples_dropped :: nat

text \<open>
  One of the two loops: while the assembled sections are refused, drop the oldest optional history entry,
  else the first example group, else fail with the state reached.
\<close>

lemma pop_optional_length: "pop_optional ss = Some ts \<Longrightarrow> length ts < length ss"
  by (induction ss arbitrary: ts) (auto split: if_splits)

function trim :: "(prompt_section list \<Rightarrow> bool) \<Rightarrow> build_input \<Rightarrow> trim_state \<Rightarrow> trim_state + trim_state" where
  "trim refuse b st =
     (if \<not> refuse (assembled b (retained_history st) (retained_examples st)) then Inr st
      else case pop_optional (retained_history st) of
             Some hist \<Rightarrow> trim refuse b (st\<lparr>retained_history := hist, history_dropped := history_dropped st + 1\<rparr>)
           | None \<Rightarrow>
               (case retained_examples st of
                  g # gs \<Rightarrow> trim refuse b (st\<lparr>retained_examples := gs, examples_dropped := examples_dropped st + 1\<rparr>)
                | [] \<Rightarrow> Inl st))"
  by pat_completeness auto
termination
  by (relation "measure (\<lambda>(f, b, st). length (retained_history st) + length (retained_examples st))")
     (auto dest: pop_optional_length)

declare trim.simps [simp del]

definition over_budget :: "build_input \<Rightarrow> prompt_section list \<Rightarrow> bool" where
  "over_budget b ss \<longleftrightarrow> input_budget_of (b_settings b) < int (estimated_total ss)"

definition mandatory_sections :: "build_input \<Rightarrow> prompt_section list" where
  "mandatory_sections b = base_sections b @ filter mandatory (history_sections (composed_history b))
     @ [phi_section b] @ prefill_sections b"

definition budget_exceeded :: "build_input \<Rightarrow> prompt_section list \<Rightarrow> string \<Rightarrow> budget_error" where
  "budget_exceeded b ss limit = \<lparr>err_input_budget = input_budget_of (b_settings b),
     err_estimated_tokens = estimated_total ss, err_limit = limit\<rparr>"

definition offer_limit :: "prompt_section list \<Rightarrow> string" where
  "offer_limit ss =
     (if CALL_OFFER_MAX_MESSAGES < length (message_candidates ss) then ''message_count''
      else ''message_content_length'')"

definition trimmed :: "build_input \<Rightarrow> budget_error + trim_state" where
  "trimmed b =
     (if over_budget b (mandatory_sections b)
      then Inl (budget_exceeded b (mandatory_sections b) ''context_budget'')
      else
        let st0 = \<lparr>retained_history = history_sections (composed_history b),
              retained_examples = example_sections b, history_dropped = 0, examples_dropped = 0\<rparr> in
        case trim (over_budget b) b st0 of
          Inl st \<Rightarrow> Inl (budget_exceeded b (assembled b (retained_history st) (retained_examples st)) ''context_budget'')
        | Inr st \<Rightarrow>
            if b_action b \<noteq> Call_offer then Inr st
            else (case trim violates_offer_constraints b st of
                    Inr st' \<Rightarrow> Inr st'
                  | Inl st' \<Rightarrow>
                      let ss = assembled b (retained_history st') (retained_examples st')
                      in Inl (budget_exceeded b ss (offer_limit ss))))"

definition constraints_of :: "prompt_action \<Rightarrow> target_constraints" where
  "constraints_of a =
     (if a = Call_offer
      then \<lparr>max_messages = Some CALL_OFFER_MAX_MESSAGES, max_content_length = Some CALL_OFFER_MAX_CONTENT_LENGTH\<rparr>
      else \<lparr>max_messages = None, max_content_length = None\<rparr>)"

definition malformed_warning :: "build_input \<Rightarrow> ptext list" where
  "malformed_warning b =
     (let n = snd (parse_example_groups_counted (mes_example (b_character b))) in
      if n \<noteq> 0 then [lit ''omitted_malformed_example_groups:'' @ lit (nat_str n)] else [])"

definition build_result_of :: "build_input \<Rightarrow> trim_state \<Rightarrow> build_result" where
  "build_result_of b st =
     (let ss = assembled b (retained_history st) (retained_examples st);
          cs = message_candidates ss;
          s = b_settings b;
          ws = malformed_warning b;
          preview = \<lparr>p_action = b_action b, p_mode = mode s, p_contract_version = PROMPT_CONTRACT_VERSION,
            p_estimator_version = PROMPT_ESTIMATOR_VERSION, p_sections = ss, p_messages = cs,
            p_input_budget = input_budget_of s, p_estimated_input_tokens = estimated_total ss,
            p_dropped_history_count = history_dropped st,
            p_dropped_example_group_count = examples_dropped st, p_warnings = ws\<rparr>
      in \<lparr>r_action = b_action b, r_variant = variant (b_thread b), r_call_mode = b_call_mode b, r_mode = mode s,
          r_contract_version = PROMPT_CONTRACT_VERSION, r_estimator_version = PROMPT_ESTIMATOR_VERSION,
          r_settings = s, r_character = b_character b, r_thread = b_thread b, r_history = composed_history b,
          r_sections = ss, transmitted_message_candidates = cs, public_preview = preview,
          r_context_limit = context_limit s, configured_max_output = max_tokens s,
          safety_margin = safety_margin_of s, input_budget = input_budget_of s,
          estimated_input_tokens = estimated_total ss, dropped_history_count = history_dropped st,
          dropped_example_group_count = examples_dropped st, r_warnings = ws,
          r_target_constraints = constraints_of (b_action b)\<rparr>)"

definition compose_prompt :: "build_input \<Rightarrow> budget_error + build_result" where
  "compose_prompt b = bind_res (trimmed b) (\<lambda>st. Inr (build_result_of b st))"

section \<open>Hydration\<close>

definition field_of :: "pv \<Rightarrow> string \<Rightarrow> pv" where
  "field_of v k = (case v of PDict d \<Rightarrow> vget d k | _ \<Rightarrow> PNone)"

definition py_str :: "(pv \<Rightarrow> ptext) \<Rightarrow> pv \<Rightarrow> ptext" where
  "py_str rp v = (case v of PStr t \<Rightarrow> t | _ \<Rightarrow> rp v)"

fun first_value :: "pv \<Rightarrow> string list \<Rightarrow> pv" where
  "first_value v [] = PNone"
| "first_value v (k # ks) = (if field_of v k \<noteq> PNone then field_of v k else first_value v ks)"

definition optional_text :: "(pv \<Rightarrow> ptext) \<Rightarrow> pv \<Rightarrow> ptext option" where
  "optional_text rp v = (if v = PNone then None else Some (py_str rp v))"

text \<open>\<open>str(value or "")\<close>.\<close>

definition text_or_empty :: "(pv \<Rightarrow> ptext) \<Rightarrow> pv \<Rightarrow> ptext" where
  "text_or_empty rp v = (if truthy v then py_str rp v else [])"

definition character_snapshot_of :: "(pv \<Rightarrow> ptext) \<Rightarrow> pv \<Rightarrow> character_snapshot" where
  "character_snapshot_of rp pt =
     (let thread = (if truthy (field_of pt ''thread'') then field_of pt ''thread'' else pt);
          snap = field_of pt ''character_snapshot'';
          src = (if snap \<noteq> PNone then snap else thread)
      in \<lparr>c_name = text_or_empty rp (first_value src [''name'', ''character_name'', ''character_snapshot_name'']),
          description = text_or_empty rp (first_value src [''description'', ''character_snapshot_description'']),
          personality = text_or_empty rp (first_value src [''personality'', ''character_snapshot_personality'']),
          scenario = text_or_empty rp (first_value src [''scenario'', ''character_snapshot_scenario'']),
          system_prompt = optional_text rp
            (first_value src [''system_prompt'', ''character_snapshot_system_prompt'']),
          post_history_instructions = optional_text rp
            (first_value src [''post_history_instructions'', ''character_snapshot_post_history_instructions'']),
          mes_example = optional_text rp
            (first_value src [''mes_example'', ''character_snapshot_mes_example''])\<rparr>)"

definition items_of :: "pv \<Rightarrow> pv list" where
  "items_of v = (case v of PList vs \<Rightarrow> vs | _ \<Rightarrow> [])"

definition selected_content :: "(pv \<Rightarrow> ptext) \<Rightarrow> pv \<Rightarrow> ptext option" where
  "selected_content rp m =
     (let sel = field_of m ''selected_alternate_id'' in
      case (if sel = PNone then None
            else find (\<lambda>a. field_of a ''id'' = sel) (items_of (field_of m ''alternates''))) of
        Some a \<Rightarrow> optional_text rp (field_of a ''content_text'')
      | None \<Rightarrow> optional_text rp (field_of m ''content_text''))"

definition role_of :: "(pv \<Rightarrow> ptext) \<Rightarrow> pv \<Rightarrow> prompt_role option" where
  "role_of rp v =
     (if v = PNone then None
      else if py_str rp v = lit ''user'' then Some User
      else if py_str rp v = lit ''assistant'' then Some Assistant
      else None)"

definition entry_of :: "(pv \<Rightarrow> ptext) \<Rightarrow> nat \<Rightarrow> pv \<Rightarrow> prompt_role \<Rightarrow> ptext \<Rightarrow> history_entry" where
  "entry_of rp index m r t = \<lparr>
     entry_id = (if truthy (field_of m ''id'') then py_str rp (field_of m ''id'') else lit ''sequence-'' @ pad6 index),
     entry_sequence = (case field_of m ''sequence'' of
         PInt i \<Rightarrow> i | PBool p \<Rightarrow> (if p then 1 else 0) | _ \<Rightarrow> int index),
     entry_role = r, entry_content = t\<rparr>"

fun collect_entries :: "(pv \<Rightarrow> ptext) \<Rightarrow> ptext option \<Rightarrow> nat \<Rightarrow> pv list \<Rightarrow> history_entry list" where
  "collect_entries rp until index [] = []"
| "collect_entries rp until index (m # ms) =
     (if truthy (field_of m ''stale_after_edit'') then collect_entries rp until (index + 1) ms
      else case role_of rp (field_of m ''role'') of
             None \<Rightarrow> collect_entries rp until (index + 1) ms
           | Some r \<Rightarrow>
               (case selected_content rp m of
                  Some t \<Rightarrow> if t \<noteq> [] then [entry_of rp index m r t] else []
                | None \<Rightarrow> [])
               @ (case until of
                    Some u \<Rightarrow>
                      if field_of m ''id'' = PStr u then [] else collect_entries rp until (index + 1) ms
                  | None \<Rightarrow> collect_entries rp until (index + 1) ms))"

definition history_entries :: "(pv \<Rightarrow> ptext) \<Rightarrow> pv \<Rightarrow> ptext option \<Rightarrow> history_entry list" where
  "history_entries rp pt until = ordered_history (collect_entries rp until 0 (items_of (field_of pt ''messages'')))"

text \<open>
  \<open>build_structured_prompt\<close> for the thread that the repository returns (the branch without a
  repository opens a session and calls itself with the repository of that session).
\<close>

definition build_structured_prompt :: "(pv \<Rightarrow> ptext) \<Rightarrow> (ptext \<Rightarrow> pv) \<Rightarrow> ptext \<Rightarrow> prompt_settings \<Rightarrow> ptext option
    \<Rightarrow> prompt_action \<Rightarrow> ptext option \<Rightarrow> budget_error + build_result" where
  "build_structured_prompt rp get_prompt_thread tid s until act typed =
     (let pt = get_prompt_thread tid in
      compose_prompt \<lparr>b_settings = s, b_character = character_snapshot_of rp pt,
        b_thread = \<lparr>thread_id = tid, variant = ''selected''\<rparr>, b_history = history_entries rp pt until,
        b_action = act, b_call_mode = (if act = Call_offer \<or> act = Call_turn then Call_mode else Text_mode),
        composer_text = typed\<rparr>)"

definition build_prompt_context :: "(pv \<Rightarrow> ptext) \<Rightarrow> (ptext \<Rightarrow> pv) \<Rightarrow> ptext \<Rightarrow> prompt_settings option \<Rightarrow> ptext option
    \<Rightarrow> prompt_action option \<Rightarrow> ptext option \<Rightarrow> budget_error + (prompt_role \<times> ptext) list" where
  "build_prompt_context rp get_prompt_thread tid s until act typed =
     bind_res (build_structured_prompt rp get_prompt_thread tid
         (case s of None \<Rightarrow> default_settings | Some x \<Rightarrow> x) until
         (case act of None \<Rightarrow> Send | Some a \<Rightarrow> a) typed)
       (\<lambda>r. Inr (map (\<lambda>c. (m_role c, m_content c)) (transmitted_message_candidates r)))"

definition build_call_prompt_context :: "(pv \<Rightarrow> ptext) \<Rightarrow> (ptext \<Rightarrow> pv) \<Rightarrow> ptext \<Rightarrow> prompt_settings option
    \<Rightarrow> nat \<Rightarrow> prompt_action \<Rightarrow> budget_error + (prompt_role \<times> ptext) list" where
  "build_call_prompt_context rp get_prompt_thread tid s max_turns act =
     build_prompt_context rp get_prompt_thread tid s None (Some act) None"

end
