(* ===== verification/PromptLaws.thy ===== *)
theory PromptLaws
  imports PromptBuilder "HOL-Library.Sublist"
begin

text \<open>
  What the composer guarantees: mandatory sections always survive, the oldest optional material is dropped
  first and no more of it than needed, the result fits the budget (and a call offer its message limits),
  and composition fails exactly when the mandatory material alone does not fit.
\<close>

section \<open>Sections\<close>

lemma mandatory_make [simp]: "mandatory (make_section i r t src ov m g) = m"
  by (simp add: make_section_def)

lemma base_mandatory: "s \<in> set (base_sections b) \<Longrightarrow> mandatory s"
  by (auto simp: base_sections_def main_section_def Let_def split: prod.splits)

lemma phi_mandatory: "mandatory (phi_section b)"
  by (auto simp: phi_section_def split: prod.splits)

lemma prefill_mandatory: "s \<in> set (prefill_sections b) \<Longrightarrow> mandatory s"
  by (auto simp: prefill_sections_def split: option.splits if_splits)

lemma example_optional: "g \<in> set (example_sections b) \<Longrightarrow> s \<in> set g \<Longrightarrow> \<not> mandatory s"
  by (auto simp: example_sections_def Let_def example_section_def)

lemma filter_mandatory_all: "\<forall>s\<in>set ss. mandatory s \<Longrightarrow> filter mandatory ss = ss"
  by simp

definition optional_examples :: "prompt_section list list \<Rightarrow> bool" where
  "optional_examples es \<longleftrightarrow> (\<forall>g\<in>set es. \<forall>s\<in>set g. \<not> mandatory s)"

lemma optional_examples_filter: "optional_examples es \<Longrightarrow> filter mandatory (concat es) = []"
  by (auto simp: optional_examples_def filter_empty_conv)

lemma filter_assembled:
  assumes "optional_examples es"
  shows "filter mandatory (assembled b h es) = base_sections b @ filter mandatory h @ [phi_section b] @ prefill_sections b"
proof -
  have "filter mandatory (base_sections b) = base_sections b"
    and "filter mandatory (prefill_sections b) = prefill_sections b"
    using base_mandatory prefill_mandatory by (auto intro: filter_mandatory_all)
  then show ?thesis
    by (simp add: assembled_def optional_examples_filter [OF assms] phi_mandatory)
qed

section \<open>Trimming\<close>

fun drop_optional :: "nat \<Rightarrow> prompt_section list \<Rightarrow> prompt_section list" where
  "drop_optional 0 ss = ss"
| "drop_optional (Suc n) ss = (case pop_optional ss of None \<Rightarrow> ss | Some ts \<Rightarrow> drop_optional n ts)"

lemma pop_optional_Some:
  "pop_optional ss = Some ts \<Longrightarrow> filter mandatory ts = filter mandatory ss \<and> subseq ts ss"
  by (induction ss arbitrary: ts) (auto split: if_splits)

lemma pop_optional_None: "pop_optional ss = None \<longleftrightarrow> (\<forall>s\<in>set ss. mandatory s)"
  by (induction ss) auto

lemma drop_optional_Suc_pop:
  "pop_optional (drop_optional n ss) = Some ts \<Longrightarrow> drop_optional (Suc n) ss = ts"
proof (induction n arbitrary: ss)
  case (Suc n)
  then show ?case by (cases "pop_optional ss") (auto split: option.splits)
qed simp

lemma drop_optional_filter: "filter mandatory (drop_optional n ss) = filter mandatory ss"
  by (induction n arbitrary: ss) (auto split: option.splits dest: pop_optional_Some)

text \<open>The state that the loop has reached after dropping \<open>h\<close> entries and \<open>e\<close> groups.\<close>

definition trim_stage :: "trim_state \<Rightarrow> nat \<Rightarrow> nat \<Rightarrow> trim_state" where
  "trim_stage st h e = \<lparr>retained_history = drop_optional h (retained_history st),
     retained_examples = drop e (retained_examples st),
     history_dropped = history_dropped st + h, examples_dropped = examples_dropped st + e\<rparr>"

definition refused_at :: "(prompt_section list \<Rightarrow> bool) \<Rightarrow> build_input \<Rightarrow> trim_state \<Rightarrow> bool" where
  "refused_at refuse b st \<longleftrightarrow> refuse (assembled b (retained_history st) (retained_examples st))"

text \<open>
  The result of the loop: a stage whose assembly is accepted, with groups dropped only when no optional
  history is left, and with the stage before it refused.
\<close>

definition least_stage :: "(prompt_section list \<Rightarrow> bool) \<Rightarrow> build_input \<Rightarrow> trim_state \<Rightarrow> nat \<Rightarrow> nat \<Rightarrow> bool" where
  "least_stage refuse b st h e \<longleftrightarrow>
     \<not> refused_at refuse b (trim_stage st h e)
   \<and> (0 < e \<longrightarrow> (\<forall>s\<in>set (drop_optional h (retained_history st)). mandatory s)
        \<and> refused_at refuse b (trim_stage st h (e - 1)))
   \<and> (e = 0 \<and> 0 < h \<longrightarrow> refused_at refuse b (trim_stage st (h - 1) 0))"

lemma trim_examples:
  assumes "\<forall>s\<in>set (retained_history st). mandatory s" and "trim refuse b st = Inr st'"
  shows "\<exists>e. st' = trim_stage st 0 e \<and> \<not> refused_at refuse b st'
    \<and> (0 < e \<longrightarrow> refused_at refuse b (trim_stage st 0 (e - 1)))"
  using assms
proof (induction "retained_examples st" arbitrary: st)
  case Nil
  then have "st' = st \<and> \<not> refused_at refuse b st"
    using pop_optional_None [of "retained_history st"]
    by (auto simp: trim.simps [of refuse b st] refused_at_def split: if_splits)
  moreover have "st = trim_stage st 0 0" by (simp add: trim_stage_def)
  ultimately show ?case by (metis less_irrefl)
next
  case (Cons g gs)
  let ?n = "st\<lparr>retained_examples := gs, examples_dropped := examples_dropped st + 1\<rparr>"
  show ?case
  proof (cases "refused_at refuse b st")
    case False
    then have "st' = st" using Cons.prems by (simp add: trim.simps [of refuse b st] refused_at_def)
    moreover have "st = trim_stage st 0 0" by (simp add: trim_stage_def)
    ultimately show ?thesis using False by (metis less_irrefl)
  next
    case True
    have pn: "pop_optional (retained_history st) = None"
      using Cons.prems(1) pop_optional_None by blast
    have "trim refuse b ?n = Inr st'"
      using True Cons.prems(2) pn Cons.hyps(2) [symmetric]
      by (simp add: trim.simps [of refuse b st] refused_at_def)
    moreover have "\<forall>s\<in>set (retained_history ?n). mandatory s" using Cons.prems(1) by simp
    moreover have "gs = retained_examples ?n" by simp
    ultimately obtain e where e: "st' = trim_stage ?n 0 e" "\<not> refused_at refuse b st'"
      "0 < e \<longrightarrow> refused_at refuse b (trim_stage ?n 0 (e - 1))"
      using Cons.hyps(1) [of ?n] by blast
    have eq: "trim_stage ?n 0 k = trim_stage st 0 (Suc k)" for k
      using Cons.hyps(2) [symmetric] by (simp add: trim_stage_def)
    have "trim_stage st 0 0 = st" by (simp add: trim_stage_def)
    then have "refused_at refuse b (trim_stage st 0 (Suc e - 1))"
      using True e(3) eq [of "e - 1"] by (cases e) simp_all
    then show ?thesis using e(1,2) eq [of e] by blast
  qed
qed

lemma trim_least:
  assumes "trim refuse b st = Inr st'"
  shows "\<exists>h e. st' = trim_stage st h e \<and> least_stage refuse b st h e"
  using assms
proof (induction "length (retained_history st)" arbitrary: st rule: less_induct)
  case less
  show ?case
  proof (cases "pop_optional (retained_history st)")
    case None
    then have m: "\<forall>s\<in>set (retained_history st). mandatory s" by (simp add: pop_optional_None)
    from trim_examples [OF m less.prems] obtain e where "st' = trim_stage st 0 e"
      "\<not> refused_at refuse b st'" "0 < e \<longrightarrow> refused_at refuse b (trim_stage st 0 (e - 1))" by blast
    then have "least_stage refuse b st 0 e" using m by (simp add: least_stage_def)
    with \<open>st' = trim_stage st 0 e\<close> show ?thesis by blast
  next
    case (Some hist)
    define n where "n = st\<lparr>retained_history := hist, history_dropped := history_dropped st + 1\<rparr>"
    have eq: "trim_stage n k j = trim_stage st (Suc k) j" for k j
      using Some by (simp add: trim_stage_def n_def)
    have rh: "retained_history n = hist" "drop_optional (Suc k) (retained_history st) = drop_optional k hist" for k
      using Some by (simp_all add: n_def)
    have z: "trim_stage st 0 0 = st" by (simp add: trim_stage_def)
    show ?thesis
    proof (cases "refused_at refuse b st")
      case False
      then have "st' = st" using less.prems by (simp add: trim.simps [of refuse b st] refused_at_def)
      with False z have "st' = trim_stage st 0 0 \<and> least_stage refuse b st 0 0" by (simp add: least_stage_def)
      then show ?thesis by blast
    next
      case True
      then have "trim refuse b n = Inr st'"
        using less.prems Some by (simp add: trim.simps [of refuse b st] refused_at_def n_def)
      from less.hyps [OF _ this] pop_optional_length [OF Some] rh(1)
      obtain h e where he: "st' = trim_stage n h e" "least_stage refuse b n h e" by auto
      have "refused_at refuse b (trim_stage st (Suc h - 1) 0)" if "e = 0"
        using he(2) that True z by (cases h) (simp_all add: least_stage_def eq)
      then have "least_stage refuse b st (Suc h) e"
        using he(2) by (simp add: least_stage_def eq rh del: drop_optional.simps)
      with he(1) eq show ?thesis by metis
    qed
  qed
qed

lemma trim_fails:
  assumes "trim refuse b st = Inl st'"
  shows "refused_at refuse b st' \<and> retained_examples st' = []
    \<and> retained_history st' = filter mandatory (retained_history st)"
  using assms
proof (induction refuse b st rule: trim.induct)
  case (1 refuse b st)
  have r: "refused_at refuse b st"
    using "1.prems" by (auto simp: trim.simps [of refuse b st] refused_at_def split: if_splits)
  then have nn: "\<not> \<not> refuse (assembled b (retained_history st) (retained_examples st))"
    by (simp add: refused_at_def)
  show ?case
  proof (cases "pop_optional (retained_history st)")
    case None
    then have m: "\<forall>s\<in>set (retained_history st). mandatory s" by (simp add: pop_optional_None)
    show ?thesis
    proof (cases "retained_examples st")
      case Nil
      then have "st' = st" using "1.prems" r None by (simp add: trim.simps [of refuse b st] refused_at_def)
      with r Nil m show ?thesis by simp
    next
      case (Cons g gs)
      let ?n = "st\<lparr>retained_examples := gs, examples_dropped := examples_dropped st + 1\<rparr>"
      have "trim refuse b ?n = Inl st'"
        using "1.prems" r None Cons by (simp add: trim.simps [of refuse b st] refused_at_def)
      from "1.IH"(1) [OF nn None Cons this] show ?thesis by simp
    qed
  next
    case (Some hist)
    let ?n = "st\<lparr>retained_history := hist, history_dropped := history_dropped st + 1\<rparr>"
    have "trim refuse b ?n = Inl st'"
      using "1.prems" r Some by (simp add: trim.simps [of refuse b st] refused_at_def)
    from "1.IH"(2) [OF nn Some this] pop_optional_Some [OF Some] show ?thesis by simp
  qed
qed

section \<open>Composition\<close>

definition trim_start :: "build_input \<Rightarrow> trim_state" where
  "trim_start b = \<lparr>retained_history = history_sections (composed_history b),
     retained_examples = example_sections b, history_dropped = 0, examples_dropped = 0\<rparr>"

lemma trim_stage_add:
  "(0 < e \<longrightarrow> pop_optional (drop_optional h (retained_history st)) = None) \<Longrightarrow>
     trim_stage (trim_stage st h e) 0 e' = trim_stage st h (e + e')"
  by (simp add: trim_stage_def add.commute)

lemma drop_optional_stuck: "pop_optional ss = None \<Longrightarrow> drop_optional n ss = ss"
  by (cases n) simp_all

lemma drop_optional_add: "drop_optional n (drop_optional k ss) = drop_optional (k + n) ss"
proof (induction k arbitrary: ss)
  case (Suc k)
  show ?case
  proof (cases "pop_optional ss")
    case None
    then show ?thesis by (simp add: drop_optional_stuck)
  next
    case (Some ts)
    then show ?thesis using Suc.IH by simp
  qed
qed simp

lemma stage_filter: "filter mandatory (retained_history (trim_stage st h e)) = filter mandatory (retained_history st)"
  by (simp add: trim_stage_def drop_optional_filter)

lemma stage_optional: "optional_examples (retained_examples st) \<Longrightarrow> optional_examples (retained_examples (trim_stage st h e))"
  by (auto simp: trim_stage_def optional_examples_def dest: in_set_dropD)

lemma start_optional: "optional_examples (retained_examples (trim_start b))"
  using example_optional by (auto simp: trim_start_def optional_examples_def)

text \<open>The state that composition reaches keeps the mandatory sections and drops from the front.\<close>

lemma trimmed_stage:
  assumes "trimmed b = Inr st"
  shows "\<exists>h e h' e'. st = trim_stage (trim_stage (trim_start b) h e) h' e'
    \<and> \<not> over_budget b (assembled b (retained_history (trim_stage (trim_start b) h e))
          (retained_examples (trim_stage (trim_start b) h e)))
    \<and> least_stage (over_budget b) b (trim_start b) h e
    \<and> (if b_action b = Call_offer
       then least_stage violates_offer_constraints b (trim_stage (trim_start b) h e) h' e'
       else h' = 0 \<and> e' = 0)"
proof -
  obtain st1 where t1: "trim (over_budget b) b (trim_start b) = Inr st1"
    using assms by (auto simp: trimmed_def trim_start_def Let_def split: if_splits sum.splits)
  from trim_least [OF t1] obtain h e where 1: "st1 = trim_stage (trim_start b) h e"
    "least_stage (over_budget b) b (trim_start b) h e" by blast
  then have nb: "\<not> over_budget b (assembled b (retained_history st1) (retained_examples st1))"
    by (simp add: least_stage_def refused_at_def)
  show ?thesis
  proof (cases "b_action b = Call_offer")
    case False
    then have "st = st1" using assms t1
      by (auto simp: trimmed_def trim_start_def Let_def split: if_splits sum.splits)
    moreover have "st1 = trim_stage st1 0 0" by (simp add: trim_stage_def)
    ultimately show ?thesis using 1 nb False by metis
  next
    case True
    then have "trim violates_offer_constraints b st1 = Inr st" using assms t1
      by (auto simp: trimmed_def trim_start_def Let_def split: if_splits sum.splits)
    from trim_least [OF this] 1 nb True show ?thesis by metis
  qed
qed

lemma subseq_total: "subseq xs ys \<Longrightarrow> estimated_total xs \<le> estimated_total ys"
  by (induction rule: list_emb.induct) (auto simp: estimated_total_def)

lemma drop_optional_subseq: "subseq (drop_optional n ss) ss"
proof (induction n arbitrary: ss)
  case (Suc n)
  show ?case
  proof (cases "pop_optional ss")
    case (Some ts)
    with Suc.IH [of ts] pop_optional_Some [OF Some] show ?thesis
      by (auto intro: subseq_order.order_trans)
  qed simp
qed simp

lemma subseq_drop_concat: "subseq (concat (drop n es)) (concat es)"
proof -
  have "concat es = concat (take n es) @ concat (drop n es)" by (simp flip: concat_append)
  moreover have "subseq (concat (drop n es)) (concat (take n es) @ concat (drop n es))"
    by (rule list_emb_append2) simp
  ultimately show ?thesis by (simp only:)
qed

lemma assembled_stage_subseq:
  "subseq (assembled b (retained_history (trim_stage st h e)) (retained_examples (trim_stage st h e)))
     (assembled b (retained_history st) (retained_examples st))"
  unfolding assembled_def trim_stage_def
  by (auto intro!: list_emb_append_mono drop_optional_subseq subseq_drop_concat)

lemma mandatory_sections_filter:
  "optional_examples es \<Longrightarrow> filter mandatory h = filter mandatory (history_sections (composed_history b)) \<Longrightarrow>
     filter mandatory (assembled b h es) = mandatory_sections b"
  by (simp add: filter_assembled mandatory_sections_def)

lemma trimmed_facts:
  assumes "trimmed b = Inr st"
  shows "filter mandatory (assembled b (retained_history st) (retained_examples st)) = mandatory_sections b
    \<and> int (estimated_total (assembled b (retained_history st) (retained_examples st))) \<le> input_budget_of (b_settings b)
    \<and> (b_action b = Call_offer \<longrightarrow>
         \<not> violates_offer_constraints (assembled b (retained_history st) (retained_examples st)))"
proof -
  from trimmed_stage [OF assms] obtain h e h' e' where
    st: "st = trim_stage (trim_stage (trim_start b) h e) h' e'"
    and nb: "\<not> over_budget b (assembled b (retained_history (trim_stage (trim_start b) h e))
          (retained_examples (trim_stage (trim_start b) h e)))"
    and off: "if b_action b = Call_offer
       then least_stage violates_offer_constraints b (trim_stage (trim_start b) h e) h' e' else h' = 0 \<and> e' = 0"
    by blast
  have "filter mandatory (retained_history st) = filter mandatory (history_sections (composed_history b))"
    unfolding st by (simp add: stage_filter) (simp add: trim_start_def)
  moreover have "optional_examples (retained_examples st)"
    unfolding st by (intro stage_optional start_optional)
  ultimately have m: "filter mandatory (assembled b (retained_history st) (retained_examples st)) = mandatory_sections b"
    by (rule mandatory_sections_filter [rotated])
  have "estimated_total (assembled b (retained_history st) (retained_examples st))
      \<le> estimated_total (assembled b (retained_history (trim_stage (trim_start b) h e))
          (retained_examples (trim_stage (trim_start b) h e)))"
    unfolding st by (rule subseq_total [OF assembled_stage_subseq])
  with nb have "int (estimated_total (assembled b (retained_history st) (retained_examples st)))
      \<le> input_budget_of (b_settings b)" by (simp add: over_budget_def)
  with m off st show ?thesis by (auto simp: least_stage_def refused_at_def)
qed

lemma trim_start_fails:
  assumes "trim refuse b st = Inl st'" "optional_examples (retained_examples st)"
    "filter mandatory (retained_history st) = filter mandatory (history_sections (composed_history b))"
  shows "refuse (mandatory_sections b)
    \<and> assembled b (retained_history st') (retained_examples st') = mandatory_sections b"
proof -
  from trim_fails [OF assms(1)] assms(3)
  have r: "refused_at refuse b st'" "retained_examples st' = []"
    "retained_history st' = filter mandatory (history_sections (composed_history b))" by simp_all
  then have "assembled b (retained_history st') (retained_examples st') = mandatory_sections b"
    by (simp add: assembled_def mandatory_sections_def)
  with r(1) show ?thesis by (simp add: refused_at_def)
qed

lemma subseq_candidates: "subseq xs ys \<Longrightarrow> subseq (message_candidates xs) (message_candidates ys)"
  by (simp add: message_candidates_def subseq_map subseq_filter)

lemma violates_mono: "subseq xs ys \<Longrightarrow> violates_offer_constraints xs \<Longrightarrow> violates_offer_constraints ys"
  using subseq_candidates [of xs ys] list_emb_length [of "(=)" "message_candidates xs" "message_candidates ys"]
    list_emb_set [of "(=)" "message_candidates xs" "message_candidates ys"]
  by (fastforce simp: violates_offer_constraints_def Let_def list_ex_iff)

lemma subseq_filter_self: "subseq (filter P xs) xs"
  by simp

lemma trimmed_fails_iff:
  "(\<exists>err. trimmed b = Inl err) \<longleftrightarrow> over_budget b (mandatory_sections b)
     \<or> (b_action b = Call_offer \<and> violates_offer_constraints (mandatory_sections b))"
proof
  assume "\<exists>err. trimmed b = Inl err"
  then obtain err where err: "trimmed b = Inl err" by blast
  show "over_budget b (mandatory_sections b)
     \<or> (b_action b = Call_offer \<and> violates_offer_constraints (mandatory_sections b))"
  proof (cases "over_budget b (mandatory_sections b)")
    case False
    show ?thesis
    proof (cases "trim (over_budget b) b (trim_start b)")
      case (Inl st')
      from trim_start_fails [OF Inl start_optional] False show ?thesis by (simp add: trim_start_def)
    next
      case (Inr st1)
      with err False have off: "b_action b = Call_offer"
        by (auto simp: trimmed_def trim_start_def split: if_splits)
      with err False Inr obtain st2 where t2: "trim violates_offer_constraints b st1 = Inl st2"
        by (auto simp: trimmed_def trim_start_def split: sum.splits)
      from trim_least [OF Inr] obtain h e where st1: "st1 = trim_stage (trim_start b) h e" by blast
      have "optional_examples (retained_examples st1)"
        unfolding st1 by (intro stage_optional start_optional)
      moreover have "filter mandatory (retained_history st1) = filter mandatory (history_sections (composed_history b))"
        unfolding st1 by (simp add: stage_filter) (simp add: trim_start_def)
      ultimately show ?thesis using trim_start_fails [OF t2] off by blast
    qed
  qed simp
next
  assume bad: "over_budget b (mandatory_sections b)
     \<or> (b_action b = Call_offer \<and> violates_offer_constraints (mandatory_sections b))"
  show "\<exists>err. trimmed b = Inl err"
  proof (cases "trimmed b")
    case (Inr st)
    note f = trimmed_facts [OF Inr]
    let ?A = "assembled b (retained_history st) (retained_examples st)"
    have "subseq (mandatory_sections b) ?A" using f subseq_filter_self [of mandatory ?A] by simp
    then have "estimated_total (mandatory_sections b) \<le> estimated_total ?A"
      and "violates_offer_constraints (mandatory_sections b) \<Longrightarrow> violates_offer_constraints ?A"
      by (auto intro: subseq_total violates_mono)
    with f bad show ?thesis by (auto simp: over_budget_def)
  qed blast
qed

section \<open>Properties\<close>

text \<open>
  \<^bold>\<open>C36\<close>. A composed prompt fits: its estimate is within the input budget, which together with the
  configured output and the safety margin makes up the context limit; the mandatory sections are all
  present, unaltered and in order; and a call offer has at most 48 messages of at most 20,000 characters.
\<close>

theorem composed_prompt_fits:
  assumes "compose_prompt b = Inr r"
  shows "int (estimated_total (r_sections r)) \<le> input_budget r
    \<and> input_budget r + configured_max_output r + safety_margin r = r_context_limit r \<and> 256 \<le> safety_margin r
    \<and> filter mandatory (r_sections r) = mandatory_sections b
    \<and> transmitted_message_candidates r = message_candidates (r_sections r)
    \<and> (b_action b = Call_offer \<longrightarrow> length (transmitted_message_candidates r) \<le> 48
        \<and> (\<forall>c\<in>set (transmitted_message_candidates r). length (m_content c) \<le> 20000))"
proof -
  from assms obtain st where t: "trimmed b = Inr st" and r: "r = build_result_of b st"
    by (auto simp: compose_prompt_def bind_res_Inr_iff)
  from trimmed_facts [OF t] show ?thesis unfolding r
    by (auto simp: build_result_of_def Let_def input_budget_of_def safety_margin_of_def violates_offer_constraints_def
        CALL_OFFER_MAX_MESSAGES_def CALL_OFFER_MAX_CONTENT_LENGTH_def list_ex_iff not_less)
qed

text \<open>
  \<^bold>\<open>C38\<close>. Composition is refused exactly when the mandatory material alone is refused: when it exceeds
  the input budget, or, for a call offer, when it alone violates the message limits.
\<close>

theorem compose_refused_iff:
  "(\<exists>err. compose_prompt b = Inl err) \<longleftrightarrow>
     input_budget_of (b_settings b) < int (estimated_total (mandatory_sections b))
     \<or> (b_action b = Call_offer \<and> violates_offer_constraints (mandatory_sections b))"
proof -
  have "(\<exists>err. compose_prompt b = Inl err) \<longleftrightarrow> (\<exists>err. trimmed b = Inl err)"
    by (auto simp: compose_prompt_def bind_res_Inl_iff)
  then show ?thesis by (simp add: trimmed_fails_iff over_budget_def)
qed

text \<open>
  Outside call offers the composer drops no more than it must, oldest first: the retained
  history is the full one without its first \<open>dropped_history_count\<close> optional entries, the retained
  groups are those after the first \<open>dropped_example_group_count\<close>; groups are dropped only when no
  optional history is left, and without the last drop the prompt would not have fitted.
\<close>

theorem composer_drops_oldest_and_least:
  assumes "compose_prompt b = Inr r" and "b_action b \<noteq> Call_offer"
  shows "r_sections r = assembled b (drop_optional (dropped_history_count r) (history_sections (composed_history b)))
      (drop (dropped_example_group_count r) (example_sections b))
    \<and> (0 < dropped_example_group_count r \<longrightarrow>
        (\<forall>s\<in>set (drop_optional (dropped_history_count r) (history_sections (composed_history b))). mandatory s)
        \<and> over_budget b (assembled b (drop_optional (dropped_history_count r) (history_sections (composed_history b)))
            (drop (dropped_example_group_count r - 1) (example_sections b))))
    \<and> (dropped_example_group_count r = 0 \<and> 0 < dropped_history_count r \<longrightarrow>
        over_budget b (assembled b (drop_optional (dropped_history_count r - 1) (history_sections (composed_history b)))
          (example_sections b)))"
proof -
  from assms(1) obtain st where t: "trimmed b = Inr st" and r: "r = build_result_of b st"
    by (auto simp: compose_prompt_def bind_res_Inr_iff)
  from trimmed_stage [OF t] assms(2) obtain h e where
    "st = trim_stage (trim_stage (trim_start b) h e) 0 0" "least_stage (over_budget b) b (trim_start b) h e"
    by auto
  moreover have "trim_stage s 0 0 = s" for s by (simp add: trim_stage_def)
  ultimately show ?thesis unfolding r
    by (simp add: build_result_of_def Let_def least_stage_def refused_at_def trim_stage_def trim_start_def)
qed

section \<open>A concrete prompt\<close>

definition sample_settings :: prompt_settings where
  "sample_settings = default_settings\<lparr>
     roleplay := \<lparr>main = lit ''{{char}}'', auxiliary = lit ''x'', post_history = lit ''y''\<rparr>\<rparr>"

definition sample_input :: "prompt_action \<Rightarrow> build_input" where
  "sample_input a = \<lparr>b_settings = sample_settings,
     b_character = \<lparr>c_name = lit ''Ada'', description = [], personality = [], scenario = [],
       system_prompt = None, post_history_instructions = None, mes_example = None\<rparr>,
     b_thread = \<lparr>thread_id = lit ''t'', variant = ''selected''\<rparr>, b_history = [],
     b_action = a, b_call_mode = Text_mode, composer_text = None\<rparr>"

lemma sample_mandatory: "estimated_total (mandatory_sections (sample_input Send)) = 62"
  by code_simp

lemma sample_budget: "input_budget_of (b_settings (sample_input a)) = 15052"
  by (simp add: sample_input_def sample_settings_def default_settings_def input_budget_of_def safety_margin_of_def)

lemma sample_composes: "\<exists>r. compose_prompt (sample_input Send) = Inr r"
proof -
  have "\<not> (\<exists>err. trimmed (sample_input Send) = Inl err)"
    unfolding trimmed_fails_iff over_budget_def sample_budget sample_mandatory
    by (simp add: sample_input_def)
  then obtain st where "trimmed (sample_input Send) = Inr st" by (cases "trimmed (sample_input Send)") auto
  then show ?thesis by (simp add: compose_prompt_def)
qed

theorem composed_prompt_fits_witness:
  "\<exists>r. compose_prompt (sample_input Send) = Inr r \<and> int (estimated_total (r_sections r)) \<le> input_budget r
     \<and> filter mandatory (r_sections r) = mandatory_sections (sample_input Send)"
proof -
  obtain r where r: "compose_prompt (sample_input Send) = Inr r" using sample_composes by blast
  from composed_prompt_fits [OF r] r show ?thesis by blast
qed

theorem composer_drops_oldest_and_least_witness:
  "\<exists>r. compose_prompt (sample_input Send) = Inr r
     \<and> r_sections r = assembled (sample_input Send)
         (drop_optional (dropped_history_count r) (history_sections (composed_history (sample_input Send))))
         (drop (dropped_example_group_count r) (example_sections (sample_input Send)))"
proof -
  obtain r where r: "compose_prompt (sample_input Send) = Inr r" using sample_composes by blast
  have "b_action (sample_input Send) \<noteq> Call_offer" by (simp add: sample_input_def)
  from composer_drops_oldest_and_least [OF r this] r show ?thesis by blast
qed

end
