(* ===== verification/GenerationProfiles.thy ===== *)
theory GenerationProfiles
  imports PromptBuilder
begin

text \<open>
  \<open>web-ui/server/app/domain/generation_profiles.py\<close>: the adapter that serialises the logical
  messages for one provider and attempt. \<open>cf\<close> is \<open>casefold\<close> and \<open>rp\<close> and \<open>rpr\<close> render values in
  \<open>str\<close> and \<open>repr\<close>. A frozen value is a tree of tuples, as in the source, so that thawing has to guess whether a
  tuple was a dictionary.
\<close>

section \<open>Data\<close>

datatype adapter = Qwen_llama_server | Generic_openai_compatible

datatype generation_error =
    Adapter_error ptext
  | Request_error py_error

definition RETRY_CORRECTION :: ptext where
  "RETRY_CORRECTION =
     lit ''The prior draft broke character. Continue the fictional scene and respond only with the ''
     @ lit ''in-world reply.''"

definition QWEN_RECOVERY_TEMPERATURE :: pyfloat where
  "QWEN_RECOVERY_TEMPERATURE = Fin (6 / 5)"

record adapter_resolution =
  configured :: pv
  effective :: adapter

record provider_evidence =
  ev_model_id :: "ptext option"
  ev_chat_template_id :: "ptext option"
  ev_chat_template_sha256 :: "ptext option"
  ev_context_capacity :: "int option"
  ev_assistant_prefill :: "bool option"

record provider_expectation =
  ex_model_id :: ptext
  ex_chat_template_id :: ptext
  ex_chat_template_sha256 :: ptext
  ex_context_capacity :: int
  ex_assistant_prefill :: bool
  ex_effective_adapter :: adapter

record wire_message =
  w_role :: prompt_role
  w_content :: ptext
  w_section_ids :: "ptext list"

record sampler_payload =
  sp_max_tokens :: int
  sp_temperature :: pyfloat
  sp_top_p :: pyfloat
  sp_min_p :: pyfloat
  sp_top_k :: int
  sp_repetition_penalty :: pyfloat
  sp_presence_penalty :: pyfloat
  sp_frequency_penalty :: pyfloat

datatype frozen = Atom pv | Text ptext | Tuple "frozen list"

record generation_request =
  g_model :: ptext
  g_configured_adapter :: pv
  g_effective_adapter :: adapter
  g_estimator_version :: ptext
  g_messages :: "wire_message list"
  g_sampler :: "sampler_payload option"
  g_seed :: int
  g_stream :: bool
  extra_body_items :: frozen

section \<open>Conversions\<close>

definition role_text :: "prompt_role \<Rightarrow> ptext" where
  "role_text r = (case r of System \<Rightarrow> lit ''system'' | User \<Rightarrow> lit ''user'' | Assistant \<Rightarrow> lit ''assistant'')"

definition wire_to_openai_dict :: "wire_message \<Rightarrow> pv" where
  "wire_to_openai_dict m = PDict [(lit ''role'', PStr (role_text (w_role m))), (lit ''content'', PStr (w_content m))]"

definition optional_str :: "pv \<Rightarrow> ptext option" where
  "optional_str v = (case v of PStr t \<Rightarrow> Some t | _ \<Rightarrow> None)"

definition optional_int :: "pv \<Rightarrow> int option" where
  "optional_int v = (case v of PInt i \<Rightarrow> Some i | _ \<Rightarrow> None)"

definition optional_bool :: "pv \<Rightarrow> bool option" where
  "optional_bool v = (case v of PBool b \<Rightarrow> Some b | _ \<Rightarrow> None)"

definition evidence_from_mapping :: "(ptext \<times> pv) list \<Rightarrow> provider_evidence" where
  "evidence_from_mapping d = \<lparr>
     ev_model_id = optional_str (vget d ''model_id''),
     ev_chat_template_id = optional_str (vget d ''chat_template_id''),
     ev_chat_template_sha256 = optional_str (vget d ''chat_template_sha256''),
     ev_context_capacity = optional_int (vget d ''context_capacity''),
     ev_assistant_prefill = optional_bool (vget d ''assistant_prefill'')\<rparr>"

definition sampler_from_settings :: "prompt_settings \<Rightarrow> sampler_payload" where
  "sampler_from_settings s = \<lparr>sp_max_tokens = max_tokens s, sp_temperature = temperature s, sp_top_p = top_p s,
     sp_min_p = min_p s, sp_top_k = top_k s, sp_repetition_penalty = repetition_penalty s,
     sp_presence_penalty = presence_penalty s, sp_frequency_penalty = frequency_penalty s\<rparr>"

definition standard_payload :: "sampler_payload \<Rightarrow> (ptext \<times> pv) list" where
  "standard_payload p = [
     (lit ''max_tokens'', PInt (sp_max_tokens p)), (lit ''temperature'', PFloat (sp_temperature p)),
     (lit ''top_p'', PFloat (sp_top_p p)), (lit ''presence_penalty'', PFloat (sp_presence_penalty p)),
     (lit ''frequency_penalty'', PFloat (sp_frequency_penalty p))]"

definition qwen_extra_payload :: "sampler_payload \<Rightarrow> (ptext \<times> pv) list" where
  "qwen_extra_payload p = [
     (lit ''top_k'', PInt (sp_top_k p)), (lit ''min_p'', PFloat (sp_min_p p)),
     (lit ''repeat_penalty'', PFloat (sp_repetition_penalty p))]"

text \<open>\<open>d.update(other)\<close>.\<close>

definition dupdate :: "('k \<times> 'v) list \<Rightarrow> ('k \<times> 'v) list \<Rightarrow> ('k \<times> 'v) list" where
  "dupdate d other = fold (\<lambda>(k, v) acc. dset k v acc) other d"

section \<open>Freezing\<close>

fun deep_copy_value :: "pv \<Rightarrow> pv" where
  "deep_copy_value (PDict d) = PDict (map (\<lambda>(k, v). (k, deep_copy_value v)) d)"
| "deep_copy_value (PList vs) = PList (map deep_copy_value vs)"
| "deep_copy_value v = v"

definition deep_copy_mapping :: "(ptext \<times> pv) list \<Rightarrow> (ptext \<times> pv) list" where
  "deep_copy_mapping d = map (\<lambda>(k, v). (k, deep_copy_value v)) d"

text \<open>\<open>sorted(value.items())\<close>: the keys of a dictionary are distinct, so only they are compared.\<close>

fun freeze_value :: "pv \<Rightarrow> frozen" where
  "freeze_value (PDict d) =
     Tuple (map (\<lambda>(k, f). Tuple [Text k, f]) (sort_key fst (map (\<lambda>(k, v). (k, freeze_value v)) d)))"
| "freeze_value (PList vs) = Tuple (map freeze_value vs)"
| "freeze_value (PStr t) = Text t"
| "freeze_value v = Atom v"

definition freeze_mapping :: "(ptext \<times> pv) list \<Rightarrow> frozen" where
  "freeze_mapping d = freeze_value (PDict d)"

fun is_item :: "frozen \<Rightarrow> bool" where
  "is_item (Tuple [Text k, f]) \<longleftrightarrow> True"
| "is_item _ \<longleftrightarrow> False"

fun item_key :: "frozen \<Rightarrow> ptext" where
  "item_key (Tuple (Text k # _)) = k"
| "item_key _ = []"

function thaw_value :: "frozen \<Rightarrow> pv" where
  "thaw_value (Text t) = PStr t"
| "thaw_value (Atom v) = v"
| "thaw_value (Tuple fs) =
     (if list_all is_item fs
      then PDict (fold (\<lambda>(k, v) acc. dset k v acc)
             (map (\<lambda>f. case f of Tuple [Text k, g] \<Rightarrow> (k, thaw_value g) | _ \<Rightarrow> ([], PNone)) fs) [])
      else PList (map thaw_value fs))"
  by pat_completeness auto
termination
proof (relation "measure size", goal_cases)
  case (2 fs x f fsa k g)
  have "size x < Suc (size_list size fs)" using 2(2) by (induction fs) auto
  with 2 show ?case by auto
next
  case (3 fs x)
  have "size x < Suc (size_list size fs)" using 3(2) by (induction fs) auto
  then show ?case by auto
qed auto

section \<open>The adapter\<close>

definition resolve_generation_profile :: "(ptext \<Rightarrow> ptext) \<Rightarrow> (pv \<Rightarrow> ptext) \<Rightarrow> pv \<Rightarrow> ptext
    \<Rightarrow> generation_error + adapter_resolution" where
  "resolve_generation_profile cf rpr conf model =
     (if conf \<notin> {pstr ''auto'', pstr ''qwen_llama_server'', pstr ''generic_openai_compatible''}
      then Inl (Adapter_error (lit ''Unsupported generation adapter: '' @ rpr conf @ lit ''.''))
      else Inr \<lparr>configured = conf,
        effective = (if conf = pstr ''qwen_llama_server'' then Qwen_llama_server
          else if conf = pstr ''generic_openai_compatible'' then Generic_openai_compatible
          else if contains (lit ''qwen'') (cf model) then Qwen_llama_server
          else Generic_openai_compatible)\<rparr>)"

definition evidence_message :: ptext where
  "evidence_message =
     lit ''Provider identity, template, context, or assistant-prefill evidence is '' @ lit ''missing or mismatched.''"

definition validate_provider_evidence :: "(ptext \<Rightarrow> ptext) \<Rightarrow> (pv \<Rightarrow> ptext) \<Rightarrow> provider_evidence
    \<Rightarrow> generation_error + provider_expectation" where
  "validate_provider_evidence cf rpr ev =
     (case (ev_model_id ev, ev_chat_template_id ev, ev_chat_template_sha256 ev, ev_context_capacity ev) of
        (Some m, Some t, Some h, Some cap) \<Rightarrow>
          if m = [] \<or> t = [] \<or> m \<noteq> t \<or> h = [] \<or> length h \<noteq> 64 \<or> cap \<le> 0 \<or> ev_assistant_prefill ev \<noteq> Some True
          then Inl (Adapter_error evidence_message)
          else bind_res (resolve_generation_profile cf rpr (pstr ''auto'') m) (\<lambda>res.
            Inr \<lparr>ex_model_id = m, ex_chat_template_id = t, ex_chat_template_sha256 = h,
              ex_context_capacity = cap, ex_assistant_prefill = True, ex_effective_adapter = effective res\<rparr>)
      | _ \<Rightarrow> Inl (Adapter_error evidence_message))"

datatype logical_message = Candidate message_candidate | Raw "(ptext \<times> pv) list"

definition role_of_pv :: "pv \<Rightarrow> prompt_role option" where
  "role_of_pv v = (if v = pstr ''system'' then Some System else if v = pstr ''user'' then Some User
     else if v = pstr ''assistant'' then Some Assistant else None)"

definition wire_message_of :: "(pv \<Rightarrow> ptext) \<Rightarrow> logical_message \<Rightarrow> generation_error + wire_message" where
  "wire_message_of rp lm =
     (case lm of
        Candidate c \<Rightarrow> Inr \<lparr>w_role = m_role c, w_content = m_content c, w_section_ids = m_section_ids c\<rparr>
      | Raw d \<Rightarrow>
          (case role_of_pv (vget d ''role'') of
             None \<Rightarrow>
               Inl (Request_error (if is_list (vget d ''role'') \<or> is_mapping (vget d ''role'')
                 then Type_error ''unhashable type'' else Value_error ''Unsupported logical message role''))
           | Some r \<Rightarrow>
               (case vget d ''content'' of
                  PStr t \<Rightarrow>
                    (case vget_or d ''section_ids'' (PList []) of
                       PList ids \<Rightarrow> Inr \<lparr>w_role = r, w_content = t, w_section_ids = map (py_str rp) ids\<rparr>
                     | _ \<Rightarrow> Inl (Request_error (Type_error ''Logical section IDs must be a sequence'')))
                | _ \<Rightarrow> Inl (Request_error (Type_error ''Logical message content must be text'')))))"

definition serialize_qwen_body :: "wire_message list \<Rightarrow> wire_message list" where
  "serialize_qwen_body ms =
     (let leading = takeWhile (\<lambda>m. w_role m = System) ms;
          rest = dropWhile (\<lambda>m. w_role m = System) ms
      in (if leading \<noteq> []
          then [\<lparr>w_role = System, w_content = join [10, 10] (map w_content leading),
                 w_section_ids = concat (map w_section_ids leading)\<rparr>]
          else [])
         @ map (\<lambda>m. if w_role m = System then m\<lparr>w_role := User\<rparr> else m) rest)"

definition no_think_content :: "ptext \<Rightarrow> ptext" where
  "no_think_content t =
     (let c = rstrip t in
      if \<not> contains (lit ''/no_think'') c
      then (if c \<noteq> [] then c @ [10, 10] @ lit ''/no_think'' else lit ''/no_think'')
      else c)"

text \<open>The backward loop stops at the last message of the user: the recursion is on the reversed list.\<close>

fun no_think_rev :: "wire_message list \<Rightarrow> wire_message list" where
  "no_think_rev [] = []"
| "no_think_rev (m # ms) =
     (if w_role m \<noteq> User then m # no_think_rev ms
      else m\<lparr>w_content := no_think_content (w_content m)\<rparr> # ms)"

definition append_no_think :: "wire_message list \<Rightarrow> wire_message list" where
  "append_no_think ms = rev (no_think_rev (rev ms))"

definition retry_message :: "prompt_role \<Rightarrow> wire_message" where
  "retry_message r = \<lparr>w_role = r, w_content = RETRY_CORRECTION, w_section_ids = [lit ''retry_correction'']\<rparr>"

definition serialize_messages :: "wire_message list \<Rightarrow> adapter \<Rightarrow> int \<Rightarrow> bool \<Rightarrow> wire_message list" where
  "serialize_messages ms eff attempt disable_thinking =
     (let final_prefill = (ms \<noteq> [] \<and> w_role (last ms) = Assistant);
          body = (if final_prefill then butlast ms else ms);
          prefill = (if final_prefill then [last ms] else []);
          body1 = (if eff = Qwen_llama_server then serialize_qwen_body body else body);
          correction_role = (if eff = Qwen_llama_server then User else System);
          body2 = (if attempt > 1 then body1 @ [retry_message correction_role] else body1);
          body3 = (if eff = Qwen_llama_server \<and> disable_thinking then append_no_think body2 else body2)
      in body3 @ prefill)"

definition float_max :: "pyfloat \<Rightarrow> pyfloat \<Rightarrow> pyfloat" where
  "float_max a b = (if float_less a b then b else a)"

definition sampler_for_attempt :: "prompt_settings option \<Rightarrow> adapter \<Rightarrow> int \<Rightarrow> sampler_payload option" where
  "sampler_for_attempt s eff attempt =
     (case s of
        None \<Rightarrow> None
      | Some st \<Rightarrow>
          let sampler = sampler_from_settings st in
          if eff = Qwen_llama_server \<and> attempt > 1
          then Some (sampler\<lparr>sp_temperature := float_max (sp_temperature sampler) QWEN_RECOVERY_TEMPERATURE\<rparr>)
          else Some sampler)"

definition merged_extra :: "adapter \<Rightarrow> sampler_payload option \<Rightarrow> bool \<Rightarrow> (ptext \<times> pv) list \<Rightarrow> (ptext \<times> pv) list" where
  "merged_extra eff sampler disable_thinking extra =
     (if eff = Qwen_llama_server
      then
        let m0 = deep_copy_mapping extra;
            m1 = (case sampler of None \<Rightarrow> m0 | Some p \<Rightarrow> dupdate m0 (qwen_extra_payload p))
        in if disable_thinking
           then
             let opts = (case vget m1 ''chat_template_kwargs'' of PDict d \<Rightarrow> deep_copy_mapping d | _ \<Rightarrow> [])
             in dset (lit ''chat_template_kwargs'') (PDict (dset (lit ''enable_thinking'') (PBool False) opts)) m1
           else m1
      else [])"

definition build_generation_request :: "(ptext \<Rightarrow> ptext) \<Rightarrow> (pv \<Rightarrow> ptext) \<Rightarrow> (pv \<Rightarrow> ptext) \<Rightarrow> ptext \<Rightarrow> logical_message list
    \<Rightarrow> prompt_settings option \<Rightarrow> int \<Rightarrow> int \<Rightarrow> bool \<Rightarrow> (ptext \<times> pv) list \<Rightarrow> bool
    \<Rightarrow> generation_error + generation_request" where
  "build_generation_request cf rp rpr model messages s seed attempt disable_thinking extra_body stream =
     (if attempt \<notin> {1, 2, 3} then Inl (Request_error (Value_error ''generation attempt must be 1, 2, or 3''))
      else
        let conf = (case s of None \<Rightarrow> pstr ''auto'' | Some st \<Rightarrow> model_profile st) in
        bind_res (resolve_generation_profile cf rpr conf model) (\<lambda>res.
        bind_res (map_res (wire_message_of rp) messages) (\<lambda>logical.
          let sampler = sampler_for_attempt s (effective res) attempt in
          Inr \<lparr>g_model = model, g_configured_adapter = configured res, g_effective_adapter = effective res,
            g_estimator_version = PROMPT_ESTIMATOR_VERSION,
            g_messages = serialize_messages logical (effective res) attempt disable_thinking,
            g_sampler = sampler, g_seed = seed, g_stream = stream,
            extra_body_items = freeze_mapping (merged_extra (effective res) sampler disable_thinking extra_body)\<rparr>)))"

definition to_openai_kwargs :: "generation_request \<Rightarrow> (ptext \<times> pv) list" where
  "to_openai_kwargs g =
     (let req = [(lit ''model'', PStr (g_model g)),
                 (lit ''messages'', PList (map wire_to_openai_dict (g_messages g))),
                 (lit ''seed'', PInt (g_seed g)), (lit ''stream'', PBool (g_stream g))];
          req1 = (case g_sampler g of None \<Rightarrow> req | Some p \<Rightarrow> dupdate req (standard_payload p))
      in if extra_body_items g \<noteq> Tuple []
         then dset (lit ''extra_body'') (thaw_value (extra_body_items g)) req1
         else req1)"

end
