(* ===== verification/GenerationLaws.thy ===== *)
theory GenerationLaws
  imports GenerationProfiles "HOL-Library.Multiset"
begin

text \<open>
  What the adapters guarantee: where system messages, the retry correction and the prefill stand on the
  wire, and which extra request bodies survive the freezing of a request.
\<close>

lemma no_think_rev_roles: "map w_role (no_think_rev ms) = map w_role ms"
  by (induction ms) auto

lemma no_think_rev_filter: "r \<noteq> User \<Longrightarrow> filter (\<lambda>m. w_role m = r) (no_think_rev ms) = filter (\<lambda>m. w_role m = r) ms"
  by (induction ms) auto

lemma append_no_think_roles: "map w_role (append_no_think ms) = map w_role ms"
  by (simp add: append_no_think_def rev_map [symmetric] no_think_rev_roles)

lemma append_no_think_filter:
  "r \<noteq> User \<Longrightarrow> filter (\<lambda>m. w_role m = r) (append_no_think ms) = filter (\<lambda>m. w_role m = r) ms"
  by (simp add: append_no_think_def rev_filter [symmetric] no_think_rev_filter)

definition system_first :: "prompt_role list \<Rightarrow> bool" where
  "system_first rs \<longleftrightarrow> (\<forall>i<length rs. rs ! i = System \<longrightarrow> i = 0)"

lemma system_first_tl: "System \<notin> set rs \<Longrightarrow> system_first (r # rs)"
  by (auto simp: system_first_def nth_Cons split: nat.splits) (metis nth_mem)

lemma system_first_none: "System \<notin> set rs \<Longrightarrow> system_first rs"
  by (auto simp: system_first_def) (metis nth_mem)

lemma system_first_append: "system_first rs \<Longrightarrow> rs \<noteq> [] \<or> System \<notin> set us \<Longrightarrow> System \<notin> set us \<Longrightarrow> system_first (rs @ us)"
  unfolding system_first_def by (auto simp: nth_append) (metis nth_mem add_diff_inverse_nat nat_add_left_cancel_less)

lemma qwen_body_system_first: "system_first (map w_role (serialize_qwen_body ms))"
proof -
  let ?rest = "map w_role (map (\<lambda>m. if w_role m = System then m\<lparr>w_role := User\<rparr> else m)
    (dropWhile (\<lambda>m. w_role m = System) ms))"
  have "System \<notin> set ?rest" by (auto split: if_splits)
  then show ?thesis
    using system_first_tl [of ?rest System] system_first_none [of ?rest]
    by (simp add: serialize_qwen_body_def Let_def)
qed

lemma qwen_body_assistant:
  "filter (\<lambda>m. w_role m = Assistant) (serialize_qwen_body ms) = filter (\<lambda>m. w_role m = Assistant) ms"
proof -
  have "filter (\<lambda>m. w_role m = Assistant) (takeWhile (\<lambda>m. w_role m = System) ms) = []"
    by (auto simp: filter_empty_conv dest: set_takeWhileD)
  moreover have "filter (\<lambda>m. w_role m = Assistant) ms
      = filter (\<lambda>m. w_role m = Assistant) (takeWhile (\<lambda>m. w_role m = System) ms)
        @ filter (\<lambda>m. w_role m = Assistant) (dropWhile (\<lambda>m. w_role m = System) ms)"
    by (simp flip: filter_append)
  moreover have "filter (\<lambda>m. w_role m = Assistant) (map (\<lambda>m. if w_role m = System then m\<lparr>w_role := User\<rparr> else m) xs)
      = filter (\<lambda>m. w_role m = Assistant) xs" for xs
    by (induction xs) auto
  ultimately show ?thesis by (simp add: serialize_qwen_body_def Let_def)
qed

lemma serialize_body:
  "serialize_messages ms eff a d =
     (let prefill = ms \<noteq> [] \<and> w_role (last ms) = Assistant;
          body = (if prefill then butlast ms else ms);
          b1 = (if eff = Qwen_llama_server then serialize_qwen_body body else body)
            @ (if a > 1 then [retry_message (if eff = Qwen_llama_server then User else System)] else [])
      in (if eff = Qwen_llama_server \<and> d then append_no_think b1 else b1) @ (if prefill then [last ms] else []))"
  by (simp add: serialize_messages_def Let_def)

text \<open>
  On the wire to a Qwen server a system message can only be the first message, on every
  attempt; for both adapters the assistant turns are the logical ones, unaltered and in order; and a final
  assistant message stays last.
\<close>

theorem wire_messages_keep_turns:
  "(eff = Qwen_llama_server \<longrightarrow> system_first (map w_role (serialize_messages ms eff a d)))
    \<and> filter (\<lambda>m. w_role m = Assistant) (serialize_messages ms eff a d) = filter (\<lambda>m. w_role m = Assistant) ms
    \<and> (ms \<noteq> [] \<and> w_role (last ms) = Assistant \<longrightarrow> last (serialize_messages ms eff a d) = last ms)
    \<and> (eff = Generic_openai_compatible \<and> a \<le> 1 \<longrightarrow> serialize_messages ms eff a d = ms)"
proof -
  let ?pre = "ms \<noteq> [] \<and> w_role (last ms) = Assistant"
  define body where "body = (if ?pre then butlast ms else ms)"
  define tail where "tail = (if ?pre then [last ms] else [])"
  define b1 where "b1 = (if eff = Qwen_llama_server then serialize_qwen_body body else body)
    @ (if a > 1 then [retry_message (if eff = Qwen_llama_server then User else System)] else [])"
  have s: "serialize_messages ms eff a d = (if eff = Qwen_llama_server \<and> d then append_no_think b1 else b1) @ tail"
    by (simp add: serialize_body body_def tail_def b1_def Let_def)
  have ms: "ms = body @ tail" by (auto simp: body_def tail_def)
  have "filter (\<lambda>m. w_role m = Assistant) b1 = filter (\<lambda>m. w_role m = Assistant) body"
    by (simp add: b1_def qwen_body_assistant retry_message_def)
  then have 2: "filter (\<lambda>m. w_role m = Assistant) (serialize_messages ms eff a d) = filter (\<lambda>m. w_role m = Assistant) ms"
    unfolding s by (simp add: append_no_think_filter) (simp add: ms)
  have 1: "system_first (map w_role (serialize_messages ms eff a d))" if q: "eff = Qwen_llama_server"
  proof -
    have "map w_role b1 = map w_role (serialize_qwen_body body) @ (if a > 1 then [User] else [])"
      by (simp add: b1_def q retry_message_def)
    then have "system_first (map w_role b1)"
      using system_first_append [OF qwen_body_system_first [of body], of "if a > 1 then [User] else []"] by simp
    moreover have "System \<notin> set (map w_role tail)" by (auto simp: tail_def)
    ultimately have "system_first (map w_role b1 @ map w_role tail)" by (intro system_first_append) auto
    then show ?thesis unfolding s by (simp add: append_no_think_roles)
  qed
  have 3: "last (serialize_messages ms eff a d) = last ms" if ?pre
    unfolding s using that by (simp add: tail_def)
  have 4: "serialize_messages ms eff a d = ms" if "eff = Generic_openai_compatible \<and> a \<le> 1"
    unfolding s using that ms by (simp add: b1_def)
  show ?thesis using 1 2 3 4 by blast
qed

theorem wire_messages_keep_turns_witness:
  "last (serialize_messages [\<lparr>w_role = User, w_content = lit ''hi'', w_section_ids = []\<rparr>,
       \<lparr>w_role = Assistant, w_content = lit ''yo'', w_section_ids = []\<rparr>] Qwen_llama_server 2 True)
     = \<lparr>w_role = Assistant, w_content = lit ''yo'', w_section_ids = []\<rparr>"
  using wire_messages_keep_turns [of Qwen_llama_server
      "[\<lparr>w_role = User, w_content = lit ''hi'', w_section_ids = []\<rparr>,
        \<lparr>w_role = Assistant, w_content = lit ''yo'', w_section_ids = []\<rparr>]" 2 True]
  by simp

section \<open>The correction\<close>

lemma no_think_rev_hd: "w_role m = User \<Longrightarrow> no_think_rev (m # ms) = m\<lparr>w_content := no_think_content (w_content m)\<rparr> # ms"
  by simp

lemma append_no_think_last:
  "w_role m = User \<Longrightarrow> append_no_think (ms @ [m]) = ms @ [m\<lparr>w_content := no_think_content (w_content m)\<rparr>]"
  by (simp add: append_no_think_def)

text \<open>
  On a later attempt the correction is sent exactly once, after every other message and
  directly before the prefill: with the role of the user to Qwen servers, of the system to others.
\<close>

theorem retry_correction_precedes_prefill:
  assumes "1 < a"
  shows "\<exists>front correction. serialize_messages ms eff a d
      = front @ [correction] @ (if ms \<noteq> [] \<and> w_role (last ms) = Assistant then [last ms] else [])
    \<and> w_role correction = (if eff = Qwen_llama_server then User else System)
    \<and> w_content correction = (if eff = Qwen_llama_server \<and> d then RETRY_CORRECTION @ [10, 10] @ lit ''/no_think''
        else RETRY_CORRECTION)"
proof -
  let ?pre = "ms \<noteq> [] \<and> w_role (last ms) = Assistant"
  let ?role = "if eff = Qwen_llama_server then User else System"
  define front where "front = (let body = (if ?pre then butlast ms else ms) in
    if eff = Qwen_llama_server then serialize_qwen_body body else body)"
  have nt: "no_think_content RETRY_CORRECTION = RETRY_CORRECTION @ [10, 10] @ lit ''/no_think''"
    by code_simp
  have "serialize_messages ms eff a d
      = (if eff = Qwen_llama_server \<and> d then append_no_think (front @ [retry_message ?role]) else front @ [retry_message ?role])
        @ (if ?pre then [last ms] else [])"
    using assms by (simp add: serialize_body Let_def front_def)
  moreover have "append_no_think (front @ [retry_message User])
      = front @ [(retry_message User)\<lparr>w_content := RETRY_CORRECTION @ [10, 10] @ lit ''/no_think''\<rparr>]"
    using append_no_think_last [of "retry_message User" front] nt by (simp add: retry_message_def)
  ultimately show ?thesis
    by (cases "eff = Qwen_llama_server"; cases d) (auto simp: retry_message_def intro!: exI [of _ front])
qed

theorem retry_correction_precedes_prefill_witness:
  "\<exists>front correction. serialize_messages [] Generic_openai_compatible 2 False = front @ [correction]
     \<and> w_role correction = System \<and> w_content correction = RETRY_CORRECTION"
  using retry_correction_precedes_prefill [of 2 "[]" Generic_openai_compatible False] by simp

section \<open>Freezing\<close>

fun list_free :: "pv \<Rightarrow> bool" where
  "list_free (PList vs) \<longleftrightarrow> False"
| "list_free (PDict d) \<longleftrightarrow> dict_ok d \<and> (\<forall>(k, v)\<in>set d. list_free v)"
| "list_free v \<longleftrightarrow> True"

text \<open>The same value with the members of every dictionary in key order.\<close>

fun key_ordered :: "pv \<Rightarrow> pv" where
  "key_ordered (PDict d) = PDict (sort_key fst (map (\<lambda>(k, v). (k, key_ordered v)) d))"
| "key_ordered v = v"

lemma fold_dset_fresh:
  "distinct (map fst (acc @ d)) \<Longrightarrow> fold (\<lambda>(k, v) acc. dset k v acc) d acc = acc @ d"
proof (induction d arbitrary: acc)
  case (Cons x d)
  obtain k v where x: "x = (k, v)" by (cases x)
  have k: "k \<notin> fst ` set acc" using Cons.prems x by auto
  have "AList.update k v acc = acc @ [(k, v)]" using k by (induction acc) auto
  then show ?case using Cons.IH [of "acc @ [(k, v)]"] Cons.prems x by (simp add: dset_def)
qed simp

lemma sort_key_map_snd: "sort_key fst (map (\<lambda>(k, v). (k, f v)) d) = map (\<lambda>(k, v). (k, f v)) (sort_key fst d)"
proof (induction d)
  case (Cons x d)
  have "insort_key fst (k, f v) (map (\<lambda>(k, v). (k, f v)) xs) = map (\<lambda>(k, v). (k, f v)) (insort_key fst (k, v) xs)"
    for k v xs
    by (induction xs) auto
  then show ?case using Cons by (cases x) simp
qed simp

lemma thaw_items:
  "thaw_value (Tuple (map (\<lambda>(k, f). Tuple [Text k, f]) xs))
     = PDict (fold (\<lambda>(k, v) acc. dset k v acc) (map (\<lambda>(k, f). (k, thaw_value f)) xs) [])"
proof -
  have "list_all is_item (map (\<lambda>(k, f). Tuple [Text k, f]) xs)" by (auto simp: list_all_iff)
  moreover have "map (\<lambda>f. case f of Tuple [Text k, g] \<Rightarrow> (k, thaw_value g) | _ \<Rightarrow> ([], PNone))
      (map (\<lambda>(k, f). Tuple [Text k, f]) xs) = map (\<lambda>(k, f). (k, thaw_value f)) xs"
    by auto
  ultimately show ?thesis by (simp only: thaw_value.simps if_True)
qed

lemma thaw_freeze: "list_free v \<Longrightarrow> thaw_value (freeze_value v) = key_ordered v"
proof (induction v rule: freeze_value.induct)
  case (1 d)
  let ?fs = "sort_key fst (map (\<lambda>(k, v). (k, freeze_value v)) d)"
  let ?ts = "map (\<lambda>(k, f). (k, thaw_value f)) ?fs"
  have IH: "thaw_value (freeze_value v) = key_ordered v" if "(k, v) \<in> set d" for k v
    using "1.IH" [OF that refl] "1.prems" that by auto
  have ts: "?ts = sort_key fst (map (\<lambda>(k, v). (k, key_ordered v)) d)"
    using IH by (auto simp: sort_key_map_snd)
  have "mset (map fst ?ts) = mset (map fst d)"
  proof -
    have "mset (map fst ?ts) = image_mset fst (mset (map (\<lambda>(k, v). (k, key_ordered v)) d))"
      unfolding ts by simp
    also have "\<dots> = mset (map fst d)" by (simp add: case_prod_unfold multiset.map_comp comp_def)
    finally show ?thesis .
  qed
  moreover have "distinct (map fst d)" using "1.prems" by (simp add: dict_ok_def)
  ultimately have "distinct (map fst ?ts)" using mset_eq_imp_distinct_iff by blast
  then have "fold (\<lambda>(k, v) acc. dset k v acc) ?ts [] = ?ts"
    using fold_dset_fresh [of "[]" ?ts] by (simp only: append_Nil)
  then have "thaw_value (freeze_value (PDict d)) = PDict ?ts"
    by (simp only: freeze_value.simps thaw_items)
  then show ?case unfolding ts by simp
qed auto

text \<open>A list without elements is frozen to the same tuple as a dictionary without members.\<close>

lemma empty_list_thaws_to_mapping: "thaw_value (freeze_value (PList [])) = PDict []"
  by simp

text \<open>
  The extra request body survives the freezing of a request: for a Qwen server, whenever the
  merged body holds no lists, the keyword arguments carry exactly that body (with keys in order); for any
  other server no extra body is sent.
\<close>

theorem extra_body_round_trip:
  assumes "build_generation_request cf rp rpr model messages s seed attempt no_think extra strm = Inr g"
  shows "(g_effective_adapter g = Qwen_llama_server
      \<and> list_free (PDict (merged_extra Qwen_llama_server (g_sampler g) no_think extra))
      \<and> merged_extra Qwen_llama_server (g_sampler g) no_think extra \<noteq> []
      \<longrightarrow> dget (to_openai_kwargs g) (lit ''extra_body'')
          = Some (key_ordered (PDict (merged_extra Qwen_llama_server (g_sampler g) no_think extra))))
    \<and> (g_effective_adapter g = Generic_openai_compatible \<longrightarrow> dget (to_openai_kwargs g) (lit ''extra_body'') = None)"
proof -
  from assms have items: "extra_body_items g
      = freeze_value (PDict (merged_extra (g_effective_adapter g) (g_sampler g) no_think extra))"
    by (auto simp: build_generation_request_def bind_res_Inr_iff Let_def freeze_mapping_def split: if_splits)
  have none: "freeze_value (PDict m) = Tuple [] \<longleftrightarrow> m = []" for m
    by (auto simp: sort_key_map_snd simp flip: length_0_conv)
  have "dget (to_openai_kwargs g) (lit ''extra_body'') = None"
    if "g_effective_adapter g = Generic_openai_compatible"
    using that items
    by (simp add: merged_extra_def to_openai_kwargs_def Let_def dupdate_def standard_payload_def
        split: option.splits)
  moreover have "dget (to_openai_kwargs g) (lit ''extra_body'')
      = Some (thaw_value (freeze_value (PDict (merged_extra Qwen_llama_server (g_sampler g) no_think extra))))"
    if "g_effective_adapter g = Qwen_llama_server"
      "merged_extra Qwen_llama_server (g_sampler g) no_think extra \<noteq> []"
    using that items none
    by (simp add: to_openai_kwargs_def Let_def del: freeze_value.simps)
  ultimately show ?thesis using thaw_freeze by (metis adapter.distinct(1))
qed

theorem extra_body_round_trip_witness:
  "\<exists>g. build_generation_request (\<lambda>t. t) (\<lambda>v. []) (\<lambda>v. []) (lit ''qwen'') [] None 7 1 True [] True = Inr g
     \<and> dget (to_openai_kwargs g) (lit ''extra_body'')
       = Some (PDict [(lit ''chat_template_kwargs'', PDict [(lit ''enable_thinking'', PBool False)])])"
proof -
  obtain g where g: "build_generation_request (\<lambda>t. t) (\<lambda>v. []) (\<lambda>v. []) (lit ''qwen'') [] None 7 1 True [] True = Inr g"
    and e: "g_effective_adapter g = Qwen_llama_server" "g_sampler g = None"
    by (simp add: build_generation_request_def resolve_generation_profile_def starts_with_def Let_def
        sampler_for_attempt_def)
  have m: "merged_extra Qwen_llama_server None True []
      = [(lit ''chat_template_kwargs'', PDict [(lit ''enable_thinking'', PBool False)])]"
    by (simp add: merged_extra_def deep_copy_mapping_def vget_or_def dset_def)
  from extra_body_round_trip [OF g] e g show ?thesis by (simp add: m)
qed

end
