(* ===== verification/RefusalActivity.thy ===== *)
theory RefusalActivity
  imports PyText PyValue
begin

text \<open>
  \<open>web-ui/server/app/domain/refusal_activity.py\<close>: the validated activity row and the
  thread-keyed ring that keeps the most recent rows of every thread. Each locked section of the store is
  one function.
\<close>

section \<open>Rows\<close>

record activity_record =
  ar_action :: string
  ar_attempt :: int
  ar_reason_code :: string
  ar_prefix_characters :: int
  ar_prefix_estimated_tokens :: int
  retry_count :: int
  release_ms :: "rat option"
  ar_decision_ms :: "rat option"
  terminal_outcome :: string
  timestamp :: ptext

definition ACTIONS :: "string list" where
  "ACTIONS = [''send'', ''regenerate'', ''swipe'', ''continue'', ''call_offer'', ''call_turn'', ''preview'']"

definition REASON_CODES :: "string list" where
  "REASON_CODES = [''generic_identity'', ''policy_or_safety'', ''apology'', ''redirect'', ''warning'',
     ''safe_prefix'', ''upstream_complete'']"

definition OUTCOMES :: "string list" where
  "OUTCOMES = [''retry'', ''accepted'', ''exhausted'', ''empty'', ''failed'', ''cancelled'']"

definition negative :: "rat option \<Rightarrow> bool" where
  "negative v \<longleftrightarrow> (case v of None \<Rightarrow> False | Some r \<Rightarrow> r < 0)"

definition record_post_init :: "activity_record \<Rightarrow> py_error + activity_record" where
  "record_post_init r =
     (if ar_action r \<notin> set ACTIONS then Inl (Value_error ''unsupported refusal activity action'')
      else if ar_reason_code r \<notin> set REASON_CODES then Inl (Value_error ''unsupported refusal reason code'')
      else if terminal_outcome r \<notin> set OUTCOMES then Inl (Value_error ''unsupported refusal terminal outcome'')
      else if \<not> (1 \<le> ar_attempt r \<and> ar_attempt r \<le> 3) then Inl (Value_error ''attempt must be between one and three'')
      else if \<not> (0 \<le> retry_count r \<and> retry_count r \<le> 2) then Inl (Value_error ''retry_count must be between zero and two'')
      else if ar_prefix_characters r < 0 \<or> ar_prefix_estimated_tokens r < 0
      then Inl (Value_error ''prefix counts must be non-negative'')
      else if negative (release_ms r) then Inl (Value_error ''release_ms must be a non-negative number or null'')
      else if negative (ar_decision_ms r) then Inl (Value_error ''decision_ms must be a non-negative number or null'')
      else if \<not> ends_with [90] (timestamp r) then Inl (Value_error ''timestamp must be a UTC ISO-8601 string'')
      else Inr r)"

definition ms_pv :: "rat option \<Rightarrow> pv" where
  "ms_pv v = (case v of None \<Rightarrow> PNone | Some r \<Rightarrow> PFloat (Fin r))"

definition record_to_dict :: "activity_record \<Rightarrow> (ptext \<times> pv) list" where
  "record_to_dict r = [
     (lit ''action'', pstr (ar_action r)), (lit ''attempt'', PInt (ar_attempt r)),
     (lit ''reason_code'', pstr (ar_reason_code r)),
     (lit ''prefix_characters'', PInt (ar_prefix_characters r)),
     (lit ''prefix_estimated_tokens'', PInt (ar_prefix_estimated_tokens r)),
     (lit ''retry_count'', PInt (retry_count r)), (lit ''release_ms'', ms_pv (release_ms r)),
     (lit ''decision_ms'', ms_pv (ar_decision_ms r)), (lit ''terminal_outcome'', pstr (terminal_outcome r)),
     (lit ''timestamp'', PStr (timestamp r))]"

section \<open>The store\<close>

record activity_store =
  max_records_per_thread :: nat
  records :: "(ptext, activity_record list) dict"

definition new_store :: "int \<Rightarrow> py_error + activity_store" where
  "new_store n =
     (if n < 1 then Inl (Value_error ''max_records_per_thread must be positive'')
      else Inr \<lparr>max_records_per_thread = nat n, records = []\<rparr>)"

text \<open>\<open>deque(maxlen=n).append\<close>: the oldest element leaves a full deque.\<close>

definition ring_append :: "nat \<Rightarrow> 'a \<Rightarrow> 'a list \<Rightarrow> 'a list" where
  "ring_append n x xs = drop (length xs + 1 - n) (xs @ [x])"

definition append_record :: "ptext \<Rightarrow> activity_record \<Rightarrow> activity_store \<Rightarrow> py_error + activity_store" where
  "append_record tid r s =
     (if strip tid = [] then Inl (Value_error ''thread_id is required'')
      else
        let old = (case dget (records s) tid of None \<Rightarrow> [] | Some rs \<Rightarrow> rs)
        in Inr (s\<lparr>records := dset tid (ring_append (max_records_per_thread s) r old) (records s)\<rparr>))"

definition list_recent :: "ptext \<Rightarrow> activity_store \<Rightarrow> activity_record list" where
  "list_recent tid s = (case dget (records s) tid of None \<Rightarrow> [] | Some rs \<Rightarrow> rs)"

definition serialize_recent :: "ptext \<Rightarrow> activity_store \<Rightarrow> pv list" where
  "serialize_recent tid s = map (\<lambda>r. PDict (record_to_dict r)) (list_recent tid s)"

section \<open>Laws\<close>

text \<open>The last \<open>n\<close> elements of a list.\<close>

definition last_n :: "nat \<Rightarrow> 'a list \<Rightarrow> 'a list" where
  "last_n n xs = drop (length xs - n) xs"

lemma length_last_n: "length (last_n n xs) = min n (length xs)"
  by (simp add: last_n_def min_def)

lemma last_n_snoc: "0 < n \<Longrightarrow> last_n n (last_n (n - 1) xs @ [x]) = last_n n (xs @ [x])"
  by (cases n) (auto simp: last_n_def)

lemma ring_append_last_n:
  assumes "0 < n"
  shows "ring_append n x (last_n n xs) = last_n n (xs @ [x])"
proof (cases "length xs < n")
  case True
  then show ?thesis using assms by (auto simp: ring_append_def last_n_def)
next
  case False
  then have "length (last_n n xs) + 1 - n = 1" by (simp add: length_last_n)
  moreover have "drop 1 (last_n n xs @ [x]) = drop (length xs - n + 1) xs @ [x]"
    using False assms by (cases n) (auto simp: last_n_def drop_Suc_Cons drop_Suc tl_drop)
  ultimately show ?thesis using False by (simp add: ring_append_def last_n_def Suc_diff_le)
qed

fun append_all :: "(ptext \<times> activity_record) list \<Rightarrow> activity_store \<Rightarrow> py_error + activity_store" where
  "append_all [] s = Inr s"
| "append_all ((tid, r) # xs) s = bind_res (append_record tid r s) (append_all xs)"

definition rows_for :: "ptext \<Rightarrow> (ptext \<times> activity_record) list \<Rightarrow> activity_record list" where
  "rows_for tid xs = map snd (filter (\<lambda>(t, r). t = tid) xs)"

lemma append_record_recent:
  "append_record tid r s = Inr s' \<Longrightarrow> max_records_per_thread s' = max_records_per_thread s
    \<and> list_recent t s' = (if t = tid then ring_append (max_records_per_thread s) r (list_recent t s) else list_recent t s)"
  by (auto simp: append_record_def list_recent_def Let_def split: if_splits)

lemma append_all_recent:
  assumes "append_all xs s = Inr s'" "0 < max_records_per_thread s" "list_recent t s = last_n (max_records_per_thread s) h"
  shows "list_recent t s' = last_n (max_records_per_thread s) (h @ rows_for t xs)"
  using assms
proof (induction xs arbitrary: s h)
  case Nil
  then show ?case by (simp add: rows_for_def)
next
  case (Cons x xs)
  obtain tid r where x: "x = (tid, r)" by (cases x)
  from Cons.prems(1) x obtain s1 where a: "append_record tid r s = Inr s1" and rest: "append_all xs s1 = Inr s'"
    by (auto simp: bind_res_Inr_iff)
  note f = append_record_recent [OF a]
  let ?h = "if t = tid then h @ [r] else h"
  have "list_recent t s1 = last_n (max_records_per_thread s1) ?h"
    using f [of t] Cons.prems(2,3) by (cases "t = tid") (simp_all add: ring_append_last_n)
  from Cons.IH [OF rest _ this] f [of t] Cons.prems(2)
  have "list_recent t s' = last_n (max_records_per_thread s) (?h @ rows_for t xs)" by simp
  moreover have "?h @ rows_for t xs = h @ rows_for t (x # xs)" by (simp add: x rows_for_def)
  ultimately show ?case by simp
qed

text \<open>
  The store is a bounded ring per thread: after any appends to a fresh store, a thread lists
  exactly its own most recent rows, oldest first, and never more than the configured number.
\<close>

theorem store_keeps_most_recent:
  assumes "new_store n = Inr s" and "append_all xs s = Inr s'"
  shows "list_recent t s' = last_n (nat n) (rows_for t xs) \<and> length (list_recent t s') \<le> nat n"
proof -
  have s: "0 < max_records_per_thread s" "max_records_per_thread s = nat n" "list_recent t s = last_n (max_records_per_thread s) []"
    using assms(1) by (auto simp: new_store_def list_recent_def last_n_def split: if_splits)
  from append_all_recent [OF assms(2) s(1,3)] s(2) show ?thesis by (simp add: length_last_n)
qed

definition sample_row :: "int \<Rightarrow> activity_record" where
  "sample_row a = \<lparr>ar_action = ''send'', ar_attempt = a, ar_reason_code = ''apology'', ar_prefix_characters = 40,
     ar_prefix_estimated_tokens = 10, retry_count = a - 1, release_ms = None, ar_decision_ms = None,
     terminal_outcome = ''retry'', timestamp = lit ''2026-01-01T00:00:00.000Z''\<rparr>"

theorem store_keeps_most_recent_witness:
  "\<exists>s s'. new_store 1 = Inr s \<and> append_all [(lit ''t'', sample_row 1), (lit ''t'', sample_row 2)] s = Inr s'
     \<and> list_recent (lit ''t'') s' = [sample_row 2]"
proof -
  obtain s where s: "new_store 1 = Inr s" by (simp add: new_store_def)
  obtain s' where s': "append_all [(lit ''t'', sample_row 1), (lit ''t'', sample_row 2)] s = Inr s'"
    by (simp add: append_record_def strip_Nil_iff py_space_def)
  from store_keeps_most_recent [OF s s', of "lit ''t''"] s s' show ?thesis
    by (auto simp: rows_for_def last_n_def)
qed

end
