(* ===== verification/SpeechTerminal.thy ===== *)
theory SpeechTerminal
  imports PyValue
begin

text \<open>
  \<open>web-ui/server/app/domain/speech_terminal.py\<close>: the classification of a speech response into one
  terminal result, for a segment (\<open>require_final\<close> false) or for the final marker of a turn.
\<close>

datatype terminal_status = Normal_end | Cancelled_end | Error_end

record speech_terminal =
  status :: terminal_status
  playout_completed :: bool
  response :: "(ptext \<times> pv) list option"
  error_code :: "string option"
  error_message :: "string option"

definition speech_error_terminal :: "string \<Rightarrow> (ptext \<times> pv) list option \<Rightarrow> speech_terminal" where
  "speech_error_terminal code resp = \<lparr>status = Error_end, playout_completed = False, response = resp,
     error_code = Some code, error_message = Some ''Speech playback failed''\<rparr>"

definition ended :: "terminal_status \<Rightarrow> bool \<Rightarrow> (ptext \<times> pv) list \<Rightarrow> speech_terminal" where
  "ended st played resp = \<lparr>status = st, playout_completed = played, response = Some resp,
     error_code = None, error_message = None\<rparr>"

text \<open>Membership in a set of strings hashes the value; a list or a dictionary raises.\<close>

definition unhashable :: "pv \<Rightarrow> bool" where
  "unhashable v \<longleftrightarrow> is_list v \<or> is_mapping v"

definition speech_terminal_from_response :: "(ptext \<times> pv) list option \<Rightarrow> bool \<Rightarrow> py_error + speech_terminal" where
  "speech_terminal_from_response resp require_final =
     (let failed = Inr (speech_error_terminal ''call_tts_failed'' resp) in
      case resp of
        None \<Rightarrow> failed
      | Some r \<Rightarrow>
          (case vget r ''event'' of
             PDict event \<Rightarrow>
               let event_type = vget event ''type''; event_status = vget event ''status'' in
               if event_status = pstr ''cancelled'' \<or> event_type = pstr ''cancelled''
               then Inr (ended Cancelled_end False r)
               else if unhashable event_type then Inl (Type_error ''unhashable type'')
               else if event_type = pstr ''failed'' \<or> event_type = pstr ''error'' \<or> event_status = pstr ''error''
               then failed
               else if \<not> require_final \<and> event_type = PNone \<and> unhashable event_status
               then Inl (Type_error ''unhashable type'')
               else if \<not> require_final \<and> event_type = PNone
                  \<and> (event_status = pstr ''queued'' \<or> event_status = pstr ''normal'')
               then Inr (ended Normal_end False r)
               else if event_type \<noteq> pstr ''ai_done'' then failed
               else (case vget event ''tts_playback_final'' of
                       PDict playout \<Rightarrow>
                         if vget playout ''playout_wait_completed'' \<noteq> PBool True then failed
                         else Inr (ended Normal_end True r)
                     | _ \<Rightarrow> failed)
           | _ \<Rightarrow> failed))"

lemma ended_simps [simp]:
  "status (ended st p r) = st" "playout_completed (ended st p r) = p" "response (ended st p r) = Some r"
  "error_code (ended st p r) = None"
  "status (speech_error_terminal c q) = Error_end" "playout_completed (speech_error_terminal c q) = False"
  "response (speech_error_terminal c q) = q" "error_code (speech_error_terminal c q) = Some c"
  by (simp_all add: ended_def speech_error_terminal_def)

text \<open>
  Playout is reported as completed only on proof of it: the result is normal, and the response
  holds an \<open>ai_done\<close> event, neither cancelled nor failed, whose final playback record says that the
  wait for playout completed. When the final marker is required, a normal result is such a proof.
\<close>

theorem completed_playout_is_proved:
  assumes "speech_terminal_from_response resp rf = Inr t"
    and "playout_completed t \<or> (rf \<and> status t = Normal_end)"
  shows "status t = Normal_end
    \<and> (\<exists>r event playout. resp = Some r \<and> vget r ''event'' = PDict event \<and> vget event ''type'' = pstr ''ai_done''
        \<and> vget event ''status'' \<notin> {pstr ''cancelled'', pstr ''error''}
        \<and> vget event ''tts_playback_final'' = PDict playout
        \<and> vget playout ''playout_wait_completed'' = PBool True)"
proof (cases resp)
  case None
  then show ?thesis using assms by (auto simp: speech_terminal_from_response_def)
next
  case (Some r)
  show ?thesis
  proof (cases "vget r ''event''")
    case (PDict event)
    note ev = this
    show ?thesis
    proof (cases "vget event ''tts_playback_final''")
      case (PDict playout)
      with assms Some ev show ?thesis
        unfolding speech_terminal_from_response_def Let_def
        by (clarsimp simp del: lit_Cons lit_Nil split: if_split_asm)
    qed (use assms Some ev in \<open>clarsimp simp: speech_terminal_from_response_def Let_def
           simp del: lit_Cons lit_Nil split: if_split_asm\<close>)+
  qed (use assms Some in \<open>auto simp: speech_terminal_from_response_def\<close>)
qed

theorem completed_playout_is_proved_witness:
  "\<exists>r t. speech_terminal_from_response (Some r) True = Inr t \<and> status t = Normal_end
     \<and> vget r ''event'' = PDict [(lit ''type'', pstr ''ai_done''),
         (lit ''tts_playback_final'', PDict [(lit ''playout_wait_completed'', PBool True)])]"
proof -
  let ?r = "[(lit ''event'', PDict [(lit ''type'', pstr ''ai_done''),
      (lit ''tts_playback_final'', PDict [(lit ''playout_wait_completed'', PBool True)])])]"
  have "speech_terminal_from_response (Some ?r) True = Inr (ended Normal_end True ?r)"
    by (simp add: speech_terminal_from_response_def vget_or_def unhashable_def)
  moreover from completed_playout_is_proved [OF this] have "status (ended Normal_end True ?r) = Normal_end" by simp
  ultimately show ?thesis by (intro exI [of _ ?r]) (simp add: vget_or_def)
qed

end
