(* ===== verification/LlmStream.thy ===== *)
theory LlmStream
  imports RefusalGuard RefusalActivity GenerationProfiles
begin

text \<open>
  \<open>web-ui/server/app/domain/llm_stream.py\<close>: up to three guarded attempts at one completion and the
  server-sent events made from them. The upstream client is a parameter: \<open>Custom_client\<close> is an object
  with \<open>stream_chat_completion_tokens\<close>, \<open>Openai_client\<close> the \<open>create\<close> call on the
  keyword arguments; both answer with timed chunks and how the stream ended. What an asynchronous generator
  does is the list of its items in order: a yielded token or a reported activity row.
\<close>

section \<open>Types\<close>

datatype llm_error =
    Refusal_exhausted
  | Empty_output
  | Upstream string
  | Python_error py_error
  | Adapter_failure generation_error

definition CHAT_COMPLETION_SEED_LIMIT :: int where
  "CHAT_COMPLETION_SEED_LIMIT = 2 ^ 31 - 1"

definition MAX_SEMANTIC_ATTEMPTS :: int where
  "MAX_SEMANTIC_ATTEMPTS = 3"

record chat_settings =
  base_url :: ptext
  chat_model :: ptext
  api_key :: "ptext option"
  disable_thinking :: bool
  prompt_generation :: "prompt_settings option"

record context_message =
  cm_role :: ptext
  cm_content :: ptext

record 'c upstream =
  up_chunks :: "(rat \<times> 'c) list"
  up_finish :: rat
  up_error :: "string option"

record raw_stream =
  rt_chunks :: "(rat \<times> ptext) list"
  rt_finish :: rat
  rt_error :: "llm_error option"

datatype client =
    Custom_client "context_message list \<Rightarrow> int \<Rightarrow> int \<Rightarrow> ptext upstream"
  | Openai_client "(ptext \<times> pv) list \<Rightarrow> pv upstream"

section \<open>Events\<close>

definition token_event :: "ptext \<Rightarrow> (ptext \<times> pv) list" where
  "token_event t = [(lit ''type'', pstr ''token''), (lit ''text'', PStr t)]"

definition done_event :: "pv \<Rightarrow> (ptext \<times> pv) list" where
  "done_event message = [(lit ''type'', pstr ''done''), (lit ''message'', message)]"

definition error_event :: "string \<Rightarrow> string \<Rightarrow> (ptext \<times> pv) list" where
  "error_event code message = [(lit ''type'', pstr ''error''), (lit ''code'', pstr code), (lit ''message'', pstr message)]"

definition refusal_activity_event :: "activity_record \<Rightarrow> (ptext \<times> pv) list" where
  "refusal_activity_event r = (lit ''type'', pstr ''refusal_activity'') # record_to_dict r"

definition encode_sse_event :: "(pyfloat \<Rightarrow> ptext) \<Rightarrow> (ptext \<times> pv) list \<Rightarrow> ptext" where
  "encode_sse_event fr event = lit ''data: '' @ json_dumps fr (PDict event) @ [10, 10]"

section \<open>Seeds and messages\<close>

text \<open>
  The loop that skips used seeds, with the number of seeds it may skip as fuel; one more than the number of
  used seeds is always enough.
\<close>

fun skip_used :: "nat \<Rightarrow> int list \<Rightarrow> int \<Rightarrow> int option" where
  "skip_used 0 used s = None"
| "skip_used (Suc n) used s =
     (if s \<in> set used then skip_used n used ((s + 1) mod (CHAT_COMPLETION_SEED_LIMIT + 1)) else Some s)"

definition distinct_seed :: "pv \<Rightarrow> int list \<Rightarrow> llm_error + int \<times> int list" where
  "distinct_seed drawn used =
     (case drawn of
        PInt s \<Rightarrow>
          if \<not> (0 \<le> s \<and> s \<le> CHAT_COMPLETION_SEED_LIMIT)
          then Inl (Python_error (Value_error ''chat completion seed is outside the supported range''))
          else (case skip_used (Suc (length used)) used s of
                  Some s' \<Rightarrow> Inr (s', used @ [s'])
                | None \<Rightarrow> Inl (Python_error (Runtime_error ''no seed left'')))
      | _ \<Rightarrow> Inl (Python_error (Type_error ''chat completion seed factory must return an integer'')))"

definition messages_for_attempt :: "context_message list \<Rightarrow> int \<Rightarrow> context_message list" where
  "messages_for_attempt messages attempt =
     (let has_prefill = (messages \<noteq> [] \<and> cm_role (last messages) = lit ''assistant'');
          prepared = (if has_prefill then butlast messages else messages);
          final_prefill = (if has_prefill then [last messages] else []);
          after = rev (takeWhile (\<lambda>m. cm_role m \<noteq> lit ''user'') (rev prepared));
          n = length prepared - length after;
          late_system = filter (\<lambda>m. cm_role m = lit ''system'') after;
          prepared1 =
            (if 0 < n \<and> late_system \<noteq> [] \<and> length late_system = length after
             then take (n - 1) prepared @ late_system @ [prepared ! (n - 1)]
             else prepared);
          prepared2 = (if attempt > 1 then prepared1 @ [\<lparr>cm_role = lit ''user'', cm_content = RETRY_CORRECTION\<rparr>]
                       else prepared1)
      in prepared2 @ final_prefill)"

definition should_disable_thinking :: "(ptext \<Rightarrow> ptext) \<Rightarrow> chat_settings \<Rightarrow> bool" where
  "should_disable_thinking lower s \<longleftrightarrow> disable_thinking s \<and> contains (lit ''qwen'') (lower (chat_model s))"

fun mark_last_user :: "context_message list \<Rightarrow> context_message list" where
  "mark_last_user [] = []"
| "mark_last_user (m # ms) =
     (if cm_role m = lit ''user''
      then (let c = rstrip (cm_content m) in
            (if \<not> contains (lit ''/no_think'') c
             then m\<lparr>cm_content := (if c \<noteq> [] then c @ [10, 10] @ lit ''/no_think'' else lit ''/no_think'')\<rparr>
             else m)) # ms
      else m # mark_last_user ms)"

definition prepare_messages :: "(ptext \<Rightarrow> ptext) \<Rightarrow> chat_settings \<Rightarrow> context_message list \<Rightarrow> context_message list" where
  "prepare_messages lower s messages =
     (if \<not> should_disable_thinking lower s then messages else rev (mark_last_user (rev messages)))"

definition chunk_delta_text :: "pv \<Rightarrow> ptext option" where
  "chunk_delta_text chunk =
     (let choices = field_of chunk ''choices'' in
      if \<not> truthy choices then None
      else let delta = field_of (case choices of PList (c # _) \<Rightarrow> c | _ \<Rightarrow> PNone) ''delta'' in
           if delta = PNone then None
           else (case field_of delta ''content'' of PStr t \<Rightarrow> Some t | _ \<Rightarrow> None))"

definition logical_of :: "context_message \<Rightarrow> logical_message" where
  "logical_of m = Raw [(lit ''role'', PStr (cm_role m)), (lit ''content'', PStr (cm_content m))]"

definition text_chunks :: "(rat \<times> ptext option) list \<Rightarrow> (rat \<times> ptext) list" where
  "text_chunks cs = concat (map (\<lambda>(now, c). case c of Some t \<Rightarrow> if t \<noteq> [] then [(now, t)] else [] | None \<Rightarrow> []) cs)"

definition stream_raw_text_tokens :: "(ptext \<Rightarrow> ptext) \<Rightarrow> (pv \<Rightarrow> ptext) \<Rightarrow> (pv \<Rightarrow> ptext) \<Rightarrow> chat_settings
    \<Rightarrow> context_message list \<Rightarrow> client \<Rightarrow> int \<Rightarrow> int \<Rightarrow> raw_stream" where
  "stream_raw_text_tokens cf rp rpr s messages cl seed attempt =
     (case cl of
        Custom_client call \<Rightarrow>
          let u = call messages seed attempt
          in \<lparr>rt_chunks = text_chunks (map (\<lambda>(now, t). (now, Some t)) (up_chunks u)), rt_finish = up_finish u,
              rt_error = map_option Upstream (up_error u)\<rparr>
      | Openai_client create \<Rightarrow>
          (case build_generation_request cf rp rpr (chat_model s) (map logical_of messages) (prompt_generation s)
                  seed attempt (disable_thinking s) [] True of
             Inl e \<Rightarrow> \<lparr>rt_chunks = [], rt_finish = 0, rt_error = Some (Adapter_failure e)\<rparr>
           | Inr g \<Rightarrow>
               let u = create (to_openai_kwargs g)
               in \<lparr>rt_chunks = text_chunks (map (\<lambda>(now, c). (now, chunk_delta_text c)) (up_chunks u)),
                   rt_finish = up_finish u, rt_error = map_option Upstream (up_error u)\<rparr>))"

section \<open>Attempts\<close>

datatype item = Emit ptext | Report activity_record

definition emits :: "item list \<Rightarrow> ptext list" where
  "emits xs = concat (map (\<lambda>i. case i of Emit t \<Rightarrow> [t] | Report r \<Rightarrow> []) xs)"

text \<open>The \<open>async for\<close> over the raw tokens: the released texts, the guard and the last decision.\<close>

fun guard_tokens :: "(ptext \<Rightarrow> ptext) \<Rightarrow> (nat \<Rightarrow> bool) \<Rightarrow> (rat \<times> ptext) list \<Rightarrow> refusal_guard
    \<Rightarrow> refusal_decision option \<Rightarrow> py_error + ptext list \<times> refusal_guard \<times> refusal_decision option \<times> bool" where
  "guard_tokens nf al [] g d = Inr ([], g, d, False)"
| "guard_tokens nf al ((now, t) # ts) g d =
     bind_res (feed_guard nf al now t g) (\<lambda>(dec, h).
       if refused dec then Inr ([], h, Some dec, True)
       else bind_res (guard_tokens nf al ts h (Some dec)) (\<lambda>(out, r). Inr (released_text dec @ out, r)))"

record attempt_result =
  at_texts :: "ptext list"
  at_guard :: refusal_guard
  at_decision :: "refusal_decision option"
  at_refused :: bool
  at_error :: "llm_error option"

text \<open>
  One attempt with a fresh guard. When the upstream raises, what was released before is still emitted and
  the exception leaves the generator.
\<close>

definition guarded_attempt :: "(ptext \<Rightarrow> ptext) \<Rightarrow> (nat \<Rightarrow> bool) \<Rightarrow> refusal_guard \<Rightarrow> raw_stream \<Rightarrow> attempt_result" where
  "guarded_attempt nf al g0 u =
     (case guard_tokens nf al (rt_chunks u) g0 None of
        Inl e \<Rightarrow> \<lparr>at_texts = [], at_guard = g0, at_decision = None, at_refused = False, at_error = Some (Python_error e)\<rparr>
      | Inr (out, g, d, r) \<Rightarrow>
          if r then \<lparr>at_texts = out, at_guard = g, at_decision = d, at_refused = True, at_error = None\<rparr>
          else (case rt_error u of
                  Some e \<Rightarrow> \<lparr>at_texts = out, at_guard = g, at_decision = d, at_refused = False, at_error = Some e\<rparr>
                | None \<Rightarrow>
                    let (fin, g') = finish_guard nf al (rt_finish u) g
                    in \<lparr>at_texts = out @ released_text fin, at_guard = g', at_decision = Some fin,
                        at_refused = refused fin, at_error = None\<rparr>))"

definition refusal_row :: "string \<Rightarrow> int \<Rightarrow> ptext \<Rightarrow> attempt_result \<Rightarrow> string \<Rightarrow> activity_record" where
  "refusal_row action attempt stamp a outcome = \<lparr>
     ar_action = action, ar_attempt = attempt,
     ar_reason_code = (case reason_code (at_guard a) of None \<Rightarrow> ''upstream_complete'' | Some c \<Rightarrow> c),
     ar_prefix_characters = int (length (prefix_text (at_guard a))),
     ar_prefix_estimated_tokens = int (estimated_tokens (prefix_text (at_guard a))),
     retry_count = attempt - 1,
     release_ms = (case at_decision a of Some d \<Rightarrow> if outcome = ''accepted'' then d_decision_ms d else None | None \<Rightarrow> None),
     ar_decision_ms = (case at_decision a of Some d \<Rightarrow> d_decision_ms d | None \<Rightarrow> decision_ms (at_guard a)),
     terminal_outcome = outcome, timestamp = stamp\<rparr>"

definition report_refusal_activity :: "bool \<Rightarrow> string \<Rightarrow> int \<Rightarrow> ptext \<Rightarrow> attempt_result \<Rightarrow> string \<Rightarrow> py_error + item list" where
  "report_refusal_activity has_sink action attempt stamp a outcome =
     (if \<not> has_sink then Inr []
      else bind_res (record_post_init (refusal_row action attempt stamp a outcome)) (\<lambda>r. Inr [Report r]))"

definition emitted_nonblank :: "ptext list \<Rightarrow> bool" where
  "emitted_nonblank ts \<longleftrightarrow> list_ex (\<lambda>t. strip t \<noteq> []) ts"

record stream_world =
  sw_client :: client
  sw_draws :: "int \<Rightarrow> pv"
  sw_clock :: "int \<Rightarrow> rat"
  sw_stamp :: "int \<Rightarrow> ptext"

record stream_run =
  run_items :: "item list"
  run_calls :: "(int \<times> int \<times> context_message list) list"
  run_end :: "llm_error option"

definition fresh_guard :: "rat \<Rightarrow> refusal_guard" where
  "fresh_guard now = (case new_guard now REFUSAL_PREFIX_MAX_CHARACTERS REFUSAL_PREFIX_MAX_ESTIMATED_TOKENS
       REFUSAL_SAFE_SENTENCE_MIN_VISIBLE_CHARACTERS of Inr g \<Rightarrow> g
     | Inl _ \<Rightarrow> \<lparr>max_characters = 0, max_estimated_tokens = 0, min_visible_characters = 0, chunks = [],
         prefix_text = [], guard_state = Finished, reason_code = None, started = 0, decision_ms = None\<rparr>)"

definition is_custom :: "client \<Rightarrow> bool" where
  "is_custom cl = (case cl of Custom_client _ \<Rightarrow> True | Openai_client _ \<Rightarrow> False)"

text \<open>The Unicode database and the rendering of values, as one record of parameters.\<close>

record text_env =
  env_nf :: "ptext \<Rightarrow> ptext"
  env_al :: "nat \<Rightarrow> bool"
  env_cf :: "ptext \<Rightarrow> ptext"
  env_rp :: "pv \<Rightarrow> ptext"
  env_rpr :: "pv \<Rightarrow> ptext"

definition sent_messages :: "stream_world \<Rightarrow> context_message list \<Rightarrow> int \<Rightarrow> context_message list" where
  "sent_messages w messages k =
     (if is_custom (sw_client w) then messages_for_attempt messages k else messages)"

definition attempt_of :: "text_env \<Rightarrow> stream_world \<Rightarrow> chat_settings \<Rightarrow> context_message list \<Rightarrow> int \<Rightarrow> int \<Rightarrow> attempt_result" where
  "attempt_of te w s messages k seed =
     guarded_attempt (env_nf te) (env_al te) (fresh_guard (sw_clock w k))
       (stream_raw_text_tokens (env_cf te) (env_rp te) (env_rpr te) s
          (sent_messages w messages k) (sw_client w) seed k)"

text \<open>What follows an attempt: another one, or the end of the generator, after the items given.\<close>

datatype attempt_end = Again "item list" | Over "item list" "llm_error option"

definition settle_attempt :: "bool \<Rightarrow> string \<Rightarrow> int \<Rightarrow> ptext \<Rightarrow> attempt_result \<Rightarrow> attempt_end" where
  "settle_attempt has_sink action k stamp a =
     (let report = report_refusal_activity has_sink action k stamp a in
      case at_error a of
        Some e \<Rightarrow> Over [] (Some e)
      | None \<Rightarrow>
          if at_refused a
          then (case report (if k < MAX_SEMANTIC_ATTEMPTS then ''retry'' else ''exhausted'') of
                  Inl e \<Rightarrow> Over [] (Some (Python_error e)) | Inr its \<Rightarrow> Again its)
          else if \<not> emitted_nonblank (at_texts a)
          then (case report ''empty'' of
                  Inl e \<Rightarrow> Over [] (Some (Python_error e)) | Inr its \<Rightarrow> Over its (Some Empty_output))
          else if k > 1
          then (case report ''accepted'' of
                  Inl e \<Rightarrow> Over [] (Some (Python_error e)) | Inr its \<Rightarrow> Over its None)
          else Over [] None)"

text \<open>The attempt loop from attempt \<open>k\<close> with \<open>n\<close> attempts left.\<close>

fun run_attempts :: "text_env \<Rightarrow> stream_world \<Rightarrow> chat_settings \<Rightarrow> context_message list \<Rightarrow> string \<Rightarrow> bool
    \<Rightarrow> nat \<Rightarrow> int \<Rightarrow> int list \<Rightarrow> stream_run" where
  "run_attempts te w s messages action has_sink 0 k used =
     \<lparr>run_items = [], run_calls = [], run_end = Some Refusal_exhausted\<rparr>"
| "run_attempts te w s messages action has_sink (Suc n) k used =
     (case distinct_seed (sw_draws w k) used of
        Inl e \<Rightarrow> \<lparr>run_items = [], run_calls = [], run_end = Some e\<rparr>
      | Inr (seed, used') \<Rightarrow>
          let a = attempt_of te w s messages k seed;
              call = (k, seed, sent_messages w messages k);
              items = map Emit (at_texts a)
          in case settle_attempt has_sink action k (sw_stamp w k) a of
               Over its e \<Rightarrow> \<lparr>run_items = items @ its, run_calls = [call], run_end = e\<rparr>
             | Again its \<Rightarrow>
                 let r = run_attempts te w s messages action has_sink n (k + 1) used'
                 in \<lparr>run_items = items @ its @ run_items r, run_calls = call # run_calls r, run_end = run_end r\<rparr>)"

definition stream_text_tokens :: "text_env \<Rightarrow> stream_world \<Rightarrow> chat_settings \<Rightarrow> context_message list \<Rightarrow> string \<Rightarrow> bool
    \<Rightarrow> stream_run" where
  "stream_text_tokens te w s messages action has_sink =
     run_attempts te w s messages action has_sink (nat MAX_SEMANTIC_ATTEMPTS) 1 []"

definition collect_chat_completion :: "text_env \<Rightarrow> stream_world \<Rightarrow> chat_settings \<Rightarrow> context_message list \<Rightarrow> string \<Rightarrow> bool
    \<Rightarrow> llm_error + ptext" where
  "collect_chat_completion te w s messages action has_sink =
     (let r = stream_text_tokens te w s messages action has_sink in
      case run_end r of Some e \<Rightarrow> Inl e | None \<Rightarrow> Inr (concat (emits (run_items r))))"

section \<open>The event stream\<close>

definition item_event :: "item \<Rightarrow> (ptext \<times> pv) list" where
  "item_event i = (case i of Emit t \<Rightarrow> token_event t | Report r \<Rightarrow> refusal_activity_event r)"

definition failure_event :: "llm_error \<Rightarrow> (ptext \<times> pv) list" where
  "failure_event e =
     (case e of
        Refusal_exhausted \<Rightarrow>
          error_event ''llm_refusal_exhausted'' ''AI generation refused after bounded recovery attempts''
      | Empty_output \<Rightarrow> error_event ''llm_empty_output'' ''AI generation returned no usable text''
      | _ \<Rightarrow> error_event ''llm_stream_failed'' ''LLM stream failed'')"

text \<open>
  The events of one stream. Activity rows are queued by the sink and drained before the next token and at
  the end, which is the order of the items; the row of the caller's own sink changes nothing here.
\<close>

definition stream_events :: "text_env \<Rightarrow> stream_world \<Rightarrow> chat_settings \<Rightarrow> context_message list \<Rightarrow> string \<Rightarrow> bool
    \<Rightarrow> (ptext \<Rightarrow> llm_error + pv) option \<Rightarrow> (ptext \<times> pv) list list" where
  "stream_events te w s messages action has_sink persist_final =
     (let r = stream_text_tokens te w s messages action has_sink;
          evs = map item_event (run_items r)
      in case run_end r of
           Some e \<Rightarrow> evs @ [failure_event e]
         | None \<Rightarrow>
             (case persist_final of
                None \<Rightarrow> evs
              | Some persist \<Rightarrow>
                  (case persist (concat (emits (run_items r))) of
                     Inr message \<Rightarrow> evs @ [done_event message]
                   | Inl e \<Rightarrow> evs @ [failure_event e])))"

definition stream_chat_completion :: "(pyfloat \<Rightarrow> ptext) \<Rightarrow> text_env \<Rightarrow> stream_world \<Rightarrow> chat_settings
    \<Rightarrow> context_message list \<Rightarrow> string \<Rightarrow> bool \<Rightarrow> (ptext \<Rightarrow> llm_error + pv) option \<Rightarrow> ptext list" where
  "stream_chat_completion fr te w s messages action has_sink persist_final =
     map (encode_sse_event fr) (stream_events te w s messages action has_sink persist_final)"

section \<open>Laws\<close>

lemma guard_tokens_correct:
  assumes "guard_tokens nf al ts g d = Inr (out, h, d', r)" "guard_inv g"
  shows "guard_inv h \<and> (r \<longrightarrow> guard_state g = Holding \<and> out = [])
    \<and> (\<not> r \<longrightarrow> concat out @ concat (chunks h) = concat (chunks g) @ concat (map snd ts)
        \<and> (guard_state g \<in> {Holding, Passthrough} \<longrightarrow> guard_state h \<in> {Holding, Passthrough})
        \<and> (guard_state h = Holding \<longrightarrow> out = [] \<and> guard_state g = Holding))"
  using assms
proof (induction ts arbitrary: g d out)
  case Nil
  then show ?case by auto
next
  case (Cons x ts)
  obtain now t where x: "x = (now, t)" by (cases x)
  from Cons.prems(1) x obtain dec k where f: "feed_guard nf al now t g = Inr (dec, k)"
    by (auto simp: bind_res_Inr_iff)
  note c = feed_guard_correct [OF f Cons.prems(2)]
  show ?case
  proof (cases "refused dec")
    case True
    then have "out = []" "h = k" "r" using Cons.prems(1) f x by (auto simp: bind_res_Inr_iff)
    with c True show ?thesis by blast
  next
    case False
    then obtain out' where rest: "guard_tokens nf al ts k (Some dec) = Inr (out', h, d', r)"
      and o: "out = released_text dec @ out'"
      using Cons.prems(1) f x by (auto simp: bind_res_Inr_iff)
    have k: "guard_inv k" "guard_state k \<in> {Holding, Passthrough}" using c False by blast+
    note ih = Cons.IH [OF rest k(1)]
    have rel: "concat (released_text dec) @ concat (chunks k) = concat (chunks g) @ t" using c False by blast
    have hold: "guard_state k = Holding \<longrightarrow> released_text dec = [] \<and> guard_state g = Holding" using c by blast
    have "guard_inv h" using ih by blast
    moreover have "r \<longrightarrow> guard_state g = Holding \<and> out = []" using ih hold o by simp
    moreover have "concat out @ concat (chunks h) = concat (chunks g) @ concat (map snd (x # ts))" if "\<not> r"
    proof -
      have "concat out' @ concat (chunks h) = concat (chunks k) @ concat (map snd ts)" using ih that by blast
      with rel o x show ?thesis by (simp flip: append_assoc) simp
    qed
    moreover have "\<not> r \<longrightarrow> guard_state h \<in> {Holding, Passthrough}" using ih k(2) by blast
    moreover have "\<not> r \<and> guard_state h = Holding \<longrightarrow> out = [] \<and> guard_state g = Holding"
      using ih hold o by simp
    ultimately show ?thesis by blast
  qed
qed

lemma guard_tokens_total:
  "guard_state g \<in> {Holding, Passthrough} \<Longrightarrow> guard_inv g \<Longrightarrow> guard_tokens nf al ts g d \<noteq> Inl e"
proof (induction ts arbitrary: g d)
  case (Cons x ts)
  obtain now t where x: "x = (now, t)" by (cases x)
  from feed_guard_total [OF Cons.prems(1)] obtain dec k where f: "feed_guard nf al now t g = Inr (dec, k)" by blast
  note c = feed_guard_correct [OF f Cons.prems(2)]
  show ?case
  proof (cases "refused dec")
    case False
    with c Cons.IH [of k "Some dec"] have "guard_tokens nf al ts k (Some dec) \<noteq> Inl e" by blast
    with False f show ?thesis by (auto simp: x bind_res_Inl_iff)
  qed (simp add: x f)
qed simp

lemma fresh_guard_inv: "guard_inv (fresh_guard now) \<and> guard_state (fresh_guard now) = Holding \<and> chunks (fresh_guard now) = []"
  by (simp add: fresh_guard_def new_guard_def guard_inv_def estimated_tokens_def REFUSAL_PREFIX_MAX_CHARACTERS_def
      REFUSAL_PREFIX_MAX_ESTIMATED_TOKENS_def REFUSAL_SAFE_SENTENCE_MIN_VISIBLE_CHARACTERS_def)

text \<open>One attempt: refused means silent, accepted means the whole text, an upstream failure a prefix of it.\<close>

lemma guarded_attempt_correct:
  "let a = guarded_attempt nf al (fresh_guard now) u; whole = concat (map snd (rt_chunks u)) in
     (at_refused a \<longrightarrow> at_texts a = [] \<and> at_error a = None)
   \<and> (\<not> at_refused a \<and> at_error a = None \<longrightarrow> concat (at_texts a) = whole)
   \<and> (\<exists>rest. whole = concat (at_texts a) @ rest)
   \<and> (\<forall>e. at_error a = Some e \<longrightarrow> rt_error u = Some e)"
proof -
  note g = fresh_guard_inv [of now]
  obtain out h d r where t: "guard_tokens nf al (rt_chunks u) (fresh_guard now) None = Inr (out, h, d, r)"
    using guard_tokens_total [of "fresh_guard now"] g
    by (cases "guard_tokens nf al (rt_chunks u) (fresh_guard now) None") auto
  note c = guard_tokens_correct [OF t] g
  show ?thesis
  proof (cases r)
    case True
    with c t show ?thesis by (auto simp: guarded_attempt_def Let_def)
  next
    case nr: False
    then have all: "concat out @ concat (chunks h) = concat (map snd (rt_chunks u))"
      and hs: "guard_inv h" "guard_state h \<in> {Holding, Passthrough}"
      and hold: "guard_state h = Holding \<longrightarrow> out = []" using c by auto
    show ?thesis
    proof (cases "rt_error u")
      case (Some e)
      with t nr all show ?thesis by (auto simp: guarded_attempt_def Let_def intro: exI [of _ "concat (chunks h)"])
    next
      case None
      obtain fin h' where f: "finish_guard nf al (rt_finish u) h = (fin, h')" by (cases "finish_guard nf al (rt_finish u) h")
      note fc = finish_guard_correct [OF f hs(1)]
      have "refused fin \<longrightarrow> released_text fin = [] \<and> out = []" using fc hs(2) hold by auto
      moreover have "\<not> refused fin \<longrightarrow> concat (released_text fin) = concat (chunks h)" using fc by blast
      ultimately show ?thesis using t nr None f
        by (auto simp: guarded_attempt_def Let_def simp flip: all intro: exI [of _ "[]"])
    qed
  qed
qed

definition call_text :: "text_env \<Rightarrow> stream_world \<Rightarrow> chat_settings \<Rightarrow> int \<times> int \<times> context_message list \<Rightarrow> ptext" where
  "call_text te w s c = (case c of (k, seed, sent) \<Rightarrow>
     concat (map snd (rt_chunks (stream_raw_text_tokens (env_cf te) (env_rp te) (env_rpr te) s sent (sw_client w) seed k))))"

lemma rt_error_upstream:
  "rt_error (stream_raw_text_tokens cf rp rpr s m cl seed k) \<noteq> Some Refusal_exhausted
   \<and> rt_error (stream_raw_text_tokens cf rp rpr s m cl seed k) \<noteq> Some Empty_output"
  by (auto simp: stream_raw_text_tokens_def Let_def split: client.splits sum.splits)

lemma emits_simps [simp]:
  "emits [] = []" "emits (map Emit ts) = ts" "emits (xs @ ys) = emits xs @ emits ys" "emits [Report r] = []"
  by (induction ts) (simp_all add: emits_def)

lemma report_emits: "report_refusal_activity hs act k st res outcome = Inr its \<Longrightarrow> emits its = []"
  by (auto simp: report_refusal_activity_def bind_res_Inr_iff emits_def split: if_splits)

lemma distinct_seed_error: "distinct_seed v used = Inl e \<Longrightarrow> e \<noteq> Refusal_exhausted \<and> e \<noteq> Empty_output"
  by (auto simp: distinct_seed_def split: pv.splits if_splits option.splits)

definition run_ok :: "text_env \<Rightarrow> stream_world \<Rightarrow> chat_settings \<Rightarrow> stream_run \<Rightarrow> bool" where
  "run_ok te w s r \<longleftrightarrow>
     (run_end r = Some Refusal_exhausted \<longrightarrow> emits (run_items r) = [])
   \<and> (run_end r = None \<longrightarrow> run_calls r \<noteq> [] \<and> concat (emits (run_items r)) = call_text te w s (last (run_calls r)))
   \<and> (run_calls r \<noteq> [] \<longrightarrow> (\<exists>rest. call_text te w s (last (run_calls r)) = concat (emits (run_items r)) @ rest))
   \<and> (run_calls r = [] \<longrightarrow> emits (run_items r) = [])"

lemma settle_cases:
  "case settle_attempt hs act k st res of
     Again its \<Rightarrow> at_refused res \<and> at_error res = None \<and> emits its = []
   | Over its e \<Rightarrow> emits its = [] \<and> (at_error res = e \<or> (at_error res = None \<and> e \<noteq> Some Refusal_exhausted))
       \<and> (e = None \<longrightarrow> \<not> at_refused res \<and> emitted_nonblank (at_texts res))"
  using report_emits [of hs act k st res]
  by (auto simp: settle_attempt_def Let_def split: option.splits sum.splits if_splits)

lemma attempt_correct:
  fixes te :: text_env and w :: stream_world and s :: chat_settings and messages :: "context_message list"
    and k seed :: int
  defines "a \<equiv> attempt_of te w s messages k seed" and "c \<equiv> (k, seed, sent_messages w messages k)"
  shows "at_refused a \<longrightarrow> at_texts a = [] \<and> at_error a = None"
    and "\<not> at_refused a \<and> at_error a = None \<longrightarrow> concat (at_texts a) = call_text te w s c"
    and "\<exists>rest. call_text te w s c = concat (at_texts a) @ rest"
    and "at_error a \<noteq> Some Refusal_exhausted"
proof -
  let ?u = "stream_raw_text_tokens (env_cf te) (env_rp te) (env_rpr te) s (sent_messages w messages k) (sw_client w) seed k"
  have tx: "concat (map snd (rt_chunks ?u)) = call_text te w s c" by (simp add: call_text_def c_def)
  have ga: "guarded_attempt (env_nf te) (env_al te) (fresh_guard (sw_clock w k)) ?u = a"
    by (simp add: a_def attempt_of_def)
  note gc = guarded_attempt_correct [of "env_nf te" "env_al te" "sw_clock w k" ?u, unfolded Let_def ga tx]
  show "at_refused a \<longrightarrow> at_texts a = [] \<and> at_error a = None"
    "\<not> at_refused a \<and> at_error a = None \<longrightarrow> concat (at_texts a) = call_text te w s c"
    "\<exists>rest. call_text te w s c = concat (at_texts a) @ rest"
    using gc by blast+
  show "at_error a \<noteq> Some Refusal_exhausted" using gc rt_error_upstream by metis
qed

lemma run_attempts_ok: "run_ok te w s (run_attempts te w s messages action hs n k used)"
proof (induction n arbitrary: k used)
  case 0
  then show ?case by (simp add: run_ok_def)
next
  case (Suc n)
  show ?case
  proof (cases "distinct_seed (sw_draws w k) used")
    case (Inl e)
    then show ?thesis using distinct_seed_error [OF Inl] by (simp add: run_ok_def)
  next
    case (Inr q)
    obtain seed used' where q: "q = (seed, used')" by (cases q)
    define a where "a = attempt_of te w s messages k seed"
    define c where "c = (k, seed, sent_messages w messages k)"
    note ac = attempt_correct [where te = te and w = w and s = s and messages = messages and k = k and seed = seed,
        folded a_def c_def]
    note sc = settle_cases [where hs = hs and act = action and k = k and st = "sw_stamp w k" and res = a]
    let ?r = "run_attempts te w s messages action hs n (k + 1) used'"
    have run: "run_attempts te w s messages action hs (Suc n) k used =
      (case settle_attempt hs action k (sw_stamp w k) a of
         Over its e \<Rightarrow> \<lparr>run_items = map Emit (at_texts a) @ its, run_calls = [c], run_end = e\<rparr>
       | Again its \<Rightarrow> \<lparr>run_items = map Emit (at_texts a) @ its @ run_items ?r, run_calls = c # run_calls ?r,
           run_end = run_end ?r\<rparr>)"
      using Inr q by (simp add: a_def c_def Let_def split: attempt_end.split)
    show ?thesis
    proof (cases "settle_attempt hs action k (sw_stamp w k) a")
      case (Again its)
      then have "at_texts a = []" "emits its = []" using sc ac(1) by auto
      with Suc.IH [of "k + 1" used'] ac(3) show ?thesis
        unfolding run Again by (simp add: run_ok_def)
    next
      case (Over its e)
      then have "emits its = []" "e \<noteq> Some Refusal_exhausted" "e = None \<longrightarrow> \<not> at_refused a \<and> at_error a = None"
        using sc ac(4) by auto
      with ac(2,3) show ?thesis unfolding run Over by (simp add: run_ok_def)
    qed
  qed
qed

text \<open>Seeds: the search is total as long as a seed is left, and the seeds of a run never repeat.\<close>

lemma skip_used_result:
  "skip_used n used s = Some t \<Longrightarrow> 0 \<le> s \<Longrightarrow> s \<le> CHAT_COMPLETION_SEED_LIMIT \<Longrightarrow>
     t \<notin> set used \<and> 0 \<le> t \<and> t \<le> CHAT_COMPLETION_SEED_LIMIT"
proof (induction n arbitrary: s)
  case (Suc n)
  have "(s + 1) mod (CHAT_COMPLETION_SEED_LIMIT + 1) \<le> CHAT_COMPLETION_SEED_LIMIT"
    "0 \<le> (s + 1) mod (CHAT_COMPLETION_SEED_LIMIT + 1)"
    using pos_mod_bound [of "CHAT_COMPLETION_SEED_LIMIT + 1" "s + 1"]
    by (simp_all add: CHAT_COMPLETION_SEED_LIMIT_def)
  with Suc show ?case by (auto split: if_splits)
qed simp

lemma skip_used_None:
  "skip_used n used s = None \<Longrightarrow> 0 \<le> s \<Longrightarrow> s \<le> CHAT_COMPLETION_SEED_LIMIT \<Longrightarrow> i < n \<Longrightarrow>
     (s + int i) mod (CHAT_COMPLETION_SEED_LIMIT + 1) \<in> set used"
proof (induction n arbitrary: s i)
  case (Suc n)
  let ?M = "CHAT_COMPLETION_SEED_LIMIT + 1"
  have M: "0 < ?M" by (simp add: CHAT_COMPLETION_SEED_LIMIT_def)
  have s: "s \<in> set used" "skip_used n used ((s + 1) mod ?M) = None"
    using Suc.prems(1) by (auto split: if_splits)
  show ?case
  proof (cases i)
    case 0
    then show ?thesis using s(1) Suc.prems(2,3) by simp
  next
    case (Suc j)
    have "(s + 1) mod ?M \<le> CHAT_COMPLETION_SEED_LIMIT" "0 \<le> (s + 1) mod ?M"
      using M pos_mod_bound [of ?M "s + 1"] by simp_all
    with Suc.IH [OF s(2), of j] Suc Suc.prems(4)
    have "((s + 1) mod ?M + int j) mod ?M \<in> set used" by simp
    then show ?thesis by (simp add: Suc mod_add_left_eq add.assoc)
  qed
qed simp

lemma skip_used_total:
  assumes "0 \<le> s" "s \<le> CHAT_COMPLETION_SEED_LIMIT" "int (length used) < CHAT_COMPLETION_SEED_LIMIT"
  shows "skip_used (Suc (length used)) used s \<noteq> None"
proof
  assume none: "skip_used (Suc (length used)) used s = None"
  let ?M = "CHAT_COMPLETION_SEED_LIMIT + 1"
  let ?f = "\<lambda>i :: nat. (s + int i) mod ?M"
  have "?f ` {..<Suc (length used)} \<subseteq> set used"
    using skip_used_None [OF none assms(1,2)] by auto
  moreover have "inj_on ?f {..<Suc (length used)}"
  proof (rule inj_onI)
    fix i j assume i: "i \<in> {..<Suc (length used)}" and j: "j \<in> {..<Suc (length used)}" and eq: "?f i = ?f j"
    have "(int i - int j) mod ?M = 0" using eq by (metis add_diff_cancel_left mod_diff_cong mod_diff_left_eq diff_self mod_0)
    then have "?M dvd int i - int j" by (rule mod_0_imp_dvd)
    moreover have "\<bar>int i - int j\<bar> < ?M" using i j assms(3) by auto
    ultimately show "i = j" using dvd_imp_le_int [of "int i - int j" ?M] assms(3) by fastforce
  qed
  ultimately have "Suc (length used) \<le> card (set used)"
    by (metis card_image card_lessThan card_mono List.finite_set)
  then show False using card_length [of used] by simp
qed

lemma distinct_seed_Inr:
  "distinct_seed v used = Inr (seed, used') \<Longrightarrow>
     used' = used @ [seed] \<and> seed \<notin> set used \<and> 0 \<le> seed \<and> seed \<le> CHAT_COMPLETION_SEED_LIMIT"
  using skip_used_result
  by (auto simp: distinct_seed_def simp del: skip_used.simps split: pv.splits if_splits option.splits)

definition calls_ok :: "stream_world \<Rightarrow> context_message list \<Rightarrow> int \<Rightarrow> int list \<Rightarrow> nat
    \<Rightarrow> (int \<times> int \<times> context_message list) list \<Rightarrow> bool" where
  "calls_ok w messages k used n cs \<longleftrightarrow>
     length cs \<le> n \<and> map fst cs = map (\<lambda>i. k + int i) [0..<length cs]
   \<and> distinct (used @ map (fst \<circ> snd) cs)
   \<and> (\<forall>c\<in>set cs. 0 \<le> fst (snd c) \<and> fst (snd c) \<le> CHAT_COMPLETION_SEED_LIMIT
        \<and> snd (snd c) = sent_messages w messages (fst c))"

lemma run_attempts_calls:
  "distinct used \<Longrightarrow> calls_ok w messages k used n (run_calls (run_attempts te w s messages action hs n k used))"
proof (induction n arbitrary: k used)
  case 0
  then show ?case by (simp add: calls_ok_def)
next
  case (Suc n)
  show ?case
  proof (cases "distinct_seed (sw_draws w k) used")
    case (Inl e)
    then show ?thesis using Suc.prems by (simp add: calls_ok_def)
  next
    case (Inr q)
    obtain seed used' where q: "q = (seed, used')" by (cases q)
    note d = distinct_seed_Inr [OF Inr [unfolded q]]
    let ?r = "run_attempts te w s messages action hs n (k + 1) used'"
    have one: "calls_ok w messages k used (Suc n) [(k, seed, sent_messages w messages k)]"
      using d Suc.prems by (simp add: calls_ok_def)
    have "distinct used'" using d Suc.prems by simp
    note ih = Suc.IH [OF this, of "k + 1"]
    have "map (\<lambda>i. k + int i) [0..<Suc m] = k # map (\<lambda>i. k + 1 + int i) [0..<m]" for m
      by (simp only: upt_conv_Cons [OF zero_less_Suc] map_Suc_upt [symmetric]) simp
    then have more: "calls_ok w messages k used (Suc n) ((k, seed, sent_messages w messages k) # run_calls ?r)"
      using ih d Suc.prems by (simp add: calls_ok_def del: upt_Suc)
    show ?thesis
      using one more Inr q by (simp add: Let_def split: attempt_end.split)
  qed
qed

lemma encode_frame:
  assumes "\<And>x. printable (fr x)"
  shows "\<exists>body. encode_sse_event fr e = lit ''data: '' @ body @ [10, 10] \<and> printable body"
  using printable_json(1) [of fr "PDict e"] assms unfolding encode_sse_event_def by blast

section \<open>Properties\<close>

text \<open>
  \<^bold>\<open>C11\<close>. The listener hears exactly one attempt: when the stream succeeds, the emitted text is the
  whole text of the last attempt; in every case it is a prefix of that attempt's text, so no character of
  an earlier (refused) attempt is ever emitted; and when all attempts are refused nothing is emitted.
\<close>

theorem one_attempt_is_heard:
  assumes "r = stream_text_tokens te w s messages action has_sink"
  shows "(run_end r = None \<longrightarrow> run_calls r \<noteq> [] \<and> concat (emits (run_items r)) = call_text te w s (last (run_calls r)))
    \<and> (run_calls r \<noteq> [] \<longrightarrow> (\<exists>rest. call_text te w s (last (run_calls r)) = concat (emits (run_items r)) @ rest))
    \<and> (run_calls r = [] \<or> run_end r = Some Refusal_exhausted \<longrightarrow> emits (run_items r) = [])"
  using run_attempts_ok unfolding assms stream_text_tokens_def by (auto simp: run_ok_def)

definition quiet_world :: stream_world where
  "quiet_world = \<lparr>sw_client = Custom_client (\<lambda>ms seed k. \<lparr>up_chunks = [], up_finish = 0, up_error = None\<rparr>),
     sw_draws = (\<lambda>k. PInt 5), sw_clock = (\<lambda>k. 0), sw_stamp = (\<lambda>k. lit ''Z'')\<rparr>"

definition plain_env :: text_env where
  "plain_env = \<lparr>env_nf = (\<lambda>t. t), env_al = (\<lambda>c. False), env_cf = (\<lambda>t. t), env_rp = (\<lambda>v. []), env_rpr = (\<lambda>v. [])\<rparr>"

definition plain_settings :: chat_settings where
  "plain_settings = \<lparr>base_url = [], chat_model = lit ''m'', api_key = None, disable_thinking = False,
     prompt_generation = None\<rparr>"

theorem one_attempt_is_heard_witness:
  "\<exists>r. r = stream_text_tokens plain_env quiet_world plain_settings [] ''send'' False
     \<and> (run_calls r \<noteq> [] \<longrightarrow> (\<exists>rest. call_text plain_env quiet_world plain_settings (last (run_calls r))
          = concat (emits (run_items r)) @ rest))"
  using one_attempt_is_heard [of _ plain_env quiet_world plain_settings "[]" "''send''" False] by blast

text \<open>
  \<^bold>\<open>C13\<close>. One request makes at most three upstream calls, numbered from one, with pairwise distinct
  seeds inside the supported range, each with the messages of its attempt.
\<close>

theorem attempts_are_bounded_and_distinct:
  assumes "r = stream_text_tokens te w s messages action has_sink"
  shows "length (run_calls r) \<le> 3 \<and> map fst (run_calls r) = map (\<lambda>i. 1 + int i) [0..<length (run_calls r)]
    \<and> distinct (map (fst \<circ> snd) (run_calls r))
    \<and> (\<forall>c\<in>set (run_calls r). 0 \<le> fst (snd c) \<and> fst (snd c) \<le> 2 ^ 31 - 1
        \<and> snd (snd c) = sent_messages w messages (fst c))"
  using run_attempts_calls [of "[]" w messages 1 3 te s action has_sink]
  unfolding assms stream_text_tokens_def
  by (simp add: calls_ok_def CHAT_COMPLETION_SEED_LIMIT_def MAX_SEMANTIC_ATTEMPTS_def)

theorem attempts_are_bounded_and_distinct_witness:
  "length (run_calls (stream_text_tokens plain_env quiet_world plain_settings [] ''send'' False)) \<le> 3
    \<and> distinct (map (fst \<circ> snd) (run_calls (stream_text_tokens plain_env quiet_world plain_settings [] ''send'' False)))"
  using attempts_are_bounded_and_distinct [OF refl] by blast

text \<open>
  Every frame of the event stream is one line: \<open>data: \<close>, a printable body and a blank
  line; and when a final message is to be stored, the stream is tokens and activity rows followed by exactly
  one terminal event, which is \<open>done\<close> only after the whole accepted text was stored.
\<close>

theorem stream_frames_are_well_formed:
  assumes "\<And>x. printable (fr x)"
  shows "(\<forall>f\<in>set (stream_chat_completion fr te w s messages action has_sink persist).
        \<exists>body. f = lit ''data: '' @ body @ [10, 10] \<and> printable body)
    \<and> (\<forall>store. persist = Some store \<longrightarrow>
        (\<exists>final. stream_events te w s messages action has_sink persist
            = map item_event (run_items (stream_text_tokens te w s messages action has_sink)) @ [final]
          \<and> ((\<exists>e. final = failure_event e)
             \<or> (\<exists>m. store (concat (emits (run_items (stream_text_tokens te w s messages action has_sink)))) = Inr m
                  \<and> final = done_event m \<and> run_end (stream_text_tokens te w s messages action has_sink) = None))))"
proof (intro conjI ballI allI impI)
  fix f assume "f \<in> set (stream_chat_completion fr te w s messages action has_sink persist)"
  then obtain e where "f = encode_sse_event fr e" by (auto simp: stream_chat_completion_def)
  then show "\<exists>body. f = lit ''data: '' @ body @ [10, 10] \<and> printable body"
    using encode_frame [OF assms] by simp
next
  fix store assume "persist = Some store"
  then show "\<exists>final. stream_events te w s messages action has_sink persist
        = map item_event (run_items (stream_text_tokens te w s messages action has_sink)) @ [final]
      \<and> ((\<exists>e. final = failure_event e)
         \<or> (\<exists>m. store (concat (emits (run_items (stream_text_tokens te w s messages action has_sink)))) = Inr m
              \<and> final = done_event m \<and> run_end (stream_text_tokens te w s messages action has_sink) = None))"
    by (auto simp: stream_events_def Let_def split: option.splits sum.splits)
qed

theorem stream_frames_are_well_formed_witness:
  "\<exists>final. stream_events plain_env quiet_world plain_settings [] ''send'' False (Some (\<lambda>t. Inr PNone))
     = map item_event (run_items (stream_text_tokens plain_env quiet_world plain_settings [] ''send'' False)) @ [final]"
  using stream_frames_are_well_formed [of "\<lambda>x. []" plain_env quiet_world plain_settings "[]" "''send''" False
      "Some (\<lambda>t. Inr PNone)"]
  by (simp only: printable_simps) blast

end
