(* ===== verification/CallEvents.thy ===== *)
theory CallEvents
  imports PyValue
begin

text \<open>
  The events of a call (\<open>ai-backend/app/call/events.py\<close>) and the session's outbox, which puts them
  in one order and hands them to a single delivery worker (\<open>_commit_event\<close>,
  \<open>_resolve_event_commit\<close>, \<open>_deliver_event_outbox\<close>, \<open>_deliver_event\<close> and
  \<open>drain_undelivered_events\<close> of \<open>ai-backend/app/call/session.py\<close>). An event is the dictionary the
  code builds. The worker is a coroutine: \<open>ob_worker\<close> says at which await it stands, and each
  stretch between two awaits is one function. What the sink and the data channel do is an argument.
\<close>

section \<open>Events\<close>

type_synonym event = "(ptext, pv) dict"

abbreviation user_final :: ptext where "user_final \<equiv> lit ''user_final''"
abbreviation ai_audio_started :: ptext where "ai_audio_started \<equiv> lit ''ai_audio_started''"
abbreviation ai_done :: ptext where "ai_done \<equiv> lit ''ai_done''"
abbreviation failed_type :: ptext where "failed_type \<equiv> lit ''failed''"
abbreviation ended_type :: ptext where "ended_type \<equiv> lit ''ended''"

definition with_turn :: "ptext option \<Rightarrow> event \<Rightarrow> event" where
  "with_turn turn e = (case turn of None \<Rightarrow> e | Some t \<Rightarrow> dset (lit ''turn_id'') (PStr t) e)"

definition dict_update :: "event \<Rightarrow> event \<Rightarrow> event" where
  "dict_update fields e = foldl (\<lambda>d (k, v). dset k v d) e fields"

definition user_final_event ::
  "ptext \<Rightarrow> ptext \<Rightarrow> ptext \<Rightarrow> ptext option \<Rightarrow> ptext option \<Rightarrow> event" where
  "user_final_event sid turn txt started ended_time =
     [(lit ''type'', PStr user_final), (lit ''session_id'', PStr sid),
      (lit ''turn_id'', PStr turn), (lit ''text'', PStr txt)]
     @ (case started of None \<Rightarrow> [] | Some t \<Rightarrow> [(lit ''started_at'', PStr t)])
     @ (case ended_time of None \<Rightarrow> [] | Some t \<Rightarrow> [(lit ''ended_at'', PStr t)])"

definition simple_event :: "ptext \<Rightarrow> ptext \<Rightarrow> ptext option \<Rightarrow> event \<Rightarrow> event" where
  "simple_event ty sid turn fields =
     dict_update fields
       (with_turn turn [(lit ''type'', PStr ty), (lit ''session_id'', PStr sid)])"

definition failed_event :: "ptext \<Rightarrow> ptext \<Rightarrow> ptext \<Rightarrow> bool \<Rightarrow> ptext option \<Rightarrow> event" where
  "failed_event sid code message retry turn =
     with_turn turn
       [(lit ''type'', PStr failed_type), (lit ''session_id'', PStr sid), (lit ''code'', PStr code),
        (lit ''message'', PStr message), (lit ''retry_allowed'', PBool retry)]"

definition event_type :: "event \<Rightarrow> ptext" where
  "event_type e = (case dget e (lit ''type'') of Some (PStr t) \<Rightarrow> t | _ \<Rightarrow> [])"

definition event_turn :: "event \<Rightarrow> ptext option" where
  "event_turn e = (case dget e (lit ''turn_id'') of Some (PStr t) \<Rightarrow> Some t | _ \<Rightarrow> None)"

lemma dict_update_Nil [simp]: "dict_update [] e = e"
  by (simp add: dict_update_def)

lemma dict_update_Cons [simp]: "dict_update ((k, v) # fs) e = dict_update fs (dset k v e)"
  by (simp add: dict_update_def)

lemma dget_dict_update_other: "k \<notin> fst ` set fs \<Longrightarrow> dget (dict_update fs e) k = dget e k"
  by (induction fs arbitrary: e) auto

section \<open>The outbox\<close>

record outbox_entry =
  en_sequence :: nat
  en_event :: "event option"

datatype worker = No_worker | At_head | In_sink

datatype sink_result = Sink_absent | Sink_ok | Sink_cancelled | Sink_failed ptext

text \<open>The data channel as the worker finds it: its \<open>readyState\<close>, and whether \<open>send\<close> returns.\<close>

datatype channel = No_channel | Channel (ready_state: "ptext option") (send_returns: bool)

record outbox =
  ob_sequence :: nat
  ob_entries :: "outbox_entry list"
  ob_worker :: worker
  ob_undelivered :: "event list"
  ob_discards :: nat
  ob_failures :: "(ptext \<times> ptext) list"
  ob_done :: "(nat \<times> event \<times> event) list"

definition new_outbox :: outbox where
  "new_outbox = \<lparr>ob_sequence = 0, ob_entries = [], ob_worker = No_worker, ob_undelivered = [],
     ob_discards = 0, ob_failures = [], ob_done = []\<rparr>"

definition commit_event :: "event option \<Rightarrow> outbox \<Rightarrow> nat \<times> outbox" where
  "commit_event e q =
     (let n = Suc (ob_sequence q) in
      (n, q\<lparr>ob_sequence := n,
            ob_entries := ob_entries q @ [\<lparr>en_sequence = n, en_event = e\<rparr>],
            ob_worker := (if ob_worker q = No_worker then At_head else ob_worker q)\<rparr>))"

definition fill_entry :: "event \<Rightarrow> outbox_entry \<Rightarrow> outbox_entry" where
  "fill_entry e n = (case en_event n of None \<Rightarrow> n\<lparr>en_event := Some e\<rparr> | Some _ \<Rightarrow> n)"

definition resolve_event_commit :: "nat \<Rightarrow> event \<Rightarrow> outbox \<Rightarrow> outbox" where
  "resolve_event_commit n e q =
     q\<lparr>ob_entries := map (\<lambda>x. if en_sequence x = n then fill_entry e x else x) (ob_entries q)\<rparr>"

text \<open>
  Late speech events: audio and completion events of a turn that is cancelled or being cancelled, or
  of a call that is over.
\<close>

definition late_speech_event :: "ptext set \<Rightarrow> ptext set \<Rightarrow> bool \<Rightarrow> event \<Rightarrow> bool" where
  "late_speech_event cancelled cancelling over e \<longleftrightarrow>
     (event_type e = ai_audio_started \<or> event_type e = ai_done)
     \<and> (case event_turn e of None \<Rightarrow> False
        | Some t \<Rightarrow> t \<in> cancelled \<or> t \<in> cancelling \<or> over)"

definition discarded_result :: "event \<Rightarrow> event" where
  "discarded_result e =
     [(lit ''status'', pstr ''discarded''),
      (lit ''turn_id'', case event_turn e of None \<Rightarrow> PNone | Some t \<Rightarrow> PStr t)]"

text \<open>The entry at the head is done with a result: it is popped and the loop goes on or ends.\<close>

definition finish_head :: "event \<Rightarrow> event \<Rightarrow> outbox \<Rightarrow> outbox" where
  "finish_head e result q =
     (case ob_entries q of
        [] \<Rightarrow> q
      | n # ns \<Rightarrow> q\<lparr>ob_entries := ns, ob_done := ob_done q @ [(en_sequence n, e, result)],
                    ob_worker := (if ns = [] then No_worker else At_head)\<rparr>)"

definition head_event :: "outbox \<Rightarrow> event option" where
  "head_event q = (case ob_entries q of [] \<Rightarrow> None | n # ns \<Rightarrow> en_event n)"

definition deliver_begin :: "(event \<Rightarrow> bool) \<Rightarrow> outbox \<Rightarrow> outbox" where
  "deliver_begin late q =
     (if ob_worker q \<noteq> At_head then q
      else case head_event q of
             None \<Rightarrow> q
           | Some e \<Rightarrow>
               if late e
               then finish_head e (discarded_result e) (q\<lparr>ob_discards := Suc (ob_discards q)\<rparr>)
               else q\<lparr>ob_worker := In_sink\<rparr>)"

definition channel_open :: "channel \<Rightarrow> bool" where
  "channel_open c = (case c of No_channel \<Rightarrow> False
     | Channel r _ \<Rightarrow> r = None \<or> r = Some (lit ''open''))"

definition sent :: "channel \<Rightarrow> bool" where
  "sent c \<longleftrightarrow> channel_open c \<and> (case c of No_channel \<Rightarrow> False | Channel _ ok \<Rightarrow> ok)"

definition recoverable :: "event \<Rightarrow> bool" where
  "recoverable e \<longleftrightarrow> event_type e = user_final \<or> event_type e = failed_type"

definition sink_failures :: "event \<Rightarrow> sink_result \<Rightarrow> (ptext \<times> ptext) list" where
  "sink_failures e r = (case r of
     Sink_cancelled \<Rightarrow> [(event_type e, lit ''CancelledError'')]
   | Sink_failed n \<Rightarrow> [(event_type e, n)]
   | _ \<Rightarrow> [])"

definition deliver_end :: "sink_result \<Rightarrow> channel \<Rightarrow> outbox \<Rightarrow> outbox" where
  "deliver_end r c q =
     (if ob_worker q \<noteq> In_sink then q
      else case head_event q of
             None \<Rightarrow> q
           | Some e \<Rightarrow>
               finish_head e e
                 (q\<lparr>ob_failures := ob_failures q @ sink_failures e r,
                    ob_undelivered := ob_undelivered q
                      @ (if \<not> sent c \<and> recoverable e then [e] else [])\<rparr>))"

definition drain_undelivered_events :: "outbox \<Rightarrow> event list \<times> outbox" where
  "drain_undelivered_events q = (ob_undelivered q, q\<lparr>ob_undelivered := []\<rparr>)"

lemmas outbox_defs = commit_event_def resolve_event_commit_def deliver_begin_def deliver_end_def
  finish_head_def head_event_def drain_undelivered_events_def

section \<open>The order of the outbox\<close>

definition waiting_numbers :: "outbox \<Rightarrow> nat list" where
  "waiting_numbers q = map en_sequence (ob_entries q)"

definition done_numbers :: "outbox \<Rightarrow> nat list" where
  "done_numbers q = map fst (ob_done q)"

definition numbers_to :: "nat \<Rightarrow> nat list" where
  "numbers_to n = [1..<Suc n]"

lemma numbers_to_Suc: "numbers_to (Suc n) = numbers_to n @ [Suc n]"
  by (simp add: numbers_to_def)

lemma numbers_to_facts [simp]:
  "length (numbers_to n) = n" "set (numbers_to n) = {1..n}" "distinct (numbers_to n)"
  "k \<le> n \<Longrightarrow> take k (numbers_to n) = numbers_to k"
  "k < n \<Longrightarrow> numbers_to n ! k = Suc k"
  by (auto simp: numbers_to_def take_upt simp del: upt_Suc)

definition outbox_ok :: "outbox \<Rightarrow> bool" where
  "outbox_ok q \<longleftrightarrow>
     done_numbers q @ waiting_numbers q = numbers_to (ob_sequence q)
     \<and> (ob_worker q = No_worker \<longleftrightarrow> ob_entries q = [])
     \<and> (ob_worker q = In_sink \<longrightarrow> head_event q \<noteq> None)"

lemma fill_entry_sequence [simp]: "en_sequence (fill_entry e n) = en_sequence n"
  by (simp add: fill_entry_def split: option.split)

lemma new_outbox_ok [simp]: "outbox_ok new_outbox"
  by (simp add: outbox_ok_def new_outbox_def done_numbers_def waiting_numbers_def head_event_def
      numbers_to_def)

lemma outbox_okI:
  assumes "done_numbers q @ waiting_numbers q = numbers_to (ob_sequence q)"
    and "ob_worker q = No_worker \<longleftrightarrow> ob_entries q = []"
    and "ob_worker q = In_sink \<Longrightarrow> head_event q \<noteq> None"
  shows "outbox_ok q"
  using assms by (simp add: outbox_ok_def)

lemma commit_event_ok: assumes "outbox_ok q" shows "outbox_ok (snd (commit_event e q))"
proof (rule outbox_okI)
  let ?q = "snd (commit_event e q)"
  have "done_numbers ?q @ waiting_numbers ?q
      = (done_numbers q @ waiting_numbers q) @ [Suc (ob_sequence q)]"
    by (simp add: commit_event_def Let_def done_numbers_def waiting_numbers_def)
  also have "\<dots> = numbers_to (ob_sequence ?q)"
    using assms by (simp add: outbox_ok_def commit_event_def Let_def numbers_to_Suc)
  finally show "done_numbers ?q @ waiting_numbers ?q = numbers_to (ob_sequence ?q)" .
  show "ob_worker ?q = No_worker \<longleftrightarrow> ob_entries ?q = []"
    by (simp add: commit_event_def Let_def)
  show "ob_worker ?q = In_sink \<Longrightarrow> head_event ?q \<noteq> None"
    using assms by (cases "ob_entries q")
      (auto simp: outbox_ok_def commit_event_def Let_def head_event_def split: if_split_asm)
qed

lemma resolve_numbers [simp]: "waiting_numbers (resolve_event_commit n e q) = waiting_numbers q"
  by (simp add: waiting_numbers_def resolve_event_commit_def comp_def if_distrib cong: if_cong)

lemma resolve_fields [simp]:
  "ob_sequence (resolve_event_commit n e q) = ob_sequence q"
  "ob_worker (resolve_event_commit n e q) = ob_worker q"
  "done_numbers (resolve_event_commit n e q) = done_numbers q"
  "ob_entries (resolve_event_commit n e q) = [] \<longleftrightarrow> ob_entries q = []"
  by (simp_all add: resolve_event_commit_def done_numbers_def)

lemma resolve_head: "head_event q \<noteq> None \<Longrightarrow> head_event (resolve_event_commit n e q) = head_event q"
  by (auto simp: head_event_def resolve_event_commit_def fill_entry_def split: list.splits)

lemma resolve_event_commit_ok: "outbox_ok q \<Longrightarrow> outbox_ok (resolve_event_commit n e q)"
  by (simp add: outbox_ok_def resolve_head)

lemma finish_head_ok:
  assumes "outbox_ok q" "ob_entries q \<noteq> []"
  shows "outbox_ok (finish_head e r q)"
proof -
  obtain n ns where e: "ob_entries q = n # ns"
    using assms(2) by (cases "ob_entries q") auto
  show ?thesis
    using assms(1) e
    by (simp add: outbox_ok_def finish_head_def done_numbers_def waiting_numbers_def)
qed

lemma outbox_ok_cong:
  "ob_entries q' = ob_entries q \<Longrightarrow> ob_done q' = ob_done q \<Longrightarrow> ob_sequence q' = ob_sequence q
   \<Longrightarrow> ob_worker q' = ob_worker q \<Longrightarrow> outbox_ok q' = outbox_ok q"
  by (simp add: outbox_ok_def done_numbers_def waiting_numbers_def head_event_def)

lemma head_event_entries: "head_event q = Some e \<Longrightarrow> ob_entries q \<noteq> []"
  by (auto simp: head_event_def)

lemma finish_touched_ok:
  assumes "outbox_ok q" "head_event q = Some e"
    and "ob_entries q' = ob_entries q" "ob_done q' = ob_done q" "ob_sequence q' = ob_sequence q"
    "ob_worker q' = ob_worker q"
  shows "outbox_ok (finish_head v r q')"
  using assms by (intro finish_head_ok) (simp_all add: head_event_entries outbox_ok_cong [of q' q])

lemma deliver_begin_ok: assumes "outbox_ok q" shows "outbox_ok (deliver_begin late q)"
proof (cases "ob_worker q = At_head \<and> head_event q \<noteq> None")
  case True
  then obtain e where e: "head_event q = Some e" and w: "ob_worker q = At_head" by auto
  have "outbox_ok (q\<lparr>ob_worker := In_sink\<rparr>)"
    using assms e w head_event_entries [OF e]
    by (simp add: outbox_ok_def done_numbers_def waiting_numbers_def head_event_def)
  then show ?thesis
    using w e finish_touched_ok [OF assms e]
    by (simp add: deliver_begin_def)
next
  case False
  then have "deliver_begin late q = q"
    by (simp add: deliver_begin_def split: option.split)
  then show ?thesis using assms by simp
qed

lemma deliver_end_ok: assumes "outbox_ok q" shows "outbox_ok (deliver_end r c q)"
proof (cases "ob_worker q = In_sink \<and> head_event q \<noteq> None")
  case True
  then obtain e where e: "head_event q = Some e" and w: "ob_worker q = In_sink" by auto
  show ?thesis
    using w e finish_touched_ok [OF assms e]
    by (simp add: deliver_end_def)
next
  case False
  then have "deliver_end r c q = q"
    by (simp add: deliver_end_def split: option.split)
  then show ?thesis using assms by simp
qed

lemma drain_ok: "outbox_ok q \<Longrightarrow> outbox_ok (snd (drain_undelivered_events q))"
  by (subst outbox_ok_cong [of _ q]) (simp_all add: drain_undelivered_events_def)

locale ordered_log =
  fixes ok :: "'q \<Rightarrow> bool" and number :: "'q \<Rightarrow> nat" and finished pending :: "'q \<Rightarrow> nat list"
  assumes order: "ok q \<Longrightarrow> finished q @ pending q = numbers_to (number q)"
begin

lemma finished_numbers: assumes "ok q" shows "finished q = numbers_to (length (finished q))"
proof -
  have "length (finished q) \<le> number q"
    using arg_cong [OF order [OF assms], of length] by simp
  moreover have "finished q = take (length (finished q)) (numbers_to (number q))"
    using order [OF assms] by (metis append_eq_conv_conj)
  ultimately show ?thesis by simp
qed

lemma finished_before:
  "ok q \<Longrightarrow> b \<in> set (finished q) \<Longrightarrow> 0 < a \<Longrightarrow> a \<le> b \<Longrightarrow> a \<in> set (finished q)"
  by (subst (asm) finished_numbers, assumption, subst finished_numbers, assumption)
    auto

lemma finished_or_pending:
  "ok q \<Longrightarrow> 0 < a \<Longrightarrow> a \<le> number q \<Longrightarrow> a \<in> set (finished q) \<longleftrightarrow> a \<notin> set (pending q)"
proof -
  assume "ok q" "0 < a" "a \<le> number q"
  then have "a \<in> set (finished q @ pending q)" "distinct (finished q @ pending q)"
    by (simp_all add: order del: set_append distinct_append)
  then show ?thesis by auto
qed

end

interpretation box: ordered_log outbox_ok ob_sequence done_numbers waiting_numbers
  by unfold_locales (simp add: outbox_ok_def)

section \<open>The abstract log\<close>

text \<open>
  What the outbox promises its callers: a list of events in commit order, a reserved place being
  \<open>None\<close> until it is resolved, and the number of them that have been handled. A reserved place
  holds up everything behind it.
\<close>

type_synonym event_log = "event option list \<times> nat"

definition log_append :: "event option \<Rightarrow> event_log \<Rightarrow> event_log" where
  "log_append e l = (fst l @ [e], snd l)"

definition log_fill :: "nat \<Rightarrow> event \<Rightarrow> event_log \<Rightarrow> event_log" where
  "log_fill n e l = (if 0 < n \<and> n \<le> length (fst l) \<and> fst l ! (n - 1) = None
     then ((fst l)[n - 1 := Some e], snd l) else l)"

definition log_handle :: "event_log \<Rightarrow> event_log" where
  "log_handle l = (if snd l < length (fst l) \<and> fst l ! snd l \<noteq> None then (fst l, Suc (snd l)) else l)"

definition log_of :: "outbox \<Rightarrow> event_log" where
  "log_of q = (map (\<lambda>(n, e, r). Some e) (ob_done q) @ map en_event (ob_entries q), length (ob_done q))"

lemma log_of_commit: "log_of (snd (commit_event e q)) = log_append e (log_of q)"
  by (simp add: log_of_def commit_event_def log_append_def Let_def)

lemma length_log: "outbox_ok q \<Longrightarrow> length (fst (log_of q)) = ob_sequence q"
  using arg_cong [OF box.order [of q], of length]
  by (simp add: log_of_def done_numbers_def waiting_numbers_def)

lemma log_of_finish:
  "head_event q = Some e \<Longrightarrow> log_of (finish_head e r q) = log_handle (log_of q)"
  by (auto simp: log_of_def finish_head_def head_event_def log_handle_def nth_append split: list.splits)

lemma log_of_finish_touched:
  assumes "head_event q = Some e" "ob_entries q' = ob_entries q" "ob_done q' = ob_done q"
  shows "log_of (finish_head e r q') = log_handle (log_of q)"
proof -
  have "log_of q' = log_of q" "head_event q' = Some e"
    using assms by (simp_all add: log_of_def head_event_def)
  then show ?thesis using log_of_finish [of q' e r] by simp
qed

lemma log_of_begin_if:
  "log_of (deliver_begin late q)
     = (if ob_worker q = At_head \<and> (\<exists>h. head_event q = Some h \<and> late h)
        then log_handle (log_of q) else log_of q)"
proof (cases "ob_worker q = At_head \<and> head_event q \<noteq> None")
  case True
  then obtain e where "head_event q = Some e" by auto
  moreover have "log_of (q\<lparr>ob_worker := In_sink\<rparr>) = log_of q"
    by (simp add: log_of_def)
  ultimately show ?thesis
    using True by (simp add: deliver_begin_def log_of_finish_touched [of q])
next
  case False
  then show ?thesis by (auto simp: deliver_begin_def split: option.split)
qed

lemma log_of_end:
  "ob_worker q = In_sink \<Longrightarrow> head_event q \<noteq> None \<Longrightarrow> log_of (deliver_end r c q) = log_handle (log_of q)"
  by (auto simp: deliver_end_def log_of_finish_touched [of q])

lemma entry_number:
  assumes "outbox_ok q" "i < length (ob_entries q)"
  shows "en_sequence (ob_entries q ! i) = Suc (length (ob_done q) + i)"
proof -
  have "length (ob_done q) + i < ob_sequence q"
    using arg_cong [OF box.order [OF assms(1)], of length] assms(2)
    by (simp add: done_numbers_def waiting_numbers_def)
  then have "(done_numbers q @ waiting_numbers q) ! (length (ob_done q) + i)
      = Suc (length (ob_done q) + i)"
    by (simp add: box.order [OF assms(1)])
  then show ?thesis
    using assms(2) by (simp add: nth_append done_numbers_def waiting_numbers_def)
qed

lemma log_of_resolve:
  assumes "outbox_ok q"
  shows "log_of (resolve_event_commit n e q) = log_fill n e (log_of q)"
proof -
  let ?d = "map (\<lambda>(n, e, r). Some e) (ob_done q) :: event option list" and ?k = "length (ob_done q)"
  let ?es = "map en_event (ob_entries q)"
  let ?new = "map (\<lambda>x. en_event (if en_sequence x = n then fill_entry e x else x)) (ob_entries q)"
  have at: "?new ! i = (if Suc (?k + i) = n \<and> ?es ! i = None then Some e else ?es ! i)"
    if "i < length ?es" for i
    using that entry_number [OF assms, of i] by (auto simp: fill_entry_def split: option.split)
  have closed: "?d ! i \<noteq> None" if "i < ?k" for i
    using that by (simp add: split_beta)
  have "?d @ ?new = fst (log_fill n e (?d @ ?es, ?k))"
  proof (rule nth_equalityI)
    show "length (?d @ ?new) = length (fst (log_fill n e (?d @ ?es, ?k)))"
      by (simp add: log_fill_def)
    fix j assume "j < length (?d @ ?new)"
    then show "(?d @ ?new) ! j = fst (log_fill n e (?d @ ?es, ?k)) ! j"
      using at [of "j - ?k"] closed [of "n - 1"]
      by (auto simp: log_fill_def nth_append nth_list_update split_beta simp del: nth_map)
  qed
  then show ?thesis
    by (simp add: log_of_def resolve_event_commit_def comp_def prod_eq_iff log_fill_def)
qed

text \<open>
  The outbox refines an ordered log. A commit appends to the log and returns the place of
  the event in it; resolving a reserved place fills that place and no other, and only once; a late
  speech event at the head counts as handled without being sent; the end of a sending handles the
  head; and every operation keeps the outbox in the shape that this rests on.
\<close>

theorem outbox_refines_log:
  assumes "outbox_ok q"
  shows "log_of (snd (commit_event e q)) = log_append e (log_of q)
      \<and> fst (commit_event e q) = length (fst (log_append e (log_of q)))
      \<and> log_of (resolve_event_commit n v q) = log_fill n v (log_of q)
      \<and> log_of (deliver_begin late q)
          = (if ob_worker q = At_head \<and> (\<exists>h. head_event q = Some h \<and> late h)
             then log_handle (log_of q) else log_of q)
      \<and> log_of (deliver_end r c q) = (if ob_worker q = In_sink then log_handle (log_of q) else log_of q)
      \<and> outbox_ok (snd (commit_event e q)) \<and> outbox_ok (resolve_event_commit n v q)
      \<and> outbox_ok (deliver_begin late q) \<and> outbox_ok (deliver_end r c q)"
proof -
  have "fst (commit_event e q) = length (fst (log_append e (log_of q)))"
    using length_log [OF assms] by (simp add: commit_event_def Let_def log_append_def)
  moreover have "log_of (deliver_end r c q) = (if ob_worker q = In_sink then log_handle (log_of q) else log_of q)"
    using log_of_end [of q r c] assms by (auto simp: outbox_ok_def deliver_end_def)
  ultimately show ?thesis
    using assms by (simp add: log_of_commit log_of_resolve log_of_begin_if commit_event_ok
        resolve_event_commit_ok deliver_begin_ok deliver_end_ok)
qed

theorem outbox_refines_log_witness:
  "log_of (resolve_event_commit 1 [(lit ''type'', PNone)] (snd (commit_event None new_outbox)))
     = ([Some [(lit ''type'', PNone)]], 0)"
  using outbox_refines_log [OF commit_event_ok [OF new_outbox_ok, of None]]
  by (simp add: log_of_commit) (simp add: log_of_def new_outbox_def log_append_def log_fill_def)

end
