(* ===== verification/TurnAudio.thy ===== *)
theory TurnAudio
  imports Prelude Complex_Main
begin

text \<open>
  The user's turn as \<open>CallSession\<close> collects it from microphone frames
  (\<open>ai-backend/app/call/session.py\<close>, from \<open>_append_turn_frame\<close> to
  \<open>_trim_trailing_silence_for_stt\<close>): the frames and the voice-activity bookkeeping, the bounded
  analysis window, the grace period after a transport reconnect and the hold of live frames during
  it. Bytes are naturals below 256, samples are the signed 16-bit integers they encode; the clock
  and the durations are exact rationals, and an energy is compared by its square, so the rounding of
  \<open>float\<close> is not modelled. A voice-activity adapter is an argument.
\<close>

section \<open>Data\<close>

record pcm_frame =
  fr_pcm :: "nat list"
  fr_rate :: nat

record vad_settings =
  vs_threshold :: rat
  vs_end_silence :: nat
  vs_max_turn :: nat
  vs_grace :: nat
  vs_min_rms :: rat

record user_turn =
  ut_frames :: "pcm_frame list"
  ut_started :: "ptext option"
  ut_seen :: bool
  ut_silence :: nat
  ut_start_frame :: "nat option"
  ut_recent :: "int list list"
  ut_recent_count :: nat
  ut_elapsed :: nat
  ut_has_run :: bool
  ut_grace_pending :: bool
  ut_grace_until :: rat
  ut_grace_logged :: bool
  ut_diag_count :: nat
  ut_hold_until :: rat
  ut_hold_logged :: bool
  ut_hold_frames :: "pcm_frame list"

definition new_turn :: user_turn where
  "new_turn = \<lparr>ut_frames = [], ut_started = None, ut_seen = False, ut_silence = 0,
     ut_start_frame = None, ut_recent = [], ut_recent_count = 0, ut_elapsed = 0, ut_has_run = False,
     ut_grace_pending = False, ut_grace_until = 0, ut_grace_logged = False, ut_diag_count = 0,
     ut_hold_until = 0, ut_hold_logged = False, ut_hold_frames = []\<rparr>"

text \<open>
  What the voice-activity adapter offers: nothing, a decision per frame (the values of
  \<open>speech_detected\<close> and \<open>end_of_turn\<close> in its answer), or the ends of the speech segments that
  it finds in the samples of the window, at its sampling rate.
\<close>

datatype vad =
    No_vad
  | Frame_vad "nat list \<Rightarrow> bool option \<times> bool option"
  | Window_vad nat "int list \<Rightarrow> nat list"

section \<open>Samples\<close>

definition int16 :: "nat \<Rightarrow> nat \<Rightarrow> int" where
  "int16 lo hi = (let u = int lo + 256 * int hi in if u < 32768 then u else u - 65536)"

fun samples_of :: "nat list \<Rightarrow> int list" where
  "samples_of (lo # hi # bs) = int16 lo hi # samples_of bs"
| "samples_of _ = []"

definition malformed :: "pcm_frame \<Rightarrow> bool" where
  "malformed f \<longleftrightarrow> length (fr_pcm f) < 2 \<or> odd (length (fr_pcm f))"

definition square_sum :: "int list \<Rightarrow> int" where
  "square_sum xs = sum_list (map (\<lambda>x. x * x) xs)"

text \<open>\<open>sqrt(mean(square(samples))) >= t\<close>, for samples that are not empty.\<close>

definition rms_at_least :: "rat \<Rightarrow> int list \<Rightarrow> bool" where
  "rms_at_least t xs \<longleftrightarrow> t \<le> 0 \<or> t * t * of_nat (length xs) \<le> of_int (square_sum xs)"

text \<open>\<open>_pcm_frame_rms_peak\<close> gives a malformed frame the energy 0.\<close>

definition frame_loud :: "rat \<Rightarrow> pcm_frame \<Rightarrow> bool" where
  "frame_loud t f \<longleftrightarrow> (if malformed f then t \<le> 0 else rms_at_least t (samples_of (fr_pcm f)))"

definition frame_ms :: "pcm_frame \<Rightarrow> nat" where
  "frame_ms f = length (samples_of (fr_pcm f)) * 1000 div max (fr_rate f) 1"

section \<open>The analysis window\<close>

definition vad_window_limit :: "vad_settings \<Rightarrow> nat \<Rightarrow> nat" where
  "vad_window_limit vs rate =
     max (nat \<lfloor>of_nat rate * max 2 ((of_nat (vs_end_silence vs) + 500) / 1000 :: rat)\<rfloor>) 1"

fun trim_recent :: "nat \<Rightarrow> int list list \<Rightarrow> nat \<Rightarrow> int list list \<times> nat" where
  "trim_recent limit [] count = ([], count)"
| "trim_recent limit (oldest # rest) count =
     (if limit < count
      then let overflow = count - limit in
           if length oldest \<le> overflow
           then trim_recent limit rest (count - length oldest)
           else (drop overflow oldest # rest, count - overflow)
      else (oldest # rest, count))"

definition append_vad_samples :: "nat \<Rightarrow> int list \<Rightarrow> user_turn \<Rightarrow> user_turn" where
  "append_vad_samples limit xs ut =
     (let chunks = ut_recent ut @ (if xs = [] then [] else [xs]);
          count = ut_recent_count ut + length xs in
      case trim_recent limit chunks count of
        (cs, n) \<Rightarrow> ut\<lparr>ut_recent := cs, ut_recent_count := n\<rparr>)"

definition vad_samples :: "user_turn \<Rightarrow> int list" where
  "vad_samples ut = concat (ut_recent ut)"

definition reset_vad_window :: "user_turn \<Rightarrow> user_turn" where
  "reset_vad_window ut =
     ut\<lparr>ut_recent := [], ut_recent_count := 0, ut_elapsed := 0, ut_has_run := False\<rparr>"

section \<open>The reconnect grace\<close>

definition grace_remaining_ms :: "rat \<Rightarrow> user_turn \<Rightarrow> nat" where
  "grace_remaining_ms now ut =
     (if ut_grace_until ut \<le> 0 then 0 else nat \<lfloor>(ut_grace_until ut - now) * 1000\<rfloor>)"

definition next_grace_diag_frame :: "rat \<Rightarrow> user_turn \<Rightarrow> nat option \<times> user_turn" where
  "next_grace_diag_frame now ut =
     (if grace_remaining_ms now ut = 0 then (None, ut)
      else let n = Suc (ut_diag_count ut) in
           (if n \<le> 10 \<or> n mod 25 = 0 then Some n else None, ut\<lparr>ut_diag_count := n\<rparr>))"

definition in_media_reconnect_grace :: "rat \<Rightarrow> user_turn \<Rightarrow> bool \<times> user_turn" where
  "in_media_reconnect_grace now ut =
     (if ut_grace_until ut \<le> 0 then (False, ut)
      else if ut_grace_until ut \<le> now
      then (False, ut\<lparr>ut_grace_until := 0, ut_grace_logged := False\<rparr>)
      else (True, ut\<lparr>ut_grace_logged := True\<rparr>))"

section \<open>Voice activity\<close>

type_synonym vad_result = "bool option \<times> bool option"

definition speech_detected :: "vad_result \<Rightarrow> bool" where
  "speech_detected r = (case fst r of None \<Rightarrow> True | Some b \<Rightarrow> b)"

definition end_of_turn :: "vad_result \<Rightarrow> bool" where
  "end_of_turn r = (case snd r of None \<Rightarrow> False | Some b \<Rightarrow> b)"

text \<open>The turn is over: it lasted too long, or speech was followed by enough silence outside the grace.\<close>

definition turn_over :: "vad_settings \<Rightarrow> rat \<Rightarrow> bool \<Rightarrow> user_turn \<Rightarrow> bool \<times> user_turn" where
  "turn_over vs now forced ut =
     (if ut_seen ut \<and> vs_end_silence vs \<le> ut_silence ut
      then (case in_media_reconnect_grace now ut of (grace, ut') \<Rightarrow> (forced \<or> \<not> grace, ut'))
      else (forced, ut))"

definition energy_step :: "vad_settings \<Rightarrow> bool \<Rightarrow> nat \<Rightarrow> user_turn \<Rightarrow> user_turn" where
  "energy_step vs loud ms ut =
     (if loud then ut\<lparr>ut_seen := True, ut_silence := 0\<rparr>
      else if ut_seen ut then ut\<lparr>ut_silence := ut_silence ut + ms\<rparr>
      else ut)"

definition window_step :: "nat \<Rightarrow> nat \<Rightarrow> nat \<Rightarrow> nat list \<Rightarrow> user_turn \<Rightarrow> user_turn" where
  "window_step rate idx analyzed ends ut =
     (if ends \<noteq> []
      then ut\<lparr>ut_seen := True,
              ut_start_frame := (case ut_start_frame ut of None \<Rightarrow> Some idx | Some k \<Rightarrow> Some k),
              ut_silence := (length (vad_samples ut) - last ends) * 1000 div rate\<rparr>
      else if ut_seen ut then ut\<lparr>ut_silence := ut_silence ut + analyzed\<rparr>
      else ut)"

definition accept_vad_frame ::
  "vad_settings \<Rightarrow> vad \<Rightarrow> rat \<Rightarrow> pcm_frame \<Rightarrow> user_turn \<Rightarrow> vad_result \<times> user_turn" where
  "accept_vad_frame vs vad now f ut =
     (case vad of
        Frame_vad answer \<Rightarrow> (answer (fr_pcm f), ut)
      | _ \<Rightarrow>
        if malformed f then ((Some True, Some False), ut)
        else
          let idx = length (ut_frames ut);
              xs = samples_of (fr_pcm f);
              forced = vs_max_turn vs \<le> idx * frame_ms f;
              ut1 = snd (next_grace_diag_frame now ut) in
          case vad of
            Window_vad rate0 ends_in \<Rightarrow>
              let rate = (if rate0 = 0 then 16000 else rate0);
                  ut2 = append_vad_samples (vad_window_limit vs rate) xs ut1;
                  ut3 = ut2\<lparr>ut_elapsed := ut_elapsed ut2 + frame_ms f\<rparr> in
              if ut_has_run ut3 \<and> ut_elapsed ut3 < 100
              then ((Some (ut_seen ut3), Some forced), ut3)
              else
                let ut4 = window_step rate idx (ut_elapsed ut3) (ends_in (vad_samples ut3))
                            (ut3\<lparr>ut_elapsed := 0, ut_has_run := True\<rparr>);
                    (over, ut5) = turn_over vs now forced ut4 in
                ((Some (ut_seen ut5), Some over), ut5)
          | _ \<Rightarrow>
              let loud = rms_at_least (vs_threshold vs * 1000) xs;
                  ut2 = energy_step vs loud (frame_ms f) ut1;
                  (over, ut3) = turn_over vs now forced ut2 in
              ((Some (ut_seen ut3 \<or> loud), Some over), ut3))"

definition append_turn_frame ::
  "vad_settings \<Rightarrow> vad \<Rightarrow> rat \<Rightarrow> ptext \<Rightarrow> pcm_frame \<Rightarrow> user_turn \<Rightarrow> vad_result \<times> user_turn" where
  "append_turn_frame vs vad now stamp f ut =
     (let ut1 = ut\<lparr>ut_frames := ut_frames ut @ [f],
                   ut_started := (case ut_started ut of None \<Rightarrow> Some stamp | Some s \<Rightarrow> Some s)\<rparr>;
          (r, ut2) = accept_vad_frame vs vad now f ut1 in
      (r, if speech_detected r then ut2\<lparr>ut_seen := True\<rparr> else ut2))"

section \<open>Live frames held back during a reconnect\<close>

fun append_frames ::
  "vad_settings \<Rightarrow> vad \<Rightarrow> rat \<Rightarrow> ptext \<Rightarrow> pcm_frame list \<Rightarrow> bool \<Rightarrow> user_turn \<Rightarrow> bool \<times> user_turn" where
  "append_frames vs vad now stamp [] over ut = (over, ut)"
| "append_frames vs vad now stamp (f # fs) over ut =
     (case append_turn_frame vs vad now stamp f ut of
        (r, ut') \<Rightarrow> append_frames vs vad now stamp fs (over \<or> end_of_turn r) ut')"

definition release_reconnect_live_frames ::
  "vad_settings \<Rightarrow> vad \<Rightarrow> rat \<Rightarrow> ptext \<Rightarrow> user_turn \<Rightarrow> bool \<times> user_turn" where
  "release_reconnect_live_frames vs vad now stamp ut =
     append_frames vs vad now stamp (ut_hold_frames ut) False
       (ut\<lparr>ut_hold_frames := [], ut_hold_until := 0, ut_hold_logged := False\<rparr>)"

definition release_reconnect_live_frames_if_expired ::
  "vad_settings \<Rightarrow> vad \<Rightarrow> rat \<Rightarrow> ptext \<Rightarrow> user_turn \<Rightarrow> user_turn" where
  "release_reconnect_live_frames_if_expired vs vad now stamp ut =
     (if 0 < ut_hold_until ut \<and> ut_hold_until ut \<le> now
      then snd (release_reconnect_live_frames vs vad now stamp ut) else ut)"

definition hold_reconnect_live_frame ::
  "vad_settings \<Rightarrow> vad \<Rightarrow> rat \<Rightarrow> ptext \<Rightarrow> pcm_frame \<Rightarrow> user_turn \<Rightarrow> bool \<times> user_turn" where
  "hold_reconnect_live_frame vs vad now stamp f ut =
     (if ut_hold_until ut \<le> 0 then (False, ut)
      else if ut_hold_until ut \<le> now
      then (False, snd (release_reconnect_live_frames vs vad now stamp ut))
      else (True, ut\<lparr>ut_hold_frames := ut_hold_frames ut @ [f],
                     ut_hold_logged := True\<rparr>))"

definition discard_reconnect_live_frames :: "user_turn \<Rightarrow> user_turn" where
  "discard_reconnect_live_frames ut =
     ut\<lparr>ut_hold_frames := [], ut_hold_until := 0, ut_hold_logged := False,
        ut_grace_logged := False, ut_diag_count := 0\<rparr>"

definition hold_seconds :: rat where
  "hold_seconds = 12"

definition start_media_reconnect_grace :: "vad_settings \<Rightarrow> rat \<Rightarrow> user_turn \<Rightarrow> user_turn" where
  "start_media_reconnect_grace vs now ut =
     (if \<not> ut_grace_pending ut then ut
      else if vs_grace vs = 0 then ut\<lparr>ut_grace_pending := False\<rparr>
      else ut\<lparr>ut_grace_pending := False,
              ut_grace_until := max (ut_grace_until ut) (now + of_nat (vs_grace vs) / 1000),
              ut_grace_logged := False, ut_diag_count := 0,
              ut_hold_until := max (ut_hold_until ut) (now + hold_seconds),
              ut_hold_logged := False\<rparr>)"

section \<open>The end of a turn\<close>

definition nonfinal_backfill_silence_ms :: "vad_settings \<Rightarrow> nat" where
  "nonfinal_backfill_silence_ms vs = max (max (vs_end_silence vs) (vs_grace vs)) 3000"

definition should_finalize_after_backfill :: "vad_settings \<Rightarrow> bool \<Rightarrow> bool \<Rightarrow> user_turn \<Rightarrow> bool" where
  "should_finalize_after_backfill vs over final ut =
     (if ut_frames ut = [] then False
      else if final
      then over \<or> (ut_seen ut \<and> vs_end_silence vs \<le> ut_silence ut)
      else ut_seen ut \<and> nonfinal_backfill_silence_ms vs \<le> ut_silence ut)"

definition trim_trailing_silence :: "vad_settings \<Rightarrow> pcm_frame list \<Rightarrow> pcm_frame list" where
  "trim_trailing_silence vs fs =
     (if fs = [] then fs
      else
        let trailing = length (takeWhile (\<lambda>f. \<not> frame_loud (max (vs_min_rms vs) 1) f) (rev fs)) in
        if trailing = 0 then fs
        else
          let ms = max (length (fr_pcm (last fs)) div 2 * 1000 div max (fr_rate (last fs)) 1) 1;
              keep = max (400 div ms) 1;
              n = trailing - keep in
          if n = 0 \<or> length fs \<le> n then fs else take (length fs - n) fs)"

text \<open>The turn is handed to transcription only when it is loud enough; without samples it passes.\<close>

definition turn_samples :: "pcm_frame list \<Rightarrow> int list" where
  "turn_samples fs = concat (map (\<lambda>f. samples_of (fr_pcm f)) (filter (\<lambda>f. \<not> malformed f) fs))"

definition near_silence :: "vad_settings \<Rightarrow> pcm_frame list \<Rightarrow> bool" where
  "near_silence vs fs \<longleftrightarrow> turn_samples fs \<noteq> [] \<and> \<not> rms_at_least (vs_min_rms vs) (turn_samples fs)"

definition clear_claimed_turn :: "user_turn \<Rightarrow> user_turn" where
  "clear_claimed_turn ut =
     (reset_vad_window (ut\<lparr>ut_frames := [], ut_started := None, ut_seen := False, ut_silence := 0,
        ut_start_frame := None\<rparr>))\<lparr>ut_diag_count := 0\<rparr>"

definition clear_unheard_turn :: "user_turn \<Rightarrow> user_turn" where
  "clear_unheard_turn ut =
     (if ut_seen ut then ut
      else reset_vad_window (ut\<lparr>ut_frames := [], ut_started := None, ut_silence := 0,
             ut_start_frame := None\<rparr>))"

section \<open>What the window holds\<close>

definition window_ok :: "user_turn \<Rightarrow> bool" where
  "window_ok ut \<longleftrightarrow> ut_recent_count ut = length (vad_samples ut)"

lemma trim_recent_spec:
  "trim_recent limit cs (length (concat cs)) = (ds, n) \<Longrightarrow>
     n = length (concat ds) \<and> concat ds = drop (length (concat cs) - limit) (concat cs)"
proof (induction cs arbitrary: ds n)
  case (Cons c cs)
  show ?case
  proof (cases "limit < length (concat (c # cs)) \<and> length c \<le> length (concat (c # cs)) - limit")
    case True
    then have "trim_recent limit cs (length (concat cs)) = (ds, n)"
      using Cons.prems by (simp add: Let_def split: if_split_asm)
    from Cons.IH [OF this] show ?thesis using True by (auto simp: algebra_simps)
  next
    case False
    then show ?thesis using Cons.prems by (auto simp: Let_def split: if_split_asm)
  qed
qed simp

lemma append_vad_samples_spec:
  fixes xs all
  assumes "window_ok ut"
  defines "all \<equiv> vad_samples ut @ xs"
  shows "vad_samples (append_vad_samples limit xs ut) = drop (length all - limit) all"
    and "window_ok (append_vad_samples limit xs ut)"
proof -
  let ?cs = "ut_recent ut @ (if xs = [] then [] else [xs])"
  obtain ds n where t: "trim_recent limit ?cs (length (concat ?cs)) = (ds, n)"
    by (cases "trim_recent limit ?cs (length (concat ?cs))")
  have c: "concat ?cs = all"
    by (simp add: all_def vad_samples_def)
  have k: "ut_recent_count ut + length xs = length (concat ?cs)"
    using assms(1) by (simp add: window_ok_def vad_samples_def)
  have a: "append_vad_samples limit xs ut = ut\<lparr>ut_recent := ds, ut_recent_count := n\<rparr>"
    unfolding append_vad_samples_def Let_def k t by simp
  have d: "n = length (concat ds)" "concat ds = drop (length all - limit) all"
    using trim_recent_spec [OF t] unfolding c by blast+
  show "vad_samples (append_vad_samples limit xs ut) = drop (length all - limit) all"
    by (simp add: a vad_samples_def d(2))
  show "window_ok (append_vad_samples limit xs ut)"
    by (simp add: a window_ok_def vad_samples_def d(1))
qed

lemma window_okI:
  "window_ok ut \<Longrightarrow> ut_recent ut' = ut_recent ut \<Longrightarrow> ut_recent_count ut' = ut_recent_count ut
   \<Longrightarrow> window_ok ut'"
  by (simp add: window_ok_def vad_samples_def)

lemma accept_vad_frame_keeps:
  "ut_frames (snd (accept_vad_frame vs vad now f ut)) = ut_frames ut"
  "ut_hold_frames (snd (accept_vad_frame vs vad now f ut)) = ut_hold_frames ut"
proof -
  have grace: "ut_frames (snd (in_media_reconnect_grace now u)) = ut_frames u"
    "ut_hold_frames (snd (in_media_reconnect_grace now u)) = ut_hold_frames u" for u
    by (simp_all add: in_media_reconnect_grace_def)
  have over: "ut_frames (snd (turn_over vs now b u)) = ut_frames u"
    "ut_hold_frames (snd (turn_over vs now b u)) = ut_hold_frames u" for b u
    using grace [of u] by (simp_all add: turn_over_def split_beta)
  have diag: "ut_frames (snd (next_grace_diag_frame now u)) = ut_frames u"
    "ut_hold_frames (snd (next_grace_diag_frame now u)) = ut_hold_frames u" for u
    by (simp_all add: next_grace_diag_frame_def Let_def)
  have win: "ut_frames (append_vad_samples l xs u) = ut_frames u"
    "ut_hold_frames (append_vad_samples l xs u) = ut_hold_frames u" for l xs u
    by (simp_all add: append_vad_samples_def Let_def split_beta)
  show "ut_frames (snd (accept_vad_frame vs vad now f ut)) = ut_frames ut"
    "ut_hold_frames (snd (accept_vad_frame vs vad now f ut)) = ut_hold_frames ut"
    by (simp_all add: accept_vad_frame_def Let_def split_beta over diag win energy_step_def
        window_step_def split: vad.split)
qed

lemma append_frames_grow: "ut_frames (snd (append_frames vs vad now stamp fs over ut)) = ut_frames ut @ fs"
  by (induction fs arbitrary: over ut)
    (simp_all add: split_beta append_turn_frame_def Let_def accept_vad_frame_keeps)

lemma append_frames_hold:
  "ut_hold_frames (snd (append_frames vs vad now stamp fs over ut)) = ut_hold_frames ut"
  by (induction fs arbitrary: over ut)
    (simp_all add: split_beta append_turn_frame_def Let_def accept_vad_frame_keeps)

lemma release_frames:
  "ut_frames (snd (release_reconnect_live_frames vs vad now stamp ut)) = ut_frames ut @ ut_hold_frames ut"
  by (simp add: release_reconnect_live_frames_def append_frames_grow)

lemma window_run:
  fixes chunks :: "int list list" and limit :: nat
  defines "u \<equiv> \<lambda>cs. foldl (\<lambda>ut xs. append_vad_samples limit xs ut) new_turn cs"
  shows "window_ok (u chunks)
    \<and> vad_samples (u chunks) = drop (length (concat chunks) - limit) (concat chunks)"
proof (induction chunks rule: rev_induct)
  case Nil
  show ?case by (simp add: u_def new_turn_def window_ok_def vad_samples_def)
next
  case (snoc xs cs)
  let ?c = "concat cs"
  have w: "window_ok (u cs)" and v: "vad_samples (u cs) = drop (length ?c - limit) ?c"
    using snoc.IH by auto
  have step: "u (cs @ [xs]) = append_vad_samples limit xs (u cs)"
    by (simp add: u_def)
  have "length (drop (length ?c - limit) ?c @ xs) - limit + (length ?c - limit)
      = length (?c @ xs) - limit \<or> length ?c \<le> limit"
    by auto
  then have "drop (length (drop (length ?c - limit) ?c @ xs) - limit) (drop (length ?c - limit) ?c @ xs)
      = drop (length (?c @ xs) - limit) (?c @ xs)"
    by (auto simp: drop_drop)
  then show ?case
    using append_vad_samples_spec [OF w, of limit xs] by (simp add: step v)
qed

text \<open>
  The analysis window holds the last samples. Whatever chunks of samples were appended,
  trimming chunk by chunk as the code does leaves the same samples as keeping all of them and cutting
  the whole to its last \<open>limit\<close> ones, and the count it maintains is their number.
\<close>

theorem window_is_last_samples:
  "vad_samples (foldl (\<lambda>ut xs. append_vad_samples limit xs ut) new_turn chunks)
     = drop (length (concat chunks) - limit) (concat chunks)
   \<and> ut_recent_count (foldl (\<lambda>ut xs. append_vad_samples limit xs ut) new_turn chunks)
     = min limit (length (concat chunks))"
  using window_run [where limit = limit and chunks = chunks] by (auto simp: window_ok_def)

section \<open>Held frames and trailing silence\<close>

lemma hold_frames_run:
  "now < ut_hold_until ut \<Longrightarrow> 0 < ut_hold_until ut \<Longrightarrow>
     foldl (\<lambda>ut f. snd (hold_reconnect_live_frame vs vad now stamp f ut)) ut fs
       = (if fs = [] then ut
          else ut\<lparr>ut_hold_frames := ut_hold_frames ut @ fs, ut_hold_logged := True\<rparr>)"
  by (induction fs rule: rev_induct) (auto simp: hold_reconnect_live_frame_def)

lemma length_takeWhile_rev:
  assumes "k \<le> length (takeWhile P (rev xs))" "x \<in> set (drop (length xs - k) xs)"
  shows "P x"
proof -
  have "rev (drop (length xs - k) xs) = take k (rev xs)"
    by (cases "k \<le> length xs") (simp_all add: rev_drop)
  moreover have "take k (rev xs) = take k (takeWhile P (rev xs))"
    using assms(1) by (metis takeWhile_eq_take min.absorb1 take_take)
  ultimately have "x \<in> set (takeWhile P (rev xs))"
    using assms(2) by (metis in_set_takeD set_rev)
  then show ?thesis by (rule set_takeWhileD [THEN conjunct2])
qed

text \<open>
  Trailing silence is cut, speech is not. What goes to transcription is a prefix
  of the turn, never empty for a turn that is not, and every frame that was cut is below the energy
  threshold.
\<close>

theorem trim_keeps_speech:
  assumes "fs \<noteq> []"
  shows "\<exists>cut. fs = trim_trailing_silence vs fs @ cut \<and> trim_trailing_silence vs fs \<noteq> []
    \<and> list_all (\<lambda>f. \<not> frame_loud (max (vs_min_rms vs) 1) f) cut"
proof -
  let ?quiet = "\<lambda>f. \<not> frame_loud (max (vs_min_rms vs) 1) f"
  define t where "t = length (takeWhile ?quiet (rev fs))"
  define ms where "ms = max (length (fr_pcm (last fs)) div 2 * 1000 div max (fr_rate (last fs)) 1) 1"
  define n where "n = t - max (400 div ms) 1"
  have eq: "trim_trailing_silence vs fs
      = (if t = 0 then fs else if n = 0 \<or> length fs \<le> n then fs else take (length fs - n) fs)"
    unfolding trim_trailing_silence_def Let_def t_def ms_def n_def if_not_P [OF assms] by (rule refl)
  show ?thesis
  proof (cases "t = 0 \<or> n = 0 \<or> length fs \<le> n")
    case True
    then have "trim_trailing_silence vs fs = fs" using eq by auto
    then show ?thesis using assms by (intro exI [of _ "[]"]) simp
  next
    case False
    have "n \<le> length (takeWhile ?quiet (rev fs))"
      by (simp add: n_def t_def)
    then have "list_all ?quiet (drop (length fs - n) fs)"
      by (auto simp: list_all_iff dest: length_takeWhile_rev)
    moreover have "trim_trailing_silence vs fs = take (length fs - n) fs" "0 < length fs - n"
      using False eq by auto
    moreover have "take (length fs - n) fs \<noteq> []"
      using False assms by (cases fs) auto
    ultimately show ?thesis
      by (metis append_take_drop_id)
  qed
qed

theorem trim_keeps_speech_witness:
  "\<exists>cut. [\<lparr>fr_pcm = [0, 16], fr_rate = 16000\<rparr>, \<lparr>fr_pcm = [1, 0], fr_rate = 1\<rparr>, \<lparr>fr_pcm = [1, 0], fr_rate = 1\<rparr>]
     = trim_trailing_silence \<lparr>vs_threshold = 1, vs_end_silence = 500, vs_max_turn = 9000, vs_grace = 0, vs_min_rms = 25\<rparr>
         [\<lparr>fr_pcm = [0, 16], fr_rate = 16000\<rparr>, \<lparr>fr_pcm = [1, 0], fr_rate = 1\<rparr>, \<lparr>fr_pcm = [1, 0], fr_rate = 1\<rparr>] @ cut
     \<and> trim_trailing_silence \<lparr>vs_threshold = 1, vs_end_silence = 500, vs_max_turn = 9000, vs_grace = 0, vs_min_rms = 25\<rparr>
         [\<lparr>fr_pcm = [0, 16], fr_rate = 16000\<rparr>, \<lparr>fr_pcm = [1, 0], fr_rate = 1\<rparr>, \<lparr>fr_pcm = [1, 0], fr_rate = 1\<rparr>] \<noteq> []
     \<and> list_all (\<lambda>f. \<not> frame_loud (max 25 1) f) cut"
  using trim_keeps_speech [of "[\<lparr>fr_pcm = [0, 16], fr_rate = 16000\<rparr>, \<lparr>fr_pcm = [1, 0], fr_rate = 1\<rparr>, \<lparr>fr_pcm = [1, 0], fr_rate = 1\<rparr>]"
      "\<lparr>vs_threshold = 1, vs_end_silence = 500, vs_max_turn = 9000, vs_grace = 0, vs_min_rms = 25\<rparr>"]
  unfolding vad_settings.simps by simp

text \<open>
  Backfilled audio goes before the frames of the replacement track. While the hold
  lasts, live frames wait in order; when the backfill is in and the hold is released, the turn is
  what it was, then the backfill, then the held frames, none lost and none twice.
\<close>

theorem backfill_precedes_held_frames:
  assumes "0 < ut_hold_until ut" "now < ut_hold_until ut"
  shows "ut_frames (snd (release_reconnect_live_frames vs vad later stamp
           (snd (append_frames vs vad now stamp backfill False
             (foldl (\<lambda>ut f. snd (hold_reconnect_live_frame vs vad now stamp f ut)) ut live)))))
     = ut_frames ut @ backfill @ ut_hold_frames ut @ live"
proof -
  let ?h = "foldl (\<lambda>ut f. snd (hold_reconnect_live_frame vs vad now stamp f ut)) ut live"
  have h: "ut_frames ?h = ut_frames ut" "ut_hold_frames ?h = ut_hold_frames ut @ live"
    using hold_frames_run [of now ut vs vad stamp live] assms by auto
  have "ut_hold_frames (snd (append_frames vs vad now stamp backfill False u)) = ut_hold_frames u" for u
    by (rule append_frames_hold)
  then show ?thesis
    by (simp add: release_frames append_frames_grow h)
qed

theorem backfill_precedes_held_frames_witness:
  "ut_frames (snd (release_reconnect_live_frames
       \<lparr>vs_threshold = 1, vs_end_silence = 500, vs_max_turn = 9000, vs_grace = 0, vs_min_rms = 25\<rparr> No_vad 20 []
       (snd (append_frames
         \<lparr>vs_threshold = 1, vs_end_silence = 500, vs_max_turn = 9000, vs_grace = 0, vs_min_rms = 25\<rparr> No_vad 3 []
         [\<lparr>fr_pcm = [7, 7], fr_rate = 16000\<rparr>] False
         (foldl (\<lambda>ut f. snd (hold_reconnect_live_frame
             \<lparr>vs_threshold = 1, vs_end_silence = 500, vs_max_turn = 9000, vs_grace = 0, vs_min_rms = 25\<rparr> No_vad 3 [] f ut))
           (new_turn\<lparr>ut_hold_until := 12\<rparr>) [\<lparr>fr_pcm = [9, 9], fr_rate = 16000\<rparr>])))))
     = [\<lparr>fr_pcm = [7, 7], fr_rate = 16000\<rparr>, \<lparr>fr_pcm = [9, 9], fr_rate = 16000\<rparr>]"
  by (subst backfill_precedes_held_frames) (simp_all add: new_turn_def)

end
