(* ===== verification/SessionState.thy ===== *)
theory SessionState
  imports CallEvents TurnAudio SpeechLedger
begin

text \<open>
  The state of a \<open>CallSession\<close> (\<open>ai-backend/app/call/session.py\<close>): its dataclasses as records and
  the object itself, grouped by what one critical section touches. An object that the code only
  compares by identity (a peer connection, a track, a data channel, an adapter, a task, a lease
  releaser) is a number. An admission is named by its token and a switch by its generation: both
  come from counters, so that equality of the model is identity in the code.
\<close>

type_synonym py_object = nat

datatype call_state =
    Listening | Understanding | Thinking | Rehearsing | Speaking | Interrupted | Reconnecting
  | Ended | Failed

datatype phase = Stable | Switching | Reconnect_phase | Terminal

definition over_state :: "call_state \<Rightarrow> bool" where
  "over_state s \<longleftrightarrow> s = Ended \<or> s = Failed"

definition state_name :: "call_state \<Rightarrow> ptext" where
  "state_name s = lit (case s of Listening \<Rightarrow> ''listening'' | Understanding \<Rightarrow> ''understanding''
     | Thinking \<Rightarrow> ''thinking'' | Rehearsing \<Rightarrow> ''rehearsing'' | Speaking \<Rightarrow> ''speaking''
     | Interrupted \<Rightarrow> ''interrupted'' | Reconnecting \<Rightarrow> ''reconnecting'' | Ended \<Rightarrow> ''ended''
     | Failed \<Rightarrow> ''failed'')"

datatype session_error =
    Terminal_call string
  | Switch_in_progress string
  | Selection_rejected string
  | Ledger_error speech_error

record accepted_configuration =
  ac_epoch :: nat
  ac_voice :: string
  ac_engine :: string

record offer_configuration =
  of_thread :: string
  of_voice :: string
  of_engine :: string
  of_prompts :: "event list"
  of_vad :: "py_object option"
  of_stt :: "py_object option"

record candidate =
  cd_peer :: py_object
  cd_generation :: nat
  cd_epoch :: nat
  cd_track :: "py_object option"
  cd_channel :: "py_object option"
  cd_timeout :: bool
  cd_config :: "offer_configuration option"

record captured_cancellation =
  cc_task :: "py_object option"
  cc_turn :: "string option"
  cc_request :: "string option"
  cc_adapter :: "py_object option"
  cc_metrics :: "py_object option"
  cc_pending_turn :: "string option"
  cc_pending_final :: "event option"

record switch_transaction =
  sw_generation :: nat
  sw_candidate_generation :: nat
  sw_peer :: py_object
  sw_previous_peer :: "py_object option"
  sw_previous_track :: "py_object option"
  sw_accepted_track :: "py_object option"
  sw_accepted_channel :: "py_object option"
  sw_config :: "offer_configuration option"
  sw_cancellation :: "captured_cancellation option"
  sw_releaser :: "py_object option"
  sw_state_before :: call_state
  sw_stt_tokens :: "nat list"

text \<open>\<open>lf_events\<close> holds the generations of the candidates whose admission event is set.\<close>

record lifecycle =
  lf_epoch :: nat
  lf_phase :: phase
  lf_candidate_generation :: nat
  lf_candidate :: "candidate option"
  lf_active_generation :: nat
  lf_switch_generation :: nat
  lf_switch_owner :: "py_object option"
  lf_switch_task :: "nat option"
  lf_switch :: "switch_transaction option"
  lf_last_generation :: "nat option"
  lf_last_outcome :: "string option"
  lf_retiring_peer :: "py_object option"
  lf_retiring_generation :: "nat option"
  lf_terminal_state :: "string option"
  lf_state_before :: "call_state option"
  lf_grace_peer :: "py_object option"
  lf_grace_task :: "(nat \<times> py_object) option"
  lf_events :: "nat set"

record speech_admission =
  sa_token :: nat
  sa_epoch :: nat
  sa_turn :: string
  sa_request :: string
  sa_adapter :: "py_object option"
  sa_task :: "py_object option"

text \<open>\<open>sd_done\<close> holds the tokens of the admissions whose \<open>done\<close> event is set.\<close>

record speech_desk =
  sd_generation :: nat
  sd_admission :: "speech_admission option"
  sd_done :: "nat set"
  sd_task :: "py_object option"
  sd_adapter :: "py_object option"
  sd_request :: "string option"
  sd_turn :: "string option"
  sd_cancel_requested :: bool
  sd_metrics :: "py_object option"
  sd_last_cancel :: "event option"
  sd_pending_turn :: "string option"
  sd_pending_voice :: "string option"
  sd_pending_engine :: "string option"
  sd_pending_final :: "event option"
  sd_cancelled :: "string set"
  sd_cancelling :: "string set"

record stt_admission =
  st_epoch :: nat
  st_reconnect :: bool
  st_running :: bool
  st_owner :: "call_state option"

record stt_settlement =
  se_token :: nat
  se_entry :: nat
  se_pending :: call_state
  se_success :: call_state

record stt_finalization =
  fz_token :: nat
  fz_frames :: "pcm_frame list"
  fz_started :: ptext

record stt_desk =
  tq_generation :: nat
  tq_admissions :: "(nat, stt_admission) dict"
  tq_active :: "stt_finalization option"
  tq_settlement :: "stt_settlement option"

record backfill_admission =
  ba_epoch :: nat
  ba_audio_epoch :: nat

record backfill_desk =
  bk_active :: nat
  bk_generation :: nat
  bk_admissions :: "(nat, backfill_admission) dict"
  bk_ids :: "ptext set"
  bk_epochs :: "(ptext, nat) dict"

record lease_cleanup =
  lc_releaser :: py_object
  lc_reason :: string
  lc_attempts :: nat
  lc_released :: bool

record lease_handoff =
  lh_releaser :: py_object
  lh_config :: "accepted_configuration option"
  lh_finished :: bool
  lh_installed :: bool
  lh_cleanup :: "nat option"

text \<open>
  The releaser in force, and the owned clean-ups and hand-offs by the number the model gives each
  object.
\<close>

record lease_desk =
  ls_releaser :: "py_object option"
  ls_counter :: nat
  ls_cleanups :: "(nat, lease_cleanup) dict"
  ls_handoffs :: "(nat, lease_handoff) dict"

record terminal_cleanup =
  tc_cause :: ptext
  tc_active_peer :: py_object
  tc_candidate_peer :: "py_object option"
  tc_releaser :: "py_object option"
  tc_cancel_pending :: bool
  tc_owned_peers :: "py_object list"
  tc_owned_tracks :: "py_object list"
  tc_lease_cleanups :: "nat list"
  tc_lease_handoffs :: "nat list"
  tc_extra_peers :: "py_object list"
  tc_extra_tracks :: "py_object list"
  tc_active_pending :: bool
  tc_candidate_pending :: bool
  tc_lease_pending :: bool
  tc_cancel_context :: event
  tc_attempts :: nat
  tc_timed_out :: bool

record terminal_outcome =
  to_state :: call_state
  to_reason :: ptext
  to_event :: "event option"
  to_commit :: nat

record session =
  session_id :: ptext
  thread_id :: "string option"
  voice_id :: "string option"
  engine_id :: "string option"
  prompt_messages :: "event list"
  vad_adapter :: "py_object option"
  stt_adapter :: "py_object option"
  peer_connection :: py_object
  data_channel :: "py_object option"
  outbound_track :: "py_object option"
  cv_state :: call_state
  muted :: bool
  mute_revision :: nat
  audio_epoch :: nat
  incoming_frames :: nat
  dropped_frames :: nat
  ended_at :: bool
  end_reason :: "ptext option"
  was_interrupted :: bool
  turn_index :: nat
  life :: lifecycle
  audio :: user_turn
  stt :: stt_desk
  tts :: speech_desk
  speech_of :: "event speech"
  cancel_tasks :: "string set"
  backfills :: backfill_desk
  leases :: lease_desk
  outbox_of :: outbox
  cleanup :: "terminal_cleanup option"
  outcome :: "terminal_outcome option"

section \<open>The new session\<close>

definition new_lifecycle :: lifecycle where
  "new_lifecycle = \<lparr>lf_epoch = 0, lf_phase = Stable, lf_candidate_generation = 0,
     lf_candidate = None, lf_active_generation = 0, lf_switch_generation = 0,
     lf_switch_owner = None, lf_switch_task = None, lf_switch = None, lf_last_generation = None,
     lf_last_outcome = None, lf_retiring_peer = None, lf_retiring_generation = None,
     lf_terminal_state = None, lf_state_before = None, lf_grace_peer = None, lf_grace_task = None,
     lf_events = {}\<rparr>"

definition new_speech_desk :: speech_desk where
  "new_speech_desk = \<lparr>sd_generation = 0, sd_admission = None, sd_done = {}, sd_task = None,
     sd_adapter = None, sd_request = None, sd_turn = None, sd_cancel_requested = False,
     sd_metrics = None, sd_last_cancel = None, sd_pending_turn = None, sd_pending_voice = None,
     sd_pending_engine = None, sd_pending_final = None, sd_cancelled = {}, sd_cancelling = {}\<rparr>"

definition new_session ::
  "ptext \<Rightarrow> string option \<Rightarrow> string option \<Rightarrow> string option \<Rightarrow> event list \<Rightarrow> py_object
   \<Rightarrow> py_object option \<Rightarrow> py_object option \<Rightarrow> py_object option \<Rightarrow> py_object option \<Rightarrow> session" where
  "new_session sid thread voice engine prompts peer chan vad stt_model track = \<lparr>session_id = sid, thread_id = thread,
     voice_id = voice, engine_id = engine, prompt_messages = prompts, vad_adapter = vad,
     stt_adapter = stt_model, peer_connection = peer, data_channel = chan, outbound_track = track,
     cv_state = Listening, muted = False, mute_revision = 0, audio_epoch = 0, incoming_frames = 0,
     dropped_frames = 0, ended_at = False, end_reason = None, was_interrupted = False,
     turn_index = 0, life = new_lifecycle, audio = new_turn,
     stt = \<lparr>tq_generation = 0, tq_admissions = [], tq_active = None, tq_settlement = None\<rparr>,
     tts = new_speech_desk, speech_of = init_speech, cancel_tasks = {},
     backfills = \<lparr>bk_active = 0, bk_generation = 0, bk_admissions = [], bk_ids = {}, bk_epochs = []\<rparr>,
     leases = \<lparr>ls_releaser = None, ls_counter = 0, ls_cleanups = [], ls_handoffs = []\<rparr>,
     outbox_of = new_outbox, cleanup = None, outcome = None\<rparr>"

section \<open>Guards and small steps that several operations share\<close>

definition call_over :: "session \<Rightarrow> bool" where
  "call_over s \<longleftrightarrow> ended_at s \<or> lf_phase (life s) = Terminal \<or> over_state (cv_state s)"

definition session_stats :: "session \<Rightarrow> ptext \<times> ptext \<times> bool \<times> nat \<times> nat \<times> nat" where
  "session_stats s = (session_id s, state_name (cv_state s), muted s, incoming_frames s,
     dropped_frames s, ob_discards (outbox_of s))"

definition commit_session_event :: "event option \<Rightarrow> session \<Rightarrow> nat \<times> session" where
  "commit_session_event e s =
     (fst (commit_event e (outbox_of s)), s\<lparr>outbox_of := snd (commit_event e (outbox_of s))\<rparr>)"

definition clear_pending_speech_terminal :: "speech_desk \<Rightarrow> speech_desk" where
  "clear_pending_speech_terminal d =
     d\<lparr>sd_pending_turn := None, sd_pending_voice := None, sd_pending_engine := None,
       sd_pending_final := None\<rparr>"

definition or_else :: "'a option \<Rightarrow> 'a option \<Rightarrow> 'a option" where
  "or_else a b = (case a of None \<Rightarrow> b | Some x \<Rightarrow> Some x)"

text \<open>The same for text, where the empty string is false as well.\<close>

definition or_text :: "string option \<Rightarrow> string option \<Rightarrow> string option" where
  "or_text a b = (if a = None \<or> a = Some [] then b else a)"

definition capture_turn_cancellation :: "speech_desk \<Rightarrow> captured_cancellation" where
  "capture_turn_cancellation d =
     (let adm = sd_admission d;
          turn = or_text (sd_turn d) (or_text (sd_pending_turn d) (map_option sa_turn adm)) in
      \<lparr>cc_task = or_else (sd_task d) (case adm of None \<Rightarrow> None | Some a \<Rightarrow> sa_task a),
       cc_turn = turn,
       cc_request = or_text (sd_request d) (map_option sa_request adm),
       cc_adapter = or_else (sd_adapter d) (case adm of None \<Rightarrow> None | Some a \<Rightarrow> sa_adapter a),
       cc_metrics = (if sd_request d \<noteq> None \<and> turn = sd_turn d then sd_metrics d else None),
       cc_pending_turn = sd_pending_turn d,
       cc_pending_final = sd_pending_final d\<rparr>)"

definition speech_in_progress :: "speech_desk \<Rightarrow> bool" where
  "speech_in_progress d \<longleftrightarrow>
     sd_admission d \<noteq> None \<or> sd_task d \<noteq> None \<or> sd_turn d \<noteq> None \<or> sd_pending_turn d \<noteq> None"

end
