(* ===== verification/TerminalCall.thy ===== *)
theory TerminalCall
  imports SessionState
begin

text \<open>
  The end of a call (\<open>ai-backend/app/call/session.py\<close>): \<open>_transition_terminal_locked\<close>, the one
  place where a session becomes terminal, \<open>end\<close> and \<open>fail\<close>, the publication of the outcome, and
  the pending work that the clean-up of a terminal call owns.
\<close>

section \<open>Peer bookkeeping\<close>

definition cancel_pending_peer_timeout :: "lifecycle \<Rightarrow> lifecycle" where
  "cancel_pending_peer_timeout l =
     l\<lparr>lf_candidate := map_option (\<lambda>c. c\<lparr>cd_timeout := False\<rparr>) (lf_candidate l)\<rparr>"

definition clear_pending_peer :: "py_object \<Rightarrow> lifecycle \<Rightarrow> lifecycle" where
  "clear_pending_peer p l =
     (case lf_candidate l of
        None \<Rightarrow> l
      | Some c \<Rightarrow> if cd_peer c \<noteq> p then l
          else l\<lparr>lf_candidate := None, lf_events := insert (cd_generation c) (lf_events l)\<rparr>)"

definition cancel_reconnect_grace :: "lifecycle \<Rightarrow> lifecycle" where
  "cancel_reconnect_grace l = l\<lparr>lf_grace_task := None\<rparr>"

section \<open>The transition\<close>

definition add_unique :: "'a option \<Rightarrow> 'a list \<Rightarrow> 'a list" where
  "add_unique v xs = (case v of None \<Rightarrow> xs | Some x \<Rightarrow> if x \<in> set xs then xs else xs @ [x])"

definition add_all :: "'a option list \<Rightarrow> 'a list \<Rightarrow> 'a list" where
  "add_all vs xs = foldl (\<lambda>ys v. add_unique v ys) xs vs"

definition terminal_extra_peers :: "py_object list \<Rightarrow> session \<Rightarrow> py_object list" where
  "terminal_extra_peers extra s =
     (let l = life s;
          cand = map_option cd_peer (lf_candidate l);
          all = add_all (map Some extra @ [lf_retiring_peer l]
                  @ (case lf_switch l of None \<Rightarrow> []
                     | Some sw \<Rightarrow> [sw_previous_peer sw, Some (sw_peer sw)])) [] in
      filter (\<lambda>p. p \<noteq> peer_connection s \<and> Some p \<noteq> cand) all)"

definition terminal_extra_tracks :: "py_object list \<Rightarrow> session \<Rightarrow> py_object list" where
  "terminal_extra_tracks extra s =
     (let l = life s in
      add_all (map Some extra
        @ (case lf_switch l of None \<Rightarrow> [] | Some sw \<Rightarrow> [sw_previous_track sw, sw_accepted_track sw])
        @ (case lf_candidate l of None \<Rightarrow> [] | Some c \<Rightarrow> [cd_track c])) [])"

definition terminal_lifecycle :: "lifecycle \<Rightarrow> lifecycle" where
  "terminal_lifecycle l =
     (let l1 = cancel_reconnect_grace
            (l\<lparr>lf_epoch := Suc (lf_epoch l), lf_phase := Terminal, lf_switch_owner := None,
               lf_switch_task := None, lf_switch := None, lf_retiring_peer := None,
               lf_retiring_generation := None, lf_terminal_state := None, lf_state_before := None,
               lf_grace_peer := None\<rparr>) in
      case lf_candidate l of None \<Rightarrow> l1 | Some c \<Rightarrow> clear_pending_peer (cd_peer c) l1)"

definition owned_cleanups :: "lease_desk \<Rightarrow> nat list" where
  "owned_cleanups d = map fst (filter (\<lambda>(n, c). \<not> lc_released c) (ls_cleanups d))"

definition handoff_released :: "lease_desk \<Rightarrow> lease_handoff \<Rightarrow> bool" where
  "handoff_released d h = (case lh_cleanup h of None \<Rightarrow> False
     | Some n \<Rightarrow> (case dget (ls_cleanups d) n of None \<Rightarrow> False | Some c \<Rightarrow> lc_released c))"

definition owned_handoffs :: "lease_desk \<Rightarrow> nat list" where
  "owned_handoffs d = map fst (filter (\<lambda>(n, h). \<not> lh_installed h \<and> \<not> handoff_released d h) (ls_handoffs d))"

definition cancel_every_turn :: "event speech \<Rightarrow> event speech" where
  "cancel_every_turn sp = foldl (\<lambda>q t. cancel_tts_turn_locked t q) sp (map fst (turn_ledgers sp))"

definition cancel_cause :: "call_state \<Rightarrow> ptext \<Rightarrow> ptext" where
  "cancel_cause target reason = (if target = Failed then lit ''connection_failure''
     else if reason = lit ''removed'' then lit ''session_close'' else reason)"

definition new_cleanup ::
  "call_state \<Rightarrow> ptext \<Rightarrow> py_object list \<Rightarrow> py_object list \<Rightarrow> session \<Rightarrow> terminal_cleanup" where
  "new_cleanup target reason xpeers xtracks s =
     (let cand = map_option cd_peer (lf_candidate (life s)) in
      \<lparr>tc_cause = cancel_cause target reason,
       tc_active_peer = peer_connection s,
       tc_candidate_peer = cand,
       tc_releaser = ls_releaser (leases s),
       tc_cancel_pending = speech_in_progress (tts s),
       tc_owned_peers = peer_connection s # (case cand of None \<Rightarrow> [] | Some p \<Rightarrow> [p]) @ xpeers,
       tc_owned_tracks = xtracks,
       tc_lease_cleanups = owned_cleanups (leases s),
       tc_lease_handoffs = owned_handoffs (leases s),
       tc_extra_peers = xpeers,
       tc_extra_tracks = xtracks,
       tc_active_pending = True,
       tc_candidate_pending = (cand \<noteq> None \<and> cand \<noteq> Some (peer_connection s)),
       tc_lease_pending = (ls_releaser (leases s) \<noteq> None),
       tc_cancel_context = [], tc_attempts = 0, tc_timed_out = False\<rparr>)"

definition transition_terminal_locked ::
  "call_state \<Rightarrow> ptext \<Rightarrow> py_object list \<Rightarrow> py_object list \<Rightarrow> session \<Rightarrow> bool \<times> session" where
  "transition_terminal_locked target reason xpeers xtracks s =
     (if ended_at s \<or> lf_phase (life s) = Terminal then (False, s)
      else
        let c = new_cleanup target reason (terminal_extra_peers xpeers s)
                  (terminal_extra_tracks xtracks s) s;
            (n, s1) = commit_session_event None s in
        (True, s1\<lparr>life := terminal_lifecycle (life s),
                  leases := (leases s)\<lparr>ls_releaser := None\<rparr>,
                  ended_at := True, end_reason := Some reason, cv_state := target,
                  speech_of := cancel_every_turn (speech_of s),
                  cleanup := Some c,
                  outcome := Some \<lparr>to_state = target, to_reason = reason, to_event = None,
                                   to_commit = n\<rparr>\<rparr>))"

text \<open>\<open>end\<close> and \<open>fail\<close>; \<open>end\<close> records its reason also on a session without an outcome.\<close>

definition end_call :: "ptext \<Rightarrow> session \<Rightarrow> session" where
  "end_call reason s =
     (let s1 = snd (transition_terminal_locked Ended reason [] [] s) in
      if outcome s1 = None \<and> end_reason s1 = None then s1\<lparr>end_reason := Some reason\<rparr> else s1)"

definition fail_call :: "ptext \<Rightarrow> session \<Rightarrow> session" where
  "fail_call reason s = snd (transition_terminal_locked Failed reason [] [] s)"

definition outcome_event :: "ptext \<Rightarrow> terminal_outcome \<Rightarrow> event \<Rightarrow> event" where
  "outcome_event sid o_rec ctx =
     (if to_state o_rec = Failed
      then simple_event failed_type sid None
             ([(lit ''code'', PStr (to_reason o_rec)), (lit ''message'', pstr ''Call session failed.''),
               (lit ''retry_allowed'', PBool True)] @ ctx)
      else simple_event ended_type sid None ((lit ''reason'', PStr (to_reason o_rec)) # ctx))"

text \<open>What a reentrant event sink gets before the outcome is published.\<close>

definition terminal_event_before_delivery :: "ptext \<Rightarrow> terminal_outcome \<Rightarrow> event" where
  "terminal_event_before_delivery sid o_rec =
     (case to_event o_rec of Some e \<Rightarrow> e | None \<Rightarrow> outcome_event sid o_rec [])"

definition publish_begin :: "event \<Rightarrow> session \<Rightarrow> session" where
  "publish_begin ctx s =
     (case outcome s of
        None \<Rightarrow> s
      | Some o_rec \<Rightarrow>
          if to_event o_rec \<noteq> None then s
          else s\<lparr>outbox_of := resolve_event_commit (to_commit o_rec)
                    (outcome_event (session_id s) o_rec ctx) (outbox_of s)\<rparr>)"

definition publish_end :: "session \<Rightarrow> session" where
  "publish_end s =
     (case outcome s of
        None \<Rightarrow> s
      | Some o_rec \<Rightarrow>
          (case dget (ob_done (outbox_of s)) (to_commit o_rec) of
             None \<Rightarrow> s
           | Some (e, r) \<Rightarrow>
               if to_event o_rec = None then s\<lparr>outcome := Some (o_rec\<lparr>to_event := Some r\<rparr>)\<rparr> else s))"

section \<open>What a clean-up still owns\<close>

definition terminal_cleanup_pending :: "terminal_cleanup \<Rightarrow> bool" where
  "terminal_cleanup_pending c \<longleftrightarrow> tc_cancel_pending c \<or> tc_active_pending c \<or> tc_candidate_pending c
     \<or> tc_lease_pending c \<or> tc_lease_cleanups c \<noteq> [] \<or> tc_lease_handoffs c \<noteq> []
     \<or> tc_extra_peers c \<noteq> [] \<or> tc_extra_tracks c \<noteq> []"

definition pending_steps :: "terminal_cleanup \<Rightarrow> string list" where
  "pending_steps c =
     (if tc_cancel_pending c then [''cancel''] else [])
     @ (if tc_active_pending c then [''active_peer''] else [])
     @ (if tc_candidate_pending c then [''candidate_peer''] else [])
     @ (if tc_lease_pending c then [''prompt_lease''] else [])
     @ (if tc_lease_cleanups c \<noteq> [] then [''owned_prompt_lease:'' @ nat_str (length (tc_lease_cleanups c))] else [])
     @ (if tc_lease_handoffs c \<noteq> [] then [''prompt_lease_handoff:'' @ nat_str (length (tc_lease_handoffs c))] else [])
     @ (if tc_extra_peers c \<noteq> [] then [''extra_peer:'' @ nat_str (length (tc_extra_peers c))] else [])
     @ (if tc_extra_tracks c \<noteq> [] then [''extra_track:'' @ nat_str (length (tc_extra_tracks c))] else [])"

lemma pending_steps_iff: "pending_steps c = [] \<longleftrightarrow> \<not> terminal_cleanup_pending c"
  by (simp add: pending_steps_def terminal_cleanup_pending_def)

section \<open>The transition happens once\<close>

lemma transition_terminal_again:
  "ended_at s \<Longrightarrow> transition_terminal_locked target reason xp xt s = (False, s)"
  by (simp add: transition_terminal_locked_def)

lemma transition_terminal_effect:
  fixes target reason xp xt
  assumes "\<not> ended_at s" "lf_phase (life s) \<noteq> Terminal"
  defines "t \<equiv> snd (transition_terminal_locked target reason xp xt s)"
  shows "ended_at t" "lf_phase (life t) = Terminal" "cv_state t = target" "end_reason t = Some reason"
    "outcome t = Some \<lparr>to_state = target, to_reason = reason, to_event = None,
       to_commit = Suc (ob_sequence (outbox_of s))\<rparr>"
    "lf_candidate (life t) = None" "lf_switch (life t) = None" "lf_grace_task (life t) = None"
  using assms(1,2)
  by (simp_all add: t_def transition_terminal_locked_def Let_def commit_session_event_def
      commit_event_def terminal_lifecycle_def clear_pending_peer_def cancel_reconnect_grace_def
      split: option.split)

lemma add_unique_set [simp]: "set (add_unique v xs) = set_option v \<union> set xs"
  by (auto simp: add_unique_def split: option.split)

lemma add_all_set [simp]: "set (add_all vs xs) = (\<Union>v\<in>set vs. set_option v) \<union> set xs"
  by (induction vs arbitrary: xs) (auto simp: add_all_def)

lemma add_all_distinct: "distinct xs \<Longrightarrow> distinct (add_all vs xs)"
  by (induction vs arbitrary: xs) (auto simp: add_all_def add_unique_def split: option.split)

end
