(* ===== verification/TerminalCleanup.thy ===== *)
theory TerminalCleanup
  imports TerminalCall
begin

text \<open>
  The clean-up of a terminal call (\<open>_run_terminal_cleanup\<close>, the bounded loop of
  \<open>_run_terminal_transaction\<close> and \<open>_retry_terminal_cleanup_until_resolved\<close> of
  \<open>ai-backend/app/call/session.py\<close>). What the closed, stopped and released objects do is a
  parameter, the \<open>cleanup_world\<close> of one pass; a pass returns the calls it made with their results.
\<close>

section \<open>One pass\<close>

datatype step_result = Step_ok | Step_raised | Step_timed_out

datatype cleanup_call =
    Cancel_turn | Close_peer py_object | Stop_track py_object | Release_lease

text \<open>
  What a pass finds when it has waited for an owned lease clean-up, and for a lease hand-off: a
  hand-off is over, times out, has finished with a clean-up of its own, or has finished without.
\<close>

datatype lease_report = Lease_released | Lease_timed_out | Lease_kept

datatype handoff_report = Handoff_over | Handoff_timed_out | Handoff_passes nat | Handoff_kept

record cleanup_world =
  cw_result :: "cleanup_call \<Rightarrow> step_result"
  cw_stoppable :: "py_object \<Rightarrow> bool"
  cw_context :: event
  cw_lease :: "nat \<Rightarrow> lease_report"
  cw_handoff :: "nat \<Rightarrow> handoff_report"

type_synonym calls = "(cleanup_call \<times> step_result) list"

definition note_call :: "cleanup_world \<Rightarrow> cleanup_call \<Rightarrow> terminal_cleanup \<Rightarrow> terminal_cleanup" where
  "note_call w k c = c\<lparr>tc_timed_out := (tc_timed_out c \<or> cw_result w k = Step_timed_out)\<rparr>"

definition cancel_step :: "cleanup_world \<Rightarrow> terminal_cleanup \<Rightarrow> calls \<times> terminal_cleanup" where
  "cancel_step w c =
     (if \<not> tc_cancel_pending c then ([], c)
      else ([(Cancel_turn, cw_result w Cancel_turn)],
            if cw_result w Cancel_turn = Step_ok
            then c\<lparr>tc_cancel_context := cw_context w, tc_cancel_pending := False\<rparr>
            else note_call w Cancel_turn c))"

definition active_peer_step :: "cleanup_world \<Rightarrow> terminal_cleanup \<Rightarrow> calls \<times> terminal_cleanup" where
  "active_peer_step w c =
     (let k = Close_peer (tc_active_peer c) in
      if \<not> tc_active_pending c then ([], c)
      else ([(k, cw_result w k)],
            if cw_result w k = Step_ok then c\<lparr>tc_active_pending := False\<rparr> else note_call w k c))"

definition candidate_peer_step :: "cleanup_world \<Rightarrow> terminal_cleanup \<Rightarrow> calls \<times> terminal_cleanup" where
  "candidate_peer_step w c =
     (case tc_candidate_peer c of
        None \<Rightarrow> ([], c)
      | Some p \<Rightarrow>
          let k = Close_peer p in
          if \<not> tc_candidate_pending c then ([], c)
          else ([(k, cw_result w k)],
                if cw_result w k = Step_ok then c\<lparr>tc_candidate_pending := False\<rparr> else note_call w k c))"

fun extra_peers_step :: "cleanup_world \<Rightarrow> py_object list \<Rightarrow> terminal_cleanup \<Rightarrow> calls \<times> terminal_cleanup" where
  "extra_peers_step w [] c = ([], c)"
| "extra_peers_step w (p # ps) c =
     (let k = Close_peer p;
          c1 = (if cw_result w k = Step_ok then c\<lparr>tc_extra_peers := remove1 p (tc_extra_peers c)\<rparr>
                else note_call w k c);
          (cs, c2) = extra_peers_step w ps c1 in
      ((k, cw_result w k) # cs, c2))"

fun extra_tracks_step :: "cleanup_world \<Rightarrow> py_object list \<Rightarrow> terminal_cleanup \<Rightarrow> calls \<times> terminal_cleanup" where
  "extra_tracks_step w [] c = ([], c)"
| "extra_tracks_step w (t # ts) c =
     (let k = Stop_track t in
      if \<not> cw_stoppable w t
      then extra_tracks_step w ts (c\<lparr>tc_extra_tracks := remove1 t (tc_extra_tracks c)\<rparr>)
      else
        let c1 = (if cw_result w k = Step_ok then c\<lparr>tc_extra_tracks := remove1 t (tc_extra_tracks c)\<rparr>
                  else note_call w k c);
            (cs, c2) = extra_tracks_step w ts c1 in
        ((k, cw_result w k) # cs, c2))"

definition prompt_lease_step :: "cleanup_world \<Rightarrow> terminal_cleanup \<Rightarrow> calls \<times> terminal_cleanup" where
  "prompt_lease_step w c =
     (if \<not> tc_lease_pending c \<or> tc_releaser c = None then ([], c)
      else ([(Release_lease, cw_result w Release_lease)],
            if cw_result w Release_lease = Step_ok then c\<lparr>tc_lease_pending := False\<rparr>
            else note_call w Release_lease c))"

fun lease_cleanups_step :: "cleanup_world \<Rightarrow> nat list \<Rightarrow> terminal_cleanup \<Rightarrow> terminal_cleanup" where
  "lease_cleanups_step w [] c = c"
| "lease_cleanups_step w (n # ns) c =
     lease_cleanups_step w ns
       (case cw_lease w n of
          Lease_released \<Rightarrow> c\<lparr>tc_lease_cleanups := remove1 n (tc_lease_cleanups c)\<rparr>
        | Lease_timed_out \<Rightarrow> c\<lparr>tc_timed_out := True\<rparr>
        | Lease_kept \<Rightarrow> c)"

fun handoffs_step :: "cleanup_world \<Rightarrow> nat list \<Rightarrow> terminal_cleanup \<Rightarrow> terminal_cleanup" where
  "handoffs_step w [] c = c"
| "handoffs_step w (n # ns) c =
     handoffs_step w ns
       (case cw_handoff w n of
          Handoff_over \<Rightarrow> c\<lparr>tc_lease_handoffs := remove1 n (tc_lease_handoffs c)\<rparr>
        | Handoff_timed_out \<Rightarrow> c\<lparr>tc_timed_out := True\<rparr>
        | Handoff_passes k \<Rightarrow> c\<lparr>tc_lease_cleanups := add_unique (Some k) (tc_lease_cleanups c),
                               tc_lease_handoffs := remove1 n (tc_lease_handoffs c)\<rparr>
        | Handoff_kept \<Rightarrow> c)"

definition run_terminal_cleanup :: "cleanup_world \<Rightarrow> terminal_cleanup \<Rightarrow> calls \<times> terminal_cleanup" where
  "run_terminal_cleanup w c0 =
     (let c = c0\<lparr>tc_attempts := Suc (tc_attempts c0), tc_timed_out := False\<rparr>;
          (l1, c1) = cancel_step w c;
          (l2, c2) = active_peer_step w c1;
          (l3, c3) = candidate_peer_step w c2;
          (l4, c4) = extra_peers_step w (tc_extra_peers c3) c3;
          (l5, c5) = extra_tracks_step w (tc_extra_tracks c4) c4;
          (l6, c6) = prompt_lease_step w c5;
          c7 = lease_cleanups_step w (tc_lease_cleanups c6) c6;
          c8 = handoffs_step w (tc_lease_handoffs c7) c7 in
      (l1 @ l2 @ l3 @ l4 @ l5 @ l6, c8))"

section \<open>The loops\<close>

text \<open>
  The passes of the terminal transaction, \<open>k\<close> of them at most, and those of the retry task until
  the 32nd attempt. The world of a pass is the one of its attempt number.
\<close>

fun transaction_passes ::
  "nat \<Rightarrow> (nat \<Rightarrow> cleanup_world) \<Rightarrow> terminal_cleanup \<Rightarrow> calls \<times> terminal_cleanup" where
  "transaction_passes 0 ws c = ([], c)"
| "transaction_passes (Suc k) ws c =
     (let (l1, c1) = run_terminal_cleanup (ws (tc_attempts c)) c in
      if \<not> terminal_cleanup_pending c1 \<or> tc_timed_out c1 then (l1, c1)
      else let (l2, c2) = transaction_passes k ws c1 in (l1 @ l2, c2))"

definition retry_limit :: nat where
  "retry_limit = 32"

lemma cleanup_attempts:
  "tc_attempts (snd (cancel_step w c)) = tc_attempts c"
  "tc_attempts (snd (active_peer_step w c)) = tc_attempts c"
  "tc_attempts (snd (candidate_peer_step w c)) = tc_attempts c"
  "tc_attempts (snd (prompt_lease_step w c)) = tc_attempts c"
  "tc_attempts (snd (extra_peers_step w ps c)) = tc_attempts c"
  "tc_attempts (snd (extra_tracks_step w ts c)) = tc_attempts c"
  "tc_attempts (lease_cleanups_step w ns c) = tc_attempts c"
  "tc_attempts (handoffs_step w ns c) = tc_attempts c"
proof -
  show "tc_attempts (snd (cancel_step w c)) = tc_attempts c"
    "tc_attempts (snd (active_peer_step w c)) = tc_attempts c"
    "tc_attempts (snd (candidate_peer_step w c)) = tc_attempts c"
    "tc_attempts (snd (prompt_lease_step w c)) = tc_attempts c"
    by (simp_all add: cancel_step_def active_peer_step_def candidate_peer_step_def
        prompt_lease_step_def note_call_def Let_def split: option.split)
  show "tc_attempts (snd (extra_peers_step w ps c)) = tc_attempts c"
    by (induction ps arbitrary: c) (simp_all add: Let_def split_beta note_call_def)
  show "tc_attempts (snd (extra_tracks_step w ts c)) = tc_attempts c"
    by (induction ts arbitrary: c) (simp_all add: Let_def split_beta note_call_def)
  show "tc_attempts (lease_cleanups_step w ns c) = tc_attempts c"
    by (induction ns arbitrary: c) (simp_all split: lease_report.split)
  show "tc_attempts (handoffs_step w ns c) = tc_attempts c"
    by (induction ns arbitrary: c) (simp_all split: handoff_report.split)
qed

lemma run_attempts: "tc_attempts (snd (run_terminal_cleanup w c)) = Suc (tc_attempts c)"
  by (simp add: run_terminal_cleanup_def Let_def split_beta cleanup_attempts)

function retry_passes :: "(nat \<Rightarrow> cleanup_world) \<Rightarrow> terminal_cleanup \<Rightarrow> calls \<times> terminal_cleanup" where
  "retry_passes ws c =
     (if terminal_cleanup_pending c \<and> tc_attempts c < retry_limit
      then let (l1, c1) = run_terminal_cleanup (ws (tc_attempts c)) c;
               (l2, c2) = retry_passes ws c1 in (l1 @ l2, c2)
      else ([], c))"
  by pat_completeness auto

termination
  by (relation "measure (\<lambda>(ws, c). retry_limit - tc_attempts c)")
    (auto simp: run_attempts dest: arg_cong [of _ _ snd])

declare retry_passes.simps [simp del]

definition retry_delay :: "nat \<Rightarrow> rat" where
  "retry_delay attempts = min (1 / 20 * 2 ^ (attempts - 1)) 1"

text \<open>The whole work of a terminal call: its calls, what is left, and the failure it records.\<close>

definition terminal_work ::
  "(nat \<Rightarrow> cleanup_world) \<Rightarrow> terminal_cleanup \<Rightarrow> calls \<times> terminal_cleanup \<times> (nat \<times> string list) option" where
  "terminal_work ws c =
     (let (l1, c1) = transaction_passes 3 ws c;
          (l2, c2) = (if terminal_cleanup_pending c1 then retry_passes ws c1 else ([], c1)) in
      (l1 @ l2, c2,
       if terminal_cleanup_pending c2 then Some (tc_attempts c2, pending_steps c2) else None))"

section \<open>The steps that are due\<close>

text \<open>
  The abstract view of a clean-up: the list of calls that are due. A pass makes each of them once, and
  keeps those that did not succeed.
\<close>

definition due :: "terminal_cleanup \<Rightarrow> cleanup_call list" where
  "due c =
     (if tc_cancel_pending c then [Cancel_turn] else [])
     @ (if tc_active_pending c then [Close_peer (tc_active_peer c)] else [])
     @ (if tc_candidate_pending c then map Close_peer (case tc_candidate_peer c of None \<Rightarrow> [] | Some p \<Rightarrow> [p]) else [])
     @ map Close_peer (tc_extra_peers c) @ map Stop_track (tc_extra_tracks c)
     @ (if tc_lease_pending c then [Release_lease] else [])"

definition cleanup_ok :: "terminal_cleanup \<Rightarrow> bool" where
  "cleanup_ok c \<longleftrightarrow> distinct (due c) \<and> (tc_candidate_pending c \<longrightarrow> tc_candidate_peer c \<noteq> None)
     \<and> (tc_lease_pending c \<longrightarrow> tc_releaser c \<noteq> None)"

definition makes_call :: "cleanup_world \<Rightarrow> cleanup_call \<Rightarrow> bool" where
  "makes_call w k = (case k of Stop_track t \<Rightarrow> cw_stoppable w t | _ \<Rightarrow> True)"

definition stays_due :: "cleanup_world \<Rightarrow> cleanup_call \<Rightarrow> bool" where
  "stays_due w k \<longleftrightarrow> makes_call w k \<and> cw_result w k \<noteq> Step_ok"

definition logged :: "cleanup_world \<Rightarrow> cleanup_call list \<Rightarrow> calls" where
  "logged w ks = map (\<lambda>k. (k, cw_result w k)) (filter (makes_call w) ks)"

text \<open>What a step leaves alone.\<close>

definition same_base :: "terminal_cleanup \<Rightarrow> terminal_cleanup \<Rightarrow> bool" where
  "same_base c d \<longleftrightarrow> tc_active_peer d = tc_active_peer c \<and> tc_candidate_peer d = tc_candidate_peer c
     \<and> tc_releaser d = tc_releaser c"

lemma extra_peers_spec:
  assumes "tc_extra_peers c = kept @ ps" "distinct (kept @ ps)"
  shows "fst (extra_peers_step w ps c) = logged w (map Close_peer ps)
    \<and> tc_extra_peers (snd (extra_peers_step w ps c)) = kept @ filter (\<lambda>p. stays_due w (Close_peer p)) ps"
  using assms
proof (induction ps arbitrary: c kept)
  case (Cons p ps)
  let ?k = "Close_peer p"
  let ?c = "if cw_result w ?k = Step_ok then c\<lparr>tc_extra_peers := remove1 p (tc_extra_peers c)\<rparr>
            else note_call w ?k c"
  let ?kept = "if cw_result w ?k = Step_ok then kept else kept @ [p]"
  have e: "tc_extra_peers ?c = ?kept @ ps"
    using Cons.prems by (auto simp: note_call_def remove1_append)
  have d: "distinct (?kept @ ps)"
    using Cons.prems by auto
  have r: "extra_peers_step w (p # ps) c
      = ((?k, cw_result w ?k) # fst (extra_peers_step w ps ?c), snd (extra_peers_step w ps ?c))"
    by (simp only: extra_peers_step.simps Let_def split_beta)
  show ?case
    unfolding r fst_conv snd_conv using Cons.IH [OF e d]
    by (simp add: logged_def stays_due_def makes_call_def)
qed (simp_all add: logged_def)

lemma extra_tracks_spec:
  assumes "tc_extra_tracks c = kept @ ts" "distinct (kept @ ts)"
  shows "fst (extra_tracks_step w ts c) = logged w (map Stop_track ts)
    \<and> tc_extra_tracks (snd (extra_tracks_step w ts c)) = kept @ filter (\<lambda>t. stays_due w (Stop_track t)) ts"
  using assms
proof (induction ts arbitrary: c kept)
  case (Cons t ts)
  let ?k = "Stop_track t"
  let ?gone = "\<not> cw_stoppable w t \<or> cw_result w ?k = Step_ok"
  let ?c = "if ?gone then c\<lparr>tc_extra_tracks := remove1 t (tc_extra_tracks c)\<rparr> else note_call w ?k c"
  let ?kept = "if ?gone then kept else kept @ [t]"
  have e: "tc_extra_tracks ?c = ?kept @ ts"
    using Cons.prems by (auto simp: note_call_def remove1_append)
  have d: "distinct (?kept @ ts)"
    using Cons.prems by auto
  have r: "extra_tracks_step w (t # ts) c
      = ((if cw_stoppable w t then [(?k, cw_result w ?k)] else []) @ fst (extra_tracks_step w ts ?c),
         snd (extra_tracks_step w ts ?c))"
    by (simp add: Let_def split_beta)
  show ?case
    unfolding r fst_conv snd_conv using Cons.IH [OF e d]
    by (simp add: logged_def stays_due_def makes_call_def)
qed (simp_all add: logged_def)

lemma extra_peers_frame:
  "c' = snd (extra_peers_step w ps c) \<Longrightarrow> same_base c c' \<and> tc_cancel_pending c' = tc_cancel_pending c
     \<and> tc_active_pending c' = tc_active_pending c \<and> tc_candidate_pending c' = tc_candidate_pending c
     \<and> tc_lease_pending c' = tc_lease_pending c \<and> tc_extra_tracks c' = tc_extra_tracks c"
proof (induction ps arbitrary: c)
  case (Cons p ps)
  let ?c = "if cw_result w (Close_peer p) = Step_ok
            then c\<lparr>tc_extra_peers := remove1 p (tc_extra_peers c)\<rparr> else note_call w (Close_peer p) c"
  have "c' = snd (extra_peers_step w ps ?c)"
    using Cons.prems by (simp only: extra_peers_step.simps Let_def split_beta snd_conv)
  from Cons.IH [OF this] show ?case
    by (simp add: same_base_def note_call_def split: if_splits)
qed (simp add: same_base_def)

lemma extra_tracks_frame:
  "c' = snd (extra_tracks_step w ts c) \<Longrightarrow> same_base c c' \<and> tc_cancel_pending c' = tc_cancel_pending c
     \<and> tc_active_pending c' = tc_active_pending c \<and> tc_candidate_pending c' = tc_candidate_pending c
     \<and> tc_lease_pending c' = tc_lease_pending c \<and> tc_extra_peers c' = tc_extra_peers c"
proof (induction ts arbitrary: c)
  case (Cons t ts)
  let ?c = "if \<not> cw_stoppable w t \<or> cw_result w (Stop_track t) = Step_ok
            then c\<lparr>tc_extra_tracks := remove1 t (tc_extra_tracks c)\<rparr> else note_call w (Stop_track t) c"
  have "c' = snd (extra_tracks_step w ts ?c)"
    using Cons.prems by (simp add: Let_def split_beta)
  from Cons.IH [OF this] show ?case
    by (simp add: same_base_def note_call_def split: if_splits)
qed (simp add: same_base_def)

lemma due_frame [simp]:
  "due (c\<lparr>tc_lease_cleanups := x\<rparr>) = due c" "due (c\<lparr>tc_timed_out := b\<rparr>) = due c"
  "due (c\<lparr>tc_lease_handoffs := x\<rparr>) = due c" "due (c\<lparr>tc_attempts := n\<rparr>) = due c"
  by (simp_all add: due_def)

lemma lease_cleanups_frame:
  "due (lease_cleanups_step w ns c) = due c \<and> same_base c (lease_cleanups_step w ns c)
   \<and> tc_candidate_pending (lease_cleanups_step w ns c) = tc_candidate_pending c
   \<and> tc_lease_pending (lease_cleanups_step w ns c) = tc_lease_pending c"
  by (induction ns arbitrary: c) (simp_all add: same_base_def split: lease_report.split)

lemma handoffs_frame:
  "due (handoffs_step w ns c) = due c \<and> same_base c (handoffs_step w ns c)
   \<and> tc_candidate_pending (handoffs_step w ns c) = tc_candidate_pending c
   \<and> tc_lease_pending (handoffs_step w ns c) = tc_lease_pending c"
  by (induction ns arbitrary: c) (simp_all add: same_base_def split: handoff_report.split)

lemma simple_steps:
  "fst (cancel_step w c) = logged w (if tc_cancel_pending c then [Cancel_turn] else [])"
  "fst (active_peer_step w c) = logged w (if tc_active_pending c then [Close_peer (tc_active_peer c)] else [])"
  "tc_candidate_pending c \<Longrightarrow> tc_candidate_peer c = Some p
     \<Longrightarrow> fst (candidate_peer_step w c) = logged w [Close_peer p]"
  "\<not> tc_candidate_pending c \<Longrightarrow> candidate_peer_step w c = ([], c)"
  "tc_lease_pending c \<Longrightarrow> tc_releaser c \<noteq> None \<Longrightarrow> fst (prompt_lease_step w c) = logged w [Release_lease]"
  "\<not> tc_lease_pending c \<Longrightarrow> prompt_lease_step w c = ([], c)"
  by (auto simp: cancel_step_def active_peer_step_def candidate_peer_step_def prompt_lease_step_def
      logged_def makes_call_def Let_def split: option.split)

lemma cancel_step_fields:
  "same_base c (snd (cancel_step w c))"
  "tc_cancel_pending (snd (cancel_step w c)) = (tc_cancel_pending c \<and> stays_due w Cancel_turn)"
  "tc_active_pending (snd (cancel_step w c)) = tc_active_pending c"
  "tc_candidate_pending (snd (cancel_step w c)) = tc_candidate_pending c"
  "tc_lease_pending (snd (cancel_step w c)) = tc_lease_pending c"
  "tc_extra_peers (snd (cancel_step w c)) = tc_extra_peers c"
  "tc_extra_tracks (snd (cancel_step w c)) = tc_extra_tracks c"
  by (simp_all add: cancel_step_def same_base_def note_call_def stays_due_def makes_call_def)

lemma active_peer_step_fields:
  "same_base c (snd (active_peer_step w c))"
  "tc_cancel_pending (snd (active_peer_step w c)) = tc_cancel_pending c"
  "tc_active_pending (snd (active_peer_step w c))
     = (tc_active_pending c \<and> stays_due w (Close_peer (tc_active_peer c)))"
  "tc_candidate_pending (snd (active_peer_step w c)) = tc_candidate_pending c"
  "tc_lease_pending (snd (active_peer_step w c)) = tc_lease_pending c"
  "tc_extra_peers (snd (active_peer_step w c)) = tc_extra_peers c"
  "tc_extra_tracks (snd (active_peer_step w c)) = tc_extra_tracks c"
  by (simp_all add: active_peer_step_def same_base_def note_call_def stays_due_def makes_call_def Let_def)

lemma candidate_peer_step_fields:
  "same_base c (snd (candidate_peer_step w c))"
  "tc_cancel_pending (snd (candidate_peer_step w c)) = tc_cancel_pending c"
  "tc_active_pending (snd (candidate_peer_step w c)) = tc_active_pending c"
  "tc_candidate_pending (snd (candidate_peer_step w c))
     = (tc_candidate_pending c \<and> (case tc_candidate_peer c of None \<Rightarrow> True
          | Some p \<Rightarrow> stays_due w (Close_peer p)))"
  "tc_lease_pending (snd (candidate_peer_step w c)) = tc_lease_pending c"
  "tc_extra_peers (snd (candidate_peer_step w c)) = tc_extra_peers c"
  "tc_extra_tracks (snd (candidate_peer_step w c)) = tc_extra_tracks c"
  by (simp_all add: candidate_peer_step_def same_base_def note_call_def stays_due_def makes_call_def
      Let_def split: option.split)

lemma prompt_lease_step_fields:
  "same_base c (snd (prompt_lease_step w c))"
  "tc_cancel_pending (snd (prompt_lease_step w c)) = tc_cancel_pending c"
  "tc_active_pending (snd (prompt_lease_step w c)) = tc_active_pending c"
  "tc_candidate_pending (snd (prompt_lease_step w c)) = tc_candidate_pending c"
  "tc_releaser c \<noteq> None \<Longrightarrow> tc_lease_pending (snd (prompt_lease_step w c))
     = (tc_lease_pending c \<and> stays_due w Release_lease)"
  "tc_lease_pending (snd (prompt_lease_step w c)) \<Longrightarrow> tc_lease_pending c"
  "tc_extra_peers (snd (prompt_lease_step w c)) = tc_extra_peers c"
  "tc_extra_tracks (snd (prompt_lease_step w c)) = tc_extra_tracks c"
  by (cases "tc_lease_pending c \<and> tc_releaser c \<noteq> None";
      simp add: prompt_lease_step_def same_base_def note_call_def stays_due_def makes_call_def
        split: if_split_asm)+

lemmas step_fields = cancel_step_fields active_peer_step_fields candidate_peer_step_fields
  prompt_lease_step_fields

lemma same_base_trans: "same_base a b \<Longrightarrow> same_base b c \<Longrightarrow> same_base a c"
  by (simp add: same_base_def)

lemma logged_append: "logged w (xs @ ys) = logged w xs @ logged w ys"
  by (simp add: logged_def)

lemma logged_Nil: "logged w [] = []"
  by (simp add: logged_def)

lemma due_spec:
  fixes w
  assumes "cleanup_ok c"
  defines "d \<equiv> snd (run_terminal_cleanup w c)"
  shows "fst (run_terminal_cleanup w c) = logged w (due c)"
    and "due d = filter (stays_due w) (due c)"
    and "cleanup_ok d"
proof -
  define c0 where "c0 = c\<lparr>tc_attempts := Suc (tc_attempts c), tc_timed_out := False\<rparr>"
  define c1 where "c1 = snd (cancel_step w c0)"
  define c2 where "c2 = snd (active_peer_step w c1)"
  define c3 where "c3 = snd (candidate_peer_step w c2)"
  define c4 where "c4 = snd (extra_peers_step w (tc_extra_peers c3) c3)"
  define c5 where "c5 = snd (extra_tracks_step w (tc_extra_tracks c4) c4)"
  define c6 where "c6 = snd (prompt_lease_step w c5)"
  define c7 where "c7 = lease_cleanups_step w (tc_lease_cleanups c6) c6"
  have d: "d = handoffs_step w (tc_lease_handoffs c7) c7"
    by (simp only: d_def run_terminal_cleanup_def Let_def split_beta snd_conv c0_def c1_def c2_def
        c3_def c4_def c5_def c6_def c7_def)
  note f4 = extra_peers_frame [OF c4_def] and f5 = extra_tracks_frame [OF c5_def]
  have base: "same_base c0 c1" "same_base c1 c2" "same_base c2 c3" "same_base c3 c4" "same_base c4 c5"
    "same_base c5 c6" "same_base c0 c"
    using f4 f5 by (simp_all add: step_fields c1_def c2_def c3_def c6_def) (simp add: c0_def same_base_def)
  have dist: "distinct (tc_extra_peers c)" "distinct (tc_extra_tracks c)"
    using assms(1) by (simp_all add: cleanup_ok_def due_def distinct_map)
  have p3: "tc_extra_peers c3 = [] @ tc_extra_peers c" and t4: "tc_extra_tracks c4 = [] @ tc_extra_tracks c"
    using f4 by (simp_all add: step_fields c0_def c1_def c2_def c3_def)
  have p4: "tc_extra_peers c4 = filter (\<lambda>p. stays_due w (Close_peer p)) (tc_extra_peers c)"
    using extra_peers_spec [of c3 "[]" "tc_extra_peers c" w] dist p3 by (simp add: c4_def)
  have t5: "tc_extra_tracks c5 = filter (\<lambda>t. stays_due w (Stop_track t)) (tc_extra_tracks c)"
    using extra_tracks_spec [of c4 "[]" "tc_extra_tracks c" w] dist t4 by (simp add: c5_def)
  have peers: "tc_active_peer c1 = tc_active_peer c" "tc_candidate_peer c2 = tc_candidate_peer c"
    "tc_releaser c5 = tc_releaser c" "tc_active_peer c6 = tc_active_peer c"
    "tc_candidate_peer c6 = tc_candidate_peer c" "tc_releaser c6 = tc_releaser c"
    using base by (simp_all add: same_base_def)
  have has: "tc_candidate_pending c \<Longrightarrow> tc_candidate_peer c \<noteq> None"
    "tc_lease_pending c \<Longrightarrow> tc_releaser c \<noteq> None"
    using assms(1) by (simp_all add: cleanup_ok_def)
  have zero: "tc_cancel_pending c0 = tc_cancel_pending c" "tc_active_pending c0 = tc_active_pending c"
    "tc_candidate_pending c0 = tc_candidate_pending c" "tc_lease_pending c0 = tc_lease_pending c"
    by (simp_all add: c0_def)
  have one: "tc_active_pending c1 = tc_active_pending c" "tc_candidate_pending c2 = tc_candidate_pending c"
    "tc_lease_pending c5 = tc_lease_pending c"
    using f4 f5 by (simp_all add: step_fields c1_def c2_def c3_def zero)
  have six: "tc_cancel_pending c6 = (tc_cancel_pending c \<and> stays_due w Cancel_turn)"
    "tc_active_pending c6 = (tc_active_pending c \<and> stays_due w (Close_peer (tc_active_peer c)))"
    "tc_candidate_pending c6 = (tc_candidate_pending c \<and> (case tc_candidate_peer c of None \<Rightarrow> True
       | Some p \<Rightarrow> stays_due w (Close_peer p)))"
    "tc_extra_peers c6 = filter (\<lambda>p. stays_due w (Close_peer p)) (tc_extra_peers c)"
    "tc_extra_tracks c6 = filter (\<lambda>t. stays_due w (Stop_track t)) (tc_extra_tracks c)"
    using f4 f5 p4 t5 peers
    by (simp_all add: step_fields c6_def c3_def c2_def c1_def zero del: peers(4-6))
  have six_lease: "tc_lease_pending c6 = (tc_lease_pending c \<and> stays_due w Release_lease)"
  proof (cases "tc_lease_pending c")
    case True
    then show ?thesis
      using has(2) peers(3) one(3) by (simp add: c6_def step_fields)
  next
    case False
    then show ?thesis
      using one(3) prompt_lease_step_fields(6) [of w c5] by (auto simp: c6_def)
  qed
  have due6: "due c6 = filter (stays_due w) (due c)"
    using has(1) by (auto simp: due_def six six_lease peers filter_map comp_def split: option.split)
  then show due_d: "due d = filter (stays_due w) (due c)"
    by (simp add: d c7_def handoffs_frame lease_cleanups_frame)
  have "tc_candidate_pending d \<longrightarrow> tc_candidate_peer d \<noteq> None"
    "tc_lease_pending d \<longrightarrow> tc_releaser d \<noteq> None"
    using handoffs_frame [of w "tc_lease_handoffs c7" c7] lease_cleanups_frame [of w "tc_lease_cleanups c6" c6]
      six six_lease peers has by (auto simp: d c7_def same_base_def)
  moreover have "distinct (due d)"
    using assms(1) by (simp add: due_d cleanup_ok_def)
  ultimately show "cleanup_ok d"
    by (simp add: cleanup_ok_def)
  have l1: "fst (cancel_step w c0) = logged w (if tc_cancel_pending c then [Cancel_turn] else [])"
    by (simp only: simple_steps zero)
  have l2: "fst (active_peer_step w c1)
      = logged w (if tc_active_pending c then [Close_peer (tc_active_peer c)] else [])"
    by (simp only: simple_steps one peers)
  have l3: "fst (candidate_peer_step w c2) = logged w (if tc_candidate_pending c
      then map Close_peer (case tc_candidate_peer c of None \<Rightarrow> [] | Some p \<Rightarrow> [p]) else [])"
    using has(1) simple_steps(3,4) [of c2] one(2) peers(2) by (auto simp: logged_Nil)
  have l4: "fst (extra_peers_step w (tc_extra_peers c3) c3) = logged w (map Close_peer (tc_extra_peers c))"
    using extra_peers_spec [of c3 "[]" "tc_extra_peers c" w] dist p3 by simp
  have l5: "fst (extra_tracks_step w (tc_extra_tracks c4) c4) = logged w (map Stop_track (tc_extra_tracks c))"
    using extra_tracks_spec [of c4 "[]" "tc_extra_tracks c" w] dist t4 by simp
  have l6: "fst (prompt_lease_step w c5) = logged w (if tc_lease_pending c then [Release_lease] else [])"
    using has(2) simple_steps(5,6) [of c5] one(3) peers(3) by (auto simp: logged_Nil)
  have "fst (run_terminal_cleanup w c) = fst (cancel_step w c0) @ fst (active_peer_step w c1)
      @ fst (candidate_peer_step w c2) @ fst (extra_peers_step w (tc_extra_peers c3) c3)
      @ fst (extra_tracks_step w (tc_extra_tracks c4) c4) @ fst (prompt_lease_step w c5)"
    by (simp only: run_terminal_cleanup_def Let_def split_beta fst_conv c0_def c1_def c2_def
        c3_def c4_def c5_def)
  then show "fst (run_terminal_cleanup w c) = logged w (due c)"
    by (simp only: l1 l2 l3 l4 l5 l6 due_def logged_append)
qed

section \<open>Calls that succeeded are not made again\<close>

fun settled_once :: "calls \<Rightarrow> bool" where
  "settled_once [] = True"
| "settled_once ((k, r) # cs) \<longleftrightarrow> (r = Step_ok \<longrightarrow> k \<notin> fst ` set cs) \<and> settled_once cs"

lemma settled_once_append:
  "settled_once l1 \<Longrightarrow> settled_once l2 \<Longrightarrow> (\<forall>k. (k, Step_ok) \<in> set l1 \<longrightarrow> k \<notin> fst ` set l2)
   \<Longrightarrow> settled_once (l1 @ l2)"
proof (induction l1)
  case (Cons x l1)
  obtain k r where x: "x = (k, r)" by (cases x)
  have "settled_once (l1 @ l2)"
    using Cons by (simp add: x)
  moreover have "k \<notin> fst ` set (l1 @ l2)" if "r = Step_ok"
    using Cons.prems that unfolding x set_append image_Un by simp
  ultimately show ?case
    unfolding x append_Cons settled_once.simps by blast
qed simp

lemma settled_once_distinct: "distinct (map fst l) \<Longrightarrow> settled_once l"
  by (induction l) auto

text \<open>A stretch of passes: calls only what is due, never after a success, and leaves fewer things due.\<close>

definition good_stretch :: "terminal_cleanup \<Rightarrow> calls \<times> terminal_cleanup \<Rightarrow> bool" where
  "good_stretch c r \<longleftrightarrow> settled_once (fst r) \<and> fst ` set (fst r) \<subseteq> set (due c)
     \<and> set (due (snd r)) \<subseteq> set (due c) \<and> cleanup_ok (snd r)
     \<and> (\<forall>k. (k, Step_ok) \<in> set (fst r) \<longrightarrow> k \<notin> set (due (snd r)))"

lemma good_Nil: "cleanup_ok c \<Longrightarrow> good_stretch c ([], c)"
  by (simp add: good_stretch_def)

lemma good_run: "cleanup_ok c \<Longrightarrow> good_stretch c (run_terminal_cleanup w c)"
proof -
  assume ok: "cleanup_ok c"
  note spec = due_spec [OF ok, of w]
  have "distinct (due c)" using ok by (simp add: cleanup_ok_def)
  then have "distinct (map fst (logged w (due c)))"
    by (simp add: logged_def comp_def)
  then have "settled_once (logged w (due c))"
    by (rule settled_once_distinct)
  then show ?thesis
    using spec by (auto simp: good_stretch_def logged_def stays_due_def)
qed

lemma good_append:
  assumes "good_stretch c (l1, c1)" "good_stretch c1 (l2, c2)"
  shows "good_stretch c (l1 @ l2, c2)"
proof -
  note one = assms(1) [unfolded good_stretch_def fst_conv snd_conv]
    and two = assms(2) [unfolded good_stretch_def fst_conv snd_conv]
  have "settled_once (l1 @ l2)"
    using one two by (intro settled_once_append) blast+
  moreover have "fst ` set (l1 @ l2) \<subseteq> set (due c)" "set (due c2) \<subseteq> set (due c)"
    using one two unfolding set_append image_Un by blast+
  moreover have "\<forall>k. (k, Step_ok) \<in> set (l1 @ l2) \<longrightarrow> k \<notin> set (due c2)"
    using one two unfolding set_append by blast
  ultimately show ?thesis
    using two by (simp add: good_stretch_def)
qed

lemma good_ok: "good_stretch c r \<Longrightarrow> cleanup_ok (snd r)"
  by (simp add: good_stretch_def)

lemma good_transaction: "cleanup_ok c \<Longrightarrow> good_stretch c (transaction_passes k ws c)"
proof (induction k arbitrary: c)
  case 0
  then show ?case by (simp add: good_Nil)
next
  case (Suc k)
  obtain l1 c1 where r: "run_terminal_cleanup (ws (tc_attempts c)) c = (l1, c1)"
    by (cases "run_terminal_cleanup (ws (tc_attempts c)) c")
  have g: "good_stretch c (l1, c1)"
    using good_run [OF Suc.prems] r by metis
  obtain l2 c2 where t: "transaction_passes k ws c1 = (l2, c2)"
    by (cases "transaction_passes k ws c1")
  have "good_stretch c1 (l2, c2)"
    using Suc.IH [of c1] good_ok [OF g] t by simp
  then show ?case
    using g good_append by (simp add: r t)
qed

lemma good_retry: "cleanup_ok c \<Longrightarrow> good_stretch c (retry_passes ws c)"
proof (induction ws c rule: retry_passes.induct)
  case (1 ws c)
  show ?case
  proof (cases "terminal_cleanup_pending c \<and> tc_attempts c < retry_limit")
    case True
    obtain l1 c1 where r: "run_terminal_cleanup (ws (tc_attempts c)) c = (l1, c1)"
      by (cases "run_terminal_cleanup (ws (tc_attempts c)) c")
    have g: "good_stretch c (l1, c1)"
      using good_run [OF "1.prems"] r by metis
    obtain l2 c2 where t: "retry_passes ws c1 = (l2, c2)"
      by (cases "retry_passes ws c1")
    have "good_stretch c1 (l2, c2)"
      using "1.IH" [OF True r [symmetric] refl] good_ok [OF g] t by simp
    then show ?thesis
      using g good_append True by (simp add: retry_passes.simps [of ws c] r t)
  next
    case False
    then show ?thesis
      using good_Nil [OF "1.prems"] by (auto simp: retry_passes.simps [of ws c])
  qed
qed

lemma distinct_new_due: "cleanup_ok (new_cleanup target reason (terminal_extra_peers xp s) (terminal_extra_tracks xt s) s)"
proof -
  let ?c = "new_cleanup target reason (terminal_extra_peers xp s) (terminal_extra_tracks xt s) s"
  have p: "distinct (terminal_extra_peers xp s)" "distinct (terminal_extra_tracks xt s)"
    by (simp_all add: terminal_extra_peers_def terminal_extra_tracks_def Let_def add_all_distinct)
  have "peer_connection s \<notin> set (terminal_extra_peers xp s)"
    "\<And>c. lf_candidate (life s) = Some c \<Longrightarrow> cd_peer c \<notin> set (terminal_extra_peers xp s)"
    by (simp_all add: terminal_extra_peers_def Let_def)
  then have "distinct (due ?c)"
    using p by (cases "lf_candidate (life s)")
      (auto simp: due_def new_cleanup_def Let_def distinct_map inj_on_def)
  then show ?thesis
    by (auto simp: cleanup_ok_def new_cleanup_def Let_def)
qed

text \<open>
  \<^bold>\<open>C18\<close>. The clean-up of an ended call never repeats work that succeeded. Whatever
  the peers, tracks and the lease releaser do in each pass, over the whole terminal transaction and
  all retries, a call that has returned (closing a peer, stopping a track, cancelling the turn,
  releasing the lease) is never made again.
\<close>

theorem cleanup_never_repeats:
  "settled_once (fst (terminal_work ws
     (new_cleanup target reason (terminal_extra_peers xp s) (terminal_extra_tracks xt s) s)))"
proof -
  let ?c = "new_cleanup target reason (terminal_extra_peers xp s) (terminal_extra_tracks xt s) s"
  obtain l1 c1 where t: "transaction_passes 3 ws ?c = (l1, c1)"
    by (cases "transaction_passes 3 ws ?c")
  have g: "good_stretch ?c (l1, c1)"
    using good_transaction [OF distinct_new_due] t by metis
  obtain l2 c2 where u: "(if terminal_cleanup_pending c1 then retry_passes ws c1 else ([], c1)) = (l2, c2)"
    by (cases "if terminal_cleanup_pending c1 then retry_passes ws c1 else ([], c1)")
  have "good_stretch c1 (l2, c2)"
    using good_retry [of c1 ws] good_Nil [of c1] good_ok [OF g] u by (auto split: if_split_asm)
  then have "good_stretch ?c (l1 @ l2, c2)"
    by (rule good_append [OF g])
  then show ?thesis
    unfolding terminal_work_def Let_def t u split_conv by (simp add: good_stretch_def)
qed

section \<open>The loops end and leave nothing behind when they can\<close>

definition clean_world :: "cleanup_world \<Rightarrow> bool" where
  "clean_world w \<longleftrightarrow> (\<forall>k. cw_result w k = Step_ok) \<and> (\<forall>n. cw_lease w n = Lease_released)
     \<and> (\<forall>n. cw_handoff w n = Handoff_over)"

lemma retry_attempts:
  "tc_attempts c \<le> retry_limit \<Longrightarrow> tc_attempts (snd (retry_passes ws c)) \<le> retry_limit
     \<and> (terminal_cleanup_pending (snd (retry_passes ws c)) \<longrightarrow> tc_attempts (snd (retry_passes ws c)) = retry_limit)"
proof (induction ws c rule: retry_passes.induct)
  case (1 ws c)
  obtain l1 c1 where r: "run_terminal_cleanup (ws (tc_attempts c)) c = (l1, c1)"
    by (cases "run_terminal_cleanup (ws (tc_attempts c)) c")
  show ?case
  proof (cases "terminal_cleanup_pending c \<and> tc_attempts c < retry_limit")
    case True
    have "tc_attempts c1 \<le> retry_limit"
      using run_attempts [of "ws (tc_attempts c)" c] r True by simp
    from "1.IH" [OF True r [symmetric] refl this] show ?thesis
      using True by (simp add: retry_passes.simps [of ws c] r split_beta)
  next
    case False
    then have "retry_passes ws c = ([], c)" by (auto simp: retry_passes.simps [of ws c])
    then show ?thesis using False "1.prems" by auto
  qed
qed

lemma transaction_attempts:
  "tc_attempts (snd (transaction_passes k ws c)) \<le> tc_attempts c + k"
proof (induction k arbitrary: c)
  case (Suc k)
  obtain l1 c1 where r: "run_terminal_cleanup (ws (tc_attempts c)) c = (l1, c1)"
    by (cases "run_terminal_cleanup (ws (tc_attempts c)) c")
  have "tc_attempts c1 = Suc (tc_attempts c)"
    using run_attempts [of "ws (tc_attempts c)" c] r by simp
  then show ?case
    using Suc.IH [of c1] by (simp add: r split_beta)
qed simp

lemma terminal_pending_iff:
  "cleanup_ok c \<Longrightarrow> terminal_cleanup_pending c
     \<longleftrightarrow> due c \<noteq> [] \<or> tc_lease_cleanups c \<noteq> [] \<or> tc_lease_handoffs c \<noteq> []"
  by (auto simp: terminal_cleanup_pending_def cleanup_ok_def due_def)

lemma clean_leases:
  "clean_world w \<Longrightarrow> tc_lease_cleanups c = ns \<Longrightarrow> tc_lease_cleanups (lease_cleanups_step w ns c) = []"
  by (induction ns arbitrary: c) (auto simp: clean_world_def)

lemma clean_handoffs:
  "clean_world w \<Longrightarrow> tc_lease_handoffs c = ns \<Longrightarrow> tc_lease_handoffs (handoffs_step w ns c) = []
     \<and> tc_lease_cleanups (handoffs_step w ns c) = tc_lease_cleanups c"
  by (induction ns arbitrary: c) (auto simp: clean_world_def)

lemma clean_run:
  assumes "cleanup_ok c" "clean_world w"
  shows "\<not> terminal_cleanup_pending (snd (run_terminal_cleanup w c))"
proof -
  let ?d = "snd (run_terminal_cleanup w c)"
  have "due ?d = []"
    using due_spec(2) [OF assms(1), of w] assms(2)
    by (simp add: clean_world_def stays_due_def filter_empty_conv)
  moreover have "tc_lease_handoffs ?d = []" "tc_lease_cleanups ?d = []"
    using clean_handoffs [OF assms(2) refl] clean_leases [OF assms(2) refl]
    by (simp_all add: run_terminal_cleanup_def Let_def split_beta)
  ultimately show ?thesis
    using terminal_pending_iff due_spec(3) [OF assms(1), of w] by simp
qed

lemma retry_resolves:
  "m < retry_limit \<Longrightarrow> clean_world (ws m) \<Longrightarrow> tc_attempts c \<le> m \<Longrightarrow> cleanup_ok c
     \<Longrightarrow> \<not> terminal_cleanup_pending (snd (retry_passes ws c))"
proof (induction ws c rule: retry_passes.induct)
  case (1 ws c)
  obtain l1 c1 where r: "run_terminal_cleanup (ws (tc_attempts c)) c = (l1, c1)"
    by (cases "run_terminal_cleanup (ws (tc_attempts c)) c")
  show ?case
  proof (cases "terminal_cleanup_pending c")
    case True
    then have go: "terminal_cleanup_pending c \<and> tc_attempts c < retry_limit"
      using "1.prems" by simp
    have ok: "cleanup_ok c1"
      using good_ok [OF good_run [OF "1.prems"(4), of "ws (tc_attempts c)"]] r by simp
    have "\<not> terminal_cleanup_pending (snd (retry_passes ws c1))"
    proof (cases "tc_attempts c = m")
      case True
      then have "\<not> terminal_cleanup_pending c1"
        using clean_run [OF "1.prems"(4,2)] r by simp
      then show ?thesis by (simp add: retry_passes.simps [of ws c1])
    next
      case False
      then have "tc_attempts c1 \<le> m"
        using "1.prems"(3) run_attempts [of "ws (tc_attempts c)" c] r by simp
      then show ?thesis
        using "1.IH" [OF go r [symmetric] refl "1.prems"(1,2)] ok by simp
    qed
    then show ?thesis
      using go by (simp add: retry_passes.simps [of ws c] r split_beta)
  next
    case False
    then show ?thesis by (simp add: retry_passes.simps [of ws c])
  qed
qed

lemma transaction_resolves:
  "clean_world (ws m) \<Longrightarrow> tc_attempts c \<le> m \<Longrightarrow> cleanup_ok c
     \<Longrightarrow> terminal_cleanup_pending (snd (transaction_passes k ws c))
     \<Longrightarrow> tc_attempts (snd (transaction_passes k ws c)) \<le> m"
proof (induction k arbitrary: c)
  case (Suc k)
  obtain l1 c1 where r: "run_terminal_cleanup (ws (tc_attempts c)) c = (l1, c1)"
    by (cases "run_terminal_cleanup (ws (tc_attempts c)) c")
  have ok: "cleanup_ok c1"
    using good_ok [OF good_run [OF Suc.prems(3), of "ws (tc_attempts c)"]] r by simp
  have later: "tc_attempts c1 \<le> m" if "terminal_cleanup_pending c1"
    using that clean_run [OF Suc.prems(3), of "ws m"] Suc.prems(1,2) r
      run_attempts [of "ws (tc_attempts c)" c] by (cases "tc_attempts c = m") auto
  show ?case
  proof (cases "\<not> terminal_cleanup_pending c1 \<or> tc_timed_out c1")
    case True
    then show ?thesis using Suc.prems(4) later by (auto simp: r split_beta)
  next
    case False
    then show ?thesis
      using Suc.IH [OF Suc.prems(1) later ok] Suc.prems(4) by (simp add: r split_beta)
  qed
qed simp

lemma terminal_work_parts:
  "fst (snd (terminal_work ws c))
     = (let c1 = snd (transaction_passes 3 ws c) in
        if terminal_cleanup_pending c1 then snd (retry_passes ws c1) else c1)"
  "snd (snd (terminal_work ws c))
     = (let c2 = fst (snd (terminal_work ws c)) in
        if terminal_cleanup_pending c2 then Some (tc_attempts c2, pending_steps c2) else None)"
  by (auto simp: terminal_work_def Let_def split_beta)

text \<open>
  \<^bold>\<open>C33\<close>. The clean-up of an ended call ends. It returns after at most 32 passes
  whatever the resources do; what it records as its failure is that all 32 were used and which steps
  are still pending, and it records one exactly when something is pending.
\<close>

theorem cleanup_is_bounded:
  "tc_attempts (fst (snd (terminal_work ws (new_cleanup target reason xp xt s)))) \<le> 32
   \<and> snd (snd (terminal_work ws (new_cleanup target reason xp xt s)))
     = (if terminal_cleanup_pending (fst (snd (terminal_work ws (new_cleanup target reason xp xt s))))
        then Some (32, pending_steps (fst (snd (terminal_work ws (new_cleanup target reason xp xt s)))))
        else None)"
proof -
  let ?c = "new_cleanup target reason xp xt s"
  let ?c1 = "snd (transaction_passes 3 ws ?c)"
  have a: "tc_attempts ?c1 \<le> retry_limit"
    using transaction_attempts [of 3 ws ?c] by (simp add: new_cleanup_def Let_def retry_limit_def)
  note b = retry_attempts [OF a, of ws]
  show ?thesis
    using a b by (auto simp: terminal_work_parts(2) Let_def) (auto simp: terminal_work_parts(1) Let_def retry_limit_def)
qed

text \<open>
  A fault that goes away is cleaned up. If the resources behave in just one of
  the 32 passes that may be made, then the clean-up ends with nothing pending and no failure.
\<close>

theorem cleanup_resolves:
  assumes "m < 32" "clean_world (ws m)"
  shows "\<not> terminal_cleanup_pending (fst (snd (terminal_work ws
      (new_cleanup target reason (terminal_extra_peers xp s) (terminal_extra_tracks xt s) s))))
    \<and> snd (snd (terminal_work ws
      (new_cleanup target reason (terminal_extra_peers xp s) (terminal_extra_tracks xt s) s))) = None"
proof -
  let ?c = "new_cleanup target reason (terminal_extra_peers xp s) (terminal_extra_tracks xt s) s"
  let ?c1 = "snd (transaction_passes 3 ws ?c)"
  have z: "tc_attempts ?c \<le> m"
    by (simp add: new_cleanup_def Let_def)
  have ok: "cleanup_ok ?c1"
    by (rule good_ok [OF good_transaction [OF distinct_new_due]])
  have "\<not> terminal_cleanup_pending (fst (snd (terminal_work ws ?c)))"
    using transaction_resolves [where ws = ws and m = m and c = ?c and k = 3, OF assms(2) z distinct_new_due]
      retry_resolves [where m = m and ws = ws and c = ?c1, OF _ assms(2) _ ok] assms(1)
    by (auto simp: terminal_work_parts(1) Let_def retry_limit_def)
  then show ?thesis
    unfolding terminal_work_parts(2) Let_def by simp
qed

definition witness_world :: cleanup_world where
  "witness_world = \<lparr>cw_result = (\<lambda>k. Step_ok), cw_stoppable = (\<lambda>t. True), cw_context = [],
     cw_lease = (\<lambda>n. Lease_released), cw_handoff = (\<lambda>n. Handoff_over)\<rparr>"

theorem cleanup_resolves_witness:
  "\<not> terminal_cleanup_pending (fst (snd (terminal_work
      (\<lambda>n. if n = 4 then witness_world else witness_world\<lparr>cw_result := (\<lambda>k. Step_raised)\<rparr>)
      (new_cleanup Ended (lit ''bye'')
        (terminal_extra_peers [5] (new_session [] None None None [] 1 None None None (Some 2)))
        (terminal_extra_tracks [2] (new_session [] None None None [] 1 None None None (Some 2)))
        (new_session [] None None None [] 1 None None None (Some 2))))))"
  using cleanup_resolves [of 4 "\<lambda>n. if n = 4 then witness_world else witness_world\<lparr>cw_result := (\<lambda>k. Step_raised)\<rparr>"
      Ended "lit ''bye''" "[5]" "new_session [] None None None [] 1 None None None (Some 2)" "[2]"]
  by (simp add: clean_world_def witness_world_def)

end
