(* ===== verification/PeerSwitch.thy ===== *)
theory PeerSwitch
  imports TerminalCall
begin

text \<open>
  The peer connection of a call and its replacement (\<open>ai-backend/app/call/session.py\<close>): candidates
  and their generations, acceptance with or without a change of voice and engine, the owned switch
  transaction, and the reconnect grace of the transport. Each function is one critical section of
  the lifecycle lock; where the code hands a peer or a track to a clean-up task, the function
  returns it with the task's reason.
\<close>

type_synonym owned_cleanup = "py_object \<times> string"

section \<open>Reservations\<close>

definition reserve_speech_configuration ::
  "string \<Rightarrow> string \<Rightarrow> session \<Rightarrow> session_error + accepted_configuration" where
  "reserve_speech_configuration voice engine s =
     (let l = life s in
      if ended_at s \<or> lf_phase l = Terminal \<or> lf_phase l = Switching \<or> over_state (cv_state s)
      then Inl (Selection_rejected ''call session is terminal'')
      else if Some voice \<noteq> voice_id s \<or> Some engine \<noteq> engine_id s
      then Inl (Selection_rejected ''speech selection does not match the accepted call'')
      else Inr \<lparr>ac_epoch = lf_epoch l, ac_voice = voice, ac_engine = engine\<rparr>)"

definition validate_speech_configuration :: "accepted_configuration \<Rightarrow> session \<Rightarrow> session_error + unit" where
  "validate_speech_configuration r s =
     (let l = life s in
      if ended_at s \<or> lf_phase l \<noteq> Stable \<or> ac_epoch r \<noteq> lf_epoch l
         \<or> Some (ac_voice r) \<noteq> voice_id s \<or> Some (ac_engine r) \<noteq> engine_id s
      then Inl (Selection_rejected ''accepted call configuration changed before speech'')
      else Inr ())"

section \<open>Candidates\<close>

definition mark_peer_connection_pending ::
  "py_object \<Rightarrow> py_object option \<Rightarrow> offer_configuration option \<Rightarrow> session
   \<Rightarrow> (session_error + nat) \<times> owned_cleanup list \<times> session" where
  "mark_peer_connection_pending peer track config s =
     (let l = life s in
      if call_over s
      then (Inl (Terminal_call ''cannot register a peer candidate on a terminal call''), [], s)
      else if lf_phase l = Switching
      then (Inl (Switch_in_progress ''cannot register a peer candidate during an engine switch''),
            [(peer, ''overlapping_switch_rejected'')], s)
      else
        let superseded = (case lf_candidate l of None \<Rightarrow> []
              | Some c \<Rightarrow> if cd_peer c \<noteq> peer then [(cd_peer c, ''candidate_superseded'')] else []);
            n = Suc (lf_candidate_generation l);
            c = \<lparr>cd_peer = peer, cd_generation = n, cd_epoch = lf_epoch l, cd_track = track,
                 cd_channel = None, cd_timeout = True, cd_config = config\<rparr> in
        (Inr n, superseded,
         s\<lparr>life := (cancel_pending_peer_timeout l)\<lparr>lf_candidate_generation := n, lf_candidate := Some c\<rparr>\<rparr>))"

definition is_peer_pending :: "py_object \<Rightarrow> nat option \<Rightarrow> session \<Rightarrow> bool" where
  "is_peer_pending peer gen s =
     (case lf_candidate (life s) of None \<Rightarrow> False
      | Some c \<Rightarrow> cd_peer c = peer \<and> (gen = None \<or> gen = Some (cd_generation c)))"

definition is_peer_active_or_pending :: "py_object \<Rightarrow> session \<Rightarrow> bool" where
  "is_peer_active_or_pending peer s \<longleftrightarrow> peer = peer_connection s \<or> is_peer_pending peer None s
     \<or> (lf_phase (life s) = Switching \<and> lf_switch_owner (life s) = Some peer)"

text \<open>
  What a receiver that holds a frame does next: drop it, let it through, or wait for the switch task
  or for the candidate's admission event.
\<close>

datatype admission_wait = Refused | Admitted | Wait_switch nat | Wait_candidate nat

definition peer_media_admission :: "py_object \<Rightarrow> nat option \<Rightarrow> session \<Rightarrow> admission_wait" where
  "peer_media_admission peer gen s =
     (let l = life s in
      if ended_at s \<or> lf_phase l = Terminal then Refused
      else if peer = peer_connection s \<and> lf_phase l \<noteq> Switching then Admitted
      else
        case (if lf_phase l = Switching \<and> lf_switch_owner l = Some peer then lf_switch_task l else None) of
          Some t \<Rightarrow> Wait_switch t
        | None \<Rightarrow>
            (case lf_candidate l of
               None \<Rightarrow> Refused
             | Some c \<Rightarrow> if is_peer_pending peer gen s then Wait_candidate (cd_generation c) else Refused))"

definition peer_switch_generation_outcome :: "nat \<Rightarrow> session \<Rightarrow> string option" where
  "peer_switch_generation_outcome gen s =
     (let l = life s in
      if lf_active_generation l = gen then Some ''committed''
      else if lf_last_generation l = Some gen then lf_last_outcome l
      else if lf_phase l = Switching
           \<and> (case lf_switch l of None \<Rightarrow> False | Some sw \<Rightarrow> sw_candidate_generation sw = gen)
      then Some ''in_progress'' else None)"

definition record_peer_switch_outcome :: "nat \<Rightarrow> string \<Rightarrow> lifecycle \<Rightarrow> lifecycle" where
  "record_peer_switch_outcome gen outcome_name l =
     (if (case lf_last_generation l of None \<Rightarrow> True | Some g \<Rightarrow> g \<le> gen)
      then l\<lparr>lf_last_generation := Some gen, lf_last_outcome := Some outcome_name\<rparr> else l)"

definition set_data_channel_for_peer ::
  "py_object \<Rightarrow> py_object option \<Rightarrow> nat option \<Rightarrow> session \<Rightarrow> session" where
  "set_data_channel_for_peer peer chan gen s =
     (if peer = peer_connection s then s\<lparr>data_channel := chan\<rparr>
      else if \<not> is_peer_pending peer gen s then s
      else s\<lparr>life := (life s)\<lparr>lf_candidate :=
              map_option (\<lambda>c. c\<lparr>cd_channel := chan\<rparr>) (lf_candidate (life s))\<rparr>\<rparr>)"

definition reject_pending_peer ::
  "py_object \<Rightarrow> nat option \<Rightarrow> session \<Rightarrow> bool \<times> owned_cleanup list \<times> session" where
  "reject_pending_peer peer gen s =
     (if \<not> is_peer_pending peer gen s then (False, [], s)
      else (True, [(peer, ''candidate_rejected'')], s\<lparr>life := clear_pending_peer peer (life s)\<rparr>))"

definition reject_pending_generation :: "nat \<Rightarrow> session \<Rightarrow> string \<times> owned_cleanup list \<times> session" where
  "reject_pending_generation gen s =
     (case peer_switch_generation_outcome gen s of
        Some r \<Rightarrow> (r, [], s)
      | None \<Rightarrow>
          (case lf_candidate (life s) of
             None \<Rightarrow> (''stale'', [], s)
           | Some c \<Rightarrow>
               if cd_generation c \<noteq> gen then (''stale'', [], s)
               else (case reject_pending_peer (cd_peer c) (Some gen) s of
                       (ok, cl, s') \<Rightarrow> (if ok then ''rejected'' else ''stale'', cl, s'))))"

section \<open>The reconnect grace\<close>

definition complete_transport_reconnect :: "session \<Rightarrow> session" where
  "complete_transport_reconnect s =
     (let l = life s in
      s\<lparr>life := cancel_reconnect_grace
           (l\<lparr>lf_terminal_state := None, lf_state_before := None, lf_grace_peer := None,
              lf_phase := Stable\<rparr>),
        cv_state := (if cv_state s = Reconnecting
                     then (case lf_state_before l of None \<Rightarrow> Listening | Some b \<Rightarrow> b)
                     else cv_state s)\<rparr>)"

definition recover_active_transport :: "py_object \<Rightarrow> nat option \<Rightarrow> session \<Rightarrow> bool \<times> session" where
  "recover_active_transport peer gen s =
     (let l = life s in
      if lf_phase l \<noteq> Reconnect_phase \<or> lf_grace_peer l \<noteq> Some peer \<or> peer \<noteq> peer_connection s
         \<or> (gen \<noteq> None \<and> gen \<noteq> Some (lf_active_generation l))
      then (False, s) else (True, complete_transport_reconnect s))"

definition carry_admissions :: "nat \<Rightarrow> session \<Rightarrow> session" where
  "carry_admissions epoch s =
     s\<lparr>backfills := (backfills s)\<lparr>bk_admissions :=
          dmap (\<lambda>a. a\<lparr>ba_epoch := epoch\<rparr>) (bk_admissions (backfills s))\<rparr>,
       stt := (stt s)\<lparr>tq_admissions :=
          dmap (\<lambda>a. if st_reconnect a then a\<lparr>st_epoch := epoch\<rparr> else a) (tq_admissions (stt s))\<rparr>\<rparr>"

definition reconnect_is_fresh :: "py_object \<Rightarrow> lifecycle \<Rightarrow> bool" where
  "reconnect_is_fresh peer l \<longleftrightarrow> lf_phase l \<noteq> Reconnect_phase \<or> lf_grace_peer l \<noteq> Some peer"

definition reconnect_lifecycle :: "py_object \<Rightarrow> string \<Rightarrow> call_state \<Rightarrow> lifecycle \<Rightarrow> lifecycle" where
  "reconnect_lifecycle peer terminal_state now_state l =
     (let n = Suc (lf_epoch l);
          l1 = (if reconnect_is_fresh peer l
                then l\<lparr>lf_epoch := n, lf_phase := Reconnect_phase, lf_state_before := Some now_state,
                       lf_grace_peer := Some peer,
                       lf_candidate := map_option (\<lambda>c. c\<lparr>cd_epoch := n\<rparr>) (lf_candidate l)\<rparr>
                else l);
          l2 = (if terminal_state = ''failed'' \<or> lf_terminal_state l1 = None
                then l1\<lparr>lf_terminal_state := Some terminal_state\<rparr> else l1) in
      if lf_grace_task l2 = None then l2\<lparr>lf_grace_task := Some (lf_epoch l2, peer)\<rparr> else l2)"

definition begin_transport_reconnect ::
  "py_object \<Rightarrow> string \<Rightarrow> nat option \<Rightarrow> session \<Rightarrow> session" where
  "begin_transport_reconnect peer terminal_state gen s =
     (let l = life s in
      if lf_phase l = Switching \<and> lf_retiring_peer l = Some peer
         \<and> (gen = None \<or> gen = lf_retiring_generation l)
      then s
      else if ended_at s \<or> lf_phase l = Terminal \<or> peer \<noteq> peer_connection s
           \<or> (gen \<noteq> None \<and> gen \<noteq> Some (lf_active_generation l))
      then s
      else
        (if reconnect_is_fresh peer l then carry_admissions (Suc (lf_epoch l)) s else s)
          \<lparr>life := reconnect_lifecycle peer terminal_state (cv_state s) l, cv_state := Reconnecting\<rparr>)"

definition resolve_deferred_connection_state ::
  "nat option \<Rightarrow> py_object option \<Rightarrow> session \<Rightarrow> bool \<times> session" where
  "resolve_deferred_connection_state epoch peer s =
     (let l = life s in
      if lf_phase l \<noteq> Reconnect_phase \<or> lf_terminal_state l = None \<or> ended_at s
         \<or> (epoch \<noteq> None \<and> epoch \<noteq> Some (lf_epoch l))
         \<or> (peer \<noteq> None \<and> peer \<noteq> lf_grace_peer l)
      then (False, s)
      else if 0 < bk_active (backfills s)
      then (False, s\<lparr>life := l\<lparr>lf_grace_task := None\<rparr>\<rparr>)
      else if lf_terminal_state l = Some ''failed''
      then transition_terminal_locked Failed (lit ''connection_failed'') [] [] s
      else transition_terminal_locked Ended (lit ''connection_closed'') [] [] s)"

text \<open>The grace task fires once, with the epoch and the peer it was made for, and is done then.\<close>

definition expire_reconnect_grace :: "session \<Rightarrow> session" where
  "expire_reconnect_grace s =
     (case lf_grace_task (life s) of
        None \<Rightarrow> s
      | Some (epoch, peer) \<Rightarrow>
          (let s1 = snd (resolve_deferred_connection_state (Some epoch) (Some peer) s) in
           s1\<lparr>life := (life s1)\<lparr>lf_grace_task := None\<rparr>\<rparr>))"

text \<open>The connection states that a peer reports (\<open>handle_connection_state_change\<close>).\<close>

definition handle_connection_state_change ::
  "py_object \<Rightarrow> string \<Rightarrow> nat option \<Rightarrow> session \<Rightarrow> session" where
  "handle_connection_state_change peer conn gen s =
     (if conn = ''failed'' \<or> conn = ''closed'' then begin_transport_reconnect peer conn gen s
      else if conn = ''connected'' \<or> conn = ''completed'' then snd (recover_active_transport peer gen s)
      else s)"

section \<open>Acceptance\<close>

definition apply_peer_configuration :: "offer_configuration \<Rightarrow> session \<Rightarrow> session" where
  "apply_peer_configuration c s =
     s\<lparr>thread_id := Some (of_thread c), voice_id := Some (of_voice c), engine_id := Some (of_engine c),
       prompt_messages := of_prompts c, vad_adapter := of_vad c, stt_adapter := of_stt c\<rparr>"

datatype acceptance =
    Not_accepted
  | Join_switch nat
  | Switch_started switch_transaction
  | Accepted "py_object option"

definition selection_changes :: "candidate \<Rightarrow> session \<Rightarrow> bool" where
  "selection_changes c s = (case cd_config c of None \<Rightarrow> False
     | Some f \<Rightarrow> Some (of_voice f) \<noteq> voice_id s \<or> Some (of_engine f) \<noteq> engine_id s)"

definition previous_peer :: "py_object \<Rightarrow> session \<Rightarrow> py_object option" where
  "previous_peer peer s = (if peer_connection s \<noteq> peer then Some (peer_connection s) else None)"

definition accepted_track :: "candidate \<Rightarrow> py_object option \<Rightarrow> session \<Rightarrow> py_object option" where
  "accepted_track c track s = or_else (or_else track (cd_track c)) (outbound_track s)"

definition accepted_channel :: "candidate \<Rightarrow> session \<Rightarrow> py_object option" where
  "accepted_channel c s = or_else (cd_channel c) (data_channel s)"

definition retired_releaser :: "candidate \<Rightarrow> session \<Rightarrow> py_object option" where
  "retired_releaser c s =
     (if selection_changes c s \<and> engine_id s = Some ''qwen3_1_7b''
         \<and> (case cd_config c of None \<Rightarrow> False | Some f \<Rightarrow> of_engine f \<noteq> ''qwen3_1_7b'')
      then ls_releaser (leases s) else None)"

text \<open>The transaction of a switch, and the session that has started it.\<close>

definition new_switch :: "candidate \<Rightarrow> py_object \<Rightarrow> py_object option \<Rightarrow> session \<Rightarrow> switch_transaction" where
  "new_switch c peer track s =
     \<lparr>sw_generation = Suc (lf_switch_generation (life s)),
      sw_candidate_generation = cd_generation c, sw_peer = peer,
      sw_previous_peer = previous_peer peer s, sw_previous_track = outbound_track s,
      sw_accepted_track = accepted_track c track s, sw_accepted_channel = accepted_channel c s,
      sw_config = cd_config c,
      sw_cancellation = (if speech_in_progress (tts s) then Some (capture_turn_cancellation (tts s)) else None),
      sw_releaser = retired_releaser c s, sw_state_before = cv_state s,
      sw_stt_tokens = map fst (tq_admissions (stt s))\<rparr>"

definition start_switch :: "switch_transaction \<Rightarrow> session \<Rightarrow> session" where
  "start_switch sw s =
     (let l = clear_pending_peer (sw_peer sw) (life s);
          cancelling = (case sw_cancellation sw of None \<Rightarrow> {} | Some k \<Rightarrow> set_option (cc_turn k)) in
      s\<lparr>life := l\<lparr>lf_phase := Switching, lf_switch_generation := sw_generation sw,
                   lf_switch_owner := Some (sw_peer sw), lf_retiring_peer := sw_previous_peer sw,
                   lf_retiring_generation := Some (lf_active_generation l),
                   lf_switch_task := Some (sw_generation sw), lf_switch := Some sw\<rparr>,
        tts := (tts s)\<lparr>sd_cancelling := sd_cancelling (tts s) \<union> cancelling\<rparr>\<rparr>)"

definition accept_directly :: "candidate \<Rightarrow> py_object \<Rightarrow> py_object option \<Rightarrow> session \<Rightarrow> session" where
  "accept_directly c peer track s =
     (let s1 = s\<lparr>peer_connection := peer,
                life := (clear_pending_peer peer (life s))\<lparr>lf_active_generation := cd_generation c\<rparr>,
                outbound_track := accepted_track c track s, data_channel := accepted_channel c s\<rparr> in
      complete_transport_reconnect
        (case cd_config c of None \<Rightarrow> s1 | Some f \<Rightarrow> apply_peer_configuration f s1))"

definition joined_switch :: "py_object \<Rightarrow> lifecycle \<Rightarrow> nat option" where
  "joined_switch peer l =
     (if lf_phase l = Switching \<and> lf_switch_owner l = Some peer then lf_switch_task l else None)"

definition acceptable :: "candidate \<Rightarrow> py_object \<Rightarrow> nat option \<Rightarrow> session \<Rightarrow> bool" where
  "acceptable c peer gen s \<longleftrightarrow> cd_peer c = peer \<and> (gen = None \<or> gen = Some (cd_generation c))
     \<and> cd_epoch c = lf_epoch (life s) \<and> lf_phase (life s) \<noteq> Terminal \<and> \<not> ended_at s"

definition accept_pending_peer ::
  "py_object \<Rightarrow> nat option \<Rightarrow> py_object option \<Rightarrow> session \<Rightarrow> acceptance \<times> session" where
  "accept_pending_peer peer gen track s =
     (case joined_switch peer (life s) of
        Some t \<Rightarrow> (Join_switch t, s)
      | None \<Rightarrow>
        (case lf_candidate (life s) of
           None \<Rightarrow> (Not_accepted, s)
         | Some c \<Rightarrow>
             if \<not> acceptable c peer gen s then (Not_accepted, s)
             else if selection_changes c s
             then (let sw = new_switch c peer track s in (Switch_started sw, start_switch sw s))
             else (Accepted (previous_peer peer s), accept_directly c peer track s)))"

text \<open>
  The promotion of a generation: the outcome recorded for it, whether its transport is connected, and
  the acceptance of its candidate.
\<close>

definition transport_connected :: "string option \<Rightarrow> string option \<Rightarrow> bool" where
  "transport_connected conn ice \<longleftrightarrow>
     conn = Some ''connected'' \<or> ice = Some ''connected'' \<or> ice = Some ''completed''"

definition commit_pending_generation ::
  "nat \<Rightarrow> string option \<Rightarrow> string option \<Rightarrow> session \<Rightarrow> string \<times> acceptance \<times> session" where
  "commit_pending_generation gen conn ice s =
     (case peer_switch_generation_outcome gen s of
        Some r \<Rightarrow> (r, Not_accepted, s)
      | None \<Rightarrow>
        (case lf_candidate (life s) of
           None \<Rightarrow> (''stale'', Not_accepted, s)
         | Some c \<Rightarrow>
           if cd_generation c \<noteq> gen then (''stale'', Not_accepted, s)
           else if \<not> transport_connected conn ice then (''not_connected'', Not_accepted, s)
           else
             (case accept_pending_peer (cd_peer c) (Some gen) None s of
                (Accepted p, t) \<Rightarrow> (''committed'', Accepted p, t)
              | (r, t) \<Rightarrow>
                  (if lf_active_generation (life t) = gen \<and> peer_connection t = cd_peer c then ''committed''
                   else case peer_switch_generation_outcome gen t of Some q \<Rightarrow> q | None \<Rightarrow> ''stale'', r, t))))"

section \<open>The end of a switch\<close>

text \<open>
  The clean-up steps of a switch: what stops, closes and cancels is an argument, the result is the
  labels of the failed steps and what they leave unresolved.
\<close>

record switch_cleanup =
  wc_errors :: "string list"
  wc_peers :: "py_object list"
  wc_tracks :: "py_object list"

definition stop_switch_track ::
  "(py_object \<Rightarrow> bool) \<Rightarrow> string \<Rightarrow> py_object option \<Rightarrow> switch_cleanup \<Rightarrow> switch_cleanup" where
  "stop_switch_track stops label track w =
     (case track of None \<Rightarrow> w
      | Some t \<Rightarrow> if stops t then w
          else w\<lparr>wc_errors := wc_errors w @ [label], wc_tracks := wc_tracks w @ [t]\<rparr>)"

definition run_switch_cleanup ::
  "(py_object \<Rightarrow> bool) \<Rightarrow> (py_object \<Rightarrow> bool) \<Rightarrow> bool \<Rightarrow> switch_transaction \<Rightarrow> switch_cleanup" where
  "run_switch_cleanup stops closes cancels sw =
     (let w0 = \<lparr>wc_errors = [], wc_peers = [], wc_tracks = []\<rparr>;
          w1 = stop_switch_track stops ''old_playout'' (sw_previous_track sw) w0;
          w2 = (if sw_accepted_track sw = sw_previous_track sw then w1
                else stop_switch_track stops ''new_playout'' (sw_accepted_track sw) w1);
          w3 = (case sw_previous_peer sw of None \<Rightarrow> w2
                | Some p \<Rightarrow> if closes p then w2
                    else w2\<lparr>wc_errors := wc_errors w2 @ [''old_peer''], wc_peers := wc_peers w2 @ [p]\<rparr>) in
      if sw_cancellation sw \<noteq> None \<and> \<not> cancels
      then w3\<lparr>wc_errors := wc_errors w3 @ [''cancel'']\<rparr> else w3)"

definition owns_switch :: "switch_transaction \<Rightarrow> session \<Rightarrow> bool" where
  "owns_switch sw s \<longleftrightarrow>
     \<not> (lf_phase (life s) = Terminal \<or> ended_at s)
     \<and> lf_phase (life s) = Switching \<and> lf_switch_generation (life s) = sw_generation sw
     \<and> lf_switch_owner (life s) = Some (sw_peer sw)
     \<and> lf_switch_task (life s) = Some (sw_generation sw) \<and> lf_switch (life s) = Some sw"

definition abandon_switch :: "switch_transaction \<Rightarrow> lifecycle \<Rightarrow> lifecycle" where
  "abandon_switch sw l =
     (let l0 = record_peer_switch_outcome (sw_candidate_generation sw) ''failed'' l;
          l1 = (if lf_switch_task l0 = Some (sw_generation sw) then l0\<lparr>lf_switch_task := None\<rparr> else l0);
          l2 = (if lf_switch_owner l1 = Some (sw_peer sw) then l1\<lparr>lf_switch_owner := None\<rparr> else l1);
          l3 = (if lf_switch l2 = Some sw then l2\<lparr>lf_switch := None\<rparr> else l2) in
      if lf_retiring_peer l3 = sw_previous_peer sw
      then l3\<lparr>lf_retiring_peer := None, lf_retiring_generation := None\<rparr> else l3)"

definition abandoned_resources :: "switch_transaction \<Rightarrow> switch_cleanup \<Rightarrow> session \<Rightarrow> owned_cleanup list" where
  "abandoned_resources sw w s =
     (let peer_owned = (case cleanup s of None \<Rightarrow> False | Some c \<Rightarrow> sw_peer sw \<in> set (tc_owned_peers c));
          track_owned = (\<lambda>t. case cleanup s of None \<Rightarrow> False | Some c \<Rightarrow> t \<in> set (tc_owned_tracks c)) in
      (if sw_peer sw \<noteq> peer_connection s \<and> \<not> peer_owned then [(sw_peer sw, ''switch_ownership_lost'')] else [])
      @ (case sw_accepted_track sw of None \<Rightarrow> []
         | Some t \<Rightarrow> if t \<in> set (wc_tracks w) \<and> sw_accepted_track sw \<noteq> sw_previous_track sw \<and> \<not> track_owned t
             then [(t, ''switch_ownership_lost'')] else []))"

definition adopt_switch_media :: "switch_transaction \<Rightarrow> session \<Rightarrow> session" where
  "adopt_switch_media sw s =
     s\<lparr>peer_connection := sw_peer sw, outbound_track := sw_accepted_track sw,
       data_channel := sw_accepted_channel sw\<rparr>"

definition fail_switch :: "switch_transaction \<Rightarrow> switch_cleanup \<Rightarrow> session \<Rightarrow> session" where
  "fail_switch sw w s =
     (let s1 = adopt_switch_media sw s;
          l = record_peer_switch_outcome (sw_candidate_generation sw) ''failed'' (life s1) in
      snd (transition_terminal_locked Failed (lit ''engine_switch_failed'') (wc_peers w) (wc_tracks w)
        (s1\<lparr>life := l\<lparr>lf_switch_owner := None, lf_switch_task := None, lf_retiring_peer := None,
                    lf_retiring_generation := None\<rparr>\<rparr>)))"

definition conversational :: "call_state \<Rightarrow> bool" where
  "conversational s \<longleftrightarrow> s = Understanding \<or> s = Thinking"

definition commit_switch :: "switch_transaction \<Rightarrow> session \<Rightarrow> session" where
  "commit_switch sw s =
     (let s1 = adopt_switch_media sw s;
          l = record_peer_switch_outcome (sw_candidate_generation sw) ''committed''
                ((life s1)\<lparr>lf_active_generation := sw_candidate_generation sw\<rparr>);
          s2 = s1\<lparr>life := l\<rparr>;
          s3 = (case sw_config sw of None \<Rightarrow> s2 | Some f \<Rightarrow> apply_peer_configuration f s2);
          kept = (if conversational (sw_state_before sw) \<and> conversational (cv_state s3)
                  then Some (cv_state s3) else None);
          s4 = complete_transport_reconnect s3;
          s5 = s4\<lparr>life := (life s4)\<lparr>lf_switch_owner := None, lf_switch_task := None, lf_switch := None,
                   lf_retiring_peer := None, lf_retiring_generation := None\<rparr>\<rparr> in
      if sw_cancellation sw \<noteq> None \<and> \<not> over_state (cv_state s5) then s5\<lparr>cv_state := Listening\<rparr>
      else case kept of None \<Rightarrow> s5 | Some c \<Rightarrow> s5\<lparr>cv_state := c\<rparr>)"

definition drop_releaser :: "switch_transaction \<Rightarrow> session \<Rightarrow> session" where
  "drop_releaser sw s =
     (if ls_releaser (leases s) = sw_releaser sw
      then s\<lparr>leases := (leases s)\<lparr>ls_releaser := None\<rparr>\<rparr> else s)"

definition finish_peer_switch ::
  "switch_transaction \<Rightarrow> switch_cleanup \<Rightarrow> bool \<Rightarrow> session \<Rightarrow> bool \<times> owned_cleanup list \<times> session" where
  "finish_peer_switch sw w lease_released s =
     (if \<not> owns_switch sw s
      then (let s1 = s\<lparr>life := abandon_switch sw (life s)\<rparr> in (False, abandoned_resources sw w s1, s1))
      else if wc_errors w \<noteq> [] then (False, [], fail_switch sw w s)
      else if sw_releaser sw = None then (True, [], commit_switch sw s)
      else if \<not> lease_released then (False, [], fail_switch sw w s)
      else (True, [], commit_switch sw (drop_releaser sw s)))"

end
