(* ===== verification/UserTurns.thy ===== *)
theory UserTurns
  imports PeerSwitch
begin

text \<open>
  The user's side of a call (\<open>ai-backend/app/call/session.py\<close>): the admission of microphone
  frames, the claim of a turn for transcription, the commit and the settlement of its event, the
  backfill of audio recorded during a reconnect, and the mute, interrupt and selection controls.
  Each function is a stretch between two awaits, most of them a critical section of the lifecycle
  lock.
\<close>

section \<open>Microphone frames\<close>

datatype inbound = Dropped | Held | Collected bool

definition drop_frame :: "session \<Rightarrow> session" where
  "drop_frame s = s\<lparr>dropped_frames := Suc (dropped_frames s)\<rparr>"

definition handle_inbound_audio_frame ::
  "vad_settings \<Rightarrow> vad \<Rightarrow> rat \<Rightarrow> ptext \<Rightarrow> pcm_frame \<Rightarrow> session \<Rightarrow> inbound \<times> session" where
  "handle_inbound_audio_frame vs vad now stamp f s0 =
     (let s = s0\<lparr>incoming_frames := Suc (incoming_frames s0)\<rparr> in
      if ended_at s \<or> lf_phase (life s) = Terminal \<or> muted s
         \<or> over_state (cv_state s) \<or> cv_state s = Rehearsing \<or> cv_state s = Speaking
      then (Dropped, drop_frame s)
      else if cv_state s = Understanding \<or> cv_state s = Thinking \<or> cv_state s = Rehearsing
      then (Dropped, drop_frame s)
      else
        let ut1 = release_reconnect_live_frames_if_expired vs vad now stamp (audio s);
            (held, ut2) = hold_reconnect_live_frame vs vad now stamp f ut1 in
        if held then (Held, s\<lparr>audio := ut2\<rparr>)
        else
          let (r, ut3) = append_turn_frame vs vad now stamp f ut2 in
          (Collected (end_of_turn r), s\<lparr>audio := ut3\<rparr>))"

definition mark_media_reconnect_pending :: "session \<Rightarrow> session" where
  "mark_media_reconnect_pending s =
     (if cv_state s = Listening \<and> ut_seen (audio s) \<and> ut_frames (audio s) \<noteq> []
      then s\<lparr>audio := (audio s)\<lparr>ut_grace_pending := True\<rparr>\<rparr> else s)"

section \<open>Transcription of a turn\<close>

datatype stt_claim =
    Claim_joined stt_finalization
  | Claim_terminal
  | Claim_empty
  | Claim_new stt_finalization

definition claim_stt_finalization :: "bool \<Rightarrow> ptext \<Rightarrow> session \<Rightarrow> stt_claim \<times> session" where
  "claim_stt_finalization across_reconnect stamp s =
     (case tq_active (stt s) of
        Some fz \<Rightarrow> (Claim_joined fz, s)
      | None \<Rightarrow>
          if call_over s then (Claim_terminal, s)
          else if ut_frames (audio s) = [] then (Claim_empty, s)
          else
            let n = Suc (tq_generation (stt s));
                fz = \<lparr>fz_token = n, fz_frames = ut_frames (audio s),
                      fz_started = (case ut_started (audio s) of None \<Rightarrow> stamp | Some t \<Rightarrow> t)\<rparr>;
                a = \<lparr>st_epoch = lf_epoch (life s), st_reconnect = across_reconnect, st_running = True,
                     st_owner = Some Understanding\<rparr> in
            (Claim_new fz,
             s\<lparr>audio := clear_claimed_turn (audio s), cv_state := Understanding,
               stt := (stt s)\<lparr>tq_generation := n,
                         tq_admissions := dset n a (tq_admissions (stt s)), tq_active := Some fz\<rparr>\<rparr>))"

datatype staleness = Fresh | Superseded | Call_terminal

definition stale_stt_turn :: "nat \<Rightarrow> session \<Rightarrow> staleness" where
  "stale_stt_turn token s =
     (let l = life s in
      case dget (tq_admissions (stt s)) token of
        None \<Rightarrow> Superseded
      | Some a \<Rightarrow>
          if call_over s then Call_terminal
          else if st_epoch a \<noteq> lf_epoch l
             \<or> (lf_phase l \<noteq> Stable \<and> lf_phase l \<noteq> Reconnect_phase
                \<and> \<not> (lf_phase l = Switching
                     \<and> (case lf_switch l of None \<Rightarrow> False | Some sw \<Rightarrow> token \<in> set (sw_stt_tokens sw))
                     \<and> st_running a))
          then Superseded
          else Fresh)"

definition idle_state :: "session \<Rightarrow> call_state" where
  "idle_state s = (if lf_phase (life s) = Reconnect_phase then Reconnecting else Listening)"

definition release_stt_admission :: "nat \<Rightarrow> session \<Rightarrow> session" where
  "release_stt_admission token s =
     (case dget (tq_admissions (stt s)) token of
        None \<Rightarrow> s
      | Some a \<Rightarrow>
          let rest = dpop token (tq_admissions (stt s));
              s1 = s\<lparr>stt := (stt s)\<lparr>tq_admissions := rest\<rparr>\<rparr> in
          if Some (cv_state s) = st_owner a \<and> \<not> ended_at s \<and> lf_phase (life s) \<noteq> Terminal \<and> rest = []
          then s1\<lparr>cv_state := idle_state s\<rparr> else s1)"

text \<open>The end of the finalization task, however it ended.\<close>

definition finish_stt_finalization :: "nat \<Rightarrow> session \<Rightarrow> session" where
  "finish_stt_finalization token s =
     (let s1 = release_stt_admission token s in
      case tq_active (stt s1) of
        None \<Rightarrow> s1
      | Some fz \<Rightarrow> if fz_token fz = token then s1\<lparr>stt := (stt s1)\<lparr>tq_active := None\<rparr>\<rparr> else s1)"

definition user_turn_id :: "nat \<Rightarrow> ptext" where
  "user_turn_id n = lit (''user-turn-'' @ nat_str n)"

text \<open>The start of transcription: a turn near silence is dropped, any other gets the next number.\<close>

definition begin_transcription :: "vad_settings \<Rightarrow> stt_finalization \<Rightarrow> session \<Rightarrow> nat option \<times> session" where
  "begin_transcription vs fz s =
     (let fs = trim_trailing_silence vs (fz_frames fz) in
      if near_silence vs fs then (None, s)
      else
        let n = Suc (turn_index s);
            s1 = s\<lparr>turn_index := n\<rparr> in
        (Some n,
         if ended_at s then s1
         else snd (commit_session_event (Some (simple_event (lit ''state'') (session_id s)
                (Some (user_turn_id n)) [(lit ''state'', pstr ''understanding'')])) s1)))"

text \<open>The event for what the transcriber returned: an exception, or a status and a transcript.\<close>

definition transcription_event ::
  "ptext \<Rightarrow> ptext \<Rightarrow> ptext \<Rightarrow> ptext \<Rightarrow> (ptext \<times> ptext) option \<Rightarrow> event \<times> call_state" where
  "transcription_event sid turn started ended_time result =
     (let failure = (failed_event sid (lit ''call_stt_failed'')
            (lit ''Speech transcription failed. Please try speaking again.'') True (Some turn), Listening) in
      case result of
        None \<Rightarrow> failure
      | Some (status, transcript) \<Rightarrow>
          if status \<noteq> lit ''accepted'' \<or> strip transcript = [] then failure
          else (user_final_event sid turn (strip transcript) (Some started) (Some ended_time), Thinking))"

definition commit_stt_event ::
  "nat \<Rightarrow> event \<Rightarrow> call_state \<Rightarrow> session \<Rightarrow> (staleness + stt_settlement) \<times> session" where
  "commit_stt_event token e next_state s =
     (if stale_stt_turn token s \<noteq> Fresh then (Inl (stale_stt_turn token s), s)
      else
        let (n, s1) = commit_session_event (Some e) s;
            pending = (if next_state = Thinking then Thinking else cv_state s);
            se = \<lparr>se_token = token, se_entry = n, se_pending = pending, se_success = next_state\<rparr>;
            owned = (case dget (tq_admissions (stt s)) token of None \<Rightarrow> tq_admissions (stt s)
              | Some a \<Rightarrow> dset token (a\<lparr>st_owner := None\<rparr>) (tq_admissions (stt s))) in
        (Inr se, s1\<lparr>cv_state := pending,
                   stt := (stt s)\<lparr>tq_admissions := owned, tq_settlement := Some se\<rparr>\<rparr>))"

definition settle_stt_event :: "stt_settlement \<Rightarrow> bool \<Rightarrow> session \<Rightarrow> session" where
  "settle_stt_event se delivered s =
     (if tq_settlement (stt s) \<noteq> Some se then s
      else
        s\<lparr>cv_state := (if \<not> ended_at s \<and> lf_phase (life s) \<noteq> Terminal \<and> cv_state s = se_pending se
                       then (if delivered then se_success se else idle_state s) else cv_state s),
          stt := (stt s)\<lparr>tq_settlement := None\<rparr>\<rparr>)"

section \<open>Backfilled audio\<close>

datatype backfill_response =
    Backfill_terminal "ptext option"
  | Backfill_skipped string
  | Backfill_admitted nat

definition skip_epoch_required :: backfill_response where
  "skip_epoch_required = Backfill_skipped ''audio_input_epoch_required''"

definition skip_epoch_invalid :: backfill_response where
  "skip_epoch_invalid = Backfill_skipped ''audio_input_epoch_invalid''"

definition admit_backfill_at :: "nat \<Rightarrow> session \<Rightarrow> backfill_response \<times> session" where
  "admit_backfill_at epoch s =
     (if audio_epoch s < epoch then (skip_epoch_invalid, s)
      else
        let b = backfills s;
            n = Suc (bk_generation b) in
        (Backfill_admitted n,
         s\<lparr>backfills := b\<lparr>bk_active := Suc (bk_active b), bk_generation := n,
             bk_admissions := dset n \<lparr>ba_epoch = lf_epoch (life s), ba_audio_epoch = epoch\<rparr> (bk_admissions b)\<rparr>\<rparr>))"

definition reserve_backfill ::
  "ptext option \<Rightarrow> nat option \<Rightarrow> session \<Rightarrow> backfill_response \<times> session" where
  "reserve_backfill bid epoch s =
     (let now = audio_epoch s;
          b = backfills s in
      if call_over s then (Backfill_terminal (end_reason s), s)
      else
        case (if bid = Some [] then None else bid) of
          Some i \<Rightarrow>
            (case dget (bk_epochs b) i of
               Some reserved \<Rightarrow> admit_backfill_at reserved s
             | None \<Rightarrow>
                 if epoch = None \<and> 0 < now then (skip_epoch_required, s)
                 else
                   let reserved = (case epoch of None \<Rightarrow> now | Some e \<Rightarrow> e) in
                   if now < reserved then (skip_epoch_invalid, s)
                   else admit_backfill_at reserved
                          (s\<lparr>backfills := b\<lparr>bk_epochs := dset i reserved (bk_epochs b)\<rparr>\<rparr>))
        | None \<Rightarrow>
            (case epoch of
               None \<Rightarrow> if 0 < now then (skip_epoch_required, s) else admit_backfill_at now s
             | Some e \<Rightarrow> admit_backfill_at e s))"

definition named_backfill :: "ptext option \<Rightarrow> ptext set" where
  "named_backfill bid = (case bid of None \<Rightarrow> {} | Some i \<Rightarrow> if i = [] then {} else {i})"

definition note_backfill :: "ptext option \<Rightarrow> session \<Rightarrow> session" where
  "note_backfill bid s =
     s\<lparr>backfills := (backfills s)\<lparr>bk_ids := bk_ids (backfills s) \<union> named_backfill bid\<rparr>\<rparr>"

datatype backfill_entry = Entry_skipped | Entry_duplicate | Entry_open

text \<open>The checks before the audio of an admitted backfill is used.\<close>

definition enter_backfill :: "nat \<Rightarrow> ptext option \<Rightarrow> session \<Rightarrow> backfill_entry \<times> session" where
  "enter_backfill token bid s =
     (case dget (bk_admissions (backfills s)) token of
        None \<Rightarrow> (Entry_skipped, s)
      | Some a \<Rightarrow>
          if ba_audio_epoch a \<noteq> audio_epoch s then (Entry_skipped, note_backfill bid s)
          else if named_backfill bid \<inter> bk_ids (backfills s) \<noteq> {} then (Entry_duplicate, s)
          else if muted s \<or> cv_state s = Ended \<or> cv_state s = Speaking \<or> cv_state s = Understanding
             \<or> cv_state s = Thinking \<or> cv_state s = Rehearsing
          then (Entry_skipped, s)
          else (Entry_open, s))"

text \<open>
  The audio itself: the frames decoded from it, and those that remain when the overlap with the live
  turn is cut, are arguments. The result is \<open>None\<close> when the audio is not used, else whether the turn
  is to be finalized.
\<close>

definition release_after_backfill ::
  "vad_settings \<Rightarrow> vad \<Rightarrow> rat \<Rightarrow> ptext \<Rightarrow> bool \<Rightarrow> bool \<Rightarrow> session \<Rightarrow> bool \<times> session" where
  "release_after_backfill vs vad now stamp over final s =
     (if \<not> final then (over, s)
      else case release_reconnect_live_frames vs vad now stamp (audio s) of
             (released, ut) \<Rightarrow> (over \<or> released, s\<lparr>audio := ut\<rparr>))"

definition use_backfill ::
  "vad_settings \<Rightarrow> vad \<Rightarrow> rat \<Rightarrow> ptext \<Rightarrow> ptext option \<Rightarrow> pcm_frame list \<Rightarrow> pcm_frame list \<Rightarrow> bool
   \<Rightarrow> session \<Rightarrow> bool option \<times> session" where
  "use_backfill vs vad now stamp bid decoded frames final s =
     (if decoded \<noteq> [] \<and> cv_state s \<noteq> Listening then (None, s)
      else if decoded = [] \<or> frames = []
      then
        let (released, s1) = release_after_backfill vs vad now stamp False final
              (if decoded = [] then s else note_backfill bid s) in
        (Some (final \<and> should_finalize_after_backfill vs released final (audio s1)), s1)
      else
        let s1 = note_backfill bid s;
            pending = ut_grace_pending (audio s1);
            (over, ut) = append_frames vs vad now stamp frames False (audio s1);
            s2 = s1\<lparr>audio := ut\<lparr>ut_grace_pending := (pending \<or> ut_grace_pending ut)\<rparr>\<rparr>;
            (over', s3) = release_after_backfill vs vad now stamp over final s2 in
        (Some (should_finalize_after_backfill vs over' final (audio s3)), s3))"

definition leave_backfill :: "nat \<Rightarrow> session \<Rightarrow> session" where
  "leave_backfill token s =
     (let b = backfills s;
          l = life s;
          b' = b\<lparr>bk_admissions := dpop token (bk_admissions b), bk_active := bk_active b - 1\<rparr> in
      s\<lparr>backfills := b',
        life := (case lf_grace_peer l of
                   Some p \<Rightarrow> if bk_active b' = 0 \<and> lf_phase l = Reconnect_phase \<and> lf_grace_task l = None
                     then l\<lparr>lf_grace_task := Some (lf_epoch l, p)\<rparr> else l
                 | None \<Rightarrow> l)\<rparr>)"

section \<open>Controls\<close>

definition ensure_control_mutable :: "session \<Rightarrow> session_error + unit" where
  "ensure_control_mutable s =
     (if call_over s then Inl (Terminal_call ''cannot mutate controls on a terminal call'') else Inr ())"

definition set_muted :: "bool \<Rightarrow> session \<Rightarrow> (session_error + event) \<times> session" where
  "set_muted m s =
     (if call_over s then (Inl (Terminal_call ''cannot mutate controls on a terminal call''), s)
      else
        let s1 = s\<lparr>muted := m, mute_revision := Suc (mute_revision s)\<rparr>;
            s2 = (if m \<and> \<not> muted s
                  then s1\<lparr>audio_epoch := Suc (audio_epoch s), audio := discard_reconnect_live_frames (audio s)\<rparr>
                  else s1);
            s3 = (if m then s2\<lparr>audio := clear_unheard_turn (audio s2)\<rparr> else s2);
            e = simple_event (lit ''muted'') (session_id s) None
                  [(lit ''muted'', PBool m), (lit ''audio_input_epoch'', PInt (int (audio_epoch s3))),
                   (lit ''mute_revision'', PInt (int (mute_revision s3)))] in
        (Inr e, snd (commit_session_event (Some e) s3)))"

definition interrupt_begin :: "session \<Rightarrow> (session_error + captured_cancellation) \<times> session" where
  "interrupt_begin s =
     (if call_over s then (Inl (Terminal_call ''cannot mutate controls on a terminal call''), s)
      else (Inr (capture_turn_cancellation (tts s)), s\<lparr>was_interrupted := True\<rparr>))"

definition interrupt_publish :: "event \<Rightarrow> session \<Rightarrow> (session_error + event) \<times> session" where
  "interrupt_publish ctx s =
     (if call_over s then (Inl (Terminal_call ''cannot mutate controls on a terminal call''), s)
      else
        let e = simple_event (lit ''interrupted'') (session_id s) None
                  ((lit ''receiver_drain_ms'', PInt 250) # ctx) in
        (Inr e, snd (commit_session_event (Some e) (s\<lparr>cv_state := Interrupted\<rparr>))))"

definition interrupt_settle :: "session \<Rightarrow> session" where
  "interrupt_settle s =
     (if \<not> ended_at s \<and> lf_phase (life s) \<noteq> Terminal \<and> cv_state s = Interrupted
      then s\<lparr>cv_state := Listening\<rparr> else s)"

definition update_selection_begin ::
  "string option \<Rightarrow> string option \<Rightarrow> session \<Rightarrow> session_error + captured_cancellation option" where
  "update_selection_begin voice engine s =
     (if call_over s then Inl (Terminal_call ''cannot mutate controls on a terminal call'')
      else Inr (if (voice \<noteq> voice_id s \<or> engine \<noteq> engine_id s) \<and> speech_in_progress (tts s)
                then Some (capture_turn_cancellation (tts s)) else None))"

definition update_selection_end ::
  "string option \<Rightarrow> string option \<Rightarrow> captured_cancellation option \<Rightarrow> session
   \<Rightarrow> (session_error + unit) \<times> session" where
  "update_selection_end voice engine captured s =
     (if call_over s then (Inl (Terminal_call ''cannot mutate controls on a terminal call''), s)
      else (Inr (), (if captured \<noteq> None then s\<lparr>cv_state := Listening\<rparr> else s)
                      \<lparr>voice_id := voice, engine_id := engine\<rparr>))"

end
