(* ===== verification/SpeechTurns.thy ===== *)
theory SpeechTurns
  imports UserTurns
begin

text \<open>
  The assistant's side of a call (\<open>ai-backend/app/call/session.py\<close>): the admission of a speech
  segment, which claims the segment in the ledger and installs the one owner of speech generation,
  its promotion and release, the cancellation of a turn, and the ways a turn of speech ends. SHA-256
  is the parameter \<open>sha\<close> of the ledger. Several of these write \<open>state\<close> without the guard that the
  lock-protected operations have; they are modelled as they are.
\<close>

section \<open>Admission\<close>

datatype speech_claim =
    Speech_rejected session_error
  | Speech_waits nat
  | Speech_waits_segment nat
  | Speech_cached event
  | Speech_admitted "event segment" speech_admission

definition speech_open :: "accepted_configuration option \<Rightarrow> session \<Rightarrow> session_error + unit" where
  "speech_open config s =
     (case config of
        Some r \<Rightarrow> validate_speech_configuration r s
      | None \<Rightarrow>
          if ended_at s \<or> lf_phase (life s) \<noteq> Stable \<or> over_state (cv_state s)
          then Inl (Selection_rejected ''accepted call configuration changed before speech'')
          else Inr ())"

definition install_admission ::
  "string \<Rightarrow> event segment \<Rightarrow> py_object option \<Rightarrow> py_object option \<Rightarrow> session
   \<Rightarrow> speech_admission \<times> session" where
  "install_admission turn seg adapter task s =
     (let d = tts s;
          n = Suc (sd_generation d);
          a = \<lparr>sa_token = n, sa_epoch = lf_epoch (life s), sa_turn = turn,
               sa_request = worker_request_id seg, sa_adapter = adapter, sa_task = task\<rparr> in
      (a, s\<lparr>tts := d\<lparr>sd_generation := n, sd_admission := Some a, sd_task := task, sd_adapter := adapter,
                     sd_request := Some (worker_request_id seg), sd_turn := Some turn,
                     sd_cancel_requested := False, sd_last_cancel := None\<rparr>,
            cv_state := Rehearsing\<rparr>))"

text \<open>One round of the admission loop; a waiter sends the caller round again.\<close>

definition admit_tts_segment ::
  "(string \<Rightarrow> string) \<Rightarrow> string \<Rightarrow> string \<Rightarrow> bool \<Rightarrow> string option \<Rightarrow> int option
   \<Rightarrow> accepted_configuration option \<Rightarrow> py_object option \<Rightarrow> py_object option \<Rightarrow> session
   \<Rightarrow> speech_claim \<times> session" where
  "admit_tts_segment sha turn txt final sid ord config adapter task s =
     (case speech_open config s of
        Inl e \<Rightarrow> (Speech_rejected e, s)
      | Inr _ \<Rightarrow>
        (case sd_admission (tts s) of
           Some a \<Rightarrow> (Speech_waits (sa_token a), s)
         | None \<Rightarrow>
           (case claim_tts_segment_locked sha turn (sha txt) final sid ord (speech_of s) of
              (Inl e, sp) \<Rightarrow> (Speech_rejected (Ledger_error e), s\<lparr>speech_of := sp\<rparr>)
            | (Inr (seg, cached, waiter), sp) \<Rightarrow>
                (case waiter of
                   Some w \<Rightarrow> (Speech_waits_segment w, s\<lparr>speech_of := sp\<rparr>)
                 | None \<Rightarrow>
                     (case cached of
                        Some r \<Rightarrow> (Speech_cached r, s\<lparr>speech_of := sp\<rparr>)
                      | None \<Rightarrow>
                          (let (a, s') = install_admission turn seg adapter task (s\<lparr>speech_of := sp\<rparr>) in
                           (Speech_admitted seg a, s')))))))"

definition promote_speech_admission ::
  "speech_admission \<Rightarrow> accepted_configuration option \<Rightarrow> session \<Rightarrow> session_error + unit" where
  "promote_speech_admission a config s =
     bind_res (case config of None \<Rightarrow> Inr () | Some r \<Rightarrow> validate_speech_configuration r s) (\<lambda>_.
       if sd_admission (tts s) \<noteq> Some a \<or> sa_epoch a \<noteq> lf_epoch (life s)
          \<or> lf_phase (life s) \<noteq> Stable
          \<or> sa_turn a \<in> sd_cancelled (tts s) \<or> sa_turn a \<in> sd_cancelling (tts s)
       then Inl (Selection_rejected ''accepted call configuration changed before speech generation'')
       else Inr ())"

definition clear_active_tts :: "speech_desk \<Rightarrow> speech_desk" where
  "clear_active_tts d = d\<lparr>sd_adapter := None, sd_request := None, sd_turn := None,
     sd_cancel_requested := False, sd_metrics := None\<rparr>"

definition release_speech_admission :: "speech_admission \<Rightarrow> session \<Rightarrow> session" where
  "release_speech_admission a s =
     (let d = tts s in
      if sd_admission d \<noteq> Some a then s
      else
        let d1 = d\<lparr>sd_admission := None\<rparr>;
            d2 = (if sd_task d1 = sa_task a then d1\<lparr>sd_task := None\<rparr> else d1);
            d3 = (if sd_turn d2 = Some (sa_turn a) \<and> sd_request d2 = Some (sa_request a)
                     \<and> sd_adapter d2 = sa_adapter a
                  then clear_active_tts d2 else d2) in
        s\<lparr>tts := d3\<lparr>sd_done := insert (sa_token a) (sd_done d3)\<rparr>\<rparr>)"

text \<open>The segment attempt of an admission that is not promoted is given back.\<close>

definition abandon_speech :: "string \<Rightarrow> event segment \<Rightarrow> speech_admission \<Rightarrow> session \<Rightarrow> session" where
  "abandon_speech turn seg a s =
     release_speech_admission a
       (s\<lparr>speech_of := release_tts_segment_attempt turn seg (speech_of s)\<rparr>)"

section \<open>Cancellation\<close>

definition cancel_target :: "string option \<Rightarrow> captured_cancellation \<Rightarrow> string option" where
  "cancel_target turn cap = or_text turn (cc_turn cap)"

definition cancel_mark :: "string option \<Rightarrow> session \<Rightarrow> session" where
  "cancel_mark target s =
     s\<lparr>tts := (tts s)\<lparr>sd_cancelling := sd_cancelling (tts s) \<union> set_option target\<rparr>\<rparr>"

definition cancel_ledger :: "string option \<Rightarrow> session \<Rightarrow> session" where
  "cancel_ledger target s =
     (case target of None \<Rightarrow> s
      | Some t \<Rightarrow> s\<lparr>speech_of := cancel_tts_turn_locked t (speech_of s)\<rparr>)"

text \<open>
  The request to the worker: which request is cancelled at which adapter, if any. Adapters without a
  \<open>cancel\<close> method are those for which \<open>cancellable\<close> is false.
\<close>

definition cancel_active_generation ::
  "(py_object \<Rightarrow> bool) \<Rightarrow> string option \<Rightarrow> py_object option \<Rightarrow> session
   \<Rightarrow> (string \<times> py_object) option \<times> session" where
  "cancel_active_generation cancellable request adapter s =
     (let d = tts s;
          rq = or_text request (sd_request d);
          ad = or_else adapter (sd_adapter d);
          current = (rq \<noteq> None \<and> rq = sd_request d \<and> ad = sd_adapter d) in
      case (rq, ad) of
        (Some r, Some a) \<Rightarrow>
          if current \<and> sd_cancel_requested d then (None, s)
          else if \<not> cancellable a then (None, s)
          else (Some (r, a), if current then s\<lparr>tts := d\<lparr>sd_cancel_requested := True\<rparr>\<rparr> else s)
      | _ \<Rightarrow> (None, s))"

definition cancel_context ::
  "ptext \<Rightarrow> string option \<Rightarrow> string option \<Rightarrow> bool option \<Rightarrow> event option \<Rightarrow> event" where
  "cancel_context cause target request ack final =
     [(lit ''control_cause'', PStr cause)]
     @ (case target of None \<Rightarrow> [] | Some t \<Rightarrow> [(lit ''cancelled_turn_id'', pstr t)])
     @ (case request of None \<Rightarrow> [] | Some r \<Rightarrow> [(lit ''cancelled_request_id'', pstr r)])
     @ (case ack of None \<Rightarrow> [] | Some b \<Rightarrow> [(lit ''cancel_acknowledged'', PBool b)])
     @ (case final of None \<Rightarrow> [] | Some f \<Rightarrow> [(lit ''tts_playback_final'', PDict f)])"

definition cancel_finish ::
  "ptext \<Rightarrow> string option \<Rightarrow> captured_cancellation \<Rightarrow> bool option \<Rightarrow> event option \<Rightarrow> session
   \<Rightarrow> event \<times> session" where
  "cancel_finish cause target cap ack metrics s =
     (let d = tts s;
          final = or_else metrics (cc_pending_final cap);
          ctx = cancel_context cause target (cc_request cap) ack final;
          d1 = d\<lparr>sd_cancelled := sd_cancelled d \<union> set_option target,
                 sd_cancelling := sd_cancelling d - set_option target,
                 sd_last_cancel := Some ctx\<rparr>;
          d2 = (if sd_pending_turn d1 = cc_pending_turn cap then clear_pending_speech_terminal d1 else d1) in
      (ctx, s\<lparr>tts := d2\<rparr>))"

definition cancel_drop_task :: "captured_cancellation \<Rightarrow> session \<Rightarrow> session" where
  "cancel_drop_task cap s =
     (if sd_task (tts s) = cc_task cap then s\<lparr>tts := (tts s)\<lparr>sd_task := None\<rparr>\<rparr> else s)"

text \<open>The cancellation of one web turn runs once: later requests join its task.\<close>

definition cancel_speech_turn :: "string \<Rightarrow> session \<Rightarrow> (session_error + bool) \<times> session" where
  "cancel_speech_turn turn s =
     (if call_over s then (Inl (Terminal_call ''cannot mutate controls on a terminal call''), s)
      else if turn \<in> cancel_tasks s then (Inr False, s)
      else (Inr True, s\<lparr>cancel_tasks := insert turn (cancel_tasks s)\<rparr>))"

definition cancel_speech_turn_begin :: "string \<Rightarrow> session \<Rightarrow> (session_error + bool) \<times> session" where
  "cancel_speech_turn_begin turn s =
     (if call_over s then (Inl (Terminal_call ''cannot mutate controls on a terminal call''), s)
      else
        let owns = (sd_turn (tts s) = Some turn \<or> sd_pending_turn (tts s) = Some turn) in
        (Inr owns, if owns then s else cancel_ledger (Some turn) s))"

definition cancel_speech_turn_end :: "session \<Rightarrow> (session_error + unit) \<times> session" where
  "cancel_speech_turn_end s =
     (if call_over s then (Inl (Terminal_call ''cannot mutate controls on a terminal call''), s)
      else (Inr (), s\<lparr>cv_state := Listening\<rparr>))"

section \<open>How speech ends\<close>

definition audio_started :: "string \<Rightarrow> string \<Rightarrow> string \<Rightarrow> event \<Rightarrow> session \<Rightarrow> session" where
  "audio_started turn voice engine extra s =
     snd (commit_session_event (Some (simple_event ai_audio_started (session_id s) (Some (lit turn))
            ([(lit ''voice_id'', pstr voice), (lit ''engine_id'', pstr engine)] @ extra)))
       (s\<lparr>cv_state := Speaking\<rparr>))"

definition ai_done_event :: "string \<Rightarrow> string \<Rightarrow> string \<Rightarrow> event \<Rightarrow> session \<Rightarrow> event" where
  "ai_done_event turn voice engine final s =
     simple_event ai_done (session_id s) (Some (lit turn))
       [(lit ''voice_id'', pstr voice), (lit ''engine_id'', pstr engine),
        (lit ''tts_playback_final'', PDict final)]"

definition speech_turn_done :: "string \<Rightarrow> string \<Rightarrow> string \<Rightarrow> event \<Rightarrow> session \<Rightarrow> session" where
  "speech_turn_done turn voice engine final s =
     snd (commit_session_event (Some (ai_done_event turn voice engine final s))
       (s\<lparr>tts := clear_pending_speech_terminal (tts s), cv_state := Listening\<rparr>))"

definition speech_failed_event :: "string \<Rightarrow> string \<Rightarrow> session \<Rightarrow> event" where
  "speech_failed_event turn engine s =
     dset (lit ''engine_id'') (pstr engine)
       (failed_event (session_id s) (lit ''call_tts_failed'')
          (lit ''Speech playback failed. Please try again.'') True (Some (lit turn)))"

text \<open>
  The four ways the streaming of a segment ends after generation: cancelled, the turn complete,
  queued for the completion of its turn, or an exception. The metrics of the playback come with the
  way the generation went: \<open>Inr\<close> when it returned, \<open>Inl\<close> when it raised.
\<close>

datatype stream_end =
    Stream_cancelled
  | Stream_done event
  | Stream_queued event
  | Stream_raised event

definition turn_cancelled :: "string \<Rightarrow> session \<Rightarrow> bool" where
  "turn_cancelled turn s \<longleftrightarrow> turn \<in> sd_cancelled (tts s) \<or> turn \<in> sd_cancelling (tts s)"

definition finish_streaming ::
  "string \<Rightarrow> string \<Rightarrow> string \<Rightarrow> bool \<Rightarrow> event + event \<Rightarrow> session \<Rightarrow> stream_end \<times> session" where
  "finish_streaming turn voice engine is_final metrics s =
     (case metrics of
        Inr f \<Rightarrow>
          if turn_cancelled turn s then (Stream_cancelled, s\<lparr>cv_state := Listening\<rparr>)
          else if is_final
          then (Stream_done (ai_done_event turn voice engine f s), speech_turn_done turn voice engine f s)
          else (Stream_queued f,
                s\<lparr>tts := (tts s)\<lparr>sd_pending_turn := Some turn, sd_pending_voice := Some voice,
                              sd_pending_engine := Some engine, sd_pending_final := Some f\<rparr>\<rparr>)
      | Inl f \<Rightarrow>
          if turn_cancelled turn s
          then (Stream_cancelled, if over_state (cv_state s) then s else s\<lparr>cv_state := Listening\<rparr>)
          else let e = dset (lit ''tts_playback_final'') (PDict f) (speech_failed_event turn engine s) in
               (Stream_raised e, snd (commit_session_event (Some e) (s\<lparr>cv_state := Listening\<rparr>))))"

text \<open>What \<open>speak_text\<close> does with the result: the segment is committed, its turn cancelled, or its attempt released.\<close>

definition store_speech_result ::
  "string \<Rightarrow> event segment \<Rightarrow> stream_end \<Rightarrow> event \<Rightarrow> session \<Rightarrow> session_error + session" where
  "store_speech_result turn seg r response_event s =
     (case r of
        Stream_cancelled \<Rightarrow> Inr (cancel_ledger (Some turn) s)
      | Stream_raised e \<Rightarrow> Inr (s\<lparr>speech_of := release_tts_segment_attempt turn seg (speech_of s)\<rparr>)
      | _ \<Rightarrow> (case commit_tts_segment turn seg response_event (speech_of s) of
                Inl e \<Rightarrow> Inl (Ledger_error e)
              | Inr sp \<Rightarrow> Inr (s\<lparr>speech_of := sp\<rparr>)))"

datatype completion =
    Complete_rejected session_error
  | Complete_waits nat
  | Complete_cached event
  | Complete_mismatch "event segment" event
  | Complete_playing "event segment" event

definition complete_speech_begin ::
  "(string \<Rightarrow> string) \<Rightarrow> string \<Rightarrow> string \<Rightarrow> string \<Rightarrow> string option \<Rightarrow> int option
   \<Rightarrow> session \<Rightarrow> completion \<times> session" where
  "complete_speech_begin sha turn voice engine sid ord s =
     (case claim_tts_segment_locked sha turn (sha []) True sid ord (speech_of s) of
           (Inl e, sp) \<Rightarrow> (Complete_rejected (Ledger_error e), s\<lparr>speech_of := sp\<rparr>)
         | (Inr (seg, cached, waiter), sp) \<Rightarrow>
             (let s1 = s\<lparr>speech_of := sp\<rparr>; d = tts s in
              case waiter of
                Some w \<Rightarrow> (Complete_waits w, s1)
              | None \<Rightarrow>
                  (case cached of
                     Some r \<Rightarrow> (Complete_cached r, s1)
                   | None \<Rightarrow>
                       (case sd_pending_final d of
                          Some f \<Rightarrow>
                            if sd_pending_turn d = Some turn \<and> sd_pending_voice d = Some voice
                               \<and> sd_pending_engine d = Some engine
                            then (Complete_playing seg f, s1)
                            else (let e = speech_failed_event turn engine s in
                                  (Complete_mismatch seg e, snd (commit_session_event (Some e) s1)))
                        | None \<Rightarrow>
                            (let e = speech_failed_event turn engine s in
                             (Complete_mismatch seg e, snd (commit_session_event (Some e) s1)))))))"

end
