(* ===== verification/CallSession.thy ===== *)
theory CallSession
  imports SpeechTurns
begin

text \<open>
  The whole \<open>CallSession\<close> as a labelled transition system. A label is one stretch between two
  awaits of one of its coroutines with what the environment answers; any order of labels is a run, so
  every interleaving of the coroutines on the event loop is one. The only conditions on a label are that
  an offer brings a peer connection of its own (\<open>ai-backend/app/api/webrtc.py\<close> makes one per offer) and
  that the task that finishes a switch runs for the switch in force, unless the call ended meanwhile.
  The invariant of the reachable sessions is stated here; \<open>SessionLaws\<close> proves it and \<open>SessionSafety\<close>
  draws the consequences.
\<close>

section \<open>Labels and steps\<close>

datatype peer_op =
    Offer py_object "py_object option" "offer_configuration option"
  | Set_channel py_object "py_object option" "nat option"
  | Accept py_object "nat option" "py_object option"
  | Promote nat "string option" "string option"
  | Reject py_object "nat option"
  | Finish_switch switch_transaction switch_cleanup bool
  | Peer_state py_object string "nat option"
  | Grace_expires
  | End_call ptext
  | Fail_call ptext

datatype user_op =
    Inbound vad_settings vad rat ptext pcm_frame
  | Media_reconnect
  | Start_grace vad_settings rat
  | Claim_stt bool ptext
  | Transcribe vad_settings stt_finalization
  | Commit_stt nat event call_state
  | Settle_stt stt_settlement bool
  | Finish_stt nat
  | Reserve_backfill "ptext option" "nat option"
  | Enter_backfill nat "ptext option"
  | Use_backfill vad_settings vad rat ptext "ptext option" "pcm_frame list" "pcm_frame list" bool
  | Leave_backfill nat
  | Mute bool
  | Interrupt_begin
  | Interrupt_publish event
  | Interrupt_settle
  | Selection_end "string option" "string option" "captured_cancellation option"

datatype speech_op =
    Admit "string \<Rightarrow> string" string string bool "string option" "int option"
      "accepted_configuration option" "py_object option" "py_object option"
  | Abandon_speech string "event segment" speech_admission
  | Release_speech speech_admission
  | Cancel_mark "string option"
  | Cancel_ledger "string option"
  | Cancel_request "py_object \<Rightarrow> bool" "string option" "py_object option"
  | Cancel_finish ptext "string option" captured_cancellation "bool option" "event option"
  | Cancel_drop captured_cancellation
  | Cancel_turn string
  | Cancel_turn_begin string
  | Cancel_turn_end
  | Audio_started string string string event
  | Finish_streaming string string string bool "event + event"
  | Store_result string "event segment" stream_end event
  | Complete_begin "string \<Rightarrow> string" string string string "string option" "int option"
  | Turn_done string string string event

datatype post_op =
    Deliver_begin
  | Deliver_end sink_result channel
  | Drain
  | Publish event
  | Publish_end

datatype session_op = Peer peer_op | User user_op | Speech speech_op | Post post_op

definition late_event :: "session \<Rightarrow> event \<Rightarrow> bool" where
  "late_event s = late_speech_event (lit ` sd_cancelled (tts s)) (lit ` sd_cancelling (tts s))
     (over_state (cv_state s))"

definition right_or :: "'e + 'a \<Rightarrow> 'a \<Rightarrow> 'a" where
  "right_or r d = (case r of Inl e \<Rightarrow> d | Inr a \<Rightarrow> a)"

primrec apply_peer_op :: "peer_op \<Rightarrow> session \<Rightarrow> session" where
  "apply_peer_op (Offer p t c) s = snd (snd (mark_peer_connection_pending p t c s))"
| "apply_peer_op (Set_channel p c g) s = set_data_channel_for_peer p c g s"
| "apply_peer_op (Accept p g t) s = snd (accept_pending_peer p g t s)"
| "apply_peer_op (Promote g c i) s = snd (snd (commit_pending_generation g c i s))"
| "apply_peer_op (Reject p g) s = snd (snd (reject_pending_peer p g s))"
| "apply_peer_op (Finish_switch sw w r) s = snd (snd (finish_peer_switch sw w r s))"
| "apply_peer_op (Peer_state p c g) s = handle_connection_state_change p c g s"
| "apply_peer_op Grace_expires s = expire_reconnect_grace s"
| "apply_peer_op (End_call r) s = end_call r s"
| "apply_peer_op (Fail_call r) s = fail_call r s"

primrec apply_user_op :: "user_op \<Rightarrow> session \<Rightarrow> session" where
  "apply_user_op (Inbound vs v now st f) s = snd (handle_inbound_audio_frame vs v now st f s)"
| "apply_user_op Media_reconnect s = mark_media_reconnect_pending s"
| "apply_user_op (Start_grace vs now) s = s\<lparr>audio := start_media_reconnect_grace vs now (audio s)\<rparr>"
| "apply_user_op (Claim_stt a st) s = snd (claim_stt_finalization a st s)"
| "apply_user_op (Transcribe vs fz) s = snd (begin_transcription vs fz s)"
| "apply_user_op (Commit_stt n e st) s = snd (commit_stt_event n e st s)"
| "apply_user_op (Settle_stt se d) s = settle_stt_event se d s"
| "apply_user_op (Finish_stt n) s = finish_stt_finalization n s"
| "apply_user_op (Reserve_backfill b e) s = snd (reserve_backfill b e s)"
| "apply_user_op (Enter_backfill n b) s = snd (enter_backfill n b s)"
| "apply_user_op (Use_backfill vs v now st b ds fs fin) s = snd (use_backfill vs v now st b ds fs fin s)"
| "apply_user_op (Leave_backfill n) s = leave_backfill n s"
| "apply_user_op (Mute m) s = snd (set_muted m s)"
| "apply_user_op Interrupt_begin s = snd (interrupt_begin s)"
| "apply_user_op (Interrupt_publish c) s = snd (interrupt_publish c s)"
| "apply_user_op Interrupt_settle s = interrupt_settle s"
| "apply_user_op (Selection_end v e c) s = snd (update_selection_end v e c s)"

primrec apply_speech_op :: "speech_op \<Rightarrow> session \<Rightarrow> session" where
  "apply_speech_op (Admit sha t x fin sid ord cfg ad task) s = snd (admit_tts_segment sha t x fin sid ord cfg ad task s)"
| "apply_speech_op (Abandon_speech t seg a) s = abandon_speech t seg a s"
| "apply_speech_op (Release_speech a) s = release_speech_admission a s"
| "apply_speech_op (Cancel_mark t) s = cancel_mark t s"
| "apply_speech_op (Cancel_ledger t) s = cancel_ledger t s"
| "apply_speech_op (Cancel_request can rq ad) s = snd (cancel_active_generation can rq ad s)"
| "apply_speech_op (Cancel_finish ca t cap ack fin) s = snd (cancel_finish ca t cap ack fin s)"
| "apply_speech_op (Cancel_drop cap) s = cancel_drop_task cap s"
| "apply_speech_op (Cancel_turn t) s = snd (cancel_speech_turn t s)"
| "apply_speech_op (Cancel_turn_begin t) s = snd (cancel_speech_turn_begin t s)"
| "apply_speech_op Cancel_turn_end s = snd (cancel_speech_turn_end s)"
| "apply_speech_op (Audio_started t v e x) s = audio_started t v e x s"
| "apply_speech_op (Finish_streaming t v e fin f) s = snd (finish_streaming t v e fin f s)"
| "apply_speech_op (Store_result t seg r ev) s = right_or (store_speech_result t seg r ev s) s"
| "apply_speech_op (Complete_begin sha t v e sid ord) s = snd (complete_speech_begin sha t v e sid ord s)"
| "apply_speech_op (Turn_done t v e f) s = speech_turn_done t v e f s"

primrec apply_post_op :: "post_op \<Rightarrow> session \<Rightarrow> session" where
  "apply_post_op Deliver_begin s = s\<lparr>outbox_of := deliver_begin (late_event s) (outbox_of s)\<rparr>"
| "apply_post_op (Deliver_end r c) s = s\<lparr>outbox_of := deliver_end r c (outbox_of s)\<rparr>"
| "apply_post_op Drain s = s\<lparr>outbox_of := snd (drain_undelivered_events (outbox_of s))\<rparr>"
| "apply_post_op (Publish c) s = publish_begin c s"
| "apply_post_op Publish_end s = publish_end s"

primrec apply_op :: "session_op \<Rightarrow> session \<Rightarrow> session" where
  "apply_op (Peer a) s = apply_peer_op a s"
| "apply_op (User a) s = apply_user_op a s"
| "apply_op (Speech a) s = apply_speech_op a s"
| "apply_op (Post a) s = apply_post_op a s"

definition enabled :: "session_op \<Rightarrow> session \<Rightarrow> bool" where
  "enabled a s = (case a of
     Peer b \<Rightarrow> (case b of
         Offer p t c \<Rightarrow> p \<noteq> peer_connection s
       | Finish_switch sw w r \<Rightarrow> lf_switch (life s) = Some sw \<or> ended_at s
       | _ \<Rightarrow> True)
   | _ \<Rightarrow> True)"

inductive session_step :: "session \<Rightarrow> session_op \<Rightarrow> session \<Rightarrow> bool" where
  run_op: "enabled a s \<Longrightarrow> session_step s a (apply_op a s)"

inductive_cases session_stepE: "session_step s a t"
inductive_simps session_step_iff: "session_step s a t"

definition session_init :: "session \<Rightarrow> bool" where
  "session_init s \<longleftrightarrow> (\<exists>sid thread voice engine prompts peer chan vad model track.
     s = new_session sid thread voice engine prompts peer chan vad model track)"

section \<open>The invariant\<close>

definition candidate_ok :: "lifecycle \<Rightarrow> py_object \<Rightarrow> bool" where
  "candidate_ok l peer \<longleftrightarrow>
     (case lf_candidate l of None \<Rightarrow> True
      | Some c \<Rightarrow> cd_generation c = lf_candidate_generation l \<and> cd_epoch c = lf_epoch l
          \<and> lf_active_generation l < cd_generation c \<and> cd_peer c \<noteq> peer
          \<and> lf_phase l \<noteq> Switching \<and> lf_phase l \<noteq> Terminal)"

definition switch_ok :: "lifecycle \<Rightarrow> py_object \<Rightarrow> bool" where
  "switch_ok l peer \<longleftrightarrow>
     (case lf_switch l of
        None \<Rightarrow> lf_phase l \<noteq> Switching \<and> lf_switch_owner l = None \<and> lf_switch_task l = None
          \<and> lf_retiring_peer l = None
      | Some sw \<Rightarrow> lf_phase l = Switching \<and> sw_generation sw = lf_switch_generation l
          \<and> lf_switch_owner l = Some (sw_peer sw) \<and> lf_switch_task l = Some (sw_generation sw)
          \<and> sw_previous_peer sw = Some peer \<and> lf_retiring_peer l = Some peer
          \<and> lf_retiring_generation l = Some (lf_active_generation l) \<and> sw_peer sw \<noteq> peer
          \<and> lf_active_generation l < sw_candidate_generation sw
          \<and> sw_candidate_generation sw \<le> lf_candidate_generation l)"

definition grace_ok :: "lifecycle \<Rightarrow> py_object \<Rightarrow> bool" where
  "grace_ok l peer \<longleftrightarrow>
     (lf_phase l = Reconnect_phase \<longrightarrow> lf_grace_peer l = Some peer \<and> lf_terminal_state l \<noteq> None
        \<and> lf_state_before l \<noteq> None)
     \<and> (lf_phase l = Stable \<longrightarrow> lf_grace_peer l = None \<and> lf_terminal_state l = None
        \<and> lf_state_before l = None \<and> lf_grace_task l = None)"

definition peers_ok :: "lifecycle \<Rightarrow> py_object \<Rightarrow> bool" where
  "peers_ok l peer \<longleftrightarrow> candidate_ok l peer \<and> switch_ok l peer \<and> grace_ok l peer
     \<and> lf_active_generation l \<le> lf_candidate_generation l"

text \<open>The terminal record: nothing of it while the call lives, all of it once it is over.\<close>

definition terminal_ok :: "session \<Rightarrow> bool" where
  "terminal_ok s \<longleftrightarrow> (ended_at s \<longleftrightarrow> lf_phase (life s) = Terminal)
     \<and> (case outcome s of
          None \<Rightarrow> \<not> ended_at s \<and> end_reason s = None \<and> cleanup s = None
        | Some r \<Rightarrow> ended_at s \<and> end_reason s = Some (to_reason r) \<and> cleanup s \<noteq> None
            \<and> over_state (to_state r) \<and> 0 < to_commit r \<and> to_commit r \<le> ob_sequence (outbox_of s))"

text \<open>One transcription at a time, with the newest token.\<close>

definition stt_ok :: "stt_desk \<Rightarrow> bool" where
  "stt_ok q \<longleftrightarrow>
     (case tq_active q of
        None \<Rightarrow> tq_admissions q = []
      | Some fz \<Rightarrow> fz_token fz = tq_generation q \<and> map fst (tq_admissions q) = [fz_token fz])"

definition session_ok :: "session \<Rightarrow> bool" where
  "session_ok s \<longleftrightarrow> peers_ok (life s) (peer_connection s) \<and> terminal_ok s \<and> stt_ok (stt s)
     \<and> outbox_ok (outbox_of s)"

end
