(* ===== verification/SessionLaws.thy ===== *)
theory SessionLaws
  imports CallSession
begin

text \<open>
  What every step of a call session keeps (\<open>CallSession\<close>): most steps leave the peers and the
  terminal record alone, and the few that do not are treated one by one.
\<close>

section \<open>Steps that keep the core\<close>

definition same_core :: "session \<Rightarrow> session \<Rightarrow> bool" where
  "same_core s t \<longleftrightarrow> life t = life s \<and> peer_connection t = peer_connection s
     \<and> ended_at t = ended_at s \<and> end_reason t = end_reason s
     \<and> map_option (\<lambda>r. (to_state r, to_reason r, to_commit r)) (outcome t)
       = map_option (\<lambda>r. (to_state r, to_reason r, to_commit r)) (outcome s)
     \<and> cleanup t = cleanup s"

definition log_grows :: "session \<Rightarrow> session \<Rightarrow> bool" where
  "log_grows s t \<longleftrightarrow> ob_sequence (outbox_of s) \<le> ob_sequence (outbox_of t)
     \<and> (outbox_ok (outbox_of s) \<longrightarrow> outbox_ok (outbox_of t))"

lemma same_core_refl [simp]: "same_core s s"
  by (simp add: same_core_def)

lemma log_grows_refl [simp]: "log_grows s s"
  by (simp add: log_grows_def)

lemma log_grows_same: "outbox_of t = outbox_of s \<Longrightarrow> log_grows s t"
  by (simp add: log_grows_def)

lemma commit_session_event_fields [simp]:
  "fst (commit_session_event e s) = Suc (ob_sequence (outbox_of s))"
  "snd (commit_session_event e s) = s\<lparr>outbox_of := snd (commit_event e (outbox_of s))\<rparr>"
  by (simp_all add: commit_session_event_def commit_event_def Let_def)

lemma commit_sequence [simp]: "ob_sequence (snd (commit_event e q)) = Suc (ob_sequence q)"
  by (simp add: commit_event_def Let_def)

lemma log_grows_commit: "outbox_of t = snd (commit_event e (outbox_of s)) \<Longrightarrow> log_grows s t"
  by (simp add: log_grows_def commit_event_ok)

lemmas kept_simps = same_core_def log_grows_same log_grows_commit

lemma finish_head_sequence [simp]: "ob_sequence (finish_head e r q) = ob_sequence q"
  by (simp add: finish_head_def split: list.split)

lemma deliver_sequence [simp]:
  "ob_sequence (deliver_begin late q) = ob_sequence q"
  "ob_sequence (deliver_end r c q) = ob_sequence q"
  "ob_sequence (snd (drain_undelivered_events q)) = ob_sequence q"
  by (simp_all add: deliver_begin_def deliver_end_def drain_undelivered_events_def split: option.split)

lemma post_keeps:
  "same_core s (apply_post_op a s) \<and> log_grows s (apply_post_op a s) \<and> stt (apply_post_op a s) = stt s"
proof (cases a)
  case (Publish ctx)
  then show ?thesis
    by (auto simp: publish_begin_def same_core_def log_grows_def resolve_event_commit_ok split: option.split)
next
  case Publish_end
  then show ?thesis
    by (auto simp: publish_end_def same_core_def log_grows_def split: option.split)
qed (simp_all add: same_core_def log_grows_def deliver_begin_ok deliver_end_ok drain_ok)

lemma install_admission_keeps:
  "same_core s (snd (install_admission turn seg ad task s)) \<and> stt (snd (install_admission turn seg ad task s)) = stt s
   \<and> outbox_of (snd (install_admission turn seg ad task s)) = outbox_of s"
  by (simp add: install_admission_def Let_def same_core_def)

lemma admit_keeps:
  "same_core s (snd (admit_tts_segment sha t x fin sid ord cfg ad task s))
   \<and> outbox_of (snd (admit_tts_segment sha t x fin sid ord cfg ad task s)) = outbox_of s
   \<and> stt (snd (admit_tts_segment sha t x fin sid ord cfg ad task s)) = stt s"
  by (simp add: admit_tts_segment_def install_admission_def Let_def same_core_def
      split: sum.split option.split prod.split)

lemma complete_keeps:
  "same_core s (snd (complete_speech_begin sha t v e sid ord s))
   \<and> log_grows s (snd (complete_speech_begin sha t v e sid ord s))
   \<and> stt (snd (complete_speech_begin sha t v e sid ord s)) = stt s"
  by (simp add: complete_speech_begin_def Let_def same_core_def log_grows_same
      log_grows_def commit_event_ok
      split: sum.split option.split prod.split)

lemma speech_keeps:
  "same_core s (apply_speech_op a s) \<and> log_grows s (apply_speech_op a s)
   \<and> stt (apply_speech_op a s) = stt s"
proof (cases a)
  case (Admit x1 x2 x3 x4 x5 x6 x7 x8 x9)
  then show ?thesis by (simp add: admit_keeps log_grows_same)
next
  case (Complete_begin x1 x2 x3 x4 x5 x6)
  then show ?thesis by (simp add: complete_keeps)
next
  case (Store_result t seg r e)
  then show ?thesis
    by (simp add: store_speech_result_def right_or_def cancel_ledger_def same_core_def log_grows_same
        split: stream_end.split sum.split)
next
  case (Finish_streaming x1 x2 x3 x4 x5)
  then show ?thesis
    by (simp add: finish_streaming_def speech_turn_done_def Let_def same_core_def log_grows_def
        commit_event_ok split: sum.split)
qed (simp_all add: abandon_speech_def release_speech_admission_def cancel_mark_def cancel_ledger_def
    cancel_active_generation_def cancel_finish_def cancel_drop_task_def cancel_speech_turn_def
    cancel_speech_turn_begin_def cancel_speech_turn_end_def audio_started_def speech_turn_done_def
    Let_def same_core_def log_grows_def commit_event_ok split: option.split)

section \<open>The user's steps\<close>

definition lives_core :: "session \<Rightarrow> session \<Rightarrow> bool" where
  "lives_core s t \<longleftrightarrow> same_core s t \<and> log_grows s t \<and> (stt_ok (stt s) \<longrightarrow> stt_ok (stt t))"

lemma lives_coreI: "same_core s t \<Longrightarrow> log_grows s t \<Longrightarrow> stt t = stt s \<Longrightarrow> lives_core s t"
  by (simp add: lives_core_def)

lemma claim_lives: "lives_core s (snd (claim_stt_finalization x st s))"
  by (simp add: claim_stt_finalization_def lives_core_def same_core_def log_grows_same stt_ok_def
      dset_def Let_def split: option.split)

lemma map_fst_dset_present: "dget d k = Some v \<Longrightarrow> map fst (dset k w d) = map fst d"
  by (induction d) (auto simp: dset_def)

lemma dset_not_Nil [simp]: "dset k v d \<noteq> []"
  by (cases d) (auto simp: dset_def)

lemma stt_ok_updates:
  "stt_ok (q\<lparr>tq_settlement := x\<rparr>) = stt_ok q"
  "dget (tq_admissions q) n = Some a
     \<Longrightarrow> stt_ok (q\<lparr>tq_admissions := dset n b (tq_admissions q)\<rparr>) = stt_ok q"
  by (auto simp: stt_ok_def map_fst_dset_present split: option.split)

lemma commit_stt_lives: "lives_core s (snd (commit_stt_event n e st s))"
proof (cases "dget (tq_admissions (stt s)) n")
  case None
  then show ?thesis
    by (simp add: commit_stt_event_def stale_stt_turn_def lives_core_def)
next
  case (Some a)
  then show ?thesis
    by (simp add: commit_stt_event_def lives_core_def same_core_def log_grows_def commit_event_ok
        Let_def split_beta stt_ok_updates)
qed

lemma settle_lives: "lives_core s (settle_stt_event se d s)"
  by (simp add: settle_stt_event_def lives_core_def same_core_def log_grows_same stt_ok_updates)

lemma dpop_single: "map fst d = [k] \<Longrightarrow> dget d n = Some v \<Longrightarrow> n = k \<and> dpop n d = []"
  by (cases d) (auto simp: dpop_def split: if_splits)

lemma release_stt_fields:
  fixes s n
  shows "same_core s (release_stt_admission n s)" "outbox_of (release_stt_admission n s) = outbox_of s"
  "tq_active (stt (release_stt_admission n s)) = tq_active (stt s)"
  "tq_generation (stt (release_stt_admission n s)) = tq_generation (stt s)"
  "tq_admissions (stt (release_stt_admission n s)) = dpop n (tq_admissions (stt s))
     \<or> (dget (tq_admissions (stt s)) n = None \<and> tq_admissions (stt (release_stt_admission n s)) = tq_admissions (stt s))"
  by (simp_all add: release_stt_admission_def same_core_def Let_def split: option.split)

lemma finish_stt_lives: "lives_core s (finish_stt_finalization n s)"
proof -
  let ?r = "release_stt_admission n s"
  have core: "same_core s (finish_stt_finalization n s)" "outbox_of (finish_stt_finalization n s) = outbox_of s"
    using release_stt_fields(1,2) [where s = s and n = n]
    by (simp_all add: finish_stt_finalization_def same_core_def Let_def split: option.split)
  have "stt_ok (stt (finish_stt_finalization n s))" if ok: "stt_ok (stt s)"
  proof (cases "tq_active (stt s)")
    case None
    then have a: "tq_admissions (stt s) = []" using ok by (simp add: stt_ok_def)
    have "tq_admissions (stt ?r) = []"
      using release_stt_fields(5) [where s = s and n = n] a by (auto simp: dpop_def)
    then show ?thesis
      using None release_stt_fields(3) [where s = s and n = n]
      by (simp add: finish_stt_finalization_def stt_ok_def Let_def)
  next
    case (Some fz)
    then have f: "map fst (tq_admissions (stt s)) = [fz_token fz]" "fz_token fz = tq_generation (stt s)"
      using ok by (simp_all add: stt_ok_def)
    then obtain v where v: "tq_admissions (stt s) = [(fz_token fz, v)]" by auto
    show ?thesis
    proof (cases "n = fz_token fz")
      case True
      then have "tq_admissions (stt ?r) = []"
        using release_stt_fields(5) [where s = s and n = n] v by (auto simp: dpop_def)
      then show ?thesis
        using Some True release_stt_fields(3) [where s = s and n = n]
        by (simp add: finish_stt_finalization_def stt_ok_def Let_def)
    next
      case False
      then have "?r = s" using v by (simp add: release_stt_admission_def)
      then show ?thesis
        using Some False ok by (simp add: finish_stt_finalization_def Let_def)
    qed
  qed
  then show ?thesis using core by (simp add: lives_core_def log_grows_same)
qed

lemma transcribe_lives: "lives_core s (snd (begin_transcription vs fz s))"
  by (rule lives_coreI) (simp_all add: begin_transcription_def Let_def same_core_def log_grows_def commit_event_ok)

lemma inbound_lives: "lives_core s (snd (handle_inbound_audio_frame vs v now st f s))"
  by (rule lives_coreI)
    (simp_all add: handle_inbound_audio_frame_def Let_def drop_frame_def same_core_def log_grows_def split_beta)

lemma admit_backfill_fields:
  "same_core s (snd (admit_backfill_at n s))" "outbox_of (snd (admit_backfill_at n s)) = outbox_of s"
  "stt (snd (admit_backfill_at n s)) = stt s"
  by (simp_all add: admit_backfill_at_def Let_def same_core_def)

lemma reserve_backfill_lives: "lives_core s (snd (reserve_backfill b e s))"
proof -
  let ?s = "\<lambda>x. s\<lparr>backfills := x\<rparr>"
  have "lives_core s (snd (admit_backfill_at n s))" "lives_core s (snd (admit_backfill_at n (?s x)))" for n x
    using admit_backfill_fields [where s = s and n = n] admit_backfill_fields [where s = "?s x" and n = n]
    by (simp_all add: lives_core_def log_grows_same same_core_def)
  moreover have "lives_core s s" by (simp add: lives_core_def)
  ultimately show ?thesis
    by (simp add: reserve_backfill_def Let_def split: option.split)
qed

lemma enter_backfill_lives: "lives_core s (snd (enter_backfill n b s))"
  by (rule lives_coreI)
    (simp_all add: enter_backfill_def note_backfill_def same_core_def log_grows_def split: option.split)

lemma release_after_fields:
  "same_core s (snd (release_after_backfill vs v now st x fin s))"
  "outbox_of (snd (release_after_backfill vs v now st x fin s)) = outbox_of s"
  "stt (snd (release_after_backfill vs v now st x fin s)) = stt s"
  by (simp_all add: release_after_backfill_def same_core_def split_beta)

lemma use_backfill_lives: "lives_core s (snd (use_backfill vs v now st b ds fs fin s))"
proof -
  have "lives_core s (snd (release_after_backfill vs v now st x fin t))"
    if "same_core s t" "outbox_of t = outbox_of s" "stt t = stt s" for x t
    using that release_after_fields [where s = t and x = x]
    by (simp add: lives_core_def log_grows_same same_core_def)
  moreover have "lives_core s s" by (simp add: lives_core_def)
  ultimately show ?thesis
    by (simp add: use_backfill_def Let_def split_beta note_backfill_def same_core_def)
qed

lemma mute_lives: "lives_core s (snd (set_muted m s))"
  by (rule lives_coreI) (simp_all add: set_muted_def Let_def same_core_def log_grows_def commit_event_ok)

lemma user_keeps:
  assumes "\<And>n. a \<noteq> Leave_backfill n"
  shows "lives_core s (apply_user_op a s)"
proof (cases a)
  case (Leave_backfill n)
  then show ?thesis using assms by simp
qed (simp_all add: inbound_lives claim_lives transcribe_lives commit_stt_lives settle_lives finish_stt_lives
    reserve_backfill_lives enter_backfill_lives use_backfill_lives mute_lives lives_coreI
    mark_media_reconnect_pending_def interrupt_begin_def interrupt_publish_def interrupt_settle_def
    update_selection_end_def same_core_def log_grows_def commit_event_ok Let_def)

section \<open>The end of a call\<close>

lemma transition_log_grows: "log_grows s (snd (transition_terminal_locked st r xp xt s))"
  by (simp add: transition_terminal_locked_def Let_def split_beta log_grows_def commit_event_ok)

lemma transition_stt: "stt (snd (transition_terminal_locked st r xp xt s)) = stt s"
  "peer_connection (snd (transition_terminal_locked st r xp xt s)) = peer_connection s"
  by (simp_all add: transition_terminal_locked_def Let_def split_beta)

lemma terminal_lifecycle_ok: "lf_active_generation l \<le> lf_candidate_generation l \<Longrightarrow> peers_ok (terminal_lifecycle l) p"
  by (auto simp: peers_ok_def candidate_ok_def switch_ok_def grace_ok_def terminal_lifecycle_def
      clear_pending_peer_def cancel_reconnect_grace_def Let_def split: option.splits)

lemma transition_keeps:
  assumes "over_state st" "lf_active_generation (life s) \<le> lf_candidate_generation (life s)"
    "terminal_ok s" "ended_at s \<Longrightarrow> peers_ok (life s) (peer_connection s)"
    "stt_ok (stt s)" "outbox_ok (outbox_of s)"
  shows "session_ok (snd (transition_terminal_locked st r xp xt s))"
proof (cases "ended_at s")
  case True
  then show ?thesis
    using assms by (simp add: transition_terminal_again session_ok_def)
next
  case False
  then have live: "lf_phase (life s) \<noteq> Terminal"
    using assms(3) by (simp add: terminal_ok_def)
  let ?t = "snd (transition_terminal_locked st r xp xt s)"
  have "life ?t = terminal_lifecycle (life s)" "outbox_of ?t = snd (commit_event None (outbox_of s))"
    "cleanup ?t \<noteq> None"
    using False live by (simp_all add: transition_terminal_locked_def Let_def split_beta)
  moreover note transition_terminal_effect [OF False live, of st r xp xt]
  ultimately show ?thesis
    using assms by (simp add: session_ok_def terminal_ok_def terminal_lifecycle_ok transition_stt commit_event_ok)
qed

section \<open>The peers' steps\<close>

lemma session_ok_parts:
  assumes "session_ok s"
  shows "peers_ok (life s) (peer_connection s)" "terminal_ok s" "stt_ok (stt s)" "outbox_ok (outbox_of s)"
  using assms by (simp_all add: session_ok_def)

lemma terminal_ok_core:
  assumes "terminal_ok s" "same_core s t" "log_grows s t"
  shows "terminal_ok t"
  using assms by (cases "outcome s"; cases "outcome t") (auto simp: terminal_ok_def same_core_def log_grows_def)

lemma lives_core_ok: "session_ok s \<Longrightarrow> lives_core s t \<Longrightarrow> session_ok t"
  using terminal_ok_core [of s t]
  by (simp add: session_ok_def lives_core_def) (simp add: same_core_def log_grows_def)

text \<open>A step that only moves the peers of a call that goes on.\<close>

lemma peers_step_ok:
  assumes "session_ok s" "peers_ok (life t) (peer_connection t)"
    "lf_phase (life t) = Terminal \<longleftrightarrow> lf_phase (life s) = Terminal"
    "ended_at t = ended_at s" "end_reason t = end_reason s" "outcome t = outcome s" "cleanup t = cleanup s"
    "map fst (tq_admissions (stt t)) = map fst (tq_admissions (stt s))"
    "tq_active (stt t) = tq_active (stt s)" "tq_generation (stt t) = tq_generation (stt s)"
    "outbox_of t = outbox_of s"
  shows "session_ok t"
proof -
  have "tq_admissions (stt t) = [] \<longleftrightarrow> tq_admissions (stt s) = []"
    using assms(8) by (metis Nil_is_map_conv)
  then have "stt_ok (stt t) = stt_ok (stt s)"
    using assms by (simp add: stt_ok_def split: option.split)
  moreover have "terminal_ok t = terminal_ok s"
    using assms by (simp add: terminal_ok_def split: option.split)
  ultimately show ?thesis
    using assms by (simp add: session_ok_def)
qed

lemmas peers_defs = peers_ok_def candidate_ok_def switch_ok_def grace_ok_def

lemma offer_ok:
  assumes "session_ok s" "p \<noteq> peer_connection s"
  shows "session_ok (snd (snd (mark_peer_connection_pending p tr c s)))"
proof (cases "call_over s \<or> lf_phase (life s) = Switching")
  case True
  then show ?thesis
    using assms by (auto simp: mark_peer_connection_pending_def Let_def)
next
  case False
  let ?t = "snd (snd (mark_peer_connection_pending p tr c s))"
  have "peers_ok (life ?t) (peer_connection ?t)"
    using False assms session_ok_parts(1) [OF assms(1)]
    by (auto simp: mark_peer_connection_pending_def Let_def peers_defs cancel_pending_peer_timeout_def
        call_over_def split: option.splits)
  then show ?thesis
    using False by (intro peers_step_ok [OF assms(1)])
      (simp_all add: mark_peer_connection_pending_def Let_def cancel_pending_peer_timeout_def)
qed

lemma set_channel_ok: "session_ok s \<Longrightarrow> session_ok (set_data_channel_for_peer p c g s)"
proof -
  assume ok: "session_ok s"
  have "peers_ok (life (set_data_channel_for_peer p c g s)) (peer_connection (set_data_channel_for_peer p c g s))"
    using session_ok_parts(1) [OF ok]
    by (auto simp: set_data_channel_for_peer_def peers_defs split: option.splits)
  then show ?thesis
    by (intro peers_step_ok [OF ok]) (simp_all add: set_data_channel_for_peer_def)
qed

lemma clear_pending_peer_ok: "peers_ok l p \<Longrightarrow> peers_ok (clear_pending_peer q l) p"
  by (auto simp: peers_defs clear_pending_peer_def split: option.splits)

lemma clear_pending_fields [simp]:
  "lf_phase (clear_pending_peer q l) = lf_phase l" "lf_epoch (clear_pending_peer q l) = lf_epoch l"
  "lf_active_generation (clear_pending_peer q l) = lf_active_generation l"
  "lf_candidate_generation (clear_pending_peer q l) = lf_candidate_generation l"
  "lf_switch (clear_pending_peer q l) = lf_switch l"
  "lf_switch_generation (clear_pending_peer q l) = lf_switch_generation l"
  "lf_switch_owner (clear_pending_peer q l) = lf_switch_owner l"
  "lf_switch_task (clear_pending_peer q l) = lf_switch_task l"
  "lf_retiring_peer (clear_pending_peer q l) = lf_retiring_peer l"
  "lf_state_before (clear_pending_peer q l) = lf_state_before l"
  by (simp_all add: clear_pending_peer_def split: option.split)

lemma clear_pending_gone: "lf_candidate l = Some c \<Longrightarrow> lf_candidate (clear_pending_peer (cd_peer c) l) = None"
  by (simp add: clear_pending_peer_def)

lemma reject_ok: "session_ok s \<Longrightarrow> session_ok (snd (snd (reject_pending_peer p g s)))"
proof -
  assume ok: "session_ok s"
  have "peers_ok (life (snd (snd (reject_pending_peer p g s)))) (peer_connection (snd (snd (reject_pending_peer p g s))))"
    using session_ok_parts(1) [OF ok] by (simp add: reject_pending_peer_def clear_pending_peer_ok)
  then show ?thesis
    by (intro peers_step_ok [OF ok]) (simp_all add: reject_pending_peer_def)
qed

lemma complete_peers_ok:
  assumes "candidate_ok l p" "lf_switch l = None" "lf_switch_owner l = None" "lf_switch_task l = None"
    "lf_retiring_peer l = None" "lf_active_generation l \<le> lf_candidate_generation l"
  shows "peers_ok (cancel_reconnect_grace (l\<lparr>lf_terminal_state := None, lf_state_before := None,
     lf_grace_peer := None, lf_phase := Stable\<rparr>)) p"
  using assms by (auto simp: peers_defs cancel_reconnect_grace_def split: option.splits)

lemma complete_fields [simp]:
  "peer_connection (complete_transport_reconnect s) = peer_connection s"
  "ended_at (complete_transport_reconnect s) = ended_at s"
  "end_reason (complete_transport_reconnect s) = end_reason s"
  "outcome (complete_transport_reconnect s) = outcome s"
  "cleanup (complete_transport_reconnect s) = cleanup s"
  "stt (complete_transport_reconnect s) = stt s"
  "outbox_of (complete_transport_reconnect s) = outbox_of s"
  "voice_id (complete_transport_reconnect s) = voice_id s"
  "engine_id (complete_transport_reconnect s) = engine_id s"
  "life (complete_transport_reconnect s) = cancel_reconnect_grace ((life s)\<lparr>lf_terminal_state := None,
     lf_state_before := None, lf_grace_peer := None, lf_phase := Stable\<rparr>)"
  by (simp_all add: complete_transport_reconnect_def Let_def)

lemma grace_fields [simp]:
  "lf_phase (cancel_reconnect_grace l) = lf_phase l" "lf_epoch (cancel_reconnect_grace l) = lf_epoch l"
  "lf_active_generation (cancel_reconnect_grace l) = lf_active_generation l"
  "lf_candidate_generation (cancel_reconnect_grace l) = lf_candidate_generation l"
  by (simp_all add: cancel_reconnect_grace_def)

lemma recover_ok: "session_ok s \<Longrightarrow> session_ok (snd (recover_active_transport p g s))"
proof -
  assume ok: "session_ok s"
  show ?thesis
  proof (cases "fst (recover_active_transport p g s)")
    case False
    then show ?thesis using ok by (auto simp: recover_active_transport_def Let_def split: if_split_asm)
  next
    case True
    then have r: "recover_active_transport p g s = (True, complete_transport_reconnect s)"
      and ph: "lf_phase (life s) = Reconnect_phase"
      by (auto simp: recover_active_transport_def Let_def split: if_split_asm)
    have "peers_ok (life (complete_transport_reconnect s)) (peer_connection s)"
      using session_ok_parts(1) [OF ok] ph
      by (auto simp: peers_ok_def [of "life s"] switch_ok_def intro!: complete_peers_ok split: option.splits)
    then show ?thesis
      using ph unfolding r snd_conv by (intro peers_step_ok [OF ok]) simp_all
  qed
qed

lemma carry_fields [simp]:
  "life (carry_admissions n s) = life s" "peer_connection (carry_admissions n s) = peer_connection s"
  "ended_at (carry_admissions n s) = ended_at s" "end_reason (carry_admissions n s) = end_reason s"
  "outcome (carry_admissions n s) = outcome s" "cleanup (carry_admissions n s) = cleanup s"
  "outbox_of (carry_admissions n s) = outbox_of s"
  "map fst (tq_admissions (stt (carry_admissions n s))) = map fst (tq_admissions (stt s))"
  "tq_active (stt (carry_admissions n s)) = tq_active (stt s)"
  "tq_generation (stt (carry_admissions n s)) = tq_generation (stt s)"
  by (simp_all add: carry_admissions_def dmap_def split_beta comp_def)

lemma reconnect_lifecycle_ok:
  assumes "peers_ok l p" "lf_phase l = Stable \<or> lf_phase l = Reconnect_phase"
  shows "peers_ok (reconnect_lifecycle p ts st l) p" "lf_phase (reconnect_lifecycle p ts st l) = Reconnect_phase"
proof -
  have ph: "lf_phase (reconnect_lifecycle p ts st l) = Reconnect_phase"
    using assms(2) by (auto simp: reconnect_lifecycle_def Let_def reconnect_is_fresh_def)
  have "lf_switch l = None" "lf_switch_owner l = None" "lf_switch_task l = None" "lf_retiring_peer l = None"
    using assms by (auto simp: peers_ok_def switch_ok_def split: option.splits)
  then have "lf_switch (reconnect_lifecycle p ts st l) = None"
    "lf_switch_owner (reconnect_lifecycle p ts st l) = None"
    "lf_switch_task (reconnect_lifecycle p ts st l) = None"
    "lf_retiring_peer (reconnect_lifecycle p ts st l) = None"
    by (simp_all add: reconnect_lifecycle_def Let_def)
  then have "switch_ok (reconnect_lifecycle p ts st l) p"
    using ph by (simp add: switch_ok_def)
  moreover have "candidate_ok (reconnect_lifecycle p ts st l) p"
    using assms by (cases "lf_candidate l")
      (auto simp: peers_ok_def candidate_ok_def reconnect_lifecycle_def Let_def)
  moreover have "grace_ok (reconnect_lifecycle p ts st l) p"
    using assms ph by (simp add: grace_ok_def)
      (auto simp: peers_ok_def grace_ok_def reconnect_lifecycle_def Let_def reconnect_is_fresh_def)
  ultimately show "peers_ok (reconnect_lifecycle p ts st l) p"
    using assms(1) by (simp add: peers_ok_def) (simp add: reconnect_lifecycle_def Let_def)
  show "lf_phase (reconnect_lifecycle p ts st l) = Reconnect_phase" by (rule ph)
qed

lemma begin_reconnect_cases:
  assumes "session_ok s"
  obtains (idle) "begin_transport_reconnect p st g s = s"
  | (begun) "lf_phase (life s) = Stable \<or> lf_phase (life s) = Reconnect_phase" "p = peer_connection s"
      "\<not> ended_at s"
      "begin_transport_reconnect p st g s
        = (if reconnect_is_fresh p (life s) then carry_admissions (Suc (lf_epoch (life s))) s else s)
          \<lparr>life := reconnect_lifecycle p st (cv_state s) (life s), cv_state := Reconnecting\<rparr>"
proof (cases "lf_phase (life s) = Switching")
  case True
  then have "lf_retiring_peer (life s) = Some (peer_connection s)"
    "lf_retiring_generation (life s) = Some (lf_active_generation (life s))"
    using session_ok_parts(1) [OF assms] by (auto simp: peers_ok_def switch_ok_def split: option.splits)
  then have "begin_transport_reconnect p st g s = s"
    using True by (auto simp: begin_transport_reconnect_def Let_def)
  then show ?thesis by (rule idle)
next
  case False
  show ?thesis
  proof (cases "ended_at s \<or> lf_phase (life s) = Terminal \<or> p \<noteq> peer_connection s
      \<or> (g \<noteq> None \<and> g \<noteq> Some (lf_active_generation (life s)))")
    case True
    then have "begin_transport_reconnect p st g s = s"
      using False by (simp only: begin_transport_reconnect_def Let_def if_True if_False simp_thms)
    then show ?thesis by (rule idle)
  next
    case go: False
    show ?thesis
    proof (rule begun)
      show "lf_phase (life s) = Stable \<or> lf_phase (life s) = Reconnect_phase"
        using go False by (cases "lf_phase (life s)") auto
      show "p = peer_connection s" "\<not> ended_at s" using go by auto
      show "begin_transport_reconnect p st g s
        = (if reconnect_is_fresh p (life s) then carry_admissions (Suc (lf_epoch (life s))) s else s)
          \<lparr>life := reconnect_lifecycle p st (cv_state s) (life s), cv_state := Reconnecting\<rparr>"
        unfolding begin_transport_reconnect_def Let_def using go False by presburger
    qed
  qed
qed

lemma begin_reconnect_ok:
  assumes "session_ok s"
  shows "session_ok (begin_transport_reconnect p st g s)"
proof (cases rule: begin_reconnect_cases [OF assms, of p st g])
  case 1
  then show ?thesis using assms by simp
next
  case begun: 2
  note r = reconnect_lifecycle_ok [OF session_ok_parts(1) [OF assms] begun(1)]
  show ?thesis
    unfolding begun(4)
    by (rule peers_step_ok [OF assms]) (use begun r in auto)
qed

section \<open>Acceptance and switches\<close>

lemma apply_configuration_fields [simp]:
  "life (apply_peer_configuration c s) = life s"
  "peer_connection (apply_peer_configuration c s) = peer_connection s"
  "ended_at (apply_peer_configuration c s) = ended_at s"
  "end_reason (apply_peer_configuration c s) = end_reason s"
  "outcome (apply_peer_configuration c s) = outcome s" "cleanup (apply_peer_configuration c s) = cleanup s"
  "stt (apply_peer_configuration c s) = stt s" "outbox_of (apply_peer_configuration c s) = outbox_of s"
  "cv_state (apply_peer_configuration c s) = cv_state s" "tts (apply_peer_configuration c s) = tts s"
  by (simp_all add: apply_peer_configuration_def)

lemma accept_cases:
  fixes p g t s
  assumes "session_ok s"
  obtains (refused) "snd (accept_pending_peer p g t s) = s" "\<And>x. fst (accept_pending_peer p g t s) \<noteq> Accepted x"
      "\<And>x. fst (accept_pending_peer p g t s) \<noteq> Switch_started x"
  | (switch) c where "lf_candidate (life s) = Some c" "cd_peer c = p" "g = None \<or> g = Some (cd_generation c)"
      "\<not> ended_at s" "p \<noteq> peer_connection s" "selection_changes c s"
      "accept_pending_peer p g t s = (Switch_started (new_switch c p t s), start_switch (new_switch c p t s) s)"
  | (direct) c where "lf_candidate (life s) = Some c" "cd_peer c = p" "g = None \<or> g = Some (cd_generation c)"
      "\<not> ended_at s" "p \<noteq> peer_connection s" "\<not> selection_changes c s"
      "accept_pending_peer p g t s = (Accepted (Some (peer_connection s)), accept_directly c p t s)"
proof (cases "joined_switch p (life s)")
  case (Some k)
  then show ?thesis by (intro refused) (simp_all add: accept_pending_peer_def)
next
  case none: None
  show ?thesis
  proof (cases "lf_candidate (life s)")
    case None
    then show ?thesis by (intro refused) (simp_all add: accept_pending_peer_def none)
  next
    case (Some c)
    have cand: "cd_peer c \<noteq> peer_connection s" "cd_epoch c = lf_epoch (life s)" "lf_phase (life s) \<noteq> Terminal"
      using session_ok_parts(1) [OF assms] Some by (simp_all add: peers_ok_def candidate_ok_def)
    have live: "\<not> ended_at s"
      using session_ok_parts(2) [OF assms] cand(3) by (simp add: terminal_ok_def)
    show ?thesis
    proof (cases "acceptable c p g s")
      case False
      then show ?thesis by (intro refused) (simp_all add: accept_pending_peer_def none Some)
    next
      case True
      then have p: "cd_peer c = p" "g = None \<or> g = Some (cd_generation c)"
        by (simp_all add: acceptable_def)
      then have np: "p \<noteq> peer_connection s" using cand(1) by simp
      show ?thesis
      proof (cases "selection_changes c s")
        case sel: True
        show ?thesis
          by (rule switch [OF Some p live np sel])
            (simp add: accept_pending_peer_def none Some True sel Let_def)
      next
        case sel: False
        show ?thesis
          by (rule direct [OF Some p live np sel])
            (use np in \<open>simp add: accept_pending_peer_def none Some True sel previous_peer_def\<close>)
      qed
    qed
  qed
qed

lemma live_switch_fields:
  assumes "session_ok s" "lf_candidate (life s) = Some c"
  shows "lf_switch (life s) = None" "lf_switch_owner (life s) = None" "lf_switch_task (life s) = None"
    "lf_retiring_peer (life s) = None" "lf_active_generation (life s) < cd_generation c"
    "cd_generation c = lf_candidate_generation (life s)" "lf_phase (life s) \<noteq> Terminal"
    "lf_phase (life s) \<noteq> Switching"
  using session_ok_parts(1) [OF assms(1)] assms(2)
  by (auto simp: peers_ok_def candidate_ok_def switch_ok_def split: option.splits)

lemma start_switch_ok:
  assumes ok: "session_ok s" and c: "lf_candidate (life s) = Some c" "cd_peer c = p" and np: "p \<noteq> peer_connection s"
  shows "session_ok (start_switch (new_switch c p t s) s)"
proof -
  note live = live_switch_fields [OF ok c(1)]
  have none: "lf_candidate (clear_pending_peer p (life s)) = None"
    using clear_pending_gone [OF c(1)] c(2) by simp
  have "peers_ok (life (start_switch (new_switch c p t s) s)) (peer_connection (start_switch (new_switch c p t s) s))"
    using live np none
    by (simp add: start_switch_def Let_def peers_defs new_switch_def previous_peer_def)
  then show ?thesis
    using live by (intro peers_step_ok [OF ok]) (simp_all add: start_switch_def Let_def)
qed

lemma accept_directly_ok:
  assumes ok: "session_ok s" and c: "lf_candidate (life s) = Some c" "cd_peer c = p" and np: "p \<noteq> peer_connection s"
  shows "session_ok (accept_directly c p t s)"
proof -
  note live = live_switch_fields [OF ok c(1)]
  have none: "lf_candidate (clear_pending_peer p (life s)) = None"
    using clear_pending_gone [OF c(1)] c(2) by simp
  let ?l = "(clear_pending_peer p (life s))\<lparr>lf_active_generation := cd_generation c\<rparr>"
  have "peers_ok (cancel_reconnect_grace (?l\<lparr>lf_terminal_state := None, lf_state_before := None,
      lf_grace_peer := None, lf_phase := Stable\<rparr>)) p"
    using live none by (intro complete_peers_ok) (simp_all add: candidate_ok_def)
  then have "peers_ok (life (accept_directly c p t s)) (peer_connection (accept_directly c p t s))"
    by (simp add: accept_directly_def Let_def split: option.split)
  moreover have "lf_phase (life (accept_directly c p t s)) = Stable"
    by (simp add: accept_directly_def Let_def split: option.split)
  ultimately show ?thesis
    using live by (intro peers_step_ok [OF ok]) (simp_all add: accept_directly_def Let_def split: option.split)
qed

lemma accept_ok: assumes "session_ok s" shows "session_ok (snd (accept_pending_peer p g t s))"
proof (cases rule: accept_cases [OF assms, of p g t])
  case 1
  then show ?thesis using assms by simp
next
  case (2 c)
  then show ?thesis using start_switch_ok [OF assms 2(1,2,5)] by simp
next
  case (3 c)
  then show ?thesis using accept_directly_ok [OF assms 3(1,2,5)] by simp
qed

lemma promote_state:
  "snd (snd (commit_pending_generation gen conn ice s)) = s
   \<or> (\<exists>c. lf_candidate (life s) = Some c \<and> cd_generation c = gen
        \<and> snd (snd (commit_pending_generation gen conn ice s)) = snd (accept_pending_peer (cd_peer c) (Some gen) None s))"
  by (auto simp: commit_pending_generation_def split: option.split acceptance.split prod.split)

lemma promote_ok: "session_ok s \<Longrightarrow> session_ok (snd (snd (commit_pending_generation gen conn ice s)))"
  using promote_state [of gen conn ice s] accept_ok by metis

lemma record_outcome_fields [simp]:
  "lf_phase (record_peer_switch_outcome g x l) = lf_phase l"
  "lf_epoch (record_peer_switch_outcome g x l) = lf_epoch l"
  "lf_candidate (record_peer_switch_outcome g x l) = lf_candidate l"
  "lf_candidate_generation (record_peer_switch_outcome g x l) = lf_candidate_generation l"
  "lf_active_generation (record_peer_switch_outcome g x l) = lf_active_generation l"
  "lf_switch (record_peer_switch_outcome g x l) = lf_switch l"
  "lf_switch_generation (record_peer_switch_outcome g x l) = lf_switch_generation l"
  "lf_switch_owner (record_peer_switch_outcome g x l) = lf_switch_owner l"
  "lf_switch_task (record_peer_switch_outcome g x l) = lf_switch_task l"
  "lf_retiring_peer (record_peer_switch_outcome g x l) = lf_retiring_peer l"
  "lf_state_before (record_peer_switch_outcome g x l) = lf_state_before l"
  "lf_events (record_peer_switch_outcome g x l) = lf_events l"
  by (simp_all add: record_peer_switch_outcome_def)

lemma adopt_fields [simp]:
  "life (adopt_switch_media sw s) = life s" "peer_connection (adopt_switch_media sw s) = sw_peer sw"
  "ended_at (adopt_switch_media sw s) = ended_at s" "end_reason (adopt_switch_media sw s) = end_reason s"
  "outcome (adopt_switch_media sw s) = outcome s" "cleanup (adopt_switch_media sw s) = cleanup s"
  "stt (adopt_switch_media sw s) = stt s" "outbox_of (adopt_switch_media sw s) = outbox_of s"
  "cv_state (adopt_switch_media sw s) = cv_state s"
  by (simp_all add: adopt_switch_media_def)

lemma drop_releaser_fields [simp]:
  "life (drop_releaser sw s) = life s" "peer_connection (drop_releaser sw s) = peer_connection s"
  "ended_at (drop_releaser sw s) = ended_at s" "end_reason (drop_releaser sw s) = end_reason s"
  "outcome (drop_releaser sw s) = outcome s" "cleanup (drop_releaser sw s) = cleanup s"
  "stt (drop_releaser sw s) = stt s" "outbox_of (drop_releaser sw s) = outbox_of s"
  by (simp_all add: drop_releaser_def)

lemma drop_releaser_ok: "session_ok s \<Longrightarrow> session_ok (drop_releaser sw s)"
  by (rule peers_step_ok [of s]) (simp_all add: session_ok_def)

lemma switching_facts:
  assumes "session_ok s" "lf_switch (life s) = Some sw"
  shows "lf_phase (life s) = Switching" "lf_candidate (life s) = None" "\<not> ended_at s"
    "sw_generation sw = lf_switch_generation (life s)" "sw_previous_peer sw = Some (peer_connection s)"
    "lf_active_generation (life s) < sw_candidate_generation sw"
    "sw_candidate_generation sw \<le> lf_candidate_generation (life s)" "owns_switch sw s"
  using session_ok_parts(1,2) [OF assms(1)] assms(2)
  by (auto simp: peers_ok_def switch_ok_def candidate_ok_def terminal_ok_def owns_switch_def split: option.splits)

lemma commit_switch_fields:
  "peer_connection (commit_switch sw s) = sw_peer sw" "ended_at (commit_switch sw s) = ended_at s"
  "end_reason (commit_switch sw s) = end_reason s" "outcome (commit_switch sw s) = outcome s"
  "cleanup (commit_switch sw s) = cleanup s" "stt (commit_switch sw s) = stt s"
  "outbox_of (commit_switch sw s) = outbox_of s"
  "life (commit_switch sw s) = (cancel_reconnect_grace ((record_peer_switch_outcome (sw_candidate_generation sw)
     ''committed'' ((life s)\<lparr>lf_active_generation := sw_candidate_generation sw\<rparr>))
     \<lparr>lf_terminal_state := None, lf_state_before := None, lf_grace_peer := None, lf_phase := Stable\<rparr>))
     \<lparr>lf_switch_owner := None, lf_switch_task := None, lf_switch := None, lf_retiring_peer := None,
       lf_retiring_generation := None\<rparr>"
  by (simp_all add: commit_switch_def Let_def split: option.split)

lemma commit_switch_ok:
  assumes "session_ok s" "lf_switch (life s) = Some sw"
  shows "session_ok (commit_switch sw s)"
proof -
  note f = switching_facts [OF assms]
  have "peers_ok (life (commit_switch sw s)) (sw_peer sw)"
    using f by (simp add: commit_switch_fields peers_defs cancel_reconnect_grace_def)
  then show ?thesis
    using f by (intro peers_step_ok [OF assms(1)])
      (simp_all add: commit_switch_fields cancel_reconnect_grace_def)
qed

lemma fail_switch_ok:
  assumes "session_ok s" "lf_switch (life s) = Some sw"
  shows "session_ok (fail_switch sw w s)"
proof -
  note f = switching_facts [OF assms]
  show ?thesis
    unfolding fail_switch_def Let_def
    by (rule transition_keeps)
      (use f session_ok_parts [OF assms(1)] in \<open>auto simp: over_state_def terminal_ok_def split: option.splits\<close>)
qed

lemma abandon_fields [simp]:
  "lf_phase (abandon_switch sw l) = lf_phase l"
  "lf_epoch (abandon_switch sw l) = lf_epoch l"
  "lf_candidate (abandon_switch sw l) = lf_candidate l"
  "lf_candidate_generation (abandon_switch sw l) = lf_candidate_generation l"
  "lf_active_generation (abandon_switch sw l) = lf_active_generation l"
  "lf_switch_generation (abandon_switch sw l) = lf_switch_generation l"
  "lf_events (abandon_switch sw l) = lf_events l"
  "lf_switch l = None \<Longrightarrow> lf_switch (abandon_switch sw l) = None"
  "lf_switch_owner l = None \<Longrightarrow> lf_switch_owner (abandon_switch sw l) = None"
  "lf_switch_task l = None \<Longrightarrow> lf_switch_task (abandon_switch sw l) = None"
  "lf_retiring_peer l = None \<Longrightarrow> lf_retiring_peer (abandon_switch sw l) = None"
  by (simp_all add: abandon_switch_def Let_def)

lemma abandon_ok:
  assumes "session_ok s" "ended_at s"
  shows "session_ok (s\<lparr>life := abandon_switch sw (life s)\<rparr>)"
proof -
  have ph: "lf_phase (life s) = Terminal"
    using session_ok_parts(2) [OF assms(1)] assms(2) by (simp add: terminal_ok_def)
  then have "lf_switch (life s) = None" "lf_switch_owner (life s) = None" "lf_switch_task (life s) = None"
    "lf_retiring_peer (life s) = None" "lf_candidate (life s) = None"
    using session_ok_parts(1) [OF assms(1)]
    by (auto simp: peers_ok_def switch_ok_def candidate_ok_def split: option.splits)
  then have "peers_ok (abandon_switch sw (life s)) (peer_connection s)"
    using session_ok_parts(1) [OF assms(1)] ph by (simp add: peers_defs)
  then show ?thesis
    by (intro peers_step_ok [OF assms(1)]) simp_all
qed

lemma finish_switch_cases:
  fixes w r
  assumes "session_ok s" "lf_switch (life s) = Some sw \<or> ended_at s"
  obtains (over) "ended_at s" "snd (snd (finish_peer_switch sw w r s)) = s\<lparr>life := abandon_switch sw (life s)\<rparr>"
  | (failed) "lf_switch (life s) = Some sw" "snd (snd (finish_peer_switch sw w r s)) = fail_switch sw w s"
  | (committed) "lf_switch (life s) = Some sw"
      "snd (snd (finish_peer_switch sw w r s)) = commit_switch sw s
       \<or> snd (snd (finish_peer_switch sw w r s)) = commit_switch sw (drop_releaser sw s)"
proof (cases "ended_at s")
  case True
  then have "\<not> owns_switch sw s" by (simp add: owns_switch_def)
  then show ?thesis using over True by (simp add: finish_peer_switch_def Let_def)
next
  case False
  then have sw: "lf_switch (life s) = Some sw" using assms(2) by simp
  note own = switching_facts(8) [OF assms(1) sw]
  show ?thesis
  proof (cases "wc_errors w \<noteq> [] \<or> (sw_releaser sw \<noteq> None \<and> \<not> r)")
    case True
    then show ?thesis using own by (intro failed sw) (auto simp: finish_peer_switch_def)
  next
    case False
    then show ?thesis using own by (intro committed sw) (auto simp: finish_peer_switch_def)
  qed
qed

lemma finish_switch_ok:
  assumes "session_ok s" "lf_switch (life s) = Some sw \<or> ended_at s"
  shows "session_ok (snd (snd (finish_peer_switch sw w r s)))"
proof (cases rule: finish_switch_cases [OF assms, of w r])
  case 1
  then show ?thesis using abandon_ok [OF assms(1)] by simp
next
  case 2
  then show ?thesis using fail_switch_ok [OF assms(1)] by simp
next
  case 3
  have "lf_switch (life (drop_releaser sw s)) = Some sw" using 3(1) by simp
  then show ?thesis
    using 3 commit_switch_ok [OF assms(1) 3(1)] commit_switch_ok [OF drop_releaser_ok [OF assms(1)]] by auto
qed

section \<open>The grace and the end\<close>

lemma session_terminate_ok:
  "session_ok s \<Longrightarrow> over_state st \<Longrightarrow> session_ok (snd (transition_terminal_locked st r xp xt s))"
  by (rule transition_keeps) (simp_all add: session_ok_def peers_ok_def)

lemma session_ok_grace_task:
  assumes "session_ok s" "lf_phase (life s) \<noteq> Stable \<or> x = None"
  shows "session_ok (s\<lparr>life := (life s)\<lparr>lf_grace_task := x\<rparr>\<rparr>)"
  by (rule peers_step_ok [OF assms(1)])
    (use session_ok_parts(1) [OF assms(1)] assms(2) in \<open>auto simp: peers_defs split: option.splits\<close>)

lemma resolve_ok: "session_ok s \<Longrightarrow> session_ok (snd (resolve_deferred_connection_state e p s))"
  by (simp add: resolve_deferred_connection_state_def Let_def session_terminate_ok over_state_def
      session_ok_grace_task)

lemma expire_ok: "session_ok s \<Longrightarrow> session_ok (expire_reconnect_grace s)"
  by (auto simp: expire_reconnect_grace_def Let_def split: option.split
      intro!: session_ok_grace_task resolve_ok)

lemma terminated: "session_ok s \<Longrightarrow> ended_at (snd (transition_terminal_locked st r xp xt s))"
  using session_ok_parts(2) [of s] transition_terminal_again [of s] transition_terminal_effect(1) [of s]
  by (cases "ended_at s") (auto simp: terminal_ok_def)

lemma end_call_state: "session_ok s \<Longrightarrow> end_call r s = snd (transition_terminal_locked Ended r [] [] s)"
proof -
  assume ok: "session_ok s"
  let ?t = "snd (transition_terminal_locked Ended r [] [] s)"
  have "terminal_ok ?t"
    using session_ok_parts(2) [OF session_terminate_ok [OF ok]] by (simp add: over_state_def)
  then have "outcome ?t \<noteq> None"
    using terminated [OF ok] by (auto simp: terminal_ok_def split: option.splits)
  then show ?thesis by (simp add: end_call_def Let_def)
qed

lemma connection_ok: "session_ok s \<Longrightarrow> session_ok (handle_connection_state_change p c g s)"
  by (simp add: handle_connection_state_change_def begin_reconnect_ok recover_ok)

lemma peer_op_ok:
  assumes "session_ok s" "enabled (Peer a) s"
  shows "session_ok (apply_peer_op a s)"
  using assms
  by (cases a) (simp_all add: enabled_def offer_ok set_channel_ok accept_ok promote_ok reject_ok finish_switch_ok
      connection_ok expire_ok end_call_state fail_call_def session_terminate_ok over_state_def)

lemma leave_backfill_life:
  "life (leave_backfill n s) = life s
   \<or> (lf_phase (life s) = Reconnect_phase \<and> (\<exists>x. life (leave_backfill n s) = (life s)\<lparr>lf_grace_task := x\<rparr>))"
  by (simp add: leave_backfill_def Let_def split: option.split) blast

lemma leave_backfill_fields:
  "peer_connection (leave_backfill n s) = peer_connection s" "ended_at (leave_backfill n s) = ended_at s"
  "end_reason (leave_backfill n s) = end_reason s" "outcome (leave_backfill n s) = outcome s"
  "cleanup (leave_backfill n s) = cleanup s" "stt (leave_backfill n s) = stt s"
  "outbox_of (leave_backfill n s) = outbox_of s"
  by (simp_all add: leave_backfill_def Let_def)

lemma leave_backfill_ok: assumes "session_ok s" shows "session_ok (leave_backfill n s)"
proof -
  have "peers_ok (life (leave_backfill n s)) (peer_connection s)"
    using leave_backfill_life [of n s] session_ok_parts(1) [OF assms]
      session_ok_parts(1) [OF session_ok_grace_task [OF assms]] by auto
  moreover have "lf_phase (life (leave_backfill n s)) = lf_phase (life s)"
    using leave_backfill_life [of n s] by auto
  ultimately show ?thesis
    by (intro peers_step_ok [OF assms]) (simp_all add: leave_backfill_fields)
qed

lemma user_op_ok: assumes "session_ok s" shows "session_ok (apply_user_op a s)"
proof (cases "\<exists>n. a = Leave_backfill n")
  case True
  then show ?thesis using leave_backfill_ok [OF assms] by auto
next
  case False
  then show ?thesis using lives_core_ok [OF assms user_keeps] by blast
qed

lemma session_step_ok: "session_step s a t \<Longrightarrow> session_ok s \<Longrightarrow> session_ok t"
proof (erule session_stepE)
  assume ok: "session_ok s" and t: "t = apply_op a s" and en: "enabled a s"
  show "session_ok t"
  proof (cases a)
    case (Peer b)
    then show ?thesis using peer_op_ok [OF ok] en t by simp
  next
    case (User b)
    then show ?thesis using user_op_ok [OF ok] t by simp
  next
    case (Speech b)
    then show ?thesis
      using lives_core_ok [OF ok lives_coreI] speech_keeps [of s b] t by simp
  next
    case (Post b)
    then show ?thesis
      using lives_core_ok [OF ok lives_coreI] post_keeps [of s b] t by simp
  qed
qed

lemma session_init_ok: "session_init s \<Longrightarrow> session_ok s"
  by (auto simp: session_init_def new_session_def session_ok_def peers_defs new_lifecycle_def
      terminal_ok_def stt_ok_def)

interpretation call: machine session_init session_step session_ok
  by unfold_locales (auto intro: session_init_ok session_step_ok)

end
