(* ===== verification/SessionSafety.thy ===== *)
theory SessionSafety
  imports SessionLaws
begin

text \<open>
  What the invariant of the call session gives: the end of a call is final, peers and generations
  follow a small abstract protocol, a reservation of speech is only good within one epoch, and no
  waiter on a past owner of speech generation is forgotten.
\<close>

section \<open>The end is final\<close>

text \<open>What a session that has ended keeps.\<close>

definition frozen :: "session \<Rightarrow> session \<Rightarrow> bool" where
  "frozen s t \<longleftrightarrow> ended_at t \<and> end_reason t = end_reason s \<and> peer_connection t = peer_connection s
     \<and> lf_phase (life t) = Terminal \<and> lf_epoch (life t) = lf_epoch (life s)
     \<and> lf_active_generation (life t) = lf_active_generation (life s)
     \<and> map_option (\<lambda>r. (to_state r, to_reason r, to_commit r)) (outcome t)
       = map_option (\<lambda>r. (to_state r, to_reason r, to_commit r)) (outcome s)
     \<and> cleanup t = cleanup s"

lemma ended_facts:
  assumes "session_ok s" "ended_at s"
  shows "lf_phase (life s) = Terminal" "lf_candidate (life s) = None" "lf_switch (life s) = None"
    "call_over s"
  using session_ok_parts(1,2) [OF assms(1)] assms(2)
  by (auto simp: peers_ok_def candidate_ok_def switch_ok_def terminal_ok_def call_over_def split: option.splits)

lemma same_core_frozen: "session_ok s \<Longrightarrow> ended_at s \<Longrightarrow> same_core s t \<Longrightarrow> frozen s t"
  using ended_facts(1) [of s] by (simp add: frozen_def same_core_def)

lemma peer_op_frozen:
  assumes ok: "session_ok s" "ended_at s"
  shows "frozen s (apply_peer_op a s)"
proof -
  note f = ended_facts [OF ok]
  have self: "frozen s s" using f(1) ok(2) by (simp add: frozen_def)
  show ?thesis
  proof (cases a)
    case (Offer p t c)
    then show ?thesis using self f(4) by (simp add: mark_peer_connection_pending_def Let_def)
  next
    case (Set_channel p c g)
    then show ?thesis using f ok(2) by (simp add: set_data_channel_for_peer_def frozen_def)
  next
    case (Accept p g t)
    then show ?thesis using self f by (simp add: accept_pending_peer_def split: option.split)
  next
    case (Promote g c i)
    then show ?thesis using self f by (simp add: commit_pending_generation_def split: option.split)
  next
    case (Reject p g)
    then show ?thesis using self f by (simp add: reject_pending_peer_def is_peer_pending_def)
  next
    case (Finish_switch sw w r)
    then show ?thesis
      using f(1) ok(2) by (simp add: finish_peer_switch_def owns_switch_def Let_def frozen_def)
  next
    case (Peer_state p c g)
    then show ?thesis
      using self f ok(2)
      by (simp add: handle_connection_state_change_def begin_transport_reconnect_def
          recover_active_transport_def Let_def)
  next
    case Grace_expires
    then show ?thesis
      using self f ok(2)
      by (simp add: expire_reconnect_grace_def resolve_deferred_connection_state_def Let_def frozen_def
          split: option.split)
  next
    case (End_call r)
    then show ?thesis using self ok by (simp add: end_call_state transition_terminal_again)
  next
    case (Fail_call r)
    then show ?thesis using self ok by (simp add: fail_call_def transition_terminal_again)
  qed
qed

lemma user_op_frozen:
  assumes ok: "session_ok s" "ended_at s"
  shows "frozen s (apply_user_op a s)"
proof (cases "\<exists>n. a = Leave_backfill n")
  case True
  then obtain n where a: "a = Leave_backfill n" by auto
  have "life (leave_backfill n s) = life s"
    using leave_backfill_life [of n s] ended_facts(1) [OF ok] by simp
  then show ?thesis
    using a ok ended_facts(1) [OF ok] by (simp add: frozen_def leave_backfill_fields)
next
  case False
  then have "lives_core s (apply_user_op a s)"
    using user_keeps by blast
  then show ?thesis
    using same_core_frozen [OF ok] by (simp add: lives_core_def)
qed

lemma step_frozen: "session_step s a t \<Longrightarrow> session_ok s \<Longrightarrow> ended_at s \<Longrightarrow> frozen s t"
  by (cases a) (auto elim!: session_stepE simp: peer_op_frozen user_op_frozen same_core_frozen
      speech_keeps post_keeps)

lemma frozen_trans: "frozen s t \<Longrightarrow> frozen t u \<Longrightarrow> frozen s u"
  by (simp add: frozen_def)


abbreviation sample_session :: session where
  "sample_session \<equiv> new_session [] (Some ''t'') (Some ''v'') (Some ''e'') [] 7 None None None None"

lemma sample_init: "session_init sample_session"
  unfolding session_init_def by blast

lemma sample_reach: "reach session_init session_step sample_session"
  by (rule reach.reach_init) (rule sample_init)

lemma reach_op: "reach session_init session_step s \<Longrightarrow> enabled a s \<Longrightarrow> reach session_init session_step (apply_op a s)"
  by (rule reach.reach_step, assumption, rule run_op)

lemma step_apply: "enabled a s \<Longrightarrow> apply_op a s = t \<Longrightarrow> session_step s a t"
  using run_op [of a s] by simp

lemma end_call_ends: "session_ok s \<Longrightarrow> ended_at (end_call r s)"
  by (simp add: end_call_state terminated)


section \<open>The abstract protocol of peers\<close>

text \<open>
  The view of a call that its peers have: the phase, the generation in use, the newest generation
  registered, and the generation a switch is bringing in. The moves say what may happen to it.
\<close>

type_synonym call_view = "phase \<times> nat \<times> nat \<times> nat option"

definition goes_on :: "phase \<Rightarrow> bool" where
  "goes_on p \<longleftrightarrow> p = Stable \<or> p = Reconnect_phase"

inductive call_moves :: "call_view \<Rightarrow> call_view \<Rightarrow> bool" where
  stay: "call_moves v v"
| register: "goes_on p \<Longrightarrow> call_moves (p, a, n, None) (p, a, Suc n, None)"
| promote: "goes_on p \<Longrightarrow> a < n \<Longrightarrow> call_moves (p, a, n, None) (Stable, n, n, None)"
| switch: "goes_on p \<Longrightarrow> a < n \<Longrightarrow> call_moves (p, a, n, None) (Switching, a, n, Some n)"
| switched: "a < g \<Longrightarrow> g \<le> n \<Longrightarrow> call_moves (Switching, a, n, Some g) (Stable, g, n, None)"
| lose: "call_moves (Stable, a, n, None) (Reconnect_phase, a, n, None)"
| recover: "call_moves (Reconnect_phase, a, n, None) (Stable, a, n, None)"
| finish: "p \<noteq> Terminal \<Longrightarrow> call_moves (p, a, n, x) (Terminal, a, n, None)"

inductive_cases call_movesE: "call_moves v w"

definition view :: "session \<Rightarrow> call_view" where
  "view s = (lf_phase (life s), lf_active_generation (life s), lf_candidate_generation (life s),
     map_option sw_candidate_generation (lf_switch (life s)))"

lemma view_life: "life t = life s \<Longrightarrow> view t = view s"
  by (simp add: view_def)

lemma view_same_core: "same_core s t \<Longrightarrow> call_moves (view s) (view t)"
  using view_life [of t s] by (simp add: same_core_def stay)

lemma not_switching: "session_ok s \<Longrightarrow> lf_phase (life s) \<noteq> Switching \<Longrightarrow> lf_switch (life s) = None"
  using session_ok_parts(1) [of s] by (auto simp: peers_ok_def switch_ok_def split: option.splits)

lemma transition_view:
  assumes "session_ok s"
  shows "call_moves (view s) (view (snd (transition_terminal_locked st r xp xt s)))"
proof (cases "ended_at s")
  case True
  then show ?thesis by (simp add: transition_terminal_again stay)
next
  case False
  then have live: "lf_phase (life s) \<noteq> Terminal"
    using session_ok_parts(2) [OF assms] by (simp add: terminal_ok_def)
  have "view (snd (transition_terminal_locked st r xp xt s))
      = (Terminal, lf_active_generation (life s), lf_candidate_generation (life s), None)"
    using False live
    by (simp add: transition_terminal_locked_def Let_def split_beta view_def terminal_lifecycle_def
        cancel_reconnect_grace_def clear_pending_peer_def split: option.split)
  then show ?thesis
    using finish [OF live] by (simp add: view_def)
qed

lemma accept_view:
  assumes "session_ok s"
  shows "call_moves (view s) (view (snd (accept_pending_peer p g t s)))"
proof (cases rule: accept_cases [OF assms, of p g t])
  case 1
  then show ?thesis by (simp add: stay)
next
  case (2 c)
  note live = live_switch_fields [OF assms 2(1)]
  have "goes_on (lf_phase (life s))"
    using live(7,8) by (cases "lf_phase (life s)") (simp_all add: goes_on_def)
  then show ?thesis
    using live switch [of "lf_phase (life s)"]
    by (simp add: 2 view_def start_switch_def Let_def new_switch_def)
next
  case (3 c)
  note live = live_switch_fields [OF assms 3(1)]
  have "goes_on (lf_phase (life s))"
    using live(7,8) by (cases "lf_phase (life s)") (simp_all add: goes_on_def)
  then show ?thesis
    using live promote [of "lf_phase (life s)"]
    by (simp add: 3 view_def accept_directly_def Let_def cancel_reconnect_grace_def split: option.split)
qed

lemma connection_view:
  assumes "session_ok s"
  shows "call_moves (view s) (view (handle_connection_state_change p c g s))"
proof -
  have begin_view: "call_moves (view s) (view (begin_transport_reconnect p c g s))"
  proof (cases rule: begin_reconnect_cases [OF assms, of p c g])
    case 1
    then show ?thesis by (simp add: stay)
  next
    case begun: 2
    have none: "lf_switch (life s) = None" using not_switching [OF assms] begun(1) by auto
    have "view (begin_transport_reconnect p c g s)
        = (Reconnect_phase, lf_active_generation (life s), lf_candidate_generation (life s), None)"
      unfolding begun(4) view_def using reconnect_lifecycle_ok(2) [OF session_ok_parts(1) [OF assms]] begun(1,2) none
      by (simp add: reconnect_lifecycle_def Let_def)
    then show ?thesis
      using begun(1) none lose stay by (auto simp: view_def)
  qed
  have "call_moves (view s) (view (snd (recover_active_transport p g s)))"
    using not_switching [OF assms] recover
    by (auto simp: recover_active_transport_def Let_def view_def stay cancel_reconnect_grace_def)
  then show ?thesis
    using begin_view by (simp add: handle_connection_state_change_def stay)
qed

lemma finish_view:
  assumes "session_ok s" "lf_switch (life s) = Some sw \<or> ended_at s"
  shows "call_moves (view s) (view (snd (snd (finish_peer_switch sw w r s))))"
proof (cases rule: finish_switch_cases [OF assms, of w r])
  case 1
  then have "lf_switch (life s) = None" using ended_facts(3) [OF assms(1)] by simp
  then show ?thesis using 1 by (simp add: view_def stay)
next
  case 2
  note f = switching_facts [OF assms(1) 2(1)]
  have "view (fail_switch sw w s)
      = (Terminal, lf_active_generation (life s), lf_candidate_generation (life s), None)"
    using f by (simp add: fail_switch_def Let_def view_def transition_terminal_locked_def split_beta
        terminal_lifecycle_def cancel_reconnect_grace_def)
  then show ?thesis
    using 2 f(1) finish by (simp add: view_def)
next
  case 3
  note f = switching_facts [OF assms(1) 3(1)]
  have "view (commit_switch sw s) = (Stable, sw_candidate_generation sw, lf_candidate_generation (life s), None)"
    "view (commit_switch sw (drop_releaser sw s))
      = (Stable, sw_candidate_generation sw, lf_candidate_generation (life s), None)"
    by (simp_all add: view_def commit_switch_fields cancel_reconnect_grace_def)
  then show ?thesis
    using 3 f switched by (auto simp: view_def)
qed

lemma view_grace: "view (s\<lparr>life := (life s)\<lparr>lf_grace_task := x\<rparr>\<rparr>) = view s"
  by (simp add: view_def)

lemma resolve_view:
  assumes "session_ok s"
  shows "call_moves (view s) (view (snd (resolve_deferred_connection_state e p s)))"
  using transition_view [OF assms] view_grace stay
  by (simp add: resolve_deferred_connection_state_def Let_def)

lemma peer_op_view:
  assumes ok: "session_ok s" and en: "enabled (Peer a) s"
  shows "call_moves (view s) (view (apply_peer_op a s))"
proof (cases a)
  case (Offer p t c)
  show ?thesis
  proof (cases "call_over s \<or> lf_phase (life s) = Switching")
    case True
    then show ?thesis using Offer by (auto simp: mark_peer_connection_pending_def Let_def stay)
  next
    case False
    then have "goes_on (lf_phase (life s))"
      by (cases "lf_phase (life s)") (simp_all add: goes_on_def call_over_def)
    then show ?thesis
      using Offer False not_switching [OF ok] register
      by (simp add: mark_peer_connection_pending_def Let_def view_def cancel_pending_peer_timeout_def)
  qed
next
  case (Set_channel p c g)
  then show ?thesis by (simp add: set_data_channel_for_peer_def view_def stay)
next
  case (Accept p g t)
  then show ?thesis using accept_view [OF ok] by simp
next
  case (Promote g c i)
  then show ?thesis using promote_state [of g c i s] accept_view [OF ok] stay by (metis apply_peer_op.simps(4))
next
  case (Reject p g)
  then show ?thesis by (simp add: reject_pending_peer_def view_def stay)
next
  case (Finish_switch sw w r)
  then show ?thesis using finish_view [OF ok] en by (simp add: enabled_def)
next
  case (Peer_state p c g)
  then show ?thesis using connection_view [OF ok] by simp
next
  case Grace_expires
  then show ?thesis using resolve_view [OF ok] view_grace stay
    by (simp add: expire_reconnect_grace_def Let_def split: option.split)
next
  case (End_call r)
  then show ?thesis using transition_view [OF ok] end_call_state [OF ok] by simp
next
  case (Fail_call r)
  then show ?thesis using transition_view [OF ok] by (simp add: fail_call_def)
qed



lemma moves_grow: "call_moves v w \<Longrightarrow> fst (snd v) \<le> fst (snd w) \<and> fst (snd (snd v)) \<le> fst (snd (snd w))"
  by (induction rule: call_moves.induct) auto

end

