(* ===== verification/SessionWaits.thy ===== *)
theory SessionWaits
  imports SessionSafety
begin

text \<open>
  Who waits for what in a call session: the receiver of a candidate's media waits for the candidate's
  admission event, a speech request for the \<open>done\<close> event of the owner of speech generation. The
  second kind of waiter is never forgotten; the first kind is, when a newer offer supersedes the
  candidate.
\<close>

section \<open>The admission events of candidates\<close>

text \<open>What a step does to the candidate and to the events: nothing, a new candidate, or its end.\<close>

definition same_candidate :: "lifecycle \<Rightarrow> lifecycle \<Rightarrow> bool" where
  "same_candidate l m \<longleftrightarrow> lf_events m = lf_events l
     \<and> lf_candidate_generation m = lf_candidate_generation l
     \<and> (lf_candidate m = None \<or> map_option cd_generation (lf_candidate m) = map_option cd_generation (lf_candidate l))"

definition candidate_gone :: "lifecycle \<Rightarrow> lifecycle \<Rightarrow> bool" where
  "candidate_gone l m \<longleftrightarrow> lf_candidate m = None \<and> lf_candidate_generation m = lf_candidate_generation l
     \<and> (\<exists>c. lf_candidate l = Some c \<and> lf_events m = insert (cd_generation c) (lf_events l))"

definition candidate_new :: "lifecycle \<Rightarrow> lifecycle \<Rightarrow> bool" where
  "candidate_new l m \<longleftrightarrow> lf_events m = lf_events l
     \<and> lf_candidate_generation m = Suc (lf_candidate_generation l)
     \<and> map_option cd_generation (lf_candidate m) = Some (Suc (lf_candidate_generation l))"

definition candidate_step :: "lifecycle \<Rightarrow> lifecycle \<Rightarrow> bool" where
  "candidate_step l m \<longleftrightarrow> same_candidate l m \<or> candidate_gone l m \<or> candidate_new l m"

lemma same_candidate_refl [simp]: "same_candidate l l"
  by (simp add: same_candidate_def)

lemma candidate_step_refl [simp]: "candidate_step l l"
  by (simp add: candidate_step_def)

lemma candidate_step_cong:
  assumes "candidate_step l m" "lf_events n = lf_events m" "lf_candidate n = lf_candidate m"
    "lf_candidate_generation n = lf_candidate_generation m"
  shows "candidate_step l n"
  using assms by (simp add: candidate_step_def same_candidate_def candidate_gone_def candidate_new_def)

lemma clear_candidate_step: "candidate_step l (clear_pending_peer p l)"
  by (simp add: candidate_step_def clear_pending_peer_def same_candidate_def candidate_gone_def
      split: option.split)

lemma candidate_step_pending:
  "lf_events n = lf_events (clear_pending_peer p l) \<Longrightarrow> lf_candidate n = lf_candidate (clear_pending_peer p l)
   \<Longrightarrow> lf_candidate_generation n = lf_candidate_generation (clear_pending_peer p l) \<Longrightarrow> candidate_step l n"
  using candidate_step_cong [OF clear_candidate_step] by blast

lemma terminal_candidate_step: "candidate_step l (terminal_lifecycle l)"
  by (simp add: terminal_lifecycle_def Let_def cancel_reconnect_grace_def clear_pending_peer_def
      candidate_step_def same_candidate_def candidate_gone_def split: option.split)

lemma transition_candidate:
  "candidate_step (life s) (life (snd (transition_terminal_locked st r xp xt s)))"
  by (simp add: transition_terminal_locked_def Let_def split_beta terminal_candidate_step)

lemma accept_candidate:
  assumes "session_ok s"
  shows "candidate_step (life s) (life (snd (accept_pending_peer p g t s)))"
proof (cases rule: accept_cases [OF assms, of p g t])
  case (2 c)
  then show ?thesis
    by (simp add: start_switch_def Let_def candidate_step_pending)
next
  case (3 c)
  then show ?thesis
    by (simp add: accept_directly_def Let_def candidate_step_pending cancel_reconnect_grace_def
        split: option.split)
qed simp

lemma candidate_step_from:
  assumes "candidate_step k m" "lf_events k = lf_events l" "lf_candidate k = lf_candidate l"
    "lf_candidate_generation k = lf_candidate_generation l"
  shows "candidate_step l m"
  using assms by (simp add: candidate_step_def same_candidate_def candidate_gone_def candidate_new_def)

lemma finish_candidate:
  assumes "session_ok s" "lf_switch (life s) = Some sw \<or> ended_at s"
  shows "candidate_step (life s) (life (snd (snd (finish_peer_switch sw w r s))))"
proof (cases rule: finish_switch_cases [OF assms, of w r])
  case 1
  then show ?thesis by (intro candidate_step_cong [OF candidate_step_refl]) simp_all
next
  case 2
  then show ?thesis
    unfolding 2(2) fail_switch_def Let_def
    by (intro candidate_step_from [OF transition_candidate]) simp_all
next
  case 3
  have "candidate_step (life s) (life (commit_switch sw s))"
    "candidate_step (life s) (life (commit_switch sw (drop_releaser sw s)))"
    by (rule candidate_step_cong [OF candidate_step_refl];
        simp add: commit_switch_fields cancel_reconnect_grace_def)+
  then show ?thesis using 3(2) by auto
qed

lemma reconnect_candidate: "candidate_step l (reconnect_lifecycle p c st l)"
  by (cases "lf_candidate l")
    (simp_all add: reconnect_lifecycle_def Let_def candidate_step_def same_candidate_def)

lemma connection_candidate: "candidate_step (life s) (life (handle_connection_state_change p c g s))"
proof -
  have "candidate_step (life s) (life (begin_transport_reconnect p c g s))"
    by (simp add: begin_transport_reconnect_def Let_def reconnect_candidate)
  moreover have "candidate_step (life s) (life (snd (recover_active_transport p g s)))"
    by (simp add: recover_active_transport_def Let_def
        candidate_step_cong [OF candidate_step_refl] cancel_reconnect_grace_def)
  ultimately show ?thesis
    by (simp add: handle_connection_state_change_def)
qed

lemma resolve_candidate: "candidate_step (life s) (life (snd (resolve_deferred_connection_state e p s)))"
proof -
  have "candidate_step (life s) ((life s)\<lparr>lf_grace_task := None\<rparr>)"
    by (rule candidate_step_cong [OF candidate_step_refl]) simp_all
  then show ?thesis
    by (simp add: resolve_deferred_connection_state_def Let_def transition_candidate)
qed

lemma expire_candidate: "candidate_step (life s) (life (expire_reconnect_grace s))"
  by (simp add: expire_reconnect_grace_def Let_def candidate_step_cong [OF resolve_candidate]
      split: option.split)

lemma peer_op_candidate:
  assumes ok: "session_ok s" and en: "enabled (Peer a) s"
  shows "candidate_step (life s) (life (apply_peer_op a s))"
proof (cases a)
  case (Offer p t c)
  then show ?thesis
    by (simp add: mark_peer_connection_pending_def Let_def candidate_step_def candidate_new_def
        cancel_pending_peer_timeout_def)
next
  case (Set_channel p c g)
  then show ?thesis
    by (cases "lf_candidate (life s)")
      (simp_all add: set_data_channel_for_peer_def candidate_step_def same_candidate_def)
next
  case (Promote g c i)
  then show ?thesis
    using promote_state [of g c i s] accept_candidate [OF ok]
    by (metis apply_peer_op.simps(4) candidate_step_refl)
next
  case (Reject p g)
  then show ?thesis by (simp add: reject_pending_peer_def clear_candidate_step)
next
  case (Finish_switch sw w r)
  then show ?thesis using finish_candidate [OF ok] en by (simp add: enabled_def)
next
  case (End_call r)
  then show ?thesis using end_call_state [OF ok] by (simp add: transition_candidate)
qed (simp_all add: accept_candidate [OF ok] connection_candidate expire_candidate fail_call_def transition_candidate)

lemma step_candidate:
  assumes "session_step s a t" "session_ok s"
  shows "candidate_step (life s) (life t)"
proof -
  have t: "t = apply_op a s" and en: "enabled a s" using assms(1) by (auto elim: session_stepE)
  show ?thesis
  proof (cases a)
    case (Peer b)
    then show ?thesis using peer_op_candidate [OF assms(2)] en t by simp
  next
    case (User b)
    show ?thesis
    proof (cases "\<exists>n. b = Leave_backfill n")
      case True
      then obtain n where n: "b = Leave_backfill n" by auto
      show ?thesis
        using User t n leave_backfill_life [of n s]
        by (intro candidate_step_cong [OF candidate_step_refl]) auto
    next
      case False
      then have "life t = life s"
        using User t user_keeps [of b s] by (auto simp: lives_core_def same_core_def)
      then show ?thesis by simp
    qed
  qed (use t speech_keeps post_keeps in \<open>auto simp: same_core_def\<close>)
qed

text \<open>The events that are set belong to generations that were registered and are not pending.\<close>

definition events_sane :: "lifecycle \<Rightarrow> bool" where
  "events_sane l \<longleftrightarrow> (\<forall>g\<in>lf_events l. g \<le> lf_candidate_generation l)
     \<and> (\<forall>c. lf_candidate l = Some c \<longrightarrow> cd_generation c \<notin> lf_events l)"

lemma events_sane_step:
  assumes "candidate_step l m" "candidate_ok l p" "events_sane l"
  shows "events_sane m"
proof -
  have old: "g \<in> lf_events l \<Longrightarrow> g \<le> lf_candidate_generation l" for g
    using assms(3) by (simp add: events_sane_def)
  have fresh: "Suc (lf_candidate_generation l) \<notin> lf_events l"
    using old [of "Suc (lf_candidate_generation l)"] by auto
  from assms(1) consider "same_candidate l m" | "candidate_gone l m" | "candidate_new l m"
    by (auto simp: candidate_step_def)
  then show ?thesis
  proof cases
    case 1
    then show ?thesis
      using assms(3) by (cases "lf_candidate l") (auto simp: same_candidate_def events_sane_def)
  next
    case 2
    then show ?thesis
      using assms(2) old by (auto simp: candidate_gone_def events_sane_def candidate_ok_def)
  next
    case 3
    then show ?thesis
      using old fresh by (auto simp: candidate_new_def events_sane_def intro: le_SucI)
  qed
qed

lemma step_events:
  "session_step s a t \<Longrightarrow> session_ok s \<and> events_sane (life s) \<Longrightarrow> session_ok t \<and> events_sane (life t)"
  using session_step_ok [of s a t] step_candidate [of s a t] events_sane_step [of "life s" "life t"]
    session_ok_parts(1) [of s] by (auto simp: peers_ok_def)

interpretation waits: machine session_init session_step "\<lambda>s. session_ok s \<and> events_sane (life s)"
proof unfold_locales
  fix s assume "session_init s"
  then show "session_ok s \<and> events_sane (life s)"
    using session_init_ok [of s]
    by (auto simp: session_init_def new_session_def new_lifecycle_def events_sane_def)
qed (rule step_events)

definition never_admitted :: "nat \<Rightarrow> session \<Rightarrow> bool" where
  "never_admitted g s \<longleftrightarrow> g \<notin> lf_events (life s) \<and> g < lf_candidate_generation (life s)"

lemma never_admitted_step:
  assumes "session_step s a t" "session_ok s \<and> events_sane (life s)" "never_admitted g s"
  shows "never_admitted g t"
proof -
  have cand: "candidate_ok (life s) (peer_connection s)"
    using session_ok_parts(1) [of s] assms(2) by (simp add: peers_ok_def)
  from step_candidate [OF assms(1)] assms(2)
  consider "same_candidate (life s) (life t)" | "candidate_gone (life s) (life t)" | "candidate_new (life s) (life t)"
    by (auto simp: candidate_step_def)
  then show ?thesis
  proof cases
    case 1
    then show ?thesis using assms(3) by (simp add: same_candidate_def never_admitted_def)
  next
    case 2
    then show ?thesis
      using assms(3) cand by (auto simp: candidate_gone_def never_admitted_def candidate_ok_def)
  next
    case 3
    then show ?thesis using assms(3) by (simp add: candidate_new_def never_admitted_def)
  qed
qed

text \<open>
  \<^bold>\<open>C7\<close>. A candidate that a newer offer supersedes is forgotten. The receiver of its media may
  stand at \<open>Wait_candidate\<close>, and its admission event is not set by the offer that replaces it, nor by
  any step of any later run, not even by the end of the call: only the candidate in force has its
  event set.
\<close>

theorem superseded_receiver_waits_forever:
  assumes "reach session_init session_step s" "lf_candidate (life s) = Some c"
    and "peer \<noteq> peer_connection s" "mark_peer_connection_pending peer track config s = (Inr n, cl, t)"
    and "run_of session_step t ls u"
  shows "peer_media_admission (cd_peer c) (Some (cd_generation c)) s = Wait_candidate (cd_generation c)
    \<and> cd_generation c \<notin> lf_events (life u)"
proof
  have inv: "session_ok s \<and> events_sane (life s)" by (rule waits.inv_reach [OF assms(1)])
  note live = live_switch_fields [OF conjunct1 [OF inv] assms(2)]
  have step: "session_step s (Peer (Offer peer track config)) t"
    using assms(3,4) by (intro step_apply) (simp_all add: enabled_def)
  have "never_admitted (cd_generation c) t"
    using assms(2,4) inv live(6)
    by (auto simp: mark_peer_connection_pending_def Let_def never_admitted_def events_sane_def
        cancel_pending_peer_timeout_def split: if_split_asm)
  then have "never_admitted (cd_generation c) u"
    by (rule waits.stable_run [where P = "never_admitted (cd_generation c)", rotated 3])
      (fact never_admitted_step assms(5) step_events [OF step inv])+
  then show "cd_generation c \<notin> lf_events (life u)" by (simp add: never_admitted_def)
  have "cd_peer c \<noteq> peer_connection s" "\<not> ended_at s"
    using session_ok_parts(1,2) [OF conjunct1 [OF inv]] assms(2) live(7)
    by (auto simp: peers_ok_def candidate_ok_def terminal_ok_def)
  then show "peer_media_admission (cd_peer c) (Some (cd_generation c)) s = Wait_candidate (cd_generation c)"
    using live(7,8) assms(2) by (simp add: peer_media_admission_def Let_def is_peer_pending_def)
qed

lemma sample_fields:
  "peer_connection sample_session = 7" "\<not> ended_at sample_session" "lf_phase (life sample_session) = Stable"
  "cv_state sample_session = Listening"
  by (simp_all add: new_session_def new_lifecycle_def)

theorem superseded_receiver_waits_forever_witness:
  "1 \<notin> lf_events (life (end_call (lit ''bye'') (apply_op (Peer (Offer 3 None None))
     (apply_op (Peer (Offer 2 None None)) sample_session))))"
proof -
  let ?s = "apply_op (Peer (Offer 2 None None)) sample_session"
  let ?t = "apply_op (Peer (Offer 3 None None)) ?s"
  have reach: "reach session_init session_step ?s"
    by (rule reach_op [OF sample_reach]) (simp add: enabled_def sample_fields)
  have cand: "lf_candidate (life ?s) = Some \<lparr>cd_peer = 2, cd_generation = 1, cd_epoch = 0, cd_track = None,
      cd_channel = None, cd_timeout = True, cd_config = None\<rparr>"
    and peer: "3 \<noteq> peer_connection ?s"
    and offer: "mark_peer_connection_pending 3 None None ?s = (Inr 2, [(2, ''candidate_superseded'')], ?t)"
    by (simp_all add: mark_peer_connection_pending_def call_over_def over_state_def Let_def new_session_def
        new_lifecycle_def cancel_pending_peer_timeout_def numeral_2_eq_2)
  have run: "run_of session_step ?t [Peer (End_call (lit ''bye''))] (apply_op (Peer (End_call (lit ''bye''))) ?t)"
    by (rule run_of.run_cons, rule run_op, simp add: enabled_def, rule run_of.run_nil)
  from superseded_receiver_waits_forever [OF reach cand peer offer run]
  show ?thesis unfolding apply_op.simps apply_peer_op.simps candidate.simps by (rule conjunct2)
qed

end
