(* ===== verification/SessionSpeech.thy ===== *)
theory SessionSpeech
  imports SessionWaits
begin

text \<open>
  The one owner of speech generation. Its token is the newest one, the \<open>done\<close> events of all former
  owners are set and its own is not, so that a speech request never waits for an owner that is gone.
\<close>

definition same_owner :: "speech_desk \<Rightarrow> speech_desk \<Rightarrow> bool" where
  "same_owner d e \<longleftrightarrow> sd_admission e = sd_admission d \<and> sd_generation e = sd_generation d
     \<and> sd_done e = sd_done d"

definition owner_taken :: "speech_desk \<Rightarrow> speech_desk \<Rightarrow> bool" where
  "owner_taken d e \<longleftrightarrow> sd_admission d = None \<and> sd_generation e = Suc (sd_generation d) \<and> sd_done e = sd_done d
     \<and> (\<exists>a. sd_admission e = Some a \<and> sa_token a = Suc (sd_generation d))"

definition owner_left :: "speech_desk \<Rightarrow> speech_desk \<Rightarrow> bool" where
  "owner_left d e \<longleftrightarrow> sd_admission e = None \<and> sd_generation e = sd_generation d
     \<and> (\<exists>a. sd_admission d = Some a \<and> sd_done e = insert (sa_token a) (sd_done d))"

definition owner_step :: "speech_desk \<Rightarrow> speech_desk \<Rightarrow> bool" where
  "owner_step d e \<longleftrightarrow> same_owner d e \<or> owner_taken d e \<or> owner_left d e"

lemma same_owner_refl [simp]: "same_owner d d"
  by (simp add: same_owner_def)

lemma owner_step_refl [simp]: "owner_step d d"
  by (simp add: owner_step_def)

lemma same_owner_trans: "same_owner d e \<Longrightarrow> same_owner e f \<Longrightarrow> same_owner d f"
  by (simp add: same_owner_def)

lemma release_owner: "owner_step (tts s) (tts (release_speech_admission a s))"
  by (simp add: release_speech_admission_def Let_def clear_active_tts_def owner_step_def same_owner_def
      owner_left_def)

lemma cancel_ledger_tts [simp]: "tts (cancel_ledger t s) = tts s"
  by (simp add: cancel_ledger_def split: option.split)

lemma clear_pending_owner [simp]: "same_owner d (clear_pending_speech_terminal d)"
  by (simp add: clear_pending_speech_terminal_def same_owner_def)

lemma admit_owner: "owner_step (tts s) (tts (snd (admit_tts_segment sha t x fin sid ord cfg ad task s)))"
  by (simp add: admit_tts_segment_def install_admission_def Let_def owner_step_def owner_taken_def
      split: sum.split option.split prod.split)

lemma complete_tts: "tts (snd (complete_speech_begin sha t v e sid ord s)) = tts s"
  by (simp add: complete_speech_begin_def Let_def split: sum.split option.split prod.split)

lemma store_tts: "tts (right_or (store_speech_result t seg r ev s) s) = tts s"
  by (simp add: store_speech_result_def right_or_def split: stream_end.split sum.split)

lemma streaming_owner: "same_owner (tts s) (tts (snd (finish_streaming t v e fin f s)))"
  by (simp add: finish_streaming_def speech_turn_done_def Let_def same_owner_def
      clear_pending_speech_terminal_def split: sum.split)

lemma cancel_finish_owner: "same_owner (tts s) (tts (snd (cancel_finish ca t cap ack fin s)))"
  by (simp add: cancel_finish_def Let_def same_owner_def clear_pending_speech_terminal_def)

lemma same_owner_step: "same_owner d e \<Longrightarrow> owner_step d e"
  by (simp add: owner_step_def)

lemma speech_op_owner: "owner_step (tts s) (tts (apply_speech_op a s))"
proof (cases a)
  case (Abandon_speech t seg adm)
  then show ?thesis
    using release_owner [of "s\<lparr>speech_of := release_tts_segment_attempt t seg (speech_of s)\<rparr>" adm]
    by (simp add: abandon_speech_def)
next
  case (Admit x1 x2 x3 x4 x5 x6 x7 x8 x9)
  then show ?thesis by (simp add: admit_owner)
next
  case (Release_speech x)
  then show ?thesis by (simp add: release_owner)
next
  case (Cancel_finish x1 x2 x3 x4 x5)
  then show ?thesis by (simp add: same_owner_step cancel_finish_owner)
next
  case (Finish_streaming x1 x2 x3 x4 x5)
  then show ?thesis by (simp add: same_owner_step streaming_owner)
qed (rule same_owner_step; simp add: complete_tts store_tts cancel_mark_def cancel_active_generation_def
    cancel_drop_task_def cancel_speech_turn_def cancel_speech_turn_begin_def cancel_speech_turn_end_def
    audio_started_def speech_turn_done_def Let_def same_owner_def clear_pending_speech_terminal_def
    split: option.split)+

lemma transition_tts [simp]: "tts (snd (transition_terminal_locked st r xp xt s)) = tts s"
  by (simp add: transition_terminal_locked_def Let_def split_beta)

lemma start_switch_owner: "same_owner (tts s) (tts (start_switch sw s))"
  by (simp add: start_switch_def Let_def same_owner_def)

lemma accept_directly_tts: "tts (accept_directly c p t s) = tts s"
  by (simp add: accept_directly_def Let_def complete_transport_reconnect_def apply_peer_configuration_def
      split: option.split)

lemma accept_owner:
  assumes "session_ok s"
  shows "same_owner (tts s) (tts (snd (accept_pending_peer p g t s)))"
  by (cases rule: accept_cases [OF assms, of p g t]) (simp_all add: start_switch_owner accept_directly_tts)

lemma commit_switch_tts [simp]: "tts (commit_switch sw s) = tts s"
  by (simp add: commit_switch_def Let_def adopt_switch_media_def complete_transport_reconnect_def
      apply_peer_configuration_def split: option.split)

lemma finish_switch_tts: "tts (snd (snd (finish_peer_switch sw w r s))) = tts s"
  by (simp add: finish_peer_switch_def fail_switch_def Let_def adopt_switch_media_def drop_releaser_def)

lemma resolve_tts: "tts (snd (resolve_deferred_connection_state e p s)) = tts s"
  by (simp add: resolve_deferred_connection_state_def Let_def)

lemma connection_tts: "tts (handle_connection_state_change p c g s) = tts s"
  by (simp add: handle_connection_state_change_def begin_transport_reconnect_def carry_admissions_def
      recover_active_transport_def complete_transport_reconnect_def Let_def)

lemma peer_op_owner:
  assumes ok: "session_ok s"
  shows "same_owner (tts s) (tts (apply_peer_op a s))"
proof (cases a)
  case (Promote g c i)
  then show ?thesis
    using promote_state [of g c i s] accept_owner [OF ok] by (metis apply_peer_op.simps(4) same_owner_refl)
next
  case Grace_expires
  then show ?thesis by (simp add: expire_reconnect_grace_def Let_def resolve_tts split: option.split)
next
  case (End_call r)
  then show ?thesis by (simp add: end_call_state [OF ok])
qed (simp_all add: accept_owner [OF ok] finish_switch_tts connection_tts fail_call_def reject_pending_peer_def
    mark_peer_connection_pending_def set_data_channel_for_peer_def Let_def)

lemma release_stt_tts [simp]: "tts (release_stt_admission n s) = tts s"
  by (simp add: release_stt_admission_def Let_def split: option.split)

lemma backfill_tts:
  "tts (snd (admit_backfill_at e s)) = tts s"
  "tts (snd (release_after_backfill vs v now st over fin s)) = tts s"
  "tts (snd (reserve_backfill b x s)) = tts s"
  by (simp_all add: admit_backfill_at_def release_after_backfill_def reserve_backfill_def Let_def split_beta
      split: option.split)

lemma user_op_tts: "tts (apply_user_op a s) = tts s"
proof (cases a)
  case (Use_backfill vs v now st b ds fs fin)
  then show ?thesis
    by (simp add: use_backfill_def Let_def split_beta backfill_tts note_backfill_def)
qed (simp_all add: handle_inbound_audio_frame_def drop_frame_def mark_media_reconnect_pending_def
    claim_stt_finalization_def begin_transcription_def commit_stt_event_def settle_stt_event_def
    finish_stt_finalization_def enter_backfill_def note_backfill_def leave_backfill_def set_muted_def
    interrupt_begin_def interrupt_publish_def interrupt_settle_def update_selection_end_def backfill_tts
    Let_def split_beta split: option.split)

lemma post_op_tts: "tts (apply_post_op a s) = tts s"
  by (cases a) (simp_all add: publish_begin_def publish_end_def split: option.split)

lemma step_owner:
  assumes "session_step s a t" "session_ok s"
  shows "owner_step (tts s) (tts t)"
proof -
  have t: "t = apply_op a s" using assms(1) by (auto elim: session_stepE)
  show ?thesis
    unfolding t
    by (cases a) (simp_all add: speech_op_owner user_op_tts post_op_tts same_owner_step peer_op_owner [OF assms(2)])
qed

definition owner_ok :: "speech_desk \<Rightarrow> bool" where
  "owner_ok d \<longleftrightarrow>
     (case sd_admission d of
        None \<Rightarrow> sd_done d = {1..sd_generation d}
      | Some a \<Rightarrow> sa_token a = sd_generation d \<and> 0 < sd_generation d \<and> sd_done d = {1..<sd_generation d})"

lemma owner_ok_step:
  assumes "owner_step d e" "owner_ok d"
  shows "owner_ok e"
proof -
  from assms(1) consider "same_owner d e" | "owner_taken d e" | "owner_left d e"
    by (auto simp: owner_step_def)
  then show ?thesis
  proof cases
    case 1
    then show ?thesis using assms(2) by (simp add: same_owner_def owner_ok_def split: option.splits)
  next
    case 2
    then obtain a where a: "sd_admission d = None" "sd_generation e = Suc (sd_generation d)"
      "sd_done e = sd_done d" "sd_admission e = Some a" "sa_token a = Suc (sd_generation d)"
      unfolding owner_taken_def by blast
    have "sd_done d = {1..sd_generation d}" using assms(2) a(1) by (simp add: owner_ok_def)
    then have "sd_done e = {1..<sd_generation e}"
      unfolding a(2,3) atLeastLessThanSuc_atLeastAtMost .
    moreover have "0 < sd_generation e" "sa_token a = sd_generation e" unfolding a(2,5) by (rule zero_less_Suc refl)+
    ultimately show ?thesis unfolding owner_ok_def a(4) option.case by blast
  next
    case 3
    then obtain a where a: "sd_admission d = Some a" "sd_done e = insert (sa_token a) (sd_done d)"
      "sd_admission e = None" "sd_generation e = sd_generation d" unfolding owner_left_def by blast
    then have "sd_done e = insert (sd_generation d) {1..<sd_generation d}" "0 < sd_generation d"
      using assms(2) by (simp_all add: owner_ok_def)
    then have "sd_done e = {1..sd_generation d}"
      by (cases "sd_generation d")
        (simp_all only: atLeastLessThanSuc_atLeastAtMost atLeastAtMostSuc_conv One_nat_def Suc_le_mono le0 less_irrefl)
    then show ?thesis unfolding owner_ok_def a(3) a(4) option.case .
  qed
qed

interpretation speech: machine session_init session_step "\<lambda>s. session_ok s \<and> owner_ok (tts s)"
proof unfold_locales
  fix s assume "session_init s"
  then show "session_ok s \<and> owner_ok (tts s)"
    using session_init_ok [of s]
    by (auto simp: session_init_def new_session_def new_speech_desk_def owner_ok_def)
next
  fix s a t assume "session_step s a t" "session_ok s \<and> owner_ok (tts s)"
  then show "session_ok t \<and> owner_ok (tts t)"
    using session_step_ok step_owner owner_ok_step by blast
qed

text \<open>A token is served: its owner holds the desk, or its event is set.\<close>

definition owner_token :: "speech_desk \<Rightarrow> nat option" where
  "owner_token d = map_option sa_token (sd_admission d)"

definition served :: "nat \<Rightarrow> session \<Rightarrow> bool" where
  "served n s \<longleftrightarrow> n \<in> sd_done (tts s) \<or> owner_token (tts s) = Some n"

lemma served_desk:
  assumes "owner_step d e" "n \<in> sd_done d \<or> owner_token d = Some n"
  shows "n \<in> sd_done e \<or> owner_token e = Some n"
proof -
  from assms(1) consider "same_owner d e" | "owner_taken d e" | "owner_left d e"
    unfolding owner_step_def by blast
  then show ?thesis
  proof cases
    case 1
    then show ?thesis using assms(2) by (simp add: same_owner_def owner_token_def)
  next
    case 2
    then show ?thesis using assms(2) by (simp add: owner_taken_def owner_token_def)
  next
    case 3
    then obtain a where "sd_admission d = Some a" "sd_done e = insert (sa_token a) (sd_done d)"
      unfolding owner_left_def by blast
    then show ?thesis using assms(2) by (auto simp: owner_token_def)
  qed
qed

lemma served_step: "session_step s a t \<Longrightarrow> session_ok s \<and> owner_ok (tts s) \<Longrightarrow> served n s \<Longrightarrow> served n t"
  unfolding served_def by (rule served_desk [OF step_owner]) simp_all

lemma waits_for_owner:
  assumes "fst (admit_tts_segment sha turn txt final sid ord config adapter task s) = Speech_waits n"
  shows "\<exists>a. sd_admission (tts s) = Some a \<and> sa_token a = n"
proof (cases "sd_admission (tts s)")
  case None
  then show ?thesis
    using assms
    by (simp add: admit_tts_segment_def Let_def split_beta split: sum.split_asm option.split_asm prod.split_asm)
next
  case (Some a)
  then show ?thesis
    using assms by (simp add: admit_tts_segment_def split: sum.split_asm)
qed

section \<open>A session that speaks\<close>

abbreviation demo_admit :: speech_op where
  "demo_admit \<equiv> Admit demo_sha ''t'' ''hi'' False None None None None None"

definition speaking_session :: session where
  "speaking_session = apply_op (Speech demo_admit) sample_session"

lemma speaking_reach: "reach session_init session_step speaking_session"
  unfolding speaking_session_def
  by (rule reach_op [OF sample_reach]) (simp add: enabled_def)

lemmas admit_eval = admit_tts_segment_def speech_open_def install_admission_def over_state_def new_session_def
  new_lifecycle_def new_speech_desk_def demo_sha_def ledger_eval

text \<open>
  \<^bold>\<open>C14\<close>. No speech request waits for an owner that is gone. When the admission of a segment has to
  wait, it waits for the token of the owner in force, whose event is not set; and in every later run
  either that owner still holds the desk or its event is set, so the waiter goes round again.
\<close>

theorem speech_waiter_is_woken:
  assumes "reach session_init session_step s"
    and "fst (admit_tts_segment sha turn txt final sid ord config adapter task s) = Speech_waits n"
    and "run_of session_step s ls t"
  shows "n \<notin> sd_done (tts s)
    \<and> (n \<in> sd_done (tts t) \<or> owner_token (tts t) = Some n)"
proof -
  have inv: "session_ok s \<and> owner_ok (tts s)" by (rule speech.inv_reach [OF assms(1)])
  obtain a where a: "sd_admission (tts s) = Some a" "sa_token a = n"
    using waits_for_owner [OF assms(2)] by blast
  have now: "served n s" using a by (simp add: served_def owner_token_def)
  have "served n t"
    by (rule speech.stable_run [where P = "served n", rotated 3])
      (fact served_step assms(3) inv now)+
  moreover have "n \<notin> sd_done (tts s)"
    using inv a by (simp add: owner_ok_def)
  ultimately show ?thesis by (simp add: served_def)
qed


theorem speech_waiter_is_woken_witness:
  "1 \<in> sd_done (tts (apply_op (Speech (Release_speech (the (sd_admission (tts speaking_session))))) speaking_session))"
proof -
  let ?a = "the (sd_admission (tts speaking_session))"
  let ?t = "apply_op (Speech (Release_speech ?a)) speaking_session"
  have waits: "fst (admit_tts_segment demo_sha ''u'' ''x'' False None None None None None speaking_session)
      = Speech_waits 1"
    by (simp add: speaking_session_def admit_eval)
  have run: "run_of session_step speaking_session [Speech (Release_speech ?a)] ?t"
    by (rule run_of.run_cons, rule run_op, simp add: enabled_def, rule run_of.run_nil)
  have "owner_token (tts ?t) = None"
    by (simp add: speaking_session_def admit_eval release_speech_admission_def clear_active_tts_def owner_token_def)
  then show ?thesis
    using speech_waiter_is_woken [OF speaking_reach waits run] by simp
qed

end
