(* ===== verification/SessionManager.thy ===== *)
theory SessionManager
  imports SessionSpeech
begin

text \<open>
  The table of call sessions (\<open>CallSessionManager\<close> of \<open>ai-backend/app/call/session.py\<close>): creation
  and replacement of the peer of a session that exists, look-up, the end with its recovery grace,
  removal, and the statistics. \<open>now\<close> is the monotonic clock at the call. The two stretches of an
  operation that awaits a session are two functions; the cancellation of speech that a change of
  selection awaits is the parameter \<open>cancel\<close>.
\<close>

section \<open>The table\<close>

record call_manager =
  mg_sessions :: "(ptext, session) dict"
  mg_deadlines :: "(ptext, rat) dict"
  mg_vad :: "py_object option"
  mg_stt :: "py_object option"

definition expire_one :: "rat \<Rightarrow> call_manager \<Rightarrow> ptext \<times> rat \<Rightarrow> call_manager" where
  "expire_one now mg entry =
     (let (sid, deadline) = entry in
      if now < deadline then mg
      else mg\<lparr>mg_deadlines := dpop sid (mg_deadlines mg),
              mg_sessions := (case dget (mg_sessions mg) sid of
                 None \<Rightarrow> mg_sessions mg
               | Some s \<Rightarrow> if over_state (cv_state s) then dpop sid (mg_sessions mg) else mg_sessions mg)\<rparr>)"

definition expire_retained_sessions :: "rat \<Rightarrow> call_manager \<Rightarrow> call_manager" where
  "expire_retained_sessions now mg = foldl (expire_one now) mg (mg_deadlines mg)"

definition get_session :: "rat \<Rightarrow> ptext \<Rightarrow> call_manager \<Rightarrow> session option \<times> call_manager" where
  "get_session now sid mg =
     (let m = expire_retained_sessions now mg in (dget (mg_sessions m) sid, m))"

record session_request =
  rq_id :: ptext
  rq_thread :: "string option"
  rq_voice :: "string option"
  rq_engine :: "string option"
  rq_prompts :: "event list"
  rq_peer :: "py_object option"
  rq_channel :: "py_object option"
  rq_vad :: "py_object option"
  rq_stt :: "py_object option"
  rq_track :: "py_object option"
  rq_close_previous :: bool

text \<open>The part of an existing session that a repeated creation replaces before it changes the selection.\<close>

definition replace_peer :: "session_request \<Rightarrow> session \<Rightarrow> py_object list \<times> session" where
  "replace_peer rq s =
     (case rq_peer rq of
        None \<Rightarrow> ([], s)
      | Some p \<Rightarrow>
          if p = peer_connection s then ([], s)
          else (if rq_close_previous rq then [peer_connection s] else [],
                mark_media_reconnect_pending (complete_transport_reconnect (s\<lparr>peer_connection := p\<rparr>))))"

definition adopt_request :: "session_request \<Rightarrow> session \<Rightarrow> session" where
  "adopt_request rq s =
     s\<lparr>data_channel := or_else (rq_channel rq) (data_channel s),
       vad_adapter := or_else (rq_vad rq) (vad_adapter s),
       stt_adapter := or_else (rq_stt rq) (stt_adapter s)\<rparr>"

definition reselect ::
  "(captured_cancellation \<Rightarrow> session \<Rightarrow> session) \<Rightarrow> string option \<Rightarrow> string option \<Rightarrow> session
   \<Rightarrow> (session_error + unit) \<times> session" where
  "reselect cancel voice engine s =
     (case update_selection_begin voice engine s of
        Inl e \<Rightarrow> (Inl e, s)
      | Inr captured \<Rightarrow>
          update_selection_end voice engine captured
            (case captured of None \<Rightarrow> s | Some k \<Rightarrow> cancel k s))"

definition update_existing ::
  "(captured_cancellation \<Rightarrow> session \<Rightarrow> session) \<Rightarrow> session_request \<Rightarrow> session
   \<Rightarrow> (session_error + unit) \<times> py_object list \<times> session" where
  "update_existing cancel rq s =
     (let (cls, s1) = replace_peer rq s;
          s2 = adopt_request rq s1;
          (r, s3) = (if rq_voice rq = None \<and> rq_engine rq = None then (Inr (), s2)
                     else reselect cancel (or_else (rq_voice rq) (voice_id s2))
                            (or_else (rq_engine rq) (engine_id s2)) s2) in
      case r of
        Inl e \<Rightarrow> (Inl e, cls, s3)
      | Inr _ \<Rightarrow> (Inr (), cls, s3\<lparr>outbound_track := or_else (rq_track rq) (outbound_track s3)\<rparr>))"

text \<open>\<open>null_peer\<close> is the \<open>NullPeerConnection\<close> that a session without a peer makes for itself.\<close>

definition create_session ::
  "(captured_cancellation \<Rightarrow> session \<Rightarrow> session) \<Rightarrow> py_object \<Rightarrow> rat \<Rightarrow> session_request \<Rightarrow> call_manager
   \<Rightarrow> (session_error + session) \<times> py_object list \<times> call_manager" where
  "create_session cancel null_peer now rq mg =
     (let m = expire_retained_sessions now mg in
      case dget (mg_sessions m) (rq_id rq) of
        Some s \<Rightarrow>
          (let (r, cls, s') = update_existing cancel rq s in
           (case r of Inl e \<Rightarrow> Inl e | Inr _ \<Rightarrow> Inr s', cls,
            m\<lparr>mg_sessions := dset (rq_id rq) s' (mg_sessions m)\<rparr>))
      | None \<Rightarrow>
          (let s = new_session (rq_id rq) (rq_thread rq) (rq_voice rq) (rq_engine rq) (rq_prompts rq)
                 (case rq_peer rq of None \<Rightarrow> null_peer | Some p \<Rightarrow> p) (rq_channel rq)
                 (or_else (rq_vad rq) (mg_vad m)) (or_else (rq_stt rq) (mg_stt m)) (rq_track rq) in
           (Inr s, [], m\<lparr>mg_sessions := dset (rq_id rq) s (mg_sessions m)\<rparr>)))"

definition end_session_begin :: "rat \<Rightarrow> ptext \<Rightarrow> ptext \<Rightarrow> call_manager \<Rightarrow> bool \<times> call_manager" where
  "end_session_begin now sid reason mg =
     (let m = expire_retained_sessions now mg in
      case dget (mg_sessions m) sid of
        None \<Rightarrow> (False, m)
      | Some s \<Rightarrow> (True, m\<lparr>mg_sessions := dset sid (end_call reason s) (mg_sessions m)\<rparr>))"

definition end_session_end :: "rat \<Rightarrow> rat \<Rightarrow> ptext \<Rightarrow> call_manager \<Rightarrow> call_manager" where
  "end_session_end now grace sid mg =
     (if 0 < grace then mg\<lparr>mg_deadlines := dset sid (now + grace) (mg_deadlines mg)\<rparr>
      else mg\<lparr>mg_sessions := dpop sid (mg_sessions mg), mg_deadlines := dpop sid (mg_deadlines mg)\<rparr>)"

definition remove_session :: "ptext \<Rightarrow> call_manager \<Rightarrow> session option \<times> call_manager" where
  "remove_session sid mg =
     (map_option (\<lambda>s. if over_state (cv_state s) then s else end_call (lit ''removed'') s)
        (dget (mg_sessions mg) sid),
      mg\<lparr>mg_deadlines := dpop sid (mg_deadlines mg), mg_sessions := dpop sid (mg_sessions mg)\<rparr>)"

definition active_sessions :: "call_manager \<Rightarrow> session list" where
  "active_sessions mg = map snd (filter (\<lambda>(sid, s). dget (mg_deadlines mg) sid = None) (mg_sessions mg))"

definition manager_stats ::
  "rat \<Rightarrow> call_manager \<Rightarrow> (nat \<times> (ptext \<times> ptext \<times> bool \<times> nat \<times> nat \<times> nat) list) \<times> call_manager" where
  "manager_stats now mg =
     (let m = expire_retained_sessions now mg in
      ((length (active_sessions m), map session_stats (active_sessions m)), m))"

section \<open>What expiry does\<close>

lemma expire_one_deadlines:
  "dget (mg_deadlines (expire_one now mg (k, d))) sid
     = (if sid = k \<and> d \<le> now then None else dget (mg_deadlines mg) sid)"
  by (simp add: expire_one_def)

definition over_at :: "ptext \<Rightarrow> call_manager \<Rightarrow> bool" where
  "over_at sid mg = (case dget (mg_sessions mg) sid of None \<Rightarrow> False | Some s \<Rightarrow> over_state (cv_state s))"

lemma expire_one_sessions:
  "dget (mg_sessions (expire_one now mg (k, d))) sid
     = (if sid = k \<and> d \<le> now \<and> over_at sid mg then None else dget (mg_sessions mg) sid)"
  by (cases "dget (mg_sessions mg) k"; cases "sid = k") (simp_all add: expire_one_def over_at_def)

lemma over_at_lookup:
  "dget (mg_sessions m) sid = (if P \<and> over_at sid mg then None else dget (mg_sessions mg) sid)
   \<Longrightarrow> over_at sid m \<longleftrightarrow> over_at sid mg \<and> \<not> P"
  by (cases "dget (mg_sessions mg) sid") (auto simp: over_at_def split: if_split_asm)

lemma over_at_expire_one:
  "over_at sid (expire_one now mg (k, d)) = (over_at sid mg \<and> \<not> (sid = k \<and> d \<le> now))"
  by (rule over_at_lookup) (simp add: expire_one_sessions)

lemma expire_fold_deadlines:
  "dget (mg_deadlines (foldl (expire_one now) mg ds)) sid
     = (if \<exists>d. (sid, d) \<in> set ds \<and> d \<le> now then None else dget (mg_deadlines mg) sid)"
  by (induction ds arbitrary: mg) (auto simp: expire_one_deadlines)

lemma expire_fold_sessions:
  "dget (mg_sessions (foldl (expire_one now) mg ds)) sid
     = (if (\<exists>d. (sid, d) \<in> set ds \<and> d \<le> now) \<and> over_at sid mg then None else dget (mg_sessions mg) sid)"
proof (induction ds arbitrary: mg)
  case (Cons e ds)
  obtain k d where e: "e = (k, d)" by (cases e)
  show ?case
    unfolding e by (simp add: Cons.IH over_at_expire_one expire_one_sessions) blast
qed simp

definition due_at :: "rat \<Rightarrow> ptext \<Rightarrow> call_manager \<Rightarrow> bool" where
  "due_at now sid mg = (case dget (mg_deadlines mg) sid of None \<Rightarrow> False | Some d \<Rightarrow> d \<le> now)"

lemma due_at_mem:
  "dict_ok (mg_deadlines mg) \<Longrightarrow> (\<exists>d. (sid, d) \<in> set (mg_deadlines mg) \<and> d \<le> now) \<longleftrightarrow> due_at now sid mg"
  by (auto simp: due_at_def dget_mem split: option.split)

lemma expire_deadline:
  "dict_ok (mg_deadlines mg) \<Longrightarrow> dget (mg_deadlines (expire_retained_sessions now mg)) sid
     = (if due_at now sid mg then None else dget (mg_deadlines mg) sid)"
  by (simp add: expire_retained_sessions_def expire_fold_deadlines due_at_mem)

lemma expire_session:
  "dict_ok (mg_deadlines mg) \<Longrightarrow> dget (mg_sessions (expire_retained_sessions now mg)) sid
     = (if due_at now sid mg \<and> over_at sid mg then None else dget (mg_sessions mg) sid)"
  by (simp add: expire_retained_sessions_def expire_fold_sessions due_at_mem)


lemma dict_ok_expire:
  assumes "dict_ok (mg_deadlines mg)"
  shows "dict_ok (mg_deadlines (expire_retained_sessions now mg))"
proof -
  have "dict_ok (mg_deadlines m) \<Longrightarrow> dict_ok (mg_deadlines (foldl (expire_one now) m ds))" for m ds
    by (induction ds arbitrary: m) (auto simp: expire_one_def)
  then show ?thesis using assms by (simp add: expire_retained_sessions_def)
qed

text \<open>
  An ended call can be recovered for the grace and is gone after it. When a call that the
  table holds is ended at \<open>t\<^sub>0\<close> with the grace \<open>g\<close>, every look-up before \<open>t\<^sub>0 + g\<close> finds the ended
  session, which does not count as active; and a look-up from \<open>t\<^sub>0 + g\<close> on finds nothing, provided the
  session still says \<open>ended\<close> or \<open>failed\<close> by then.
\<close>

theorem ended_session_is_kept_for_the_grace:
  fixes mg t0 g sid reason
  defines "m1 \<equiv> end_session_end t0 g sid (snd (end_session_begin t0 sid reason mg))"
  assumes "dict_ok (mg_deadlines mg)" "0 < g" "dget (mg_sessions mg) sid = Some s" "session_ok s"
    and "\<not> due_at t0 sid mg"
  shows "(now < t0 + g \<longrightarrow> fst (get_session now sid m1) = Some (end_call reason s)
            \<and> dget (mg_deadlines (snd (get_session now sid m1))) sid \<noteq> None)
    \<and> (t0 + g \<le> now \<longrightarrow> fst (get_session now sid m1)
         = (if over_state (cv_state (end_call reason s)) then None else Some (end_call reason s)))"
proof -
  let ?m = "expire_retained_sessions t0 mg"
  have m1: "m1 = ?m\<lparr>mg_sessions := dset sid (end_call reason s) (mg_sessions ?m),
      mg_deadlines := dset sid (t0 + g) (mg_deadlines ?m)\<rparr>"
    using assms(2-6) by (simp add: m1_def end_session_end_def end_session_begin_def Let_def expire_session)
  have ok: "dict_ok (mg_deadlines m1)"
    using dict_ok_expire [OF assms(2)] by (simp add: m1)
  have "due_at now sid m1 \<longleftrightarrow> t0 + g \<le> now" "over_at sid m1 = over_state (cv_state (end_call reason s))"
    "dget (mg_sessions m1) sid = Some (end_call reason s)" "dget (mg_deadlines m1) sid = Some (t0 + g)"
    by (simp_all add: m1 due_at_def over_at_def)
  then show ?thesis
    by (simp add: get_session_def Let_def expire_session [OF ok] expire_deadline [OF ok])
qed

text \<open>
  A playback that outlives its call revives the state of the session for good. A
  completion that waits for the rest of the playback writes the state \<open>listening\<close> when the wait is
  over, also when the call ended meanwhile. From then on the ended session says it listens; when the
  grace is over the table drops its deadline but keeps the session, and counts it as active.
\<close>

theorem late_playback_leaks_the_session:
  fixes s sha turn voice engine sid ord seg f final reason
  defines "u \<equiv> apply_op (Speech (Turn_done turn voice engine final))
      (apply_op (Peer (End_call reason)) (apply_op (Speech (Complete_begin sha turn voice engine sid ord)) s))"
  assumes "reach session_init session_step s"
    and "fst (complete_speech_begin sha turn voice engine sid ord s) = Complete_playing seg f"
    and "dict_ok (mg_deadlines mg)" "dget (mg_sessions mg) call = Some u" "due_at now call mg"
  shows "reach session_init session_step u \<and> ended_at u \<and> cv_state u = Listening
    \<and> fst (get_session now call mg) = Some u
    \<and> dget (mg_deadlines (snd (get_session now call mg))) call = None
    \<and> u \<in> set (active_sessions (snd (get_session now call mg)))"
proof -
  let ?s1 = "apply_op (Speech (Complete_begin sha turn voice engine sid ord)) s"
  let ?s2 = "apply_op (Peer (End_call reason)) ?s1"
  have r1: "reach session_init session_step ?s1"
    by (rule reach_op [OF assms(2)]) (simp add: enabled_def)
  have r2: "reach session_init session_step ?s2"
    by (rule reach_op [OF r1]) (simp add: enabled_def)
  have r3: "reach session_init session_step u"
    unfolding u_def by (rule reach_op [OF r2]) (simp add: enabled_def)
  have ended: "ended_at ?s2"
    unfolding apply_op.simps(1) apply_peer_op.simps by (rule end_call_ends [OF call.inv_reach [OF r1]])
  have u: "cv_state u = Listening" "ended_at u = ended_at ?s2"
    unfolding u_def apply_op.simps(3) apply_speech_op.simps by (simp_all add: speech_turn_done_def)
  let ?m = "expire_retained_sessions now mg"
  have "\<not> over_at call mg" using assms(5) u(1) by (simp add: over_at_def over_state_def)
  then have m: "dget (mg_sessions ?m) call = Some u" "dget (mg_deadlines ?m) call = None"
    using assms(5,6) by (simp_all add: expire_session [OF assms(4)] expire_deadline [OF assms(4)])
  then have "u \<in> set (active_sessions ?m)"
    by (force simp: active_sessions_def dest: map_of_SomeD)
  then show ?thesis
    using r3 ended u m by (simp add: get_session_def Let_def)
qed


text \<open>A call whose first segment has been played and whose second request completes the turn.\<close>

definition queued_session :: session where
  "queued_session =
     (let seg = (case fst (admit_tts_segment demo_sha ''t'' ''hi'' False None None None None None sample_session) of
            Speech_admitted g a \<Rightarrow> g);
          a = the (sd_admission (tts speaking_session)) in
      foldl (\<lambda>s l. apply_op (Speech l) s) speaking_session
        [Finish_streaming ''t'' ''v'' ''e'' False (Inr []), Store_result ''t'' seg (Stream_queued []) [],
         Release_speech a])"

lemma queued_reach: "reach session_init session_step queued_session"
proof -
  have "reach session_init session_step s
      \<Longrightarrow> reach session_init session_step (foldl (\<lambda>s l. apply_op (Speech l) s) s ls)" for s ls
  proof (induction ls arbitrary: s)
    case (Cons l ls)
    have "reach session_init session_step (apply_op (Speech l) s)"
      by (rule reach_op [OF Cons.prems]) (simp add: enabled_def)
    then show ?case using Cons.IH by simp
  qed simp
  then show ?thesis using speaking_reach unfolding queued_session_def Let_def by blast
qed

lemma queued_completes:
  "\<exists>seg. fst (complete_speech_begin demo_sha ''t'' ''v'' ''e'' None None queued_session) = Complete_playing seg []"
  by (simp add: queued_session_def speaking_session_def admit_eval finish_streaming_def turn_cancelled_def
      store_speech_result_def right_or_def release_speech_admission_def clear_active_tts_def
      complete_speech_begin_def)

theorem late_playback_leaks_the_session_witness:
  "\<exists>u mg. ended_at u \<and> cv_state u = Listening \<and> fst (get_session 100 [] mg) = Some u
     \<and> u \<in> set (active_sessions (snd (get_session 100 [] mg)))"
proof -
  obtain seg where seg: "fst (complete_speech_begin demo_sha ''t'' ''v'' ''e'' None None queued_session)
      = Complete_playing seg []"
    using queued_completes by blast
  let ?u = "apply_op (Speech (Turn_done ''t'' ''v'' ''e'' [])) (apply_op (Peer (End_call (lit ''bye'')))
      (apply_op (Speech (Complete_begin demo_sha ''t'' ''v'' ''e'' None None)) queued_session))"
  let ?mg = "\<lparr>mg_sessions = [([], ?u)], mg_deadlines = [([], 60)], mg_vad = None, mg_stt = None\<rparr>"
  have "dict_ok (mg_deadlines ?mg)" "dget (mg_sessions ?mg) [] = Some ?u" "due_at 100 [] ?mg"
    by (simp_all add: due_at_def)
  from late_playback_leaks_the_session [OF queued_reach seg this] show ?thesis by blast
qed

theorem ended_session_is_kept_for_the_grace_witness:
  "fst (get_session 30 [] (end_session_end 0 60 [] (snd (end_session_begin 0 [] (lit ''bye'')
     \<lparr>mg_sessions = [([], sample_session)], mg_deadlines = [], mg_vad = None, mg_stt = None\<rparr>))))
   = Some (end_call (lit ''bye'') sample_session)"
proof -
  let ?mg = "\<lparr>mg_sessions = [([], sample_session)], mg_deadlines = [], mg_vad = None, mg_stt = None\<rparr>"
  have "dict_ok (mg_deadlines ?mg)" "0 < (60 :: rat)" "dget (mg_sessions ?mg) [] = Some sample_session"
    "session_ok sample_session" "\<not> due_at 0 [] ?mg"
    by (simp_all add: due_at_def session_init_ok [OF sample_init])
  from ended_session_is_kept_for_the_grace [OF this, of 30] show ?thesis by simp
qed

end
