(* ===== verification/SessionFaults.thy ===== *)
theory SessionFaults
  imports SessionManager
begin

text \<open>
  A transport that fails while a turn is transcribed. The transcription is superseded, and its
  admission gives the state back only while the state is its own; the reconnect has saved that state
  meanwhile and restores it afterwards, so that nobody gives it back.
\<close>

section \<open>A turn that is being transcribed\<close>

definition plain_vad :: vad_settings where
  "plain_vad = \<lparr>vs_threshold = 1 / 2, vs_end_silence = 700, vs_max_turn = 30000, vs_grace = 4000, vs_min_rms = 0\<rparr>"

lemma begin_while_understanding:
  assumes ok: "session_ok s" and st: "lf_phase (life s) = Stable" and live: "\<not> ended_at s"
    and conn: "conn = ''failed'' \<or> conn = ''closed''"
  shows "handle_connection_state_change (peer_connection s) conn None s
    = (carry_admissions (Suc (lf_epoch (life s))) s)
        \<lparr>life := reconnect_lifecycle (peer_connection s) conn (cv_state s) (life s), cv_state := Reconnecting\<rparr>"
  using conn st live
  by (auto simp: handle_connection_state_change_def begin_transport_reconnect_def reconnect_is_fresh_def Let_def)

lemma reconnect_life:
  assumes "lf_phase l = Stable"
  shows "lf_phase (reconnect_lifecycle p c st l) = Reconnect_phase"
    "lf_grace_peer (reconnect_lifecycle p c st l) = Some p"
    "lf_state_before (reconnect_lifecycle p c st l) = Some st"
    "lf_epoch (reconnect_lifecycle p c st l) = Suc (lf_epoch l)"
  using assms by (simp_all add: reconnect_lifecycle_def reconnect_is_fresh_def Let_def)

lemma single_admission:
  assumes "stt_ok q" "tq_active q = Some fz" "dget (tq_admissions q) (fz_token fz) = Some a"
  shows "tq_admissions q = [(fz_token fz, a)]"
  using assms by (cases "tq_admissions q") (auto simp: stt_ok_def)

text \<open>
  A transport failure that outruns a transcription leaves the call deaf. The turn is
  claimed from live audio and the state is \<open>understanding\<close>; the active peer fails, the transcription
  finishes and is superseded, and the same peer recovers. The session is then stable and
  \<open>understanding\<close> without a transcription, and drops every further frame of the microphone.
\<close>

theorem outrun_transcription_deafens_the_call:
  fixes s conn fz
  defines "t \<equiv> apply_op (Peer (Peer_state (peer_connection s) conn None)) s"
  defines "u \<equiv> apply_op (Peer (Peer_state (peer_connection s) ''connected'' None))
      (apply_op (User (Finish_stt (fz_token fz))) t)"
  assumes "reach session_init session_step s" "lf_phase (life s) = Stable" "cv_state s = Understanding"
    and "tq_active (stt s) = Some fz" "dget (tq_admissions (stt s)) (fz_token fz) = Some a"
    and "\<not> st_reconnect a" "st_epoch a = lf_epoch (life s)" "st_owner a = Some Understanding"
    and "conn = ''failed'' \<or> conn = ''closed''"
  shows "stale_stt_turn (fz_token fz) t = Superseded
    \<and> lf_phase (life u) = Stable \<and> \<not> ended_at u \<and> cv_state u = Understanding
    \<and> tq_active (stt u) = None \<and> tq_admissions (stt u) = []
    \<and> fst (handle_inbound_audio_frame vs vad now stamp f u) = Dropped"
proof -
  have ok: "session_ok s" by (rule call.inv_reach [OF assms(3)])
  have live: "\<not> ended_at s" using session_ok_parts(2) [OF ok] assms(4) by (simp add: terminal_ok_def)
  have adm: "tq_admissions (stt s) = [(fz_token fz, a)]"
    using single_admission session_ok_parts(3) [OF ok] assms(6,7) by blast
  have t: "t = (carry_admissions (Suc (lf_epoch (life s))) s)
        \<lparr>life := reconnect_lifecycle (peer_connection s) conn Understanding (life s), cv_state := Reconnecting\<rparr>"
    using begin_while_understanding [OF ok assms(4) live assms(11)] assms(5) by (simp add: t_def)
  note life_t = reconnect_life [OF assms(4), of "peer_connection s" conn Understanding]
  have tq: "tq_admissions (stt t) = [(fz_token fz, a)]" "tq_active (stt t) = Some fz"
    using adm assms(6,8) by (simp_all add: t carry_admissions_def dmap_def)
  have stale: "stale_stt_turn (fz_token fz) t = Superseded"
    using tq assms(9) live life_t(1,4)
    by (simp add: stale_stt_turn_def Let_def call_over_def t over_state_def)
  let ?w = "finish_stt_finalization (fz_token fz) t"
  have w: "?w = t\<lparr>stt := (stt t)\<lparr>tq_admissions := [], tq_active := None\<rparr>\<rparr>"
    using tq assms(10)
    by (simp add: finish_stt_finalization_def release_stt_admission_def Let_def t dpop_def)
  have facts: "lf_phase (life t) = Reconnect_phase" "lf_grace_peer (life t) = Some (peer_connection s)"
    "peer_connection t = peer_connection s" "lf_state_before (life t) = Some Understanding"
    "cv_state t = Reconnecting" "\<not> ended_at t"
    using life_t live by (simp_all add: t)
  have u: "u = complete_transport_reconnect (t\<lparr>stt := (stt t)\<lparr>tq_admissions := [], tq_active := None\<rparr>\<rparr>)"
    unfolding u_def apply_op.simps(1,2) apply_user_op.simps apply_peer_op.simps w
    using facts by (simp add: handle_connection_state_change_def recover_active_transport_def Let_def)
  have "cv_state u = Understanding" "lf_phase (life u) = Stable" "tq_active (stt u) = None"
    "tq_admissions (stt u) = []" "\<not> ended_at u"
    using facts by (simp_all add: u complete_transport_reconnect_def Let_def cancel_reconnect_grace_def)
  moreover have "fst (handle_inbound_audio_frame vs vad now stamp f u) = Dropped"
    using calculation by (simp add: handle_inbound_audio_frame_def Let_def)
  ultimately show ?thesis using stale by blast
qed

text \<open>A session with one frame of a turn, whose transcription has begun.\<close>

definition understanding_session :: session where
  "understanding_session = apply_op (User (Claim_stt False []))
     (apply_op (User (Inbound plain_vad No_vad 0 [] \<lparr>fr_pcm = [0, 0], fr_rate = 16000\<rparr>)) sample_session)"

lemma understanding_reach: "reach session_init session_step understanding_session"
proof -
  let ?s = "apply_op (User (Inbound plain_vad No_vad 0 [] \<lparr>fr_pcm = [0, 0], fr_rate = 16000\<rparr>)) sample_session"
  have "reach session_init session_step ?s"
    by (rule reach_op [OF sample_reach]) (simp add: enabled_def)
  then show ?thesis
    unfolding understanding_session_def by (rule reach_op) (simp add: enabled_def)
qed

theorem outrun_transcription_deafens_the_call_witness:
  "\<exists>u. cv_state u = Understanding \<and> tq_active (stt u) = None
     \<and> fst (handle_inbound_audio_frame plain_vad No_vad 0 [] \<lparr>fr_pcm = [0, 0], fr_rate = 16000\<rparr> u) = Dropped"
proof -
  have eval: "lf_phase (life understanding_session) = Stable" "cv_state understanding_session = Understanding"
    "\<exists>fz a. tq_active (stt understanding_session) = Some fz \<and> fz_token fz = 1
       \<and> dget (tq_admissions (stt understanding_session)) 1 = Some a
       \<and> \<not> st_reconnect a \<and> st_epoch a = lf_epoch (life understanding_session) \<and> st_owner a = Some Understanding"
    by (simp_all add: accept_vad_frame_keeps understanding_session_def handle_inbound_audio_frame_def claim_stt_finalization_def
        release_reconnect_live_frames_if_expired_def hold_reconnect_live_frame_def append_turn_frame_def
        plain_vad_def new_session_def new_lifecycle_def new_turn_def call_over_def
        over_state_def dset_def split_beta Let_def)
  then obtain fz a where "tq_active (stt understanding_session) = Some fz"
    "dget (tq_admissions (stt understanding_session)) (fz_token fz) = Some a"
    "\<not> st_reconnect a" "st_epoch a = lf_epoch (life understanding_session)" "st_owner a = Some Understanding"
    by metis
  from outrun_transcription_deafens_the_call [OF understanding_reach eval(1,2) this, of "''failed''"]
  show ?thesis by blast
qed

end
