(* ===== verification/ModelManager.thy ===== *)
theory ModelManager
  imports Prelude
begin

text \<open>
  The text-to-speech engines of the AI backend (\<open>ModelManager\<close> of
  \<open>ai-backend/app/models/model_manager.py\<close>): the one engine in memory, the voice prompt that is
  selected for the Qwen engine, and the lease that keeps a prompt for live calls. What an adapter
  does (loading, unloading, warming and invalidating a prompt), the transcript alignment and the
  cache key of a prompt, which is a SHA-256 digest, are arguments of the operations.

  Preparation, release and invalidation hold one lock over their awaits; switching and shutting down
  do not take it, so that they may fall between the stretches of a preparation. The stretch a
  preparation stands at is the field \<open>mm_stage\<close>, and a run is any order of the steps.
\<close>

section \<open>State\<close>

datatype manager_error =
    Unknown_engine
  | Engine_unavailable
  | Prompt_leased
  | Load_failed
  | Unload_failed
  | Invalid_voice_key
  | Prewarm_unavailable
  | Invalidation_unavailable
  | Prompt_error string

record engine_status =
  es_available :: bool
  es_resident :: bool
  es_state :: string
  es_reason :: "string option"

record voice_prompt =
  vp_engine :: "string option"
  vp_voice :: "string option"
  vp_state :: string
  vp_error :: "string option"

record prepare_request =
  pr_engine :: string
  pr_voice :: string
  pr_key :: string
  pr_owner :: "string option"

datatype prepare_stage =
    Unlocked
  | Aligning prepare_request
  | Aligned prepare_request
  | Loaded prepare_request
  | Prewarming prepare_request
  | Invalidating string bool

record model_manager =
  mm_statuses :: "(string, engine_status) dict"
  mm_loading :: "string option"
  mm_resident :: "string option"
  mm_prompt :: voice_prompt
  mm_prompt_key :: "string option"
  mm_owners :: "string set"
  mm_lease_voice :: "string option"
  mm_lease_key :: "string option"
  mm_alignment :: "(string \<times> bool) option"
  mm_started :: bool
  mm_stage :: prepare_stage

abbreviation qwen :: string where "qwen \<equiv> ''qwen3_1_7b''"

definition engine_ids :: "string list" where
  "engine_ids = [''f5'', ''xtts_v2'', ''qwen3_1_7b'', ''luxtts'', ''chatterbox_turbo'', ''tada_1b'', ''voxcpm2'']"

definition fresh_status :: engine_status where
  "fresh_status = \<lparr>es_available = True, es_resident = False, es_state = ''idle'', es_reason = None\<rparr>"

definition no_prompt :: voice_prompt where
  "no_prompt = \<lparr>vp_engine = None, vp_voice = None, vp_state = ''none'', vp_error = None\<rparr>"

definition new_manager :: model_manager where
  "new_manager = \<lparr>mm_statuses = map (\<lambda>e. (e, fresh_status)) engine_ids, mm_loading = None,
     mm_resident = None, mm_prompt = no_prompt, mm_prompt_key = None, mm_owners = {},
     mm_lease_voice = None, mm_lease_key = None, mm_alignment = None, mm_started = False,
     mm_stage = Unlocked\<rparr>"

definition retriable_reasons :: "string set" where
  "retriable_reasons = {''engine load failed'', ''default engine load failed'', ''engine runtime failed''}"

section \<open>Small operations\<close>

definition set_status :: "string \<Rightarrow> (engine_status \<Rightarrow> engine_status) \<Rightarrow> model_manager \<Rightarrow> model_manager" where
  "set_status e f mm =
     (case dget (mm_statuses mm) e of
        None \<Rightarrow> mm
      | Some x \<Rightarrow> mm\<lparr>mm_statuses := dset e (f x) (mm_statuses mm)\<rparr>)"

definition mark_unavailable :: "string \<Rightarrow> string \<Rightarrow> model_manager \<Rightarrow> model_manager" where
  "mark_unavailable e reason mm =
     set_status e (\<lambda>x. x\<lparr>es_available := False, es_resident := False, es_state := ''unavailable'',
                        es_reason := Some reason\<rparr>) mm"

definition reset_selected_voice_prompt :: "model_manager \<Rightarrow> model_manager" where
  "reset_selected_voice_prompt mm = mm\<lparr>mm_prompt := no_prompt, mm_prompt_key := None\<rparr>"

definition clear_qwen_prompt_lease :: "model_manager \<Rightarrow> model_manager" where
  "clear_qwen_prompt_lease mm = mm\<lparr>mm_owners := {}, mm_lease_voice := None, mm_lease_key := None\<rparr>"

definition competing_prompt :: "string \<Rightarrow> string \<Rightarrow> string option \<Rightarrow> model_manager \<Rightarrow> bool" where
  "competing_prompt voice key owner mm \<longleftrightarrow>
     mm_owners mm \<noteq> {}
     \<and> \<not> (mm_lease_voice mm = Some voice \<and> mm_lease_key mm = Some key)
     \<and> \<not> (case owner of None \<Rightarrow> False | Some w \<Rightarrow> mm_owners mm = {w})"

definition set_qwen_prompt_lease ::
  "string \<Rightarrow> string \<Rightarrow> string \<Rightarrow> model_manager \<Rightarrow> manager_error + model_manager" where
  "set_qwen_prompt_lease owner voice key mm =
     (if mm_owners mm \<noteq> {} \<and> (mm_lease_voice mm \<noteq> Some voice \<or> mm_lease_key mm \<noteq> Some key)
      then (if mm_owners mm \<noteq> {owner} then Inl Prompt_leased
            else Inr (mm\<lparr>mm_owners := {owner}, mm_lease_voice := Some voice, mm_lease_key := Some key\<rparr>))
      else Inr (mm\<lparr>mm_owners := insert owner (mm_owners mm), mm_lease_voice := Some voice,
                   mm_lease_key := Some key\<rparr>))"

section \<open>Switching\<close>

text \<open>The world of a switch: whether loading and unloading an engine return.\<close>

definition unload_previous ::
  "(string \<Rightarrow> bool) \<Rightarrow> string \<Rightarrow> model_manager \<Rightarrow> manager_error + model_manager" where
  "unload_previous unloads engine mm =
     (case mm_resident mm of
        None \<Rightarrow> Inr mm
      | Some p \<Rightarrow>
          if \<not> unloads p then Inl Unload_failed
          else
            let m1 = (set_status p (\<lambda>x. x\<lparr>es_resident := False, es_state := ''idle''\<rparr>) mm)\<lparr>mm_resident := None\<rparr> in
            Inr (if p = qwen \<and> engine \<noteq> p then reset_selected_voice_prompt m1 else m1))"

definition load_engine :: "(string \<Rightarrow> bool) \<Rightarrow> string \<Rightarrow> model_manager \<Rightarrow> (manager_error + unit) \<times> model_manager" where
  "load_engine loads engine mm =
     (if \<not> loads engine
      then (Inl Load_failed,
            mark_unavailable engine ''engine load failed'' (mm\<lparr>mm_resident := None, mm_loading := None\<rparr>))
      else (Inr (),
            (set_status engine (\<lambda>x. x\<lparr>es_resident := True, es_state := ''resident''\<rparr>) mm)
              \<lparr>mm_resident := Some engine, mm_loading := None\<rparr>))"

definition revive_engine :: "string \<Rightarrow> model_manager \<Rightarrow> model_manager" where
  "revive_engine e mm =
     set_status e (\<lambda>x. if es_available x then x
        else x\<lparr>es_available := True, es_state := ''idle'', es_reason := None\<rparr>) mm"

definition switch_tts_engine ::
  "(string \<Rightarrow> bool) \<Rightarrow> (string \<Rightarrow> bool) \<Rightarrow> string \<Rightarrow> model_manager \<Rightarrow> (manager_error + unit) \<times> model_manager" where
  "switch_tts_engine loads unloads engine mm =
     (case dget (mm_statuses mm) engine of
        None \<Rightarrow> (Inl Unknown_engine, mm)
      | Some x \<Rightarrow>
          if \<not> es_available x \<and> (case es_reason x of None \<Rightarrow> True | Some r \<Rightarrow> r \<notin> retriable_reasons)
          then (Inl Engine_unavailable, mm)
          else
            let m1 = revive_engine engine mm in
            if mm_resident m1 = Some engine
            then (Inr (), set_status engine (\<lambda>x. x\<lparr>es_resident := True, es_state := ''resident''\<rparr>) m1)
            else if mm_resident m1 = Some qwen \<and> mm_owners m1 \<noteq> {} \<and> engine \<noteq> qwen
            then (Inl Prompt_leased, m1)
            else
              let m2 = set_status engine (\<lambda>x. x\<lparr>es_state := ''loading''\<rparr>) (m1\<lparr>mm_loading := Some engine\<rparr>) in
              case unload_previous unloads engine m2 of
                Inl e \<Rightarrow> (Inl e, m2)
              | Inr m3 \<Rightarrow> load_engine loads engine m3)"

text \<open>
  Start-up: the self-test of every adapter, in the order of the adapters, and the default engine. An
  adapter is its engine, whether it can synthesize, and whether its self-test returns.
\<close>

fun self_tests :: "(string \<times> bool \<times> bool) list \<Rightarrow> model_manager \<Rightarrow> model_manager" where
  "self_tests [] mm = mm"
| "self_tests ((e, synthesizes, passes) # as) mm =
     self_tests as
       (if dget (mm_statuses mm) e = None then mm
        else if \<not> synthesizes then mark_unavailable e ''engine synthesis is not implemented in Phase 02'' mm
        else if \<not> passes then mark_unavailable e ''engine startup self-test failed'' mm
        else mm)"

definition is_available :: "string \<Rightarrow> model_manager \<Rightarrow> bool" where
  "is_available e mm = (case dget (mm_statuses mm) e of None \<Rightarrow> False | Some x \<Rightarrow> es_available x)"

definition startup ::
  "(string \<times> bool \<times> bool) list \<Rightarrow> (string \<Rightarrow> bool) \<Rightarrow> (string \<Rightarrow> bool) \<Rightarrow> string \<Rightarrow> model_manager \<Rightarrow> model_manager" where
  "startup adapters loads unloads first mm =
     (let m1 = self_tests adapters mm;
          m2 = (if is_available first m1
                then (case switch_tts_engine loads unloads first m1 of
                        (Inl e, m) \<Rightarrow> mark_unavailable first ''default engine load failed'' m
                      | (Inr _, m) \<Rightarrow> m)
                else m1) in
      m2\<lparr>mm_started := True\<rparr>)"

definition shutdown :: "(string \<Rightarrow> bool) \<Rightarrow> model_manager \<Rightarrow> (manager_error + unit) \<times> model_manager" where
  "shutdown unloads mm =
     (if (case mm_resident mm of None \<Rightarrow> False | Some p \<Rightarrow> \<not> unloads p) then (Inl Unload_failed, mm)
      else
        let m1 = clear_qwen_prompt_lease (reset_selected_voice_prompt (mm\<lparr>mm_resident := None, mm_loading := None\<rparr>)) in
        (Inr (), m1\<lparr>mm_statuses := dmap (\<lambda>x. if es_available x then x\<lparr>es_resident := False, es_state := ''idle''\<rparr>
                                              else x) (mm_statuses m1),
                    mm_started := False\<rparr>))"

definition contain_qwen_runtime_failure :: "string \<Rightarrow> model_manager \<Rightarrow> model_manager" where
  "contain_qwen_runtime_failure e mm =
     (if e \<noteq> qwen then mm
      else
        let m1 = (if mm_resident mm = Some e then mm\<lparr>mm_resident := None\<rparr> else mm);
            m2 = (if mm_loading m1 = Some e then m1\<lparr>mm_loading := None\<rparr> else m1) in
        mark_unavailable e ''engine runtime failed'' m2)"

section \<open>Preparation of an engine and a prompt\<close>

datatype prepared = Refused manager_error | Prepared | Waits

text \<open>
  Up to the first await: the checks of the request, the lease, and the selection that the request
  replaces.
\<close>

definition same_ready_prompt :: "prepare_request \<Rightarrow> model_manager \<Rightarrow> bool" where
  "same_ready_prompt rq mm \<longleftrightarrow> pr_engine rq = qwen \<and> mm_resident mm = Some (pr_engine rq)
     \<and> vp_voice (mm_prompt mm) = Some (pr_voice rq) \<and> vp_state (mm_prompt mm) = ''ready''
     \<and> mm_prompt_key mm = Some (pr_key rq)"

definition take_lease :: "prepare_request \<Rightarrow> model_manager \<Rightarrow> manager_error + model_manager" where
  "take_lease rq mm =
     (case pr_owner rq of None \<Rightarrow> Inr mm | Some w \<Rightarrow> set_qwen_prompt_lease w (pr_voice rq) (pr_key rq) mm)"

definition select_prompt :: "prepare_request \<Rightarrow> model_manager \<Rightarrow> model_manager" where
  "select_prompt rq mm =
     mm\<lparr>mm_prompt := \<lparr>vp_engine = Some (pr_engine rq), vp_voice = Some (pr_voice rq), vp_state = ''none'',
                        vp_error = None\<rparr>,
        mm_prompt_key := None\<rparr>"

definition prepare_begin ::
  "string \<Rightarrow> string \<Rightarrow> string option \<Rightarrow> manager_error + string \<Rightarrow> model_manager \<Rightarrow> prepared \<times> model_manager" where
  "prepare_begin engine voice owner key mm =
     (if dget (mm_statuses mm) engine = None then (Refused Unknown_engine, mm)
      else if voice = [] \<or> 128 < length voice then (Refused Invalid_voice_key, mm)
      else
        case (if engine = qwen then key else Inr []) of
          Inl e \<Rightarrow> (Refused e, mm)
        | Inr k \<Rightarrow>
            let rq = \<lparr>pr_engine = engine, pr_voice = voice, pr_key = k, pr_owner = owner\<rparr> in
            if engine = qwen \<and> competing_prompt voice k owner mm then (Refused Prompt_leased, mm)
            else if same_ready_prompt rq mm
            then (case take_lease rq mm of Inl e \<Rightarrow> (Refused e, mm) | Inr m \<Rightarrow> (Prepared, m))
            else (Waits, (select_prompt rq mm)\<lparr>mm_stage := (if engine = qwen then Aligning rq else Aligned rq)\<rparr>))"

definition fail_prompt :: "string \<Rightarrow> model_manager \<Rightarrow> model_manager" where
  "fail_prompt code mm = mm\<lparr>mm_prompt := (mm_prompt mm)\<lparr>vp_state := ''failed'', vp_error := Some code\<rparr>\<rparr>"

text \<open>
  The alignment of audio and transcript, from the cache or computed: \<open>computed\<close> is the code of its
  failure or whether the transcripts match.
\<close>

definition prepare_aligned :: "string + bool \<Rightarrow> model_manager \<Rightarrow> prepared \<times> model_manager" where
  "prepare_aligned computed mm =
     (case mm_stage mm of
        Aligning rq \<Rightarrow>
          let cached = (case mm_alignment mm of None \<Rightarrow> None
                | Some (k, ok) \<Rightarrow> if k = pr_key rq then Some ok else None);
              m1 = (case (cached, computed) of
                      (None, Inr ok) \<Rightarrow> mm\<lparr>mm_alignment := Some (pr_key rq, ok)\<rparr>
                    | _ \<Rightarrow> mm) in
          (case (case cached of Some ok \<Rightarrow> Inr ok | None \<Rightarrow> computed) of
             Inl code \<Rightarrow> (Refused (Prompt_error code), fail_prompt code (m1\<lparr>mm_stage := Unlocked\<rparr>))
           | Inr False \<Rightarrow> (Refused (Prompt_error ''qwen3_transcript_mismatch''),
                          fail_prompt ''qwen3_transcript_mismatch'' (m1\<lparr>mm_stage := Unlocked\<rparr>))
           | Inr True \<Rightarrow> (Waits, m1\<lparr>mm_stage := Aligned rq\<rparr>))
      | _ \<Rightarrow> (Waits, mm))"

text \<open>The switch, which runs in a thread while the preparation waits for it.\<close>

definition prepare_switch ::
  "(string \<Rightarrow> bool) \<Rightarrow> (string \<Rightarrow> bool) \<Rightarrow> model_manager \<Rightarrow> prepared \<times> model_manager" where
  "prepare_switch loads unloads mm =
     (case mm_stage mm of
        Aligned rq \<Rightarrow>
          if mm_resident mm = Some (pr_engine rq) then (Waits, mm\<lparr>mm_stage := Loaded rq\<rparr>)
          else
            let m1 = set_status (pr_engine rq) (\<lambda>x. x\<lparr>es_state := ''loading''\<rparr>)
                       (mm\<lparr>mm_loading := Some (pr_engine rq)\<rparr>) in
            (case switch_tts_engine loads unloads (pr_engine rq) m1 of
               (Inl e, m) \<Rightarrow> (Refused e, m\<lparr>mm_stage := Unlocked\<rparr>)
             | (Inr _, m) \<Rightarrow> (Waits, m\<lparr>mm_stage := Loaded rq\<rparr>))
      | _ \<Rightarrow> (Waits, mm))"

definition prepare_prewarm :: "bool \<Rightarrow> model_manager \<Rightarrow> prepared \<times> model_manager" where
  "prepare_prewarm can_prewarm mm =
     (case mm_stage mm of
        Loaded rq \<Rightarrow>
          if pr_engine rq \<noteq> qwen then (Prepared, mm\<lparr>mm_stage := Unlocked\<rparr>)
          else if \<not> can_prewarm
          then (Refused Prewarm_unavailable,
                fail_prompt ''voice_prompt_preparation_failed'' (mm\<lparr>mm_stage := Unlocked\<rparr>))
          else (Waits, mm\<lparr>mm_prompt := (mm_prompt mm)\<lparr>vp_state := ''prewarming''\<rparr>, mm_stage := Prewarming rq\<rparr>)
      | _ \<Rightarrow> (Waits, mm))"

text \<open>The prewarmed prompt: \<open>Inl\<close> is the code of a failure and whether it condemns the engine.\<close>

definition prepare_end :: "(string \<times> bool) + unit \<Rightarrow> model_manager \<Rightarrow> prepared \<times> model_manager" where
  "prepare_end result mm =
     (case mm_stage mm of
        Prewarming rq \<Rightarrow>
          let m1 = mm\<lparr>mm_stage := Unlocked\<rparr> in
          (case result of
             Inl (code, condemns) \<Rightarrow>
               (let m2 = fail_prompt code m1 in
                (Refused (Prompt_error code),
                 if condemns then contain_qwen_runtime_failure (pr_engine rq) m2 else m2))
           | Inr _ \<Rightarrow>
               (let m2 = m1\<lparr>mm_prompt := (mm_prompt m1)\<lparr>vp_state := ''ready'', vp_error := None\<rparr>,
                            mm_prompt_key := Some (pr_key rq)\<rparr> in
                case take_lease rq m2 of Inl e \<Rightarrow> (Refused e, m2) | Inr m \<Rightarrow> (Prepared, m)))
      | _ \<Rightarrow> (Waits, mm))"

section \<open>Release, invalidation and readiness\<close>

definition release_tts_prompt_lease :: "string \<Rightarrow> model_manager \<Rightarrow> bool \<times> model_manager" where
  "release_tts_prompt_lease owner mm =
     (if owner \<notin> mm_owners mm then (False, mm)
      else let m1 = mm\<lparr>mm_owners := mm_owners mm - {owner}\<rparr> in
           (True, if mm_owners m1 = {} then clear_qwen_prompt_lease m1 else m1))"


text \<open>
  Invalidation up to its await and after it. \<open>well_formed\<close> is the check of the characters of the
  voice key; the adapter answers whether it held the prompt and cancelled work, or raises, with
  whether the failure condemns the engine.
\<close>

datatype invalidated =
    Not_invalidated manager_error
  | Invalidation_waits
  | Invalidation_failed
  | Invalidated bool bool

definition invalidate_begin ::
  "string \<Rightarrow> string \<Rightarrow> bool \<Rightarrow> bool \<Rightarrow> model_manager \<Rightarrow> invalidated \<times> model_manager" where
  "invalidate_begin engine voice well_formed can_invalidate mm =
     (if engine \<noteq> qwen then (Not_invalidated Invalidation_unavailable, mm)
      else if voice = [] \<or> 128 < length voice \<or> \<not> well_formed then (Not_invalidated Invalid_voice_key, mm)
      else if mm_owners mm \<noteq> {} \<and> mm_lease_voice mm = Some voice then (Not_invalidated Prompt_leased, mm)
      else if \<not> can_invalidate then (Not_invalidated (Prompt_error ''qwen3_invalidate_failed''), mm)
      else (Invalidation_waits,
            mm\<lparr>mm_stage := Invalidating voice
                 (vp_engine (mm_prompt mm) = Some engine \<and> vp_voice (mm_prompt mm) = Some voice)\<rparr>))"

definition invalidate_end :: "bool + bool \<times> bool \<Rightarrow> model_manager \<Rightarrow> invalidated \<times> model_manager" where
  "invalidate_end result mm =
     (case mm_stage mm of
        Invalidating voice selected \<Rightarrow>
          let m1 = mm\<lparr>mm_stage := Unlocked\<rparr> in
          (case result of
             Inl condemns \<Rightarrow> (Invalidation_failed, if condemns then contain_qwen_runtime_failure qwen m1 else m1)
           | Inr (held, cancelled) \<Rightarrow>
               (Invalidated (selected \<or> held) cancelled,
                if selected then (reset_selected_voice_prompt m1)\<lparr>mm_alignment := None\<rparr> else m1))
      | _ \<Rightarrow> (Invalidation_waits, mm))"

text \<open>Readiness of a prompt; \<open>key\<close> is the cache key of the caller's audio and transcript, if it gives them.\<close>

definition is_tts_prompt_ready :: "string \<Rightarrow> string \<Rightarrow> (unit + string) option \<Rightarrow> model_manager \<Rightarrow> bool" where
  "is_tts_prompt_ready engine voice key mm =
     (let ready = (engine = qwen \<and> mm_resident mm = Some engine \<and> vp_engine (mm_prompt mm) = Some engine
                   \<and> vp_voice (mm_prompt mm) = Some voice \<and> vp_state (mm_prompt mm) = ''ready'') in
      if \<not> ready then False
      else case key of None \<Rightarrow> True | Some (Inl _) \<Rightarrow> False | Some (Inr k) \<Rightarrow> mm_prompt_key mm = Some k)"

definition health_status :: "model_manager \<Rightarrow> string" where
  "health_status mm =
     (if \<not> mm_started mm \<and> mm_resident mm = None then ''starting''
      else if list_ex (\<lambda>(e, x). \<not> es_available x) (mm_statuses mm) then ''degraded'' else ''ok'')"

section \<open>Runs\<close>

datatype manager_op =
    Startup "(string \<times> bool \<times> bool) list" "string \<Rightarrow> bool" "string \<Rightarrow> bool" string
  | Switch "string \<Rightarrow> bool" "string \<Rightarrow> bool" string
  | Shutdown "string \<Rightarrow> bool"
  | Prepare string string "string option" "manager_error + string"
  | Prepare_aligned "string + bool"
  | Prepare_switch "string \<Rightarrow> bool" "string \<Rightarrow> bool"
  | Prepare_prewarm bool
  | Prepare_end "(string \<times> bool) + unit"
  | Release_lease string
  | Invalidate string string bool bool
  | Invalidate_end "bool + bool \<times> bool"

primrec apply_manager_op :: "manager_op \<Rightarrow> model_manager \<Rightarrow> model_manager" where
  "apply_manager_op (Startup ads l u d) mm = startup ads l u d mm"
| "apply_manager_op (Switch l u e) mm = snd (switch_tts_engine l u e mm)"
| "apply_manager_op (Shutdown u) mm = snd (shutdown u mm)"
| "apply_manager_op (Prepare e v w k) mm = snd (prepare_begin e v w k mm)"
| "apply_manager_op (Prepare_aligned r) mm = snd (prepare_aligned r mm)"
| "apply_manager_op (Prepare_switch l u) mm = snd (prepare_switch l u mm)"
| "apply_manager_op (Prepare_prewarm b) mm = snd (prepare_prewarm b mm)"
| "apply_manager_op (Prepare_end r) mm = snd (prepare_end r mm)"
| "apply_manager_op (Release_lease w) mm = snd (release_tts_prompt_lease w mm)"
| "apply_manager_op (Invalidate e v b c) mm = snd (invalidate_begin e v b c mm)"
| "apply_manager_op (Invalidate_end r) mm = snd (invalidate_end r mm)"

text \<open>The lock, and that start-up meets a manager without an engine in memory.\<close>

primrec manager_enabled :: "manager_op \<Rightarrow> model_manager \<Rightarrow> bool" where
  "manager_enabled (Startup ads l u d) mm = (mm_resident mm = None)"
| "manager_enabled (Switch l u e) mm = True"
| "manager_enabled (Shutdown u) mm = True"
| "manager_enabled (Prepare e v w k) mm = (mm_stage mm = Unlocked)"
| "manager_enabled (Prepare_aligned r) mm = True"
| "manager_enabled (Prepare_switch l u) mm = True"
| "manager_enabled (Prepare_prewarm b) mm = True"
| "manager_enabled (Prepare_end r) mm = True"
| "manager_enabled (Release_lease w) mm = (mm_stage mm = Unlocked)"
| "manager_enabled (Invalidate e v b c) mm = (mm_stage mm = Unlocked)"
| "manager_enabled (Invalidate_end r) mm = True"

inductive manager_step :: "model_manager \<Rightarrow> manager_op \<Rightarrow> model_manager \<Rightarrow> bool" where
  manager_op: "manager_enabled a mm \<Longrightarrow> manager_step mm a (apply_manager_op a mm)"

inductive_cases manager_stepE: "manager_step mm a mm'"

definition manager_init :: "model_manager \<Rightarrow> bool" where
  "manager_init mm \<longleftrightarrow> mm = new_manager"

section \<open>The engine in memory\<close>

definition resident_ok :: "model_manager \<Rightarrow> bool" where
  "resident_ok mm \<longleftrightarrow>
     (\<forall>e x. dget (mm_statuses mm) e = Some x
        \<longrightarrow> (es_resident x \<longleftrightarrow> mm_resident mm = Some e) \<and> (es_resident x \<longrightarrow> es_available x))
     \<and> (\<forall>e. mm_resident mm = Some e \<longrightarrow> dget (mm_statuses mm) e \<noteq> None)"

lemma set_status_simps [simp]:
  "mm_loading (set_status e f mm) = mm_loading mm" "mm_resident (set_status e f mm) = mm_resident mm"
  "mm_prompt (set_status e f mm) = mm_prompt mm" "mm_prompt_key (set_status e f mm) = mm_prompt_key mm"
  "mm_owners (set_status e f mm) = mm_owners mm" "mm_lease_voice (set_status e f mm) = mm_lease_voice mm"
  "mm_lease_key (set_status e f mm) = mm_lease_key mm" "mm_stage (set_status e f mm) = mm_stage mm"
  "mm_alignment (set_status e f mm) = mm_alignment mm" "mm_started (set_status e f mm) = mm_started mm"
  "dget (mm_statuses (set_status e f mm)) k
     = (if k = e then map_option f (dget (mm_statuses mm) e) else dget (mm_statuses mm) k)"
  by (simp_all add: set_status_def split: option.split)

lemma small_op_simps [simp]:
  "mm_statuses (reset_selected_voice_prompt mm) = mm_statuses mm"
  "mm_resident (reset_selected_voice_prompt mm) = mm_resident mm"
  "mm_owners (reset_selected_voice_prompt mm) = mm_owners mm"
  "mm_lease_voice (reset_selected_voice_prompt mm) = mm_lease_voice mm"
  "mm_lease_key (reset_selected_voice_prompt mm) = mm_lease_key mm"
  "mm_stage (reset_selected_voice_prompt mm) = mm_stage mm"
  "mm_statuses (clear_qwen_prompt_lease mm) = mm_statuses mm"
  "mm_resident (clear_qwen_prompt_lease mm) = mm_resident mm"
  "mm_stage (clear_qwen_prompt_lease mm) = mm_stage mm"
  "mm_owners (clear_qwen_prompt_lease mm) = {}"
  "mm_statuses (fail_prompt c mm) = mm_statuses mm" "mm_resident (fail_prompt c mm) = mm_resident mm"
  "mm_owners (fail_prompt c mm) = mm_owners mm" "mm_lease_voice (fail_prompt c mm) = mm_lease_voice mm"
  "mm_lease_key (fail_prompt c mm) = mm_lease_key mm" "mm_stage (fail_prompt c mm) = mm_stage mm"
  by (simp_all add: reset_selected_voice_prompt_def clear_qwen_prompt_lease_def fail_prompt_def)

lemma resident_ok_cong:
  "mm_statuses m = mm_statuses mm \<Longrightarrow> mm_resident m = mm_resident mm \<Longrightarrow> resident_ok m = resident_ok mm"
  by (simp add: resident_ok_def)

text \<open>A change of one engine's status that keeps what the invariant says of it.\<close>

lemma resident_ok_touch:
  assumes "resident_ok mm" "\<And>x. es_resident (f x) = es_resident x" "\<And>x. es_available x \<Longrightarrow> es_available (f x)"
  shows "resident_ok (set_status e f mm)"
  using assms by (auto simp: resident_ok_def split: if_split_asm)

lemma resident_ok_leave:
  assumes "resident_ok mm" "\<And>x. \<not> es_resident (f x)"
    and "m = (set_status e f mm)\<lparr>mm_resident := (if mm_resident mm = Some e then None else mm_resident mm)\<rparr>"
  shows "resident_ok m"
  using assms by (auto simp: resident_ok_def split: if_split_asm)

lemma resident_ok_enter:
  assumes "resident_ok mm" "mm_resident mm = None" "dget (mm_statuses mm) e \<noteq> None"
    and "\<And>x. es_resident (f x)" "\<And>x. dget (mm_statuses mm) e = Some x \<Longrightarrow> es_available (f x)"
    and "m = (set_status e f mm)\<lparr>mm_resident := Some e\<rparr>"
  shows "resident_ok m"
  using assms by (auto simp: resident_ok_def split: if_split_asm)

end
