(* ===== verification/ModelManagerLaws.thy ===== *)
theory ModelManagerLaws
  imports ModelManager
begin

text \<open>
  The invariants of the engine manager over every run, whatever the adapters do and wherever a
  switch or a shut-down falls between the stretches of a preparation: one engine is in memory, the
  lease names one prompt, and a preparation that holds the lock never meets a competing lease.
\<close>

section \<open>One engine in memory\<close>

lemma revive_ok: "resident_ok mm \<Longrightarrow> resident_ok (revive_engine e mm)"
  unfolding revive_engine_def by (rule resident_ok_touch) simp_all

lemma revive_facts:
  "mm_resident (revive_engine e mm) = mm_resident mm" "mm_owners (revive_engine e mm) = mm_owners mm"
  "mm_lease_voice (revive_engine e mm) = mm_lease_voice mm" "mm_lease_key (revive_engine e mm) = mm_lease_key mm"
  "mm_stage (revive_engine e mm) = mm_stage mm" "mm_prompt (revive_engine e mm) = mm_prompt mm"
  "mm_prompt_key (revive_engine e mm) = mm_prompt_key mm"
  "dget (mm_statuses mm) e \<noteq> None \<Longrightarrow> is_available e (revive_engine e mm)"
  by (auto simp: revive_engine_def is_available_def)

lemma mark_unavailable_ok:
  assumes "resident_ok mm" "mm_resident mm \<noteq> Some e"
  shows "resident_ok (mark_unavailable e r mm)"
  using assms by (auto simp: mark_unavailable_def resident_ok_def split: if_split_asm)

lemma mark_unavailable_facts [simp]:
  "mm_resident (mark_unavailable e r mm) = mm_resident mm" "mm_owners (mark_unavailable e r mm) = mm_owners mm"
  "mm_lease_voice (mark_unavailable e r mm) = mm_lease_voice mm"
  "mm_lease_key (mark_unavailable e r mm) = mm_lease_key mm"
  "mm_stage (mark_unavailable e r mm) = mm_stage mm"
  "dget (mm_statuses (mark_unavailable e r mm)) k = None \<longleftrightarrow> dget (mm_statuses mm) k = None"
  by (simp_all add: mark_unavailable_def)

lemma available_Some: "is_available e mm \<Longrightarrow> \<exists>x. dget (mm_statuses mm) e = Some x \<and> es_available x"
  by (cases "dget (mm_statuses mm) e") (simp_all add: is_available_def)

lemma is_available_cong: "mm_statuses m = mm_statuses mm \<Longrightarrow> is_available e m = is_available e mm"
  by (simp add: is_available_def)

lemma is_available_touch:
  assumes "is_available k mm" "\<And>x. es_available x \<Longrightarrow> es_available (f x)"
  shows "is_available k (set_status e f mm)"
  using assms by (cases "dget (mm_statuses mm) k") (auto simp: is_available_def)

lemma reset_prompt_simps [simp]:
  "resident_ok (reset_selected_voice_prompt mm) = resident_ok mm"
  "is_available k (reset_selected_voice_prompt mm) = is_available k mm"
  "resident_ok (fail_prompt c mm) = resident_ok mm"
  by (simp_all add: resident_ok_def is_available_def)

lemma unload_previous_ok:
  assumes "resident_ok mm" "unload_previous u e mm = Inr m"
  shows "resident_ok m" "mm_resident m = None" "is_available k mm \<Longrightarrow> is_available k m"
proof -
  have "resident_ok m \<and> mm_resident m = None \<and> (is_available k mm \<longrightarrow> is_available k m)"
  proof (cases "mm_resident mm")
    case (Some p)
    let ?f = "\<lambda>x :: engine_status. x\<lparr>es_resident := False, es_state := ''idle''\<rparr>"
    let ?m = "(set_status p ?f mm)\<lparr>mm_resident := None\<rparr>"
    have m: "m = (if p = qwen \<and> e \<noteq> p then reset_selected_voice_prompt ?m else ?m)"
      using assms(2) Some by (auto simp: unload_previous_def Let_def split: if_split_asm)
    have "resident_ok ?m"
      by (rule resident_ok_leave [OF assms(1), of ?f _ p]) (simp_all add: Some)
    moreover have "is_available k mm \<Longrightarrow> is_available k ?m"
      using is_available_touch [of k mm ?f p] is_available_cong [of ?m "set_status p ?f mm" k] by simp
    moreover have "mm_statuses m = mm_statuses ?m" "mm_resident m = None"
      by (simp_all add: m)
    ultimately show ?thesis
      using resident_ok_cong [of m ?m] is_available_cong [of m ?m k] by simp
  qed (use assms in \<open>simp add: unload_previous_def\<close>)
  then show "resident_ok m" "mm_resident m = None" "is_available k mm \<Longrightarrow> is_available k m" by blast+
qed

lemma load_engine_ok:
  assumes "resident_ok mm" "mm_resident mm = None" "is_available e mm"
  shows "resident_ok (snd (load_engine l e mm))"
proof (cases "l e")
  case True
  obtain x where x: "dget (mm_statuses mm) e = Some x" "es_available x"
    using available_Some [OF assms(3)] by blast
  let ?f = "\<lambda>x :: engine_status. x\<lparr>es_resident := True, es_state := ''resident''\<rparr>"
  let ?m = "(set_status e ?f mm)\<lparr>mm_resident := Some e\<rparr>"
  have "resident_ok ?m"
    by (rule resident_ok_enter [OF assms(1,2), where e = e and f = ?f]) (use x in simp_all)
  moreover have "snd (load_engine l e mm) = ?m\<lparr>mm_loading := None\<rparr>"
    using True by (simp add: load_engine_def)
  ultimately show ?thesis
    using resident_ok_cong [of "?m\<lparr>mm_loading := None\<rparr>" ?m] by simp
next
  case False
  have "resident_ok (mm\<lparr>mm_resident := None, mm_loading := None\<rparr>)"
    using assms(1,2) by (simp add: resident_ok_def)
  then show ?thesis
    using False by (simp add: load_engine_def mark_unavailable_ok)
qed

text \<open>What a switch does, by cases.\<close>

definition switch_start :: "string \<Rightarrow> model_manager \<Rightarrow> model_manager" where
  "switch_start e mm = set_status e (\<lambda>x. x\<lparr>es_state := ''loading''\<rparr>) ((revive_engine e mm)\<lparr>mm_loading := Some e\<rparr>)"

lemma switch_cases:
  obtains (unchanged) "snd (switch_tts_engine l u e mm) = mm"
  | (already) "mm_resident mm = Some e" "dget (mm_statuses mm) e \<noteq> None"
      "switch_tts_engine l u e mm = (Inr (), set_status e (\<lambda>x. x\<lparr>es_resident := True, es_state := ''resident''\<rparr>) (revive_engine e mm))"
  | (leased) "mm_resident mm = Some qwen" "mm_owners mm \<noteq> {}" "e \<noteq> qwen"
      "switch_tts_engine l u e mm = (Inl Prompt_leased, revive_engine e mm)"
  | (stuck) "dget (mm_statuses mm) e \<noteq> None" "switch_tts_engine l u e mm = (Inl Unload_failed, switch_start e mm)"
  | (loaded) m where "dget (mm_statuses mm) e \<noteq> None" "unload_previous u e (switch_start e mm) = Inr m"
      "switch_tts_engine l u e mm = load_engine l e m" "\<not> (mm_resident mm = Some qwen \<and> mm_owners mm \<noteq> {} \<and> e \<noteq> qwen)"
proof (cases "dget (mm_statuses mm) e")
  case None
  then show ?thesis using unchanged by (simp add: switch_tts_engine_def)
next
  case (Some x)
  show ?thesis
  proof (cases "\<not> es_available x \<and> (case es_reason x of None \<Rightarrow> True | Some r \<Rightarrow> r \<notin> retriable_reasons)")
    case True
    then show ?thesis using unchanged Some by (simp add: switch_tts_engine_def)
  next
    case open_: False
    have eq: "switch_tts_engine l u e mm =
        (if mm_resident mm = Some e
         then (Inr (), set_status e (\<lambda>x. x\<lparr>es_resident := True, es_state := ''resident''\<rparr>) (revive_engine e mm))
         else if mm_resident mm = Some qwen \<and> mm_owners mm \<noteq> {} \<and> e \<noteq> qwen
         then (Inl Prompt_leased, revive_engine e mm)
         else case unload_previous u e (switch_start e mm) of
                Inl err \<Rightarrow> (Inl err, switch_start e mm) | Inr m3 \<Rightarrow> load_engine l e m3)"
      using Some open_ by (simp only: switch_tts_engine_def option.case Let_def revive_facts switch_start_def if_False)
    consider "mm_resident mm = Some e" | "mm_resident mm \<noteq> Some e" "mm_resident mm = Some qwen \<and> mm_owners mm \<noteq> {} \<and> e \<noteq> qwen"
      | "mm_resident mm \<noteq> Some e" "\<not> (mm_resident mm = Some qwen \<and> mm_owners mm \<noteq> {} \<and> e \<noteq> qwen)"
      by blast
    then show ?thesis
    proof cases
      case 1
      then show ?thesis using already eq Some by simp
    next
      case 2
      then show ?thesis using leased eq by simp
    next
      case 3
      show ?thesis
      proof (cases "unload_previous u e (switch_start e mm)")
        case (Inl err)
        then have "err = Unload_failed"
          by (simp add: unload_previous_def Let_def split: option.split_asm if_split_asm)
        then show ?thesis using stuck eq 3 Inl Some by simp
      next
        case (Inr m)
        show ?thesis by (rule loaded [OF _ Inr _ 3(2)]) (use eq 3 Inr Some in simp_all)
      qed
    qed
  qed
qed

lemma switch_start_ok:
  assumes "resident_ok mm"
  shows "resident_ok (switch_start e mm)" "dget (mm_statuses mm) e \<noteq> None \<Longrightarrow> is_available e (switch_start e mm)"
proof -
  let ?m = "(revive_engine e mm)\<lparr>mm_loading := Some e\<rparr>"
  have "resident_ok ?m" using revive_ok [OF assms] by (simp add: resident_ok_def)
  then show "resident_ok (switch_start e mm)"
    unfolding switch_start_def by (rule resident_ok_touch) simp_all
  assume "dget (mm_statuses mm) e \<noteq> None"
  then have "is_available e ?m" using revive_facts(8) [of mm e] by (simp add: is_available_def)
  then show "is_available e (switch_start e mm)"
    unfolding switch_start_def by (rule is_available_touch) simp
qed

lemma switch_ok:
  assumes "resident_ok mm"
  shows "resident_ok (snd (switch_tts_engine l u e mm))"
proof (cases rule: switch_cases [of l u e mm])
  case already
  obtain x where x: "dget (mm_statuses (revive_engine e mm)) e = Some x" "es_available x"
    using available_Some [OF revive_facts(8) [OF already(2)]] by blast
  show ?thesis
    unfolding already(3) snd_conv using revive_ok [OF assms, of e] already(1) x
    by (auto simp: resident_ok_def revive_facts split: if_split_asm)
next
  case (loaded m)
  note start = switch_start_ok [OF assms, of e]
  show ?thesis
    unfolding loaded(3) using unload_previous_ok [OF start(1) loaded(2)] start(2) [OF loaded(1)] load_engine_ok by blast
qed (simp_all add: assms revive_ok switch_start_ok)


section \<open>The other operations\<close>

lemma resident_ok_updates [simp]:
  "resident_ok (mm\<lparr>mm_stage := st\<rparr>) = resident_ok mm" "resident_ok (mm\<lparr>mm_prompt := pp\<rparr>) = resident_ok mm"
  "resident_ok (mm\<lparr>mm_prompt_key := k\<rparr>) = resident_ok mm" "resident_ok (mm\<lparr>mm_loading := ld\<rparr>) = resident_ok mm"
  "resident_ok (mm\<lparr>mm_owners := ow\<rparr>) = resident_ok mm" "resident_ok (mm\<lparr>mm_lease_voice := k\<rparr>) = resident_ok mm"
  "resident_ok (mm\<lparr>mm_lease_key := k\<rparr>) = resident_ok mm" "resident_ok (mm\<lparr>mm_alignment := al\<rparr>) = resident_ok mm"
  "resident_ok (mm\<lparr>mm_started := b\<rparr>) = resident_ok mm"
  by (simp_all add: resident_ok_def)

lemma self_tests_ok:
  "resident_ok mm \<Longrightarrow> mm_resident mm = None
   \<Longrightarrow> resident_ok (self_tests as mm) \<and> mm_resident (self_tests as mm) = None"
  by (induction as mm rule: self_tests.induct) (simp_all add: mark_unavailable_ok)

lemma switch_failure_resident:
  assumes "fst (switch_tts_engine l u e mm) = Inl err" "mm_resident mm = None"
  shows "mm_resident (snd (switch_tts_engine l u e mm)) \<noteq> Some e"
  using assms(1)
proof (cases rule: switch_cases [of l u e mm])
  case (loaded m)
  then show ?thesis using assms(1) by (simp add: load_engine_def split: if_split_asm)
qed (simp_all add: assms(2) revive_facts switch_start_def)

lemma startup_ok:
  assumes "resident_ok mm" "mm_resident mm = None"
  shows "resident_ok (startup ads l u d mm)"
proof -
  let ?m1 = "self_tests ads mm"
  note m1 = self_tests_ok [OF assms, of ads]
  have "resident_ok (mark_unavailable d r (snd (switch_tts_engine l u d ?m1)))"
    if "fst (switch_tts_engine l u d ?m1) = Inl err" for r err
    using mark_unavailable_ok [OF switch_ok [OF conjunct1 [OF m1]] switch_failure_resident [OF that conjunct2 [OF m1]]] .
  then show ?thesis
    using m1 switch_ok [of ?m1 l u d]
    by (cases "switch_tts_engine l u d ?m1") (auto simp: startup_def Let_def split: sum.split)
qed

lemma shutdown_ok:
  assumes "resident_ok mm"
  shows "resident_ok (snd (shutdown u mm))"
proof -
  let ?idle = "\<lambda>x. if es_available x then x\<lparr>es_resident := False, es_state := ''idle''\<rparr> else x"
  have "\<not> es_resident (?idle x)" if "dget (mm_statuses mm) e = Some x" for e x
  proof -
    have "es_resident x \<longrightarrow> es_available x" using assms that unfolding resident_ok_def by blast
    then show ?thesis by auto
  qed
  then have "\<not> es_resident x" if "map_option ?idle (dget (mm_statuses mm) e) = Some x" for e x
    using that by (cases "dget (mm_statuses mm) e") auto
  then have "resident_ok (mm\<lparr>mm_statuses := dmap ?idle (mm_statuses mm), mm_resident := None\<rparr>)"
    unfolding resident_ok_def by (simp add: dget_dmap)
  moreover have "mm_statuses (snd (shutdown u mm)) = dmap ?idle (mm_statuses mm)" "mm_resident (snd (shutdown u mm)) = None"
    if "\<not> (case mm_resident mm of None \<Rightarrow> False | Some p \<Rightarrow> \<not> u p)"
    unfolding shutdown_def Let_def if_not_P [OF that] by simp_all
  moreover have "snd (shutdown u mm) = mm" if "case mm_resident mm of None \<Rightarrow> False | Some p \<Rightarrow> \<not> u p"
    unfolding shutdown_def if_P [OF that] by simp
  ultimately show ?thesis
    using assms resident_ok_cong [of "snd (shutdown u mm)" "mm\<lparr>mm_statuses := dmap ?idle (mm_statuses mm), mm_resident := None\<rparr>"]
    by (cases "case mm_resident mm of None \<Rightarrow> False | Some p \<Rightarrow> \<not> u p") (simp_all del: not_None_eq)
qed

lemma set_status_statuses:
  "mm_statuses (set_status e f m) = (case dget (mm_statuses m) e of None \<Rightarrow> mm_statuses m
     | Some x \<Rightarrow> dset e (f x) (mm_statuses m))"
  by (simp add: set_status_def split: option.split)

lemma contain_resident:
  assumes "e = qwen"
  shows "mm_resident (contain_qwen_runtime_failure e mm) = (if mm_resident mm = Some e then None else mm_resident mm)"
  unfolding contain_qwen_runtime_failure_def Let_def using assms by simp

lemma contain_ok:
  assumes "resident_ok mm"
  shows "resident_ok (contain_qwen_runtime_failure e mm)"
proof (cases "e = qwen")
  case True
  let ?f = "\<lambda>x :: engine_status. x\<lparr>es_available := False, es_resident := False, es_state := ''unavailable'',
    es_reason := Some ''engine runtime failed''\<rparr>"
  let ?m = "(set_status e ?f mm)\<lparr>mm_resident := (if mm_resident mm = Some e then None else mm_resident mm)\<rparr>"
  have "resident_ok ?m" by (rule resident_ok_leave [OF assms, where f = ?f and e = e]) simp_all
  moreover have "mm_statuses (contain_qwen_runtime_failure e mm) = mm_statuses ?m"
    unfolding contain_qwen_runtime_failure_def mark_unavailable_def Let_def set_status_statuses
    using True by (simp add: set_status_statuses split: option.split)
  moreover have "mm_resident (contain_qwen_runtime_failure e mm) = mm_resident ?m"
    unfolding contain_resident [OF True] by simp
  ultimately show ?thesis using resident_ok_cong by blast
qed (simp add: contain_qwen_runtime_failure_def assms)

lemma set_lease_kept:
  assumes "set_qwen_prompt_lease w v k mm = Inr m"
  shows "m = mm\<lparr>mm_owners := insert w (mm_owners mm), mm_lease_voice := Some v, mm_lease_key := Some k\<rparr>"
  using assms unfolding set_qwen_prompt_lease_def by (cases "mm_owners mm = {w}") (simp_all split: if_split_asm)

lemma take_lease_kept:
  assumes "take_lease q mm = Inr m"
  shows "mm_statuses m = mm_statuses mm" "mm_resident m = mm_resident mm" "mm_stage m = mm_stage mm"
    "mm_prompt m = mm_prompt mm"
proof -
  have "mm_statuses m = mm_statuses mm \<and> mm_resident m = mm_resident mm \<and> mm_stage m = mm_stage mm \<and> mm_prompt m = mm_prompt mm"
  proof (cases "pr_owner q")
    case (Some w)
    then have "set_qwen_prompt_lease w (pr_voice q) (pr_key q) mm = Inr m" using assms by (simp add: take_lease_def)
    from set_lease_kept [OF this] show ?thesis by simp
  qed (use assms in \<open>simp add: take_lease_def\<close>)
  then show "mm_statuses m = mm_statuses mm" "mm_resident m = mm_resident mm" "mm_stage m = mm_stage mm"
    "mm_prompt m = mm_prompt mm" by simp_all
qed

lemma take_lease_resident: "take_lease q mm = Inr m \<Longrightarrow> resident_ok m = resident_ok mm"
  by (rule resident_ok_cong) (rule take_lease_kept, assumption)+

lemma prepare_begin_resident: "resident_ok mm \<Longrightarrow> resident_ok (snd (prepare_begin e v w k mm))"
  by (auto simp: prepare_begin_def select_prompt_def Let_def take_lease_resident split: sum.split)

lemma prepare_aligned_resident: "resident_ok mm \<Longrightarrow> resident_ok (snd (prepare_aligned r mm))"
  by (simp add: prepare_aligned_def Let_def split: prepare_stage.split sum.split option.split bool.split)

lemma prepare_switch_resident:
  assumes "resident_ok mm"
  shows "resident_ok (snd (prepare_switch l u mm))"
proof (cases "mm_stage mm")
  case (Aligned rq)
  let ?m = "set_status (pr_engine rq) (\<lambda>x. x\<lparr>es_state := ''loading''\<rparr>) (mm\<lparr>mm_loading := Some (pr_engine rq)\<rparr>)"
  have "resident_ok ?m" by (rule resident_ok_touch) (simp_all add: assms)
  then have "resident_ok (snd (switch_tts_engine l u (pr_engine rq) ?m))" by (rule switch_ok)
  then show ?thesis
    using Aligned assms by (simp add: prepare_switch_def Let_def split_beta split: sum.split)
qed (simp_all add: prepare_switch_def assms)

lemma prepare_rest_resident:
  assumes "resident_ok mm"
  shows "resident_ok (snd (prepare_prewarm b mm))" "resident_ok (snd (prepare_end r mm))"
    "resident_ok (snd (release_tts_prompt_lease w mm))" "resident_ok (snd (invalidate_begin e v x y mm))"
    "resident_ok (snd (invalidate_end z mm))"
proof -
  show "resident_ok (snd (prepare_prewarm b mm))" "resident_ok (snd (invalidate_begin e v x y mm))"
    using assms by (simp_all add: prepare_prewarm_def invalidate_begin_def Let_def split: prepare_stage.split)
  show "resident_ok (snd (release_tts_prompt_lease w mm))"
    using assms by (simp add: release_tts_prompt_lease_def clear_qwen_prompt_lease_def Let_def)
  show "resident_ok (snd (invalidate_end z mm))"
    using assms by (auto simp: invalidate_end_def Let_def contain_ok split: prepare_stage.split sum.split)
  show "resident_ok (snd (prepare_end r mm))"
    using assms by (auto simp: prepare_end_def Let_def contain_ok take_lease_resident
        split: prepare_stage.split sum.split)
qed

section \<open>The lease\<close>

definition lease_view :: "model_manager \<Rightarrow> string set \<times> string option \<times> string option" where
  "lease_view mm = (mm_owners mm, mm_lease_voice mm, mm_lease_key mm)"

definition lease_ok :: "model_manager \<Rightarrow> bool" where
  "lease_ok mm \<longleftrightarrow> (mm_owners mm = {} \<longleftrightarrow> mm_lease_voice mm = None) \<and> (mm_lease_voice mm = None \<longleftrightarrow> mm_lease_key mm = None)"

definition request_ok :: "bool \<Rightarrow> prepare_request \<Rightarrow> model_manager \<Rightarrow> bool" where
  "request_ok only_qwen q mm \<longleftrightarrow> (only_qwen \<longrightarrow> pr_engine q = qwen)
     \<and> (pr_engine q = qwen \<longrightarrow> \<not> competing_prompt (pr_voice q) (pr_key q) (pr_owner q) mm)"

primrec stage_fits :: "prepare_stage \<Rightarrow> model_manager \<Rightarrow> bool" where
  "stage_fits Unlocked mm = True"
| "stage_fits (Aligning q) mm = request_ok True q mm"
| "stage_fits (Aligned q) mm = request_ok False q mm"
| "stage_fits (Loaded q) mm = request_ok False q mm"
| "stage_fits (Prewarming q) mm = request_ok True q mm"
| "stage_fits (Invalidating v b) mm = True"

primrec stage_owner :: "prepare_stage \<Rightarrow> string option" where
  "stage_owner Unlocked = None"
| "stage_owner (Aligning q) = pr_owner q"
| "stage_owner (Aligned q) = pr_owner q"
| "stage_owner (Loaded q) = pr_owner q"
| "stage_owner (Prewarming q) = pr_owner q"
| "stage_owner (Invalidating v b) = None"

definition manager_ok :: "model_manager \<Rightarrow> bool" where
  "manager_ok mm \<longleftrightarrow> resident_ok mm \<and> lease_ok mm \<and> stage_fits (mm_stage mm) mm"

text \<open>
  A step either keeps the lease, or it clears it, or it grants the lease to one owner on a prompt
  that does not compete.
\<close>

lemma request_ok_view: "lease_view m = lease_view mm \<Longrightarrow> request_ok b q m = request_ok b q mm"
  by (simp add: request_ok_def competing_prompt_def lease_view_def split: option.split)

lemma stage_fits_view:
  assumes "lease_view m = lease_view mm"
  shows "stage_fits st m = stage_fits st mm"
  using request_ok_view [OF assms] by (cases st) simp_all

lemma lease_ok_view: "lease_view m = lease_view mm \<Longrightarrow> lease_ok m = lease_ok mm"
  by (simp add: lease_ok_def lease_view_def)

lemma lease_view_updates [simp]:
  "lease_view (mm\<lparr>mm_stage := st\<rparr>) = lease_view mm" "lease_view (mm\<lparr>mm_prompt := pp\<rparr>) = lease_view mm"
  "lease_view (mm\<lparr>mm_prompt_key := k\<rparr>) = lease_view mm" "lease_view (mm\<lparr>mm_loading := ld\<rparr>) = lease_view mm"
  "lease_view (mm\<lparr>mm_alignment := al\<rparr>) = lease_view mm" "lease_view (mm\<lparr>mm_started := b\<rparr>) = lease_view mm"
  "lease_view (mm\<lparr>mm_resident := r\<rparr>) = lease_view mm" "lease_view (mm\<lparr>mm_statuses := d\<rparr>) = lease_view mm"
  "lease_view (set_status e f mm) = lease_view mm" "lease_view (mark_unavailable e rs mm) = lease_view mm"
  "lease_view (reset_selected_voice_prompt mm) = lease_view mm" "lease_view (fail_prompt c mm) = lease_view mm"
  "lease_view (revive_engine e mm) = lease_view mm" "lease_view (select_prompt q mm) = lease_view mm"
  by (simp_all add: lease_view_def select_prompt_def revive_facts)

lemma unload_view: "unload_previous u e mm = Inr m \<Longrightarrow> lease_view m = lease_view mm \<and> mm_stage m = mm_stage mm"
  by (auto simp: unload_previous_def Let_def split: option.split_asm if_split_asm)

lemma load_view: "lease_view (snd (load_engine l e mm)) = lease_view mm \<and> mm_stage (snd (load_engine l e mm)) = mm_stage mm"
  by (simp add: load_engine_def)

lemma switch_view:
  "lease_view (snd (switch_tts_engine l u e mm)) = lease_view mm
   \<and> mm_stage (snd (switch_tts_engine l u e mm)) = mm_stage mm"
proof (cases rule: switch_cases [of l u e mm])
  case (loaded m)
  then show ?thesis using unload_view [OF loaded(2)] load_view [of l e m] by (simp add: switch_start_def revive_facts)
qed (simp_all add: switch_start_def revive_facts)

lemma contain_view [simp]:
  "lease_view (contain_qwen_runtime_failure e mm) = lease_view mm"
  "mm_stage (contain_qwen_runtime_failure e mm) = mm_stage mm"
  by (simp_all add: contain_qwen_runtime_failure_def Let_def)

lemma self_tests_view: "lease_view (self_tests as mm) = lease_view mm \<and> mm_stage (self_tests as mm) = mm_stage mm"
  by (induction as mm rule: self_tests.induct) simp_all

lemma startup_view:
  "lease_view (startup ads l u d mm) = lease_view mm \<and> mm_stage (startup ads l u d mm) = mm_stage mm"
  using switch_view [of l u d "self_tests ads mm"] self_tests_view [of ads mm]
  by (cases "switch_tts_engine l u d (self_tests ads mm)") (simp add: startup_def Let_def split: sum.split)

definition leases :: "string \<Rightarrow> string \<Rightarrow> string \<Rightarrow> model_manager \<Rightarrow> bool" where
  "leases w v k mm \<longleftrightarrow> w \<in> mm_owners mm \<and> mm_lease_voice mm = Some v \<and> mm_lease_key mm = Some k"

lemma leases_view: "lease_view m = lease_view mm \<Longrightarrow> leases w v k m = leases w v k mm"
  by (simp add: leases_def lease_view_def)

lemma set_lease_granted:
  assumes "\<not> competing_prompt v k (Some w) mm"
  shows "set_qwen_prompt_lease w v k mm
    = Inr (mm\<lparr>mm_owners := insert w (mm_owners mm), mm_lease_voice := Some v, mm_lease_key := Some k\<rparr>)"
  using assms unfolding competing_prompt_def set_qwen_prompt_lease_def by (cases "mm_owners mm = {w}") auto

lemma set_lease_sole:
  assumes "set_qwen_prompt_lease w v k mm = Inr m" "leases w' v' k' mm" "w' \<noteq> w"
  shows "v' = v \<and> k' = k"
proof (rule ccontr)
  assume "\<not> (v' = v \<and> k' = k)"
  then have "mm_owners mm \<noteq> {} \<and> (mm_lease_voice mm \<noteq> Some v \<or> mm_lease_key mm \<noteq> Some k)"
    using assms(2) by (auto simp: leases_def)
  moreover have "mm_owners mm \<noteq> {w}" using assms(2,3) by (auto simp: leases_def)
  ultimately show False using assms(1) by (simp add: set_qwen_prompt_lease_def)
qed

lemma take_lease_granted:
  assumes "pr_engine q = qwen" "request_ok b q mm"
  obtains m where "take_lease q mm = Inr m"
  using assms set_lease_granted [of "pr_voice q" "pr_key q" _ mm]
  by (cases "pr_owner q") (auto simp: take_lease_def request_ok_def)

lemma take_lease_ok:
  assumes "take_lease q mm = Inr m" "lease_ok mm"
  shows "lease_ok m"
proof (cases "pr_owner q")
  case (Some w)
  then have "set_qwen_prompt_lease w (pr_voice q) (pr_key q) mm = Inr m" using assms(1) by (simp add: take_lease_def)
  from set_lease_kept [OF this] show ?thesis by (simp add: lease_ok_def)
qed (use assms in \<open>simp add: take_lease_def\<close>)

lemma take_lease_leases:
  assumes "take_lease q mm = Inr m"
  shows "pr_owner q = Some w \<Longrightarrow> leases w (pr_voice q) (pr_key q) m"
    and "leases w v k mm \<Longrightarrow> pr_owner q \<noteq> Some w \<Longrightarrow> leases w v k m"
proof -
  have set_: "set_qwen_prompt_lease ow (pr_voice q) (pr_key q) mm = Inr m" if "pr_owner q = Some ow" for ow
    using assms that by (simp add: take_lease_def)
  show "leases w (pr_voice q) (pr_key q) m" if "pr_owner q = Some w"
    using set_lease_kept [OF set_ [OF that]] by (simp add: leases_def)
  assume l: "leases w v k mm" and o: "pr_owner q \<noteq> Some w"
  show "leases w v k m"
  proof (cases "pr_owner q")
    case None
    then show ?thesis using assms l by (simp add: take_lease_def)
  next
    case (Some ow)
    then have "v = pr_voice q \<and> k = pr_key q"
      using set_lease_sole [OF set_ [OF Some] l] o by auto
    then show ?thesis using set_lease_kept [OF set_ [OF Some]] l by (simp add: leases_def)
  qed
qed

lemma prepare_begin_cases:
  obtains (refused) "snd (prepare_begin e v w k mm) = mm"
  | (taken) q m where "pr_owner q = w" "take_lease q mm = Inr m" "snd (prepare_begin e v w k mm) = m"
  | (waits) q where "pr_owner q = w" "request_ok (e = qwen) q mm"
      "snd (prepare_begin e v w k mm) = (select_prompt q mm)\<lparr>mm_stage := (if e = qwen then Aligning q else Aligned q)\<rparr>"
proof (cases "dget (mm_statuses mm) e = None \<or> v = [] \<or> 128 < length v")
  case True
  then show ?thesis using refused by (auto simp: prepare_begin_def)
next
  case ok: False
  show ?thesis
  proof (cases "if e = qwen then k else Inr []")
    case (Inl err)
    then show ?thesis using ok refused by (simp add: prepare_begin_def)
  next
    case (Inr key)
    let ?q = "\<lparr>pr_engine = e, pr_voice = v, pr_key = key, pr_owner = w\<rparr>"
    have eq: "prepare_begin e v w k mm =
      (if e = qwen \<and> competing_prompt v key w mm then (Refused Prompt_leased, mm)
       else if same_ready_prompt ?q mm
       then (case take_lease ?q mm of Inl e \<Rightarrow> (Refused e, mm) | Inr m \<Rightarrow> (Prepared, m))
       else (Waits, (select_prompt ?q mm)\<lparr>mm_stage := (if e = qwen then Aligning ?q else Aligned ?q)\<rparr>))"
    proof -
      have known: "dget (mm_statuses mm) e \<noteq> None" using ok by simp
      have key: "\<not> (v = [] \<or> 128 < length v)" using ok by simp
      show ?thesis
        unfolding prepare_begin_def if_not_P [OF known] if_not_P [OF key] Inr sum.case Let_def by (simp only: prepare_request.select_convs)
    qed
    consider "e = qwen \<and> competing_prompt v key w mm"
      | "\<not> (e = qwen \<and> competing_prompt v key w mm)" "same_ready_prompt ?q mm"
      | "\<not> (e = qwen \<and> competing_prompt v key w mm)" "\<not> same_ready_prompt ?q mm"
      by blast
    then show ?thesis
    proof cases
      case 1
      show ?thesis by (rule refused) (unfold eq if_P [OF 1], rule snd_conv)
    next
      case 2
      show ?thesis
      proof (cases "take_lease ?q mm")
        case (Inl err)
        then show ?thesis using 2 by (intro refused) (simp only: eq if_False if_True sum.case snd_conv)
      next
        case (Inr m)
        show ?thesis
          by (rule taken [OF _ Inr]) (simp_all only: prepare_request.select_convs eq 2 Inr if_False if_True sum.case snd_conv)
      qed
    next
      case 3
      show ?thesis
      proof (rule waits)
        show "request_ok (e = qwen) ?q mm" using 3(1) by (simp add: request_ok_def)
        show "snd (prepare_begin e v w k mm)
            = (select_prompt ?q mm)\<lparr>mm_stage := (if e = qwen then Aligning ?q else Aligned ?q)\<rparr>"
          unfolding eq if_not_P [OF 3(1)] if_not_P [OF 3(2)] by (rule snd_conv)
      qed simp
    qed
  qed
qed

section \<open>Every step\<close>

lemma mid_stage_view:
  "lease_view (snd (prepare_aligned r mm)) = lease_view mm" "lease_view (snd (prepare_switch l u mm)) = lease_view mm"
  "lease_view (snd (prepare_prewarm b mm)) = lease_view mm" "lease_view (snd (invalidate_begin e v x y mm)) = lease_view mm"
  "lease_view (snd (invalidate_end z mm)) = lease_view mm"
proof -
  show "lease_view (snd (prepare_aligned r mm)) = lease_view mm"
    by (simp add: prepare_aligned_def Let_def split: prepare_stage.split sum.split option.split bool.split)
  show "lease_view (snd (prepare_prewarm b mm)) = lease_view mm" "lease_view (snd (invalidate_begin e v x y mm)) = lease_view mm"
    by (simp_all add: prepare_prewarm_def invalidate_begin_def Let_def split: prepare_stage.split)
  show "lease_view (snd (invalidate_end z mm)) = lease_view mm"
    by (simp add: invalidate_end_def Let_def split: prepare_stage.split sum.split)
  show "lease_view (snd (prepare_switch l u mm)) = lease_view mm"
  proof (cases "mm_stage mm")
    case (Aligned q)
    then show ?thesis
      using switch_view [of l u "pr_engine q" "set_status (pr_engine q) (\<lambda>x. x\<lparr>es_state := ''loading''\<rparr>)
          (mm\<lparr>mm_loading := Some (pr_engine q)\<rparr>)"]
      by (simp add: prepare_switch_def Let_def split_beta split: sum.split)
  qed (simp_all add: prepare_switch_def)
qed

lemma mid_stage_next:
  "mm_stage (snd (prepare_aligned r mm)) = mm_stage mm \<or> mm_stage (snd (prepare_aligned r mm)) = Unlocked
   \<or> (case mm_stage mm of Aligning q \<Rightarrow> mm_stage (snd (prepare_aligned r mm)) = Aligned q | _ \<Rightarrow> False)"
  "mm_stage (snd (prepare_switch l u mm)) = mm_stage mm \<or> mm_stage (snd (prepare_switch l u mm)) = Unlocked
   \<or> (case mm_stage mm of Aligned q \<Rightarrow> mm_stage (snd (prepare_switch l u mm)) = Loaded q | _ \<Rightarrow> False)"
  "mm_stage (snd (prepare_prewarm b mm)) = mm_stage mm \<or> mm_stage (snd (prepare_prewarm b mm)) = Unlocked
   \<or> (case mm_stage mm of Loaded q \<Rightarrow> pr_engine q = qwen \<and> mm_stage (snd (prepare_prewarm b mm)) = Prewarming q | _ \<Rightarrow> False)"
  "mm_stage (snd (invalidate_end z mm)) = mm_stage mm \<or> mm_stage (snd (invalidate_end z mm)) = Unlocked"
proof -
  show "mm_stage (snd (prepare_aligned r mm)) = mm_stage mm \<or> mm_stage (snd (prepare_aligned r mm)) = Unlocked
   \<or> (case mm_stage mm of Aligning q \<Rightarrow> mm_stage (snd (prepare_aligned r mm)) = Aligned q | _ \<Rightarrow> False)"
    by (simp add: prepare_aligned_def Let_def split: prepare_stage.split sum.split option.split bool.split)
  show "mm_stage (snd (prepare_prewarm b mm)) = mm_stage mm \<or> mm_stage (snd (prepare_prewarm b mm)) = Unlocked
   \<or> (case mm_stage mm of Loaded q \<Rightarrow> pr_engine q = qwen \<and> mm_stage (snd (prepare_prewarm b mm)) = Prewarming q | _ \<Rightarrow> False)"
    by (simp add: prepare_prewarm_def split: prepare_stage.split)
  show "mm_stage (snd (invalidate_end z mm)) = mm_stage mm \<or> mm_stage (snd (invalidate_end z mm)) = Unlocked"
    by (simp add: invalidate_end_def Let_def reset_selected_voice_prompt_def split: prepare_stage.split sum.split)
  show "mm_stage (snd (prepare_switch l u mm)) = mm_stage mm \<or> mm_stage (snd (prepare_switch l u mm)) = Unlocked
   \<or> (case mm_stage mm of Aligned q \<Rightarrow> mm_stage (snd (prepare_switch l u mm)) = Loaded q | _ \<Rightarrow> False)"
    by (cases "mm_stage mm") (simp_all add: prepare_switch_def Let_def split_beta split: sum.split)
qed

lemma prepare_end_cases:
  obtains (kept) "lease_view (snd (prepare_end r mm)) = lease_view mm" "mm_stage (snd (prepare_end r mm)) \<in> {Unlocked, mm_stage mm}"
  | (granted) q m1 m where "mm_stage mm = Prewarming q" "lease_view m1 = lease_view mm" "take_lease q m1 = Inr m"
      "snd (prepare_end r mm) = m" "mm_stage m = Unlocked"
proof (cases "mm_stage mm")
  case (Prewarming q)
  show ?thesis
  proof (cases r)
    case (Inl c)
    then show ?thesis using Prewarming kept by (cases c) (simp add: prepare_end_def Let_def)
  next
    case (Inr z)
    let ?m = "mm\<lparr>mm_stage := Unlocked, mm_prompt := (mm_prompt mm)\<lparr>vp_state := ''ready'', vp_error := None\<rparr>,
                 mm_prompt_key := Some (pr_key q)\<rparr>"
    have eq: "prepare_end r mm = (case take_lease q ?m of Inl e \<Rightarrow> (Refused e, ?m) | Inr m \<Rightarrow> (Prepared, m))"
      by (simp add: prepare_end_def Prewarming Inr Let_def split: sum.split)
    show ?thesis
    proof (cases "take_lease q ?m")
      case (Inl e)
      then show ?thesis using kept by (simp add: eq)
    next
      case (Inr m)
      then show ?thesis using granted [of q ?m m] Prewarming take_lease_kept(3) [OF Inr] by (simp add: eq)
    qed
  qed
qed (use kept in \<open>simp_all add: prepare_end_def\<close>)

lemma release_view:
  "lease_ok mm \<Longrightarrow> lease_ok (snd (release_tts_prompt_lease w mm))"
  "mm_stage (snd (release_tts_prompt_lease w mm)) = mm_stage mm"
  "leases v x k mm \<Longrightarrow> v \<noteq> w \<Longrightarrow> leases v x k (snd (release_tts_prompt_lease w mm))"
  by (auto simp: release_tts_prompt_lease_def Let_def lease_ok_def leases_def clear_qwen_prompt_lease_def)

lemma shutdown_view:
  "lease_view (snd (shutdown u mm)) = lease_view mm \<or> lease_view (snd (shutdown u mm)) = ({}, None, None)"
  "mm_stage (snd (shutdown u mm)) = mm_stage mm"
  by (simp_all add: shutdown_def Let_def lease_view_def clear_qwen_prompt_lease_def reset_selected_voice_prompt_def)

lemma op_resident:
  "resident_ok mm \<Longrightarrow> manager_enabled a mm \<Longrightarrow> resident_ok (apply_manager_op a mm)"
  by (cases a) (simp_all add: startup_ok switch_ok shutdown_ok prepare_begin_resident prepare_aligned_resident
      prepare_switch_resident prepare_rest_resident)

lemma prepare_begin_ok:
  assumes "lease_ok mm" "mm_stage mm = Unlocked"
  shows "lease_ok (snd (prepare_begin e v w k mm))
    \<and> stage_fits (mm_stage (snd (prepare_begin e v w k mm))) (snd (prepare_begin e v w k mm))"
proof (cases rule: prepare_begin_cases [of e v w k mm])
  case (taken q m)
  then show ?thesis
    using take_lease_ok [OF taken(2) assms(1)] take_lease_kept(3) [OF taken(2)] assms(2) by simp
next
  case (waits q)
  let ?m = "(select_prompt q mm)\<lparr>mm_stage := (if e = qwen then Aligning q else Aligned q)\<rparr>"
  have view: "lease_view ?m = lease_view mm" by simp
  have "stage_fits (mm_stage ?m) ?m"
    using waits(2) stage_fits_view [OF view] by (cases "e = qwen") simp_all
  then show ?thesis using lease_ok_view [OF view] assms(1) waits(3) by simp
qed (use assms in simp)

lemma op_lease:
  assumes "lease_ok mm" "stage_fits (mm_stage mm) mm" "manager_enabled a mm"
  shows "lease_ok (apply_manager_op a mm)
    \<and> stage_fits (mm_stage (apply_manager_op a mm)) (apply_manager_op a mm)"
proof -
  have same: "lease_ok m \<and> stage_fits (mm_stage m) m"
    if "lease_view m = lease_view mm" "stage_fits (mm_stage m) mm" for m
    using that assms(1) lease_ok_view stage_fits_view by blast
  note next_ = mid_stage_next [where mm = mm]
  have fits: "stage_fits st mm" if "st = mm_stage mm \<or> st = Unlocked \<or> P st" "P st \<Longrightarrow> stage_fits st mm" for st P
    using that assms(2) by auto
  show ?thesis
  proof (cases a)
    case (Startup ads l u d)
    then show ?thesis using same [of "startup ads l u d mm"] startup_view [of ads l u d mm] assms(2) by simp
  next
    case (Switch l u e)
    then show ?thesis using same [of "snd (switch_tts_engine l u e mm)"] switch_view [of l u e mm] assms(2) by simp
  next
    case (Shutdown u)
    from shutdown_view(1) [of u mm] show ?thesis
    proof
      assume "lease_view (snd (shutdown u mm)) = lease_view mm"
      then show ?thesis using Shutdown same [of "snd (shutdown u mm)"] shutdown_view(2) [of u mm] assms(2) by simp
    next
      assume "lease_view (snd (shutdown u mm)) = ({}, None, None)"
      then show ?thesis
        using Shutdown assms(2) shutdown_view(2) [of u mm]
        by (cases "mm_stage mm") (simp_all add: lease_view_def lease_ok_def request_ok_def competing_prompt_def)
    qed
  next
    case (Prepare e v w k)
    then show ?thesis using prepare_begin_ok [OF assms(1)] assms(3) by simp
  next
    case (Prepare_aligned r)
    have "stage_fits (mm_stage (snd (prepare_aligned r mm))) mm"
      using next_(1) [of r] assms(2) by (cases "mm_stage mm") (auto simp: request_ok_def)
    then show ?thesis using Prepare_aligned same mid_stage_view(1) [of r mm] by simp
  next
    case (Prepare_switch l u)
    have "stage_fits (mm_stage (snd (prepare_switch l u mm))) mm"
      using next_(2) [of l u] assms(2) by (cases "mm_stage mm") auto
    then show ?thesis using Prepare_switch same mid_stage_view(2) [of l u mm] by simp
  next
    case (Prepare_prewarm b)
    have "stage_fits (mm_stage (snd (prepare_prewarm b mm))) mm"
      using next_(3) [of b] assms(2) by (cases "mm_stage mm") (auto simp: request_ok_def)
    then show ?thesis using Prepare_prewarm same mid_stage_view(3) [of b mm] by simp
  next
    case (Prepare_end r)
    show ?thesis
    proof (cases rule: prepare_end_cases [of r mm])
      case kept
      then show ?thesis using Prepare_end same [of "snd (prepare_end r mm)"] assms(2) by auto
    next
      case (granted q m1 m)
      then show ?thesis
        using Prepare_end take_lease_ok [OF granted(3)] lease_ok_view [OF granted(2)] assms(1) by simp
    qed
  next
    case (Release_lease w)
    then show ?thesis using release_view(1) [OF assms(1)] release_view(2) [of w mm] assms(3) by simp
  next
    case (Invalidate e v x y)
    then show ?thesis
      using same [OF mid_stage_view(4)] assms(2,3) by (simp add: invalidate_begin_def)
  next
    case (Invalidate_end z)
    have "stage_fits (mm_stage (snd (invalidate_end z mm))) mm" using next_(4) [of z] assms(2) by auto
    then show ?thesis using same [OF mid_stage_view(5)] Invalidate_end by simp
  qed
qed

lemma manager_ok_new: "manager_ok new_manager"
  by (simp add: manager_ok_def new_manager_def resident_ok_def lease_ok_def engine_ids_def fresh_status_def
      split: if_split_asm)

interpretation engines: machine manager_init manager_step manager_ok
proof unfold_locales
  show "manager_init s \<Longrightarrow> manager_ok s" for s
    by (simp add: manager_init_def manager_ok_new)
  show "manager_ok t" if "manager_step s l t" "manager_ok s" for s l t
    using that(1)
  proof (rule manager_stepE)
    assume "t = apply_manager_op l s" "manager_enabled l s"
    then show "manager_ok t" using that(2) op_resident op_lease unfolding manager_ok_def by blast
  qed
qed

section \<open>What a lease gives\<close>

primrec ends_lease :: "string \<Rightarrow> manager_op \<Rightarrow> bool" where
  "ends_lease w (Startup ads l u d) = False"
| "ends_lease w (Switch l u e) = False"
| "ends_lease w (Shutdown u) = True"
| "ends_lease w (Prepare e v o1 k) = (o1 = Some w)"
| "ends_lease w (Prepare_aligned r) = False"
| "ends_lease w (Prepare_switch l u) = False"
| "ends_lease w (Prepare_prewarm b) = False"
| "ends_lease w (Prepare_end r) = False"
| "ends_lease w (Release_lease v) = (v = w)"
| "ends_lease w (Invalidate e v b c) = False"
| "ends_lease w (Invalidate_end r) = False"

lemma op_leases:
  assumes "leases w v k mm" "stage_owner (mm_stage mm) \<noteq> Some w" "\<not> ends_lease w a"
  shows "leases w v k (apply_manager_op a mm) \<and> stage_owner (mm_stage (apply_manager_op a mm)) \<noteq> Some w"
proof -
  have same: "leases w v k m" if "lease_view m = lease_view mm" for m
    using that assms(1) leases_view by blast
  note next_ = mid_stage_next [where mm = mm]
  show ?thesis
  proof (cases a)
    case (Startup ads l u d)
    then show ?thesis using same [of "startup ads l u d mm"] startup_view [of ads l u d mm] assms(2) by simp
  next
    case (Switch l u e)
    then show ?thesis using same [of "snd (switch_tts_engine l u e mm)"] switch_view [of l u e mm] assms(2) by simp
  next
    case (Prepare e x y z)
    show ?thesis
    proof (cases rule: prepare_begin_cases [of e x y z mm])
      case (taken q m)
      then show ?thesis
        using Prepare take_lease_leases(2) [OF taken(2) assms(1)] take_lease_kept(3) [OF taken(2)] assms(2,3) by simp
    next
      case (waits q)
      then show ?thesis using Prepare assms(2,3) same [of "snd (prepare_begin e x y z mm)"] by simp
    qed (use Prepare assms in simp)
  next
    case (Prepare_aligned r)
    then show ?thesis using same [OF mid_stage_view(1)] next_(1) [of r] assms(2) by (cases "mm_stage mm") auto
  next
    case (Prepare_switch l u)
    then show ?thesis using same [OF mid_stage_view(2)] next_(2) [of l u] assms(2) by (cases "mm_stage mm") auto
  next
    case (Prepare_prewarm b)
    then show ?thesis using same [OF mid_stage_view(3)] next_(3) [of b] assms(2) by (cases "mm_stage mm") auto
  next
    case (Prepare_end r)
    show ?thesis
    proof (cases rule: prepare_end_cases [of r mm])
      case kept
      then show ?thesis using Prepare_end same [OF kept(1)] assms(2) by auto
    next
      case (granted q m1 m)
      then show ?thesis
        using Prepare_end take_lease_leases(2) [OF granted(3) same [OF granted(2), folded leases_def]] assms(2) by simp
    qed
  next
    case (Release_lease x)
    then show ?thesis using release_view(3) [OF assms(1), of x] release_view(2) [of x mm] assms(2,3) by simp
  next
    case (Invalidate e x y z)
    then show ?thesis using same [OF mid_stage_view(4)] assms(2) by (simp add: invalidate_begin_def)
  next
    case (Invalidate_end z)
    then show ?thesis using same [OF mid_stage_view(5)] next_(4) [of z] assms(2) by auto
  qed (use assms(3) in simp)
qed

lemma run_leases:
  "run_of manager_step mm ops mm' \<Longrightarrow> \<forall>a \<in> set ops. \<not> ends_lease w a \<Longrightarrow> leases w v k mm
   \<Longrightarrow> stage_owner (mm_stage mm) \<noteq> Some w \<Longrightarrow> leases w v k mm'"
proof (induction rule: run_of.induct)
  case (run_cons s l t ls u)
  then show ?case using op_leases [of w v k s l] by (auto elim!: manager_stepE)
qed simp


text \<open>
  \<^bold>\<open>C8\<close>. A lease is kept. While a live call holds the lease of a prompt and does not itself prepare
  another, no run takes the prompt away from it, whatever other calls prepare, switch, release or
  invalidate: only the call's own release and the shut-down end it.
\<close>

theorem lease_identity_is_kept:
  assumes "run_of manager_step mm ops mm'" "\<forall>a \<in> set ops. \<not> ends_lease w a"
    and "leases w v k mm" "stage_owner (mm_stage mm) \<noteq> Some w"
  shows "leases w v k mm'"
  using run_leases [OF assms] .


section \<open>A manager with a live call\<close>

definition call_ops :: "manager_op list" where
  "call_ops = [Prepare qwen ''v'' (Some ''a'') (Inr ''k''), Prepare_aligned (Inr True),
     Prepare_switch (\<lambda>_. True) (\<lambda>_. True), Prepare_prewarm True]"

definition warming_manager :: model_manager where
  "warming_manager = foldl (\<lambda>m a. apply_manager_op a m) new_manager call_ops"

definition live_manager :: model_manager where
  "live_manager = apply_manager_op (Prepare_end (Inr ())) warming_manager"

lemmas prepare_eval = prepare_begin_def prepare_aligned_def prepare_switch_def prepare_prewarm_def prepare_end_def
  competing_prompt_def same_ready_prompt_def select_prompt_def take_lease_def set_qwen_prompt_lease_def
  switch_tts_engine_def revive_engine_def unload_previous_def load_engine_def set_status_def
  reset_selected_voice_prompt_def new_manager_def no_prompt_def engine_ids_def fresh_status_def call_ops_def

lemma manager_reach_op:
  "reach manager_init manager_step mm \<Longrightarrow> manager_enabled a mm \<Longrightarrow> reach manager_init manager_step (apply_manager_op a mm)"
  by (rule reach.reach_step, assumption, rule manager_op)

lemma warming_stage:
  "mm_stage warming_manager
    = Prewarming \<lparr>pr_engine = qwen, pr_voice = ''v'', pr_key = ''k'', pr_owner = Some ''a''\<rparr>"
  by (simp add: warming_manager_def prepare_eval dset_def)

lemma warming_reach: "reach manager_init manager_step warming_manager"
proof -
  have "reach manager_init manager_step new_manager"
    by (rule reach.reach_init) (simp add: manager_init_def)
  then show ?thesis
    unfolding warming_manager_def call_ops_def foldl.simps
    by (intro manager_reach_op) (simp_all add: new_manager_def)
qed

lemma live_reach: "reach manager_init manager_step live_manager"
  unfolding live_manager_def by (rule manager_reach_op [OF warming_reach]) simp

lemma revive_available:
  "dget (mm_statuses mm) e = Some x \<Longrightarrow> es_available x \<Longrightarrow> revive_engine e mm = mm"
  by (simp add: revive_engine_def set_status_def dset_def update_triv)

lemma switch_leased:
  assumes "dget (mm_statuses mm) e = Some x" "es_available x" "mm_resident mm = Some qwen" "mm_owners mm \<noteq> {}" "e \<noteq> qwen"
  shows "switch_tts_engine l u e mm = (Inl Prompt_leased, mm)"
  using assms revive_available [OF assms(1,2)] by (simp add: switch_tts_engine_def Let_def)


theorem lease_identity_is_kept_witness:
  "leases ''a'' ''v'' ''k'' (apply_manager_op (Prepare qwen ''u'' (Some ''b'') (Inr ''l'')) live_manager)"
proof (rule lease_identity_is_kept)
  show "run_of manager_step live_manager [Prepare qwen ''u'' (Some ''b'') (Inr ''l'')]
      (apply_manager_op (Prepare qwen ''u'' (Some ''b'') (Inr ''l'')) live_manager)"
  proof (rule run_of.run_cons, rule manager_op)
    show "manager_enabled (Prepare qwen ''u'' (Some ''b'') (Inr ''l'')) live_manager"
      by (simp add: live_manager_def warming_manager_def prepare_eval dset_def)
  qed (rule run_of.run_nil)
  show "leases ''a'' ''v'' ''k'' live_manager" "stage_owner (mm_stage live_manager) \<noteq> Some ''a''"
    by (simp_all add: live_manager_def warming_manager_def prepare_eval dset_def leases_def)
qed simp


text \<open>
  A preparation that the lease refuses still spoils the leased prompt. While a live call holds
  the ready prompt of the resident Qwen engine, preparing another available engine is refused with
  the lease error, and the engine and the lease stay; but the selected prompt is already replaced,
  so that the prompt of the live call is no longer ready, and the refused engine is left as the one
  that is loading.
\<close>

theorem refused_prepare_spoils_the_leased_prompt:
  assumes "mm_resident mm = Some qwen" "leases w v k mm" "is_tts_prompt_ready qwen v None mm"
    and "is_available e mm" "e \<noteq> qwen" "u \<noteq> []" "length u \<le> 128"
    and "mm1 = snd (prepare_begin e u None key mm)"
  shows "fst (prepare_switch l ul mm1) = Refused Prompt_leased
    \<and> mm_resident (snd (prepare_switch l ul mm1)) = Some qwen
    \<and> leases w v k (snd (prepare_switch l ul mm1))
    \<and> \<not> is_tts_prompt_ready qwen v None (snd (prepare_switch l ul mm1))
    \<and> mm_loading (snd (prepare_switch l ul mm1)) = Some e"
proof -
  let ?q = "\<lparr>pr_engine = e, pr_voice = u, pr_key = [], pr_owner = None\<rparr>"
  obtain x where x: "dget (mm_statuses mm) e = Some x" "es_available x"
    using available_Some [OF assms(4)] by blast
  have begun: "mm1 = (select_prompt ?q mm)\<lparr>mm_stage := Aligned ?q\<rparr>"
    using assms(5-8) x by (simp add: prepare_begin_def same_ready_prompt_def Let_def)
  let ?m = "set_status e (\<lambda>x. x\<lparr>es_state := ''loading''\<rparr>) (mm1\<lparr>mm_loading := Some e\<rparr>)"
  have status: "dget (mm_statuses ?m) e = Some (x\<lparr>es_state := ''loading''\<rparr>)"
    using x by (simp add: begun select_prompt_def)
  have lease: "mm_resident ?m = Some qwen" "leases w v k ?m" "mm_owners ?m \<noteq> {}"
    using assms(1,2) by (auto simp: begun select_prompt_def leases_def)
  have "switch_tts_engine l ul e ?m = (Inl Prompt_leased, ?m)"
    by (rule switch_leased [OF status _ lease(1,3) assms(5)]) (simp add: x(2))
  then have "prepare_switch l ul mm1 = (Refused Prompt_leased, ?m\<lparr>mm_stage := Unlocked\<rparr>)"
    using assms(1,5) by (simp add: prepare_switch_def begun select_prompt_def Let_def)
  then show ?thesis
    using lease assms(5) leases_view [of "?m\<lparr>mm_stage := Unlocked\<rparr>" ?m w v k]
    by (simp add: is_tts_prompt_ready_def begun select_prompt_def)
qed

theorem refused_prepare_spoils_the_leased_prompt_witness:
  "mm_loading (snd (prepare_switch (\<lambda>_. True) (\<lambda>_. True)
      (snd (prepare_begin ''f5'' ''u'' None (Inr ''z'') live_manager)))) = Some ''f5''"
proof -
  have "mm_resident live_manager = Some qwen" "leases ''a'' ''v'' ''k'' live_manager"
    "is_tts_prompt_ready qwen ''v'' None live_manager" "is_available ''f5'' live_manager"
    by (simp_all add: live_manager_def warming_manager_def prepare_eval dset_def leases_def
        is_tts_prompt_ready_def is_available_def)
  from refused_prepare_spoils_the_leased_prompt [OF this _ _ _ refl, of "''u''" "\<lambda>_. True" "\<lambda>_. True" "Inr ''z''"]
  show ?thesis by simp
qed

end
