(* ===== verification/QwenProtocol.thy ===== *)
theory QwenProtocol
  imports PyValue
begin

text \<open>
  \<open>ai-backend/app/models/tts_qwen3_protocol.py\<close>: the commands and events that the adapter of the Qwen
  engine and its worker process exchange, the constraints that their models declare, the bounded
  base64 fields, and the validator of the events of one stream. The checks that pydantic derives from
  the field declarations are predicates on typed values (\<open>command_ok\<close>, \<open>event_ok\<close>); its coercions
  and the JSON text are not modelled. Bytes are natural numbers below 256 and the floats of the
  protocol are rationals.
\<close>

section \<open>Base64\<close>

definition b64_char :: "nat \<Rightarrow> nat" where
  "b64_char v = (if v < 26 then 65 + v else if v < 52 then 71 + v else if v < 62 then v - 4
     else if v = 62 then 43 else 47)"

definition b64_value :: "nat \<Rightarrow> nat option" where
  "b64_value c = (if 65 \<le> c \<and> c \<le> 90 then Some (c - 65) else if 97 \<le> c \<and> c \<le> 122 then Some (c - 71)
     else if 48 \<le> c \<and> c \<le> 57 then Some (c + 4) else if c = 43 then Some 62 else if c = 47 then Some 63
     else None)"

definition pad_char :: nat where
  "pad_char = 61"

fun b64encode :: "nat list \<Rightarrow> ptext" where
  "b64encode [] = []"
| "b64encode [a] = [b64_char (a div 4), b64_char (a mod 4 * 16), pad_char, pad_char]"
| "b64encode [a, b] =
     [b64_char (a div 4), b64_char (a mod 4 * 16 + b div 16), b64_char (b mod 16 * 4), pad_char]"
| "b64encode (a # b # c # r) =
     b64_char (a div 4) # b64_char (a mod 4 * 16 + b div 16) # b64_char (b mod 16 * 4 + c div 64)
       # b64_char (c mod 64) # b64encode r"

text \<open>
  \<open>b64decode(_, validate=True)\<close>, which is \<open>binascii.a2b_base64\<close> in its strict mode: the position in
  the group of four, the bits left over from the character before, the number of pads read and
  whether a pad was read. A complete padding ends the text; a pad in front of it, or at the start of a
  group, is skipped but forbids further data.
\<close>

fun b64run :: "nat \<Rightarrow> nat \<Rightarrow> nat \<Rightarrow> bool \<Rightarrow> ptext \<Rightarrow> nat list option" where
  "b64run q left pads padded [] = (if q = 0 then Some [] else None)"
| "b64run q left pads padded (c # t) =
     (if c = pad_char then
        if 2 \<le> q
        then if 4 \<le> q + Suc pads then if t = [] then Some [] else None
             else b64run q left (Suc pads) True t
        else b64run q left pads True t
      else case b64_value c of
             None \<Rightarrow> None
           | Some v \<Rightarrow>
               if padded then None
               else if q = 0 then b64run 1 v 0 False t
               else if q = 1 then map_option ((#) (left * 4 + v div 16)) (b64run 2 (v mod 16) 0 False t)
               else if q = 2 then map_option ((#) (left * 16 + v div 4)) (b64run 3 (v mod 4) 0 False t)
               else map_option ((#) (left * 64 + v)) (b64run 0 0 0 False t))"

definition b64decode :: "ptext \<Rightarrow> nat list option" where
  "b64decode t = (if t \<noteq> [] \<and> hd t = pad_char then None else b64run 0 0 0 False t)"

lemma b64_char_value [simp]: "v < 64 \<Longrightarrow> b64_value (b64_char v) = Some v"
  by (auto simp: b64_char_def b64_value_def)

lemma b64_char_no_pad [simp]: "b64_char v \<noteq> pad_char"
  by (auto simp: b64_char_def pad_char_def)

lemma b64run_char:
  assumes "v < 64"
  shows "b64run 0 l p False (b64_char v # t) = b64run (Suc 0) v 0 False t"
    "b64run (Suc 0) l p False (b64_char v # t) = map_option ((#) (l * 4 + v div 16)) (b64run 2 (v mod 16) 0 False t)"
    "b64run 2 l p False (b64_char v # t) = map_option ((#) (l * 16 + v div 4)) (b64run 3 (v mod 4) 0 False t)"
    "b64run 3 l p False (b64_char v # t) = map_option ((#) (l * 64 + v)) (b64run 0 0 0 False t)"
  using assms by simp_all

lemma b64run_pads:
  "b64run 2 l 0 False [pad_char, pad_char] = Some []" "b64run 3 l 0 False [pad_char] = Some []"
  by simp_all

lemma byte_digits:
  fixes a b :: nat
  assumes "a < 256" "b < 256"
  shows "a div 4 < 64" "a mod 4 * 16 + b div 16 < 64" "b mod 16 * 4 + a div 64 < 64"
proof -
  have "a mod 4 < 4" "b mod 16 < 16" by simp_all
  moreover have "a div 64 < 4" "b div 16 < 16" using assms by (simp_all add: less_mult_imp_div_less)
  ultimately show "a mod 4 * 16 + b div 16 < 64" "b mod 16 * 4 + a div 64 < 64" by linarith+
  show "a div 4 < 64" using assms by (simp add: less_mult_imp_div_less)
qed

lemma high_digit:
  fixes a b :: nat
  shows "b < 256 \<Longrightarrow> a div 4 * 4 + (a mod 4 * 16 + b div 16) div 16 = a"
    and "b < 256 \<Longrightarrow> (a mod 4 * 16 + b div 16) mod 16 = b div 16"
  by (simp_all add: less_mult_imp_div_less)

lemma digits_join:
  fixes b c :: nat
  assumes "c < 256"
  shows "(b mod 16 * 4 + c div 64) div 4 = b mod 16" "(b mod 16 * 4 + c div 64) mod 4 = c div 64"
proof -
  have "c div 64 < 4" using assms by (simp add: less_mult_imp_div_less)
  then show "(b mod 16 * 4 + c div 64) div 4 = b mod 16" "(b mod 16 * 4 + c div 64) mod 4 = c div 64"
    by simp_all
qed

lemmas b64_digits = byte_digits high_digit digits_join

lemma b64run_encode:
  "\<forall>b\<in>set bs. b < 256 \<Longrightarrow> b64run 0 0 0 False (b64encode bs) = Some bs"
proof (induction bs rule: b64encode.induct)
  case (2 a)
  then have a: "a < 256" by simp
  show ?case
    using byte_digits(1) [OF a a] byte_digits(2) [of a 0] a high_digit(1) [of 0 a]
    by (simp add: b64run_char b64run_pads del: b64run.simps)
next
  case (3 a b)
  then have ab: "a < 256" "b < 256" by simp_all
  show ?case
    using byte_digits [OF ab] byte_digits(3) [of 0 b] ab high_digit [of b a]
    by (simp add: b64run_char b64run_pads del: b64run.simps)
next
  case (4 a b c r)
  then have abc: "a < 256" "b < 256" "c < 256" by simp_all
  show ?case
    using 4 byte_digits [OF abc(1,2)] byte_digits(3) [OF abc(3,2)] high_digit [of b a] digits_join [of c b]
    by (simp add: b64run_char del: b64run.simps)
qed simp

lemma hd_b64encode: "bs \<noteq> [] \<Longrightarrow> hd (b64encode bs) \<noteq> pad_char"
  by (cases bs rule: b64encode.cases) simp_all

lemma b64decode_encode: "\<forall>b\<in>set bs. b < 256 \<Longrightarrow> b64decode (b64encode bs) = Some bs"
  by (cases "bs = []") (simp_all add: b64decode_def hd_b64encode b64run_encode)

lemma length_b64encode: "length (b64encode bs) = 4 * ((length bs + 2) div 3)"
proof (induction bs rule: b64encode.induct)
  case (4 a b c r)
  have "length (a # b # c # r) + 2 = length r + 2 + 3" by simp
  then show ?case using 4 by (simp only: div_add_self2) simp
qed simp_all

lemma length_b64run:
  "b64run q left pads padded t = Some bs \<Longrightarrow> q < 4 \<Longrightarrow>
   4 * length bs \<le> 3 * length t + (if q = 0 then 0 else 4 - q)"
proof (induction t arbitrary: q left pads padded bs)
  case (Cons c t)
  show ?case
  proof (cases "c = pad_char")
    case True
    then show ?thesis using Cons.prems Cons.IH [of q left pads True bs] Cons.IH [of q left "Suc pads" True bs]
      by (simp split: if_splits)
  next
    case False
    then obtain v where v: "b64_value c = Some v" "\<not> padded"
      using Cons.prems(1) by (auto split: option.splits if_splits)
    consider "q = 0" | "q = 1" | "q = 2" | "q = 3" using Cons.prems(2) by linarith
    then show ?thesis
    proof cases
      case 1
      then show ?thesis using Cons.prems False v Cons.IH [of 1 v 0 False bs] by simp
    next
      case 2
      then obtain r where "b64run 2 (v mod 16) 0 False t = Some r" "length bs = Suc (length r)"
        using Cons.prems False v by auto
      then show ?thesis using 2 Cons.IH [of 2 "v mod 16" 0 False r] by simp
    next
      case 3
      then obtain r where "b64run 3 (v mod 4) 0 False t = Some r" "length bs = Suc (length r)"
        using Cons.prems False v by auto
      then show ?thesis using 3 Cons.IH [of 3 "v mod 4" 0 False r] by simp
    next
      case 4
      then obtain r where "b64run 0 0 0 False t = Some r" "length bs = Suc (length r)"
        using Cons.prems False v by auto
      then show ?thesis using 4 Cons.IH [of 0 0 0 False r] by simp
    qed
  qed
qed (auto split: if_splits)

lemma length_b64decode: "b64decode t = Some bs \<Longrightarrow> 4 * length bs \<le> 3 * length t"
  using length_b64run [of 0 0 0 False t bs] by (simp add: b64decode_def split: if_splits)

section \<open>Commands and events\<close>

definition MAX_REFERENCE_AUDIO_BYTES :: int where "MAX_REFERENCE_AUDIO_BYTES = 25 * 1024 * 1024"

definition MAX_REFERENCE_AUDIO_B64_LENGTH :: int where "MAX_REFERENCE_AUDIO_B64_LENGTH = 36 * 1024 * 1024"

definition MAX_CHUNK_BYTES :: int where "MAX_CHUNK_BYTES = 8 * 1024 * 1024"

definition MAX_CHUNK_B64_LENGTH :: int where "MAX_CHUNK_B64_LENGTH = 12 * 1024 * 1024"

definition decode_bounded_base64 :: "ptext \<Rightarrow> int \<Rightarrow> string \<Rightarrow> string + nat list" where
  "decode_bounded_base64 v max_bytes label =
     (case b64decode v of
        None \<Rightarrow> Inl (''invalid '' @ label)
      | Some decoded \<Rightarrow>
          if decoded = [] then Inl (''empty '' @ label)
          else if max_bytes < int (length decoded) then Inl (''oversized '' @ label)
          else Inr decoded)"

definition ascii_alnum :: "nat \<Rightarrow> bool" where
  "ascii_alnum c \<longleftrightarrow> (65 \<le> c \<and> c \<le> 90) \<or> (97 \<le> c \<and> c \<le> 122) \<or> (48 \<le> c \<and> c \<le> 57)"

definition identifier_ok :: "ptext \<Rightarrow> bool" where
  "identifier_ok t \<longleftrightarrow> t \<noteq> [] \<and> length t \<le> 128 \<and> ascii_alnum (hd t)
     \<and> list_all (\<lambda>c. ascii_alnum c \<or> c \<in> {46, 95, 58, 45}) (tl t)"

definition error_code_ok :: "ptext \<Rightarrow> bool" where
  "error_code_ok t \<longleftrightarrow> t \<noteq> [] \<and> length t \<le> 96
     \<and> list_all (\<lambda>c. (97 \<le> c \<and> c \<le> 122) \<or> (48 \<le> c \<and> c \<le> 57) \<or> c = 95) t"

definition seed_ok :: "int option \<Rightarrow> bool" where
  "seed_ok s = (case s of None \<Rightarrow> True | Some n \<Rightarrow> 0 \<le> n \<and> n \<le> 4294967295)"

record prewarm_fields =
  pw_voice :: ptext
  pw_audio :: ptext
  pw_transcript :: ptext

record generate_fields =
  ge_version :: int
  ge_voice :: ptext
  ge_text :: ptext
  ge_tokens :: int
  ge_seconds :: rat
  ge_speaker_seed :: "int option"
  ge_seed :: "int option"
  ge_evidence_mode :: "ptext option"
  ge_evidence_seed :: "int option"

datatype command =
    Load_command (command_request: ptext)
  | Prewarm_command (command_request: ptext) prewarm_fields
  | Generate_command (command_request: ptext) generate_fields
  | Cancel_command (command_request: ptext)
  | Invalidate_command (command_request: ptext) ptext
  | Unload_command (command_request: ptext)

definition prewarm_ok :: "prewarm_fields \<Rightarrow> bool" where
  "prewarm_ok p \<longleftrightarrow> identifier_ok (pw_voice p)
     \<and> pw_audio p \<noteq> [] \<and> int (length (pw_audio p)) \<le> MAX_REFERENCE_AUDIO_B64_LENGTH
     \<and> (\<not> isl (decode_bounded_base64 (pw_audio p) MAX_REFERENCE_AUDIO_BYTES ''reference audio''))
     \<and> int (length (pw_transcript p)) \<le> 20000 \<and> strip (pw_transcript p) \<noteq> []"

definition paired_evidence :: "generate_fields \<Rightarrow> bool" where
  "paired_evidence g \<longleftrightarrow>
     (ge_evidence_mode g = None \<longleftrightarrow> ge_evidence_seed g = None)
     \<and> \<not> (ge_version g = 2 \<and> (ge_speaker_seed g = None \<or> ge_seed g = None))
     \<and> \<not> (ge_version g = 1 \<and> (ge_speaker_seed g \<noteq> None \<or> ge_seed g \<noteq> None))
     \<and> \<not> (ge_evidence_seed g \<noteq> None \<and> ge_version g = 2 \<and> ge_seed g \<noteq> ge_evidence_seed g)"

definition generate_ok :: "generate_fields \<Rightarrow> bool" where
  "generate_ok g \<longleftrightarrow> ge_version g \<in> {1, 2} \<and> identifier_ok (ge_voice g)
     \<and> int (length (ge_text g)) \<le> 8000 \<and> strip (ge_text g) \<noteq> []
     \<and> 4 \<le> ge_tokens g \<and> ge_tokens g \<le> 384 \<and> ge_tokens g mod 4 = 0
     \<and> 1 / 10 \<le> ge_seconds g \<and> ge_seconds g \<le> 32
     \<and> seed_ok (ge_speaker_seed g) \<and> seed_ok (ge_seed g) \<and> seed_ok (ge_evidence_seed g)
     \<and> ge_evidence_mode g \<in> {None, Some (lit ''phase09_release_evidence'')} \<and> paired_evidence g"

definition command_ok :: "command \<Rightarrow> bool" where
  "command_ok c \<longleftrightarrow> identifier_ok (command_request c)
     \<and> (case c of
          Prewarm_command _ p \<Rightarrow> prewarm_ok p
        | Generate_command _ g \<Rightarrow> generate_ok g
        | Invalidate_command _ voice \<Rightarrow> identifier_ok voice
        | _ \<Rightarrow> True)"

record chunk =
  ch_index :: int
  ch_wav :: ptext
  ch_duration :: rat
  ch_at :: rat
  ch_steps :: int
  ch_reserved :: rat

datatype terminal_kind = Stream_done | Stream_cancelled | Stream_error

record terminal =
  te_kind :: terminal_kind
  te_count :: int
  te_eos :: bool
  te_code :: "ptext option"

datatype worker_event =
    Loaded_event (event_request: ptext) rat
  | Prompt_ready_event (event_request: ptext) ptext
  | Prompt_failed_event (event_request: ptext) ptext ptext
  | Invalidated_event (event_request: ptext) ptext bool
  | Chunk_event (event_request: ptext) chunk
  | Terminal_event (event_request: ptext) terminal

definition reserved_ok :: "rat \<Rightarrow> bool" where
  "reserved_ok r \<longleftrightarrow> 0 < r \<and> r \<le> 16384"

definition chunk_ok :: "chunk \<Rightarrow> bool" where
  "chunk_ok c \<longleftrightarrow> 0 \<le> ch_index c \<and> ch_index c \<le> 4095
     \<and> ch_wav c \<noteq> [] \<and> int (length (ch_wav c)) \<le> MAX_CHUNK_B64_LENGTH
     \<and> (\<not> isl (decode_bounded_base64 (ch_wav c) MAX_CHUNK_BYTES ''audio chunk''))
     \<and> 0 < ch_duration c \<and> ch_duration c \<le> 2000
     \<and> 0 \<le> ch_at c \<and> ch_at c \<le> 3600000 \<and> 1 \<le> ch_steps c \<and> ch_steps c \<le> 384
     \<and> reserved_ok (ch_reserved c)"

definition stream_terminal_ok :: "terminal \<Rightarrow> bool" where
  "stream_terminal_ok t \<longleftrightarrow> 0 \<le> te_count t \<and> te_count t \<le> 4096
     \<and> (case te_code t of None \<Rightarrow> True | Some code \<Rightarrow> error_code_ok code)
     \<and> (case te_kind t of
          Stream_done \<Rightarrow> te_eos t \<and> te_code t = None
        | Stream_cancelled \<Rightarrow> \<not> te_eos t \<and> te_code t = None
        | Stream_error \<Rightarrow> \<not> te_eos t \<and> te_code t \<noteq> None)"

definition event_ok :: "worker_event \<Rightarrow> bool" where
  "event_ok e \<longleftrightarrow> identifier_ok (event_request e)
     \<and> (case e of
          Loaded_event _ r \<Rightarrow> reserved_ok r
        | Prompt_ready_event _ voice \<Rightarrow> identifier_ok voice
        | Prompt_failed_event _ voice code \<Rightarrow> identifier_ok voice \<and> error_code_ok code
        | Invalidated_event _ voice _ \<Rightarrow> identifier_ok voice
        | Chunk_event _ c \<Rightarrow> chunk_ok c
        | Terminal_event _ t \<Rightarrow> stream_terminal_ok t)"

section \<open>The validator of a stream\<close>

record stream_validator =
  va_request :: ptext
  va_ceiling :: rat
  va_next :: int
  va_at :: rat
  va_steps :: int
  va_total :: rat
  va_terminal :: "terminal option"

definition new_validator :: "ptext \<Rightarrow> rat \<Rightarrow> string + stream_validator" where
  "new_validator request limit =
     (if \<not> identifier_ok request then Inl ''request_id''
      else if limit \<le> 0 \<or> 32000 < limit then Inl ''invalid cumulative audio ceiling''
      else Inr \<lparr>va_request = request, va_ceiling = limit, va_next = 0, va_at = -1, va_steps = 0,
             va_total = 0, va_terminal = None\<rparr>)"

definition accept :: "stream_validator \<Rightarrow> worker_event \<Rightarrow> string + stream_validator" where
  "accept v e =
     (if va_terminal v \<noteq> None then Inl ''worker event arrived after terminal''
      else if event_request e \<noteq> va_request v then Inl ''worker event request mismatch''
      else case e of
        Chunk_event _ c \<Rightarrow>
          if ch_index c \<noteq> va_next v then Inl ''worker chunk index is not monotonic''
          else if ch_at c < va_at v then Inl ''worker generated time is not monotonic''
          else if ch_steps c \<le> va_steps v then Inl ''worker generation steps are not monotonic''
          else if va_ceiling v < va_total v + ch_duration c then Inl ''worker audio exceeded request ceiling''
          else Inr (v\<lparr>va_next := va_next v + 1, va_at := ch_at c, va_steps := ch_steps c,
                      va_total := va_total v + ch_duration c\<rparr>)
      | Terminal_event _ t \<Rightarrow>
          if te_count t \<noteq> va_next v then Inl ''worker terminal chunk count mismatch''
          else Inr (v\<lparr>va_terminal := Some t\<rparr>)
      | _ \<Rightarrow> Inl ''non-stream worker event in stream'')"

text \<open>The events of a stream one after the other, as the adapter hands them to the validator.\<close>

fun accept_all :: "stream_validator \<Rightarrow> worker_event list \<Rightarrow> string + stream_validator" where
  "accept_all v [] = Inr v"
| "accept_all v (e # es) = bind_res (accept v e) (\<lambda>v'. accept_all v' es)"

text \<open>
  What the validator promises, over the whole stream: chunks of the request, numbered from zero, with
  times that never fall, step counts that always rise and a total below the ceiling, and at most one
  terminal, which is last and counts the chunks.
\<close>

fun chunks_of :: "worker_event list \<Rightarrow> chunk list" where
  "chunks_of [] = []"
| "chunks_of (Chunk_event _ c # es) = c # chunks_of es"
| "chunks_of (_ # es) = chunks_of es"

definition stream_from :: "int \<Rightarrow> rat \<Rightarrow> int \<Rightarrow> rat \<Rightarrow> ptext \<Rightarrow> rat \<Rightarrow> worker_event list \<Rightarrow> bool" where
  "stream_from i t n sofar request limit es =
     (let cs = chunks_of es in
      (es = map (Chunk_event request) cs
       \<or> (case last es of
            Terminal_event _ e \<Rightarrow>
              es = map (Chunk_event request) cs @ [Terminal_event request e] \<and> te_count e = i + int (length cs)
          | _ \<Rightarrow> False))
      \<and> map ch_index cs = map (\<lambda>k. i + int k) [0..<length cs]
      \<and> sorted (t # map ch_at cs) \<and> sorted_wrt (<) (n # map ch_steps cs)
      \<and> sofar + sum_list (map ch_duration cs) \<le> limit)"

definition stream_ok :: "ptext \<Rightarrow> rat \<Rightarrow> worker_event list \<Rightarrow> bool" where
  "stream_ok request limit es \<longleftrightarrow> stream_from 0 (-1) 0 0 request limit es"

lemma decode_bounded_encode:
  assumes "\<forall>b\<in>set bs. b < 256" "bs \<noteq> []" "int (length bs) \<le> n"
  shows "decode_bounded_base64 (b64encode bs) n label = Inr bs"
  using assms by (simp add: decode_bounded_base64_def b64decode_encode)

lemma b64encode_Nil_iff [simp]: "b64encode bs = [] \<longleftrightarrow> bs = []"
  by (cases bs rule: b64encode.cases) simp_all

lemma encoded_length_bound:
  assumes "int (length bs) \<le> n" "4 * ((n + 2) div 3) \<le> m"
  shows "int (length (b64encode bs)) \<le> m"
proof -
  have "(int (length bs) + 2) div 3 \<le> (n + 2) div 3" using assms(1) by (intro zdiv_mono1) simp_all
  then show ?thesis using assms(2) by (simp add: length_b64encode zdiv_int add.commute)
qed

lemma encoded_lengths:
  "int (length bs) \<le> MAX_REFERENCE_AUDIO_BYTES \<Longrightarrow> int (length (b64encode bs)) \<le> MAX_REFERENCE_AUDIO_B64_LENGTH"
  "int (length bs) \<le> MAX_CHUNK_BYTES \<Longrightarrow> int (length (b64encode bs)) \<le> MAX_CHUNK_B64_LENGTH"
  by (rule encoded_length_bound, assumption,
      simp add: MAX_REFERENCE_AUDIO_BYTES_def MAX_REFERENCE_AUDIO_B64_LENGTH_def MAX_CHUNK_BYTES_def
        MAX_CHUNK_B64_LENGTH_def)+

lemma after_terminal: "va_terminal v \<noteq> None \<Longrightarrow> accept_all v es = Inr w \<longleftrightarrow> es = [] \<and> w = v"
  by (cases es) (auto simp: accept_def)

lemma chunks_of_map [simp]: "chunks_of (map (Chunk_event r) cs @ es) = cs @ chunks_of es"
  by (induction cs) simp_all

lemma stream_from_Nil [simp]: "stream_from i t n sofar r c [] \<longleftrightarrow> sofar \<le> c"
  by (simp add: stream_from_def)

lemma stream_from_terminal:
  "stream_from i t n sofar r c (Terminal_event q e # es) \<longleftrightarrow>
     q = r \<and> es = [] \<and> te_count e = i \<and> sofar \<le> c"
proof (cases "es = []")
  case True
  then show ?thesis by (auto simp: stream_from_def)
next
  case False
  then show ?thesis by (cases "last es"; cases "chunks_of es") (auto simp: stream_from_def)
qed

lemma index_Cons:
  "map f (d # ds) = map (\<lambda>k. i + int k) [0..<length (d # ds)] \<longleftrightarrow>
     f d = i \<and> map f ds = map (\<lambda>k. i + 1 + int k) [0..<length ds]"
proof -
  have "[0..<length (d # ds)] = 0 # map Suc [0..<length ds]" by (simp add: map_Suc_upt upt_conv_Cons del: upt_Suc)
  then show ?thesis by (simp add: comp_def algebra_simps del: upt_Suc)
qed

lemma stream_shape_Cons:
  "(Chunk_event q d # es = map (Chunk_event r) (d # cs)
    \<or> (case last (Chunk_event q d # es) of
         Terminal_event _ e \<Rightarrow>
           Chunk_event q d # es = map (Chunk_event r) (d # cs) @ [Terminal_event r e] \<and> te_count e = i + int (length (d # cs))
       | _ \<Rightarrow> False))
   \<longleftrightarrow> q = r \<and> (es = map (Chunk_event r) cs
    \<or> (case last es of
         Terminal_event _ e \<Rightarrow>
           es = map (Chunk_event r) cs @ [Terminal_event r e] \<and> te_count e = i + 1 + int (length cs)
       | _ \<Rightarrow> False))"
  by (cases "es = []") (auto split: worker_event.splits simp: add.assoc)

lemma stream_from_chunk:
  assumes "0 \<le> sum_list (map ch_duration (chunks_of es))"
  shows "stream_from i t n sofar r c (Chunk_event q d # es) \<longleftrightarrow>
     q = r \<and> ch_index d = i \<and> t \<le> ch_at d \<and> n < ch_steps d \<and> sofar + ch_duration d \<le> c
     \<and> stream_from (i + 1) (ch_at d) (ch_steps d) (sofar + ch_duration d) r c es"
proof -
  let ?ds = "chunks_of es"
  have "sorted (t # map ch_at (d # ?ds)) \<longleftrightarrow> t \<le> ch_at d \<and> sorted (ch_at d # map ch_at ?ds)"
    by fastforce
  moreover have "sorted_wrt (<) (n # map ch_steps (d # ?ds)) \<longleftrightarrow> n < ch_steps d \<and> sorted_wrt (<) (ch_steps d # map ch_steps ?ds)"
    by fastforce
  moreover have "sofar + sum_list (map ch_duration (d # ?ds)) \<le> c \<longleftrightarrow>
      sofar + ch_duration d \<le> c \<and> sofar + ch_duration d + sum_list (map ch_duration ?ds) \<le> c"
    using assms by (auto simp: algebra_simps)
  ultimately show ?thesis
    unfolding stream_from_def Let_def chunks_of.simps stream_shape_Cons index_Cons by blast
qed

lemma stream_from_other:
  "(\<And>q d. e \<noteq> Chunk_event q d) \<Longrightarrow> (\<And>q x. e \<noteq> Terminal_event q x) \<Longrightarrow> \<not> stream_from i t n sofar r c (e # es)"
  by (cases "es = []"; cases e; cases "chunks_of es"; cases "last es") (auto simp: stream_from_def)

definition fresh_from :: "ptext \<Rightarrow> rat \<Rightarrow> int \<Rightarrow> rat \<Rightarrow> int \<Rightarrow> rat \<Rightarrow> stream_validator" where
  "fresh_from r c i t n sofar = \<lparr>va_request = r, va_ceiling = c, va_next = i, va_at = t, va_steps = n,
     va_total = sofar, va_terminal = None\<rparr>"

lemma durations_nonneg: "\<forall>e\<in>set es. event_ok e \<Longrightarrow> 0 \<le> sum_list (map ch_duration (chunks_of es))"
  by (induction es rule: chunks_of.induct) (auto simp: event_ok_def chunk_ok_def)

lemma accept_all_iff:
  assumes "\<forall>e\<in>set es. event_ok e" "sofar \<le> c"
  shows "(\<not> isl (accept_all (fresh_from r c i t n sofar) es)) \<longleftrightarrow> stream_from i t n sofar r c es"
  using assms
proof (induction es arbitrary: i t n sofar)
  case (Cons e es)
  have nonneg: "0 \<le> sum_list (map ch_duration (chunks_of es))"
    using Cons.prems(1) by (simp add: durations_nonneg)
  show ?case
  proof (cases e)
    case (Chunk_event q d)
    let ?ok = "q = r \<and> ch_index d = i \<and> t \<le> ch_at d \<and> n < ch_steps d \<and> sofar + ch_duration d \<le> c"
    have "accept (fresh_from r c i t n sofar) e =
        Inr (fresh_from r c (i + 1) (ch_at d) (ch_steps d) (sofar + ch_duration d))" if ?ok
      using that Chunk_event by (auto simp: accept_def fresh_from_def)
    moreover have "isl (accept (fresh_from r c i t n sofar) e)" if "\<not> ?ok"
      using that Chunk_event by (auto simp: accept_def fresh_from_def)
    ultimately show ?thesis
      using Cons.IH [of "sofar + ch_duration d" "i + 1" "ch_at d" "ch_steps d"] Cons.prems
      unfolding Chunk_event stream_from_chunk [OF nonneg]
      by (cases ?ok) (auto simp: isl_def Chunk_event)
  next
    case (Terminal_event q x)
    have "accept_all (v\<lparr>va_terminal := Some x\<rparr>) es = Inr w \<Longrightarrow> es = []" for v w
      using after_terminal by (metis option.distinct(1) stream_validator.select_convs(7) stream_validator.surjective stream_validator.update_convs(7))
    then show ?thesis
      using Cons.prems(2) Terminal_event
      by (cases es) (auto simp: stream_from_terminal accept_def fresh_from_def)
  qed (use stream_from_other in \<open>auto simp: accept_def fresh_from_def\<close>)
qed simp

text \<open>
  \<^bold>\<open>C28\<close>. The validator of a stream implements its contract: of the events that the parser lets through
  it accepts exactly those sequences in which every event belongs to the request, the chunks are
  numbered from zero without a gap, their times never fall, their step counts rise, their total stays
  below the ceiling, and a terminal, if there is one, is the last event and counts the chunks.
\<close>

theorem validator_accepts_contract:
  assumes "new_validator request limit = Inr v" "\<forall>e\<in>set es. event_ok e"
  shows "(\<not> isl (accept_all v es)) = stream_ok request limit es"
proof -
  have "v = fresh_from request limit 0 (-1) 0 0" "0 \<le> limit"
    using assms(1) by (auto simp: new_validator_def fresh_from_def split: if_splits)
  then show ?thesis using accept_all_iff [OF assms(2)] by (simp add: stream_ok_def)
qed

lemma validator_accepts_contract_witness:
  "(\<not> isl (accept_all (fresh_from (lit ''turn-1'') 6000 0 (-1) 0 0) [Terminal_event (lit ''turn-1'')
       \<lparr>te_kind = Stream_cancelled, te_count = 0, te_eos = False, te_code = None\<rparr>]))
   = stream_ok (lit ''turn-1'') 6000 [Terminal_event (lit ''turn-1'')
       \<lparr>te_kind = Stream_cancelled, te_count = 0, te_eos = False, te_code = None\<rparr>]
   \<and> stream_ok (lit ''turn-1'') 6000 [Terminal_event (lit ''turn-1'')
       \<lparr>te_kind = Stream_cancelled, te_count = 0, te_eos = False, te_code = None\<rparr>]"
proof
  let ?es = "[Terminal_event (lit ''turn-1'') \<lparr>te_kind = Stream_cancelled, te_count = 0, te_eos = False, te_code = None\<rparr>]"
  have a: "new_validator (lit ''turn-1'') 6000 = Inr (fresh_from (lit ''turn-1'') 6000 0 (-1) 0 0)" by code_simp
  have b: "\<forall>e\<in>set ?es. event_ok e" by code_simp
  show "(\<not> isl (accept_all (fresh_from (lit ''turn-1'') 6000 0 (-1) 0 0) ?es)) = stream_ok (lit ''turn-1'') 6000 ?es"
    by (rule validator_accepts_contract [OF a b])
  show "stream_ok (lit ''turn-1'') 6000 ?es" by code_simp
qed

text \<open>
  \<^bold>\<open>C37\<close>. Audio survives the transport: the base64 text of every non-empty clip or chunk within its limit
  of bytes is decoded to the same bytes, and this text is within the limit on the length of the field, so
  that the two limits never conflict.
\<close>

theorem audio_survives_the_wire:
  assumes "\<forall>b\<in>set bs. b < 256" "bs \<noteq> []"
  shows "(int (length bs) \<le> MAX_REFERENCE_AUDIO_BYTES \<longrightarrow>
      decode_bounded_base64 (b64encode bs) MAX_REFERENCE_AUDIO_BYTES ''reference audio'' = Inr bs
      \<and> int (length (b64encode bs)) \<le> MAX_REFERENCE_AUDIO_B64_LENGTH)
    \<and> (int (length bs) \<le> MAX_CHUNK_BYTES \<longrightarrow>
      decode_bounded_base64 (b64encode bs) MAX_CHUNK_BYTES ''audio chunk'' = Inr bs
      \<and> int (length (b64encode bs)) \<le> MAX_CHUNK_B64_LENGTH)"
  using assms by (simp add: decode_bounded_encode encoded_lengths)

lemma audio_survives_the_wire_witness:
  "decode_bounded_base64 (b64encode [82, 73, 70, 70, 0]) MAX_CHUNK_BYTES ''audio chunk'' = Inr [82, 73, 70, 70, 0]
   \<and> b64encode [82, 73, 70, 70, 0] = lit ''UklGRgA=''"
proof
  show "decode_bounded_base64 (b64encode [82, 73, 70, 70, 0]) MAX_CHUNK_BYTES ''audio chunk'' = Inr [82, 73, 70, 70, 0]"
    using audio_survives_the_wire [of "[82, 73, 70, 70, 0]"] by (simp add: MAX_CHUNK_BYTES_def)
  show "b64encode [82, 73, 70, 70, 0] = lit ''UklGRgA=''" by code_simp
qed

end
