(* ===== verification/QwenWorker.thy ===== *)
theory QwenWorker
  imports QwenProtocol PyText PromptProfiles
begin

text \<open>
  \<open>ai-backend/app/models/tts_qwen3_worker.py\<close>: the process that owns the Qwen runtime. Two threads
  share its state: the reader, which takes command lines and signals cancellations, and the main
  thread, which dispatches the commands. A generation is cut into the stretches between which a
  cancellation can arrive: its start, each piece of audio up to the second look at the cancel flag, the
  emission of the chunk, the end of the stream and the clean-up. What the libraries answer (the runtime,
  CUDA, the audio codec, files and clock) is an argument of each stretch.
\<close>

section \<open>Constants and loading\<close>

definition RUNTIME_VERSION :: ptext where "RUNTIME_VERSION = lit ''0.3.2''"

definition RUNTIME_REPOSITORY :: ptext where
  "RUNTIME_REPOSITORY = lit ''https://github.com/andimarafioti/faster-qwen3-tts''"

definition RUNTIME_COMMIT :: ptext where "RUNTIME_COMMIT = lit ''a70afc0f81f7f5f8801c3227968f1102f43f211c''"

definition MODEL_ID :: ptext where "MODEL_ID = lit ''Qwen/Qwen3-TTS-12Hz-1.7B-Base''"

definition MODEL_REVISION :: ptext where
  "MODEL_REVISION = lit ''fd4b254389122332181a7c3db7f27e918eec64e3''"

definition SAMPLE_RATE :: int where "SAMPLE_RATE = 24000"

definition CHUNK_SIZE :: int where "CHUNK_SIZE = 4"

text \<open>
  What the machine answers while the model is loaded: the two environment variables, whether the
  resolved path is a directory, the JSON value of the manifest if it can be read, whether
  \<open>config.json\<close> is a file, version and \<open>direct_url.json\<close> of the installed distribution, whether CUDA
  is available, the devices of the parameters of the three candidate modules (\<open>None\<close> for a candidate
  that exposes none), whether \<open>from_pretrained\<close> and \<open>warmup\<close> return, and the bytes that the allocator
  reports.
\<close>

record load_facts =
  lo_model_dir :: "ptext option"
  lo_revision :: "ptext option"
  lo_is_dir :: bool
  lo_manifest :: "pv option"
  lo_config :: bool
  lo_distribution :: "(ptext \<times> pv) option"
  lo_cuda :: bool
  lo_pretrained :: bool
  lo_devices :: "ptext list option list"
  lo_warmup :: bool
  lo_reserved :: "int option"

definition verify_model_manifest :: "load_facts \<Rightarrow> bool" where
  "verify_model_manifest f =
     (case lo_manifest f of
        Some (PDict manifest) \<Rightarrow> vget manifest ''model_id'' = PStr MODEL_ID
          \<and> vget manifest ''model_revision'' = PStr MODEL_REVISION \<and> lo_config f
      | _ \<Rightarrow> False)"

fun remove_trailing :: "nat \<Rightarrow> ptext \<Rightarrow> ptext" where
  "remove_trailing c t = rev (dropWhile ((=) c) (rev t))"

definition removesuffix :: "ptext \<Rightarrow> ptext \<Rightarrow> ptext" where
  "removesuffix p t = (if ends_with p t \<and> p \<noteq> [] then take (length t - length p) t else t)"

definition normalize_runtime_repository_url :: "(ptext \<Rightarrow> ptext) \<Rightarrow> ptext \<Rightarrow> ptext" where
  "normalize_runtime_repository_url lower v =
     (let normalized = lower (strip v);
          rest = if starts_with (lit ''git+'') normalized then drop 4 normalized else normalized
      in removesuffix (lit ''.git'') (remove_trailing 47 rest))"

text \<open>
  A \<open>url\<close> that is not a string is rendered by \<open>str\<close>, which never yields the repository; a direct URL
  that is not a dictionary has no \<open>get\<close> and raises.
\<close>

definition verify_runtime_distribution :: "(ptext \<Rightarrow> ptext) \<Rightarrow> load_facts \<Rightarrow> bool" where
  "verify_runtime_distribution lower f =
     (case lo_distribution f of
        Some (version, PDict direct_url) \<Rightarrow>
          version = RUNTIME_VERSION
          \<and> (case vget direct_url ''url'' of
               PStr url \<Rightarrow> normalize_runtime_repository_url lower url = RUNTIME_REPOSITORY
             | _ \<Rightarrow> False)
          \<and> (case vget direct_url ''vcs_info'' of
               PDict vcs_info \<Rightarrow> vget vcs_info ''vcs'' = pstr ''git'' \<and> vget vcs_info ''commit_id'' = PStr RUNTIME_COMMIT
             | _ \<Rightarrow> False)
      | _ \<Rightarrow> False)"

fun assert_runtime_cuda :: "ptext list option list \<Rightarrow> bool" where
  "assert_runtime_cuda [] = False"
| "assert_runtime_cuda (None # cs) = assert_runtime_cuda cs"
| "assert_runtime_cuda (Some [] # cs) = assert_runtime_cuda cs"
| "assert_runtime_cuda (Some (d # ds) # cs) = list_all ((=) (lit ''cuda'')) (d # ds)"

definition load_runtime :: "(ptext \<Rightarrow> ptext) \<Rightarrow> load_facts \<Rightarrow> bool" where
  "load_runtime lower f \<longleftrightarrow> verify_runtime_distribution lower f \<and> lo_cuda f \<and> lo_pretrained f
     \<and> assert_runtime_cuda (lo_devices f) \<and> lo_warmup f"

definition load_runtime_from_environment :: "(ptext \<Rightarrow> ptext) \<Rightarrow> load_facts \<Rightarrow> bool" where
  "load_runtime_from_environment lower f \<longleftrightarrow>
     (let raw_model_dir = strip (case lo_model_dir f of None \<Rightarrow> [] | Some d \<Rightarrow> d);
          declared = strip (case lo_revision f of None \<Rightarrow> MODEL_REVISION | Some r \<Rightarrow> r)
      in raw_model_dir \<noteq> [] \<and> declared = MODEL_REVISION \<and> lo_is_dir f \<and> verify_model_manifest f
         \<and> load_runtime lower f)"

text \<open>\<open>round(x, 3)\<close>, ties to the even digit.\<close>

definition round3 :: "rat \<Rightarrow> rat" where
  "round3 x = of_int (round_half_even (x * 1000)) / 1000"

definition torch_reserved_mib :: "int option \<Rightarrow> rat option" where
  "torch_reserved_mib bytes =
     (case bytes of
        None \<Rightarrow> None
      | Some n \<Rightarrow> if n \<le> 0 then None else Some (round3 (of_int n / (1024 * 1024))))"

section \<open>State of the worker\<close>

record prepared_prompt =
  pp_voice :: ptext
  pp_transcript :: ptext

record generation =
  gn_request :: ptext
  gn_fields :: generate_fields
  gn_open :: bool
  gn_count :: int
  gn_seconds :: rat
  gn_steps :: int
  gn_ready :: "chunk option"
  gn_over :: bool

record qwen_worker =
  wk_runtime :: bool
  wk_prompt :: "prepared_prompt option"
  wk_active :: "ptext option"
  wk_cancelled :: bool
  wk_pending :: "ptext set"
  wk_completed :: "ptext set"
  wk_order :: "ptext list"
  wk_commands :: "command list"
  wk_closed :: bool
  wk_running :: bool
  wk_generation :: "generation option"
  wk_out :: "worker_event list"

definition new_worker :: qwen_worker where
  "new_worker = \<lparr>wk_runtime = False, wk_prompt = None, wk_active = None, wk_cancelled = False,
     wk_pending = {}, wk_completed = {}, wk_order = [], wk_commands = [], wk_closed = False,
     wk_running = True, wk_generation = None, wk_out = []\<rparr>"

definition emit_event :: "worker_event \<Rightarrow> qwen_worker \<Rightarrow> qwen_worker" where
  "emit_event e w = w\<lparr>wk_out := wk_out w @ [e]\<rparr>"

definition error_terminal :: "int \<Rightarrow> string \<Rightarrow> terminal" where
  "error_terminal n code = \<lparr>te_kind = Stream_error, te_count = n, te_eos = False, te_code = Some (lit code)\<rparr>"

definition cancelled_terminal :: "int \<Rightarrow> terminal" where
  "cancelled_terminal n = \<lparr>te_kind = Stream_cancelled, te_count = n, te_eos = False, te_code = None\<rparr>"

definition done_terminal :: "int \<Rightarrow> terminal" where
  "done_terminal n = \<lparr>te_kind = Stream_done, te_count = n, te_eos = True, te_code = None\<rparr>"

definition emit_error :: "ptext \<Rightarrow> string \<Rightarrow> qwen_worker \<Rightarrow> qwen_worker" where
  "emit_error request code = emit_event (Terminal_event request (error_terminal 0 code))"

section \<open>The reader\<close>

definition signal_cancel :: "ptext \<Rightarrow> qwen_worker \<Rightarrow> qwen_worker" where
  "signal_cancel request w =
     (if wk_active w = Some request then w\<lparr>wk_cancelled := True\<rparr>
      else if request \<in> wk_completed w then w
      else w\<lparr>wk_pending := insert request (if 8 \<le> card (wk_pending w) then {} else wk_pending w)\<rparr>)"

text \<open>
  A line without the prefix, or that the parser refuses, is skipped; the queue of commands holds
  eight, and the reader waits while it is full.
\<close>

definition parse_command_line :: "(ptext \<Rightarrow> command option) \<Rightarrow> ptext \<Rightarrow> command option" where
  "parse_command_line parse line =
     (let t = strip line; prefix = lit ''__RAYME_QWEN3__'' in
      if \<not> starts_with prefix t then None
      else case parse (drop (length prefix) t) of
        None \<Rightarrow> None
      | Some c \<Rightarrow> if command_ok c then Some c else None)"

definition read_command :: "command \<Rightarrow> qwen_worker \<Rightarrow> qwen_worker" where
  "read_command c w =
     (case c of
        Cancel_command request \<Rightarrow> signal_cancel request w
      | _ \<Rightarrow> if 8 \<le> length (wk_commands w) then w else w\<lparr>wk_commands := wk_commands w @ [c]\<rparr>)"

section \<open>Commands that answer at once\<close>

definition dispatch_load :: "(ptext \<Rightarrow> ptext) \<Rightarrow> load_facts \<Rightarrow> ptext \<Rightarrow> qwen_worker \<Rightarrow> qwen_worker" where
  "dispatch_load lower f request w =
     (if \<not> load_runtime_from_environment lower f then emit_error request ''qwen3_load_failed'' w
      else let w1 = w\<lparr>wk_runtime := True\<rparr> in
        case torch_reserved_mib (lo_reserved f) of
          None \<Rightarrow> emit_error request ''qwen3_load_failed'' w1
        | Some r \<Rightarrow> if event_ok (Loaded_event request r) then emit_event (Loaded_event request r) w1
                   else emit_error request ''qwen3_load_failed'' w1)"

text \<open>\<open>prepared\<close>: whether the audio could be read and the runtime made the prompt.\<close>

definition dispatch_prewarm :: "bool \<Rightarrow> ptext \<Rightarrow> prewarm_fields \<Rightarrow> qwen_worker \<Rightarrow> qwen_worker" where
  "dispatch_prewarm prepared request p w =
     (let failed = emit_event (Prompt_failed_event request (pw_voice p) (lit ''qwen3_prompt_failed'')) in
      if \<not> wk_runtime w then failed w
      else if \<not> prepared then failed (w\<lparr>wk_prompt := None\<rparr>)
      else emit_event (Prompt_ready_event request (pw_voice p))
             (w\<lparr>wk_prompt := Some \<lparr>pp_voice = pw_voice p, pp_transcript = pw_transcript p\<rparr>\<rparr>))"

definition dispatch_invalidate :: "ptext \<Rightarrow> ptext \<Rightarrow> qwen_worker \<Rightarrow> qwen_worker" where
  "dispatch_invalidate request voice w =
     (let matched = (map_option pp_voice (wk_prompt w) = Some voice)
      in emit_event (Invalidated_event request voice matched)
           (if matched then w\<lparr>wk_prompt := None\<rparr> else w))"

definition dispatch_unload :: "ptext \<Rightarrow> qwen_worker \<Rightarrow> qwen_worker" where
  "dispatch_unload request w =
     emit_event (Terminal_event request (done_terminal 0))
       (w\<lparr>wk_prompt := None, wk_runtime := False, wk_running := False\<rparr>)"

section \<open>A generation\<close>

definition remember_completed_request :: "ptext \<Rightarrow> qwen_worker \<Rightarrow> qwen_worker" where
  "remember_completed_request request w =
     (if request \<in> wk_completed w then w
      else let w1 = if 32 \<le> length (wk_order w)
                    then w\<lparr>wk_completed := wk_completed w - {hd (wk_order w)}, wk_order := tl (wk_order w)\<rparr>
                    else w
           in w1\<lparr>wk_order := wk_order w1 @ [request], wk_completed := insert request (wk_completed w1)\<rparr>)"

text \<open>\<open>digest\<close>: the SHA-256 digest of a text.\<close>

definition generation_seed_for_command :: "(ptext \<Rightarrow> nat list) \<Rightarrow> ptext \<Rightarrow> generate_fields \<Rightarrow> int" where
  "generation_seed_for_command digest request g =
     (case ge_evidence_seed g of
        Some s \<Rightarrow> s
      | None \<Rightarrow> (case ge_speaker_seed g of
           Some s \<Rightarrow> s
         | None \<Rightarrow> (case ge_seed g of
              Some s \<Rightarrow> s
            | None \<Rightarrow> int (foldl (\<lambda>n b. n * 256 + b) 0
                (take 4 (digest (lit ''rayme-qwen3-legacy-generation-v1:'' @ ge_voice g @ lit '':'' @ request)))))))"

definition finish_generation :: "ptext \<Rightarrow> qwen_worker \<Rightarrow> qwen_worker" where
  "finish_generation request w =
     remember_completed_request request
       (w\<lparr>wk_active := None, wk_cancelled := False, wk_generation := None\<rparr>)"

text \<open>\<open>seeded\<close>: whether the generators of random numbers could be saved and seeded.\<close>

definition dispatch_generate :: "bool \<Rightarrow> ptext \<Rightarrow> generate_fields \<Rightarrow> qwen_worker \<Rightarrow> qwen_worker" where
  "dispatch_generate seeded request g w =
     (if \<not> wk_runtime w then emit_error request ''qwen3_not_ready'' w
      else case wk_prompt w of
        None \<Rightarrow> emit_error request ''qwen3_not_ready'' w
      | Some p \<Rightarrow>
          if pp_voice p \<noteq> ge_voice g then emit_error request ''qwen3_prompt_not_ready'' w
          else let w1 = w\<lparr>wk_active := Some request, wk_cancelled := request \<in> wk_pending w,
                          wk_pending := wk_pending w - {request}\<rparr> in
            if \<not> seeded then finish_generation request (emit_error request ''qwen3_generation_failed'' w1)
            else w1\<lparr>wk_generation := Some \<lparr>gn_request = request, gn_fields = g, gn_open = False,
                     gn_count = 0, gn_seconds = 0, gn_steps = 0, gn_ready = None, gn_over = False\<rparr>\<rparr>)"

definition yield_terminal :: "generation \<Rightarrow> terminal \<Rightarrow> qwen_worker \<Rightarrow> qwen_worker" where
  "yield_terminal g t w =
     emit_event (Terminal_event (gn_request g) t) (w\<lparr>wk_generation := Some (g\<lparr>gn_ready := None, gn_over := True\<rparr>)\<rparr>)"

text \<open>\<open>opened\<close>: whether the runtime returned its stream of audio.\<close>

definition open_stream :: "bool \<Rightarrow> generation \<Rightarrow> qwen_worker \<Rightarrow> qwen_worker" where
  "open_stream opened g w =
     (if wk_cancelled w then yield_terminal g (cancelled_terminal (gn_count g)) w
      else if opened then w\<lparr>wk_generation := Some (g\<lparr>gn_open := True\<rparr>)\<rparr>
      else yield_terminal g (error_terminal (gn_count g) ''qwen3_generation_failed'') w)"

text \<open>
  A piece of the stream: the length of the tuple, what \<open>int\<close> makes of its second component and of the
  members of the timing dictionary, the number of samples, the bytes of the WAV file when the samples
  can be written (finite and loud enough), the seconds since the start and the bytes reserved by CUDA.
\<close>

datatype int_result = Int_value int | Int_refused | Int_overflow

record piece =
  pi_width :: nat
  pi_rate :: int_result
  pi_size :: int_result
  pi_timing :: "(string \<times> int_result) list"
  pi_wav :: "nat list option"
  pi_clock :: rat
  pi_reserved :: "int option"

definition split_stream_chunk :: "piece \<Rightarrow> (int \<times> (string \<times> int_result) list) option" where
  "split_stream_chunk p =
     (if pi_width p < 2 then None
      else case pi_rate p of
        Int_value r \<Rightarrow> Some (r, if 3 \<le> pi_width p then pi_timing p else [])
      | _ \<Rightarrow> None)"

text \<open>Only a \<open>TypeError\<close> or \<open>ValueError\<close> counts as no samples; the \<open>OverflowError\<close> of an infinite float escapes.\<close>

definition sample_count :: "piece \<Rightarrow> int option" where
  "sample_count p = (case pi_size p of Int_value n \<Rightarrow> Some n | Int_refused \<Rightarrow> Some 0 | Int_overflow \<Rightarrow> None)"

fun timing_steps_of :: "(string \<times> int_result) list \<Rightarrow> string list \<Rightarrow> int option" where
  "timing_steps_of timing [] = Some 0"
| "timing_steps_of timing (k # ks) =
     (case (case dget timing k of None \<Rightarrow> Int_value 0 | Some v \<Rightarrow> v) of
        Int_overflow \<Rightarrow> None
      | Int_refused \<Rightarrow> timing_steps_of timing ks
      | Int_value n \<Rightarrow> if 0 < n then Some n else timing_steps_of timing ks)"

definition timing_steps :: "(string \<times> int_result) list \<Rightarrow> int option" where
  "timing_steps timing = timing_steps_of timing [''total_steps'', ''total_steps_so_far'', ''steps'']"

definition piece_chunk :: "generation \<Rightarrow> int \<Rightarrow> int \<Rightarrow> piece \<Rightarrow> chunk option" where
  "piece_chunk g samples steps p =
     (case pi_wav p of
        None \<Rightarrow> None
      | Some wav \<Rightarrow>
          (case torch_reserved_mib (pi_reserved p) of
             None \<Rightarrow> None
           | Some r \<Rightarrow>
               let c = \<lparr>ch_index = gn_count g, ch_wav = b64encode wav,
                        ch_duration = round3 (of_int samples / of_int SAMPLE_RATE * 1000),
                        ch_at = round3 (pi_clock p * 1000), ch_steps = steps, ch_reserved = r\<rparr>
               in if event_ok (Chunk_event (gn_request g) c) then Some c else None))"

definition take_piece :: "piece \<Rightarrow> generation \<Rightarrow> qwen_worker \<Rightarrow> qwen_worker" where
  "take_piece p g w =
     (let failed = yield_terminal g (error_terminal (gn_count g) ''qwen3_generation_failed'') w;
          over = yield_terminal g (error_terminal (gn_count g) ''qwen3_generation_ceiling'') w in
      if wk_cancelled w then yield_terminal g (cancelled_terminal (gn_count g)) w
      else case split_stream_chunk p of
        None \<Rightarrow> failed
      | Some (rate, timing) \<Rightarrow>
          if rate \<noteq> SAMPLE_RATE then failed
          else case sample_count p of
            None \<Rightarrow> failed
          | Some samples \<Rightarrow>
              if samples \<le> 0 then failed
              else let seconds = gn_seconds g + of_int samples / of_int SAMPLE_RATE in
                if ge_seconds (gn_fields g) < seconds then over
                else case timing_steps timing of
                  None \<Rightarrow> failed
                | Some timed \<Rightarrow>
                    let steps = max (gn_steps g + CHUNK_SIZE) timed in
                    if ge_tokens (gn_fields g) \<le> steps then over
                    else if steps \<le> gn_steps g then failed
                    else case piece_chunk g samples steps p of
                      None \<Rightarrow> failed
                    | Some c \<Rightarrow> w\<lparr>wk_generation := Some (g\<lparr>gn_seconds := seconds, gn_steps := steps,
                                                           gn_ready := Some c\<rparr>)\<rparr>)"

definition emit_piece :: "chunk \<Rightarrow> generation \<Rightarrow> qwen_worker \<Rightarrow> qwen_worker" where
  "emit_piece c g w =
     (if wk_cancelled w then yield_terminal g (cancelled_terminal (gn_count g)) w
      else emit_event (Chunk_event (gn_request g) c)
             (w\<lparr>wk_generation := Some (g\<lparr>gn_ready := None, gn_count := gn_count g + 1\<rparr>)\<rparr>))"

definition end_stream :: "bool \<Rightarrow> generation \<Rightarrow> qwen_worker \<Rightarrow> qwen_worker" where
  "end_stream raised g w =
     (if raised then yield_terminal g (error_terminal (gn_count g) ''qwen3_generation_failed'') w
      else if wk_cancelled w then yield_terminal g (cancelled_terminal (gn_count g)) w
      else if ge_tokens (gn_fields g) \<le> gn_steps g
      then yield_terminal g (error_terminal (gn_count g) ''qwen3_generation_ceiling'') w
      else yield_terminal g (done_terminal (gn_count g)) w)"

text \<open>
  The clean-up after the terminal: closing the stream of the runtime and restoring the generators of
  random numbers; if either raises, the exception reaches the dispatcher.
\<close>

definition close_generation :: "bool \<Rightarrow> generation \<Rightarrow> qwen_worker \<Rightarrow> qwen_worker" where
  "close_generation clean g w =
     finish_generation (gn_request g)
       (if clean then w else emit_error (gn_request g) ''qwen3_generation_failed'' w)"

section \<open>Steps\<close>

datatype worker_op =
    Read_command command
  | Read_end
  | Dispatch load_facts bool bool
  | Open_stream bool
  | Take_piece piece
  | Emit_piece
  | End_stream bool
  | Close_generation bool

definition dispatch_command ::
  "(ptext \<Rightarrow> ptext) \<Rightarrow> load_facts \<Rightarrow> bool \<Rightarrow> bool \<Rightarrow> command \<Rightarrow> qwen_worker \<Rightarrow> qwen_worker" where
  "dispatch_command lower f prepared seeded c w =
     (case c of
        Load_command request \<Rightarrow> dispatch_load lower f request w
      | Prewarm_command request p \<Rightarrow> dispatch_prewarm prepared request p w
      | Generate_command request g \<Rightarrow> dispatch_generate seeded request g w
      | Invalidate_command request voice \<Rightarrow> dispatch_invalidate request voice w
      | Unload_command request \<Rightarrow> dispatch_unload request w
      | Cancel_command request \<Rightarrow> w)"

text \<open>
  Each thread makes the step that its program is at; a step that is not enabled leaves the worker as it
  is.
\<close>

definition worker_do :: "(ptext \<Rightarrow> ptext) \<Rightarrow> worker_op \<Rightarrow> qwen_worker \<Rightarrow> qwen_worker" where
  "worker_do lower x w =
     (case x of
        Read_command c \<Rightarrow> if wk_closed w \<or> \<not> command_ok c then w else read_command c w
      | Read_end \<Rightarrow> w\<lparr>wk_closed := True\<rparr>
      | Dispatch f prepared seeded \<Rightarrow>
          if \<not> wk_running w \<or> wk_generation w \<noteq> None then w
          else (case wk_commands w of
                  [] \<Rightarrow> w\<lparr>wk_running := \<not> wk_closed w\<rparr>
                | c # cs \<Rightarrow> dispatch_command lower f prepared seeded c (w\<lparr>wk_commands := cs\<rparr>))
      | _ \<Rightarrow>
          (case wk_generation w of
             None \<Rightarrow> w
           | Some g \<Rightarrow>
               (case x of
                  Open_stream opened \<Rightarrow> if gn_open g \<or> gn_over g then w else open_stream opened g w
                | Take_piece p \<Rightarrow> if \<not> gn_open g \<or> gn_over g \<or> gn_ready g \<noteq> None then w else take_piece p g w
                | Emit_piece \<Rightarrow>
                    (case gn_ready g of None \<Rightarrow> w | Some c \<Rightarrow> if gn_over g then w else emit_piece c g w)
                | End_stream raised \<Rightarrow> if \<not> gn_open g \<or> gn_over g \<or> gn_ready g \<noteq> None then w else end_stream raised g w
                | Close_generation clean \<Rightarrow> if \<not> gn_over g then w else close_generation clean g w
                | _ \<Rightarrow> w)))"

fun worker_run :: "(ptext \<Rightarrow> ptext) \<Rightarrow> worker_op list \<Rightarrow> qwen_worker \<Rightarrow> qwen_worker" where
  "worker_run lower [] w = w"
| "worker_run lower (x # xs) w = worker_run lower xs (worker_do lower x w)"

end
