(* ===== verification/QwenWorkerLaws.thy ===== *)
theory QwenWorkerLaws
  imports QwenWorker
begin

text \<open>
  The worker keeps its bounds, and what it writes for one generation is what the adapter's validator
  accepts, however cancellations interleave with the audio.
\<close>

section \<open>Well-formed workers\<close>

definition worker_ok :: "qwen_worker \<Rightarrow> bool" where
  "worker_ok w \<longleftrightarrow> set (wk_order w) = wk_completed w \<and> distinct (wk_order w) \<and> length (wk_order w) \<le> 32
     \<and> finite (wk_pending w) \<and> card (wk_pending w) \<le> 8 \<and> length (wk_commands w) \<le> 8
     \<and> wk_active w = map_option gn_request (wk_generation w)
     \<and> (wk_active w = None \<longrightarrow> \<not> wk_cancelled w)
     \<and> (wk_prompt w \<noteq> None \<longrightarrow> wk_runtime w)"

lemma emit_simps [simp]:
  "wk_out (emit_event e w) = wk_out w @ [e]" "wk_generation (emit_event e w) = wk_generation w"
  "wk_cancelled (emit_event e w) = wk_cancelled w" "wk_active (emit_event e w) = wk_active w"
  "wk_runtime (emit_event e w) = wk_runtime w" "wk_prompt (emit_event e w) = wk_prompt w"
  "wk_pending (emit_event e w) = wk_pending w" "wk_completed (emit_event e w) = wk_completed w"
  "wk_order (emit_event e w) = wk_order w" "wk_commands (emit_event e w) = wk_commands w"
  "wk_running (emit_event e w) = wk_running w"
  "emit_error r c w = emit_event (Terminal_event r (error_terminal 0 c)) w"
  by (simp_all add: emit_event_def emit_error_def)

lemma worker_ok_emit [simp]: "worker_ok (emit_event e w) = worker_ok w"
  by (simp add: worker_ok_def)

lemma worker_ok_new: "worker_ok new_worker"
  by (simp add: worker_ok_def new_worker_def)

lemma worker_ok_signal: "worker_ok w \<Longrightarrow> worker_ok (signal_cancel r w)"
  by (auto simp: worker_ok_def signal_cancel_def card_insert_if)

lemma worker_ok_finish: "worker_ok w \<Longrightarrow> worker_ok (finish_generation r w)"
  by (cases "wk_order w") (auto simp: worker_ok_def finish_generation_def remember_completed_request_def Let_def)

lemma worker_ok_yield: "worker_ok w \<Longrightarrow> wk_generation w = Some g \<Longrightarrow> worker_ok (yield_terminal g t w)"
  by (simp add: worker_ok_def yield_terminal_def)

lemma worker_ok_dispatch:
  "worker_ok w \<Longrightarrow> wk_generation w = None \<Longrightarrow> worker_ok (dispatch_command lower f prepared seeded c w)"
proof (cases c)
  case (Generate_command request g)
  moreover assume ok: "worker_ok w" "wk_generation w = None"
  moreover have "worker_ok (finish_generation r (w\<lparr>wk_active := a, wk_cancelled := b, wk_pending := wk_pending w - {r}, wk_out := es\<rparr>))" for r a b es
  proof -
    have "card (wk_pending w - {r}) \<le> 8" using ok by (meson card_Diff1_le le_trans worker_ok_def)
    then show ?thesis using ok
      by (cases "wk_order w") (auto simp: worker_ok_def finish_generation_def remember_completed_request_def Let_def)
  qed
  moreover have "card (wk_pending w - {r}) \<le> 8" for r using ok by (meson card_Diff1_le le_trans worker_ok_def)
  ultimately show ?thesis
    by (auto simp: dispatch_command_def dispatch_generate_def Let_def emit_event_def worker_ok_def split: option.splits)
qed (auto simp: dispatch_command_def dispatch_load_def dispatch_prewarm_def dispatch_invalidate_def
    dispatch_unload_def Let_def worker_ok_def split: option.splits)

lemma worker_ok_generation:
  "worker_ok w \<Longrightarrow> wk_generation w = Some g \<Longrightarrow> gn_request g' = gn_request g \<Longrightarrow> worker_ok (w\<lparr>wk_generation := Some g'\<rparr>)"
  by (simp add: worker_ok_def)

lemma worker_ok_take: "worker_ok w \<Longrightarrow> wk_generation w = Some g \<Longrightarrow> worker_ok (take_piece p g w)"
  by (auto simp: take_piece_def Let_def worker_ok_yield worker_ok_generation split: option.splits prod.splits)

lemma worker_ok_queue: "worker_ok w \<Longrightarrow> length cs \<le> 8 \<Longrightarrow> worker_ok (w\<lparr>wk_commands := cs\<rparr>)"
  by (simp add: worker_ok_def)

lemma worker_ok_read: "worker_ok w \<Longrightarrow> worker_ok (read_command c w)"
  by (cases c) (simp_all add: read_command_def worker_ok_signal worker_ok_queue)

lemma worker_ok_do: "worker_ok w \<Longrightarrow> worker_ok (worker_do lower x w)"
proof (cases "wk_generation w")
  case None
  assume ok: "worker_ok w"
  then have "worker_ok (w\<lparr>wk_commands := cs\<rparr>)" if "wk_commands w = c # cs" for c cs
    using that by (simp add: worker_ok_def)
  then have "worker_ok (dispatch_command lower f a b c (w\<lparr>wk_commands := cs\<rparr>))" if "wk_commands w = c # cs" for f a b c cs
    using that None by (intro worker_ok_dispatch) simp_all
  moreover note worker_ok_read [OF ok]
  ultimately show ?thesis using ok None
    by (cases x) (auto simp: worker_do_def split: list.splits, simp_all add: worker_ok_def)
next
  case (Some g)
  assume ok: "worker_ok w"
  moreover note worker_ok_read [OF ok]
  ultimately show ?thesis using Some
    by (cases x)
      (auto simp: worker_do_def worker_ok_take open_stream_def emit_piece_def end_stream_def close_generation_def
         worker_ok_yield worker_ok_generation worker_ok_finish split: option.splits, simp add: worker_ok_def)
qed

interpretation worker_machine: machine "\<lambda>w. w = new_worker" "\<lambda>w x w'. w' = worker_do lower x w" worker_ok
  for lower
  by unfold_locales (simp_all add: worker_ok_new worker_ok_do)

section \<open>The stream of a generation\<close>

lemma bind_res_Inr [simp]: "bind_res r Inr = r"
  by (cases r) simp_all

lemma accept_all_append:
  "accept_all v (es @ fs) = bind_res (accept_all v es) (\<lambda>w. accept_all w fs)"
proof (induction es arbitrary: v)
  case (Cons e es)
  then show ?case by (cases "accept v e") simp_all
qed simp

definition over_ceiling :: string where
  "over_ceiling = ''worker audio exceeded request ceiling''"

text \<open>
  What holds of a generation \<open>g\<close> and the validator \<open>v\<close> that has seen its events: \<open>now\<close> bounds the clock
  so far, and \<open>whole\<close> says that the durations were not changed by the rounding.
\<close>

definition in_step :: "bool \<Rightarrow> rat \<Rightarrow> generation \<Rightarrow> stream_validator \<Rightarrow> bool" where
  "in_step whole now g v \<longleftrightarrow>
     va_request v = gn_request g \<and> va_ceiling v = 1000 * ge_seconds (gn_fields g)
     \<and> va_next v = gn_count g \<and> (va_terminal v \<noteq> None \<longleftrightarrow> gn_over g)
     \<and> (\<not> gn_over g \<longrightarrow> va_at v \<le> now
       \<and> (case gn_ready g of
            None \<Rightarrow> va_steps v \<le> gn_steps g \<and> (whole \<longrightarrow> va_total v = 1000 * gn_seconds g)
          | Some c \<Rightarrow> ch_index c = gn_count g \<and> va_at v \<le> ch_at c \<and> ch_at c \<le> now
              \<and> va_steps v < ch_steps c \<and> ch_steps c = gn_steps g
              \<and> (whole \<longrightarrow> va_total v + ch_duration c = 1000 * gn_seconds g
                  \<and> gn_seconds g \<le> ge_seconds (gn_fields g))))"

definition counted :: "generation \<Rightarrow> bool" where
  "counted g \<longleftrightarrow> identifier_ok (gn_request g) \<and> 0 \<le> gn_count g \<and> gn_steps g \<le> 384
     \<and> 4 * (gn_count g + (if gn_ready g = None then 0 else 1)) \<le> gn_steps g
     \<and> ge_tokens (gn_fields g) \<le> 384 \<and> (case gn_ready g of None \<Rightarrow> True | Some c \<Rightarrow> event_ok (Chunk_event (gn_request g) c))"

definition streaming :: "nat \<Rightarrow> bool \<Rightarrow> rat \<Rightarrow> qwen_worker \<Rightarrow> bool" where
  "streaming n whole now w \<longleftrightarrow> n \<le> length (wk_out w) \<and> list_all event_ok (drop n (wk_out w))
     \<and> (case wk_generation w of
          None \<Rightarrow> False
        | Some g \<Rightarrow> counted g
            \<and> (case accept_all (fresh_from (gn_request g) (1000 * ge_seconds (gn_fields g)) 0 (-1) 0 0) (drop n (wk_out w)) of
                 Inl e \<Rightarrow> e = over_ceiling \<and> \<not> whole
               | Inr v \<Rightarrow> in_step whole now g v))"

lemma streaming_emit:
  "streaming n whole now (emit_event e w\<lparr>wk_generation := Some g'\<rparr>) "
  if "streaming n whole now w" "wk_generation w = Some g" "gn_request g' = gn_request g" "gn_fields g' = gn_fields g"
    "event_ok e" "counted g'"
    "\<And>v. in_step whole now g v \<Longrightarrow> case accept v e of Inl x \<Rightarrow> x = over_ceiling \<and> \<not> whole | Inr v' \<Rightarrow> in_step whole now g' v'"
  for w :: qwen_worker
proof -
  note * = that
  let ?v = "accept_all (fresh_from (gn_request g) (1000 * ge_seconds (gn_fields g)) 0 (-1) 0 0) (drop n (wk_out w))"
  show ?thesis
  proof (cases ?v)
    case (Inl x)
    then show ?thesis using * by (simp add: streaming_def accept_all_append)
  next
    case (Inr v)
    then have "in_step whole now g v" using * by (simp add: streaming_def)
    from *(7) [OF this] show ?thesis using Inr * by (simp add: streaming_def accept_all_append)
  qed
qed


lemma in_step_terminal:
  assumes "in_step whole now g v" "\<not> gn_over g" "te_count t = gn_count g"
  shows "case accept v (Terminal_event (gn_request g) t) of Inl x \<Rightarrow> x = over_ceiling \<and> \<not> whole
    | Inr v' \<Rightarrow> in_step whole now (g\<lparr>gn_ready := None, gn_over := True\<rparr>) v'"
  using assms by (simp add: in_step_def accept_def)

lemma streaming_same:
  assumes "streaming n whole now w" "wk_generation w' = wk_generation w" "wk_out w' = wk_out w"
  shows "streaming n whole now w'"
  using assms(1) unfolding streaming_def assms(2,3) by assumption

lemma streaming_yield:
  assumes w: "streaming n whole now w" "wk_generation w = Some g" "\<not> gn_over g"
    and t: "te_count t = gn_count g" "stream_terminal_ok t"
  shows "streaming n whole now (yield_terminal g t w)"
proof -
  have c: "counted g" using w by (simp add: streaming_def)
  have "streaming n whole now (emit_event (Terminal_event (gn_request g) t) w\<lparr>wk_generation := Some (g\<lparr>gn_ready := None, gn_over := True\<rparr>)\<rparr>)"
  proof (rule streaming_emit [OF w(1,2)])
    show "counted (g\<lparr>gn_ready := None, gn_over := True\<rparr>)" using c by (auto simp: counted_def split: if_splits)
    show "event_ok (Terminal_event (gn_request g) t)" using c t by (simp add: event_ok_def counted_def)
  qed (simp_all add: in_step_terminal w t)
  then show ?thesis by (rule streaming_same) (simp_all add: yield_terminal_def)
qed

lemma terminals_ok:
  assumes "counted g"
  shows "stream_terminal_ok (cancelled_terminal (gn_count g))" "stream_terminal_ok (done_terminal (gn_count g))"
    "stream_terminal_ok (error_terminal (gn_count g) ''qwen3_generation_failed'')"
    "stream_terminal_ok (error_terminal (gn_count g) ''qwen3_generation_ceiling'')"
  using assms
  by (auto simp: counted_def stream_terminal_ok_def cancelled_terminal_def done_terminal_def error_terminal_def error_code_ok_def split: if_splits)

lemma terminal_counts [simp]:
  "te_count (cancelled_terminal n) = n" "te_count (done_terminal n) = n" "te_count (error_terminal n c) = n"
  by (simp_all add: cancelled_terminal_def done_terminal_def error_terminal_def)

lemma streaming_counted: "streaming n whole now w \<Longrightarrow> wk_generation w = Some g \<Longrightarrow> counted g"
  by (simp add: streaming_def)

lemma streaming_emit_piece:
  assumes w: "streaming n whole now w" "wk_generation w = Some g" "\<not> gn_over g" "gn_ready g = Some c"
  shows "streaming n whole now (emit_piece c g w)"
proof (cases "wk_cancelled w")
  case True
  then show ?thesis using w streaming_counted [OF w(1,2)] by (simp add: emit_piece_def streaming_yield terminals_ok)
next
  case False
  have c: "counted g" by (rule streaming_counted [OF w(1,2)])
  let ?g = "g\<lparr>gn_ready := None, gn_count := gn_count g + 1\<rparr>"
  have "streaming n whole now (emit_event (Chunk_event (gn_request g) c) w\<lparr>wk_generation := Some ?g\<rparr>)"
  proof (rule streaming_emit [OF w(1,2)])
    show "counted ?g" using c w(4) by (auto simp: counted_def)
    show "event_ok (Chunk_event (gn_request g) c)" using c w(4) by (simp add: counted_def)
    show "case accept v (Chunk_event (gn_request g) c) of Inl x \<Rightarrow> x = over_ceiling \<and> \<not> whole
      | Inr v' \<Rightarrow> in_step whole now ?g v'" if "in_step whole now g v" for v
      using that w(3,4) by (auto simp: in_step_def accept_def over_ceiling_def)
  qed simp_all
  then show ?thesis using False by (auto intro: streaming_same simp: emit_piece_def)
qed


lemma opened_simps [simp]:
  "counted (g\<lparr>gn_open := b\<rparr>) = counted g" "in_step whole now (g\<lparr>gn_open := b\<rparr>) v = in_step whole now g v"
  by (simp_all add: counted_def in_step_def cong: option.case_cong)

lemma streaming_stream_end:
  assumes w: "streaming n whole now w" "wk_generation w = Some g" "\<not> gn_over g"
  shows "streaming n whole now (end_stream raised g w)" "streaming n whole now (open_stream opened g w)"
proof -
  have c: "counted g" by (rule streaming_counted [OF w(1,2)])
  have y: "streaming n whole now (yield_terminal g t w)" if "te_count t = gn_count g" "stream_terminal_ok t" for t
    using streaming_yield [OF w] that by blast
  have "streaming n whole now (w\<lparr>wk_generation := Some (g\<lparr>gn_open := True\<rparr>)\<rparr>)"
    using w by (simp add: streaming_def split: sum.splits)
  then show "streaming n whole now (end_stream raised g w)" "streaming n whole now (open_stream opened g w)"
    using y terminals_ok [OF c] by (simp_all add: end_stream_def open_stream_def)
qed

lemma in_step_later: "in_step whole now g v \<Longrightarrow> now \<le> now' \<Longrightarrow> in_step whole now' g v"
  by (auto simp: in_step_def split: option.splits)

lemma streaming_later: "streaming n whole now w \<Longrightarrow> now \<le> now' \<Longrightarrow> streaming n whole now' w"
  by (auto simp: streaming_def in_step_later split: option.splits sum.splits)

lemma round3_eighths: "3 dvd n \<Longrightarrow> round3 (of_int n / of_int SAMPLE_RATE * 1000) = of_int n / 24"
proof -
  assume "3 dvd n"
  then obtain k where n: "n = 3 * k" by blast
  have "(of_int n / of_int SAMPLE_RATE * 1000 * 1000 :: rat) = of_int (125 * k)"
    by (simp add: n SAMPLE_RATE_def)
  then have "round3 (of_int n / of_int SAMPLE_RATE * 1000) = of_int (125 * k) / 1000"
    unfolding round3_def by (simp only: round_half_even_int)
  then show ?thesis by (simp add: n)
qed

definition whole_piece :: "piece \<Rightarrow> bool" where
  "whole_piece p \<longleftrightarrow> (case sample_count p of None \<Rightarrow> True | Some n \<Rightarrow> 3 dvd n)"

lemma piece_chunk_fields:
  "piece_chunk g n k p = Some c \<Longrightarrow> ch_index c = gn_count g \<and> ch_steps c = k \<and> ch_at c = round3 (pi_clock p * 1000)
     \<and> ch_duration c = round3 (of_int n / of_int SAMPLE_RATE * 1000) \<and> event_ok (Chunk_event (gn_request g) c)"
  by (auto simp: piece_chunk_def Let_def split: option.splits if_splits)

lemma streaming_take_piece:
  assumes w: "streaming n whole now w" "wk_generation w = Some g" "\<not> gn_over g" "gn_ready g = None"
    and p: "now \<le> round3 (pi_clock p * 1000)" "whole \<Longrightarrow> whole_piece p"
  shows "streaming n whole (round3 (pi_clock p * 1000)) (take_piece p g w)"
proof -
  let ?now = "round3 (pi_clock p * 1000)"
  have w': "streaming n whole ?now w" by (rule streaming_later [OF w(1) p(1)])
  have c: "counted g" by (rule streaming_counted [OF w(1,2)])
  have y: "streaming n whole ?now (yield_terminal g t w)" if "te_count t = gn_count g" "stream_terminal_ok t" for t
    using streaming_yield [OF w' w(2,3)] that by blast
  have "streaming n whole ?now (w\<lparr>wk_generation := Some (g\<lparr>gn_seconds := gn_seconds g + of_int k / of_int SAMPLE_RATE,
      gn_steps := m, gn_ready := Some d\<rparr>)\<rparr>)"
    if "sample_count p = Some k" "piece_chunk g k m p = Some d" "gn_steps g + 4 \<le> m" "m < ge_tokens (gn_fields g)"
      "gn_seconds g + of_int k / of_int SAMPLE_RATE \<le> ge_seconds (gn_fields g)" for k m d
  proof -
    note d = piece_chunk_fields [OF that(2)] and m = that(3-5)
    let ?g = "g\<lparr>gn_seconds := gn_seconds g + of_int k / of_int SAMPLE_RATE, gn_steps := m, gn_ready := Some d\<rparr>"
    have "ch_duration d = 1000 * (of_int k / of_int SAMPLE_RATE)" if whole
      using d round3_eighths [of k] p(2) [OF that] \<open>sample_count p = Some k\<close> by (simp add: whole_piece_def SAMPLE_RATE_def)
    then have "in_step whole ?now ?g v" if "in_step whole now g v" for v
      using that w(3,4) d p(1) m by (auto simp: in_step_def algebra_simps)
    moreover have "counted ?g" using c w(4) d that(3,4) by (simp add: counted_def)
    ultimately show ?thesis using w(1,2) by (auto simp: streaming_def split: sum.splits)
  qed
  then show ?thesis using y terminals_ok [OF c]
    by (auto simp: take_piece_def Let_def CHUNK_SIZE_def not_less not_le split: option.splits prod.splits)
qed


text \<open>
  The steps after the start of a generation, up to its clean-up: the clock of the pieces does not run
  backwards, and with \<open>whole\<close> every piece has a number of samples divisible by three, so that its
  milliseconds have at most three decimals.
\<close>

fun steady :: "bool \<Rightarrow> rat \<Rightarrow> worker_op list \<Rightarrow> bool" where
  "steady whole clock [] \<longleftrightarrow> True"
| "steady whole clock (Take_piece p # xs) \<longleftrightarrow>
     clock \<le> pi_clock p \<and> (whole \<longrightarrow> whole_piece p) \<and> steady whole (pi_clock p) xs"
| "steady whole clock (Close_generation clean # xs) \<longleftrightarrow> False"
| "steady whole clock (_ # xs) \<longleftrightarrow> steady whole clock xs"

lemma round_half_even_mono: "x \<le> y \<Longrightarrow> round_half_even x \<le> round_half_even y"
proof -
  assume xy: "x \<le> y"
  then have f: "\<lfloor>x\<rfloor> \<le> \<lfloor>y\<rfloor>" by (rule floor_mono)
  show ?thesis
  proof (cases "\<lfloor>x\<rfloor> = \<lfloor>y\<rfloor>")
    case True
    then show ?thesis using xy by (simp add: round_half_even_def Let_def)
  next
    case False
    then have "\<lfloor>x\<rfloor> + 1 \<le> \<lfloor>y\<rfloor>" using f by linarith
    then show ?thesis by (simp add: round_half_even_def Let_def)
  qed
qed

lemma round3_mono: "x \<le> y \<Longrightarrow> round3 x \<le> round3 y"
  by (simp add: round3_def round_half_even_mono)

lemma read_keeps:
  "wk_generation (read_command c w) = wk_generation w" "wk_out (read_command c w) = wk_out w"
  by (cases c; simp add: read_command_def signal_cancel_def)+

lemma streaming_do:
  assumes w: "streaming n whole (round3 (clock * 1000)) w" and x: "steady whole clock (x # xs)"
  shows "\<exists>clock'. steady whole clock' xs \<and> streaming n whole (round3 (clock' * 1000)) (worker_do lower x w)"
proof -
  obtain g where g: "wk_generation w = Some g" using w by (auto simp: streaming_def split: option.splits)
  note keep = streaming_same [OF w]
  show ?thesis
  proof (cases x)
    case (Take_piece p)
    have le: "round3 (clock * 1000) \<le> round3 (pi_clock p * 1000)" using x Take_piece by (simp add: round3_mono)
    have "streaming n whole (round3 (pi_clock p * 1000)) (worker_do lower x w)"
      using g x Take_piece le streaming_take_piece [OF w g _ _ le] streaming_later [OF w le]
      by (simp add: worker_do_def)
    then show ?thesis using x Take_piece by auto
  next
    case Emit_piece
    then have "streaming n whole (round3 (clock * 1000)) (worker_do lower x w)"
      using g w streaming_emit_piece [OF w g] by (simp add: worker_do_def split: option.splits)
    then show ?thesis using x Emit_piece by auto
  next
    case (Read_command c)
    then have "streaming n whole (round3 (clock * 1000)) (worker_do lower x w)"
      using w keep [of "read_command c w"] by (simp add: worker_do_def read_keeps)
    then show ?thesis using x Read_command by auto
  next
    case Read_end
    then have "streaming n whole (round3 (clock * 1000)) (worker_do lower x w)"
      using keep [of "w\<lparr>wk_closed := True\<rparr>"] by (simp add: worker_do_def)
    then show ?thesis using x Read_end by auto
  qed (use x g w streaming_stream_end [OF w g] in \<open>auto simp: worker_do_def\<close>)
qed

lemma streaming_run:
  "streaming n whole (round3 (clock * 1000)) w \<Longrightarrow> steady whole clock xs \<Longrightarrow>
   \<exists>clock'. streaming n whole (round3 (clock' * 1000)) (worker_run lower xs w)"
proof (induction xs arbitrary: clock w)
  case (Cons x xs)
  from streaming_do [OF Cons.prems] obtain clock' where
    "steady whole clock' xs" "streaming n whole (round3 (clock' * 1000)) (worker_do lower x w)" by blast
  from Cons.IH [OF this(2,1)] show ?case by simp
qed auto

lemma streaming_begin:
  assumes "command_ok (Generate_command r g)" "wk_generation w = None"
    and "wk_generation (dispatch_generate True r g w) \<noteq> None"
  shows "streaming (length (wk_out w)) whole (round3 (0 * 1000)) (dispatch_generate True r g w)"
proof -
  have "ge_tokens g \<le> 384" "identifier_ok r" using assms(1) by (auto simp: command_ok_def generate_ok_def)
  then show ?thesis
    using assms(2,3)
    by (auto simp: streaming_def dispatch_generate_def Let_def counted_def in_step_def fresh_from_def round3_def
        round_half_even_def split: option.splits if_splits)
qed


text \<open>Until its clean-up a generation keeps its command.\<close>

definition command_of :: "qwen_worker \<Rightarrow> (ptext \<times> generate_fields) option" where
  "command_of w = map_option (\<lambda>g. (gn_request g, gn_fields g)) (wk_generation w)"

fun closes :: "worker_op \<Rightarrow> bool" where
  "closes (Close_generation _) = True"
| "closes _ = False"

lemma command_of_yield [simp]: "command_of (yield_terminal g t w) = Some (gn_request g, gn_fields g)"
  by (simp add: command_of_def yield_terminal_def)

lemma command_of_generation [simp]: "command_of (w\<lparr>wk_generation := Some g\<rparr>) = Some (gn_request g, gn_fields g)"
  by (simp add: command_of_def)

lemma command_of_emit [simp]: "command_of (emit_event e w) = command_of w"
  by (simp add: command_of_def)

lemma command_of_take:
  "wk_generation w = Some g \<Longrightarrow> command_of (take_piece p g w) = Some (gn_request g, gn_fields g)"
  by (auto simp: take_piece_def Let_def split: option.splits prod.splits)

lemma command_of_do:
  assumes "command_of w = Some c" "\<not> closes x"
  shows "command_of (worker_do lower x w) = Some c"
proof -
  obtain g where g: "wk_generation w = Some g" "c = (gn_request g, gn_fields g)"
    using assms(1) by (auto simp: command_of_def)
  then show ?thesis using assms
    by (cases x) (auto simp: worker_do_def command_of_take open_stream_def emit_piece_def end_stream_def
        command_of_def [of "read_command _ _"] read_keeps split: option.splits, simp add: command_of_def)
qed

lemma command_of_run:
  "command_of w = Some c \<Longrightarrow> list_all (\<lambda>x. \<not> closes x) xs \<Longrightarrow> command_of (worker_run lower xs w) = Some c"
  by (induction xs arbitrary: w) (simp_all add: command_of_do)

lemma steady_no_close: "steady whole clock xs \<Longrightarrow> list_all (\<lambda>x. \<not> closes x) xs"
  by (induction whole clock xs rule: steady.induct) simp_all

lemma command_of_begin:
  "wk_generation w = None \<Longrightarrow> wk_generation (dispatch_generate True r g w) \<noteq> None \<Longrightarrow> command_of (dispatch_generate True r g w) = Some (r, g)"
  by (auto simp: dispatch_generate_def Let_def split: option.splits if_splits)

text \<open>
  Worker and adapter agree on a stream: whatever the runtime answers, whenever cancellations arrive and
  however the threads interleave, every event that the worker writes for a generation passes the parser,
  and the adapter's validator for this request accepts them all, up to the terminal when the generation
  is over. The only exception is a total that the rounding of the durations lifts over the ceiling, which
  cannot happen when the numbers of samples are divisible by three (the frames of the codec have 1920).
\<close>

lemma worker_run_accepted:
  assumes "command_ok (Generate_command r g)" "wk_generation w = None"
    and "wk_generation (dispatch_generate True r g w) \<noteq> None" "steady whole 0 xs"
    and "new_validator r (1000 * ge_seconds g) = Inr v"
    and "w' = worker_run lower xs (dispatch_generate True r g w)" "es = drop (length (wk_out w)) (wk_out w')"
  shows "list_all event_ok es
    \<and> (case accept_all v es of
         Inl e \<Rightarrow> e = ''worker audio exceeded request ceiling'' \<and> \<not> whole
       | Inr v' \<Rightarrow> (va_terminal v' \<noteq> None) = (map_option gn_over (wk_generation w') = Some True))"
proof -
  from streaming_run [OF streaming_begin [OF assms(1-3)] assms(4)]
  obtain clock where s: "streaming (length (wk_out w)) whole (round3 (clock * 1000)) w'"
    unfolding assms(6) by blast
  have "command_of w' = Some (r, g)"
    unfolding assms(6) using assms(2,3,4) by (intro command_of_run command_of_begin steady_no_close)
  then obtain h where h: "wk_generation w' = Some h" "gn_request h = r" "gn_fields h = g"
    by (auto simp: command_of_def)
  have v: "v = fresh_from r (1000 * ge_seconds g) 0 (-1) 0 0"
    using assms(5) by (auto simp: new_validator_def fresh_from_def split: if_splits)
  show ?thesis using s h
    by (auto simp: streaming_def v assms(7) over_ceiling_def in_step_def split: sum.splits)
qed

text \<open>A loaded worker with a prompt, and a generation of one piece of audio.\<close>

definition demo_worker :: qwen_worker where
  "demo_worker = new_worker\<lparr>wk_runtime := True,
     wk_prompt := Some \<lparr>pp_voice = lit ''prompt_1'', pp_transcript = lit ''Hello.''\<rparr>\<rparr>"

definition demo_fields :: generate_fields where
  "demo_fields = \<lparr>ge_version = 2, ge_voice = lit ''prompt_1'', ge_text = lit ''Good evening.'', ge_tokens = 72,
     ge_seconds = 6, ge_speaker_seed = Some 7, ge_seed = Some 7, ge_evidence_mode = None, ge_evidence_seed = None\<rparr>"

definition demo_piece :: piece where
  "demo_piece = \<lparr>pi_width = 3, pi_rate = Int_value 24000, pi_size = Int_value 7680, pi_timing = [(''total_steps'', Int_value 4)],
     pi_wav = Some [82, 73, 70, 70], pi_clock = 1 / 4, pi_reserved = Some 4294967296\<rparr>"

definition demo_stream :: "worker_op list" where
  "demo_stream = [Open_stream True, Take_piece demo_piece, Emit_piece, End_stream False]"

section \<open>Cancellation\<close>

definition still :: "nat \<Rightarrow> generation \<Rightarrow> qwen_worker \<Rightarrow> bool" where
  "still n g w \<longleftrightarrow> n \<le> length (wk_out w)
     \<and> (case wk_generation w of
          None \<Rightarrow> False
        | Some h \<Rightarrow> gn_request h = gn_request g \<and> gn_count h = gn_count g
            \<and> (if gn_over h
               then drop n (wk_out w) \<in> {[Terminal_event (gn_request g) (cancelled_terminal (gn_count g))],
                     [Terminal_event (gn_request g) (error_terminal (gn_count g) ''qwen3_generation_failed'')]}
               else wk_cancelled w \<and> wk_active w = Some (gn_request g) \<and> drop n (wk_out w) = []))"

lemma still_yield:
  assumes "still n g w" "wk_generation w = Some h" "\<not> gn_over h"
    and "t \<in> {cancelled_terminal (gn_count g), error_terminal (gn_count g) ''qwen3_generation_failed''}"
  shows "still n g (yield_terminal h t w)"
  using assms by (auto simp: still_def yield_terminal_def)

lemma still_read: "still n g w \<Longrightarrow> still n g (read_command c w)"
proof (cases c)
  case (Cancel_command r)
  assume "still n g w"
  then show ?thesis
    by (auto simp: still_def Cancel_command read_command_def signal_cancel_def split: option.splits)
qed (auto simp: still_def read_command_def split: option.splits)

lemma still_do:
  assumes w: "still n g w" and x: "\<not> closes x"
  shows "still n g (worker_do lower x w)"
proof -
  obtain h where h: "wk_generation w = Some h" using w by (auto simp: still_def split: option.splits)
  show ?thesis
  proof (cases "gn_over h")
    case True
    then show ?thesis using h w x
      by (cases x) (auto simp: worker_do_def still_read split: option.splits, simp add: still_def)
  next
    case False
    then have c: "wk_cancelled w" "gn_count h = gn_count g" using w h by (simp_all add: still_def)
    note y = still_yield [OF w h False]
    show ?thesis using h w x c False y
      by (cases x) (auto simp: worker_do_def still_read open_stream_def take_piece_def emit_piece_def end_stream_def Let_def
          split: option.splits, simp add: still_def)
  qed
qed

lemma still_run: "still n g w \<Longrightarrow> list_all (\<lambda>x. \<not> closes x) xs \<Longrightarrow> still n g (worker_run lower xs w)"
  by (induction xs arbitrary: w) (simp_all add: still_do)



end
