(* ===== verification/QwenAdapter.thy ===== *)
theory QwenAdapter
  imports QwenWorker
begin

text \<open>
  \<open>ai-backend/app/models/tts_qwen3.py\<close>: the adapter in the service that starts the worker process of
  the Qwen engine, writes its commands and reads its events. \<open>load\<close>, \<open>prewarm\<close>, a stream, and the
  second halves of \<open>invalidate\<close> and \<open>unload\<close> hold the operation lock, so they exclude each other;
  cancellations and the exit of a process come in between. A stream is cut where its generator is
  suspended, a cancellation where it waits for the acknowledgement. The lines that the process writes
  are arguments; a wait whose lines are used up times out.
\<close>

section \<open>Errors\<close>

datatype error_kind =
    Q_worker | Q_validation | Q_prompt | Q_generation | Q_ceiling | Q_runtime | Q_protocol
  | Q_invalid_field | Q_unavailable

datatype qwen_error = Qwen_error (error_of: error_kind) ptext

definition marks_engine_unavailable :: "error_kind \<Rightarrow> bool" where
  "marks_engine_unavailable k \<longleftrightarrow> k \<in> {Q_runtime, Q_protocol}"

abbreviation q_error :: "error_kind \<Rightarrow> string \<Rightarrow> qwen_error + 'a" where
  "q_error k code \<equiv> Inl (Qwen_error k (lit code))"

definition generation_terminal_error :: "ptext option \<Rightarrow> qwen_error" where
  "generation_terminal_error error_code =
     (let code = case error_code of None \<Rightarrow> lit ''qwen3_generation_failed''
                 | Some c \<Rightarrow> if c = [] then lit ''qwen3_generation_failed'' else c in
      if code = lit ''qwen3_generation_ceiling'' then Qwen_error Q_ceiling code
      else if code \<in> {lit ''qwen3_not_ready'', lit ''qwen3_prompt_not_ready''} then Qwen_error Q_prompt code
      else Qwen_error Q_runtime code)"

section \<open>State\<close>

record qwen_run =
  sr_request :: ptext
  sr_attempt :: nat
  sr_validator :: stream_validator

text \<open>
  Processes are numbered in the order in which they are started, and so are the attempts, whose
  acknowledgement event is named by the attempt. \<open>ad_exited\<close> holds the processes whose \<open>poll\<close> is not
  \<open>None\<close>, \<open>ad_sent\<close> the commands written so far.
\<close>

record qwen_adapter =
  ad_loaded :: bool
  ad_process :: "nat option"
  ad_exited :: "nat set"
  ad_started :: nat
  ad_active :: "ptext option"
  ad_attempt :: "nat option"
  ad_attempts :: nat
  ad_acks :: "(ptext, nat) dict"
  ad_acked :: "nat set"
  ad_recent :: "(ptext, nat \<times> string) dict"
  ad_last_cancel :: "string option"
  ad_voice :: "ptext option"
  ad_prompt :: "ptext option"
  ad_reserved :: "rat option"
  ad_stream :: "qwen_run option"
  ad_sent :: "(nat \<times> command) list"

definition new_adapter :: qwen_adapter where
  "new_adapter = \<lparr>ad_loaded = False, ad_process = None, ad_exited = {}, ad_started = 0, ad_active = None,
     ad_attempt = None, ad_attempts = 0, ad_acks = [], ad_acked = {}, ad_recent = [], ad_last_cancel = None,
     ad_voice = None, ad_prompt = None, ad_reserved = None, ad_stream = None, ad_sent = []\<rparr>"

definition alive :: "qwen_adapter \<Rightarrow> bool" where
  "alive a \<longleftrightarrow> (case ad_process a of None \<Rightarrow> False | Some p \<Rightarrow> p \<notin> ad_exited a)"

definition clear_selected_prompt :: "qwen_adapter \<Rightarrow> qwen_adapter" where
  "clear_selected_prompt a = a\<lparr>ad_voice := None, ad_prompt := None\<rparr>"

definition stop_worker :: "qwen_adapter \<Rightarrow> qwen_adapter" where
  "stop_worker a =
     (clear_selected_prompt a)\<lparr>ad_process := None, ad_loaded := False, ad_reserved := None,
        ad_acked := ad_acked a \<union> snd ` set (ad_acks a),
        ad_exited := ad_exited a \<union> set_option (ad_process a)\<rparr>"

section \<open>The process and its pipes\<close>

text \<open>
  What the machine answers to one call: whether the required packages are installed, whether the
  console interpreter is found, whether the process starts, whether it has an input pipe and whether
  the pipe takes the line.
\<close>

record machine_facts =
  mf_modules :: bool
  mf_python :: bool
  mf_spawn :: bool
  mf_stdin :: bool
  mf_pipe :: bool

definition ensure_worker :: "machine_facts \<Rightarrow> qwen_adapter \<Rightarrow> (qwen_error + nat) \<times> qwen_adapter" where
  "ensure_worker f a =
     (if alive a then (Inr (the (ad_process a)), a)
      else if \<not> mf_python f then (q_error Q_runtime ''qwen3_worker_unavailable'', a)
      else if \<not> mf_spawn f then (q_error Q_runtime ''qwen3_worker_unavailable'', stop_worker a)
      else (Inr (ad_started a), a\<lparr>ad_process := Some (ad_started a), ad_started := Suc (ad_started a)\<rparr>))"

definition send_command :: "machine_facts \<Rightarrow> command \<Rightarrow> qwen_adapter \<Rightarrow> (qwen_error + unit) \<times> qwen_adapter" where
  "send_command f c a =
     (case ensure_worker f a of
        (Inl e, a1) \<Rightarrow> (Inl e, a1)
      | (Inr p, a1) \<Rightarrow>
          if \<not> mf_stdin f then (q_error Q_worker ''qwen3_worker_failed'', stop_worker a1)
          else if \<not> mf_pipe f then (q_error Q_runtime ''qwen3_worker_unavailable'', stop_worker a1)
          else (Inr (), a1\<lparr>ad_sent := ad_sent a1 @ [(p, c)]\<rparr>))"

datatype got = Line ptext | Closed_pipe

definition WORKER_EVENT_PREFIX :: ptext where "WORKER_EVENT_PREFIX = lit ''__RAYME_QWEN3__''"

text \<open>The parser of events lets through what the declared constraints allow.\<close>

definition parse_event :: "(ptext \<Rightarrow> worker_event option) \<Rightarrow> ptext \<Rightarrow> worker_event option" where
  "parse_event parse t = (case parse t of None \<Rightarrow> None | Some e \<Rightarrow> if event_ok e then Some e else None)"

definition fail_protocol :: "qwen_adapter \<Rightarrow> (qwen_error + 'a) \<times> qwen_adapter" where
  "fail_protocol a = (q_error Q_protocol ''qwen3_worker_protocol'', stop_worker a)"

fun read_lines :: "(ptext \<Rightarrow> worker_event option) \<Rightarrow> got list \<Rightarrow> qwen_adapter \<Rightarrow> (qwen_error + worker_event) \<times> qwen_adapter" where
  "read_lines parse [] a = (q_error Q_runtime ''qwen3_worker_timeout'', stop_worker a)"
| "read_lines parse (Closed_pipe # _) a = (q_error Q_runtime ''qwen3_worker_stopped'', stop_worker a)"
| "read_lines parse (Line t # ls) a =
     (if \<not> starts_with WORKER_EVENT_PREFIX t then read_lines parse ls a
      else case parse_event parse (drop (length WORKER_EVENT_PREFIX) t) of
        None \<Rightarrow> fail_protocol a
      | Some e \<Rightarrow> (Inr e, a))"

definition read_event :: "(ptext \<Rightarrow> worker_event option) \<Rightarrow> got list \<Rightarrow> qwen_adapter \<Rightarrow> (qwen_error + worker_event) \<times> qwen_adapter" where
  "read_event parse ls a =
     (if ad_process a = None then (q_error Q_runtime ''qwen3_worker_unavailable'', a) else read_lines parse ls a)"

section \<open>Loading and prompts\<close>

definition load :: "(ptext \<Rightarrow> worker_event option) \<Rightarrow> machine_facts \<Rightarrow> ptext \<Rightarrow> got list \<Rightarrow> qwen_adapter \<Rightarrow> (qwen_error + unit) \<times> qwen_adapter" where
  "load parse f request ls a =
     (if ad_loaded a \<and> alive a then (Inr (), a)
      else if \<not> mf_modules f then (q_error Q_unavailable ''TTS runtime package unavailable'', a)
      else case ensure_worker f a of
        (Inl e, a1) \<Rightarrow> (Inl e, a1)
      | (Inr _, a1) \<Rightarrow>
      (case send_command f (Load_command request) a1 of
        (Inl e, a2) \<Rightarrow> (Inl e, a2)
      | (Inr _, a2) \<Rightarrow>
      (case read_event parse ls a2 of
        (Inl e, a3) \<Rightarrow> (Inl e, a3)
      | (Inr ev, a3) \<Rightarrow>
          if event_request ev \<noteq> request then fail_protocol a3
          else (case ev of
              Terminal_event _ t \<Rightarrow>
                if te_kind t = Stream_error
                then (Inl (Qwen_error Q_runtime (case te_code t of None \<Rightarrow> lit ''qwen3_runtime_failed'' | Some c \<Rightarrow> c)),
                      stop_worker a3)
                else fail_protocol a3
            | Loaded_event _ r \<Rightarrow> (Inr (), a3\<lparr>ad_reserved := Some r, ad_loaded := True\<rparr>)
            | _ \<Rightarrow> fail_protocol a3))))"

text \<open>
  The identity of a prompt: \<open>fold\<close> case folds, decomposes and drops the marks; \<open>sha_bytes\<close> and
  \<open>sha_text\<close> are the hexadecimal SHA-256 digests of bytes and of a UTF-8 text.
\<close>

record digests =
  dg_fold :: "ptext \<Rightarrow> ptext"
  dg_bytes :: "nat list \<Rightarrow> ptext"
  dg_text :: "ptext \<Rightarrow> ptext"

definition lower_alnum :: "nat \<Rightarrow> bool" where
  "lower_alnum c \<longleftrightarrow> (97 \<le> c \<and> c \<le> 122) \<or> (48 \<le> c \<and> c \<le> 57)"

text \<open>The maximal runs of characters that satisfy \<open>P\<close>, with the run read so far.\<close>

fun runs_of :: "(nat \<Rightarrow> bool) \<Rightarrow> ptext \<Rightarrow> ptext \<Rightarrow> ptext list" where
  "runs_of P acc [] = (if acc = [] then [] else [acc])"
| "runs_of P acc (c # t) =
     (if P c then runs_of P (acc @ [c]) t else if acc = [] then runs_of P [] t else acc # runs_of P [] t)"

definition normalize_qwen_comparison_text :: "digests \<Rightarrow> ptext \<Rightarrow> ptext" where
  "normalize_qwen_comparison_text d v = join (lit '' '') (runs_of lower_alnum [] (dg_fold d v))"

definition qwen_prompt_cache_key :: "digests \<Rightarrow> nat list \<Rightarrow> ptext \<Rightarrow> qwen_error + ptext" where
  "qwen_prompt_cache_key d audio transcript =
     (let normalized = normalize_qwen_comparison_text d transcript in
      if audio = [] then q_error Q_validation ''qwen3_reference_audio_required''
      else if normalized = [] then q_error Q_validation ''qwen3_transcript_required''
      else Inr (lit ''prompt_'' @ dg_text d (join [0] [dg_bytes d audio, normalized, MODEL_REVISION,
                  lit ''full_icl'', lit ''append_silence=true''])))"

definition prewarm_command :: "ptext \<Rightarrow> ptext \<Rightarrow> nat list \<Rightarrow> ptext \<Rightarrow> command" where
  "prewarm_command request key audio transcript =
     Prewarm_command request \<lparr>pw_voice = key, pw_audio = b64encode audio, pw_transcript = transcript\<rparr>"

record prewarm_request =
  wr_voice :: ptext
  wr_audio :: "nat list"
  wr_transcript :: ptext

text \<open>\<open>fl\<close>, \<open>rl\<close> and \<open>lsl\<close> belong to the load that \<open>prewarm\<close> makes first when the engine is not loaded.\<close>

definition prewarm_loaded ::
  "digests \<Rightarrow> (ptext \<Rightarrow> worker_event option) \<Rightarrow> machine_facts \<Rightarrow> ptext \<Rightarrow> got list \<Rightarrow> prewarm_request \<Rightarrow> qwen_adapter
   \<Rightarrow> (qwen_error + ptext) \<times> qwen_adapter" where
  "prewarm_loaded d parse f request ls w a =
     (if wr_audio w = [] then (q_error Q_validation ''qwen3_reference_audio_required'', a)
      else if strip (wr_transcript w) = [] then (q_error Q_validation ''qwen3_transcript_required'', a)
      else case qwen_prompt_cache_key d (wr_audio w) (wr_transcript w) of
        Inl e \<Rightarrow> (Inl e, a)
      | Inr key \<Rightarrow>
      (let c = prewarm_command request key (wr_audio w) (wr_transcript w) in
       if \<not> command_ok c then (q_error Q_invalid_field '''', a)
       else case send_command f c (clear_selected_prompt a) of
        (Inl e, a1) \<Rightarrow> (Inl e, a1)
      | (Inr _, a1) \<Rightarrow>
      (case read_event parse ls a1 of
        (Inl e, a2) \<Rightarrow> (Inl e, a2)
      | (Inr ev, a2) \<Rightarrow>
          if event_request ev \<noteq> request then fail_protocol a2
          else (case ev of
              Prompt_failed_event _ _ code \<Rightarrow> (Inl (Qwen_error Q_prompt code), a2)
            | Prompt_ready_event _ voice \<Rightarrow>
                if voice \<noteq> key then fail_protocol a2
                else (Inr (wr_voice w), a2\<lparr>ad_voice := Some (wr_voice w), ad_prompt := Some key\<rparr>)
            | _ \<Rightarrow> fail_protocol a2))))"

definition prewarm ::
  "digests \<Rightarrow> (ptext \<Rightarrow> worker_event option) \<Rightarrow> machine_facts \<Rightarrow> ptext \<Rightarrow> got list
   \<Rightarrow> machine_facts \<Rightarrow> ptext \<Rightarrow> got list \<Rightarrow> prewarm_request \<Rightarrow> qwen_adapter \<Rightarrow> (qwen_error + ptext) \<times> qwen_adapter" where
  "prewarm d parse fl rl lsl f request ls w a =
     (if ad_loaded a then prewarm_loaded d parse f request ls w a
      else case load parse fl rl lsl a of
        (Inl e, a1) \<Rightarrow> (Inl e, a1)
      | (Inr _, a1) \<Rightarrow> prewarm_loaded d parse f request ls w a1)"

section \<open>The limits of a generation\<close>

definition text_words :: "ptext \<Rightarrow> nat" where
  "text_words t = length (runs_of (\<lambda>c. \<not> py_space c) [] t)"

definition hard_seconds :: "nat \<Rightarrow> rat" where
  "hard_seconds n = min 32 (max 6 (max 1 (of_nat n / (22 / 10)) * (225 / 100) + 2))"

definition generation_limits :: "ptext \<Rightarrow> qwen_error + int \<times> rat" where
  "generation_limits t =
     (let n = text_words t in
      if n = 0 then q_error Q_validation ''qwen3_target_required''
      else if 60 < n then q_error Q_validation ''qwen3_target_too_long''
      else Inr (min 384 (\<lceil>hard_seconds n * 12 / 4\<rceil> * 4), round3 (hard_seconds n)))"

text \<open>\<open>int.from_bytes(digest[:4], "big")\<close> of the digest of the prompt; \<open>sha\<close> yields the bytes.\<close>

definition voice_generation_seed :: "(ptext \<Rightarrow> nat list) \<Rightarrow> ptext \<Rightarrow> int" where
  "voice_generation_seed sha key =
     int (foldl (\<lambda>n b. n * 256 + b) 0 (take 4 (sha (lit ''rayme-qwen3-speaker-v1:'' @ key))))"

record stream_request =
  sq_text :: ptext
  sq_evidence_mode :: "ptext option"
  sq_evidence_seed :: "int option"

definition generate_command ::
  "(ptext \<Rightarrow> nat list) \<Rightarrow> ptext \<Rightarrow> ptext \<Rightarrow> stream_request \<Rightarrow> int \<Rightarrow> rat \<Rightarrow> command" where
  "generate_command sha request key q tokens seconds =
     (let speaker = voice_generation_seed sha key;
          seed = (case sq_evidence_seed q of None \<Rightarrow> speaker | Some s \<Rightarrow> s) in
      Generate_command request \<lparr>ge_version = 2, ge_voice = key, ge_text = sq_text q, ge_tokens = tokens,
        ge_seconds = seconds, ge_speaker_seed = Some speaker, ge_seed = Some seed,
        ge_evidence_mode = sq_evidence_mode q, ge_evidence_seed = sq_evidence_seed q\<rparr>)"

section \<open>Audio\<close>

text \<open>What the codec reads from a WAV file: rate, frames, channels, whether all samples are finite, peak.\<close>

record wav_facts =
  wv_rate :: int
  wv_frames :: int
  wv_channels :: int
  wv_finite :: bool
  wv_peak :: rat

definition validate_worker_wav :: "(nat list \<Rightarrow> wav_facts option) \<Rightarrow> chunk \<Rightarrow> nat list option" where
  "validate_worker_wav codec c =
     (case decode_bounded_base64 (ch_wav c) MAX_CHUNK_BYTES ''audio chunk'' of
        Inl _ \<Rightarrow> None
      | Inr wav \<Rightarrow>
          (case codec wav of
             None \<Rightarrow> None
           | Some x \<Rightarrow>
               if wv_rate x \<noteq> SAMPLE_RATE \<or> wv_frames x = 0 \<or> wv_channels x \<noteq> 1 \<or> \<not> wv_finite x
                  \<or> wv_peak x \<le> 1 / 100000 then None
               else let actual = of_int (wv_frames x) * 1000 / of_int (wv_rate x);
                        tolerance = max 10 (actual * (2 / 100))
                    in if tolerance < \<bar>actual - ch_duration c\<bar> then None else Some wav))"

record audio_chunk =
  au_index :: int
  au_wav :: "nat list"
  au_duration :: rat
  au_at :: rat

section \<open>Streams\<close>

definition new_terminal :: "ptext \<Rightarrow> nat \<Rightarrow> terminal_kind \<Rightarrow> qwen_adapter \<Rightarrow> qwen_adapter" where
  "new_terminal request n k a =
     a\<lparr>ad_recent := dset request (n, if k = Stream_cancelled then ''cancelled'' else ''already_done'') (ad_recent a),
       ad_acked := insert n (ad_acked a)\<rparr>"

text \<open>A dictionary keeps the order in which its keys were entered; the oldest entries are dropped.\<close>

definition trim_terminals :: "qwen_adapter \<Rightarrow> qwen_adapter" where
  "trim_terminals a = a\<lparr>ad_recent := drop (length (ad_recent a) - 32) (ad_recent a)\<rparr>"

definition terminal_of :: "worker_event \<Rightarrow> terminal option" where
  "terminal_of e = (case e of Terminal_event _ t \<Rightarrow> Some t | _ \<Rightarrow> None)"

fun drain :: "(ptext \<Rightarrow> worker_event option) \<Rightarrow> got list list \<Rightarrow> qwen_run \<Rightarrow> qwen_adapter \<Rightarrow> qwen_adapter" where
  "drain parse [] r a = stop_worker (snd (read_event parse [] a))"
| "drain parse (ls # lss) r a =
     (case read_event parse ls a of
        (Inl _, a1) \<Rightarrow> stop_worker a1
      | (Inr e, a1) \<Rightarrow>
          (case accept (sr_validator r) e of
             Inl _ \<Rightarrow> stop_worker a1
           | Inr v \<Rightarrow>
               (case terminal_of e of
                  Some t \<Rightarrow> new_terminal (sr_request r) (sr_attempt r) (te_kind t) a1
                | None \<Rightarrow> drain parse lss (r\<lparr>sr_validator := v\<rparr>) a1)))"

definition cancel_and_drain :: "(ptext \<Rightarrow> worker_event option) \<Rightarrow> machine_facts \<Rightarrow> got list list \<Rightarrow> qwen_run \<Rightarrow> qwen_adapter \<Rightarrow> qwen_adapter" where
  "cancel_and_drain parse f lss r a =
     (if \<not> alive a \<or> ad_active a \<noteq> Some (sr_request r) then a
      else case send_command f (Cancel_command (sr_request r)) a of
        (Inl _, a1) \<Rightarrow> stop_worker a1
      | (Inr _, a1) \<Rightarrow> drain parse lss r a1)"

text \<open>The \<open>finally\<close> block of a stream: an abandoned attempt is cancelled, then the attempt is forgotten.\<close>

definition leave_stream :: "(ptext \<Rightarrow> worker_event option) \<Rightarrow> machine_facts \<Rightarrow> got list list \<Rightarrow> qwen_run \<Rightarrow> qwen_adapter \<Rightarrow> qwen_adapter" where
  "leave_stream parse f lss r a =
     (let a1 = if va_terminal (sr_validator r) = None then cancel_and_drain parse f lss r a else a;
          a2 = if ad_active a1 = Some (sr_request r) \<and> ad_attempt a1 = Some (sr_attempt r)
               then a1\<lparr>ad_active := None, ad_attempt := None\<rparr> else a1
      in a2\<lparr>ad_acks := (if dget (ad_acks a2) (sr_request r) = Some (sr_attempt r)
                       then dpop (sr_request r) (ad_acks a2) else ad_acks a2),
            ad_stream := None\<rparr>)"

text \<open>
  The start of a stream up to its first read: \<open>lss\<close> are the lines for the case that the command cannot
  be written and the attempt is drained.
\<close>

definition stream_loaded ::
  "(ptext \<Rightarrow> nat list) \<Rightarrow> (ptext \<Rightarrow> worker_event option) \<Rightarrow> machine_facts \<Rightarrow> ptext \<Rightarrow> got list list \<Rightarrow> stream_request
   \<Rightarrow> ptext option \<Rightarrow> qwen_adapter \<Rightarrow> (qwen_error + unit) \<times> qwen_adapter" where
  "stream_loaded sha parse f request lss q voice a =
     (let selected = (case voice of None \<Rightarrow> ad_voice a | Some [] \<Rightarrow> ad_voice a | Some v \<Rightarrow> Some v) in
      if selected = None \<or> selected = Some [] \<or> selected \<noteq> ad_voice a \<or> ad_prompt a = None
      then (q_error Q_prompt ''qwen3_prompt_not_ready'', a)
      else case generation_limits (sq_text q) of
        Inl e \<Rightarrow> (Inl e, a)
      | Inr (tokens, seconds) \<Rightarrow>
      (let c = generate_command sha request (the (ad_prompt a)) q tokens seconds in
       if \<not> command_ok c then (q_error Q_invalid_field '''', a)
       else case new_validator request (seconds * 1000) of
        Inl _ \<Rightarrow> (q_error Q_invalid_field '''', a)
      | Inr v \<Rightarrow>
          if ad_active a \<noteq> None then (q_error Q_worker ''qwen3_worker_failed'', a)
          else let n = Suc (ad_attempts a);
                   r = \<lparr>sr_request = request, sr_attempt = n, sr_validator = v\<rparr>;
                   a1 = a\<lparr>ad_attempts := n, ad_recent := dpop request (ad_recent a), ad_active := Some request,
                          ad_attempt := Some n, ad_acks := dset request n (ad_acks a), ad_stream := Some r\<rparr>
               in case send_command f c a1 of
                    (Inl e, a2) \<Rightarrow> (Inl e, leave_stream parse f lss r a2)
                  | (Inr _, a2) \<Rightarrow> (Inr (), a2)))"

definition stream_begin ::
  "(ptext \<Rightarrow> nat list) \<Rightarrow> (ptext \<Rightarrow> worker_event option) \<Rightarrow> machine_facts \<Rightarrow> ptext \<Rightarrow> got list
   \<Rightarrow> machine_facts \<Rightarrow> ptext \<Rightarrow> got list list \<Rightarrow> stream_request \<Rightarrow> ptext option \<Rightarrow> qwen_adapter \<Rightarrow> (qwen_error + unit) \<times> qwen_adapter" where
  "stream_begin sha parse fl rl lsl f request lss q voice a =
     (if ad_loaded a then stream_loaded sha parse f request lss q voice a
      else case load parse fl rl lsl a of
        (Inl e, a1) \<Rightarrow> (Inl e, a1)
      | (Inr _, a1) \<Rightarrow> stream_loaded sha parse f request lss q voice a1)"

text \<open>
  One \<open>next\<close> of the generator: a chunk of audio, the end of the stream (\<open>None\<close>) or an exception.
\<close>

definition stream_next ::
  "(nat list \<Rightarrow> wav_facts option) \<Rightarrow> (ptext \<Rightarrow> worker_event option) \<Rightarrow> machine_facts \<Rightarrow> got list \<Rightarrow> got list list
   \<Rightarrow> qwen_run \<Rightarrow> qwen_adapter \<Rightarrow> (qwen_error + audio_chunk option) \<times> qwen_adapter" where
  "stream_next codec parse f ls lss r a =
     (case read_event parse ls a of
        (Inl e, a1) \<Rightarrow> (Inl e, leave_stream parse f lss r a1)
      | (Inr ev, a1) \<Rightarrow>
      (case accept (sr_validator r) ev of
        Inl _ \<Rightarrow> (case fail_protocol a1 of (res, a2) \<Rightarrow> (res, leave_stream parse f lss r a2))
      | Inr v \<Rightarrow>
          let r' = r\<lparr>sr_validator := v\<rparr> in
          (case ev of
             Chunk_event _ c \<Rightarrow>
               let a2 = a1\<lparr>ad_reserved := Some (ch_reserved c)\<rparr> in
               (case validate_worker_wav codec c of
                  None \<Rightarrow> (case fail_protocol a2 of (res, a3) \<Rightarrow> (res, leave_stream parse f lss r' a3))
                | Some wav \<Rightarrow>
                    (Inr (Some \<lparr>au_index = ch_index c, au_wav = wav, au_duration = ch_duration c, au_at = ch_at c\<rparr>),
                     a2\<lparr>ad_stream := Some r'\<rparr>))
           | Terminal_event _ t \<Rightarrow>
               let a2 = trim_terminals (new_terminal (sr_request r) (sr_attempt r) (te_kind t) a1) in
               (case te_kind t of
                  Stream_cancelled \<Rightarrow> (Inr None, leave_stream parse f lss r' a2)
                | Stream_error \<Rightarrow>
                    let e = generation_terminal_error (te_code t) in
                    (Inl e, leave_stream parse f lss r' (if marks_engine_unavailable (error_of e) then stop_worker a2 else a2))
                | Stream_done \<Rightarrow>
                    (if te_count t = 0 then q_error Q_generation ''qwen3_no_audio'' else Inr None,
                     leave_stream parse f lss r' a2))
           | _ \<Rightarrow> (case fail_protocol a1 of (res, a2) \<Rightarrow> (res, leave_stream parse f lss r' a2)))))"

text \<open>The consumer closes the generator where it is suspended.\<close>

definition stream_close ::
  "(ptext \<Rightarrow> worker_event option) \<Rightarrow> machine_facts \<Rightarrow> got list list \<Rightarrow> qwen_adapter \<Rightarrow> qwen_adapter" where
  "stream_close parse f lss a =
     (case ad_stream a of None \<Rightarrow> a | Some r \<Rightarrow> leave_stream parse f lss r a)"

section \<open>Cancellation\<close>

text \<open>The answer of a cancellation that need not wait, or the attempt whose acknowledgement it waits for.\<close>

datatype cancel_start = Cancel_answered bool | Cancel_waits nat

definition cancel_begin :: "machine_facts \<Rightarrow> ptext \<Rightarrow> qwen_adapter \<Rightarrow> cancel_start \<times> qwen_adapter" where
  "cancel_begin f request a =
     (if ad_active a \<noteq> Some request
      then case dget (ad_recent a) request of
          Some (_, status) \<Rightarrow>
            (Cancel_answered True, a\<lparr>ad_recent := dpop request (ad_recent a), ad_last_cancel := Some status\<rparr>)
        | None \<Rightarrow> (Cancel_answered False, a\<lparr>ad_last_cancel := None\<rparr>)
      else case (dget (ad_acks a) request, ad_attempt a) of
          (Some m, Some n) \<Rightarrow>
            if m \<noteq> n then (Cancel_answered False, a)
            else (case send_command f (Cancel_command request) a of
                    (Inl _, a1) \<Rightarrow> (Cancel_answered False, stop_worker a1)
                  | (Inr _, a1) \<Rightarrow> (Cancel_waits n, a1))
        | _ \<Rightarrow> (Cancel_answered False, a))"

text \<open>After the wait, which ends with the acknowledgement or after two seconds.\<close>

definition cancel_end :: "ptext \<Rightarrow> nat \<Rightarrow> qwen_adapter \<Rightarrow> bool \<times> qwen_adapter" where
  "cancel_end request n a =
     (let status = (case dget (ad_recent a) request of
                      Some (m, s) \<Rightarrow> if m = n then Some s else None
                    | None \<Rightarrow> None);
          a1 = a\<lparr>ad_recent := dpop request (ad_recent a), ad_last_cancel := status\<rparr>
      in if status \<in> {Some ''cancelled'', Some ''already_done''} then (True, a1) else (False, stop_worker a1))"

section \<open>Invalidation and unloading\<close>

record invalidation_result =
  iv_voice :: ptext
  iv_matched :: bool
  iv_cancelled :: bool

text \<open>\<open>invalidate\<close> first looks whether the voice is selected and whether a request is active, which it cancels.\<close>

definition invalidate_matches :: "ptext \<Rightarrow> qwen_adapter \<Rightarrow> bool" where
  "invalidate_matches voice a \<longleftrightarrow> ad_voice a = Some voice"

definition qwen_invalidate_end ::
  "(ptext \<Rightarrow> worker_event option) \<Rightarrow> machine_facts \<Rightarrow> ptext \<Rightarrow> got list \<Rightarrow> ptext \<Rightarrow> bool \<Rightarrow> qwen_adapter
   \<Rightarrow> (qwen_error + invalidation_result) \<times> qwen_adapter" where
  "qwen_invalidate_end parse f request ls voice cancelled a =
     (let result = \<lparr>iv_voice = voice, iv_matched = True, iv_cancelled = cancelled\<rparr> in
      if ad_voice a \<noteq> Some voice then (Inr result, a)
      else case (ad_loaded a, ad_prompt a) of
        (True, Some key) \<Rightarrow>
          (case send_command f (Invalidate_command request key) a of
             (Inl e, a1) \<Rightarrow> (Inl e, a1)
           | (Inr _, a1) \<Rightarrow>
               (case read_event parse ls a1 of
                  (Inl e, a2) \<Rightarrow> (Inl e, a2)
                | (Inr ev, a2) \<Rightarrow>
                    if ev = Invalidated_event request key True then (Inr result, clear_selected_prompt a2)
                    else fail_protocol a2))
      | _ \<Rightarrow> (Inr result, clear_selected_prompt a))"

definition unload_end ::
  "(ptext \<Rightarrow> worker_event option) \<Rightarrow> machine_facts \<Rightarrow> ptext \<Rightarrow> got list \<Rightarrow> qwen_adapter \<Rightarrow> qwen_adapter" where
  "unload_end parse f request ls a =
     (let a1 = if alive a \<and> ad_loaded a
               then case send_command f (Unload_command request) a of
                   (Inl _, b) \<Rightarrow> b
                 | (Inr _, b) \<Rightarrow>
                     (case read_event parse ls b of
                        (Inl _, c) \<Rightarrow> c
                      | (Inr ev, c) \<Rightarrow>
                          (case ev of
                             Terminal_event q t \<Rightarrow> if q = request \<and> te_kind t = Stream_done then c else stop_worker c
                           | _ \<Rightarrow> stop_worker c))
               else a
      in stop_worker (clear_selected_prompt (a1\<lparr>ad_loaded := False\<rparr>)))"

text \<open>The worker process ends by itself.\<close>

definition process_exits :: "nat \<Rightarrow> qwen_adapter \<Rightarrow> qwen_adapter" where
  "process_exits p a = a\<lparr>ad_exited := insert p (ad_exited a)\<rparr>"

text \<open>The hash seed that the child process inherits; \<open>parse\<close> is \<open>int\<close> on a text.\<close>

definition sanitize_python_hash_seed :: "(ptext \<Rightarrow> int option) \<Rightarrow> (ptext, ptext) dict \<Rightarrow> (ptext, ptext) dict" where
  "sanitize_python_hash_seed parse env =
     (let k = lit ''PYTHONHASHSEED''; random = dset k (lit ''random'') env in
      case dget env k of
        None \<Rightarrow> env
      | Some v \<Rightarrow>
          if v = lit ''random'' then env
          else (case parse v of
                  None \<Rightarrow> random
                | Some n \<Rightarrow> if n < 0 \<or> 2 ^ 32 - 1 < n then random else env))"

end
