(* ===== verification/QwenAdapterLaws.thy ===== *)
theory QwenAdapterLaws
  imports QwenAdapter QwenWorkerLaws
begin

text \<open>
  What the adapter sends is valid, and the laws of its state: which attempt is in progress, which
  process runs, what a stop clears, and that a waiting cancellation is woken.
\<close>

section \<open>The command of a stream\<close>

lemma runs_of_Nil_iff: "runs_of P acc t = [] \<longleftrightarrow> acc = [] \<and> list_all (\<lambda>c. \<not> P c) t"
  by (induction P acc t rule: runs_of.induct) auto

lemma list_all_dropWhile: "list_all P t \<Longrightarrow> dropWhile P t = []"
  by (simp add: list_all_iff)

lemma strip_empty_iff: "strip t = [] \<longleftrightarrow> list_all py_space t"
proof -
  have "rstrip u = [] \<longleftrightarrow> list_all py_space u" for u
    by (auto simp: rstrip_def list_all_iff)
  moreover have "list_all py_space (lstrip t) \<longleftrightarrow> list_all py_space t"
    by (induction t) (auto simp: lstrip_def)
  ultimately show ?thesis by (simp add: strip_def)
qed

lemma text_words_0_iff: "text_words t = 0 \<longleftrightarrow> strip t = []"
  by (simp add: text_words_def strip_empty_iff runs_of_Nil_iff)

lemma hard_seconds_bounds: "6 \<le> hard_seconds n" "hard_seconds n \<le> 32"
  by (simp_all add: hard_seconds_def)

lemma big_endian_bound:
  "list_all (\<lambda>b. b < 256) bs \<Longrightarrow> foldl (\<lambda>n b. n * 256 + b) k bs < (Suc k) * 256 ^ length bs" for k :: nat
proof (induction bs arbitrary: k)
  case (Cons b bs)
  have "foldl (\<lambda>n b. n * 256 + b) (k * 256 + b) bs < Suc (k * 256 + b) * 256 ^ length bs"
    using Cons by simp
  also have "\<dots> \<le> (Suc k * 256) * 256 ^ length bs" using Cons.prems by (intro mult_le_mono1) simp
  finally show ?case by (simp add: algebra_simps)
qed simp

lemma voice_seed_ok:
  assumes "\<And>t. list_all (\<lambda>b. b < 256) (sha t)"
  shows "seed_ok (Some (voice_generation_seed sha key))"
proof -
  let ?bs = "take 4 (sha (lit ''rayme-qwen3-speaker-v1:'' @ key))"
  have "list_all (\<lambda>b. b < 256) ?bs" using assms by (metis list_all_append append_take_drop_id)
  then have "foldl (\<lambda>n b. n * 256 + b) 0 ?bs < 1 * 256 ^ length ?bs" using big_endian_bound [of ?bs 0] by simp
  also have "\<dots> \<le> (256 :: nat) ^ 4" by (simp add: power_increasing del: power_numeral)
  finally show ?thesis by (simp add: seed_ok_def voice_generation_seed_def)
qed

lemma round3_int: "round3 (of_int k) = of_int k"
proof -
  have "of_int k * 1000 = (of_int (k * 1000) :: rat)" by simp
  then have "round3 (of_int k) = of_int (k * 1000) / 1000" unfolding round3_def by (simp only: round_half_even_int)
  then show ?thesis by simp
qed

lemma generation_limits_bounds:
  assumes "generation_limits t = Inr (tokens, seconds)"
  shows "strip t \<noteq> []" "72 \<le> tokens" "tokens \<le> 384" "tokens mod 4 = 0" "6 \<le> seconds" "seconds \<le> 32"
proof -
  let ?h = "hard_seconds (text_words t)"
  have t: "text_words t \<noteq> 0" and e: "tokens = min 384 (\<lceil>?h * 12 / 4\<rceil> * 4)" "seconds = round3 ?h"
    using assms by (auto simp: generation_limits_def Let_def split: if_splits)
  show "strip t \<noteq> []" using t by (simp add: text_words_0_iff)
  have "18 \<le> \<lceil>?h * 12 / 4\<rceil>" using hard_seconds_bounds(1) [of "text_words t"] by (simp add: le_ceiling_iff)
  then show "72 \<le> tokens" "tokens \<le> 384" unfolding e by simp_all
  show "tokens mod 4 = 0" unfolding e min_def by simp
  show "6 \<le> seconds" "seconds \<le> 32" unfolding e
    using round3_mono [OF hard_seconds_bounds(1)] round3_mono [OF hard_seconds_bounds(2)] round3_int [of 6] round3_int [of 32]
    by simp_all
qed

text \<open>The evidence fields of a request: none, or the named mode with a seed in range.\<close>

definition evidence_ok :: "stream_request \<Rightarrow> bool" where
  "evidence_ok q \<longleftrightarrow> (sq_evidence_mode q = None \<and> sq_evidence_seed q = None)
     \<or> (sq_evidence_mode q = Some (lit ''phase09_release_evidence'') \<and> sq_evidence_seed q \<noteq> None
        \<and> seed_ok (sq_evidence_seed q))"

text \<open>
  \<^bold>\<open>C35\<close>. The limits that the adapter derives from a text never make an invalid command: for every text
  of at most 8000 characters that they accept, the command passes the constraints of the protocol
  (a multiple of four between 4 and 384 tokens, between 0.1 and 32 seconds, seeds of 32 bits, the seed
  rules of version 2), and the ceiling in milliseconds is one that the stream validator takes.
\<close>

theorem stream_command_is_valid:
  assumes "generation_limits (sq_text q) = Inr (tokens, seconds)" "length (sq_text q) \<le> 8000"
    and "identifier_ok request" "identifier_ok key" "evidence_ok q" "\<And>t. list_all (\<lambda>b. b < 256) (sha t)"
  shows "command_ok (generate_command sha request key q tokens seconds)
    \<and> \<not> isl (new_validator request (seconds * 1000))"
proof
  note b = generation_limits_bounds [OF assms(1)]
  show "\<not> isl (new_validator request (seconds * 1000))"
    using b(5,6) assms(3) by (simp add: new_validator_def)
  show "command_ok (generate_command sha request key q tokens seconds)"
    using b assms(2-5) voice_seed_ok [where sha = sha and key = key, OF assms(6)]
    by (auto simp: command_ok_def generate_ok_def generate_command_def Let_def paired_evidence_def evidence_ok_def seed_ok_def)
qed

lemma stream_command_is_valid_witness:
  "generation_limits (lit ''Good evening.'') = Inr (72, 6)
   \<and> command_ok (generate_command (\<lambda>_. [1, 2, 3, 4]) (lit ''turn-1'') (lit ''prompt_1'')
       \<lparr>sq_text = lit ''Good evening.'', sq_evidence_mode = None, sq_evidence_seed = None\<rparr> 72 6)
   \<and> \<not> isl (new_validator (lit ''turn-1'') (6 * 1000))"
proof -
  let ?q = "\<lparr>sq_text = lit ''Good evening.'', sq_evidence_mode = None, sq_evidence_seed = None\<rparr>"
  have a: "generation_limits (sq_text ?q) = Inr (72, 6)" by code_simp
  have b: "length (sq_text ?q) \<le> 8000" "identifier_ok (lit ''turn-1'')" "identifier_ok (lit ''prompt_1'')" "evidence_ok ?q"
    by (simp, code_simp+)
  from stream_command_is_valid [OF a b, of "\<lambda>_. [1, 2, 3, 4]"] a show ?thesis by simp
qed

section \<open>Steps of the adapter\<close>

record adapter_libs =
  al_digests :: digests
  al_codec :: "nat list \<Rightarrow> wav_facts option"
  al_parse :: "ptext \<Rightarrow> worker_event option"
  al_sha :: "ptext \<Rightarrow> nat list"

datatype adapter_op =
    A_load machine_facts ptext "got list"
  | A_prewarm machine_facts ptext "got list" machine_facts ptext "got list" prewarm_request
  | A_begin machine_facts ptext "got list" machine_facts ptext "got list list" stream_request "ptext option"
  | A_next machine_facts "got list" "got list list"
  | A_close machine_facts "got list list"
  | A_cancel machine_facts ptext
  | A_answer nat
  | A_invalidate machine_facts ptext "got list" ptext bool
  | A_unload machine_facts ptext "got list"
  | A_exit

text \<open>
  The adapter and the cancellations that wait, each for the acknowledgement of one attempt. An
  operation that needs the lock is not enabled while a stream holds it.
\<close>

definition adapter_do ::
  "adapter_libs \<Rightarrow> adapter_op \<Rightarrow> qwen_adapter \<times> (ptext \<times> nat) list \<Rightarrow> qwen_adapter \<times> (ptext \<times> nat) list" where
  "adapter_do L x s =
     (let a = fst s; ws = snd s; free = (ad_stream a = None) in
      case x of
        A_load f request ls \<Rightarrow> if free then (snd (load (al_parse L) f request ls a), ws) else s
      | A_prewarm fl rl lsl f request ls w \<Rightarrow>
          if free then (snd (prewarm (al_digests L) (al_parse L) fl rl lsl f request ls w a), ws) else s
      | A_begin fl rl lsl f request lss q voice \<Rightarrow>
          if free then (snd (stream_begin (al_sha L) (al_parse L) fl rl lsl f request lss q voice a), ws) else s
      | A_next f ls lss \<Rightarrow>
          (case ad_stream a of None \<Rightarrow> s | Some r \<Rightarrow> (snd (stream_next (al_codec L) (al_parse L) f ls lss r a), ws))
      | A_close f lss \<Rightarrow> (stream_close (al_parse L) f lss a, ws)
      | A_cancel f request \<Rightarrow>
          (case cancel_begin f request a of
             (Cancel_answered _, a1) \<Rightarrow> (a1, ws)
           | (Cancel_waits n, a1) \<Rightarrow> (a1, ws @ [(request, n)]))
      | A_answer i \<Rightarrow>
          if i < length ws
          then (snd (cancel_end (fst (ws ! i)) (snd (ws ! i)) a), take i ws @ drop (Suc i) ws) else s
      | A_invalidate f request ls voice cancelled \<Rightarrow>
          if free then (snd (qwen_invalidate_end (al_parse L) f request ls voice cancelled a), ws) else s
      | A_unload f request ls \<Rightarrow> if free then (unload_end (al_parse L) f request ls a, ws) else s
      | A_exit \<Rightarrow> (case ad_process a of None \<Rightarrow> s | Some p \<Rightarrow> (process_exits p a, ws)))"

text \<open>
  What the parts that write and read share: they keep the attempt in progress, only add
  acknowledgements, and leave a state in which the selection belongs to a loaded engine and a loaded
  engine has a process.
\<close>

definition attempt_view where
  "attempt_view a = (ad_active a, ad_attempt a, ad_attempts a, ad_acks a, ad_stream a)"

definition engine_ok :: "qwen_adapter \<Rightarrow> bool" where
  "engine_ok a \<longleftrightarrow> (ad_voice a = None \<longleftrightarrow> ad_prompt a = None) \<and> (ad_voice a \<noteq> None \<longrightarrow> ad_loaded a)
     \<and> (ad_loaded a \<longrightarrow> ad_process a \<noteq> None)
     \<and> (\<forall>p \<in> set_option (ad_process a). p < ad_started a) \<and> (\<forall>p \<in> ad_exited a. p < ad_started a)"

text \<open>A step without a spontaneous exit: the process exits only when it is stopped.\<close>

definition quiet_process :: "qwen_adapter \<Rightarrow> bool" where
  "quiet_process a \<longleftrightarrow> (\<forall>p \<in> set_option (ad_process a). p \<notin> ad_exited a)"

text \<open>\<open>b\<close> comes from \<open>a\<close> by writing, reading and stopping.\<close>

definition comes_from :: "qwen_adapter \<Rightarrow> qwen_adapter \<Rightarrow> bool" where
  "comes_from a b \<longleftrightarrow> attempt_view b = attempt_view a \<and> ad_acked a \<subseteq> ad_acked b
     \<and> (engine_ok a \<longrightarrow> engine_ok b \<and> (quiet_process a \<longrightarrow> quiet_process b))
     \<and> (ad_process b = None \<longrightarrow> ad_process a = None \<or> snd ` set (ad_acks a) \<subseteq> ad_acked b)"

lemma comes_refl [simp]: "comes_from a a"
  by (auto simp: comes_from_def)

lemma comes_trans: "comes_from a b \<Longrightarrow> comes_from b c \<Longrightarrow> comes_from a c"
  by (auto simp: comes_from_def attempt_view_def)

lemma comes_stop: "comes_from a (stop_worker a)"
  by (auto simp: comes_from_def attempt_view_def engine_ok_def quiet_process_def stop_worker_def clear_selected_prompt_def)

lemma comes_clear: "comes_from a (clear_selected_prompt a)"
  by (auto simp: comes_from_def attempt_view_def engine_ok_def quiet_process_def clear_selected_prompt_def)

lemma comes_ensure: "ensure_worker f a = (r, b) \<Longrightarrow> comes_from a b"
proof -
  have "comes_from a (a\<lparr>ad_process := Some (ad_started a), ad_started := Suc (ad_started a)\<rparr>)"
    by (auto simp: comes_from_def attempt_view_def engine_ok_def quiet_process_def less_Suc_eq)
  then show "ensure_worker f a = (r, b) \<Longrightarrow> comes_from a b"
    by (auto simp: ensure_worker_def comes_stop split: if_splits)
qed

lemma ensure_alive: "ensure_worker f a = (Inr p, b) \<Longrightarrow> ad_process b = Some p"
  by (auto simp: ensure_worker_def alive_def split: if_splits option.splits)

lemma comes_sent: "comes_from a (a\<lparr>ad_sent := x\<rparr>)"
  by (auto simp: comes_from_def attempt_view_def engine_ok_def quiet_process_def)

lemma comes_send:
  assumes "send_command f c a = (r, b)"
  shows "comes_from a b"
proof (cases "ensure_worker f a")
  case (Pair s a1)
  have "comes_from a a1" by (rule comes_ensure [OF Pair])
  moreover have "b \<in> {a1, stop_worker a1, a1\<lparr>ad_sent := ad_sent a1 @ [(projr s, c)]\<rparr>}"
    using assms by (auto simp: send_command_def Pair split: sum.splits if_splits)
  ultimately show ?thesis using comes_trans comes_stop comes_sent comes_refl by blast
qed

lemma send_process: "send_command f c a = (Inr u, b) \<Longrightarrow> ad_process b \<noteq> None"
  by (auto simp: send_command_def split: prod.splits sum.splits if_splits dest: ensure_alive)

lemma comes_read_lines: "read_lines parse ls a = (r, b) \<Longrightarrow> comes_from a b"
  by (induction parse ls a rule: read_lines.induct)
    (auto simp: comes_stop fail_protocol_def split: if_splits option.splits)

lemma comes_read: "read_event parse ls a = (r, b) \<Longrightarrow> comes_from a b"
  by (auto simp: read_event_def comes_read_lines split: if_splits)

lemma read_lines_Inr: "read_lines parse ls a = (Inr e, b) \<Longrightarrow> b = a"
  by (induction parse ls a rule: read_lines.induct) (auto simp: fail_protocol_def split: if_splits option.splits)

lemma read_Inr: "read_event parse ls a = (Inr e, b) \<Longrightarrow> b = a \<and> ad_process a \<noteq> None"
  by (auto simp: read_event_def dest: read_lines_Inr split: if_splits)

lemma read_process: "read_event parse ls a = (Inl e, b) \<Longrightarrow> ad_process b = None"
proof -
  have "read_lines parse ls a = (Inl e, b) \<Longrightarrow> ad_process b = None"
    by (induction parse ls a rule: read_lines.induct)
      (auto simp: fail_protocol_def stop_worker_def split: if_splits option.splits)
  then show "read_event parse ls a = (Inl e, b) \<Longrightarrow> ad_process b = None"
    by (auto simp: read_event_def split: if_splits)
qed

lemma comes_loaded: "ad_process a \<noteq> None \<Longrightarrow> comes_from a (a\<lparr>ad_reserved := x, ad_loaded := True\<rparr>)"
  by (auto simp: comes_from_def attempt_view_def engine_ok_def quiet_process_def)

lemma comes_fail: "comes_from a (snd (fail_protocol a))"
  by (simp add: fail_protocol_def comes_stop)

lemma comes_load: "comes_from a (snd (load parse f request ls a))"
proof -
  have *: "comes_from a a3" if "ensure_worker f a = (r1, a1)" "send_command f c a1 = (r2, a2)" "read_event parse ls a2 = (r3, a3)"
    for r1 a1 c r2 a2 r3 a3
    using comes_trans [OF comes_ensure [OF that(1)] comes_trans [OF comes_send [OF that(2)] comes_read [OF that(3)]]] .
  have s: "comes_from a a2" if "ensure_worker f a = (r1, a1)" "send_command f c a1 = (r2, a2)" for r1 a1 c r2 a2
    using comes_trans [OF comes_ensure [OF that(1)] comes_send [OF that(2)]] .
  have "ad_process a3 \<noteq> None" if "read_event parse ls a2 = (Inr e, a3)" for e a2 a3
    using read_Inr [OF that] by simp
  then show ?thesis
    by (auto simp: load_def split: prod.splits sum.splits worker_event.splits
        intro: comes_ensure s * comes_trans [OF * comes_loaded] comes_trans [OF * comes_fail] comes_trans [OF * comes_stop])
qed

lemma ensure_Inr: "ensure_worker f a = (Inr p, b) \<Longrightarrow> ad_loaded b = ad_loaded a \<and> ad_voice b = ad_voice a \<and> ad_prompt b = ad_prompt a"
  by (auto simp: ensure_worker_def split: if_splits)

lemma send_Inr: "send_command f c a = (Inr u, b) \<Longrightarrow> ad_loaded b = ad_loaded a \<and> ad_voice b = ad_voice a \<and> ad_prompt b = ad_prompt a"
  by (auto simp: send_command_def split: prod.splits sum.splits if_splits dest: ensure_Inr)

lemma load_loaded: "load parse f request ls a = (Inr u, b) \<Longrightarrow> ad_loaded b"
  by (auto simp: load_def fail_protocol_def split: if_splits prod.splits sum.splits worker_event.splits)

lemma comes_selected:
  "ad_loaded a \<Longrightarrow> ad_process a \<noteq> None \<Longrightarrow> comes_from a (a\<lparr>ad_voice := Some v, ad_prompt := Some k\<rparr>)"
  by (auto simp: comes_from_def attempt_view_def engine_ok_def quiet_process_def)

lemma clear_loaded [simp]: "ad_loaded (clear_selected_prompt a) = ad_loaded a"
  by (simp add: clear_selected_prompt_def)

lemma comes_prewarm_loaded:
  assumes "ad_loaded a"
  shows "comes_from a (snd (prewarm_loaded d parse f request ls w a))"
proof -
  have s: "comes_from a a1" if "send_command f c (clear_selected_prompt a) = (r1, a1)" for r1 a1 c
    using comes_trans [OF comes_clear comes_send [OF that]] .
  have r: "comes_from a a2" if "send_command f c (clear_selected_prompt a) = (r1, a1)" "read_event parse ls a1 = (r2, a2)"
    for r1 a1 c r2 a2 using comes_trans [OF s [OF that(1)] comes_read [OF that(2)]] .
  have l: "ad_loaded a2" "ad_process a2 \<noteq> None"
    if "send_command f c (clear_selected_prompt a) = (Inr u, a1)" "read_event parse ls a1 = (Inr e, a2)" for u a1 c e a2
    using send_Inr [OF that(1)] read_Inr [OF that(2)] assms by simp_all
  show ?thesis
    by (auto simp: prewarm_loaded_def Let_def split: prod.splits sum.splits worker_event.splits
        intro: s r comes_trans [OF r comes_fail] comes_trans [OF r comes_selected [OF l]])
qed

lemma comes_prewarm: "comes_from a (snd (prewarm d parse fl rl lsl f request ls w a))"
proof (cases "load parse fl rl lsl a")
  case (Pair res a1)
  then have c: "comes_from a a1" using comes_load [of a parse fl rl lsl] by simp
  show ?thesis
    using Pair c comes_prewarm_loaded [of a d parse f request ls w]
      comes_trans [OF c comes_prewarm_loaded [OF load_loaded, of parse fl rl lsl a]]
    by (auto simp: prewarm_def split: sum.splits)
qed

lemma comes_invalidate: "comes_from a (snd (qwen_invalidate_end parse f request ls voice cancelled a))"
proof -
  have r: "comes_from a a2" if "send_command f c a = (r1, a1)" "read_event parse ls a1 = (r2, a2)"
    for r1 a1 c r2 a2 using comes_trans [OF comes_send [OF that(1)] comes_read [OF that(2)]] .
  show ?thesis
    by (auto simp: qwen_invalidate_end_def Let_def comes_clear split: prod.splits sum.splits bool.splits option.splits
        intro: comes_send r comes_trans [OF r comes_clear] comes_trans [OF r comes_fail])
qed

lemma comes_unload: "comes_from a (unload_end parse f request ls a)"
proof -
  have r: "comes_from a a2" if "send_command f c a = (r1, a1)" "read_event parse ls a1 = (r2, a2)"
    for r1 a1 c r2 a2 using comes_trans [OF comes_send [OF that(1)] comes_read [OF that(2)]] .
  have "comes_from b (stop_worker (clear_selected_prompt (b\<lparr>ad_loaded := False\<rparr>)))" for b
    by (auto simp: comes_from_def attempt_view_def engine_ok_def quiet_process_def stop_worker_def clear_selected_prompt_def)
  then show ?thesis
    by (auto simp: unload_end_def Let_def split: prod.splits sum.splits worker_event.splits
        intro: comes_send r comes_trans [OF comes_send] comes_trans [OF r] comes_trans [OF comes_trans [OF r comes_stop]])
qed

section \<open>Attempts\<close>

definition in_progress :: "qwen_run \<Rightarrow> qwen_adapter \<Rightarrow> bool" where
  "in_progress r a \<longleftrightarrow> ad_active a = Some (sr_request r) \<and> ad_attempt a = Some (sr_attempt r)
     \<and> ad_acks a = [(sr_request r, sr_attempt r)]"

definition attempt_ok :: "qwen_adapter \<Rightarrow> bool" where
  "attempt_ok a \<longleftrightarrow>
     (case ad_stream a of
        None \<Rightarrow> ad_active a = None \<and> ad_attempt a = None \<and> ad_acks a = []
      | Some r \<Rightarrow> in_progress r a \<and> va_terminal (sr_validator r) = None)"

definition adapter_ok :: "qwen_adapter \<Rightarrow> bool" where
  "adapter_ok a \<longleftrightarrow> engine_ok a \<and> attempt_ok a"

text \<open>An attempt whose process was stopped has been acknowledged.\<close>

definition woken :: "qwen_run \<Rightarrow> qwen_adapter \<Rightarrow> bool" where
  "woken r a \<longleftrightarrow> (ad_process a = None \<longrightarrow> sr_attempt r \<in> ad_acked a)"

lemma comes_attempt: "comes_from a b \<Longrightarrow> attempt_ok b = attempt_ok a"
  by (auto simp: comes_from_def attempt_view_def attempt_ok_def in_progress_def split: option.splits)

lemma comes_progress: "comes_from a b \<Longrightarrow> in_progress r b = in_progress r a"
  by (auto simp: comes_from_def attempt_view_def in_progress_def)

lemma comes_ok: "comes_from a b \<Longrightarrow> adapter_ok a \<Longrightarrow> adapter_ok b"
  by (simp add: adapter_ok_def comes_attempt) (simp add: comes_from_def)

lemma comes_woken: "comes_from a b \<Longrightarrow> in_progress r a \<Longrightarrow> woken r a \<Longrightarrow> woken r b"
  by (auto simp: comes_from_def in_progress_def woken_def)

lemma comes_terminal: "comes_from a (new_terminal request n k a)"
  by (auto simp: comes_from_def attempt_view_def engine_ok_def quiet_process_def new_terminal_def)

lemma comes_drain: "comes_from a (drain parse lss r a)"
proof (induction parse lss r a rule: drain.induct)
  case (1 parse r a)
  then show ?case
    using comes_trans [OF comes_read comes_stop, of parse "[]" a] by (cases "read_event parse [] a") auto
next
  case (2 parse ls lss r a)
  show ?case
  proof (cases "read_event parse ls a")
    case (Pair res a1)
    have c: "comes_from a a1" by (rule comes_read [OF Pair])
    show ?thesis
    proof (cases res)
      case (Inl e)
      then show ?thesis using Pair comes_trans [OF c comes_stop] by simp
    next
      case (Inr e)
      show ?thesis
      proof (cases "accept (sr_validator r) e")
        case (Inl x)
        then show ?thesis using Pair Inr comes_trans [OF c comes_stop] by simp
      next
        case A: (Inr v)
        note IH = 2 [OF Pair [symmetric] Inr A]
        show ?thesis
          using Pair Inr A IH c by (cases "terminal_of e") (simp_all add: comes_trans [OF c] comes_terminal)
      qed
    qed
  qed
qed

lemma stop_acked: "ad_acks a = [(q, n)] \<Longrightarrow> n \<in> ad_acked (stop_worker a)"
  by (simp add: stop_worker_def clear_selected_prompt_def)

lemma read_acks: "read_event parse ls a = (res, b) \<Longrightarrow> ad_acks b = ad_acks a"
  by (drule comes_read) (simp add: comes_from_def attempt_view_def)

lemma drain_acked: "ad_acks a = [(q, sr_attempt r)] \<Longrightarrow> sr_attempt r \<in> ad_acked (drain parse lss r a)"
proof (induction parse lss r a rule: drain.induct)
  case (1 parse r a)
  then show ?case
    by (cases "read_event parse [] a") (simp add: stop_acked read_acks)
next
  case (2 parse ls lss r a)
  then show ?case
    by (cases "read_event parse ls a")
      (auto simp: stop_acked read_acks new_terminal_def split: sum.splits option.splits)
qed

lemma comes_cancel_and_drain: "comes_from a (cancel_and_drain parse f lss r a)"
  by (auto simp: cancel_and_drain_def split: prod.splits sum.splits
      intro: comes_trans [OF comes_send comes_stop] comes_trans [OF comes_send comes_drain])

lemma cancel_and_drain_acked:
  assumes "in_progress r a" "woken r a" "quiet_process a"
  shows "sr_attempt r \<in> ad_acked (cancel_and_drain parse f lss r a)"
proof (cases "send_command f (Cancel_command (sr_request r)) a")
  case (Pair res a1)
  then have "ad_acks a1 = [(sr_request r, sr_attempt r)]"
    using comes_send [OF Pair] assms(1) by (simp add: comes_from_def attempt_view_def in_progress_def)
  then have "sr_attempt r \<in> ad_acked (stop_worker a1)" "sr_attempt r \<in> ad_acked (drain parse lss r a1)"
    by (auto simp: stop_worker_def clear_selected_prompt_def intro: drain_acked)
  then show ?thesis
    using assms Pair
    by (auto simp: cancel_and_drain_def woken_def quiet_process_def alive_def in_progress_def split: option.splits sum.splits)
qed

lemma forget_attempt:
  "engine_ok (a\<lparr>ad_active := x, ad_attempt := y, ad_acks := z, ad_stream := u\<rparr>) = engine_ok a"
  "quiet_process (a\<lparr>ad_active := x, ad_attempt := y, ad_acks := z, ad_stream := u\<rparr>) = quiet_process a"
  by (simp_all add: engine_ok_def quiet_process_def)

lemma leave_fields:
  assumes "in_progress r a"
  shows "ad_stream (leave_stream parse f lss r a) = None" "attempt_ok (leave_stream parse f lss r a)"
    "engine_ok a \<Longrightarrow> engine_ok (leave_stream parse f lss r a)"
    "quiet_process a \<Longrightarrow> engine_ok a \<Longrightarrow> quiet_process (leave_stream parse f lss r a)"
    "ad_acked a \<subseteq> ad_acked (leave_stream parse f lss r a)"
    "woken r a \<Longrightarrow> quiet_process a \<Longrightarrow> (va_terminal (sr_validator r) \<noteq> None \<Longrightarrow> sr_attempt r \<in> ad_acked a) \<Longrightarrow>
       sr_attempt r \<in> ad_acked (leave_stream parse f lss r a)"
proof -
  let ?b = "if va_terminal (sr_validator r) = None then cancel_and_drain parse f lss r a else a"
  have c: "comes_from a ?b" by (simp add: comes_cancel_and_drain)
  then have p: "in_progress r ?b" using assms by (simp add: comes_progress)
  then have l: "leave_stream parse f lss r a = ?b\<lparr>ad_active := None, ad_attempt := None, ad_acks := [], ad_stream := None\<rparr>"
    by (simp add: leave_stream_def Let_def in_progress_def dpop_def)
  show "ad_stream (leave_stream parse f lss r a) = None" "attempt_ok (leave_stream parse f lss r a)"
    unfolding l by (simp_all add: attempt_ok_def)
  show "engine_ok a \<Longrightarrow> engine_ok (leave_stream parse f lss r a)"
    "quiet_process a \<Longrightarrow> engine_ok a \<Longrightarrow> quiet_process (leave_stream parse f lss r a)"
    "ad_acked a \<subseteq> ad_acked (leave_stream parse f lss r a)"
    using c unfolding l forget_attempt by (simp_all add: comes_from_def del: if_split)
  show "sr_attempt r \<in> ad_acked (leave_stream parse f lss r a)"
    if "woken r a" "quiet_process a" "va_terminal (sr_validator r) \<noteq> None \<Longrightarrow> sr_attempt r \<in> ad_acked a"
    using that cancel_and_drain_acked [OF assms that(1,2)] unfolding l by simp
qed

section \<open>Waiting cancellations\<close>

text \<open>
  The invariant of the steps in which no process exits by itself: a cancellation that waits is
  acknowledged or waits for the attempt in progress.
\<close>

definition waits_served :: "qwen_adapter \<times> (ptext \<times> nat) list \<Rightarrow> bool" where
  "waits_served s \<longleftrightarrow> adapter_ok (fst s) \<and> quiet_process (fst s)
     \<and> (case ad_stream (fst s) of None \<Rightarrow> True | Some r \<Rightarrow> woken r (fst s))
     \<and> list_all (\<lambda>w. snd w \<in> ad_acked (fst s) \<or> map_option sr_attempt (ad_stream (fst s)) = Some (snd w)) (snd s)"

definition awaited :: "(ptext \<times> nat) list \<Rightarrow> qwen_run \<Rightarrow> qwen_adapter \<Rightarrow> bool" where
  "awaited ws r a \<longleftrightarrow> list_all (\<lambda>w. snd w \<in> ad_acked a \<or> snd w = sr_attempt r) ws"

lemma served_comes: "waits_served (a, ws) \<Longrightarrow> comes_from a b \<Longrightarrow> waits_served (b, ws)"
proof -
  assume s: "waits_served (a, ws)" and c: "comes_from a b"
  have "ad_stream b = ad_stream a" "ad_acked a \<subseteq> ad_acked b" using c by (simp_all add: comes_from_def attempt_view_def)
  moreover have "quiet_process b" using s c by (simp add: waits_served_def adapter_ok_def comes_from_def)
  moreover have "woken r b" if "ad_stream a = Some r" for r
    using s that by (intro comes_woken [OF c]) (simp_all add: waits_served_def adapter_ok_def attempt_ok_def)
  ultimately show ?thesis using s comes_ok [OF c] by (auto simp: waits_served_def list_all_iff split: option.splits)
qed

lemma served_ready:
  assumes "engine_ok a" "quiet_process a" "in_progress r a" "woken r a" "va_terminal (sr_validator r) = None"
    and "awaited ws r a"
  shows "waits_served (a\<lparr>ad_stream := Some r\<rparr>, ws)"
proof -
  have "engine_ok (a\<lparr>ad_stream := Some r\<rparr>) = engine_ok a" "quiet_process (a\<lparr>ad_stream := Some r\<rparr>) = quiet_process a"
    by (simp_all add: engine_ok_def quiet_process_def)
  then show ?thesis using assms
    by (simp add: waits_served_def adapter_ok_def attempt_ok_def in_progress_def woken_def awaited_def eq_commute)
qed

lemma served_leave:
  assumes "engine_ok a" "quiet_process a" "in_progress r a" "woken r a"
    and "va_terminal (sr_validator r) \<noteq> None \<Longrightarrow> sr_attempt r \<in> ad_acked a"
    and "awaited ws r a"
  shows "waits_served (leave_stream parse f lss r a, ws)"
proof -
  note l = leave_fields [OF assms(3), of parse f lss]
  have "list_all (\<lambda>w. snd w \<in> ad_acked (leave_stream parse f lss r a)) ws"
    using assms(6) l(5) l(6) [OF assms(4,2,5)] by (auto simp: awaited_def list_all_iff)
  then show ?thesis using l(1-4) assms(1,2) by (simp add: waits_served_def adapter_ok_def)
qed

text \<open>The state that a stream finds when it goes on: \<open>b\<close> comes from a served state with the stream \<open>r\<close>.\<close>

lemma served_goes_on:
  assumes s: "waits_served (a, ws)" and r: "ad_stream a = Some r" and c: "comes_from a b"
  shows "engine_ok b" "quiet_process b" "in_progress r b" "woken r b" "va_terminal (sr_validator r) = None"
    "awaited ws r b"
proof -
  have b: "waits_served (b, ws)" by (rule served_comes [OF s c])
  moreover have "ad_stream b = Some r" using c r by (simp add: comes_from_def attempt_view_def)
  ultimately show "engine_ok b" "quiet_process b" "in_progress r b" "woken r b" "va_terminal (sr_validator r) = None"
    "awaited ws r b"
    by (simp_all add: waits_served_def adapter_ok_def attempt_ok_def awaited_def eq_commute)
qed

lemma stop_marks [simp]: "comes_from a b \<Longrightarrow> comes_from a (stop_worker b)"
  by (rule comes_trans [OF _ comes_stop])

lemma accept_keeps: "accept v e = Inr v' \<Longrightarrow> terminal_of e = None \<Longrightarrow> va_terminal v' = va_terminal v"
  by (auto simp: accept_def terminal_of_def split: if_splits worker_event.splits)

lemma accept_terminal: "accept v e = Inr v' \<Longrightarrow> va_terminal v' = (case terminal_of e of None \<Rightarrow> None | Some t \<Rightarrow> Some t)"
  by (auto simp: accept_def terminal_of_def split: if_splits worker_event.splits)

lemma in_progress_validator [simp]:
  "in_progress (r\<lparr>sr_validator := v\<rparr>) a = in_progress r a" "woken (r\<lparr>sr_validator := v\<rparr>) a = woken r a"
  "awaited ws (r\<lparr>sr_validator := v\<rparr>) a = awaited ws r a"
  by (simp_all add: in_progress_def woken_def awaited_def)

lemma served_next:
  assumes s: "waits_served (a, ws)" and r: "ad_stream a = Some r"
  shows "waits_served (snd (stream_next codec parse f ls lss r a), ws)"
proof (cases "read_event parse ls a")
  case (Pair res a1)
  have c: "comes_from a a1" by (rule comes_read [OF Pair])
  have leave: "waits_served (leave_stream parse f lss r b, ws)" if "comes_from a b" for b
    using served_goes_on [OF s r that] by (intro served_leave) simp_all
  have leave': "waits_served (leave_stream parse f lss (r\<lparr>sr_validator := v\<rparr>) b, ws)"
    if "comes_from a b" "va_terminal v \<noteq> None \<Longrightarrow> sr_attempt r \<in> ad_acked b" for v b
    using served_goes_on [OF s r that(1)] that(2) by (intro served_leave) simp_all
  show ?thesis
  proof (cases res)
    case (Inl e)
    then show ?thesis using Pair leave [OF c] by (simp add: stream_next_def)
  next
    case (Inr ev)
    show ?thesis
    proof (cases "accept (sr_validator r) ev")
      case (Inl x)
      then show ?thesis using Pair Inr leave [OF comes_trans [OF c comes_stop]] by (simp add: stream_next_def fail_protocol_def)
    next
      case A: (Inr v)
      let ?r = "r\<lparr>sr_validator := v\<rparr>"
      note v = accept_terminal [OF A]
      show ?thesis
      proof (cases ev)
        case (Chunk_event q d)
        have c2: "comes_from a (a1\<lparr>ad_reserved := Some (ch_reserved d)\<rparr>)"
          by (rule comes_trans [OF c]) (auto simp: comes_from_def attempt_view_def engine_ok_def quiet_process_def)
        have t: "va_terminal v = None" using v Chunk_event by (simp add: terminal_of_def)
        have "waits_served (a1\<lparr>ad_reserved := Some (ch_reserved d), ad_stream := Some ?r\<rparr>, ws)"
          using served_goes_on [OF s r c2] t by (intro served_ready) simp_all
        then show ?thesis
          using Pair Inr A Chunk_event t leave' [OF comes_trans [OF c2 comes_stop], of v]
          by (auto simp: stream_next_def fail_protocol_def Let_def split: option.splits)
      next
        case (Terminal_event q t)
        let ?a2 = "trim_terminals (new_terminal (sr_request r) (sr_attempt r) (te_kind t) a1)"
        have c2: "comes_from a ?a2"
          by (rule comes_trans [OF comes_trans [OF c comes_terminal]])
            (auto simp: comes_from_def attempt_view_def engine_ok_def quiet_process_def trim_terminals_def)
        have n: "sr_attempt r \<in> ad_acked ?a2" by (simp add: trim_terminals_def new_terminal_def)
        then have "sr_attempt r \<in> ad_acked (stop_worker ?a2)" by (simp add: stop_worker_def clear_selected_prompt_def)
        then show ?thesis
          using Pair Inr A Terminal_event n leave' [OF c2] leave' [OF comes_trans [OF c2 comes_stop]]
          by (auto simp: stream_next_def Let_def split: terminal_kind.splits)
      qed (use Pair Inr A leave' [OF comes_trans [OF c comes_stop], of v] v in \<open>auto simp: stream_next_def fail_protocol_def terminal_of_def\<close>)
    qed
  qed
qed

lemma served_close: "waits_served (a, ws) \<Longrightarrow> waits_served (stream_close parse f lss a, ws)"
proof (cases "ad_stream a")
  case (Some r)
  assume s: "waits_served (a, ws)"
  show ?thesis using served_goes_on [OF s Some comes_refl] Some
    by (simp add: stream_close_def) (rule served_leave, simp_all)
qed (simp add: stream_close_def)

lemma served_begin_loaded:
  assumes s: "waits_served (a, ws)" and n: "ad_stream a = None"
  shows "waits_served (snd (stream_loaded sha parse f request lss q voice a), ws)"
proof -
  let ?n = "Suc (ad_attempts a)"
  have "waits_served (snd (case send_command f c (a\<lparr>ad_attempts := ?n, ad_recent := dpop request (ad_recent a),
            ad_active := Some request, ad_attempt := Some ?n, ad_acks := dset request ?n (ad_acks a), ad_stream := Some r\<rparr>) of
          (Inl e, a2) \<Rightarrow> (Inl e, leave_stream parse f lss r a2) | (Inr _, a2) \<Rightarrow> (Inr (), a2)), ws)"
    if r: "r = \<lparr>sr_request = request, sr_attempt = ?n, sr_validator = v\<rparr>" "va_terminal v = None"
      and v: "ad_voice a \<noteq> None" for r c v
  proof -
    let ?a = "a\<lparr>ad_attempts := ?n, ad_recent := dpop request (ad_recent a),
            ad_active := Some request, ad_attempt := Some ?n, ad_acks := dset request ?n (ad_acks a), ad_stream := Some r\<rparr>"
    have e: "engine_ok a" "quiet_process a" "ad_acks a = []" using s n by (simp_all add: waits_served_def adapter_ok_def attempt_ok_def)
    have "ad_process a \<noteq> None" using e(1) v by (simp add: engine_ok_def)
    moreover have "list_all (\<lambda>w. snd w \<in> ad_acked a) ws" using s n by (simp add: waits_served_def)
    moreover have "engine_ok ?a = engine_ok a" "quiet_process ?a = quiet_process a" by (simp_all add: engine_ok_def quiet_process_def)
    ultimately have s1: "waits_served (?a, ws)"
      using e r by (auto simp: waits_served_def adapter_ok_def attempt_ok_def in_progress_def woken_def dset_def list_all_iff)
    show ?thesis
    proof (cases "send_command f c ?a")
      case (Pair res a2)
      note c = comes_send [OF Pair]
      have "waits_served (leave_stream parse f lss r a2, ws)"
        using served_goes_on [OF s1 _ c, of r] by (intro served_leave) simp_all
      then show ?thesis using Pair served_comes [OF s1 c] by (simp split: sum.splits)
    qed
  qed
  then show ?thesis using s
    by (auto simp: stream_loaded_def Let_def new_validator_def split: sum.splits if_splits)
qed

lemma served_begin:
  assumes s: "waits_served (a, ws)" and n: "ad_stream a = None"
  shows "waits_served (snd (stream_begin sha parse fl rl lsl f request lss q voice a), ws)"
proof (cases "load parse fl rl lsl a")
  case (Pair res a1)
  have c: "comes_from a a1" using comes_load [of a parse fl rl lsl] Pair by simp
  then have "ad_stream a1 = None" using n by (simp add: comes_from_def attempt_view_def)
  then show ?thesis using Pair served_comes [OF s c] served_begin_loaded [OF s n] served_begin_loaded
    by (simp add: stream_begin_def split: sum.splits)
qed

lemma comes_recent: "comes_from a (a\<lparr>ad_recent := x, ad_last_cancel := y\<rparr>)"
  by (auto simp: comes_from_def attempt_view_def engine_ok_def quiet_process_def)

lemma comes_last: "comes_from a (a\<lparr>ad_last_cancel := y\<rparr>)"
  by (auto simp: comes_from_def attempt_view_def engine_ok_def quiet_process_def)

lemma comes_cancel_begin: "cancel_begin f request a = (c, b) \<Longrightarrow> comes_from a b"
  by (auto simp: cancel_begin_def comes_recent comes_last comes_send
      split: if_splits option.splits prod.splits sum.splits intro: comes_trans [OF comes_send comes_stop])

lemma cancel_waits: "cancel_begin f request a = (Cancel_waits n, b) \<Longrightarrow> ad_attempt a = Some n"
  by (auto simp: cancel_begin_def split: if_splits option.splits prod.splits sum.splits)

lemma comes_cancel_end: "comes_from a (snd (cancel_end request n a))"
  by (auto simp: cancel_end_def Let_def comes_recent intro: comes_trans [OF comes_recent comes_stop])

lemma served_drop: "waits_served (a, ws) \<Longrightarrow> waits_served (a, take i ws @ drop (Suc i) ws)"
  by (auto simp: waits_served_def list_all_iff dest: in_set_takeD in_set_dropD split: option.splits)

lemma waits_served_step:
  assumes s: "waits_served s" and x: "x \<noteq> A_exit"
  shows "waits_served (adapter_do L x s)"
proof -
  obtain a ws where a: "s = (a, ws)" by (cases s)
  then have s: "waits_served (a, ws)" using s by simp
  show ?thesis
  proof (cases x)
    case (A_cancel f request)
    obtain c b where cb: "cancel_begin f request a = (c, b)" by (cases "cancel_begin f request a")
    have b: "waits_served (b, ws)" by (rule served_comes [OF s comes_cancel_begin [OF cb]])
    have "waits_served (b, ws @ [(request, n)])" if "c = Cancel_waits n" for n
    proof -
      have "map_option sr_attempt (ad_stream a) = Some n"
        using s cancel_waits [of f request a n b] cb that by (simp add: waits_served_def adapter_ok_def attempt_ok_def in_progress_def split: option.splits)
      moreover have "ad_stream b = ad_stream a" using comes_cancel_begin [OF cb] by (simp add: comes_from_def attempt_view_def)
      ultimately show ?thesis using b by (simp add: waits_served_def split: option.splits)
    qed
    then show ?thesis using cb b A_cancel a by (simp add: adapter_do_def split: cancel_start.splits)
  next
    case (A_answer i)
    then show ?thesis using a s served_drop [OF served_comes [OF s comes_cancel_end]]
      by (simp add: adapter_do_def Let_def)
  next
    case (A_next f ls lss)
    then show ?thesis using a s by (simp add: adapter_do_def served_next split: option.splits)
  qed (use a s x in \<open>auto simp: adapter_do_def Let_def served_close served_begin
      intro: served_comes [OF s] comes_load comes_prewarm comes_invalidate comes_unload\<close>)
qed

lemma served_new: "waits_served (new_adapter, [])"
  by (simp add: waits_served_def adapter_ok_def engine_ok_def attempt_ok_def quiet_process_def new_adapter_def)

interpretation adapter_machine: machine "\<lambda>s. s = (new_adapter, [])" "\<lambda>s x t. x \<noteq> A_exit \<and> t = adapter_do L x s" waits_served
  for L
  by unfold_locales (simp_all add: served_new waits_served_step)


text \<open>A call in which the engine is loaded, a prompt prepared, a stream begun and then cancelled.\<close>

definition demo_parse :: "ptext \<Rightarrow> worker_event option" where
  "demo_parse t =
     (if t = [1] then Some (Loaded_event (lit ''load-1'') 4096)
      else if t = [2] then Some (Prompt_ready_event (lit ''prewarm-1'') (lit ''prompt_1''))
      else if t = [3] then Some (Terminal_event (lit ''turn-1'') (cancelled_terminal 0))
      else None)"

definition demo_libs :: adapter_libs where
  "demo_libs = \<lparr>al_digests = \<lparr>dg_fold = id, dg_bytes = (\<lambda>_. lit ''0''), dg_text = (\<lambda>_. lit ''1'')\<rparr>,
     al_codec = (\<lambda>_. None), al_parse = demo_parse, al_sha = (\<lambda>_. [0, 0, 0, 7])\<rparr>"

definition demo_facts :: machine_facts where
  "demo_facts = \<lparr>mf_modules = True, mf_python = True, mf_spawn = True, mf_stdin = True, mf_pipe = True\<rparr>"

definition demo_reply :: "nat \<Rightarrow> got list" where
  "demo_reply n = [Line (lit ''noise''), Line (WORKER_EVENT_PREFIX @ [n])]"

definition demo_calls :: "adapter_op list" where
  "demo_calls = [A_load demo_facts (lit ''load-1'') (demo_reply 1),
     A_prewarm demo_facts (lit ''load-2'') [] demo_facts (lit ''prewarm-1'') (demo_reply 2)
       \<lparr>wr_voice = lit ''alice'', wr_audio = [82, 73], wr_transcript = lit ''hello''\<rparr>,
     A_begin demo_facts (lit ''load-3'') [] demo_facts (lit ''turn-1'') []
       \<lparr>sq_text = lit ''Good evening.'', sq_evidence_mode = None, sq_evidence_seed = None\<rparr> None,
     A_cancel demo_facts (lit ''turn-1'')]"

fun adapter_run :: "adapter_libs \<Rightarrow> adapter_op list \<Rightarrow> qwen_adapter \<times> (ptext \<times> nat) list \<Rightarrow> qwen_adapter \<times> (ptext \<times> nat) list" where
  "adapter_run L [] s = s"
| "adapter_run L (x # xs) s = adapter_run L xs (adapter_do L x s)"

lemma adapter_run_of:
  "A_exit \<notin> set xs \<Longrightarrow> run_of (\<lambda>s x t. x \<noteq> A_exit \<and> t = adapter_do L x s) s xs (adapter_run L xs s)"
proof (induction xs arbitrary: s)
  case (Cons x xs)
  then show ?case by (intro run_cons [of _ _ _ "adapter_do L x s"]) auto
qed (simp add: run_nil)


end
