(* ===== verification/QwenEngine.thy ===== *)
theory QwenEngine
  imports QwenAdapterLaws
begin

text \<open>
  The Qwen engine as a whole: the adapter fed with what the worker writes. \<open>print\<close> and \<open>parse\<close> stand for
  the JSON text of an event (pydantic's \<open>model_dump_json\<close> and \<open>validate_python\<close> after \<open>json.loads\<close>), of
  which only the round trip is used.
\<close>

definition frame :: "(worker_event \<Rightarrow> ptext) \<Rightarrow> worker_event \<Rightarrow> got" where
  "frame print e = Line (WORKER_EVENT_PREFIX @ print e)"

lemma read_frame:
  assumes "ad_process a \<noteq> None" "event_ok e" "parse (print e) = Some e"
  shows "read_event parse (frame print e # ls) a = (Inr e, a)"
  using assms by (simp add: read_event_def frame_def starts_with_def parse_event_def)

section \<open>The audio of a stream\<close>

text \<open>The consumer pulls until the stream ends; each wait finds the next event that the worker wrote.\<close>

fun play ::
  "(nat list \<Rightarrow> wav_facts option) \<Rightarrow> (ptext \<Rightarrow> worker_event option) \<Rightarrow> (worker_event \<Rightarrow> ptext) \<Rightarrow> machine_facts \<Rightarrow> worker_event list
   \<Rightarrow> qwen_adapter \<Rightarrow> audio_chunk list \<times> (qwen_error + unit) option \<times> qwen_adapter" where
  "play codec parse print f [] a = ([], None, a)"
| "play codec parse print f (e # es) a =
     (case ad_stream a of
        None \<Rightarrow> ([], None, a)
      | Some r \<Rightarrow>
          (case stream_next codec parse f [frame print e] [] r a of
             (Inl err, b) \<Rightarrow> ([], Some (Inl err), b)
           | (Inr None, b) \<Rightarrow> ([], Some (Inr ()), b)
           | (Inr (Some x), b) \<Rightarrow> (case play codec parse print f es b of (xs, out, c) \<Rightarrow> (x # xs, out, c))))"

definition audio_of :: "(nat list \<Rightarrow> wav_facts option) \<Rightarrow> chunk \<Rightarrow> audio_chunk" where
  "audio_of codec c = \<lparr>au_index = ch_index c, au_wav = the (validate_worker_wav codec c),
     au_duration = ch_duration c, au_at = ch_at c\<rparr>"

definition stream_outcome :: "terminal \<Rightarrow> qwen_error + unit" where
  "stream_outcome t =
     (case te_kind t of
        Stream_cancelled \<Rightarrow> Inr ()
      | Stream_error \<Rightarrow> Inl (generation_terminal_error (te_code t))
      | Stream_done \<Rightarrow> if te_count t = 0 then q_error Q_generation ''qwen3_no_audio'' else Inr ())"

definition engine_view where
  "engine_view a = (ad_process a, ad_loaded a, ad_voice a, ad_prompt a, ad_exited a)"

lemma view_fields:
  "engine_view a = engine_view b \<Longrightarrow> alive a = alive b \<and> ad_loaded a = ad_loaded b \<and> ad_prompt a = ad_prompt b
     \<and> ad_voice a = ad_voice b"
  by (simp add: engine_view_def alive_def split: option.splits)

lemma leave_ended:
  "va_terminal (sr_validator r) \<noteq> None \<Longrightarrow> ad_stream (leave_stream parse f lss r a) = None
    \<and> engine_view (leave_stream parse f lss r a) = engine_view a"
  by (auto simp: leave_stream_def Let_def engine_view_def)

lemma next_terminal:
  assumes "ad_process a \<noteq> None" "event_ok (Terminal_event q t)" "parse (print (Terminal_event q t)) = Some (Terminal_event q t)"
    and "accept (sr_validator r) (Terminal_event q t) = Inr v"
    and "stream_next codec parse f [frame print (Terminal_event q t)] [] r a = (res, b)"
  shows "res = (case stream_outcome t of Inl e \<Rightarrow> Inl e | Inr _ \<Rightarrow> Inr None) \<and> ad_stream b = None
    \<and> ((case stream_outcome t of Inl e \<Rightarrow> \<not> marks_engine_unavailable (error_of e) | Inr _ \<Rightarrow> True)
        \<longrightarrow> engine_view b = engine_view a)"
proof -
  have v: "va_terminal v = Some t" using accept_terminal [OF assms(4)] by (simp add: terminal_of_def)
  note l = leave_ended [of "r\<lparr>sr_validator := v\<rparr>" parse f "[]"]
  have "engine_view (trim_terminals (new_terminal (sr_request r) (sr_attempt r) k a)) = engine_view a" for k
    by (simp add: engine_view_def trim_terminals_def new_terminal_def)
  then show ?thesis
    using assms(5) v l
    by (auto simp: stream_next_def read_frame [where print = print and parse = parse, OF assms(1-3)] assms(4) Let_def stream_outcome_def
        split: terminal_kind.splits if_splits)
qed

lemma next_chunk:
  assumes "ad_process a \<noteq> None" "event_ok (Chunk_event q c)" "parse (print (Chunk_event q c)) = Some (Chunk_event q c)"
    and "accept (sr_validator r) (Chunk_event q c) = Inr v" "validate_worker_wav codec c \<noteq> None"
  shows "stream_next codec parse f [frame print (Chunk_event q c)] [] r a =
     (Inr (Some (audio_of codec c)), a\<lparr>ad_reserved := Some (ch_reserved c), ad_stream := Some (r\<lparr>sr_validator := v\<rparr>)\<rparr>)"
  using assms(5) by (auto simp: stream_next_def read_frame [where print = print and parse = parse, OF assms(1-3)] assms(4) Let_def audio_of_def)

lemma play_accepted:
  assumes "accept_all (sr_validator r) es = Inr v" "va_terminal v = Some t" "va_terminal (sr_validator r) = None"
    and "list_all event_ok es" "list_all (\<lambda>c. validate_worker_wav codec c \<noteq> None) (chunks_of es)"
    and "list_all (\<lambda>e. parse (print e) = Some e) es" "ad_stream a = Some r" "ad_process a \<noteq> None"
    and "play codec parse print f es a = (xs, out, b)"
  shows "xs = map (audio_of codec) (chunks_of es) \<and> out = Some (stream_outcome t) \<and> ad_stream b = None
    \<and> ((case stream_outcome t of Inl e \<Rightarrow> \<not> marks_engine_unavailable (error_of e) | Inr _ \<Rightarrow> True)
        \<longrightarrow> engine_view b = engine_view a)"
  using assms(1,3,4,5,6,7,8,9)
proof (induction es arbitrary: r a xs out b)
  case Nil
  then show ?case using assms(2) by simp
next
  case (Cons e es)
  obtain v1 where a: "accept (sr_validator r) e = Inr v1" and rest: "accept_all v1 es = Inr v"
    using Cons.prems(1) by (auto simp: bind_res_Inr_iff)
  have ok: "event_ok e" "parse (print e) = Some e" using Cons.prems(3,5) by simp_all
  show ?case
  proof (cases e)
    case (Chunk_event q c)
    let ?b = "a\<lparr>ad_reserved := Some (ch_reserved c), ad_stream := Some (r\<lparr>sr_validator := v1\<rparr>)\<rparr>"
    obtain ys o' b' where p: "play codec parse print f es ?b = (ys, o', b')" by (cases "play codec parse print f es ?b")
    have n: "stream_next codec parse f [frame print e] [] r a = (Inr (Some (audio_of codec c)), ?b)"
      using Cons.prems(4,7) ok a unfolding Chunk_event by (intro next_chunk) simp_all
    have "va_terminal v1 = None" using accept_terminal [OF a] Chunk_event by (simp add: terminal_of_def)
    then have "ys = map (audio_of codec) (chunks_of es) \<and> o' = Some (stream_outcome t) \<and> ad_stream b' = None
      \<and> ((case stream_outcome t of Inl e \<Rightarrow> \<not> marks_engine_unavailable (error_of e) | Inr _ \<Rightarrow> True)
          \<longrightarrow> engine_view b' = engine_view ?b)"
      using Cons.prems(3,4,5,7) rest p Chunk_event
      by (intro Cons.IH [of "r\<lparr>sr_validator := v1\<rparr>" ?b]) simp_all
    moreover have "engine_view ?b = engine_view a" by (simp add: engine_view_def)
    ultimately show ?thesis using Cons.prems(6,8) n p Chunk_event by simp
  next
    case (Terminal_event q u)
    obtain res c where n: "stream_next codec parse f [frame print e] [] r a = (res, c)"
      by (cases "stream_next codec parse f [frame print e] [] r a")
    have "va_terminal v1 = Some u" using accept_terminal [OF a] Terminal_event by (simp add: terminal_of_def)
    then have "es = []" "t = u" using after_terminal [of v1 es v] rest assms(2) by auto
    moreover note next_terminal [of a q u parse print r v1 codec f res c]
    ultimately show ?thesis using Cons.prems(6,7,8) n ok a Terminal_event
      by (auto split: sum.splits)
  qed (use a in \<open>simp_all add: accept_def split: if_splits\<close>)
qed

lemma new_validator_open: "new_validator q c = Inr v \<Longrightarrow> va_terminal v = None"
  by (auto simp: new_validator_def split: if_splits)

lemma accepted_last:
  "accept_all v es = Inr v' \<Longrightarrow> va_terminal v = None \<Longrightarrow> va_terminal v' = Some t \<Longrightarrow> \<exists>q. last es = Terminal_event q t"
proof (induction es arbitrary: v)
  case (Cons e es)
  then obtain v1 where a: "accept v e = Inr v1" and r: "accept_all v1 es = Inr v'" by (auto simp: bind_res_Inr_iff)
  show ?case
  proof (cases "terminal_of e")
    case None
    then have "va_terminal v1 = None" using accept_terminal [OF a] by simp
    moreover from this have "es \<noteq> []" using r Cons.prems(3) by auto
    ultimately show ?thesis using Cons.IH [OF r] Cons.prems(3) by simp
  next
    case (Some u)
    then have "va_terminal v1 = Some u" using accept_terminal [OF a] by simp
    then have "es = []" "t = u" using after_terminal [of v1 es v'] r Cons.prems(3) by auto
    then show ?thesis using Some by (auto simp: terminal_of_def split: worker_event.splits)
  qed
qed simp

text \<open>A text for the events of the examples, and the states of the engine in a short call.\<close>

definition demo_chunk :: chunk where
  "demo_chunk = \<lparr>ch_index = 0, ch_wav = lit ''UklGRg=='', ch_duration = 320, ch_at = 250, ch_steps = 4, ch_reserved = 4096\<rparr>"

definition demo_events :: "worker_event list" where
  "demo_events = [Chunk_event (lit ''turn-1'') demo_chunk, Terminal_event (lit ''turn-1'') (done_terminal 1)]"

definition demo_print :: "worker_event \<Rightarrow> ptext" where
  "demo_print e = (case e of
       Chunk_event _ _ \<Rightarrow> [10]
     | Terminal_event _ t \<Rightarrow> (case te_kind t of Stream_done \<Rightarrow> [4] | Stream_cancelled \<Rightarrow> [3] | Stream_error \<Rightarrow> [5])
     | Prompt_failed_event q v c \<Rightarrow> 2 # length q # q @ length v # v @ c
     | _ \<Rightarrow> [])"

definition demo_decode :: "ptext \<Rightarrow> worker_event option" where
  "demo_decode t =
     (if t = [10] then Some (Chunk_event (lit ''turn-1'') demo_chunk)
      else if t = [4] then Some (Terminal_event (lit ''turn-1'') (done_terminal 1))
      else if t = [3] then Some (Terminal_event (lit ''turn-1'') (cancelled_terminal 0))
      else if t = [5] then Some (Terminal_event (lit ''turn-1'') (error_terminal 0 ''qwen3_generation_failed''))
      else case t of
        k # n # u \<Rightarrow> (case drop n u of
            m # x \<Rightarrow> Some (Prompt_failed_event (take n u) (take m x) (drop m x))
          | [] \<Rightarrow> None)
      | _ \<Rightarrow> None)"

lemma demo_decode_print:
  "demo_decode (demo_print (Prompt_failed_event q v c)) = Some (Prompt_failed_event q v c)"
  by (simp add: demo_decode_def demo_print_def)

definition demo_codec :: "nat list \<Rightarrow> wav_facts option" where
  "demo_codec wav = Some \<lparr>wv_rate = 24000, wv_frames = 7680, wv_channels = 1, wv_finite = True, wv_peak = 1 / 2\<rparr>"

definition demo_run :: "qwen_run" where
  "demo_run = \<lparr>sr_request = lit ''turn-1'', sr_attempt = 1, sr_validator = fresh_from (lit ''turn-1'') 6000 0 (-1) 0 0\<rparr>"

definition demo_adapter :: qwen_adapter where
  "demo_adapter = fst (adapter_run demo_libs (take 3 demo_calls) (new_adapter, []))"

definition demo_generation :: qwen_worker where
  "demo_generation = worker_run id demo_stream (dispatch_generate True (lit ''turn-1'') demo_fields demo_worker)"

text \<open>The engine with its prompt, before the stream and with the stream.\<close>

definition demo_ready :: qwen_adapter where
  "demo_ready = \<lparr>ad_loaded = True, ad_process = Some 0, ad_exited = {}, ad_started = 1, ad_active = None, ad_attempt = None,
     ad_attempts = 0, ad_acks = [], ad_acked = {}, ad_recent = [], ad_last_cancel = None, ad_voice = Some (lit ''alice''),
     ad_prompt = Some (lit ''prompt_1''), ad_reserved = Some 4096, ad_stream = None,
     ad_sent = [(0, Load_command (lit ''load-1'')),
       (0, prewarm_command (lit ''prewarm-1'') (lit ''prompt_1'') [82, 73] (lit ''hello''))]\<rparr>"

lemma demo_ready_run: "adapter_run demo_libs (take 2 demo_calls) (new_adapter, []) = (demo_ready, [])"
  by code_simp

lemma demo_adapter_begun:
  "demo_adapter = demo_ready\<lparr>ad_active := Some (lit ''turn-1''), ad_attempt := Some 1, ad_attempts := 1,
     ad_acks := [(lit ''turn-1'', 1)], ad_stream := Some demo_run,
     ad_sent := ad_sent demo_ready @ [(0, Generate_command (lit ''turn-1'') demo_fields)]\<rparr>"
  by code_simp

lemma demo_adapter_states:
  "ad_stream demo_adapter = Some demo_run" "ad_process demo_adapter = Some 0" "ad_exited demo_adapter = {}"
  "ad_loaded demo_adapter" "ad_active demo_adapter = Some (lit ''turn-1'')" "ad_attempt demo_adapter = Some 1"
  "ad_acks demo_adapter = [(lit ''turn-1'', 1)]" "ad_recent demo_adapter = []"
  by (simp_all add: demo_adapter_begun demo_ready_def del: lit_Cons)

lemma demo_generation_over:
  "wk_generation demo_generation = Some \<lparr>gn_request = lit ''turn-1'', gn_fields = demo_fields, gn_open = True, gn_count = 1,
     gn_seconds = 8 / 25, gn_steps = 4, gn_ready = None, gn_over = True\<rparr>"
  "wk_out demo_generation = demo_events"
  by code_simp+




lemma update_new: "dget d k = None \<Longrightarrow> AList.update k v d = d @ [(k, v)]"
  by (induction d) (auto split: if_splits)

section \<open>Two cancellations of one request\<close>

lemma send_alive:
  "alive a \<Longrightarrow> mf_stdin f \<Longrightarrow> mf_pipe f \<Longrightarrow>
   send_command f c a = (Inr (), a\<lparr>ad_sent := ad_sent a @ [(the (ad_process a), c)]\<rparr>)"
  by (simp add: send_command_def ensure_worker_def)

lemma alive_sent [simp]: "alive (a\<lparr>ad_sent := x\<rparr>) = alive a"
  by (auto simp: alive_def split: option.splits)

lemma cancel_in_progress:
  assumes "in_progress r a" "alive a" "mf_stdin f" "mf_pipe f"
  shows "cancel_begin f (sr_request r) a =
    (Cancel_waits (sr_attempt r),
     a\<lparr>ad_sent := ad_sent a @ [(the (ad_process a), Cancel_command (sr_request r))]\<rparr>)"
  using assms by (simp add: cancel_begin_def in_progress_def send_alive)

text \<open>
  \<^bold>\<open>C16\<close>. A second cancellation of the same request costs a healthy worker: when two callers cancel the
  stream in progress (say the turn's own cancellation and the invalidation of the prompt) and the worker
  answers as it should, the first reports success and leaves the engine loaded, but it removes the
  recorded status, so that the second, finding none, stops the process, unloads the engine and drops the
  prompt.
\<close>

theorem second_cancel_stops_the_worker:
  assumes "in_progress r a" "alive a" "mf_stdin f" "mf_pipe f" "ad_loaded a"
    and "cancel_begin f (sr_request r) a = (c1, a1)" "cancel_begin f (sr_request r) a1 = (c2, a2)"
    and "stream_next codec parse f [frame print (Terminal_event (sr_request r) t)] [] r a2 = (res, a3)"
    and "te_kind t = Stream_cancelled" "te_count t = va_next (sr_validator r)" "va_request (sr_validator r) = sr_request r"
    and "va_terminal (sr_validator r) = None" "event_ok (Terminal_event (sr_request r) t)"
    and "parse (print (Terminal_event (sr_request r) t)) = Some (Terminal_event (sr_request r) t)"
    and "length (ad_recent a) < 32" "dget (ad_recent a) (sr_request r) = None"
    and "cancel_end (sr_request r) (sr_attempt r) a3 = (ok1, a4)" "cancel_end (sr_request r) (sr_attempt r) a4 = (ok2, a5)"
  shows "c1 = Cancel_waits (sr_attempt r) \<and> c2 = Cancel_waits (sr_attempt r) \<and> res = Inr None
    \<and> ok1 \<and> alive a4 \<and> ad_loaded a4 \<and> ad_prompt a4 = ad_prompt a
    \<and> \<not> ok2 \<and> ad_process a5 = None \<and> \<not> ad_loaded a5 \<and> ad_prompt a5 = None"
proof -
  let ?sent = "\<lambda>b. b\<lparr>ad_sent := ad_sent b @ [(the (ad_process b), Cancel_command (sr_request r))]\<rparr>"
  have 1: "c1 = Cancel_waits (sr_attempt r)" "a1 = ?sent a"
    using assms(6) cancel_in_progress [OF assms(1-4)] by simp_all
  have "in_progress r a1" "alive a1" using assms(1,2) by (simp_all add: 1(2) in_progress_def)
  from cancel_in_progress [OF this assms(3,4)] have 2: "c2 = Cancel_waits (sr_attempt r)" "a2 = ?sent a1"
    using assms(7) by simp_all
  have a2: "alive a2" "ad_loaded a2" "ad_prompt a2 = ad_prompt a" "ad_recent a2 = ad_recent a"
    using assms(2,5) by (simp_all add: 1(2) 2(2))
  then have p: "ad_process a2 \<noteq> None" by (auto simp: alive_def split: option.splits)
  have acc: "accept (sr_validator r) (Terminal_event (sr_request r) t) = Inr (sr_validator r\<lparr>va_terminal := Some t\<rparr>)"
    using assms(10-12) by (simp add: accept_def)
  let ?b = "trim_terminals (new_terminal (sr_request r) (sr_attempt r) Stream_cancelled a2)"
  have 3: "res = Inr None" "a3 = leave_stream parse f [] (r\<lparr>sr_validator := sr_validator r\<lparr>va_terminal := Some t\<rparr>\<rparr>) ?b"
    using assms(8,9) acc
    by (simp_all add: stream_next_def read_frame [where print = print and parse = parse, OF p assms(13,14)] Let_def)
  have r3: "ad_recent a3 = dset (sr_request r) (sr_attempt r, ''cancelled'') (ad_recent a)"
    using assms(15,16) a2(4)
    by (simp add: 3(2) leave_stream_def Let_def trim_terminals_def new_terminal_def dset_def update_new)
  have "engine_view a3 = engine_view ?b" unfolding 3(2) by (intro conjunct2 [OF leave_ended]) simp
  also have "\<dots> = engine_view a2" by (simp add: engine_view_def trim_terminals_def new_terminal_def)
  finally have v3: "engine_view a3 = engine_view a2" .
  have v3: "alive a3" "ad_loaded a3" "ad_prompt a3 = ad_prompt a"
    using a2 view_fields [OF v3] by simp_all
  have 4: "ok1" "a4 = a3\<lparr>ad_recent := dpop (sr_request r) (ad_recent a3), ad_last_cancel := Some ''cancelled''\<rparr>"
    using assms(17) r3 by (simp_all add: cancel_end_def Let_def)
  have "dget (ad_recent a4) (sr_request r) = None" by (simp add: 4(2))
  then have "\<not> ok2" "a5 = stop_worker (a4\<lparr>ad_recent := dpop (sr_request r) (ad_recent a4), ad_last_cancel := None\<rparr>)"
    using assms(18) by (auto simp: cancel_end_def Let_def)
  moreover have "alive a4 = alive a3" unfolding 4(2) by (auto simp: alive_def split: option.splits)
  moreover have "ad_loaded a4 = ad_loaded a3" "ad_prompt a4 = ad_prompt a3" unfolding 4(2) by simp_all
  moreover have "ad_process (stop_worker b) = None" "\<not> ad_loaded (stop_worker b)" "ad_prompt (stop_worker b) = None" for b
    by (simp_all add: stop_worker_def clear_selected_prompt_def)
  ultimately show ?thesis using 1(1) 2(1) 3(1) 4(1) v3 by metis
qed


lemma second_cancel_stops_the_worker_witness:
  "let s1 = snd (cancel_begin demo_facts (lit ''turn-1'') demo_adapter); s2 = snd (cancel_begin demo_facts (lit ''turn-1'') s1);
       s3 = snd (stream_next demo_codec demo_decode demo_facts [frame demo_print (Terminal_event (lit ''turn-1'') (cancelled_terminal 0))] []
         demo_run s2);
       s4 = snd (cancel_end (lit ''turn-1'') 1 s3); s5 = snd (cancel_end (lit ''turn-1'') 1 s4)
   in alive s4 \<and> ad_prompt s4 = ad_prompt demo_adapter \<and> ad_process s5 = None \<and> \<not> ad_loaded s5"
proof -
  have r: "sr_request demo_run = lit ''turn-1''" "sr_attempt demo_run = 1" "va_next (sr_validator demo_run) = 0"
    "va_request (sr_validator demo_run) = lit ''turn-1''" "va_terminal (sr_validator demo_run) = None"
    by (simp_all add: demo_run_def fresh_from_def del: lit_Cons)
  have p: "in_progress demo_run demo_adapter" "alive demo_adapter" "mf_stdin demo_facts" "mf_pipe demo_facts"
    by (simp_all add: in_progress_def alive_def demo_adapter_states demo_facts_def r del: lit_Cons)
  have e: "event_ok (Terminal_event (lit ''turn-1'') (cancelled_terminal 0))"
    "demo_decode (demo_print (Terminal_event (lit ''turn-1'') (cancelled_terminal 0))) =
       Some (Terminal_event (lit ''turn-1'') (cancelled_terminal 0))"
    "te_kind (cancelled_terminal 0) = Stream_cancelled" "te_count (cancelled_terminal 0) = 0"
    by code_simp+
  have q: "length (ad_recent demo_adapter) < 32" "dget (ad_recent demo_adapter) (lit ''turn-1'') = None"
    by (simp_all add: demo_adapter_states)
  note t = second_cancel_stops_the_worker [where t = "cancelled_terminal 0" and print = demo_print and parse = demo_decode
      and codec = demo_codec, OF p demo_adapter_states(4) surjective_pairing surjective_pairing surjective_pairing,
      unfolded r, OF _ _ _ _ _ _ _ _ surjective_pairing surjective_pairing]
  show ?thesis unfolding Let_def
    using t [OF e(3,4) refl refl e(1,2) q] by blast
qed

section \<open>A process that exits between two requests\<close>

text \<open>
  The adapter asks for a prompt and the worker process that serves it answers: \<open>w\<close> is the state of this
  process, a new one when the adapter has to start it.
\<close>

record prewarm_round =
  ro_request :: ptext
  ro_prewarm :: prewarm_request
  ro_facts :: machine_facts
  ro_load :: load_facts
  ro_prepared :: bool

definition round_command :: "digests \<Rightarrow> prewarm_round \<Rightarrow> command" where
  "round_command d x = prewarm_command (ro_request x)
     (projr (qwen_prompt_cache_key d (wr_audio (ro_prewarm x)) (wr_transcript (ro_prewarm x))))
     (wr_audio (ro_prewarm x)) (wr_transcript (ro_prewarm x))"

definition serve_round :: "(ptext \<Rightarrow> ptext) \<Rightarrow> digests \<Rightarrow> prewarm_round \<Rightarrow> qwen_worker \<Rightarrow> qwen_worker" where
  "serve_round lower d x w = worker_run lower [Read_command (round_command d x), Dispatch (ro_load x) (ro_prepared x) True] w"

definition prewarm_served ::
  "(ptext \<Rightarrow> ptext) \<Rightarrow> digests \<Rightarrow> (ptext \<Rightarrow> worker_event option) \<Rightarrow> (worker_event \<Rightarrow> ptext) \<Rightarrow> prewarm_round \<Rightarrow> qwen_adapter \<Rightarrow> qwen_worker
   \<Rightarrow> (qwen_error + ptext) \<times> qwen_adapter" where
  "prewarm_served lower d parse print x a w =
     prewarm d parse (ro_facts x) (ro_request x) [] (ro_facts x) (ro_request x)
       (map (frame print) (drop (length (wk_out w)) (wk_out (serve_round lower d x w)))) (ro_prewarm x) a"

text \<open>A request that the adapter accepts, on a machine that can start the process.\<close>

definition round_ok :: "digests \<Rightarrow> prewarm_round \<Rightarrow> bool" where
  "round_ok d x \<longleftrightarrow> mf_python (ro_facts x) \<and> mf_spawn (ro_facts x) \<and> mf_stdin (ro_facts x) \<and> mf_pipe (ro_facts x)
     \<and> strip (wr_transcript (ro_prewarm x)) \<noteq> [] \<and> wr_audio (ro_prewarm x) \<noteq> []
     \<and> \<not> isl (qwen_prompt_cache_key d (wr_audio (ro_prewarm x)) (wr_transcript (ro_prewarm x)))
     \<and> command_ok (round_command d x)"

text \<open>An idle worker that has no runtime.\<close>

definition unloaded :: "qwen_worker \<Rightarrow> bool" where
  "unloaded w \<longleftrightarrow> \<not> wk_runtime w \<and> wk_running w \<and> \<not> wk_closed w \<and> wk_generation w = None \<and> wk_commands w = []"

fun prewarm_rounds ::
  "(ptext \<Rightarrow> ptext) \<Rightarrow> digests \<Rightarrow> (ptext \<Rightarrow> worker_event option) \<Rightarrow> (worker_event \<Rightarrow> ptext) \<Rightarrow> prewarm_round list \<Rightarrow> qwen_adapter \<Rightarrow> qwen_worker
   \<Rightarrow> (qwen_error + ptext) list \<times> qwen_adapter" where
  "prewarm_rounds lower d parse print [] a w = ([], a)"
| "prewarm_rounds lower d parse print (x # xs) a w =
     (case prewarm_served lower d parse print x a w of
        (res, b) \<Rightarrow> (case prewarm_rounds lower d parse print xs b (serve_round lower d x w) of (rs, c) \<Rightarrow> (res # rs, c)))"

definition prompt_failed :: "qwen_error + 'a" where
  "prompt_failed = q_error Q_prompt ''qwen3_prompt_failed''"

lemma serve_unloaded:
  assumes "unloaded w" "command_ok (round_command d x)"
  shows "unloaded (serve_round lower d x w)"
    "\<exists>v. wk_out (serve_round lower d x w) = wk_out w @ [Prompt_failed_event (ro_request x) v (lit ''qwen3_prompt_failed'')]
       \<and> event_ok (Prompt_failed_event (ro_request x) v (lit ''qwen3_prompt_failed''))"
proof -
  have e: "error_code_ok (lit ''qwen3_prompt_failed'')" by code_simp
  show "unloaded (serve_round lower d x w)"
    "\<exists>v. wk_out (serve_round lower d x w) = wk_out w @ [Prompt_failed_event (ro_request x) v (lit ''qwen3_prompt_failed'')]
       \<and> event_ok (Prompt_failed_event (ro_request x) v (lit ''qwen3_prompt_failed''))"
    using assms e
    by (simp_all add: serve_round_def unloaded_def worker_do_def round_command_def prewarm_command_def read_command_def
        dispatch_command_def dispatch_prewarm_def emit_event_def event_ok_def command_ok_def prewarm_ok_def)
qed

text \<open>The engine looks loaded, and its process is one without a runtime or is to be started.\<close>

definition wedged :: "qwen_adapter \<Rightarrow> bool" where
  "wedged a \<longleftrightarrow> ad_loaded a \<and> ad_stream a = None \<and> engine_ok a"

lemma served_prewarm_fails:
  assumes a: "wedged a" and x: "round_ok d x" and w: "unloaded w"
    and parse: "\<And>q v c. event_ok (Prompt_failed_event q v c) \<Longrightarrow> parse (print (Prompt_failed_event q v c)) = Some (Prompt_failed_event q v c)"
    and res: "prewarm_served lower d parse print x a w = (res, b)"
  shows "res = prompt_failed \<and> wedged b \<and> alive b \<and> ad_voice b = None"
proof -
  let ?f = "ro_facts x" and ?w = "ro_prewarm x"
  obtain key where key: "qwen_prompt_cache_key d (wr_audio ?w) (wr_transcript ?w) = Inr key"
    using x by (cases "qwen_prompt_cache_key d (wr_audio ?w) (wr_transcript ?w)") (auto simp: round_ok_def)
  have c: "prewarm_command (ro_request x) key (wr_audio ?w) (wr_transcript ?w) = round_command d x"
    by (simp add: round_command_def key)
  have ok: "command_ok (round_command d x)" using x by (simp add: round_ok_def)
  obtain v where v: "drop (length (wk_out w)) (wk_out (serve_round lower d x w)) =
      [Prompt_failed_event (ro_request x) v (lit ''qwen3_prompt_failed'')]"
      "event_ok (Prompt_failed_event (ro_request x) v (lit ''qwen3_prompt_failed''))"
    using serve_unloaded(2) [OF w ok, of lower] by auto
  let ?a = "clear_selected_prompt a"
  obtain r a1 where s: "send_command ?f (round_command d x) ?a = (r, a1)" by (cases "send_command ?f (round_command d x) ?a")
  have r: "r = Inr ()" and alive: "alive a1"
    using s x a by (auto simp: send_command_def ensure_worker_def round_ok_def wedged_def engine_ok_def alive_def
        clear_selected_prompt_def split: if_splits option.splits)
  then have a1: "ad_loaded a1" "ad_voice a1 = None" "ad_stream a1 = None" "engine_ok a1"
    using s send_Inr [of ?f _ ?a "()" a1] comes_send [OF s] a
      comes_trans [OF comes_clear comes_send [OF s]]
    by (auto simp: wedged_def clear_selected_prompt_def comes_from_def attempt_view_def)
  have p: "ad_process a1 \<noteq> None" using alive by (auto simp: alive_def split: option.splits)
  have "prewarm_loaded d parse ?f (ro_request x)
      [frame print (Prompt_failed_event (ro_request x) v (lit ''qwen3_prompt_failed''))] ?w a = (prompt_failed, a1)"
    using x s r by (simp add: prewarm_loaded_def key c round_ok_def Let_def prompt_failed_def
        read_frame [where print = print and parse = parse, OF p v(2) parse [OF v(2)]] del: lit_Cons lit_Nil)
  then have "res = prompt_failed" "b = a1" using res a by (simp_all add: prewarm_served_def v(1) prewarm_def wedged_def)
  then show ?thesis using a1 alive by (simp add: wedged_def)
qed

lemma served_rounds_fail:
  assumes "\<And>q v c. event_ok (Prompt_failed_event q v c) \<Longrightarrow> parse (print (Prompt_failed_event q v c)) = Some (Prompt_failed_event q v c)"
  shows "wedged a \<Longrightarrow> unloaded w \<Longrightarrow> list_all (round_ok d) xs \<Longrightarrow> prewarm_rounds lower d parse print xs a w = (rs, b)
    \<Longrightarrow> rs = map (\<lambda>_. prompt_failed) xs \<and> wedged b \<and> (xs \<noteq> [] \<longrightarrow> alive b)"
proof (induction xs arbitrary: a w rs b)
  case (Cons x xs)
  obtain r1 a1 where 1: "prewarm_served lower d parse print x a w = (r1, a1)" by (cases "prewarm_served lower d parse print x a w")
  obtain r2 where 2: "prewarm_rounds lower d parse print xs a1 (serve_round lower d x w) = (r2, b)" "rs = r1 # r2"
    using Cons.prems(4) 1 by (auto split: prod.splits)
  note f = served_prewarm_fails [OF Cons.prems(1) _ Cons.prems(2) assms 1]
  have "command_ok (round_command d x)" "round_ok d x" using Cons.prems(3) by (simp_all add: round_ok_def)
  then show ?case
    using f Cons.IH [OF _ serve_unloaded(1) [OF Cons.prems(2)] _ 2(1)] 2 Cons.prems(3) by (cases xs) auto
qed simp

text \<open>
  \<^bold>\<open>C12\<close>. A worker process that exits between two requests leaves the engine unusable without a sign of
  it: the adapter still counts as loaded, so a request for a prompt starts a fresh process without
  loading it, this worker refuses the prompt, and so it goes on for every further prompt. No refusal is
  an error that marks the engine unavailable, and \<open>load\<close> does nothing, because the engine counts as
  loaded and its new process is alive.
\<close>

theorem exited_worker_wedges_the_engine:
  assumes "wedged a" "\<not> alive a" "list_all (round_ok d) xs" "xs \<noteq> []"
    and "\<And>q v c. event_ok (Prompt_failed_event q v c) \<Longrightarrow> parse (print (Prompt_failed_event q v c)) = Some (Prompt_failed_event q v c)"
    and "prewarm_rounds lower d parse print xs a new_worker = (rs, b)"
  shows "rs = map (\<lambda>_. Inl (Qwen_error Q_prompt (lit ''qwen3_prompt_failed''))) xs
    \<and> \<not> marks_engine_unavailable Q_prompt
    \<and> ad_loaded b \<and> alive b \<and> load parse f request ls b = (Inr (), b)"
proof -
  have "unloaded new_worker" by (simp add: unloaded_def new_worker_def)
  from served_rounds_fail [OF assms(5) assms(1) this assms(3,6)] assms(4)
  have "rs = map (\<lambda>_. prompt_failed) xs" "wedged b" "alive b" by simp_all
  then show ?thesis
    by (simp add: prompt_failed_def wedged_def load_def marks_engine_unavailable_def)
qed

definition demo_round :: "string \<Rightarrow> prewarm_round" where
  "demo_round request = \<lparr>ro_request = lit request,
     ro_prewarm = \<lparr>wr_voice = lit ''alice'', wr_audio = [82, 73], wr_transcript = lit ''hello''\<rparr>, ro_facts = demo_facts,
     ro_load = \<lparr>lo_model_dir = None, lo_revision = None, lo_is_dir = False, lo_manifest = None, lo_config = False,
       lo_distribution = None, lo_cuda = False, lo_pretrained = False, lo_devices = [], lo_warmup = False, lo_reserved = None\<rparr>,
     ro_prepared = True\<rparr>"

definition demo_exited :: qwen_adapter where
  "demo_exited = fst (adapter_run demo_libs [hd demo_calls, A_exit] (new_adapter, []))"

lemma exited_worker_wedges_the_engine_witness:
  "fst (prewarm_rounds id (al_digests demo_libs) demo_decode demo_print [demo_round ''prewarm-1'', demo_round ''prewarm-2'']
      demo_exited new_worker) =
     [Inl (Qwen_error Q_prompt (lit ''qwen3_prompt_failed'')), Inl (Qwen_error Q_prompt (lit ''qwen3_prompt_failed''))]
   \<and> ad_loaded (snd (prewarm_rounds id (al_digests demo_libs) demo_decode demo_print
        [demo_round ''prewarm-1'', demo_round ''prewarm-2''] demo_exited new_worker))"
proof -
  let ?xs = "[demo_round ''prewarm-1'', demo_round ''prewarm-2'']"
  obtain rs b where p: "prewarm_rounds id (al_digests demo_libs) demo_decode demo_print ?xs demo_exited new_worker = (rs, b)"
    by (cases "prewarm_rounds id (al_digests demo_libs) demo_decode demo_print ?xs demo_exited new_worker")
  have a: "wedged demo_exited" "\<not> alive demo_exited" by code_simp+
  have x: "list_all (round_ok (al_digests demo_libs)) ?xs" "?xs \<noteq> []" by (code_simp, simp)
  from exited_worker_wedges_the_engine [OF a x demo_decode_print p, where f = demo_facts and request = "[]" and ls = "[]"] p
  show ?thesis by (simp del: lit_Cons)
qed

section \<open>A generation that does not clean up\<close>

text \<open>
  \<^bold>\<open>C31\<close>. A clean-up that fails in the worker costs it at the next request: after the terminal that the
  caller has read, closing the stream of the runtime (or restoring the random generators) raises, and the
  worker writes a second terminal for the same request. The next preparation of a prompt reads it first,
  takes it for a violation of the protocol, and stops the process.
\<close>

theorem failed_clean_up_stops_the_worker:
  assumes "wk_generation w = Some g" "gn_over g"
    and "w' = worker_do lower (Close_generation False) w" "es = drop (length (wk_out w)) (wk_out w')"
    and "wedged a" "alive a" "round_ok d x" "ro_request x \<noteq> gn_request g" "identifier_ok (gn_request g)"
    and "list_all (\<lambda>e. parse (print e) = Some e) es"
    and "prewarm_loaded d parse (ro_facts x) (ro_request x) (map (frame print) es @ later) (ro_prewarm x) a = (res, b)"
  shows "res = Inl (Qwen_error Q_protocol (lit ''qwen3_worker_protocol'')) \<and> marks_engine_unavailable Q_protocol
    \<and> ad_process b = None \<and> \<not> ad_loaded b \<and> ad_prompt b = None"
proof -
  let ?e = "Terminal_event (gn_request g) (error_terminal 0 ''qwen3_generation_failed'')"
  have es: "es = [?e]"
    using assms(1-4) by (simp add: worker_do_def close_generation_def finish_generation_def remember_completed_request_def Let_def)
  have "error_code_ok (lit ''qwen3_generation_failed'')" by code_simp
  then have e: "event_ok ?e" using assms(9) by (simp add: event_ok_def stream_terminal_ok_def error_terminal_def)
  have pe: "parse (print ?e) = Some ?e" using assms(10) by (simp add: es)
  obtain key where key: "qwen_prompt_cache_key d (wr_audio (ro_prewarm x)) (wr_transcript (ro_prewarm x)) = Inr key"
    using assms(7) by (cases "qwen_prompt_cache_key d (wr_audio (ro_prewarm x)) (wr_transcript (ro_prewarm x))")
      (auto simp: round_ok_def)
  have c: "prewarm_command (ro_request x) key (wr_audio (ro_prewarm x)) (wr_transcript (ro_prewarm x)) = round_command d x"
    by (simp add: round_command_def key)
  have "alive (clear_selected_prompt a)" using assms(6) by (auto simp: alive_def clear_selected_prompt_def split: option.splits)
  note s = send_alive [OF this, of "ro_facts x" "round_command d x"]
  let ?a = "(clear_selected_prompt a)\<lparr>ad_sent := ad_sent (clear_selected_prompt a) @
      [(the (ad_process (clear_selected_prompt a)), round_command d x)]\<rparr>"
  have p: "ad_process ?a \<noteq> None" using assms(6) by (auto simp: alive_def clear_selected_prompt_def split: option.splits)
  show ?thesis
    using assms(7,8,11) s
    by (simp add: prewarm_loaded_def key c round_ok_def Let_def es
        read_frame [where print = print and parse = parse, OF p e pe] fail_protocol_def del: lit_Cons lit_Nil)
      (auto simp: marks_engine_unavailable_def stop_worker_def clear_selected_prompt_def)
qed

lemma failed_clean_up_stops_the_worker_witness:
  "let w = worker_do id (Close_generation False) demo_generation;
       b = snd (prewarm_loaded (al_digests demo_libs) demo_decode demo_facts (lit ''prewarm-2'')
         (map (frame demo_print) (drop (length (wk_out demo_generation)) (wk_out w)) @ []) (ro_prewarm (demo_round ''prewarm-2'')) demo_ready)
   in ad_loaded demo_ready \<and> ad_prompt demo_ready = Some (lit ''prompt_1'') \<and> \<not> ad_loaded b \<and> ad_process b = None"
proof -
  let ?g = "the (wk_generation demo_generation)"
  let ?x = "demo_round ''prewarm-2''"
  let ?es = "drop (length (wk_out demo_generation)) (wk_out (worker_do id (Close_generation False) demo_generation))"
  have g: "wk_generation demo_generation = Some ?g" "gn_over ?g" and r: "gn_request ?g = lit ''turn-1''"
    by (simp_all add: demo_generation_over del: lit_Cons)
  have a: "wedged demo_ready" "alive demo_ready" "round_ok (al_digests demo_libs) ?x" by code_simp+
  have x: "ro_request ?x \<noteq> gn_request ?g" "identifier_ok (gn_request ?g)" unfolding r by code_simp+
  have "?es = [Terminal_event (lit ''turn-1'') (error_terminal 0 ''qwen3_generation_failed'')]"
    by (simp add: worker_do_def demo_generation_over close_generation_def finish_generation_def remember_completed_request_def
        Let_def del: lit_Cons)
  then have e: "list_all (\<lambda>e. demo_decode (demo_print e) = Some e) ?es" by (simp only:) code_simp
  have f: "ro_facts ?x = demo_facts" "ro_request ?x = lit ''prewarm-2''" by (simp_all add: demo_round_def del: lit_Cons)
  have l: "ad_loaded demo_ready" "ad_prompt demo_ready = Some (lit ''prompt_1'')" by (simp_all add: demo_ready_def del: lit_Cons)
  show ?thesis unfolding Let_def
    using failed_clean_up_stops_the_worker [OF g refl refl a x e surjective_pairing, of "[]", unfolded f] l by blast
qed

end
