(* ===== verification/ChatStore.thy ===== *)
theory ChatStore
  imports PyValue PyText
begin

text \<open>
  The tables of the web server (\<open>web-ui/server/app/storage/models.py\<close>) and the statements on them
  that the services share. A table is a dictionary from the primary key to the row, in the order of
  insertion; a row has the columns that some service reads or writes. An insertion checks what the
  schema declares: primary keys, unique constraints, foreign keys, and the allowed kinds, roles and
  actions. A transaction that fails leaves the store as it was; identifiers (which the program takes
  from \<open>uuid4\<close>) and the clock are arguments.
\<close>

section \<open>Rows\<close>

record card =
  cd_name :: ptext
  cd_description :: "ptext option"
  cd_personality :: "ptext option"
  cd_scenario :: "ptext option"
  cd_first_mes :: "ptext option"
  cd_mes_example :: "ptext option"
  cd_system_prompt :: "ptext option"
  cd_post_history :: "ptext option"
  cd_lorebook :: "pv option"
  cd_raw_source :: "pv option"

record character_row =
  cr_card :: card
  cr_greetings :: "ptext list"
  cr_voice :: "string option"
  cr_deleted :: "rat option"

record voice_row =
  vo_name :: ptext
  vo_engine :: ptext
  vo_deleted :: "rat option"

record thread_row =
  th_character :: "string option"
  th_title :: ptext
  th_snapshot :: card
  th_last :: "rat option"
  th_deleted :: "rat option"
  th_created :: rat
  th_updated :: rat

record message_row =
  ms_thread :: string
  ms_call :: "string option"
  ms_call_turn :: "string option"
  ms_kind :: string
  ms_role :: string
  ms_sequence :: int
  ms_content :: "ptext option"
  ms_selected :: "string option"
  ms_stale :: bool
  ms_created :: rat
  ms_updated :: rat

record alternate_row =
  al_message :: string
  al_index :: int
  al_content :: ptext
  al_action :: string
  al_root :: "string option"
  al_created :: rat
  al_updated :: rat

datatype turn_status = Turn_reserved | Turn_running | Turn_done | Turn_failed | Turn_cancelled

record turn_row =
  ct_call :: string
  ct_turn :: string
  ct_thread :: string
  ct_sha :: string
  ct_state :: turn_status
  ct_owner :: "string option"
  ct_lease :: "rat option"
  ct_user :: "string option"
  ct_assistant :: "string option"
  ct_created :: rat
  ct_updated :: rat

record store =
  st_characters :: "(string, character_row) dict"
  st_voices :: "(string, voice_row) dict"
  st_threads :: "(string, thread_row) dict"
  st_messages :: "(string, message_row) dict"
  st_alternates :: "(string, alternate_row) dict"
  st_turns :: "(string, turn_row) dict"

definition message_kinds :: "string list" where
  "message_kinds = [''user_text'', ''ai_text'', ''user_speech'', ''ai_speech'', ''call_start'', ''call_end'']"

definition message_roles :: "string list" where
  "message_roles = [''user'', ''assistant'', ''system'', ''event'']"

definition alternate_actions :: "string list" where
  "alternate_actions = [''first_mes'', ''regenerate'', ''swipe'', ''continue'']"

datatype store_error =
    Integrity_error
  | Thread_not_found string
  | Character_unavailable string
  | Greeting_out_of_range int nat
  | Title_required
  | Message_not_found string
  | Invalid_action string

section \<open>Statements\<close>

definition dfilter :: "('k \<Rightarrow> 'v \<Rightarrow> bool) \<Rightarrow> ('k, 'v) dict \<Rightarrow> ('k, 'v) dict" where
  "dfilter p d = filter (\<lambda>(k, v). p k v) d"

definition live_thread :: "string \<Rightarrow> store \<Rightarrow> thread_row option" where
  "live_thread tid st =
     (case dget (st_threads st) tid of
        None \<Rightarrow> None
      | Some t \<Rightarrow> if th_deleted t = None then Some t else None)"

definition thread_messages :: "string \<Rightarrow> store \<Rightarrow> (string \<times> message_row) list" where
  "thread_messages tid st = dfilter (\<lambda>_ m. ms_thread m = tid) (st_messages st)"

definition max_or :: "int \<Rightarrow> int list \<Rightarrow> int" where
  "max_or d xs = (if xs = [] then d else Max (set xs))"

definition next_sequence :: "string \<Rightarrow> store \<Rightarrow> int" where
  "next_sequence tid st = max_or (-1) (map (ms_sequence \<circ> snd) (thread_messages tid st)) + 1"

definition touch_thread :: "string \<Rightarrow> rat \<Rightarrow> store \<Rightarrow> store_error + store" where
  "touch_thread tid now st =
     (case live_thread tid st of
        None \<Rightarrow> Inl (Thread_not_found tid)
      | Some t \<Rightarrow> Inr (st\<lparr>st_threads := dset tid (t\<lparr>th_updated := now, th_last := Some now\<rparr>) (st_threads st)\<rparr>))"

text \<open>A unique constraint on two columns does not compare rows in which one of them is null.\<close>

definition same_call_turn :: "message_row \<Rightarrow> message_row \<Rightarrow> bool" where
  "same_call_turn m n \<longleftrightarrow> ms_call m \<noteq> None \<and> ms_call_turn m \<noteq> None
     \<and> ms_call m = ms_call n \<and> ms_call_turn m = ms_call_turn n"

definition insert_message :: "string \<Rightarrow> message_row \<Rightarrow> store \<Rightarrow> store_error + store" where
  "insert_message mid m st =
     (if dget (st_messages st) mid \<noteq> None
         \<or> dget (st_threads st) (ms_thread m) = None
         \<or> ms_kind m \<notin> set message_kinds \<or> ms_role m \<notin> set message_roles
         \<or> list_ex (\<lambda>(k, n). (ms_thread n = ms_thread m \<and> ms_sequence n = ms_sequence m)
                              \<or> same_call_turn m n) (st_messages st)
      then Inl Integrity_error
      else Inr (st\<lparr>st_messages := dset mid m (st_messages st)\<rparr>))"

definition insert_alternate :: "string \<Rightarrow> alternate_row \<Rightarrow> store \<Rightarrow> store_error + store" where
  "insert_alternate aid a st =
     (if dget (st_alternates st) aid \<noteq> None
         \<or> dget (st_messages st) (al_message a) = None \<or> al_action a \<notin> set alternate_actions
         \<or> list_ex (\<lambda>(k, b). al_message b = al_message a \<and> al_index b = al_index a) (st_alternates st)
      then Inl Integrity_error
      else Inr (st\<lparr>st_alternates := dset aid a (st_alternates st)\<rparr>))"

definition insert_thread :: "string \<Rightarrow> thread_row \<Rightarrow> store \<Rightarrow> store_error + store" where
  "insert_thread tid t st =
     (if dget (st_threads st) tid \<noteq> None
         \<or> (case th_character t of None \<Rightarrow> False | Some c \<Rightarrow> dget (st_characters st) c = None)
      then Inl Integrity_error
      else Inr (st\<lparr>st_threads := dset tid t (st_threads st)\<rparr>))"

definition insert_turn :: "string \<Rightarrow> turn_row \<Rightarrow> store \<Rightarrow> store_error + store" where
  "insert_turn rid r st =
     (if dget (st_turns st) rid \<noteq> None \<or> dget (st_threads st) (ct_thread r) = None
         \<or> list_ex (\<lambda>(k, q). ct_call q = ct_call r \<and> ct_turn q = ct_turn r) (st_turns st)
      then Inl Integrity_error
      else Inr (st\<lparr>st_turns := dset rid r (st_turns st)\<rparr>))"

definition update_message :: "string \<Rightarrow> (message_row \<Rightarrow> message_row) \<Rightarrow> store \<Rightarrow> store" where
  "update_message mid f st =
     (case dget (st_messages st) mid of
        None \<Rightarrow> st
      | Some m \<Rightarrow> st\<lparr>st_messages := dset mid (f m) (st_messages st)\<rparr>)"

text \<open>
  The append that the chat endpoint and the calls share (\<open>_append_message\<close> and
  \<open>_stage_message\<close>): the row takes the next sequence of its thread, and the thread is touched.
\<close>

definition staged_message ::
  "string \<Rightarrow> string \<Rightarrow> string \<Rightarrow> ptext \<Rightarrow> string option \<Rightarrow> string option \<Rightarrow> rat \<Rightarrow> store \<Rightarrow> message_row" where
  "staged_message tid kind role content cid turn now st =
     \<lparr>ms_thread = tid, ms_call = cid, ms_call_turn = turn, ms_kind = kind, ms_role = role,
      ms_sequence = next_sequence tid st, ms_content = Some content, ms_selected = None, ms_stale = False,
      ms_created = now, ms_updated = now\<rparr>"

definition append_message ::
  "string \<Rightarrow> string \<Rightarrow> string \<Rightarrow> string \<Rightarrow> ptext \<Rightarrow> rat \<Rightarrow> store \<Rightarrow> store_error + store" where
  "append_message mid tid kind role content now st =
     bind_res (touch_thread tid now st) (\<lambda>st1.
       insert_message mid (staged_message tid kind role content None None now st) st1)"

section \<open>Hydration\<close>

record message_shape =
  sh_id :: string
  sh_row :: message_row
  sh_alternates :: "(string \<times> alternate_row) list"

definition alternates_of :: "string \<Rightarrow> store \<Rightarrow> (string \<times> alternate_row) list" where
  "alternates_of mid st = sort_key (al_index \<circ> snd) (dfilter (\<lambda>_ a. al_message a = mid) (st_alternates st))"

definition hydrate_messages :: "string \<Rightarrow> store \<Rightarrow> message_shape list" where
  "hydrate_messages tid st =
     map (\<lambda>(k, m). \<lparr>sh_id = k, sh_row = m, sh_alternates = alternates_of k st\<rparr>)
       (sort_key (ms_sequence \<circ> snd) (thread_messages tid st))"

definition shape_content :: "message_shape \<Rightarrow> ptext option" where
  "shape_content sh =
     (case ms_selected (sh_row sh) of
        None \<Rightarrow> ms_content (sh_row sh)
      | Some a \<Rightarrow> (case dget (sh_alternates sh) a of
                     Some r \<Rightarrow> Some (al_content r)
                   | None \<Rightarrow> ms_content (sh_row sh)))"

text \<open>What leaves the service: the content is the selected one.\<close>

definition public_shape :: "message_shape \<Rightarrow> message_shape" where
  "public_shape sh = sh\<lparr>sh_row := (sh_row sh)\<lparr>ms_content := shape_content sh\<rparr>\<rparr>"

definition get_thread_detail :: "string \<Rightarrow> store \<Rightarrow> store_error + thread_row \<times> message_shape list" where
  "get_thread_detail tid st =
     (case live_thread tid st of
        None \<Rightarrow> Inl (Thread_not_found tid)
      | Some t \<Rightarrow> Inr (t, map public_shape (hydrate_messages tid st)))"

definition hydrate_message :: "string \<Rightarrow> string \<Rightarrow> store \<Rightarrow> store_error + message_shape" where
  "hydrate_message tid mid st =
     bind_res (get_thread_detail tid st) (\<lambda>(t, shapes).
       case find (\<lambda>sh. sh_id sh = mid) shapes of
         Some sh \<Rightarrow> Inr sh
       | None \<Rightarrow> Inl (Message_not_found mid))"

end
