(* ===== verification/MessageActions.thy ===== *)
theory MessageActions
  imports ChatStore
begin

text \<open>
  Threads and the actions on their messages (\<open>thread_service.py\<close>, \<open>message_actions.py\<close> and the
  repository of \<open>api/chat.py\<close>): creation from a character card, listing, renaming and deletion;
  regeneration, swipes, continuation, selection, edits, and the stale messages after an edit. An
  action that asks the language model is two transactions, the context before and the row after the
  generation; the generated text is an argument.
\<close>

section \<open>Threads\<close>

definition resolve_opening :: "character_row \<Rightarrow> int option \<Rightarrow> store_error + ptext \<times> int" where
  "resolve_opening c index =
     (case index of
        None \<Rightarrow> Inr (case cd_first_mes (cr_card c) of None \<Rightarrow> [] | Some t \<Rightarrow> t, 0)
      | Some i \<Rightarrow>
          if i < 0 \<or> int (length (cr_greetings c)) \<le> i then Inl (Greeting_out_of_range i (length (cr_greetings c)))
          else Inr (cr_greetings c ! nat i, i))"

definition coalesce_title :: "ptext option \<Rightarrow> ptext \<Rightarrow> ptext" where
  "coalesce_title title fallback =
     (case title of None \<Rightarrow> fallback | Some t \<Rightarrow> if strip t = [] then fallback else strip t)"

definition live_character :: "string \<Rightarrow> store \<Rightarrow> store_error + character_row" where
  "live_character cid st =
     (case dget (st_characters st) cid of
        None \<Rightarrow> Inl (Character_unavailable cid)
      | Some c \<Rightarrow> if cr_deleted c = None then Inr c else Inl (Character_unavailable cid))"

definition create_thread ::
  "string \<Rightarrow> string \<Rightarrow> string \<Rightarrow> string \<Rightarrow> ptext option \<Rightarrow> int option \<Rightarrow> rat \<Rightarrow> store \<Rightarrow> store_error + store" where
  "create_thread tid mid aid cid title greeting now st =
     bind_res (live_character cid st) (\<lambda>c.
     bind_res (resolve_opening c greeting) (\<lambda>(opening, index).
     bind_res (insert_thread tid
         \<lparr>th_character = Some cid, th_title = coalesce_title title (cd_name (cr_card c)),
          th_snapshot = cr_card c, th_last = Some now, th_deleted = None, th_created = now, th_updated = now\<rparr> st)
       (\<lambda>st1.
     bind_res (insert_message mid
         \<lparr>ms_thread = tid, ms_call = None, ms_call_turn = None, ms_kind = ''ai_text'', ms_role = ''assistant'',
          ms_sequence = 0, ms_content = Some opening, ms_selected = Some aid, ms_stale = False,
          ms_created = now, ms_updated = now\<rparr> st1)
       (\<lambda>st2.
     insert_alternate aid
         \<lparr>al_message = mid, al_index = index, al_content = opening, al_action = ''first_mes'', al_root = None,
          al_created = now, al_updated = now\<rparr> st2))))"

definition last_desc :: "(string \<times> thread_row) list \<Rightarrow> (string \<times> thread_row) list" where
  "last_desc ts =
     sort_key (\<lambda>(k, t). th_last t = None)
       (sort_key (\<lambda>(k, t). - (case th_last t of None \<Rightarrow> 0 | Some x \<Rightarrow> x)) ts)"

definition thread_order :: "(string \<times> thread_row) list \<Rightarrow> (string \<times> thread_row) list" where
  "thread_order ts =
     sort_key (\<lambda>(k, t). - th_updated t) (last_desc (sort_key (\<lambda>(k, t). - th_created t) ts))"

function split_words :: "ptext \<Rightarrow> ptext list" where
  "split_words t =
     (if lstrip t = [] then []
      else takeWhile (\<lambda>c. \<not> py_space c) (lstrip t)
           # split_words (dropWhile (\<lambda>c. \<not> py_space c) (lstrip t)))"
  by pat_completeness auto
termination
proof (relation "measure length", simp, goal_cases)
  case (1 t)
  obtain c u where t: "lstrip t = c # u" using 1 by (cases "lstrip t") auto
  have "\<not> py_space c" using t hd_dropWhile [of py_space t] by (simp add: lstrip_def)
  then have "length (dropWhile (\<lambda>c. \<not> py_space c) (lstrip t)) \<le> length u"
    by (simp add: t length_dropWhile_le)
  also have "length u < length t" using length_lstrip [of t] t by simp
  finally show ?case by simp
qed

declare split_words.simps [simp del]

definition snippet :: "ptext option \<Rightarrow> ptext" where
  "snippet content =
     (let text = join [32] (split_words (case content of None \<Rightarrow> [] | Some t \<Rightarrow> t)) in
      if length text \<le> 120 then text else rstrip (take 119 text) @ lit ''...'')"

definition thread_item :: "store \<Rightarrow> string \<times> thread_row \<Rightarrow> string \<times> thread_row \<times> ptext" where
  "thread_item st entry =
     (let (tid, t) = entry; ms = hydrate_messages tid st in
      (tid, t, snippet (if ms = [] then None else shape_content (last ms))))"

definition list_threads :: "store \<Rightarrow> (string \<times> thread_row \<times> ptext) list" where
  "list_threads st =
     map (thread_item st) (thread_order (dfilter (\<lambda>_ t. th_deleted t = None) (st_threads st)))"

definition rename_thread :: "string \<Rightarrow> ptext \<Rightarrow> rat \<Rightarrow> store \<Rightarrow> store_error + store" where
  "rename_thread tid title now st =
     (case live_thread tid st of
        None \<Rightarrow> Inl (Thread_not_found tid)
      | Some t \<Rightarrow>
          if strip title = [] then Inl Title_required
          else Inr (st\<lparr>st_threads := dset tid (t\<lparr>th_title := strip title, th_updated := now\<rparr>) (st_threads st)\<rparr>))"

text \<open>The rows of call turns go with the thread by their foreign key.\<close>

definition delete_thread :: "string \<Rightarrow> store \<Rightarrow> store_error + store" where
  "delete_thread tid st =
     (case live_thread tid st of
        None \<Rightarrow> Inl (Thread_not_found tid)
      | Some t \<Rightarrow>
          let ids = map fst (thread_messages tid st) in
          Inr (st\<lparr>st_alternates := dfilter (\<lambda>_ a. al_message a \<notin> set ids) (st_alternates st),
                  st_messages := dfilter (\<lambda>_ m. ms_thread m \<noteq> tid) (st_messages st),
                  st_turns := dfilter (\<lambda>_ r. ct_thread r \<noteq> tid) (st_turns st),
                  st_threads := dpop tid (st_threads st)\<rparr>))"

section \<open>The context of a generation\<close>

record generation_context =
  gx_thread :: string
  gx_message :: string
  gx_kind :: string
  gx_role :: string
  gx_until :: "string option"
  gx_selected :: ptext

definition get_message :: "string \<Rightarrow> store \<Rightarrow> store_error + message_row" where
  "get_message mid st =
     (case dget (st_messages st) mid of None \<Rightarrow> Inl (Message_not_found mid) | Some m \<Rightarrow> Inr m)"

definition ai_kind :: "message_row \<Rightarrow> bool" where
  "ai_kind m \<longleftrightarrow> ms_role m = ''assistant'' \<and> take 3 (ms_kind m) = ''ai_''"

definition get_ai_message :: "string \<Rightarrow> store \<Rightarrow> store_error + message_row" where
  "get_ai_message mid st =
     bind_res (get_message mid st) (\<lambda>m.
       if ai_kind m then Inr m else Inl (Invalid_action ''Message action requires an AI message''))"

definition own_alternate :: "string \<Rightarrow> string option \<Rightarrow> store \<Rightarrow> (string \<times> alternate_row) option" where
  "own_alternate mid sel st =
     (case sel of
        None \<Rightarrow> None
      | Some a \<Rightarrow> (case dget (st_alternates st) a of
                     None \<Rightarrow> None
                   | Some r \<Rightarrow> if al_message r = mid then Some (a, r) else None))"

definition previous_message_id :: "message_row \<Rightarrow> store \<Rightarrow> string option" where
  "previous_message_id m st =
     (case sort_key (\<lambda>(k, n). - ms_sequence n)
             (dfilter (\<lambda>_ n. ms_thread n = ms_thread m \<and> ms_sequence n < ms_sequence m \<and> \<not> ms_stale n)
               (st_messages st)) of
        [] \<Rightarrow> None
      | (k, n) # _ \<Rightarrow> Some k)"

definition get_generation_context :: "string \<Rightarrow> bool \<Rightarrow> store \<Rightarrow> store_error + generation_context" where
  "get_generation_context mid include_target st =
     bind_res (get_message mid st) (\<lambda>m.
       Inr \<lparr>gx_thread = ms_thread m, gx_message = mid, gx_kind = ms_kind m, gx_role = ms_role m,
            gx_until = (if include_target then Some mid else previous_message_id m st),
            gx_selected = (case own_alternate mid (ms_selected m) st of
                             Some (a, r) \<Rightarrow> al_content r
                           | None \<Rightarrow> (case ms_content m of None \<Rightarrow> [] | Some t \<Rightarrow> t))\<rparr>)"

definition checked_context :: "string \<Rightarrow> bool \<Rightarrow> store \<Rightarrow> store_error + generation_context" where
  "checked_context mid include_target st =
     bind_res (get_generation_context mid include_target st) (\<lambda>x.
       if gx_role x = ''assistant'' \<and> take 3 (gx_kind x) = ''ai_'' then Inr x
       else Inl (Invalid_action ''Message action requires an AI message''))"

section \<open>Alternates\<close>

definition next_alternate_index :: "string \<Rightarrow> store \<Rightarrow> int" where
  "next_alternate_index mid st =
     max_or (-1) (map (al_index \<circ> snd) (dfilter (\<lambda>_ a. al_message a = mid) (st_alternates st))) + 1"

definition source_action :: "string \<Rightarrow> store_error + string" where
  "source_action a =
     (if a \<in> {''regenerate'', ''swipe'', ''continue''} then Inr a
      else Inl (Invalid_action ''Unsupported message alternate source action''))"

definition new_alternate ::
  "string \<Rightarrow> string \<Rightarrow> ptext \<Rightarrow> string \<Rightarrow> rat \<Rightarrow> store \<Rightarrow> store_error + store" where
  "new_alternate aid mid content action now st =
     bind_res (source_action action) (\<lambda>act.
       insert_alternate aid
         \<lparr>al_message = mid, al_index = next_alternate_index mid st, al_content = content, al_action = act,
          al_root = Some mid, al_created = now, al_updated = now\<rparr> st)"

definition replace_selected_ai_response ::
  "string \<Rightarrow> string \<Rightarrow> ptext \<Rightarrow> string \<Rightarrow> rat \<Rightarrow> store \<Rightarrow> store_error + store" where
  "replace_selected_ai_response aid mid content action now st =
     bind_res (get_ai_message mid st) (\<lambda>m.
     bind_res (new_alternate aid mid content action now st) (\<lambda>st1.
     touch_thread (ms_thread m) now
       (update_message mid (\<lambda>n. n\<lparr>ms_content := Some content, ms_selected := Some aid, ms_stale := False,
                                  ms_updated := now\<rparr>) st1)))"

definition add_selected_alternate ::
  "string \<Rightarrow> string \<Rightarrow> ptext \<Rightarrow> string \<Rightarrow> rat \<Rightarrow> store \<Rightarrow> store_error + store" where
  "add_selected_alternate aid mid content action now st =
     bind_res (get_ai_message mid st) (\<lambda>m.
     bind_res (new_alternate aid mid content action now st) (\<lambda>st1.
     touch_thread (ms_thread m) now
       (update_message mid (\<lambda>n. n\<lparr>ms_selected := Some aid, ms_updated := now\<rparr>) st1)))"

definition select_alternate :: "string \<Rightarrow> string \<Rightarrow> rat \<Rightarrow> store \<Rightarrow> store_error + store" where
  "select_alternate mid aid now st =
     bind_res (get_ai_message mid st) (\<lambda>m.
       case own_alternate mid (Some aid) st of
         None \<Rightarrow> Inl (Message_not_found aid)
       | Some _ \<Rightarrow>
           touch_thread (ms_thread m) now
             (update_message mid (\<lambda>n. n\<lparr>ms_selected := Some aid, ms_updated := now\<rparr>) st))"

section \<open>Edits and stale messages\<close>

definition mark_later_stale :: "message_row \<Rightarrow> rat \<Rightarrow> store \<Rightarrow> store" where
  "mark_later_stale m now st =
     st\<lparr>st_messages := dmap (\<lambda>n. if ms_thread n = ms_thread m \<and> ms_sequence m < ms_sequence n
                                   then n\<lparr>ms_stale := True, ms_updated := now\<rparr> else n) (st_messages st)\<rparr>"

definition edit_selected :: "string \<Rightarrow> message_row \<Rightarrow> ptext \<Rightarrow> rat \<Rightarrow> store \<Rightarrow> store" where
  "edit_selected mid m content now st =
     (case own_alternate mid (ms_selected m) st of
        None \<Rightarrow> st
      | Some (a, r) \<Rightarrow>
          st\<lparr>st_alternates := dset a (r\<lparr>al_content := content, al_updated := now\<rparr>) (st_alternates st)\<rparr>)"

definition edit_message :: "string \<Rightarrow> ptext \<Rightarrow> rat \<Rightarrow> store \<Rightarrow> store_error + store" where
  "edit_message mid content now st =
     bind_res (get_message mid st) (\<lambda>m.
       let st1 = edit_selected mid m content now
                   (update_message mid (\<lambda>n. n\<lparr>ms_content := Some content, ms_updated := now\<rparr>) st);
           st2 = (if ms_role m = ''user''
                  then mark_later_stale m now (update_message mid (\<lambda>n. n\<lparr>ms_stale := False\<rparr>) st1)
                  else st1) in
       touch_thread (ms_thread m) now st2)"

definition stale_after :: "message_row \<Rightarrow> message_row \<Rightarrow> bool" where
  "stale_after m n \<longleftrightarrow> ms_thread n = ms_thread m \<and> ms_sequence m < ms_sequence n \<and> ms_stale n"

definition truncate_stale_after :: "string \<Rightarrow> rat \<Rightarrow> store \<Rightarrow> store_error + store" where
  "truncate_stale_after mid now st =
     bind_res (get_message mid st) (\<lambda>m.
       let ids = map fst (dfilter (\<lambda>_ n. stale_after m n) (st_messages st)) in
       touch_thread (ms_thread m) now
         (st\<lparr>st_alternates := dfilter (\<lambda>_ a. al_message a \<notin> set ids) (st_alternates st),
             st_messages := dfilter (\<lambda>k _. k \<notin> set ids) (st_messages st)\<rparr>))"

definition keep_stale_after :: "string \<Rightarrow> rat \<Rightarrow> store \<Rightarrow> store_error + store" where
  "keep_stale_after mid now st =
     bind_res (get_message mid st) (\<lambda>m. touch_thread (ms_thread m) now st)"

section \<open>The actions\<close>

text \<open>
  The first half of an action is what it asks the model for: the thread and the message up to which
  the prompt goes, and for a continuation the text that is continued. The second half stores what the
  model generated.
\<close>

definition regenerate_begin :: "string \<Rightarrow> store \<Rightarrow> store_error + string \<times> string option" where
  "regenerate_begin mid st =
     bind_res (checked_context mid False st) (\<lambda>x. Inr (gx_thread x, gx_until x))"

definition regenerate_end :: "string \<Rightarrow> string \<Rightarrow> ptext \<Rightarrow> rat \<Rightarrow> store \<Rightarrow> store_error + store" where
  "regenerate_end aid mid generated now st = replace_selected_ai_response aid mid generated ''regenerate'' now st"

definition swipe_end :: "string \<Rightarrow> string \<Rightarrow> ptext \<Rightarrow> rat \<Rightarrow> store \<Rightarrow> store_error + store" where
  "swipe_end aid mid generated now st = add_selected_alternate aid mid generated ''swipe'' now st"

definition continue_begin :: "string \<Rightarrow> ptext \<Rightarrow> store \<Rightarrow> store_error + string \<times> string option \<times> ptext" where
  "continue_begin mid composer st =
     bind_res (checked_context mid False st) (\<lambda>x.
       let prefix = (if composer \<noteq> [] then composer else gx_selected x) in
       if prefix \<noteq> [] then Inr (gx_thread x, gx_until x, prefix)
       else bind_res (checked_context mid True st) (\<lambda>y. Inr (gx_thread y, gx_until y, prefix)))"

definition commit_continue_prefix :: "ptext \<Rightarrow> ptext \<Rightarrow> ptext" where
  "commit_continue_prefix prefix suffix =
     (if prefix = [] then suffix
      else prefix @ (if starts_with prefix suffix then drop (length prefix) suffix else suffix))"

definition continue_end :: "string \<Rightarrow> string \<Rightarrow> ptext \<Rightarrow> ptext \<Rightarrow> rat \<Rightarrow> store \<Rightarrow> store_error + store" where
  "continue_end aid mid prefix generated now st =
     add_selected_alternate aid mid (commit_continue_prefix prefix generated) ''continue'' now st"

end
