(* ===== verification/CallTurns.thy ===== *)
theory CallTurns
  imports MessageActions
begin

text \<open>
  The durable turns of a call (\<open>CallService\<close> of \<open>web-ui/server/app/domain/call_service.py\<close>): a
  call lives in the memory of the server process, its turns in a table. A turn is reserved by one
  owner, becomes running with the user's message, and ends completed with the assistant's message, or
  failed, or cancelled; an owner that is gone is found by its lease or by its finished task.

  Every operation is the code between two points at which another request may run. Reservation, the
  user's message and the end of a turn hold the lifecycle lock over their awaits and are one step
  each. The assistant's message takes three: the claim, the staging, which leaves the persistence
  lock held, and the commit. Of the voice only the row is modelled, not its reference.
\<close>

section \<open>State\<close>

record active_call =
  ac_session :: string
  ac_thread :: string
  ac_voice :: string
  ac_engine :: ptext
  ac_started :: rat
  ac_ended :: "rat option"
  ac_muted :: bool
  ac_completed :: "string set"
  ac_pending :: "string set"
  ac_tasks :: "nat set"
  ac_states :: "(string, turn_status) dict"
  ac_owners :: "(string, string) dict"
  ac_owner_tasks :: "(string, nat) dict"
  ac_end_recorded :: bool
  ac_staged :: "(string \<times> string \<times> string \<times> message_row) option"

text \<open>
  \<open>ac_staged\<close> stands for the request that holds the persistence lock between the staging and the
  commit of an assistant's message: its turn, its owner, and the row with its identifier.
\<close>

record server =
  sv_store :: store
  sv_calls :: "(string, active_call) dict"

datatype call_error =
    Store_fault store_error
  | Call_not_found
  | Voice_required
  | Voice_unavailable
  | Commit_failed

record reservation =
  rv_created :: bool
  rv_state :: turn_status
  rv_matches :: bool
  rv_message :: "(string \<times> message_row) option"
  rv_owner :: "string option"

definition lease_seconds :: rat where
  "lease_seconds = 300"

definition open_turn :: "turn_status \<Rightarrow> bool" where
  "open_turn s \<longleftrightarrow> s = Turn_reserved \<or> s = Turn_running"

definition put_call :: "string \<Rightarrow> active_call \<Rightarrow> server \<Rightarrow> server" where
  "put_call cid c sv = sv\<lparr>sv_calls := dset cid c (sv_calls sv)\<rparr>"

definition find_turn :: "string \<Rightarrow> string \<Rightarrow> store \<Rightarrow> (string \<times> turn_row) option" where
  "find_turn cid turn st = find (\<lambda>(k, r). ct_call r = cid \<and> ct_turn r = turn) (st_turns st)"

definition put_turn :: "string \<Rightarrow> turn_row \<Rightarrow> store \<Rightarrow> store" where
  "put_turn rid r st = st\<lparr>st_turns := dset rid r (st_turns st)\<rparr>"

definition close_turn :: "turn_status \<Rightarrow> rat \<Rightarrow> turn_row \<Rightarrow> turn_row" where
  "close_turn s now r = r\<lparr>ct_state := s, ct_owner := None, ct_lease := None, ct_updated := now\<rparr>"

section \<open>Owners that are gone\<close>

definition turn_owner_is_live :: "nat set \<Rightarrow> turn_row \<Rightarrow> active_call \<Rightarrow> bool" where
  "turn_owner_is_live done r c \<longleftrightarrow>
     ct_owner r \<noteq> None \<and> dget (ac_owners c) (ct_turn r) = ct_owner r
     \<and> (case dget (ac_owner_tasks c) (ct_turn r) of None \<Rightarrow> True | Some t \<Rightarrow> t \<notin> done)"

definition lease_over :: "rat \<Rightarrow> turn_row \<Rightarrow> bool" where
  "lease_over now r \<longleftrightarrow> (case ct_lease r of None \<Rightarrow> True | Some e \<Rightarrow> e \<le> now)"

definition drop_owner :: "string \<Rightarrow> active_call \<Rightarrow> active_call" where
  "drop_owner turn c = c\<lparr>ac_owners := dpop turn (ac_owners c), ac_owner_tasks := dpop turn (ac_owner_tasks c)\<rparr>"

definition set_turn_state :: "string \<Rightarrow> turn_status \<Rightarrow> active_call \<Rightarrow> active_call" where
  "set_turn_state turn s c = c\<lparr>ac_states := dset turn s (ac_states c)\<rparr>"

definition owner_known_dead :: "turn_row \<Rightarrow> active_call \<Rightarrow> bool" where
  "owner_known_dead r c \<longleftrightarrow> ct_owner r \<noteq> None \<and> dget (ac_owners c) (ct_turn r) = ct_owner r"

definition turn_is_stale :: "rat \<Rightarrow> nat set \<Rightarrow> turn_row \<Rightarrow> active_call \<Rightarrow> bool" where
  "turn_is_stale now done r c \<longleftrightarrow>
     open_turn (ct_state r) \<and> \<not> turn_owner_is_live done r c \<and> (owner_known_dead r c \<or> lease_over now r)"

definition terminalize_stale_turn ::
  "rat \<Rightarrow> nat set \<Rightarrow> string \<Rightarrow> turn_row \<Rightarrow> active_call \<Rightarrow> store \<Rightarrow> turn_row \<times> active_call \<times> store" where
  "terminalize_stale_turn now done rid r c st =
     (if turn_is_stale now done r c
      then let r' = close_turn Turn_failed now r in
           (r', drop_owner (ct_turn r) (set_turn_state (ct_turn r) Turn_failed c), put_turn rid r' st)
      else (r, c, st))"

section \<open>Reservation\<close>

definition turn_reservation :: "string \<Rightarrow> turn_row \<Rightarrow> store \<Rightarrow> reservation" where
  "turn_reservation sha r st =
     \<lparr>rv_created = False, rv_state = ct_state r, rv_matches = (ct_sha r = sha),
      rv_message = (case ct_assistant r of
                      None \<Rightarrow> None
                    | Some m \<Rightarrow> map_option (Pair m) (dget (st_messages st) m)),
      rv_owner = None\<rparr>"

definition existing_turn_reservation ::
  "rat \<Rightarrow> nat set \<Rightarrow> string \<Rightarrow> string \<Rightarrow> string \<Rightarrow> turn_row \<Rightarrow> active_call \<Rightarrow> server \<Rightarrow> reservation \<times> server" where
  "existing_turn_reservation now done sha cid rid r c sv =
     (let (r1, c1, st1) = terminalize_stale_turn now done rid r c (sv_store sv) in
      (turn_reservation sha r1 st1,
       put_call cid (set_turn_state (ct_turn r1) (ct_state r1) c1) (sv\<lparr>sv_store := st1\<rparr>)))"

definition discard_turn_owner :: "string \<Rightarrow> string \<Rightarrow> nat option \<Rightarrow> active_call \<Rightarrow> active_call" where
  "discard_turn_owner turn owner task c =
     (let c1 = (if dget (ac_owners c) turn = Some owner
                then drop_owner turn (c\<lparr>ac_states := dpop turn (ac_states c)\<rparr>) else c) in
      case task of None \<Rightarrow> c1 | Some t \<Rightarrow> c1\<lparr>ac_tasks := ac_tasks c1 - {t}\<rparr>)"

text \<open>
  How the commit of a reservation ends: it returns, or it raises (by a cancellation or not), and then
  the row may have landed all the same, and the session that repairs it may work or not.
\<close>

datatype commit_end = Commit_returns | Commit_raises bool bool bool

definition own_reservation :: "string \<Rightarrow> string \<Rightarrow> nat option \<Rightarrow> active_call \<Rightarrow> active_call" where
  "own_reservation turn owner task c =
     (let c1 = c\<lparr>ac_states := dset turn Turn_reserved (dpop turn (ac_states c)),
                 ac_owners := dset turn owner (ac_owners c)\<rparr> in
      case task of
        None \<Rightarrow> c1
      | Some t \<Rightarrow> c1\<lparr>ac_tasks := insert t (ac_tasks c1), ac_owner_tasks := dset turn t (ac_owner_tasks c1)\<rparr>)"

definition reserve_call_turn ::
  "string \<Rightarrow> string \<Rightarrow> string \<Rightarrow> string \<Rightarrow> string \<Rightarrow> nat option \<Rightarrow> commit_end \<Rightarrow> nat set \<Rightarrow> rat \<Rightarrow> server
   \<Rightarrow> (call_error + reservation) \<times> server" where
  "reserve_call_turn cid turn sha rid owner task commit done now sv =
     (case dget (sv_calls sv) cid of
        None \<Rightarrow> (Inl Call_not_found, sv)
      | Some c \<Rightarrow>
          if ac_ended c \<noteq> None then (Inl Call_not_found, sv)
          else
            case find_turn cid turn (sv_store sv) of
              Some (k, r) \<Rightarrow>
                (let (rv, sv') = existing_turn_reservation now done sha cid k r c sv in (Inr rv, sv'))
            | None \<Rightarrow>
                let row = \<lparr>ct_call = cid, ct_turn = turn, ct_thread = ac_thread c, ct_sha = sha,
                           ct_state = Turn_reserved, ct_owner = Some owner, ct_lease = Some (now + lease_seconds),
                           ct_user = None, ct_assistant = None, ct_created = now, ct_updated = now\<rparr>;
                    c1 = own_reservation turn owner task c;
                    c2 = discard_turn_owner turn owner task c1 in
                case (commit, insert_turn rid row (sv_store sv)) of
                  (Commit_returns, Inr st1) \<Rightarrow>
                    (Inr \<lparr>rv_created = True, rv_state = Turn_reserved, rv_matches = True, rv_message = None,
                          rv_owner = Some owner\<rparr>,
                     put_call cid c1 (sv\<lparr>sv_store := st1\<rparr>))
                | (Commit_returns, Inl e) \<Rightarrow> (Inl (Store_fault e), put_call cid c2 sv)
                | (Commit_raises cancelled landed repairs, Inr st1) \<Rightarrow>
                    (let failure = (if cancelled then Turn_cancelled else Turn_failed) in
                     if \<not> landed then (Inl Commit_failed, put_call cid c2 sv)
                     else if \<not> repairs then (Inl Commit_failed, put_call cid c2 (sv\<lparr>sv_store := st1\<rparr>))
                     else (Inl Commit_failed,
                           put_call cid (set_turn_state turn failure c2)
                             (sv\<lparr>sv_store := put_turn rid (close_turn failure now row) st1\<rparr>)))
                | (Commit_raises cancelled landed repairs, Inl e) \<Rightarrow> (Inl Commit_failed, put_call cid c2 sv))"

definition call_turn_status ::
  "string \<Rightarrow> string \<Rightarrow> string \<Rightarrow> nat set \<Rightarrow> rat \<Rightarrow> server \<Rightarrow> (call_error + reservation) \<times> server" where
  "call_turn_status cid turn sha done now sv =
     (case dget (sv_calls sv) cid of
        None \<Rightarrow> (Inl Call_not_found, sv)
      | Some c \<Rightarrow>
          case find_turn cid turn (sv_store sv) of
            None \<Rightarrow> (Inl Call_not_found, sv)
          | Some (k, r) \<Rightarrow>
              (let (rv, sv') = existing_turn_reservation now done sha cid k r c sv in (Inr rv, sv')))"

text \<open>One turn of the reconciliation at the start of a call; a call of an earlier process is not in memory.\<close>

definition reconcile_turn :: "rat \<Rightarrow> nat set \<Rightarrow> string \<Rightarrow> server \<Rightarrow> server" where
  "reconcile_turn now done rid sv =
     (case dget (st_turns (sv_store sv)) rid of
        None \<Rightarrow> sv
      | Some r \<Rightarrow>
          if \<not> (open_turn (ct_state r) \<and> lease_over now r) then sv
          else
            case dget (sv_calls sv) (ct_call r) of
              Some c \<Rightarrow>
                (let (r1, c1, st1) = terminalize_stale_turn now done rid r c (sv_store sv) in
                 put_call (ct_call r) c1 (sv\<lparr>sv_store := st1\<rparr>))
            | None \<Rightarrow> sv\<lparr>sv_store := put_turn rid (close_turn Turn_failed now r) (sv_store sv)\<rparr>)"

definition reconcile_stale_call_turns :: "rat \<Rightarrow> nat set \<Rightarrow> server \<Rightarrow> server" where
  "reconcile_stale_call_turns now done sv =
     fold (reconcile_turn now done)
       (map fst (dfilter (\<lambda>_ r. open_turn (ct_state r) \<and> lease_over now r) (st_turns (sv_store sv)))) sv"

section \<open>Messages of a turn\<close>

definition resolve_owner :: "string option \<Rightarrow> string \<Rightarrow> active_call \<Rightarrow> string option" where
  "resolve_owner owner turn c =
     (case owner of
        None \<Rightarrow> dget (ac_owners c) turn
      | Some w \<Rightarrow> if w = [] then dget (ac_owners c) turn else Some w)"

definition owns_turn :: "string option \<Rightarrow> string \<Rightarrow> active_call \<Rightarrow> bool" where
  "owns_turn owner turn c \<longleftrightarrow> owner \<noteq> None \<and> dget (ac_owners c) turn = owner"

definition record_event ::
  "string \<Rightarrow> string \<Rightarrow> string \<Rightarrow> ptext \<Rightarrow> rat \<Rightarrow> server \<Rightarrow> (call_error + string option) \<times> server" where
  "record_event mid cid type text now sv =
     (case dget (sv_calls sv) cid of
        None \<Rightarrow> (Inl Call_not_found, sv)
      | Some c \<Rightarrow>
          let speech = (if type \<in> {''user_speech'', ''user_final''} then Some (''user_speech'', ''user'')
                        else if type \<in> {''ai_speech'', ''ai_final''} then Some (''ai_speech'', ''assistant'')
                        else None) in
          case speech of
            None \<Rightarrow> (Inr None, sv)
          | Some (kind, role) \<Rightarrow>
              case append_message mid (ac_thread c) kind role text now (sv_store sv) of
                Inl e \<Rightarrow> (Inl (Store_fault e), sv)
              | Inr st \<Rightarrow> (Inr (Some mid), sv\<lparr>sv_store := st\<rparr>))"

definition record_reserved_user_speech ::
  "string \<Rightarrow> string \<Rightarrow> string \<Rightarrow> ptext \<Rightarrow> string option \<Rightarrow> rat \<Rightarrow> server
   \<Rightarrow> (call_error + string option) \<times> server" where
  "record_reserved_user_speech mid cid turn text owner now sv =
     (case dget (sv_calls sv) cid of
        None \<Rightarrow> (Inl Call_not_found, sv)
      | Some c \<Rightarrow>
          let w = resolve_owner owner turn c in
          if ac_ended c \<noteq> None \<or> dget (ac_states c) turn \<noteq> Some Turn_reserved \<or> \<not> owns_turn w turn c
          then (Inr None, sv)
          else
            case append_message mid (ac_thread c) ''user_speech'' ''user'' text now (sv_store sv) of
              Inl e \<Rightarrow> (Inl (Store_fault e), sv)
            | Inr st \<Rightarrow>
                case find_turn cid turn st of
                  None \<Rightarrow> (Inr None, sv)
                | Some (k, r) \<Rightarrow>
                    if ct_state r \<noteq> Turn_reserved \<or> ct_owner r \<noteq> w then (Inr None, sv)
                    else
                      (Inr (Some mid),
                       put_call cid (set_turn_state turn Turn_running c)
                         (sv\<lparr>sv_store := put_turn k (r\<lparr>ct_user := Some mid, ct_state := Turn_running,
                              ct_lease := Some (now + lease_seconds), ct_updated := now\<rparr>) st\<rparr>)))"

text \<open>The claim of the assistant's message; \<open>completed\<close> is a normal terminal with completed playout.\<close>

definition complete_begin ::
  "string \<Rightarrow> string \<Rightarrow> string option \<Rightarrow> bool \<Rightarrow> server \<Rightarrow> (call_error + bool) \<times> server" where
  "complete_begin cid turn owner completed sv =
     (case dget (sv_calls sv) cid of
        None \<Rightarrow> (Inl Call_not_found, sv)
      | Some c \<Rightarrow>
          if \<not> completed then (Inr False, sv)
          else if ac_ended c \<noteq> None \<or> dget (ac_states c) turn \<noteq> Some Turn_running
              \<or> \<not> owns_turn (resolve_owner owner turn c) turn c
              \<or> turn \<in> ac_completed c \<or> turn \<in> ac_pending c
          then (Inr False, sv)
          else (Inr True, put_call cid (c\<lparr>ac_pending := insert turn (ac_pending c)\<rparr>) sv))"

definition drop_pending :: "string \<Rightarrow> active_call \<Rightarrow> active_call" where
  "drop_pending turn c = c\<lparr>ac_pending := ac_pending c - {turn}\<rparr>"

text \<open>
  Staging: the row takes the next sequence and waits, uncommitted, for the lifecycle lock. A staging
  that violates a constraint looks for a message of the turn that is there already.
\<close>

definition message_of_turn :: "string \<Rightarrow> string \<Rightarrow> store \<Rightarrow> bool" where
  "message_of_turn cid turn st \<longleftrightarrow>
     list_ex (\<lambda>(k, m). ms_call m = Some cid \<and> ms_call_turn m = Some turn) (st_messages st)"

definition refuse_completion ::
  "store_error \<Rightarrow> string \<Rightarrow> string \<Rightarrow> active_call \<Rightarrow> server \<Rightarrow> (call_error + bool) \<times> server" where
  "refuse_completion e cid turn c sv =
     (if e = Integrity_error \<and> message_of_turn cid turn (sv_store sv)
      then (Inr False, put_call cid (drop_pending turn c\<lparr>ac_completed := insert turn (ac_completed c)\<rparr>) sv)
      else (Inl (Store_fault e), put_call cid (drop_pending turn c) sv))"

definition complete_stage ::
  "string \<Rightarrow> string \<Rightarrow> string \<Rightarrow> ptext \<Rightarrow> string \<Rightarrow> rat \<Rightarrow> server \<Rightarrow> (call_error + bool) \<times> server" where
  "complete_stage mid cid turn text owner now sv =
     (case dget (sv_calls sv) cid of
        None \<Rightarrow> (Inl Call_not_found, sv)
      | Some c \<Rightarrow>
          if ac_ended c \<noteq> None \<or> dget (ac_owners c) turn \<noteq> Some owner
          then (Inr False, put_call cid (drop_pending turn c) sv)
          else
            let row = staged_message (ac_thread c) ''ai_speech'' ''assistant'' text (Some cid) (Some turn) now
                        (sv_store sv) in
            case bind_res (touch_thread (ac_thread c) now (sv_store sv)) (insert_message mid row) of
              Inl e \<Rightarrow> refuse_completion e cid turn c sv
            | Inr _ \<Rightarrow> (Inr True, put_call cid (c\<lparr>ac_staged := Some (turn, owner, mid, row)\<rparr>) sv))"

definition complete_commit :: "string \<Rightarrow> rat \<Rightarrow> server \<Rightarrow> (call_error + string option) \<times> server" where
  "complete_commit cid now sv =
     (case dget (sv_calls sv) cid of
        None \<Rightarrow> (Inl Call_not_found, sv)
      | Some c \<Rightarrow>
          case ac_staged c of
            None \<Rightarrow> (Inr None, sv)
          | Some (turn, owner, mid, row) \<Rightarrow>
              let c1 = c\<lparr>ac_staged := None\<rparr>; refused = (Inr None, put_call cid (drop_pending turn c1) sv) in
              if ac_ended c \<noteq> None then refused
              else
                case find_turn cid turn (sv_store sv) of
                  None \<Rightarrow> refused
                | Some (k, r) \<Rightarrow>
                    if ct_state r \<noteq> Turn_running \<or> ct_owner r \<noteq> Some owner then refused
                    else
                      case bind_res (touch_thread (ac_thread c) (ms_created row) (sv_store sv)) (insert_message mid row) of
                        Inl e \<Rightarrow>
                          (let (res, sv') = refuse_completion e cid turn c1 sv in
                           (case res of Inl x \<Rightarrow> Inl x | Inr _ \<Rightarrow> Inr None, sv'))
                      | Inr st \<Rightarrow>
                          (Inr (Some mid),
                           put_call cid
                             (set_turn_state turn Turn_done
                               ((drop_pending turn c1)\<lparr>ac_completed := insert turn (ac_completed c1)\<rparr>))
                             (sv\<lparr>sv_store := put_turn k
                                  ((close_turn Turn_done now r)\<lparr>ct_assistant := Some mid\<rparr>) st\<rparr>)))"

text \<open>A cancellation or another failure of the request while its completion is under way.\<close>

definition complete_abort :: "string \<Rightarrow> string \<Rightarrow> server \<Rightarrow> server" where
  "complete_abort cid turn sv =
     (case dget (sv_calls sv) cid of
        None \<Rightarrow> sv
      | Some c \<Rightarrow>
          put_call cid
            ((drop_pending turn c)\<lparr>ac_staged := (case ac_staged c of
                None \<Rightarrow> None
              | Some (t, w, mid, row) \<Rightarrow> if t = turn then None else Some (t, w, mid, row))\<rparr>) sv)"

definition finish_call_turn ::
  "string \<Rightarrow> string \<Rightarrow> turn_status \<Rightarrow> string option \<Rightarrow> rat \<Rightarrow> server \<Rightarrow> (call_error + unit) \<times> server" where
  "finish_call_turn cid turn state owner now sv =
     (case dget (sv_calls sv) cid of
        None \<Rightarrow> (Inl Call_not_found, sv)
      | Some c \<Rightarrow>
          let w = resolve_owner owner turn c in
          if (case dget (ac_states c) turn of None \<Rightarrow> True | Some s \<Rightarrow> \<not> open_turn s) \<or> \<not> owns_turn w turn c
          then (Inr (), sv)
          else
            case find_turn cid turn (sv_store sv) of
              None \<Rightarrow> (Inr (), sv)
            | Some (k, r) \<Rightarrow>
                if \<not> open_turn (ct_state r) \<or> ct_owner r \<noteq> w then (Inr (), sv)
                else (Inr (), put_call cid (set_turn_state turn state c)
                                (sv\<lparr>sv_store := put_turn k (close_turn state now r) (sv_store sv)\<rparr>)))"

section \<open>The tasks of a call and its end\<close>

definition with_call :: "string \<Rightarrow> (active_call \<Rightarrow> active_call) \<Rightarrow> server \<Rightarrow> (call_error + unit) \<times> server" where
  "with_call cid f sv =
     (case dget (sv_calls sv) cid of
        None \<Rightarrow> (Inl Call_not_found, sv)
      | Some c \<Rightarrow> (Inr (), put_call cid (f c) sv))"

definition set_muted_flag :: "string \<Rightarrow> bool \<Rightarrow> server \<Rightarrow> (call_error + unit) \<times> server" where
  "set_muted_flag cid muted = with_call cid (\<lambda>c. c\<lparr>ac_muted := muted\<rparr>)"

definition attach_session :: "string \<Rightarrow> string \<Rightarrow> server \<Rightarrow> (call_error + unit) \<times> server" where
  "attach_session cid session = with_call cid (\<lambda>c. c\<lparr>ac_session := session\<rparr>)"

definition register_active_turn :: "string \<Rightarrow> nat \<Rightarrow> server \<Rightarrow> (call_error + bool) \<times> server" where
  "register_active_turn cid task sv =
     (case dget (sv_calls sv) cid of
        None \<Rightarrow> (Inl Call_not_found, sv)
      | Some c \<Rightarrow>
          if ac_ended c \<noteq> None then (Inr False, sv)
          else (Inr True, put_call cid (c\<lparr>ac_tasks := insert task (ac_tasks c)\<rparr>) sv))"

definition unregister_active_turn ::
  "string \<Rightarrow> nat \<Rightarrow> string option \<Rightarrow> string option \<Rightarrow> server \<Rightarrow> (call_error + unit) \<times> server" where
  "unregister_active_turn cid task turn owner =
     with_call cid (\<lambda>c.
       let c1 = c\<lparr>ac_tasks := ac_tasks c - {task}\<rparr> in
       case (turn, owner) of
         (Some t, Some w) \<Rightarrow> if dget (ac_owners c1) t = Some w then drop_owner t c1 else c1
       | _ \<Rightarrow> c1)"

definition drop_tasks :: "string \<Rightarrow> nat set \<Rightarrow> server \<Rightarrow> (call_error + unit) \<times> server" where
  "drop_tasks cid tasks = with_call cid (\<lambda>c. c\<lparr>ac_tasks := ac_tasks c - tasks\<rparr>)"

text \<open>
  The end of a call: the mark, which cancels the registered tasks, then, when these are over, the
  states in memory, and at last the rows and the message of the end.
\<close>

definition begin_end_mark :: "string \<Rightarrow> rat \<Rightarrow> server \<Rightarrow> (call_error + nat set) \<times> server" where
  "begin_end_mark cid now sv =
     (case dget (sv_calls sv) cid of
        None \<Rightarrow> (Inl Call_not_found, sv)
      | Some c \<Rightarrow>
          (Inr (ac_tasks c),
           put_call cid (c\<lparr>ac_ended := (case ac_ended c of None \<Rightarrow> Some now | Some t \<Rightarrow> Some t)\<rparr>) sv))"

definition cancel_in_memory :: "active_call \<Rightarrow> active_call" where
  "cancel_in_memory c =
     (let turns = map fst (filter (\<lambda>(t, s). open_turn s) (ac_states c)) in
      c\<lparr>ac_states := dmap (\<lambda>s. if open_turn s then Turn_cancelled else s) (ac_states c),
        ac_owners := dfilter (\<lambda>t _. t \<notin> set turns) (ac_owners c),
        ac_owner_tasks := dfilter (\<lambda>t _. t \<notin> set turns) (ac_owner_tasks c)\<rparr>)"

definition begin_end_settle :: "string \<Rightarrow> nat set \<Rightarrow> server \<Rightarrow> (call_error + unit) \<times> server" where
  "begin_end_settle cid tasks = with_call cid (\<lambda>c. cancel_in_memory (c\<lparr>ac_tasks := ac_tasks c - tasks\<rparr>))"

definition cancel_open_turns :: "string \<Rightarrow> rat \<Rightarrow> store \<Rightarrow> store" where
  "cancel_open_turns cid now st =
     st\<lparr>st_turns := dmap (\<lambda>r. if ct_call r = cid \<and> open_turn (ct_state r) then close_turn Turn_cancelled now r else r)
                      (st_turns st)\<rparr>"

text \<open>
  The update of the rows is committed with the message of the end, so that a second end, which
  appends none, leaves the rows alone.
\<close>

definition end_call_write :: "string \<Rightarrow> string \<Rightarrow> rat \<Rightarrow> server \<Rightarrow> (call_error + unit) \<times> server" where
  "end_call_write mid cid now sv =
     (case dget (sv_calls sv) cid of
        None \<Rightarrow> (Inl Call_not_found, sv)
      | Some c \<Rightarrow>
          if ac_end_recorded c then (Inr (), sv)
          else
            case append_message mid (ac_thread c) ''call_end'' ''event'' (lit ''Call ended'') now
                   (cancel_open_turns cid now (sv_store sv)) of
              Inl e \<Rightarrow> (Inl (Store_fault e), sv)
            | Inr st \<Rightarrow> (Inr (), put_call cid (c\<lparr>ac_end_recorded := True\<rparr>) (sv\<lparr>sv_store := st\<rparr>)))"

section \<open>The start of a call\<close>

definition canonical_engine :: "ptext \<Rightarrow> ptext" where
  "canonical_engine e = (if strip e = lit ''qwen3_0_6b'' then lit ''qwen3_1_7b'' else strip e)"

definition required_voice :: "string option \<Rightarrow> store \<Rightarrow> call_error + string \<times> voice_row" where
  "required_voice vid st =
     (case vid of
        None \<Rightarrow> Inl Voice_required
      | Some v \<Rightarrow>
          if v = [] then Inl Voice_required
          else case dget (st_voices st) v of
                 None \<Rightarrow> Inl Voice_unavailable
               | Some r \<Rightarrow> if vo_deleted r \<noteq> None then Inl Voice_unavailable else Inr (v, r))"

definition character_for_thread :: "string \<Rightarrow> thread_row \<Rightarrow> store \<Rightarrow> store_error + character_row" where
  "character_for_thread tid t st =
     (case th_character t of None \<Rightarrow> Inl (Character_unavailable tid) | Some c \<Rightarrow> live_character c st)"

definition call_voice :: "string \<Rightarrow> store \<Rightarrow> call_error + string \<times> ptext" where
  "call_voice tid st =
     (case live_thread tid st of
        None \<Rightarrow> Inl (Store_fault (Thread_not_found tid))
      | Some t \<Rightarrow>
          (case character_for_thread tid t st of
             Inl e \<Rightarrow> Inl (Store_fault e)
           | Inr c \<Rightarrow> bind_res (required_voice (cr_voice c) st)
                        (\<lambda>(v, r). Inr (v, canonical_engine (vo_engine r)))))"

definition new_call :: "string \<Rightarrow> string \<Rightarrow> string \<Rightarrow> ptext \<Rightarrow> rat \<Rightarrow> active_call" where
  "new_call sid tid vid engine now =
     \<lparr>ac_session = sid, ac_thread = tid, ac_voice = vid, ac_engine = engine, ac_started = now, ac_ended = None,
      ac_muted = False, ac_completed = {}, ac_pending = {}, ac_tasks = {}, ac_states = [], ac_owners = [],
      ac_owner_tasks = [], ac_end_recorded = False, ac_staged = None\<rparr>"

text \<open>The call on a thread that exists, which a start with a character has created before.\<close>

definition start_call_on ::
  "string \<Rightarrow> string \<Rightarrow> string \<Rightarrow> string \<Rightarrow> string \<times> ptext \<Rightarrow> rat \<Rightarrow> server \<Rightarrow> (call_error + unit) \<times> server" where
  "start_call_on cid sid mid tid preflight now sv =
     (case call_voice tid (sv_store sv) of
        Inl e \<Rightarrow> (Inl e, sv)
      | Inr voice \<Rightarrow>
          if voice \<noteq> preflight then (Inl Voice_unavailable, sv)
          else
            let sv1 = put_call cid (new_call sid tid (fst voice) (snd voice) now) sv in
            case append_message mid tid ''call_start'' ''event'' (lit ''Call started'') now (sv_store sv1) of
              Inl e \<Rightarrow> (Inl (Store_fault e), sv1)
            | Inr st \<Rightarrow> (Inr (), sv1\<lparr>sv_store := st\<rparr>))"

definition start_call ::
  "string \<Rightarrow> string \<Rightarrow> string \<Rightarrow> string option \<Rightarrow> (string \<times> string \<times> string) \<Rightarrow> string option \<Rightarrow> string \<times> ptext
   \<Rightarrow> rat \<Rightarrow> nat set \<Rightarrow> server \<Rightarrow> (call_error + unit) \<times> server" where
  "start_call cid sid mid thread fresh character preflight now done sv =
     (let sv1 = reconcile_stale_call_turns now done sv; falsy = (\<lambda>x. x = None \<or> x = Some []) in
      if falsy thread \<and> falsy character
      then (Inl (Store_fault (Thread_not_found ''thread_id or character_id is required'')), sv1)
      else
        case thread of
          Some tid \<Rightarrow> start_call_on cid sid mid tid preflight now sv1
        | None \<Rightarrow>
            (let (tid, first, alt) = fresh in
             case create_thread tid first alt (the character) None None now (sv_store sv1) of
               Inl e \<Rightarrow> (Inl (Store_fault e), sv1)
             | Inr st \<Rightarrow> start_call_on cid sid mid tid preflight now (sv1\<lparr>sv_store := st\<rparr>)))"

end
