(* ===== verification/ChatServer.thy ===== *)
theory ChatServer
  imports CallTurns
begin

text \<open>
  The web server's requests on its tables as one labelled step relation: thread and message actions,
  the append of the chat, and the operations of calls, in any order; a restart forgets the calls in
  memory. A step whose transaction fails leaves the store as it was. Identifiers of calls and owner
  tokens come from \<open>uuid4\<close> and are fresh where a step makes them.
\<close>

datatype server_op =
    Set_character string character_row
  | Set_voice string voice_row
  | Create_thread string string string string "ptext option" "int option" rat
  | Rename_thread string ptext rat
  | Delete_thread string
  | Append_user string string ptext rat
  | Append_ai string string ptext rat
  | Regenerate string string ptext rat
  | Swipe string string ptext rat
  | Continue_turn string string ptext ptext rat
  | Select_alternate string string rat
  | Edit_message string ptext rat
  | Truncate_stale string rat
  | Keep_stale string rat
  | Start_call string string string "string option" "string \<times> string \<times> string" "string option" "string \<times> ptext" rat "nat set"
  | Record_event string string string ptext rat
  | Reserve string string string string string "nat option" commit_end "nat set" rat
  | Turn_status string string string "nat set" rat
  | Reconcile rat "nat set"
  | User_speech string string string ptext "string option" rat
  | Complete_begin string string "string option" bool
  | Complete_stage string string string ptext string rat
  | Complete_commit string rat
  | Complete_abort string string
  | Finish_turn string string turn_status "string option" rat
  | Set_muted string bool
  | Attach_session string string
  | Register_task string nat
  | Unregister_task string nat "string option" "string option"
  | Drop_tasks string "nat set"
  | End_mark string rat
  | End_settle string "nat set"
  | End_write string string rat
  | Restart

definition on_store :: "(store \<Rightarrow> store_error + store) \<Rightarrow> server \<Rightarrow> server" where
  "on_store f sv = (case f (sv_store sv) of Inl e \<Rightarrow> sv | Inr st \<Rightarrow> sv\<lparr>sv_store := st\<rparr>)"

primrec serve :: "server_op \<Rightarrow> server \<Rightarrow> server" where
  "serve (Set_character cid r) sv
     = sv\<lparr>sv_store := (sv_store sv)\<lparr>st_characters := dset cid r (st_characters (sv_store sv))\<rparr>\<rparr>"
| "serve (Set_voice vid r) sv = sv\<lparr>sv_store := (sv_store sv)\<lparr>st_voices := dset vid r (st_voices (sv_store sv))\<rparr>\<rparr>"
| "serve (Create_thread tid mid aid cid title index now) sv
     = on_store (create_thread tid mid aid cid title index now) sv"
| "serve (Rename_thread tid title now) sv = on_store (rename_thread tid title now) sv"
| "serve (Delete_thread tid) sv = on_store (delete_thread tid) sv"
| "serve (Append_user mid tid text now) sv = on_store (append_message mid tid ''user_text'' ''user'' text now) sv"
| "serve (Append_ai mid tid text now) sv = on_store (append_message mid tid ''ai_text'' ''assistant'' text now) sv"
| "serve (Regenerate aid mid text now) sv = on_store (regenerate_end aid mid text now) sv"
| "serve (Swipe aid mid text now) sv = on_store (swipe_end aid mid text now) sv"
| "serve (Continue_turn aid mid prefix text now) sv = on_store (continue_end aid mid prefix text now) sv"
| "serve (Select_alternate mid aid now) sv = on_store (select_alternate mid aid now) sv"
| "serve (Edit_message mid text now) sv = on_store (edit_message mid text now) sv"
| "serve (Truncate_stale mid now) sv = on_store (truncate_stale_after mid now) sv"
| "serve (Keep_stale mid now) sv = on_store (keep_stale_after mid now) sv"
| "serve (Start_call cid sid mid thread fresh character preflight now done) sv
     = snd (start_call cid sid mid thread fresh character preflight now done sv)"
| "serve (Record_event mid cid type text now) sv = snd (record_event mid cid type text now sv)"
| "serve (Reserve cid turn sha rid owner task commit done now) sv
     = snd (reserve_call_turn cid turn sha rid owner task commit done now sv)"
| "serve (Turn_status cid turn sha done now) sv = snd (call_turn_status cid turn sha done now sv)"
| "serve (Reconcile now done) sv = reconcile_stale_call_turns now done sv"
| "serve (User_speech mid cid turn text owner now) sv
     = snd (record_reserved_user_speech mid cid turn text owner now sv)"
| "serve (Complete_begin cid turn owner completed) sv = snd (complete_begin cid turn owner completed sv)"
| "serve (Complete_stage mid cid turn text owner now) sv = snd (complete_stage mid cid turn text owner now sv)"
| "serve (Complete_commit cid now) sv = snd (complete_commit cid now sv)"
| "serve (Complete_abort cid turn) sv = complete_abort cid turn sv"
| "serve (Finish_turn cid turn state owner now) sv = snd (finish_call_turn cid turn state owner now sv)"
| "serve (Set_muted cid muted) sv = snd (set_muted_flag cid muted sv)"
| "serve (Attach_session cid sid) sv = snd (attach_session cid sid sv)"
| "serve (Register_task cid task) sv = snd (register_active_turn cid task sv)"
| "serve (Unregister_task cid task turn owner) sv = snd (unregister_active_turn cid task turn owner sv)"
| "serve (Drop_tasks cid tasks) sv = snd (drop_tasks cid tasks sv)"
| "serve (End_mark cid now) sv = snd (begin_end_mark cid now sv)"
| "serve (End_settle cid tasks) sv = snd (begin_end_settle cid tasks sv)"
| "serve (End_write mid cid now) sv = snd (end_call_write mid cid now sv)"
| "serve Restart sv = sv\<lparr>sv_calls := []\<rparr>"

text \<open>
  When a step may run: the persistence lock is free for the operations that take it; the call
  identifier of a start was never used; the staging belongs to a request that claimed the turn;
  \<open>create_call_turn\<close> finishes a turn as completed only after its message was recorded; and
  the rows are written at the end of a call after the states in memory were settled.
\<close>

definition lock_free :: "string \<Rightarrow> server \<Rightarrow> bool" where
  "lock_free cid sv = (case dget (sv_calls sv) cid of None \<Rightarrow> True | Some c \<Rightarrow> ac_staged c = None)"

definition open_in_memory :: "string \<Rightarrow> active_call \<Rightarrow> bool" where
  "open_in_memory turn c = (case dget (ac_states c) turn of None \<Rightarrow> False | Some s \<Rightarrow> open_turn s)"

definition call_id_unused :: "string \<Rightarrow> server \<Rightarrow> bool" where
  "call_id_unused cid sv \<longleftrightarrow> dget (sv_calls sv) cid = None
     \<and> list_all (\<lambda>(k, r). ct_call r \<noteq> cid) (st_turns (sv_store sv))
     \<and> list_all (\<lambda>(k, m). ms_call m \<noteq> Some cid) (st_messages (sv_store sv))"

primrec server_enabled :: "server_op \<Rightarrow> server \<Rightarrow> bool" where
  "server_enabled (Set_character cid r) sv = True"
| "server_enabled (Set_voice vid r) sv = True"
| "server_enabled (Create_thread tid mid aid cid title index now) sv = True"
| "server_enabled (Rename_thread tid title now) sv = True"
| "server_enabled (Delete_thread tid) sv = True"
| "server_enabled (Append_user mid tid text now) sv = True"
| "server_enabled (Append_ai mid tid text now) sv = True"
| "server_enabled (Regenerate aid mid text now) sv = True"
| "server_enabled (Swipe aid mid text now) sv = True"
| "server_enabled (Continue_turn aid mid prefix text now) sv = True"
| "server_enabled (Select_alternate mid aid now) sv = True"
| "server_enabled (Edit_message mid text now) sv = True"
| "server_enabled (Truncate_stale mid now) sv = True"
| "server_enabled (Keep_stale mid now) sv = True"
| "server_enabled (Start_call cid sid mid thread fresh character preflight now done) sv = call_id_unused cid sv"
| "server_enabled (Record_event mid cid type text now) sv = True"
| "server_enabled (Reserve cid turn sha rid owner task commit done now) sv = True"
| "server_enabled (Turn_status cid turn sha done now) sv = True"
| "server_enabled (Reconcile now done) sv = True"
| "server_enabled (User_speech mid cid turn text owner now) sv = lock_free cid sv"
| "server_enabled (Complete_begin cid turn owner completed) sv = True"
| "server_enabled (Complete_stage mid cid turn text owner now) sv
     = (lock_free cid sv \<and> (case dget (sv_calls sv) cid of None \<Rightarrow> True | Some c \<Rightarrow> turn \<in> ac_pending c))"
| "server_enabled (Complete_commit cid now) sv = True"
| "server_enabled (Complete_abort cid turn) sv = True"
| "server_enabled (Finish_turn cid turn state owner now) sv
     = (lock_free cid sv \<and> \<not> open_turn state
        \<and> (state = Turn_done
           \<longrightarrow> (case dget (sv_calls sv) cid of None \<Rightarrow> True | Some c \<Rightarrow> \<not> open_in_memory turn c)))"
| "server_enabled (Set_muted cid muted) sv = True"
| "server_enabled (Attach_session cid sid) sv = True"
| "server_enabled (Register_task cid task) sv = True"
| "server_enabled (Unregister_task cid task turn owner) sv = True"
| "server_enabled (Drop_tasks cid tasks) sv = True"
| "server_enabled (End_mark cid now) sv = True"
| "server_enabled (End_settle cid tasks) sv
     = (case dget (sv_calls sv) cid of None \<Rightarrow> True | Some c \<Rightarrow> ac_ended c \<noteq> None)"
| "server_enabled (End_write mid cid now) sv
     = (lock_free cid sv
        \<and> (case dget (sv_calls sv) cid of
             None \<Rightarrow> True
           | Some c \<Rightarrow> ac_ended c \<noteq> None \<and> list_all (\<lambda>(t, w). \<not> open_in_memory t c) (ac_owners c)))"
| "server_enabled Restart sv = True"

inductive server_step :: "server \<Rightarrow> server_op \<Rightarrow> server \<Rightarrow> bool" where
  served_op: "server_enabled a sv \<Longrightarrow> server_step sv a (serve a sv)"

inductive_cases server_stepE: "server_step sv a sv'"

definition empty_store :: "store \<Rightarrow> bool" where
  "empty_store st \<longleftrightarrow> dict_ok (st_characters st) \<and> dict_ok (st_voices st) \<and> st_threads st = []
     \<and> st_messages st = [] \<and> st_alternates st = [] \<and> st_turns st = []"

definition server_init :: "server \<Rightarrow> bool" where
  "server_init sv \<longleftrightarrow> sv_calls sv = [] \<and> empty_store (sv_store sv)"

end
