(* ===== verification/ChatLaws.thy ===== *)
theory ChatLaws
  imports ChatServer
begin

text \<open>
  The consistency of the tables: what every statement and every operation keeps. The constraints are
  stated on views of the tables, maps from a primary key to the columns of a constraint.
\<close>

section \<open>Views\<close>

definition uniquely :: "('k \<Rightarrow> 'c option) \<Rightarrow> bool" where
  "uniquely f \<longleftrightarrow> (\<forall>k k' x. f k = Some x \<longrightarrow> f k' = Some x \<longrightarrow> k = k')"

lemma uniquely_upd:
  "uniquely f \<Longrightarrow> (\<And>k'. f k' \<noteq> Some x) \<Longrightarrow> uniquely (f(k \<mapsto> x))"
  by (auto simp: uniquely_def split: if_split_asm)

lemma uniquely_less: "uniquely f \<Longrightarrow> (\<And>k x. g k = Some x \<Longrightarrow> f k = Some x) \<Longrightarrow> uniquely g"
  unfolding uniquely_def by blast

lemma uniquelyD: "uniquely f \<Longrightarrow> f k = Some x \<Longrightarrow> f k' = Some x \<Longrightarrow> k = k'"
  unfolding uniquely_def by blast

definition seq_key :: "store \<Rightarrow> string \<Rightarrow> (string \<times> int) option" where
  "seq_key st k = map_option (\<lambda>m. (ms_thread m, ms_sequence m)) (dget (st_messages st) k)"

definition row_turn :: "message_row \<Rightarrow> (string \<times> string) option" where
  "row_turn m = (case (ms_call m, ms_call_turn m) of (Some c, Some t) \<Rightarrow> Some (c, t) | _ \<Rightarrow> None)"

definition said_in :: "store \<Rightarrow> string \<Rightarrow> (string \<times> string) option" where
  "said_in st k = Option.bind (dget (st_messages st) k) row_turn"

definition msg_thread :: "store \<Rightarrow> string \<Rightarrow> string option" where
  "msg_thread st k = map_option ms_thread (dget (st_messages st) k)"

definition msg_selected :: "store \<Rightarrow> string \<Rightarrow> string option" where
  "msg_selected st k = Option.bind (dget (st_messages st) k) ms_selected"

definition alt_key :: "store \<Rightarrow> string \<Rightarrow> (string \<times> int) option" where
  "alt_key st a = map_option (\<lambda>r. (al_message r, al_index r)) (dget (st_alternates st) a)"

definition turn_key :: "store \<Rightarrow> string \<Rightarrow> (string \<times> string) option" where
  "turn_key st k = map_option (\<lambda>r. (ct_call r, ct_turn r)) (dget (st_turns st) k)"

definition turn_thread :: "store \<Rightarrow> string \<Rightarrow> string option" where
  "turn_thread st k = map_option ct_thread (dget (st_turns st) k)"

definition has_thread :: "store \<Rightarrow> string \<Rightarrow> bool" where
  "has_thread st t \<longleftrightarrow> dget (st_threads st) t \<noteq> None"

lemmas view_defs = seq_key_def said_in_def msg_thread_def msg_selected_def alt_key_def turn_key_def
  turn_thread_def has_thread_def

definition message_columns :: "message_row \<Rightarrow> bool" where
  "message_columns m \<longleftrightarrow> ms_kind m \<in> set message_kinds \<and> ms_role m \<in> set message_roles \<and> 0 \<le> ms_sequence m"

definition alternate_columns :: "alternate_row \<Rightarrow> bool" where
  "alternate_columns a \<longleftrightarrow> al_action a \<in> set alternate_actions \<and> 0 \<le> al_index a"

text \<open>
  A consistent store: primary keys, the sequence of a thread, the turn of a call and the index of an
  alternate are unique; messages, alternates and turns refer to rows that exist; the selected
  alternate of a message is one of its own.
\<close>

definition keys_ok :: "store \<Rightarrow> bool" where
  "keys_ok st \<longleftrightarrow> dict_ok (st_characters st) \<and> dict_ok (st_voices st) \<and> dict_ok (st_threads st)
     \<and> dict_ok (st_messages st) \<and> dict_ok (st_alternates st) \<and> dict_ok (st_turns st)"

definition unique_ok :: "store \<Rightarrow> bool" where
  "unique_ok st \<longleftrightarrow> uniquely (seq_key st) \<and> uniquely (said_in st) \<and> uniquely (alt_key st) \<and> uniquely (turn_key st)"

definition refs_ok :: "store \<Rightarrow> bool" where
  "refs_ok st \<longleftrightarrow> (\<forall>k t. msg_thread st k = Some t \<longrightarrow> has_thread st t)
     \<and> (\<forall>a k i. alt_key st a = Some (k, i) \<longrightarrow> msg_thread st k \<noteq> None)
     \<and> (\<forall>k t. turn_thread st k = Some t \<longrightarrow> has_thread st t)
     \<and> (\<forall>k a. msg_selected st k = Some a \<longrightarrow> map_option fst (alt_key st a) = Some k)"

definition columns_ok :: "store \<Rightarrow> bool" where
  "columns_ok st \<longleftrightarrow> list_all (message_columns \<circ> snd) (st_messages st)
     \<and> list_all (alternate_columns \<circ> snd) (st_alternates st)"

definition store_ok :: "store \<Rightarrow> bool" where
  "store_ok st \<longleftrightarrow> keys_ok st \<and> unique_ok st \<and> refs_ok st \<and> columns_ok st"

lemma refs_okI:
  assumes "\<And>k t. msg_thread st k = Some t \<Longrightarrow> has_thread st t"
    and "\<And>a k i. alt_key st a = Some (k, i) \<Longrightarrow> msg_thread st k \<noteq> None"
    and "\<And>k t. turn_thread st k = Some t \<Longrightarrow> has_thread st t"
    and "\<And>k a. msg_selected st k = Some a \<Longrightarrow> map_option fst (alt_key st a) = Some k"
  shows "refs_ok st"
  unfolding refs_ok_def using assms by blast

lemma refs_okD:
  assumes "refs_ok st"
  shows "msg_thread st k = Some t \<Longrightarrow> has_thread st t"
    and "alt_key st a = Some (k, i) \<Longrightarrow> msg_thread st k \<noteq> None"
    and "turn_thread st k = Some t \<Longrightarrow> has_thread st t"
    and "msg_selected st k = Some a \<Longrightarrow> map_option fst (alt_key st a) = Some k"
  using assms unfolding refs_ok_def by blast+

lemmas refs_selected = refs_okD(4)

section \<open>Dictionaries\<close>

lemma dget_dfilter:
  "dict_ok d \<Longrightarrow> dget (dfilter p d) k = (case dget d k of None \<Rightarrow> None | Some v \<Rightarrow> if p k v then Some v else None)"
proof (induction d)
  case (Cons e d)
  obtain j v where e: "e = (j, v)" by (cases e)
  have "dget d j = None" using Cons.prems by (auto simp: e dict_ok_def map_of_eq_None_iff)
  then show ?case using Cons by (auto simp: e dfilter_def split: option.split)
qed (simp add: dfilter_def)

lemma dfilter_keys:
  "dict_ok d \<Longrightarrow> k \<in> set (map fst (dfilter p d)) \<longleftrightarrow> (case dget d k of None \<Rightarrow> False | Some v \<Rightarrow> p k v)"
  using dget_dfilter [of d p k] map_of_eq_None_iff [of "dfilter p d" k] by (auto split: option.splits if_split_asm)

lemma dfilter_complement:
  assumes "dict_ok d"
  shows "dfilter (\<lambda>_ v. \<not> q v) d = dfilter (\<lambda>k _. k \<notin> set (map fst (dfilter (\<lambda>_ v. q v) d))) d"
  unfolding dfilter_def [of "\<lambda>_ v. \<not> q v"] dfilter_def [of "\<lambda>k _. k \<notin> set (map fst (dfilter (\<lambda>_ v. q v) d))"]
proof (rule filter_cong [OF refl])
  fix e assume "e \<in> set d"
  then have "dget d (fst e) = Some (snd e)" using assms by (simp add: dict_ok_def)
  then show "(case e of (k, v) \<Rightarrow> \<not> q v) = (case e of (k, v) \<Rightarrow> k \<notin> set (map fst (dfilter (\<lambda>_ v. q v) d)))"
    using dfilter_keys [OF assms, of "fst e" "\<lambda>_ v. q v"] by (simp add: split_beta)
qed

lemma dfilter_ok [simp]: "dict_ok d \<Longrightarrow> dict_ok (dfilter p d)"
  by (simp add: dict_ok_def dfilter_def distinct_map_filter)

lemma dfilter_mem: "(k, v) \<in> set (dfilter p d) \<longleftrightarrow> (k, v) \<in> set d \<and> p k v"
  by (auto simp: dfilter_def)

lemma list_all_dset: "list_all (P \<circ> snd) d \<Longrightarrow> P v \<Longrightarrow> list_all (P \<circ> snd) (dset k v d)"
  by (induction d) (auto simp: dset_def)

lemma list_all_dfilter: "list_all Q d \<Longrightarrow> list_all Q (dfilter p d)"
  by (auto simp: dfilter_def list_all_iff)

lemma list_all_dmap: "list_all (P \<circ> snd) d \<Longrightarrow> (\<And>v. P v \<Longrightarrow> P (g v)) \<Longrightarrow> list_all (P \<circ> snd) (dmap g d)"
  by (auto simp: dmap_def list_all_iff)

lemma list_all_dget: "list_all (P \<circ> snd) d \<Longrightarrow> dget d k = Some v \<Longrightarrow> P v"
  using map_of_SomeD [of d k v] by (auto simp: list_all_iff)

lemma max_or_less: "x \<in> set xs \<Longrightarrow> x \<le> max_or d xs"
  by (auto simp: max_or_def)

lemma max_or_ge: "(\<And>x. x \<in> set xs \<Longrightarrow> d \<le> x) \<Longrightarrow> d \<le> max_or d xs"
  by (cases xs) (auto simp: max_or_def Max_ge_iff)

section \<open>Statements keep the store consistent\<close>

lemma put_thread_ok:
  assumes "store_ok st" "has_thread st tid"
  shows "store_ok (st\<lparr>st_threads := dset tid t (st_threads st)\<rparr>)"
proof -
  let ?st = "st\<lparr>st_threads := dset tid t (st_threads st)\<rparr>"
  have v: "seq_key ?st = seq_key st" "said_in ?st = said_in st" "alt_key ?st = alt_key st" "turn_key ?st = turn_key st"
    "msg_thread ?st = msg_thread st" "turn_thread ?st = turn_thread st" "msg_selected ?st = msg_selected st"
    "has_thread ?st = has_thread st"
    using assms(2) by (auto simp: view_defs fun_eq_iff)
  show ?thesis
    using assms(1) by (simp add: store_ok_def unique_ok_def refs_ok_def v) (simp add: keys_ok_def columns_ok_def)
qed

lemma live_has_thread: "live_thread tid st = Some t \<Longrightarrow> has_thread st tid"
  by (auto simp: live_thread_def has_thread_def split: option.split_asm)

lemma touch_thread_ok:
  assumes "store_ok st" "touch_thread tid now st = Inr st'"
  shows "store_ok st'"
proof (cases "live_thread tid st")
  case (Some t)
  then have "st' = st\<lparr>st_threads := dset tid (t\<lparr>th_updated := now, th_last := Some now\<rparr>) (st_threads st)\<rparr>"
    using assms(2) by (simp add: touch_thread_def)
  then show ?thesis using put_thread_ok [OF assms(1) live_has_thread [OF Some]] by simp
qed (use assms(2) in \<open>simp add: touch_thread_def\<close>)

lemma touch_thread_views:
  assumes "touch_thread tid now st = Inr st'"
  shows "st_messages st' = st_messages st" "st_alternates st' = st_alternates st" "st_turns st' = st_turns st"
    "has_thread st' = has_thread st" "has_thread st tid"
proof -
  obtain t where t: "live_thread tid st = Some t"
    "st' = st\<lparr>st_threads := dset tid (t\<lparr>th_updated := now, th_last := Some now\<rparr>) (st_threads st)\<rparr>"
    using assms by (auto simp: touch_thread_def split: option.split_asm)
  show "has_thread st tid" by (rule live_has_thread [OF t(1)])
  then show "has_thread st' = has_thread st" by (auto simp: t(2) has_thread_def fun_eq_iff)
qed (use assms in \<open>auto simp: touch_thread_def split: option.split_asm\<close>)

lemma insert_message_cases:
  assumes "insert_message mid m st = Inr st'"
  shows "st' = st\<lparr>st_messages := dset mid m (st_messages st)\<rparr>" "dget (st_messages st) mid = None"
    "has_thread st (ms_thread m)" "ms_kind m \<in> set message_kinds" "ms_role m \<in> set message_roles"
    "list_all (\<lambda>(k, n). \<not> (ms_thread n = ms_thread m \<and> ms_sequence n = ms_sequence m) \<and> \<not> same_call_turn m n)
       (st_messages st)"
  using assms by (auto simp: insert_message_def has_thread_def list_all_iff list_ex_iff split: if_split_asm)

lemma seq_key_fresh:
  assumes "list_all (\<lambda>(k, n). \<not> (ms_thread n = ms_thread m \<and> ms_sequence n = ms_sequence m) \<and> \<not> same_call_turn m n)
     (st_messages st)"
  shows "seq_key st k \<noteq> Some (ms_thread m, ms_sequence m)" "row_turn m \<noteq> None \<Longrightarrow> said_in st k \<noteq> row_turn m"
proof -
  have "\<not> (ms_thread n = ms_thread m \<and> ms_sequence n = ms_sequence m) \<and> \<not> same_call_turn m n"
    if "dget (st_messages st) k = Some n" for n
    using assms map_of_SomeD [OF that] by (auto simp: list_all_iff)
  then show "seq_key st k \<noteq> Some (ms_thread m, ms_sequence m)" "row_turn m \<noteq> None \<Longrightarrow> said_in st k \<noteq> row_turn m"
    by (cases "dget (st_messages st) k";
        auto simp: seq_key_def said_in_def row_turn_def same_call_turn_def split: option.split_asm)+
qed

lemma insert_message_ok:
  assumes "store_ok st" "insert_message mid m st = Inr st'" "0 \<le> ms_sequence m"
    and "ms_selected m = None"
  shows "store_ok st'"
proof -
  note c = insert_message_cases [OF assms(2)]
  have v: "seq_key st' = (seq_key st)(mid \<mapsto> (ms_thread m, ms_sequence m))"
    "said_in st' = (said_in st)(mid := row_turn m)"
    "msg_thread st' = (msg_thread st)(mid \<mapsto> ms_thread m)" "msg_selected st' = (msg_selected st)(mid := None)"
    "alt_key st' = alt_key st" "turn_key st' = turn_key st" "turn_thread st' = turn_thread st" "has_thread st' = has_thread st"
    using assms(4) by (auto simp: c(1) view_defs fun_eq_iff)
  have fresh: "msg_thread st mid = None" "said_in st mid = None" using c(2) by (simp_all add: view_defs)
  have "uniquely ((seq_key st)(mid \<mapsto> (ms_thread m, ms_sequence m)))"
    by (rule uniquely_upd) (use assms(1) seq_key_fresh(1) [OF c(6)] in \<open>simp_all add: store_ok_def unique_ok_def\<close>)
  moreover have "uniquely ((said_in st)(mid := row_turn m))"
  proof (cases "row_turn m")
    case None
    then show ?thesis using assms(1) fresh(2) by (simp add: store_ok_def unique_ok_def fun_upd_idem)
  next
    case (Some x)
    have "uniquely ((said_in st)(mid \<mapsto> x))"
      by (rule uniquely_upd) (use assms(1) seq_key_fresh(2) [OF c(6)] Some in \<open>simp_all add: store_ok_def unique_ok_def\<close>)
    then show ?thesis by (simp add: Some)
  qed
  ultimately have "unique_ok st'" using assms(1) by (simp add: store_ok_def unique_ok_def v)
  moreover have "refs_ok st'"
    using assms(1) c(3) fresh(1) by (auto simp: store_ok_def refs_ok_def v)
  moreover have "keys_ok st'" "columns_ok st'"
    using assms(1,3) c(4,5) list_all_dset [of message_columns "st_messages st" m mid]
    by (simp_all add: c(1) store_ok_def keys_ok_def columns_ok_def message_columns_def)
  ultimately show ?thesis by (simp add: store_ok_def)
qed

lemma insert_alternate_ok:
  assumes "store_ok st" "insert_alternate aid a st = Inr st'" "0 \<le> al_index a"
  shows "store_ok st'" "st' = st\<lparr>st_alternates := dset aid a (st_alternates st)\<rparr>" "dget (st_alternates st) aid = None"
proof -
  have c: "st' = st\<lparr>st_alternates := dset aid a (st_alternates st)\<rparr>" "dget (st_alternates st) aid = None"
    "msg_thread st (al_message a) \<noteq> None" "al_action a \<in> set alternate_actions"
    "list_all (\<lambda>(k, b). \<not> (al_message b = al_message a \<and> al_index b = al_index a)) (st_alternates st)"
    using assms(2) by (auto simp: insert_alternate_def msg_thread_def list_all_iff list_ex_iff split: if_split_asm)
  show "st' = st\<lparr>st_alternates := dset aid a (st_alternates st)\<rparr>" "dget (st_alternates st) aid = None"
    by (fact c)+
  have v: "seq_key st' = seq_key st" "said_in st' = said_in st" "msg_thread st' = msg_thread st"
    "msg_selected st' = msg_selected st" "turn_key st' = turn_key st" "turn_thread st' = turn_thread st"
    "has_thread st' = has_thread st" "alt_key st' = (alt_key st)(aid \<mapsto> (al_message a, al_index a))"
    by (auto simp: c(1) view_defs fun_eq_iff)
  have "alt_key st k \<noteq> Some (al_message a, al_index a)" for k
    using c(5) map_of_SomeD [of "st_alternates st" k]
    by (cases "dget (st_alternates st) k") (auto simp: alt_key_def list_all_iff)
  then have "unique_ok st'"
    using assms(1) uniquely_upd [of "alt_key st" "(al_message a, al_index a)" aid]
    by (simp add: store_ok_def unique_ok_def v)
  moreover have "alt_key st aid = None" using c(2) by (simp add: alt_key_def)
  then have "msg_selected st k \<noteq> Some aid" for k
    using refs_selected [of st k aid] assms(1) by (auto simp: store_ok_def)
  then have "refs_ok st'" using assms(1) c(3) by (auto simp: store_ok_def refs_ok_def v)
  moreover have "keys_ok st'" "columns_ok st'"
    using assms(1,3) c(4) list_all_dset [of alternate_columns "st_alternates st" a aid]
    by (simp_all add: c(1) store_ok_def keys_ok_def columns_ok_def alternate_columns_def)
  ultimately show "store_ok st'" by (simp add: store_ok_def)
qed

lemma insert_thread_ok:
  assumes "store_ok st" "insert_thread tid t st = Inr st'"
  shows "store_ok st'" "st' = st\<lparr>st_threads := dset tid t (st_threads st)\<rparr>" "has_thread st' tid"
    "dget (st_threads st) tid = None"
proof -
  have c: "st' = st\<lparr>st_threads := dset tid t (st_threads st)\<rparr>" "dget (st_threads st) tid = None"
    using assms(2) by (auto simp: insert_thread_def split: if_split_asm)
  then show "st' = st\<lparr>st_threads := dset tid t (st_threads st)\<rparr>" "dget (st_threads st) tid = None" "has_thread st' tid"
    by (simp_all add: has_thread_def)
  have v: "seq_key st' = seq_key st" "said_in st' = said_in st" "alt_key st' = alt_key st" "turn_key st' = turn_key st"
    "msg_thread st' = msg_thread st" "turn_thread st' = turn_thread st" "msg_selected st' = msg_selected st"
    by (auto simp: c(1) view_defs fun_eq_iff)
  have "has_thread st k \<Longrightarrow> has_thread st' k" for k by (simp add: c(1) has_thread_def)
  then show "store_ok st'"
    using assms(1) by (simp add: store_ok_def unique_ok_def refs_ok_def v) (simp add: c(1) keys_ok_def columns_ok_def)
qed

text \<open>A change of one message that keeps its place, and selects nothing or an alternate of its own.\<close>

definition same_place :: "message_row \<Rightarrow> message_row \<Rightarrow> bool" where
  "same_place m n \<longleftrightarrow> ms_thread n = ms_thread m \<and> ms_sequence n = ms_sequence m \<and> row_turn n = row_turn m
     \<and> ms_kind n = ms_kind m \<and> ms_role n = ms_role m"

lemma put_message_ok:
  assumes "store_ok st" "dget (st_messages st) mid = Some m" "same_place m n"
    and "ms_selected n = ms_selected m \<or> (case ms_selected n of None \<Rightarrow> True | Some a \<Rightarrow> map_option fst (alt_key st a) = Some mid)"
  shows "store_ok (st\<lparr>st_messages := dset mid n (st_messages st)\<rparr>)"
proof -
  let ?st = "st\<lparr>st_messages := dset mid n (st_messages st)\<rparr>"
  have v: "seq_key ?st = seq_key st" "said_in ?st = said_in st" "msg_thread ?st = msg_thread st"
    "msg_selected ?st = (msg_selected st)(mid := ms_selected n)"
    "alt_key ?st = alt_key st" "turn_key ?st = turn_key st" "turn_thread ?st = turn_thread st" "has_thread ?st = has_thread st"
    using assms(2,3) by (auto simp: view_defs same_place_def fun_eq_iff)
  have m: "msg_selected st mid = ms_selected m" using assms(2) by (simp add: msg_selected_def)
  have "message_columns n"
    using assms(1,3) list_all_dget [OF _ assms(2), of message_columns]
    by (simp add: store_ok_def columns_ok_def message_columns_def same_place_def)
  then have "keys_ok ?st" "columns_ok ?st"
    using assms(1) list_all_dset [of message_columns "st_messages st" n mid]
    by (simp_all add: store_ok_def keys_ok_def columns_ok_def)
  moreover have "unique_ok ?st" using assms(1) by (simp add: store_ok_def unique_ok_def v)
  moreover have "refs_ok ?st"
    using assms(1,4) m by (auto simp: store_ok_def refs_ok_def v split: option.split_asm)
  ultimately show ?thesis by (simp add: store_ok_def)
qed

lemma update_message_ok:
  assumes "store_ok st" "dget (st_messages st) mid = Some m" "same_place m (f m)"
    and "ms_selected (f m) = ms_selected m
      \<or> (case ms_selected (f m) of None \<Rightarrow> True | Some a \<Rightarrow> map_option fst (alt_key st a) = Some mid)"
  shows "store_ok (update_message mid f st)"
  using put_message_ok [OF assms] assms(2) by (simp add: update_message_def)

lemma map_messages_ok:
  assumes "store_ok st" "\<And>m. same_place m (f m)" "\<And>m. ms_selected (f m) = ms_selected m"
  shows "store_ok (st\<lparr>st_messages := dmap f (st_messages st)\<rparr>)"
proof -
  let ?st = "st\<lparr>st_messages := dmap f (st_messages st)\<rparr>"
  have v: "seq_key ?st = seq_key st" "said_in ?st = said_in st" "msg_thread ?st = msg_thread st"
    "msg_selected ?st = msg_selected st"
    "alt_key ?st = alt_key st" "turn_key ?st = turn_key st" "turn_thread ?st = turn_thread st" "has_thread ?st = has_thread st"
    using assms(2) by (auto simp: view_defs same_place_def fun_eq_iff option.map_comp comp_def bind_map_option assms(3))
  have "message_columns m \<Longrightarrow> message_columns (f m)" for m
    using assms(2) [of m] by (simp add: message_columns_def same_place_def)
  then show ?thesis
    using assms(1) list_all_dmap [of message_columns "st_messages st" f]
    by (simp add: store_ok_def unique_ok_def refs_ok_def v) (simp add: keys_ok_def columns_ok_def)
qed

lemma put_alternate_ok:
  assumes "store_ok st" "dget (st_alternates st) aid = Some a"
    and "al_message b = al_message a" "al_index b = al_index a" "al_action b = al_action a"
  shows "store_ok (st\<lparr>st_alternates := dset aid b (st_alternates st)\<rparr>)"
proof -
  let ?st = "st\<lparr>st_alternates := dset aid b (st_alternates st)\<rparr>"
  have v: "seq_key ?st = seq_key st" "said_in ?st = said_in st" "msg_thread ?st = msg_thread st"
    "msg_selected ?st = msg_selected st"
    "alt_key ?st = alt_key st" "turn_key ?st = turn_key st" "turn_thread ?st = turn_thread st" "has_thread ?st = has_thread st"
    using assms(2-4) by (auto simp: view_defs fun_eq_iff)
  have "alternate_columns b"
    using assms(1,4,5) list_all_dget [OF _ assms(2), of alternate_columns]
    by (simp add: store_ok_def columns_ok_def alternate_columns_def)
  then show ?thesis
    using assms(1) list_all_dset [of alternate_columns "st_alternates st" b aid]
    by (simp add: store_ok_def unique_ok_def refs_ok_def v) (simp add: keys_ok_def columns_ok_def)
qed

text \<open>A deletion of messages together with their alternates.\<close>

definition delete_messages :: "string set \<Rightarrow> store \<Rightarrow> store" where
  "delete_messages ids st =
     st\<lparr>st_alternates := dfilter (\<lambda>_ a. al_message a \<notin> ids) (st_alternates st),
        st_messages := dfilter (\<lambda>k _. k \<notin> ids) (st_messages st)\<rparr>"

lemma delete_messages_views:
  assumes "store_ok st"
  shows "seq_key (delete_messages ids st) k = (if k \<in> ids then None else seq_key st k)"
    "said_in (delete_messages ids st) k = (if k \<in> ids then None else said_in st k)"
    "msg_thread (delete_messages ids st) k = (if k \<in> ids then None else msg_thread st k)"
    "msg_selected (delete_messages ids st) k = (if k \<in> ids then None else msg_selected st k)"
    "alt_key (delete_messages ids st) a
       = (case alt_key st a of None \<Rightarrow> None | Some (k, i) \<Rightarrow> if k \<in> ids then None else Some (k, i))"
    "turn_key (delete_messages ids st) = turn_key st" "turn_thread (delete_messages ids st) = turn_thread st"
    "has_thread (delete_messages ids st) = has_thread st"
  using assms
  by (auto simp: view_defs delete_messages_def store_ok_def keys_ok_def dget_dfilter fun_eq_iff split: option.split)

lemma delete_messages_ok:
  assumes "store_ok st"
  shows "store_ok (delete_messages ids st)"
proof -
  note v = delete_messages_views [OF assms, of ids]
  have "uniquely (seq_key (delete_messages ids st))"
    by (rule uniquely_less [of "seq_key st"]) (use assms v in \<open>auto simp: store_ok_def unique_ok_def split: if_split_asm\<close>)
  moreover have "uniquely (said_in (delete_messages ids st))"
    by (rule uniquely_less [of "said_in st"]) (use assms v in \<open>auto simp: store_ok_def unique_ok_def split: if_split_asm\<close>)
  moreover have "uniquely (alt_key (delete_messages ids st))"
    by (rule uniquely_less [of "alt_key st"])
      (use assms v in \<open>auto simp: store_ok_def unique_ok_def split: if_split_asm option.split_asm\<close>)
  ultimately have "unique_ok (delete_messages ids st)"
    using assms by (simp add: store_ok_def unique_ok_def v)
  moreover have "refs_ok (delete_messages ids st)"
  proof -
    have refs: "refs_ok st" using assms by (simp add: store_ok_def)
    show ?thesis
    proof (rule refs_okI)
      fix k t assume "msg_thread (delete_messages ids st) k = Some t"
      then show "has_thread (delete_messages ids st) t" using refs_okD(1) [OF refs, of k t] by (simp add: v split: if_split_asm)
    next
      fix a k i assume "alt_key (delete_messages ids st) a = Some (k, i)"
      then show "msg_thread (delete_messages ids st) k \<noteq> None"
        using refs_okD(2) [OF refs, of a k i] by (auto simp: v split: option.split_asm if_split_asm)
    next
      fix k t assume "turn_thread (delete_messages ids st) k = Some t"
      then show "has_thread (delete_messages ids st) t" using refs_okD(3) [OF refs, of k t] by (simp add: v)
    next
      fix k a assume "msg_selected (delete_messages ids st) k = Some a"
      then have "k \<notin> ids" "msg_selected st k = Some a" by (simp_all add: v split: if_split_asm)
      with refs_okD(4) [OF refs, of k a]
      show "map_option fst (alt_key (delete_messages ids st) a) = Some k" by (auto simp: v)
    qed
  qed
  moreover have "keys_ok (delete_messages ids st)" "columns_ok (delete_messages ids st)"
    using assms by (simp_all add: store_ok_def keys_ok_def columns_ok_def delete_messages_def list_all_dfilter)
  ultimately show ?thesis by (simp add: store_ok_def)
qed

text \<open>Changes of the table of turns alone.\<close>

lemma turns_only_ok:
  assumes "store_ok st" "dict_ok d" "uniquely (turn_key (st\<lparr>st_turns := d\<rparr>))"
    and "\<And>k t. turn_thread (st\<lparr>st_turns := d\<rparr>) k = Some t \<Longrightarrow> has_thread st t"
  shows "store_ok (st\<lparr>st_turns := d\<rparr>)"
proof -
  let ?st = "st\<lparr>st_turns := d\<rparr>"
  have v: "seq_key ?st = seq_key st" "said_in ?st = said_in st" "alt_key ?st = alt_key st"
    "msg_thread ?st = msg_thread st" "msg_selected ?st = msg_selected st" "has_thread ?st = has_thread st"
    by (auto simp: view_defs fun_eq_iff)
  have "refs_ok ?st"
    by (rule refs_okI) (use assms(1,4) in \<open>auto simp: v store_ok_def dest: refs_okD\<close>)
  then show ?thesis
    using assms(1-3) by (simp add: store_ok_def unique_ok_def v) (simp add: keys_ok_def columns_ok_def)
qed

definition same_turn :: "turn_row \<Rightarrow> turn_row \<Rightarrow> bool" where
  "same_turn r q \<longleftrightarrow> ct_call q = ct_call r \<and> ct_turn q = ct_turn r \<and> ct_thread q = ct_thread r"

lemma put_turn_ok:
  assumes "store_ok st" "dget (st_turns st) rid = Some r" "same_turn r q"
  shows "store_ok (put_turn rid q st)"
  unfolding put_turn_def
proof (rule turns_only_ok [OF assms(1)])
  let ?st = "st\<lparr>st_turns := dset rid q (st_turns st)\<rparr>"
  have v: "turn_key ?st = turn_key st" "turn_thread ?st = turn_thread st"
    using assms(2,3) by (auto simp: view_defs same_turn_def fun_eq_iff)
  show "uniquely (turn_key ?st)" using assms(1) by (simp add: v store_ok_def unique_ok_def)
  show "turn_thread ?st k = Some t \<Longrightarrow> has_thread st t" for k t
    using assms(1) refs_okD(3) [of st k t] by (simp add: v store_ok_def)
qed (use assms(1) in \<open>simp add: store_ok_def keys_ok_def\<close>)

lemma map_turns_ok:
  assumes "store_ok st" "\<And>r. same_turn r (f r)"
  shows "store_ok (st\<lparr>st_turns := dmap f (st_turns st)\<rparr>)"
proof (rule turns_only_ok [OF assms(1)])
  let ?st = "st\<lparr>st_turns := dmap f (st_turns st)\<rparr>"
  have v: "turn_key ?st = turn_key st" "turn_thread ?st = turn_thread st"
    using assms(2) by (auto simp: view_defs same_turn_def fun_eq_iff option.map_comp comp_def)
  show "uniquely (turn_key ?st)" using assms(1) by (simp add: v store_ok_def unique_ok_def)
  show "turn_thread ?st k = Some t \<Longrightarrow> has_thread st t" for k t
    using assms(1) refs_okD(3) [of st k t] by (simp add: v store_ok_def)
qed (use assms(1) in \<open>simp add: store_ok_def keys_ok_def\<close>)

lemma insert_turn_ok:
  assumes "store_ok st" "insert_turn rid r st = Inr st'"
  shows "store_ok st'" "st' = st\<lparr>st_turns := dset rid r (st_turns st)\<rparr>" "dget (st_turns st) rid = None"
    "has_thread st (ct_thread r)"
proof -
  have c: "st' = st\<lparr>st_turns := dset rid r (st_turns st)\<rparr>" "dget (st_turns st) rid = None" "has_thread st (ct_thread r)"
    "list_all (\<lambda>(k, q). \<not> (ct_call q = ct_call r \<and> ct_turn q = ct_turn r)) (st_turns st)"
    using assms(2) by (auto simp: insert_turn_def has_thread_def list_all_iff list_ex_iff split: if_split_asm)
  then show "st' = st\<lparr>st_turns := dset rid r (st_turns st)\<rparr>" "dget (st_turns st) rid = None" "has_thread st (ct_thread r)"
    by simp_all
  let ?st = "st\<lparr>st_turns := dset rid r (st_turns st)\<rparr>"
  have "store_ok ?st"
  proof (rule turns_only_ok [OF assms(1)])
    have v: "turn_key ?st = (turn_key st)(rid \<mapsto> (ct_call r, ct_turn r))"
      "turn_thread ?st = (turn_thread st)(rid \<mapsto> ct_thread r)"
      by (auto simp: view_defs fun_eq_iff)
    have "turn_key st k \<noteq> Some (ct_call r, ct_turn r)" for k
      using c(4) map_of_SomeD [of "st_turns st" k]
      by (cases "dget (st_turns st) k") (auto simp: turn_key_def list_all_iff)
    then show "uniquely (turn_key ?st)"
      using assms(1) by (simp add: v store_ok_def unique_ok_def uniquely_upd)
    show "turn_thread ?st k = Some t \<Longrightarrow> has_thread st t" for k t
      using assms(1) refs_okD(3) [of st k t] c(3) by (simp add: v store_ok_def split: if_split_asm)
  qed (use assms(1) in \<open>simp add: store_ok_def keys_ok_def\<close>)
  then show "store_ok st'" by (simp add: c(1))
qed

section \<open>Operations keep the store consistent\<close>

lemma next_sequence_nonneg: "store_ok st \<Longrightarrow> 0 \<le> next_sequence tid st"
  using max_or_ge [of "map (ms_sequence \<circ> snd) (thread_messages tid st)" "-1"]
  by (fastforce simp: next_sequence_def thread_messages_def dfilter_def store_ok_def columns_ok_def list_all_iff
      message_columns_def)

lemma append_message_ok:
  assumes "store_ok st" "append_message mid tid kind role text now st = Inr st'"
  shows "store_ok st'"
proof -
  obtain st1 where st1: "touch_thread tid now st = Inr st1"
    "insert_message mid (staged_message tid kind role text None None now st) st1 = Inr st'"
    using assms(2) by (auto simp: append_message_def bind_res_Inr_iff)
  show ?thesis
    by (rule insert_message_ok [OF touch_thread_ok [OF assms(1) st1(1)] st1(2)])
      (simp_all add: staged_message_def next_sequence_nonneg [OF assms(1)])
qed

lemma next_index_nonneg: "store_ok st \<Longrightarrow> 0 \<le> next_alternate_index mid st"
  using max_or_ge [of "map (al_index \<circ> snd) (dfilter (\<lambda>_ a. al_message a = mid) (st_alternates st))" "-1"]
  by (fastforce simp: next_alternate_index_def dfilter_def store_ok_def columns_ok_def list_all_iff alternate_columns_def)

lemma new_alternate_ok:
  assumes "store_ok st" "new_alternate aid mid text action now st = Inr st'"
  shows "store_ok st'" "st_messages st' = st_messages st" "st_turns st' = st_turns st" "st_threads st' = st_threads st"
    "map_option fst (alt_key st' aid) = Some mid"
    "st_alternates st' = dset aid \<lparr>al_message = mid, al_index = next_alternate_index mid st, al_content = text,
        al_action = action, al_root = Some mid, al_created = now, al_updated = now\<rparr> (st_alternates st)"
    "dget (st_alternates st) aid = None"
proof -
  have ins: "insert_alternate aid
         \<lparr>al_message = mid, al_index = next_alternate_index mid st, al_content = text, al_action = action,
          al_root = Some mid, al_created = now, al_updated = now\<rparr> st = Inr st'"
    using assms(2) by (auto simp: new_alternate_def source_action_def bind_res_Inr_iff split: if_split_asm)
  have nn: "0 \<le> al_index \<lparr>al_message = mid, al_index = next_alternate_index mid st, al_content = text, al_action = action,
          al_root = Some mid, al_created = now, al_updated = now\<rparr>"
    using next_index_nonneg [OF assms(1)] by simp
  note ok = insert_alternate_ok [OF assms(1) ins nn]
  show "store_ok st'" "dget (st_alternates st) aid = None" by (fact ok)+
  show "st_messages st' = st_messages st" "st_turns st' = st_turns st" "st_threads st' = st_threads st"
    "map_option fst (alt_key st' aid) = Some mid"
    "st_alternates st' = dset aid \<lparr>al_message = mid, al_index = next_alternate_index mid st, al_content = text,
        al_action = action, al_root = Some mid, al_created = now, al_updated = now\<rparr> (st_alternates st)"
    by (simp_all add: ok(2) alt_key_def)
qed

lemma get_ai_message_Inr: "get_ai_message mid st = Inr m \<longleftrightarrow> dget (st_messages st) mid = Some m \<and> ai_kind m"
  by (auto simp: get_ai_message_def get_message_def bind_res_Inr_iff split: option.split_asm if_split_asm)

lemma replace_selected_ok:
  assumes "store_ok st" "replace_selected_ai_response aid mid text action now st = Inr st'"
  shows "store_ok st'"
proof -
  obtain m st1 where c: "get_ai_message mid st = Inr m" "new_alternate aid mid text action now st = Inr st1"
    "touch_thread (ms_thread m) now
       (update_message mid (\<lambda>n. n\<lparr>ms_content := Some text, ms_selected := Some aid, ms_stale := False,
          ms_updated := now\<rparr>) st1) = Inr st'"
    using assms(2) by (auto simp: replace_selected_ai_response_def bind_res_Inr_iff)
  note alt = new_alternate_ok [OF assms(1) c(2)]
  have m: "dget (st_messages st1) mid = Some m" using c(1) alt(2) by (simp add: get_ai_message_Inr)
  show ?thesis
    by (rule touch_thread_ok [OF update_message_ok [OF alt(1) m] c(3)])
      (use alt(5) in \<open>simp_all add: same_place_def row_turn_def\<close>)
qed

lemma add_selected_ok:
  assumes "store_ok st" "add_selected_alternate aid mid text action now st = Inr st'"
  shows "store_ok st'"
proof -
  obtain m st1 where c: "get_ai_message mid st = Inr m" "new_alternate aid mid text action now st = Inr st1"
    "touch_thread (ms_thread m) now (update_message mid (\<lambda>n. n\<lparr>ms_selected := Some aid, ms_updated := now\<rparr>) st1) = Inr st'"
    using assms(2) by (auto simp: add_selected_alternate_def bind_res_Inr_iff)
  note alt = new_alternate_ok [OF assms(1) c(2)]
  have m: "dget (st_messages st1) mid = Some m" using c(1) alt(2) by (simp add: get_ai_message_Inr)
  show ?thesis
    by (rule touch_thread_ok [OF update_message_ok [OF alt(1) m] c(3)])
      (use alt(5) in \<open>simp_all add: same_place_def row_turn_def\<close>)
qed

lemma own_alternate_Some:
  "own_alternate mid sel st = Some (a, r) \<longleftrightarrow> sel = Some a \<and> dget (st_alternates st) a = Some r \<and> al_message r = mid"
  by (auto simp: own_alternate_def split: option.split_asm if_split_asm)

lemma select_alternate_ok:
  assumes "store_ok st" "select_alternate mid aid now st = Inr st'"
  shows "store_ok st'"
proof -
  obtain m where c: "get_ai_message mid st = Inr m" "own_alternate mid (Some aid) st \<noteq> None"
    "touch_thread (ms_thread m) now (update_message mid (\<lambda>n. n\<lparr>ms_selected := Some aid, ms_updated := now\<rparr>) st) = Inr st'"
    using assms(2) by (auto simp: select_alternate_def bind_res_Inr_iff split: option.split_asm)
  obtain a r where r: "own_alternate mid (Some aid) st = Some (a, r)" using c(2) by auto
  have m: "dget (st_messages st) mid = Some m" using c(1) by (simp add: get_ai_message_Inr)
  show ?thesis
    by (rule touch_thread_ok [OF update_message_ok [OF assms(1) m] c(3)])
      (use r in \<open>simp_all add: same_place_def row_turn_def own_alternate_Some alt_key_def\<close>)
qed

lemma edit_selected_ok:
  assumes "store_ok st"
  shows "store_ok (edit_selected mid m text now st)" "st_messages (edit_selected mid m text now st) = st_messages st"
    "st_turns (edit_selected mid m text now st) = st_turns st" "st_threads (edit_selected mid m text now st) = st_threads st"
proof -
  show "store_ok (edit_selected mid m text now st)"
  proof (cases "own_alternate mid (ms_selected m) st")
    case (Some p)
    obtain a r where p: "p = (a, r)" by (cases p)
    have "dget (st_alternates st) a = Some r" using Some p by (simp add: own_alternate_Some)
    then show ?thesis
      using put_alternate_ok [OF assms, of a r "r\<lparr>al_content := text, al_updated := now\<rparr>"] Some p
      by (simp add: edit_selected_def)
  qed (simp add: edit_selected_def assms)
qed (auto simp: edit_selected_def split: option.split)

lemma row_turn_updates [simp]:
  "row_turn (m\<lparr>ms_stale := b\<rparr>) = row_turn m" "row_turn (m\<lparr>ms_updated := t\<rparr>) = row_turn m"
  "row_turn (m\<lparr>ms_content := x\<rparr>) = row_turn m" "row_turn (m\<lparr>ms_selected := a\<rparr>) = row_turn m"
  by (simp_all add: row_turn_def)

lemma mark_later_stale_ok: "store_ok st \<Longrightarrow> store_ok (mark_later_stale m now st)"
  unfolding mark_later_stale_def by (rule map_messages_ok) (simp_all add: same_place_def)

lemma edit_message_Inr:
  assumes "edit_message mid text now st = Inr st'"
  obtains m where "dget (st_messages st) mid = Some m"
    "touch_thread (ms_thread m) now
       (let st1 = edit_selected mid m text now
                   (update_message mid (\<lambda>n. n\<lparr>ms_content := Some text, ms_updated := now\<rparr>) st) in
        if ms_role m = ''user''
        then mark_later_stale m now (update_message mid (\<lambda>n. n\<lparr>ms_stale := False\<rparr>) st1) else st1) = Inr st'"
  using assms by (auto simp: edit_message_def get_message_def bind_res_Inr_iff Let_def split: option.split_asm)

lemma edit_message_ok:
  assumes "store_ok st" "edit_message mid text now st = Inr st'"
  shows "store_ok st'"
  using assms(2)
proof (rule edit_message_Inr)
  fix m
  assume m: "dget (st_messages st) mid = Some m"
  let ?st0 = "update_message mid (\<lambda>n. n\<lparr>ms_content := Some text, ms_updated := now\<rparr>) st"
  let ?st1 = "edit_selected mid m text now ?st0"
  assume t: "touch_thread (ms_thread m) now
       (let st1 = ?st1 in if ms_role m = ''user''
        then mark_later_stale m now (update_message mid (\<lambda>n. n\<lparr>ms_stale := False\<rparr>) st1) else st1) = Inr st'"
  have ok0: "store_ok ?st0" by (rule update_message_ok [OF assms(1) m]) (simp_all add: same_place_def)
  note ok1 = edit_selected_ok [OF ok0, of mid m "text" now]
  have m1: "dget (st_messages ?st1) mid = Some (m\<lparr>ms_content := Some text, ms_updated := now\<rparr>)"
    unfolding ok1(2) using m by (simp add: update_message_def)
  have "store_ok (mark_later_stale m now (update_message mid (\<lambda>n. n\<lparr>ms_stale := False\<rparr>) ?st1))"
    by (rule mark_later_stale_ok, rule update_message_ok [OF ok1(1) m1]) (simp_all add: same_place_def)
  then show "store_ok st'"
    using ok1(1) t touch_thread_ok by (simp add: Let_def split: if_split_asm)
qed

lemma truncate_Inr:
  assumes "truncate_stale_after mid now st = Inr st'"
  obtains m where "dget (st_messages st) mid = Some m"
    "touch_thread (ms_thread m) now
       (delete_messages (set (map fst (dfilter (\<lambda>_ n. stale_after m n) (st_messages st)))) st) = Inr st'"
  using assms
  by (auto simp: truncate_stale_after_def get_message_def bind_res_Inr_iff Let_def delete_messages_def
      split: option.split_asm)

lemma truncate_ok: "store_ok st \<Longrightarrow> truncate_stale_after mid now st = Inr st' \<Longrightarrow> store_ok st'"
  by (elim truncate_Inr) (rule touch_thread_ok [OF delete_messages_ok])

lemma keep_ok: "store_ok st \<Longrightarrow> keep_stale_after mid now st = Inr st' \<Longrightarrow> store_ok st'"
  by (auto simp: keep_stale_after_def bind_res_Inr_iff intro: touch_thread_ok)

lemma rename_ok: "store_ok st \<Longrightarrow> rename_thread tid title now st = Inr st' \<Longrightarrow> store_ok st'"
  using put_thread_ok [of st tid] live_has_thread [of tid st]
  by (auto simp: rename_thread_def split: option.split_asm if_split_asm)

lemma dset_dset [simp]: "dset k v (dset k w d) = dset k v d"
  by (induction d) (auto simp: dset_def)

lemma create_thread_ok:
  assumes "store_ok st" "create_thread tid mid aid cid title greeting now st = Inr st'"
  shows "store_ok st'"
proof -
  obtain c greeted index st1 st2 where x:
    "resolve_opening c greeting = Inr (greeted, index)"
    "insert_thread tid \<lparr>th_character = Some cid, th_title = coalesce_title title (cd_name (cr_card c)),
          th_snapshot = cr_card c, th_last = Some now, th_deleted = None, th_created = now, th_updated = now\<rparr> st = Inr st1"
    "insert_message mid \<lparr>ms_thread = tid, ms_call = None, ms_call_turn = None, ms_kind = ''ai_text'',
          ms_role = ''assistant'', ms_sequence = 0, ms_content = Some greeted, ms_selected = Some aid, ms_stale = False,
          ms_created = now, ms_updated = now\<rparr> st1 = Inr st2"
    "insert_alternate aid \<lparr>al_message = mid, al_index = index, al_content = greeted, al_action = ''first_mes'',
          al_root = None, al_created = now, al_updated = now\<rparr> st2 = Inr st'"
    using assms(2) by (auto simp: create_thread_def bind_res_Inr_iff split_beta)
  note ok1 = insert_thread_ok [OF assms(1) x(2)]
  let ?m = "\<lparr>ms_thread = tid, ms_call = None, ms_call_turn = None, ms_kind = ''ai_text'', ms_role = ''assistant'',
      ms_sequence = 0, ms_content = Some greeted, ms_selected = Some aid, ms_stale = False,
      ms_created = now, ms_updated = now\<rparr>"
  let ?n = "?m\<lparr>ms_selected := None\<rparr>"
  let ?a = "\<lparr>al_message = mid, al_index = index, al_content = greeted, al_action = ''first_mes'', al_root = None,
      al_created = now, al_updated = now\<rparr>"
  have index: "0 \<le> index" using x(1) by (auto simp: resolve_opening_def split: option.split_asm if_split_asm)
  have plain: "insert_message mid ?n st1 = Inr (st1\<lparr>st_messages := dset mid ?n (st_messages st1)\<rparr>)"
    using x(3) by (simp add: insert_message_def same_call_turn_def split: if_split_asm)
  let ?st2 = "st1\<lparr>st_messages := dset mid ?n (st_messages st1)\<rparr>"
  have ok2: "store_ok ?st2" by (rule insert_message_ok [OF ok1(1) plain]) simp_all
  have st2: "st2 = st1\<lparr>st_messages := dset mid ?m (st_messages st1)\<rparr>" by (rule insert_message_cases(1) [OF x(3)])
  have st': "st' = st2\<lparr>st_alternates := dset aid ?a (st_alternates st2)\<rparr>"
    using x(4) by (simp add: insert_alternate_def split: if_split_asm)
  have "insert_alternate aid ?a ?st2 = Inr (?st2\<lparr>st_alternates := dset aid ?a (st_alternates ?st2)\<rparr>)"
    using x(4) by (simp add: insert_alternate_def st2 split: if_split_asm)
  note ok3 = insert_alternate_ok(1) [OF ok2 this]
  let ?st3 = "?st2\<lparr>st_alternates := dset aid ?a (st_alternates ?st2)\<rparr>"
  have "store_ok (?st3\<lparr>st_messages := dset mid ?m (st_messages ?st3)\<rparr>)"
    by (rule put_message_ok [of _ _ ?n]) (use ok3 index in \<open>simp_all add: same_place_def row_turn_def alt_key_def\<close>)
  moreover have "?st3\<lparr>st_messages := dset mid ?m (st_messages ?st3)\<rparr> = st'"
    by (rule store.equality) (simp_all add: st' st2)
  ultimately show ?thesis by simp
qed

text \<open>The deletion of a thread is a deletion of its messages, its turns and its row.\<close>

lemma has_thread_keys: "has_thread st t \<Longrightarrow> t \<noteq> tid \<Longrightarrow> has_thread (st\<lparr>st_threads := dpop tid (st_threads st)\<rparr>) t"
  by (simp add: has_thread_def)

lemma delete_thread_Inr:
  assumes "store_ok st" "delete_thread tid st = Inr st'"
  shows "st' = (delete_messages (set (map fst (thread_messages tid st))) st)
     \<lparr>st_turns := dfilter (\<lambda>_ r. ct_thread r \<noteq> tid) (st_turns st), st_threads := dpop tid (st_threads st)\<rparr>"
proof -
  have "dfilter (\<lambda>_ m. ms_thread m \<noteq> tid) (st_messages st)
      = dfilter (\<lambda>k _. k \<notin> set (map fst (thread_messages tid st))) (st_messages st)"
    unfolding thread_messages_def by (rule dfilter_complement) (use assms(1) in \<open>simp add: store_ok_def keys_ok_def\<close>)
  then show ?thesis
    using assms(2) by (auto simp: delete_thread_def delete_messages_def Let_def split: option.split_asm)
qed

lemma delete_thread_ok:
  assumes "store_ok st" "delete_thread tid st = Inr st'"
  shows "store_ok st'"
proof -
  let ?st1 = "delete_messages (set (map fst (thread_messages tid st))) st"
  let ?st2 = "?st1\<lparr>st_turns := dfilter (\<lambda>_ r. ct_thread r \<noteq> tid) (st_turns st)\<rparr>"
  have turns: "dict_ok (st_turns st)" "dict_ok (st_messages st)" "dict_ok (st_threads st)" "refs_ok st"
    using assms(1) by (simp_all add: store_ok_def keys_ok_def)
  have ok1: "store_ok ?st1" by (rule delete_messages_ok [OF assms(1)])
  have t: "turn_key ?st2 k = Some x \<Longrightarrow> turn_key st k = Some x"
    "turn_thread ?st2 k = Some y \<Longrightarrow> turn_thread st k = Some y \<and> y \<noteq> tid" for k x y
    using turns(1) by (auto simp: view_defs dget_dfilter split: option.split_asm if_split_asm)
  have ok2: "store_ok ?st2"
  proof (rule turns_only_ok [OF ok1])
    show "uniquely (turn_key ?st2)"
      by (rule uniquely_less [of "turn_key st"]) (use assms(1) t(1) in \<open>auto simp: store_ok_def unique_ok_def\<close>)
    show "turn_thread ?st2 k = Some y \<Longrightarrow> has_thread ?st1 y" for k y
      using t(2) [of k y] refs_okD(3) [OF turns(4), of k y] delete_messages_views(8) [OF assms(1)] by simp
  qed (use turns(1) in simp)
  have gone: "msg_thread ?st2 k \<noteq> Some tid" for k
  proof -
    have "msg_thread ?st1 k \<noteq> Some tid"
      using dfilter_keys [OF turns(2), of k "\<lambda>_ m. ms_thread m = tid"] delete_messages_views(3) [OF assms(1)]
      by (auto simp: thread_messages_def msg_thread_def split: option.split_asm)
    then show ?thesis by (simp add: msg_thread_def)
  qed
  have st': "st' = ?st2\<lparr>st_threads := dpop tid (st_threads st)\<rparr>"
    using delete_thread_Inr [OF assms] by simp
  have v: "seq_key st' = seq_key ?st2" "said_in st' = said_in ?st2" "alt_key st' = alt_key ?st2"
    "turn_key st' = turn_key ?st2" "msg_thread st' = msg_thread ?st2" "turn_thread st' = turn_thread ?st2"
    "msg_selected st' = msg_selected ?st2"
    by (auto simp: st' view_defs fun_eq_iff)
  have kept: "has_thread ?st2 t \<Longrightarrow> t \<noteq> tid \<Longrightarrow> has_thread st' t" for t
    by (simp add: st' has_thread_def delete_messages_def)
  have refs2: "refs_ok ?st2" using ok2 by (simp add: store_ok_def)
  have "refs_ok st'"
  proof (rule refs_okI)
    fix k t assume "msg_thread st' k = Some t"
    then show "has_thread st' t" using refs_okD(1) [OF refs2, of k t] gone [of k] kept [of t] by (auto simp: v)
  next
    fix k t assume "turn_thread st' k = Some t"
    then show "has_thread st' t" using refs_okD(3) [OF refs2, of k t] t(2) [of k t] kept [of t] by (auto simp: v)
  qed (use refs_okD(2,4) [OF refs2] in \<open>auto simp: v\<close>)
  then show ?thesis
    using ok2 turns(3) by (simp add: store_ok_def unique_ok_def v) (simp add: st' keys_ok_def columns_ok_def)
qed

section \<open>Calls keep the store consistent\<close>

lemma close_turn_same [simp]: "same_turn r (close_turn s now r)"
  by (simp add: same_turn_def close_turn_def)

lemma terminalize_ok:
  assumes "store_ok st" "dget (st_turns st) rid = Some r"
  shows "store_ok (snd (snd (terminalize_stale_turn now done rid r c st)))"
  using assms put_turn_ok [OF assms, of "close_turn Turn_failed now r"]
  by (simp add: terminalize_stale_turn_def Let_def)

lemma existing_store:
  "sv_store (snd (existing_turn_reservation now done sha cid rid r c sv))
     = snd (snd (terminalize_stale_turn now done rid r c (sv_store sv)))"
  by (simp add: existing_turn_reservation_def put_call_def split_beta)

lemma find_turn_Some:
  assumes "store_ok st" "find_turn cid turn st = Some (k, r)"
  shows "dget (st_turns st) k = Some r" "ct_call r = cid" "ct_turn r = turn"
proof -
  have "(k, r) \<in> set (st_turns st)" "ct_call r = cid \<and> ct_turn r = turn"
    using assms(2) by (auto simp: find_turn_def find_Some_iff in_set_conv_nth)
  then show "dget (st_turns st) k = Some r" "ct_call r = cid" "ct_turn r = turn"
    using assms(1) by (simp_all add: store_ok_def keys_ok_def dict_ok_def)
qed

lemma reserve_store_ok:
  assumes "store_ok (sv_store sv)"
  shows "store_ok (sv_store (snd (reserve_call_turn cid turn sha rid owner task commit done now sv)))"
proof (cases "dget (sv_calls sv) cid")
  case (Some c)
  show ?thesis
  proof (cases "ac_ended c = None")
    case live: True
    show ?thesis
    proof (cases "find_turn cid turn (sv_store sv)")
      case (Some p)
      obtain k r where p: "p = (k, r)" by (cases p)
      have "store_ok (snd (snd (terminalize_stale_turn now done k r c (sv_store sv))))"
        by (rule terminalize_ok [OF assms]) (use find_turn_Some [OF assms] Some p in blast)
      then show ?thesis
        using \<open>dget (sv_calls sv) cid = Some c\<close> live Some p by (simp add: reserve_call_turn_def split_beta existing_store)
    next
      case None
      let ?row = "\<lparr>ct_call = cid, ct_turn = turn, ct_thread = ac_thread c, ct_sha = sha, ct_state = Turn_reserved,
          ct_owner = Some owner, ct_lease = Some (now + lease_seconds), ct_user = None, ct_assistant = None,
          ct_created = now, ct_updated = now\<rparr>"
      show ?thesis
      proof (cases "insert_turn rid ?row (sv_store sv)")
        case (Inl e)
        then show ?thesis
          using \<open>dget (sv_calls sv) cid = Some c\<close> live None assms
          by (cases commit) (simp_all add: reserve_call_turn_def put_call_def Let_def)
      next
        case (Inr st1)
        note ok1 = insert_turn_ok [OF assms Inr]
        have "store_ok (put_turn rid (close_turn s now ?row) st1)" for s
          by (rule put_turn_ok [OF ok1(1), of _ ?row]) (simp_all add: ok1(2) same_turn_def close_turn_def)
        then show ?thesis
          using \<open>dget (sv_calls sv) cid = Some c\<close> live None assms ok1(1) Inr
          by (cases commit) (simp_all add: reserve_call_turn_def put_call_def Let_def)
      qed
    qed
  qed (use Some assms in \<open>simp add: reserve_call_turn_def\<close>)
qed (simp add: reserve_call_turn_def assms)

lemma put_call_store [simp]: "sv_store (put_call cid c sv) = sv_store sv"
  by (simp add: put_call_def)

lemma put_call_calls [simp]: "sv_calls (put_call cid c sv) = dset cid c (sv_calls sv)"
  by (simp add: put_call_def)

lemma with_call_store [simp]: "sv_store (snd (with_call cid f sv)) = sv_store sv"
  by (simp add: with_call_def split: option.split)

lemma status_store_ok:
  assumes "store_ok (sv_store sv)"
  shows "store_ok (sv_store (snd (call_turn_status cid turn sha done now sv)))"
proof (cases "dget (sv_calls sv) cid")
  case (Some c)
  show ?thesis
  proof (cases "find_turn cid turn (sv_store sv)")
    case found: (Some p)
    obtain k r where p: "p = (k, r)" by (cases p)
    have "store_ok (snd (snd (terminalize_stale_turn now done k r c (sv_store sv))))"
      by (rule terminalize_ok [OF assms]) (use find_turn_Some [OF assms] found p in blast)
    then show ?thesis
      using Some found p by (simp add: call_turn_status_def split_beta existing_store)
  qed (use Some assms in \<open>simp add: call_turn_status_def\<close>)
qed (simp add: call_turn_status_def assms)

lemma reconcile_turn_ok: "store_ok (sv_store sv) \<Longrightarrow> store_ok (sv_store (reconcile_turn now done rid sv))"
  using terminalize_ok [of "sv_store sv" rid] put_turn_ok [of "sv_store sv" rid]
  by (auto simp: reconcile_turn_def split_beta split: option.split)

lemma fold_keeps: "(\<And>x s. P s \<Longrightarrow> P (f x s)) \<Longrightarrow> P s \<Longrightarrow> P (fold f xs s)"
  by (induction xs arbitrary: s) auto

lemma reconcile_store_ok:
  "store_ok (sv_store sv) \<Longrightarrow> store_ok (sv_store (reconcile_stale_call_turns now done sv))"
  unfolding reconcile_stale_call_turns_def
  by (rule fold_keeps [where P = "\<lambda>s. store_ok (sv_store s)"]) (simp_all add: reconcile_turn_ok)

lemma record_event_ok:
  "store_ok (sv_store sv) \<Longrightarrow> store_ok (sv_store (snd (record_event mid cid type text now sv)))"
  using append_message_ok [of "sv_store sv"] by (auto simp: record_event_def Let_def split: option.split sum.split)

lemma user_speech_ok:
  assumes "store_ok (sv_store sv)"
  shows "store_ok (sv_store (snd (record_reserved_user_speech mid cid turn text owner now sv)))"
proof -
  have "store_ok (put_turn k (r\<lparr>ct_user := u, ct_state := s, ct_lease := l, ct_updated := x\<rparr>) st)"
    if "append_message mid tid kind role text now (sv_store sv) = Inr st" "find_turn cid turn st = Some (k, r)"
    for k r st u s l x tid kind role
    by (rule put_turn_ok [OF append_message_ok [OF assms that(1)], of _ r])
      (use find_turn_Some [OF append_message_ok [OF assms that(1)] that(2)] in \<open>simp_all add: same_turn_def\<close>)
  then show ?thesis
    using assms by (auto simp: record_reserved_user_speech_def Let_def split: option.split sum.split)
qed

lemma complete_begin_store [simp]: "sv_store (snd (complete_begin cid turn owner completed sv)) = sv_store sv"
  by (simp add: complete_begin_def split: option.split)

lemma refuse_completion_store [simp]: "sv_store (snd (refuse_completion e cid turn c sv)) = sv_store sv"
  by (simp add: refuse_completion_def)

lemma complete_stage_store [simp]: "sv_store (snd (complete_stage mid cid turn text owner now sv)) = sv_store sv"
  by (simp add: complete_stage_def Let_def split: option.split sum.split)

lemma complete_abort_store [simp]: "sv_store (complete_abort cid turn sv) = sv_store sv"
  by (simp add: complete_abort_def split: option.split)

lemma finish_store_ok:
  assumes "store_ok (sv_store sv)"
  shows "store_ok (sv_store (snd (finish_call_turn cid turn state owner now sv)))"
  using assms find_turn_Some(1) [OF assms] put_turn_ok [OF assms _ close_turn_same]
  by (auto simp: finish_call_turn_def Let_def split: option.split)

lemma end_write_ok:
  assumes "store_ok (sv_store sv)"
  shows "store_ok (sv_store (snd (end_call_write mid cid now sv)))"
proof -
  have "store_ok (cancel_open_turns cid now (sv_store sv))"
    unfolding cancel_open_turns_def
    by (rule map_turns_ok [OF assms]) (simp add: same_turn_def close_turn_def)
  from append_message_ok [OF this] show ?thesis
    using assms by (auto simp: end_call_write_def split: option.split sum.split)
qed

lemma start_on_ok:
  "store_ok (sv_store sv) \<Longrightarrow> store_ok (sv_store (snd (start_call_on cid sid mid tid preflight now sv)))"
  using append_message_ok [of "sv_store sv"] by (auto simp: start_call_on_def Let_def split: option.split sum.split)

lemma start_call_ok:
  assumes "store_ok (sv_store sv)"
  shows "store_ok (sv_store (snd (start_call cid sid mid thread fresh character preflight now done sv)))"
proof -
  note ok = reconcile_store_ok [OF assms, of now "done"]
  obtain tid first alt where fresh: "fresh = (tid, first, alt)" by (cases fresh)
  have "store_ok st \<Longrightarrow> store_ok (sv_store (snd (start_call_on cid sid mid t preflight now (s\<lparr>sv_store := st\<rparr>))))" for st t s
    using start_on_ok [of "s\<lparr>sv_store := st\<rparr>" cid sid mid t preflight now] by simp
  then show ?thesis
    using ok create_thread_ok [OF ok] start_on_ok [OF ok]
    by (simp add: start_call_def Let_def fresh split: option.split sum.split)
qed

lemma on_store_ok:
  "store_ok (sv_store sv) \<Longrightarrow> (\<And>st. f (sv_store sv) = Inr st \<Longrightarrow> store_ok st) \<Longrightarrow> store_ok (sv_store (on_store f sv))"
  by (simp add: on_store_def split: sum.split)

lemma other_tables:
  "seq_key (st\<lparr>st_characters := x\<rparr>) = seq_key st" "said_in (st\<lparr>st_characters := x\<rparr>) = said_in st"
  "alt_key (st\<lparr>st_characters := x\<rparr>) = alt_key st" "turn_key (st\<lparr>st_characters := x\<rparr>) = turn_key st"
  "msg_thread (st\<lparr>st_characters := x\<rparr>) = msg_thread st" "turn_thread (st\<lparr>st_characters := x\<rparr>) = turn_thread st"
  "msg_selected (st\<lparr>st_characters := x\<rparr>) = msg_selected st" "has_thread (st\<lparr>st_characters := x\<rparr>) = has_thread st"
  "seq_key (st\<lparr>st_voices := y\<rparr>) = seq_key st" "said_in (st\<lparr>st_voices := y\<rparr>) = said_in st"
  "alt_key (st\<lparr>st_voices := y\<rparr>) = alt_key st" "turn_key (st\<lparr>st_voices := y\<rparr>) = turn_key st"
  "msg_thread (st\<lparr>st_voices := y\<rparr>) = msg_thread st" "turn_thread (st\<lparr>st_voices := y\<rparr>) = turn_thread st"
  "msg_selected (st\<lparr>st_voices := y\<rparr>) = msg_selected st" "has_thread (st\<lparr>st_voices := y\<rparr>) = has_thread st"
  by (simp_all add: view_defs fun_eq_iff)

lemma put_character_ok: "store_ok st \<Longrightarrow> store_ok (st\<lparr>st_characters := dset k r (st_characters st)\<rparr>)"
  by (simp add: store_ok_def unique_ok_def refs_ok_def other_tables) (simp add: keys_ok_def columns_ok_def)

lemma put_voice_ok: "store_ok st \<Longrightarrow> store_ok (st\<lparr>st_voices := dset k r (st_voices st)\<rparr>)"
  by (simp add: store_ok_def unique_ok_def refs_ok_def other_tables) (simp add: keys_ok_def columns_ok_def)

lemma call_memory_store [simp]:
  "sv_store (snd (set_muted_flag cid muted sv)) = sv_store sv"
  "sv_store (snd (attach_session cid sid sv)) = sv_store sv"
  "sv_store (snd (register_active_turn cid task sv)) = sv_store sv"
  "sv_store (snd (unregister_active_turn cid task tn ow sv)) = sv_store sv"
  "sv_store (snd (drop_tasks cid tasks sv)) = sv_store sv"
  "sv_store (snd (begin_end_mark cid now sv)) = sv_store sv"
  "sv_store (snd (begin_end_settle cid tasks sv)) = sv_store sv"
  by (simp_all add: set_muted_flag_def attach_session_def register_active_turn_def unregister_active_turn_def
      drop_tasks_def begin_end_mark_def begin_end_settle_def split: option.split)

text \<open>The message that waits for its commit has the place and the columns of an assistant's speech.\<close>

definition staged_row_ok :: "string \<Rightarrow> active_call \<Rightarrow> bool" where
  "staged_row_ok cid c = (case ac_staged c of
       None \<Rightarrow> True
     | Some (turn, owner, mid, row) \<Rightarrow> ms_thread row = ac_thread c \<and> row_turn row = Some (cid, turn)
         \<and> 0 \<le> ms_sequence row \<and> ms_selected row = None)"

definition staged_ok :: "server \<Rightarrow> bool" where
  "staged_ok sv \<longleftrightarrow> (\<forall>cid. case dget (sv_calls sv) cid of None \<Rightarrow> True | Some c \<Rightarrow> staged_row_ok cid c)"

lemma staged_okD: "staged_ok sv \<Longrightarrow> dget (sv_calls sv) cid = Some c \<Longrightarrow> staged_row_ok cid c"
  using spec [of "\<lambda>cid. case dget (sv_calls sv) cid of None \<Rightarrow> True | Some c \<Rightarrow> staged_row_ok cid c" cid]
  by (simp add: staged_ok_def)

lemma staged_ok_put: "staged_ok sv \<Longrightarrow> sv_calls sv' = dset cid c (sv_calls sv) \<Longrightarrow> staged_row_ok cid c \<Longrightarrow> staged_ok sv'"
  unfolding staged_ok_def by simp

lemma staged_ok_same: "staged_ok sv \<Longrightarrow> sv_calls sv' = sv_calls sv \<Longrightarrow> staged_ok sv'"
  unfolding staged_ok_def by simp

lemma commit_store_ok:
  assumes "store_ok (sv_store sv)" "staged_ok sv"
  shows "store_ok (sv_store (snd (complete_commit cid now sv)))"
proof (cases "dget (sv_calls sv) cid")
  case (Some c)
  note call = Some
  show ?thesis
  proof (cases "ac_staged c")
    case (Some q)
    obtain turn owner mid row where q: "q = (turn, owner, mid, row)" by (cases q)
    have row: "0 \<le> ms_sequence row" "ms_selected row = None"
      using staged_okD [OF assms(2) call] by (simp_all add: staged_row_ok_def Some q)
    have "store_ok (put_turn k ((close_turn Turn_done now r)\<lparr>ct_assistant := Some mid\<rparr>) st)"
      if found: "find_turn cid turn (sv_store sv) = Some (k, r)"
        and ins: "bind_res (touch_thread tid t (sv_store sv)) (insert_message mid row) = Inr st" for k r st tid t
    proof -
      obtain st1 where st1: "touch_thread tid t (sv_store sv) = Inr st1" "insert_message mid row st1 = Inr st"
        using ins by (auto simp: bind_res_Inr_iff)
      have ok: "store_ok st" by (rule insert_message_ok [OF touch_thread_ok [OF assms(1) st1(1)] st1(2) row])
      have "st_turns st = st_turns (sv_store sv)"
        using touch_thread_views(3) [OF st1(1)] insert_message_cases(1) [OF st1(2)] by simp
      then have "dget (st_turns st) k = Some r" using find_turn_Some(1) [OF assms(1) found] by simp
      then show ?thesis by (rule put_turn_ok [OF ok]) (simp add: same_turn_def close_turn_def)
    qed
    then show ?thesis
      using assms(1) call Some q
      by (simp add: complete_commit_def Let_def split_beta split: option.split sum.split)
  qed (use call assms(1) in \<open>simp add: complete_commit_def\<close>)
qed (simp add: complete_commit_def assms)

lemma op_store_ok:
  assumes "store_ok (sv_store sv)" "staged_ok sv"
  shows "store_ok (sv_store (serve a sv))"
proof -
  note ok = assms(1)
  have table: "(\<And>st. f (sv_store sv) = Inr st \<Longrightarrow> store_ok st) \<Longrightarrow> store_ok (sv_store (on_store f sv))" for f
    by (rule on_store_ok [OF ok])
  have generated: "regenerate_end x y z w (sv_store sv) = Inr st \<Longrightarrow> store_ok st"
    "swipe_end x y z w (sv_store sv) = Inr st \<Longrightarrow> store_ok st"
    "continue_end x y z v w (sv_store sv) = Inr st \<Longrightarrow> store_ok st" for x y z v w st
    unfolding regenerate_end_def swipe_end_def continue_end_def
    by (erule replace_selected_ok [OF ok] add_selected_ok [OF ok])+
  note actions = generated create_thread_ok [OF ok] rename_ok [OF ok] delete_thread_ok [OF ok] append_message_ok [OF ok]
    select_alternate_ok [OF ok] edit_message_ok [OF ok]
    truncate_ok [OF ok] keep_ok [OF ok]
  note calls = put_character_ok [OF ok] put_voice_ok [OF ok] start_call_ok [OF ok] record_event_ok [OF ok]
    reserve_store_ok [OF ok] status_store_ok [OF ok] reconcile_store_ok [OF ok] user_speech_ok [OF ok]
    commit_store_ok [OF assms] finish_store_ok [OF ok] end_write_ok [OF ok] ok
  show ?thesis
    by (cases a; simp add: ok calls; rule table; erule actions)
qed

end
