(* ===== verification/CallLaws.thy ===== *)
theory CallLaws
  imports ChatLaws
begin

text \<open>
  The turns of calls: what the rows say of each other and of the messages, and how the memory of the
  server mirrors them. Every operation of the web server keeps this invariant; the reachable states
  and the protocol of a turn's row follow from it.
\<close>

section \<open>Rows by call and turn\<close>

lemma find_turn_iff:
  assumes "store_ok st"
  shows "find_turn c t st = Some (k, r) \<longleftrightarrow> dget (st_turns st) k = Some r \<and> ct_call r = c \<and> ct_turn r = t"
proof
  assume r: "dget (st_turns st) k = Some r \<and> ct_call r = c \<and> ct_turn r = t"
  then have "(k, r) \<in> set (st_turns st)" by (auto dest: map_of_SomeD)
  then have "find_turn c t st \<noteq> None" using r by (auto simp: find_turn_def find_None_iff)
  then obtain k' r' where q: "find_turn c t st = Some (k', r')" by auto
  have "turn_key st k = Some (c, t)" "turn_key st k' = Some (c, t)"
    using r find_turn_Some [OF assms q] by (simp_all add: turn_key_def)
  then have "k' = k" using assms uniquelyD [of "turn_key st" k' "(c, t)" k] by (simp add: store_ok_def unique_ok_def)
  then show "find_turn c t st = Some (k, r)" using q r find_turn_Some(1) [OF assms q] by simp
qed (use find_turn_Some [OF assms] in blast)

lemma find_turn_eqI:
  assumes "\<And>k r. find_turn c t st = Some (k, r) \<longleftrightarrow> find_turn c' t' st' = Some (k, r)"
  shows "find_turn c t st = find_turn c' t' st'"
  using assms by (cases "find_turn c t st"; cases "find_turn c' t' st'") auto

lemma find_turn_put:
  assumes "store_ok st" "dget (st_turns st) k = Some r" "same_turn r q"
  shows "find_turn c t (put_turn k q st) = (if c = ct_call r \<and> t = ct_turn r then Some (k, q) else find_turn c t st)"
proof -
  note ok = put_turn_ok [OF assms]
  have d: "dget (st_turns (put_turn k q st)) j = (if j = k then Some q else dget (st_turns st) j)" for j
    by (simp add: put_turn_def)
  have q: "ct_call q = ct_call r" "ct_turn q = ct_turn r" using assms(3) by (simp_all add: same_turn_def)
  show ?thesis
  proof (cases "c = ct_call r \<and> t = ct_turn r")
    case True
    then show ?thesis using find_turn_iff [OF ok, of c t k q] d [of k] q by simp
  next
    case False
    have "find_turn c t (put_turn k q st) = find_turn c t st"
    proof (rule find_turn_eqI)
      fix j p
      show "find_turn c t (put_turn k q st) = Some (j, p) \<longleftrightarrow> find_turn c t st = Some (j, p)"
        using False assms(2) q by (auto simp: find_turn_iff [OF ok] find_turn_iff [OF assms(1)] d split: if_splits)
    qed
    then show ?thesis using False by (simp add: if_not_P)
  qed
qed

lemma find_turn_insert:
  assumes "store_ok st" "insert_turn k q st = Inr st'"
  shows "find_turn c t st' = (if c = ct_call q \<and> t = ct_turn q then Some (k, q) else find_turn c t st)"
proof -
  note ins = insert_turn_ok [OF assms]
  have d: "dget (st_turns st') j = (if j = k then Some q else dget (st_turns st) j)" for j
    by (simp add: ins(2))
  show ?thesis
  proof (cases "c = ct_call q \<and> t = ct_turn q")
    case True
    then show ?thesis using find_turn_iff [OF ins(1), of c t k q] d [of k] by simp
  next
    case False
    have "find_turn c t st' = find_turn c t st"
    proof (rule find_turn_eqI)
      fix j p
      show "find_turn c t st' = Some (j, p) \<longleftrightarrow> find_turn c t st = Some (j, p)"
        using False ins(3) by (auto simp: find_turn_iff [OF ins(1)] find_turn_iff [OF assms(1)] d split: if_splits)
    qed
    then show ?thesis using False by (simp add: if_not_P)
  qed
qed

lemma find_turn_map:
  assumes "\<And>r. same_turn r (f r)"
  shows "find_turn c t (st\<lparr>st_turns := dmap f (st_turns st)\<rparr>) = map_option (\<lambda>(k, r). (k, f r)) (find_turn c t st)"
proof -
  have "find (\<lambda>(k, r). ct_call r = c \<and> ct_turn r = t) (dmap f d)
      = map_option (\<lambda>(k, r). (k, f r)) (find (\<lambda>(k, r). ct_call r = c \<and> ct_turn r = t) d)" for d :: "(string, turn_row) dict"
    using assms by (induction d) (auto simp: dmap_def same_turn_def)
  then show ?thesis by (simp add: find_turn_def)
qed

lemma find_turn_turns: "st_turns st' = st_turns st \<Longrightarrow> find_turn c t st' = find_turn c t st"
  by (simp add: find_turn_def)

lemma find_turn_filter:
  assumes "store_ok st" "store_ok st'" "st_turns st' = dfilter p (st_turns st)"
  shows "find_turn c t st' = Some (k, r) \<longleftrightarrow> find_turn c t st = Some (k, r) \<and> p k r"
  using assms(1) by (auto simp: find_turn_iff [OF assms(1)] find_turn_iff [OF assms(2)] assms(3) dget_dfilter
      store_ok_def keys_ok_def split: option.split_asm if_split_asm)

section \<open>Changes that leave turns alone\<close>

definition quiet :: "store \<Rightarrow> store \<Rightarrow> bool" where
  "quiet st st' \<longleftrightarrow> st_turns st' = st_turns st
     \<and> (\<forall>k. case said_in st' k of None \<Rightarrow> True | Some x \<Rightarrow> said_in st k = Some x \<and> msg_thread st' k = msg_thread st k)"

lemma quietI:
  assumes "st_turns st' = st_turns st"
    and "\<And>k x. said_in st' k = Some x \<Longrightarrow> said_in st k = Some x \<and> msg_thread st' k = msg_thread st k"
  shows "quiet st st'"
  using assms by (simp add: quiet_def split: option.split)

lemma quietD:
  assumes "quiet st st'"
  shows "st_turns st' = st_turns st"
    and "said_in st' k = Some x \<Longrightarrow> said_in st k = Some x \<and> msg_thread st' k = msg_thread st k"
  using assms spec [of "\<lambda>k. case said_in st' k of None \<Rightarrow> True
    | Some x \<Rightarrow> said_in st k = Some x \<and> msg_thread st' k = msg_thread st k" k]
  by (simp_all add: quiet_def)

lemma quiet_refl [simp]: "quiet st st"
  by (rule quietI) simp_all

lemma quiet_trans: "quiet st st1 \<Longrightarrow> quiet st1 st2 \<Longrightarrow> quiet st st2"
  by (rule quietI) (simp add: quietD(1), use quietD(2) [of st st1] quietD(2) [of st1 st2] in simp)

lemma quiet_rows:
  assumes "st_turns st' = st_turns st" "\<And>k. said_in st' k = said_in st k" "\<And>k. msg_thread st' k = msg_thread st k"
  shows "quiet st st'"
  by (rule quietI) (simp_all add: assms)

lemma touch_quiet: "touch_thread tid now st = Inr st' \<Longrightarrow> quiet st st'"
  by (rule quiet_rows) (simp_all add: view_defs touch_thread_views)

lemma insert_message_quiet:
  assumes "insert_message mid m st = Inr st'" "row_turn m = None"
  shows "quiet st st'"
  by (rule quietI) (use assms(2) in \<open>auto simp: insert_message_cases(1) [OF assms(1)] view_defs split: if_split_asm\<close>)

lemma update_message_quiet:
  assumes "\<And>m. same_place m (f m)"
  shows "quiet st (update_message mid f st)"
  by (rule quiet_rows; cases "dget (st_messages st) mid")
    (use assms in \<open>auto simp: update_message_def view_defs same_place_def\<close>)

lemma delete_messages_quiet: "store_ok st \<Longrightarrow> quiet st (delete_messages ids st)"
  by (rule quietI) (simp add: delete_messages_def, simp add: delete_messages_views split: if_split_asm)

lemma append_quiet:
  assumes "append_message mid tid kind role body now st = Inr st'"
  shows "quiet st st'"
proof -
  obtain st1 where st1: "touch_thread tid now st = Inr st1"
    "insert_message mid (staged_message tid kind role body None None now st) st1 = Inr st'"
    using assms by (auto simp: append_message_def bind_res_Inr_iff)
  show ?thesis
    by (rule quiet_trans [OF touch_quiet [OF st1(1)] insert_message_quiet [OF st1(2)]])
      (simp add: staged_message_def row_turn_def)
qed

lemma same_place_updates [simp]:
  "same_place m (m\<lparr>ms_stale := b\<rparr>)" "same_place m (m\<lparr>ms_selected := a, ms_updated := t\<rparr>)"
  "same_place m (m\<lparr>ms_stale := b, ms_updated := t\<rparr>)" "same_place m (m\<lparr>ms_content := x, ms_updated := t\<rparr>)"
  "same_place m (m\<lparr>ms_content := x, ms_selected := a, ms_stale := b, ms_updated := t\<rparr>)" "same_place m m"
  by (simp_all add: same_place_def row_turn_def)

lemma new_alternate_quiet:
  assumes "store_ok st" "new_alternate aid mid body action now st = Inr st1"
  shows "quiet st st1"
  by (rule quiet_rows) (use new_alternate_ok(2,3) [OF assms] in \<open>simp_all add: view_defs\<close>)

lemma replace_quiet:
  assumes "store_ok st" "replace_selected_ai_response aid mid body action now st = Inr st'"
  shows "quiet st st'"
proof -
  obtain st1 tid where c: "new_alternate aid mid body action now st = Inr st1"
    "touch_thread tid now
       (update_message mid (\<lambda>n. n\<lparr>ms_content := Some body, ms_selected := Some aid, ms_stale := False,
          ms_updated := now\<rparr>) st1) = Inr st'"
    using assms(2) by (auto simp: replace_selected_ai_response_def bind_res_Inr_iff)
  show ?thesis
    by (rule quiet_trans [OF new_alternate_quiet [OF assms(1) c(1)]
          quiet_trans [OF update_message_quiet touch_quiet [OF c(2)]]]) simp
qed

lemma add_quiet:
  assumes "store_ok st" "add_selected_alternate aid mid body action now st = Inr st'"
  shows "quiet st st'"
proof -
  obtain st1 tid where c: "new_alternate aid mid body action now st = Inr st1"
    "touch_thread tid now (update_message mid (\<lambda>n. n\<lparr>ms_selected := Some aid, ms_updated := now\<rparr>) st1) = Inr st'"
    using assms(2) by (auto simp: add_selected_alternate_def bind_res_Inr_iff)
  show ?thesis
    by (rule quiet_trans [OF new_alternate_quiet [OF assms(1) c(1)]
          quiet_trans [OF update_message_quiet touch_quiet [OF c(2)]]]) simp
qed

lemma select_quiet:
  assumes "select_alternate mid aid now st = Inr st'"
  shows "quiet st st'"
proof -
  obtain tid where c: "touch_thread tid now
      (update_message mid (\<lambda>n. n\<lparr>ms_selected := Some aid, ms_updated := now\<rparr>) st) = Inr st'"
    using assms by (auto simp: select_alternate_def bind_res_Inr_iff split: option.split_asm)
  show ?thesis by (rule quiet_trans [OF update_message_quiet touch_quiet [OF c]]) simp
qed

lemma edit_selected_quiet: "store_ok st \<Longrightarrow> quiet st (edit_selected mid m body now st)"
  by (rule quiet_rows) (use edit_selected_ok [of st] in \<open>simp_all add: view_defs\<close>)

lemma map_messages_quiet: "(\<And>m. same_place m (f m)) \<Longrightarrow> quiet st (st\<lparr>st_messages := dmap f (st_messages st)\<rparr>)"
  by (rule quiet_rows) (simp_all add: view_defs same_place_def option.map_comp comp_def bind_map_option)

lemma mark_later_quiet: "quiet st (mark_later_stale m now st)"
  unfolding mark_later_stale_def by (rule map_messages_quiet) simp

lemma edit_quiet:
  assumes "store_ok st" "edit_message mid body now st = Inr st'"
  shows "quiet st st'"
  using assms(2)
proof (rule edit_message_Inr)
  fix m
  assume m: "dget (st_messages st) mid = Some m"
  let ?st0 = "update_message mid (\<lambda>n. n\<lparr>ms_content := Some body, ms_updated := now\<rparr>) st"
  let ?st1 = "edit_selected mid m body now ?st0"
  let ?st2 = "if ms_role m = ''user''
    then mark_later_stale m now (update_message mid (\<lambda>n. n\<lparr>ms_stale := False\<rparr>) ?st1) else ?st1"
  assume t: "touch_thread (ms_thread m) now
       (let st1 = ?st1 in if ms_role m = ''user''
        then mark_later_stale m now (update_message mid (\<lambda>n. n\<lparr>ms_stale := False\<rparr>) st1) else st1) = Inr st'"
  have ok0: "store_ok ?st0" by (rule update_message_ok [OF assms(1) m]) (simp_all add: same_place_def)
  have "quiet st ?st1" by (rule quiet_trans [OF update_message_quiet edit_selected_quiet [OF ok0]]) simp
  moreover have "quiet ?st1 (mark_later_stale m now (update_message mid (\<lambda>n. n\<lparr>ms_stale := False\<rparr>) ?st1))"
    by (rule quiet_trans [OF update_message_quiet mark_later_quiet]) simp
  ultimately have "quiet st ?st2" using quiet_trans by simp
  moreover have "quiet ?st2 st'" by (rule touch_quiet) (use t in \<open>simp add: Let_def\<close>)
  ultimately show "quiet st st'" by (rule quiet_trans)
qed

lemma truncate_quiet: "store_ok st \<Longrightarrow> truncate_stale_after mid now st = Inr st' \<Longrightarrow> quiet st st'"
  by (elim truncate_Inr) (rule quiet_trans [OF delete_messages_quiet touch_quiet])

lemma keep_quiet: "keep_stale_after mid now st = Inr st' \<Longrightarrow> quiet st st'"
  by (auto simp: keep_stale_after_def bind_res_Inr_iff intro: touch_quiet)

lemma rename_quiet: "rename_thread tid title now st = Inr st' \<Longrightarrow> quiet st st'"
  by (rule quiet_rows) (auto simp: rename_thread_def view_defs split: option.split_asm if_split_asm)

lemma create_thread_quiet:
  assumes "create_thread tid mid aid cid title greeting now st = Inr st'"
  shows "quiet st st'"
proof -
  obtain t m st1 st2 a where x: "insert_thread tid t st = Inr st1" "insert_message mid m st1 = Inr st2"
    "row_turn m = None" "insert_alternate aid a st2 = Inr st'"
    using assms by (auto simp: create_thread_def bind_res_Inr_iff split_beta row_turn_def)
  have "quiet st st1" by (rule quiet_rows) (use x(1) in \<open>auto simp: insert_thread_def view_defs split: if_split_asm\<close>)
  moreover have "quiet st1 st2" by (rule insert_message_quiet [OF x(2,3)])
  moreover have "quiet st2 st'"
    by (rule quiet_rows) (use x(4) in \<open>auto simp: insert_alternate_def view_defs split: if_split_asm\<close>)
  ultimately show ?thesis by (blast intro: quiet_trans)
qed

section \<open>The rows of turns\<close>

text \<open>
  A turn has the user's message from the moment it runs, the assistant's exactly when it is done, and
  an owner exactly while it is open. A message that was said in a turn is the assistant's message of
  the row of that turn.
\<close>

definition turn_ok :: "turn_row \<Rightarrow> bool" where
  "turn_ok r \<longleftrightarrow> (ct_state r = Turn_done \<longleftrightarrow> ct_assistant r \<noteq> None)
     \<and> (ct_state r = Turn_reserved \<longrightarrow> ct_user r = None)
     \<and> (ct_state r = Turn_running \<or> ct_state r = Turn_done \<longrightarrow> ct_user r \<noteq> None)
     \<and> (open_turn (ct_state r) \<longleftrightarrow> ct_owner r \<noteq> None)
     \<and> (open_turn (ct_state r) \<longleftrightarrow> ct_lease r \<noteq> None)"

definition turns_ok :: "store \<Rightarrow> bool" where
  "turns_ok st \<longleftrightarrow> list_all (turn_ok \<circ> snd) (st_turns st)"

definition answers :: "string \<Rightarrow> string \<Rightarrow> string \<Rightarrow> store \<Rightarrow> bool" where
  "answers m c t st = (case find_turn c t st of
       None \<Rightarrow> False | Some (k, r) \<Rightarrow> ct_assistant r = Some m \<and> msg_thread st m = Some (ct_thread r))"

definition spoken_ok :: "store \<Rightarrow> bool" where
  "spoken_ok st \<longleftrightarrow> (\<forall>m c t. said_in st m = Some (c, t) \<longrightarrow> answers m c t st)"

lemma turns_ok_get: "turns_ok st \<Longrightarrow> dget (st_turns st) k = Some r \<Longrightarrow> turn_ok r"
  unfolding turns_ok_def by (rule list_all_dget)

lemma turns_ok_put: "turns_ok st \<Longrightarrow> turn_ok q \<Longrightarrow> turns_ok (put_turn k q st)"
  unfolding turns_ok_def put_turn_def by (simp add: list_all_dset)

lemma turn_ok_close: "turn_ok r \<Longrightarrow> open_turn (ct_state r) \<Longrightarrow> \<not> open_turn s \<Longrightarrow> s \<noteq> Turn_done \<Longrightarrow> turn_ok (close_turn s now r)"
  by (cases s) (auto simp: turn_ok_def close_turn_def open_turn_def)

lemma spoken_okI: "(\<And>m c t. said_in st m = Some (c, t) \<Longrightarrow> answers m c t st) \<Longrightarrow> spoken_ok st"
  unfolding spoken_ok_def by blast

lemma spoken_okD: "spoken_ok st \<Longrightarrow> said_in st m = Some (c, t) \<Longrightarrow> answers m c t st"
  unfolding spoken_ok_def by blast

lemma spoken_quiet:
  assumes "spoken_ok st" "quiet st st'"
  shows "spoken_ok st'"
proof (rule spoken_okI)
  fix m c t assume "said_in st' m = Some (c, t)"
  with quietD(2) [OF assms(2)] have "said_in st m = Some (c, t)" "msg_thread st' m = msg_thread st m" by auto
  moreover have "find_turn c t st' = find_turn c t st" by (rule find_turn_turns [OF quietD(1) [OF assms(2)]])
  ultimately show "answers m c t st'" using spoken_okD [OF assms(1), of m c t] by (auto simp: answers_def split: option.splits)
qed

lemma spoken_put:
  assumes "store_ok st" "spoken_ok st" "dget (st_turns st) k = Some r" "same_turn r q" "ct_assistant q = ct_assistant r"
  shows "spoken_ok (put_turn k q st)"
proof (rule spoken_okI)
  fix m c t assume "said_in (put_turn k q st) m = Some (c, t)"
  then have "answers m c t st" using spoken_okD [OF assms(2)] by (simp add: said_in_def put_turn_def)
  then obtain j p where p: "find_turn c t st = Some (j, p)" "ct_assistant p = Some m" "msg_thread st m = Some (ct_thread p)"
    by (auto simp: answers_def split: option.split_asm)
  have m: "msg_thread (put_turn k q st) m = msg_thread st m" by (simp add: msg_thread_def put_turn_def)
  show "answers m c t (put_turn k q st)"
  proof (cases "c = ct_call r \<and> t = ct_turn r")
    case True
    then have "p = r" using p(1) assms(3) find_turn_iff [OF assms(1), of c t k r] by simp
    then show ?thesis
      using True p(2,3) m assms(4,5) find_turn_put [OF assms(1,3,4), of c t] by (simp add: answers_def same_turn_def)
  next
    case False
    then have "find_turn c t (put_turn k q st) = find_turn c t st" using find_turn_put [OF assms(1,3,4), of c t] by (simp add: if_not_P)
    then show ?thesis using p m by (simp add: answers_def)
  qed
qed

lemma spoken_insert:
  assumes "store_ok st" "spoken_ok st" "insert_turn k q st = Inr st'"
  shows "spoken_ok st'"
proof (rule spoken_okI)
  note ins = insert_turn_ok [OF assms(1,3)]
  fix m c t assume "said_in st' m = Some (c, t)"
  then have "answers m c t st" using spoken_okD [OF assms(2)] by (simp add: said_in_def ins(2))
  moreover have "find_turn c t st = Some (j, r) \<Longrightarrow> j \<noteq> k" for j r
    using find_turn_iff [OF assms(1), of c t j r] ins(3) by auto
  moreover have "find_turn c t st = Some (j, r) \<Longrightarrow> find_turn c t st' = Some (j, r)" for j r
    unfolding find_turn_iff [OF assms(1)] find_turn_iff [OF ins(1)] using ins(3) by (auto simp: ins(2))
  ultimately show "answers m c t st'"
    by (auto simp: answers_def msg_thread_def split: option.split_asm) (simp_all add: ins(2))
qed

lemma spoken_delete_thread:
  assumes "store_ok st" "spoken_ok st" "delete_thread tid st = Inr st'"
  shows "spoken_ok st'"
proof (rule spoken_okI)
  fix m c t assume said: "said_in st' m = Some (c, t)"
  note st' = delete_thread_Inr [OF assms(1,3)]
  have ok': "store_ok st'" by (rule delete_thread_ok [OF assms(1,3)])
  have st'_views: "said_in st' m = said_in (delete_messages (set (map fst (thread_messages tid st))) st) m"
    "msg_thread st' m = msg_thread (delete_messages (set (map fst (thread_messages tid st))) st) m"
    by (simp_all add: st' view_defs)
  have keep: "m \<notin> set (map fst (thread_messages tid st))" and said0: "said_in st m = Some (c, t)"
    using said by (simp_all add: st'_views delete_messages_views [OF assms(1)] split: if_split_asm)
  have m: "msg_thread st' m = msg_thread st m"
    using keep by (simp add: st'_views delete_messages_views [OF assms(1)])
  have "answers m c t st" by (rule spoken_okD [OF assms(2) said0])
  then obtain k r where r: "find_turn c t st = Some (k, r)" "ct_assistant r = Some m" "msg_thread st m = Some (ct_thread r)"
    by (auto simp: answers_def split: option.split_asm)
  have "ct_thread r \<noteq> tid"
    using keep r(3) assms(1) dfilter_keys [of "st_messages st" m "\<lambda>_ n. ms_thread n = tid"]
    by (auto simp: thread_messages_def msg_thread_def store_ok_def keys_ok_def)
  then have "find_turn c t st' = Some (k, r)"
    using find_turn_filter [OF assms(1) ok', of "\<lambda>_ r. ct_thread r \<noteq> tid" c t k r] r(1) by (simp add: st')
  then show "answers m c t st'" using r m by (simp add: answers_def)
qed

text \<open>What an operation may leave: a store that is consistent in all these ways.\<close>

definition data_ok :: "store \<Rightarrow> bool" where
  "data_ok st \<longleftrightarrow> store_ok st \<and> turns_ok st \<and> spoken_ok st"

lemma data_okD: "data_ok st \<Longrightarrow> store_ok st" "data_ok st \<Longrightarrow> turns_ok st" "data_ok st \<Longrightarrow> spoken_ok st"
  by (simp_all add: data_ok_def)

lemma data_quiet: "data_ok st \<Longrightarrow> quiet st st' \<Longrightarrow> store_ok st' \<Longrightarrow> data_ok st'"
  using spoken_quiet [of st st'] quietD(1) [of st st'] by (simp add: data_ok_def turns_ok_def)

lemma data_put:
  assumes "data_ok st" "dget (st_turns st) k = Some r" "same_turn r q" "ct_assistant q = ct_assistant r" "turn_ok q"
  shows "data_ok (put_turn k q st)"
  using assms put_turn_ok [of st k r q] turns_ok_put [of st q k] spoken_put [of st k r q] by (simp add: data_ok_def)

lemma data_close:
  assumes "data_ok st" "dget (st_turns st) k = Some r" "open_turn (ct_state r)" "\<not> open_turn s" "s \<noteq> Turn_done"
  shows "data_ok (put_turn k (close_turn s now r) st)"
proof (rule data_put [OF assms(1,2) close_turn_same])
  show "turn_ok (close_turn s now r)"
    by (rule turn_ok_close [OF turns_ok_get [OF data_okD(2) [OF assms(1)] assms(2)] assms(3-5)])
qed (simp add: close_turn_def)

section \<open>The memory of a call mirrors the rows\<close>

text \<open>
  For a turn that has an owner in memory, the state in memory is the state of the row, and an open row
  has the same owner.
\<close>

primrec mem_agrees :: "string option \<Rightarrow> turn_status option \<Rightarrow> turn_row \<Rightarrow> bool" where
  "mem_agrees None s r = True"
| "mem_agrees (Some w) s r = (s = Some (ct_state r) \<and> (open_turn (ct_state r) \<longrightarrow> ct_owner r = Some w))"

definition turn_agrees :: "string \<Rightarrow> string \<Rightarrow> active_call \<Rightarrow> store \<Rightarrow> bool" where
  "turn_agrees cid t c st = (case find_turn cid t st of
       None \<Rightarrow> True
     | Some (k, r) \<Rightarrow> ct_thread r = ac_thread c \<and> mem_agrees (dget (ac_owners c) t) (dget (ac_states c) t) r)"

definition call_agrees :: "string \<Rightarrow> active_call \<Rightarrow> store \<Rightarrow> bool" where
  "call_agrees cid c st \<longleftrightarrow> (\<forall>t. turn_agrees cid t c st)"

definition calls_agree :: "server \<Rightarrow> bool" where
  "calls_agree sv \<longleftrightarrow>
     (\<forall>cid. case dget (sv_calls sv) cid of None \<Rightarrow> True | Some c \<Rightarrow> call_agrees cid c (sv_store sv))"

lemma calls_agreeD: "calls_agree sv \<Longrightarrow> dget (sv_calls sv) cid = Some c \<Longrightarrow> call_agrees cid c (sv_store sv)"
  using spec [of "\<lambda>cid. case dget (sv_calls sv) cid of None \<Rightarrow> True | Some c \<Rightarrow> call_agrees cid c (sv_store sv)" cid]
  by (simp add: calls_agree_def)

text \<open>The part of the memory that matters for one turn, and a change that keeps it or drops its owner.\<close>

definition mem_keeps :: "active_call \<Rightarrow> active_call \<Rightarrow> string \<Rightarrow> bool" where
  "mem_keeps c c' t \<longleftrightarrow> ac_thread c' = ac_thread c
     \<and> (dget (ac_owners c') t = None
        \<or> dget (ac_owners c') t = dget (ac_owners c) t \<and> dget (ac_states c') t = dget (ac_states c) t)"

lemma mem_keeps_refl [simp]: "mem_keeps c c t"
  by (simp add: mem_keeps_def)

lemma mem_keeps_agrees: "mem_keeps c c' t \<Longrightarrow> turn_agrees cid t c st \<Longrightarrow> turn_agrees cid t c' st"
  by (auto simp: mem_keeps_def turn_agrees_def split: option.splits)

lemma call_agrees_keep: "call_agrees cid c st \<Longrightarrow> (\<And>t. mem_keeps c c' t) \<Longrightarrow> call_agrees cid c' st"
  unfolding call_agrees_def using mem_keeps_agrees by blast

lemma call_agrees_turns: "(\<And>t. find_turn cid t st' = find_turn cid t st) \<Longrightarrow> call_agrees cid c st' = call_agrees cid c st"
  by (simp add: call_agrees_def turn_agrees_def)

lemma calls_agree_put:
  assumes "calls_agree sv" "sv_calls sv' = dset cid c (sv_calls sv)" "call_agrees cid c (sv_store sv')"
    and "\<And>x t. x \<noteq> cid \<Longrightarrow> find_turn x t (sv_store sv') = find_turn x t (sv_store sv)"
  shows "calls_agree sv'"
  unfolding calls_agree_def
proof
  fix x
  show "case dget (sv_calls sv') x of None \<Rightarrow> True | Some c \<Rightarrow> call_agrees x c (sv_store sv')"
  proof (cases "x = cid")
    case False
    then have same: "call_agrees x d (sv_store sv') = call_agrees x d (sv_store sv)" for d
      by (intro call_agrees_turns assms(4))
    from False have "dget (sv_calls sv') x = dget (sv_calls sv) x" by (simp add: assms(2))
    then show ?thesis using calls_agreeD [OF assms(1), of x] by (auto simp: same split: option.split)
  qed (simp add: assms(2,3))
qed

lemma calls_agree_turns:
  assumes "calls_agree sv" "sv_calls sv' = sv_calls sv"
    and "\<And>x t. find_turn x t (sv_store sv') = find_turn x t (sv_store sv) \<or> find_turn x t (sv_store sv') = None"
  shows "calls_agree sv'"
proof -
  have "call_agrees x c (sv_store sv')" if "call_agrees x c (sv_store sv)" for x c
    unfolding call_agrees_def
  proof
    fix t
    have "turn_agrees x t c (sv_store sv)" using that by (simp add: call_agrees_def)
    then show "turn_agrees x t c (sv_store sv')" using assms(3) [of x t] by (auto simp: turn_agrees_def)
  qed
  then show ?thesis using calls_agreeD [OF assms(1)] by (simp add: calls_agree_def assms(2) split: option.split)
qed

text \<open>A row of the call changes together with the memory of its turn.\<close>

lemma call_agrees_row:
  assumes "store_ok st" "call_agrees cid c st" "find_turn cid t st = Some (k, r)" "same_turn r q"
    and "mem_agrees (dget (ac_owners c') t) (dget (ac_states c') t) q"
    and "ac_thread c' = ac_thread c" "\<And>u. u \<noteq> t \<Longrightarrow> mem_keeps c c' u"
  shows "call_agrees cid c' (put_turn k q st)"
  unfolding call_agrees_def
proof
  fix u
  have r: "dget (st_turns st) k = Some r" "ct_call r = cid" "ct_turn r = t"
    using assms(3) by (simp_all add: find_turn_iff [OF assms(1)])
  have old: "turn_agrees cid v c st" for v using assms(2) by (simp add: call_agrees_def)
  show "turn_agrees cid u c' (put_turn k q st)"
  proof (cases "u = t")
    case True
    then show ?thesis
      using assms(3-6) old [of t] r(2,3) find_turn_put [OF assms(1) r(1) assms(4), of cid t]
      by (simp add: turn_agrees_def same_turn_def)
  next
    case False
    then have "find_turn cid u (put_turn k q st) = find_turn cid u st"
      using find_turn_put [OF assms(1) r(1) assms(4), of cid u] r(3) by simp
    then show ?thesis using mem_keeps_agrees [OF assms(7) [OF False] old] by (simp add: turn_agrees_def)
  qed
qed

text \<open>The invariant of the server.\<close>

definition server_ok :: "server \<Rightarrow> bool" where
  "server_ok sv \<longleftrightarrow> data_ok (sv_store sv) \<and> staged_ok sv \<and> calls_agree sv"

lemma server_okD:
  "server_ok sv \<Longrightarrow> data_ok (sv_store sv)" "server_ok sv \<Longrightarrow> staged_ok sv" "server_ok sv \<Longrightarrow> calls_agree sv"
  "server_ok sv \<Longrightarrow> store_ok (sv_store sv)"
  by (simp_all add: server_ok_def data_ok_def)

lemma server_ok_put:
  assumes "server_ok sv" "data_ok st" "staged_row_ok cid c" "call_agrees cid c st"
    and "\<And>x t. x \<noteq> cid \<Longrightarrow> find_turn x t st = find_turn x t (sv_store sv)"
  shows "server_ok (put_call cid c (sv\<lparr>sv_store := st\<rparr>))"
proof -
  have "staged_ok (put_call cid c (sv\<lparr>sv_store := st\<rparr>))"
    by (rule staged_ok_put [OF server_okD(2) [OF assms(1)] _ assms(3)]) simp
  moreover have "calls_agree (put_call cid c (sv\<lparr>sv_store := st\<rparr>))"
    by (rule calls_agree_put [OF server_okD(3) [OF assms(1)], of _ cid c]) (simp_all add: assms(4,5))
  ultimately show ?thesis using assms(2) by (simp add: server_ok_def)
qed

text \<open>Changes of the memory of one call alone, and of the store alone.\<close>

lemma server_ok_memory:
  assumes "server_ok sv" "dget (sv_calls sv) cid = Some c" "staged_row_ok cid c'" "\<And>t. mem_keeps c c' t"
  shows "server_ok (put_call cid c' sv)"
proof -
  have "call_agrees cid c' (sv_store sv)"
    by (rule call_agrees_keep [OF calls_agreeD [OF server_okD(3) [OF assms(1)] assms(2)] assms(4)])
  then have "server_ok (put_call cid c' (sv\<lparr>sv_store := sv_store sv\<rparr>))"
    by (intro server_ok_put [OF assms(1) server_okD(1) [OF assms(1)] assms(3)]) simp_all
  then show ?thesis by simp
qed

lemma server_ok_store:
  assumes "server_ok sv" "data_ok st"
    and "\<And>x t. find_turn x t st = find_turn x t (sv_store sv) \<or> find_turn x t st = None"
  shows "server_ok (sv\<lparr>sv_store := st\<rparr>)"
  using assms(2) staged_ok_same [OF server_okD(2) [OF assms(1)], of "sv\<lparr>sv_store := st\<rparr>"]
    calls_agree_turns [OF server_okD(3) [OF assms(1)], of "sv\<lparr>sv_store := st\<rparr>"] assms(3)
  by (simp add: server_ok_def)

lemma server_ok_quiet:
  assumes "server_ok sv" "quiet (sv_store sv) st" "store_ok st"
  shows "server_ok (sv\<lparr>sv_store := st\<rparr>)"
  by (rule server_ok_store [OF assms(1) data_quiet [OF server_okD(1) [OF assms(1)] assms(2,3)]])
    (simp add: find_turn_turns [OF quietD(1) [OF assms(2)]])

end
