(* ===== verification/CallSteps.thy ===== *)
theory CallSteps
  imports CallLaws
begin

text \<open>
  Every operation of the web server keeps the invariant of its calls and turns, the interpretation of
  the machine of the server, and what follows for the reachable states.
\<close>

section \<open>Rows that are closed or inserted\<close>

lemma staged_row_same:
  "staged_row_ok cid c \<Longrightarrow> ac_thread c' = ac_thread c \<Longrightarrow> ac_staged c' = ac_staged c \<Longrightarrow> staged_row_ok cid c'"
  by (auto simp: staged_row_ok_def split: option.splits)

lemma calls_agree_absent:
  assumes "calls_agree sv" "dget (sv_calls sv) cid = None" "sv_calls sv' = sv_calls sv"
    and "\<And>x t. x \<noteq> cid \<Longrightarrow> find_turn x t (sv_store sv') = find_turn x t (sv_store sv)"
  shows "calls_agree sv'"
  unfolding calls_agree_def
proof
  fix x
  show "case dget (sv_calls sv') x of None \<Rightarrow> True | Some c \<Rightarrow> call_agrees x c (sv_store sv')"
  proof (cases "x = cid")
    case False
    then have same: "call_agrees x d (sv_store sv') = call_agrees x d (sv_store sv)" for d
      by (intro call_agrees_turns assms(4))
    show ?thesis using calls_agreeD [OF assms(1), of x] by (simp add: assms(3) same split: option.split)
  qed (simp add: assms(2,3))
qed

lemma call_row: "server_ok sv \<Longrightarrow> find_turn cid t (sv_store sv) = Some (k, r) \<Longrightarrow>
    dget (st_turns (sv_store sv)) k = Some r \<and> ct_call r = cid \<and> ct_turn r = t"
  using find_turn_iff [of "sv_store sv" cid t k r] server_okD(4) by blast

lemma other_row:
  assumes "store_ok st" "find_turn cid t st = Some (k, r)" "same_turn r q" "x \<noteq> cid"
  shows "find_turn x u (put_turn k q st) = find_turn x u st"
  using find_turn_put [OF assms(1) _ assms(3)] find_turn_Some [OF assms(1,2)] assms(4) by simp

lemma dset_same: "dget d k = Some v \<Longrightarrow> dict_ok d \<Longrightarrow> dset k v d = d"
  by (induction d) (auto simp: dset_def dict_ok_def)

text \<open>The row of an open turn is closed, and its owner leaves the memory or the memory has the same state.\<close>

lemma server_ok_close:
  assumes "server_ok sv" "dget (sv_calls sv) cid = Some c" "find_turn cid t (sv_store sv) = Some (k, r)"
    and "open_turn (ct_state r)" "\<not> open_turn s" "s \<noteq> Turn_done" "ac_thread c' = ac_thread c" "ac_staged c' = ac_staged c"
    and "mem_agrees (dget (ac_owners c') t) (dget (ac_states c') t) (close_turn s now r)"
    and "\<And>u. u \<noteq> t \<Longrightarrow> mem_keeps c c' u"
  shows "server_ok (put_call cid c' (sv\<lparr>sv_store := put_turn k (close_turn s now r) (sv_store sv)\<rparr>))"
proof (rule server_ok_put [OF assms(1)])
  note row = call_row [OF assms(1,3)]
  show "data_ok (put_turn k (close_turn s now r) (sv_store sv))"
    by (rule data_close [OF server_okD(1) [OF assms(1)] _ assms(4-6)]) (simp add: row)
  show "staged_row_ok cid c'"
    by (rule staged_row_same [OF staged_okD [OF server_okD(2) [OF assms(1)] assms(2)] assms(7,8)])
  show "call_agrees cid c' (put_turn k (close_turn s now r) (sv_store sv))"
    by (rule call_agrees_row [OF server_okD(4) [OF assms(1)] calls_agreeD [OF server_okD(3) [OF assms(1)] assms(2)] assms(3)
          close_turn_same assms(9,7,10)])
  show "find_turn x u (put_turn k (close_turn s now r) (sv_store sv)) = find_turn x u (sv_store sv)" if "x \<noteq> cid" for x u
    by (rule other_row [OF server_okD(4) [OF assms(1)] assms(3) close_turn_same that])
qed

lemma mem_keeps_sync:
  assumes "call_agrees cid c st" "find_turn cid t st = Some (k, r)"
  shows "mem_keeps c (set_turn_state t (ct_state r) c) u"
proof -
  have "turn_agrees cid t c st" using assms(1) by (simp add: call_agrees_def)
  then show ?thesis
    using assms(2) by (cases "dget (ac_owners c) t") (auto simp: turn_agrees_def mem_keeps_def set_turn_state_def)
qed

lemma terminalize_mem:
  "mem_agrees (dget (ac_owners (drop_owner t (set_turn_state t s c))) t) x q"
  "u \<noteq> t \<Longrightarrow> mem_keeps c (drop_owner t (set_turn_state t s c)) u"
  "mem_agrees (dget (ac_owners (set_turn_state t s' (drop_owner t (set_turn_state t s c)))) t) x q"
  "u \<noteq> t \<Longrightarrow> mem_keeps c (set_turn_state t s' (drop_owner t (set_turn_state t s c))) u"
  by (simp_all add: drop_owner_def set_turn_state_def mem_keeps_def)

lemma stale_open: "turn_is_stale now done r c \<Longrightarrow> open_turn (ct_state r)"
  by (simp add: turn_is_stale_def)

lemma existing_ok:
  assumes "server_ok sv" "dget (sv_calls sv) cid = Some c" "find_turn cid t (sv_store sv) = Some (k, r)"
  shows "server_ok (snd (existing_turn_reservation now done sha cid k r c sv))"
proof -
  have turn: "ct_turn r = t" "ct_turn (close_turn Turn_failed now r) = t"
    using call_row [OF assms(1,3)] by (simp_all add: close_turn_def)
  note agrees = calls_agreeD [OF server_okD(3) [OF assms(1)] assms(2)]
  show ?thesis
  proof (cases "turn_is_stale now done r c")
    case True
    let ?c = "set_turn_state t Turn_failed (drop_owner t (set_turn_state t Turn_failed c))"
    have "server_ok (put_call cid ?c (sv\<lparr>sv_store := put_turn k (close_turn Turn_failed now r) (sv_store sv)\<rparr>))"
      by (rule server_ok_close [OF assms stale_open [OF True] _ _ _ _ terminalize_mem(3) terminalize_mem(4)])
        (simp_all add: open_turn_def drop_owner_def set_turn_state_def)
    moreover have "ct_state (close_turn Turn_failed now r) = Turn_failed" by (simp add: close_turn_def)
    ultimately show ?thesis
      using True by (simp add: existing_turn_reservation_def terminalize_stale_turn_def turn Let_def)
  next
    case False
    have "server_ok (put_call cid (set_turn_state t (ct_state r) c) sv)"
      by (rule server_ok_memory [OF assms(1,2) staged_row_same [OF staged_okD [OF server_okD(2) [OF assms(1)] assms(2)]]
            mem_keeps_sync [OF agrees assms(3)]]) (simp_all add: set_turn_state_def)
    then show ?thesis
      using False by (simp add: existing_turn_reservation_def terminalize_stale_turn_def turn)
  qed
qed

lemma reconcile_turn_server_ok:
  assumes "server_ok sv"
  shows "server_ok (reconcile_turn now done k sv)"
proof (cases "dget (st_turns (sv_store sv)) k")
  case (Some r)
  have row: "find_turn (ct_call r) (ct_turn r) (sv_store sv) = Some (k, r)"
    using Some by (simp add: find_turn_iff [OF server_okD(4) [OF assms]])
  show ?thesis
  proof (cases "open_turn (ct_state r) \<and> lease_over now r")
    case due: True
    show ?thesis
    proof (cases "dget (sv_calls sv) (ct_call r)")
      case None
      have "find_turn x u (put_turn k (close_turn Turn_failed now r) (sv_store sv)) = find_turn x u (sv_store sv)"
        if "x \<noteq> ct_call r" for x u
        by (rule other_row [OF server_okD(4) [OF assms] row close_turn_same that])
      then have "calls_agree (sv\<lparr>sv_store := put_turn k (close_turn Turn_failed now r) (sv_store sv)\<rparr>)"
        by (intro calls_agree_absent [OF server_okD(3) [OF assms] None]) simp_all
      moreover have "data_ok (put_turn k (close_turn Turn_failed now r) (sv_store sv))"
        by (rule data_close [OF server_okD(1) [OF assms] Some]) (use due in \<open>simp_all add: open_turn_def\<close>)
      ultimately show ?thesis
        using Some due None staged_ok_same [OF server_okD(2) [OF assms]]
        by (simp add: reconcile_turn_def server_ok_def)
    next
      case call: (Some c)
      show ?thesis
      proof (cases "turn_is_stale now done r c")
        case True
        let ?t = "ct_turn r"
        have "server_ok (put_call (ct_call r) (drop_owner ?t (set_turn_state ?t Turn_failed c))
            (sv\<lparr>sv_store := put_turn k (close_turn Turn_failed now r) (sv_store sv)\<rparr>))"
          by (rule server_ok_close [OF assms call row stale_open [OF True] _ _ _ _ terminalize_mem(1) terminalize_mem(2)])
            (simp_all add: open_turn_def drop_owner_def set_turn_state_def)
        then show ?thesis
          using Some due call True by (simp add: reconcile_turn_def terminalize_stale_turn_def Let_def)
      next
        case False
        have "server_ok (put_call (ct_call r) c sv)"
          by (rule server_ok_memory [OF assms call]) (simp_all add: staged_okD [OF server_okD(2) [OF assms] call])
        then show ?thesis
          using Some due call False by (simp add: reconcile_turn_def terminalize_stale_turn_def)
      qed
    qed
  qed (use Some assms in \<open>simp add: reconcile_turn_def\<close>)
qed (simp add: reconcile_turn_def assms)

lemma reconcile_server_ok: "server_ok sv \<Longrightarrow> server_ok (reconcile_stale_call_turns now done sv)"
  unfolding reconcile_stale_call_turns_def by (rule fold_keeps [where P = server_ok]) (simp_all add: reconcile_turn_server_ok)

lemma status_server_ok:
  assumes "server_ok sv"
  shows "server_ok (snd (call_turn_status cid turn sha done now sv))"
  using assms existing_ok [OF assms]
  by (auto simp: call_turn_status_def split_beta split: option.split)

section \<open>The life of a turn\<close>

lemma data_insert:
  assumes "data_ok st" "insert_turn k q st = Inr st'" "turn_ok q"
  shows "data_ok st'"
  using assms insert_turn_ok(1,2) [OF data_okD(1) [OF assms(1)] assms(2)] spoken_insert [OF data_okD(1) [OF assms(1)] data_okD(3) [OF assms(1)] assms(2)]
  by (simp add: data_ok_def turns_ok_def list_all_dset)

lemma call_agrees_insert:
  assumes "store_ok st" "call_agrees cid c st" "insert_turn k q st = Inr st'" "ct_call q = cid" "ct_turn q = t"
    and "ct_thread q = ac_thread c" "mem_agrees (dget (ac_owners c') t) (dget (ac_states c') t) q"
    and "ac_thread c' = ac_thread c" "\<And>u. u \<noteq> t \<Longrightarrow> mem_keeps c c' u"
  shows "call_agrees cid c' st'"
  unfolding call_agrees_def
proof
  fix u
  have old: "turn_agrees cid v c st" for v using assms(2) by (simp add: call_agrees_def)
  show "turn_agrees cid u c' st'"
  proof (cases "u = t")
    case True
    then show ?thesis using assms(4-8) find_turn_insert [OF assms(1,3), of cid t] by (simp add: turn_agrees_def)
  next
    case False
    then have "find_turn cid u st' = find_turn cid u st"
      using find_turn_insert [OF assms(1,3), of cid u] assms(5) by simp
    then show ?thesis using mem_keeps_agrees [OF assms(9) [OF False] old] by (simp add: turn_agrees_def)
  qed
qed

lemma own_mem:
  fixes turn owner task c
  defines "o1 \<equiv> own_reservation turn owner task c"
  defines "o2 \<equiv> discard_turn_owner turn owner task o1"
  shows "dget (ac_owners o1) turn = Some owner" "dget (ac_states o1) turn = Some Turn_reserved"
    "ac_thread o1 = ac_thread c" "ac_staged o1 = ac_staged c" "u \<noteq> turn \<Longrightarrow> mem_keeps c o1 u"
    "dget (ac_owners o2) turn = None" "ac_thread o2 = ac_thread c" "ac_staged o2 = ac_staged c" "mem_keeps c o2 u"
    "mem_keeps c (set_turn_state turn s o2) u"
  by (cases task; auto simp: o1_def o2_def own_reservation_def discard_turn_owner_def drop_owner_def mem_keeps_def
      set_turn_state_def Let_def)+

lemma reserve_server_ok:
  assumes "server_ok sv"
  shows "server_ok (snd (reserve_call_turn cid turn sha rid owner task commit done now sv))"
proof (cases "dget (sv_calls sv) cid")
  case (Some c)
  note call = Some
  note st = server_okD(4) [OF assms] and agrees = calls_agreeD [OF server_okD(3) [OF assms] call]
    and staged = staged_row_same [OF staged_okD [OF server_okD(2) [OF assms] call]]
  show ?thesis
  proof (cases "ac_ended c = None")
    case live: True
    show ?thesis
    proof (cases "find_turn cid turn (sv_store sv)")
      case (Some p)
      obtain k r where p: "p = (k, r)" by (cases p)
      show ?thesis using existing_ok [OF assms call] live Some p call by (simp add: reserve_call_turn_def split_beta)
    next
      case None
      let ?row = "\<lparr>ct_call = cid, ct_turn = turn, ct_thread = ac_thread c, ct_sha = sha,
          ct_state = Turn_reserved, ct_owner = Some owner, ct_lease = Some (now + lease_seconds), ct_user = None,
          ct_assistant = None, ct_created = now, ct_updated = now\<rparr>"
      let ?c1 = "own_reservation turn owner task c"
      let ?c2 = "discard_turn_owner turn owner task ?c1"
      note mem = own_mem [where turn = turn and owner = owner and task = task and c = c]
      have dropped: "server_ok (put_call cid ?c2 sv)"
        by (rule server_ok_memory [OF assms call staged]) (simp_all add: mem)
      show ?thesis
      proof (cases "insert_turn rid ?row (sv_store sv)")
        case (Inl e)
        then show ?thesis
          using call live None dropped by (cases commit) (simp_all add: reserve_call_turn_def Let_def)
      next
        case (Inr st1)
        note ins = insert_turn_ok [OF st Inr]
        have row: "turn_ok ?row" by (simp add: turn_ok_def open_turn_def)
        have data: "data_ok st1" by (rule data_insert [OF server_okD(1) [OF assms] Inr row])
        have other: "find_turn x u st1 = find_turn x u (sv_store sv)" if "x \<noteq> cid" for x u
          using find_turn_insert [OF st Inr] that by simp
        have got: "find_turn cid turn st1 = Some (rid, ?row)" using find_turn_insert [OF st Inr, of cid turn] by simp
        have kept: "server_ok (put_call cid c' (sv\<lparr>sv_store := st1\<rparr>))"
          if "ac_thread c' = ac_thread c" "ac_staged c' = ac_staged c" "\<And>u. u \<noteq> turn \<Longrightarrow> mem_keeps c c' u"
            "mem_agrees (dget (ac_owners c') turn) (dget (ac_states c') turn) ?row" for c'
          by (rule server_ok_put [OF assms data staged [OF that(1,2)] _ other])
            (rule call_agrees_insert [OF st agrees Inr _ _ _ that(4,1,3)], simp_all)
        have taken: "server_ok (put_call cid ?c1 (sv\<lparr>sv_store := st1\<rparr>))"
          by (rule kept) (simp_all add: mem)
        have landed: "server_ok (put_call cid ?c2 (sv\<lparr>sv_store := st1\<rparr>))"
          by (rule kept) (simp_all add: mem)
        have repaired: "server_ok (put_call cid (set_turn_state turn s ?c2)
            (sv\<lparr>sv_store := put_turn rid (close_turn s now ?row) st1\<rparr>))" if s: "s \<in> {Turn_cancelled, Turn_failed}" for s
        proof (rule server_ok_put [OF assms])
          show "data_ok (put_turn rid (close_turn s now ?row) st1)"
            by (rule data_close [OF data]) (use s in \<open>auto simp: ins(2) open_turn_def\<close>)
          show "staged_row_ok cid (set_turn_state turn s ?c2)" by (rule staged) (simp_all add: set_turn_state_def mem)
          have "call_agrees cid ?c2 st1"
            by (rule call_agrees_insert [OF st agrees Inr, where t = turn]) (simp_all add: mem)
          then show "call_agrees cid (set_turn_state turn s ?c2) (put_turn rid (close_turn s now ?row) st1)"
            by (rule call_agrees_row [OF ins(1) _ got close_turn_same]) (simp_all add: set_turn_state_def mem mem_keeps_def)
          show "find_turn x u (put_turn rid (close_turn s now ?row) st1) = find_turn x u (sv_store sv)" if "x \<noteq> cid" for x u
            using other_row [OF ins(1) got close_turn_same that] other [OF that] by simp
        qed
        show ?thesis
          using call live None Inr dropped taken landed repaired
          by (cases commit) (simp_all add: reserve_call_turn_def Let_def)
      qed
    qed
  qed (use call assms in \<open>simp add: reserve_call_turn_def\<close>)
qed (simp add: reserve_call_turn_def assms)

lemma user_speech_server_ok:
  assumes "server_ok sv"
  shows "server_ok (snd (record_reserved_user_speech mid cid turn body owner now sv))"
proof (cases "dget (sv_calls sv) cid")
  case (Some c)
  note call = Some
  let ?w = "resolve_owner owner turn c"
  show ?thesis
  proof (cases "ac_ended c \<noteq> None \<or> dget (ac_states c) turn \<noteq> Some Turn_reserved \<or> \<not> owns_turn ?w turn c")
    case False
    then have w: "?w \<noteq> None" "dget (ac_owners c) turn = ?w" by (simp_all add: owns_turn_def)
    show ?thesis
    proof (cases "append_message mid (ac_thread c) ''user_speech'' ''user'' body now (sv_store sv)")
      case (Inr st)
      note quiet = append_quiet [OF Inr] and ok = append_message_ok [OF server_okD(4) [OF assms] Inr]
      have sv1: "server_ok (sv\<lparr>sv_store := st\<rparr>)" by (rule server_ok_quiet [OF assms quiet ok])
      show ?thesis
      proof (cases "find_turn cid turn st")
        case None
        then show ?thesis using call False Inr assms by (simp add: record_reserved_user_speech_def Let_def)
      next
        case (Some p)
        obtain k r where p: "p = (k, r)" by (cases p)
        note r = Some [unfolded p]
        show ?thesis
        proof (cases "ct_state r \<noteq> Turn_reserved \<or> ct_owner r \<noteq> ?w")
          case True
          then show ?thesis using call False Inr r assms by (simp add: record_reserved_user_speech_def Let_def)
        next
          case run: False
          let ?q = "r\<lparr>ct_user := Some mid, ct_state := Turn_running, ct_lease := Some (now + lease_seconds), ct_updated := now\<rparr>"
          let ?c = "set_turn_state turn Turn_running c"
          have row: "dget (st_turns st) k = Some r" using find_turn_Some(1) [OF ok r] .
          have tok: "turn_ok r" by (rule turns_ok_get [OF _ row]) (use data_okD(2) [OF server_okD(1) [OF sv1]] in simp)
          have same: "same_turn r ?q" by (simp add: same_turn_def)
          have "server_ok (put_call cid ?c (sv\<lparr>sv_store := st\<rparr>\<lparr>sv_store := put_turn k ?q st\<rparr>))"
          proof (rule server_ok_put [OF sv1])
            show "data_ok (put_turn k ?q st)"
              by (rule data_put [OF _ row same]) (use server_okD(1) [OF sv1] tok run in \<open>simp_all add: turn_ok_def open_turn_def\<close>)
            show "staged_row_ok cid ?c"
              by (rule staged_row_same [OF staged_okD [OF server_okD(2) [OF assms] call]]) (simp_all add: set_turn_state_def)
            have "call_agrees cid c st" using calls_agreeD [OF server_okD(3) [OF sv1], of cid c] call by simp
            then show "call_agrees cid ?c (put_turn k ?q st)"
              by (rule call_agrees_row [OF ok _ r same])
                (use w run in \<open>auto simp: set_turn_state_def mem_keeps_def\<close>)
            show "find_turn x u (put_turn k ?q st) = find_turn x u (sv_store (sv\<lparr>sv_store := st\<rparr>))" if "x \<noteq> cid" for x u
              using other_row [OF ok r same that] by simp
          qed
          then show ?thesis using call False Inr r run by (simp add: record_reserved_user_speech_def Let_def)
        qed
      qed
    qed (use call False assms in \<open>simp add: record_reserved_user_speech_def Let_def\<close>)
  qed (use call assms in \<open>simp add: record_reserved_user_speech_def Let_def\<close>)
qed (simp add: record_reserved_user_speech_def assms)

text \<open>The assistant's message, which makes the turn's row done.\<close>

lemma data_complete:
  fixes now' :: rat
  assumes "data_ok st" "find_turn cid turn st = Some (k, r)" "ct_state r = Turn_running"
    and "bind_res (touch_thread tid now st) (insert_message mid row) = Inr st1"
    and "row_turn row = Some (cid, turn)" "ms_thread row = ct_thread r" "0 \<le> ms_sequence row" "ms_selected row = None"
  defines "q \<equiv> (close_turn Turn_done now' r)\<lparr>ct_assistant := Some mid\<rparr>"
  shows "data_ok (put_turn k q st1)" "store_ok st1" "st_turns st1 = st_turns st" "same_turn r q"
proof -
  obtain st0 where st0: "touch_thread tid now st = Inr st0" "insert_message mid row st0 = Inr st1"
    using assms(4) by (auto simp: bind_res_Inr_iff)
  note ok = data_okD(1) [OF assms(1)]
  show ok1: "store_ok st1" by (rule insert_message_ok [OF touch_thread_ok [OF ok st0(1)] st0(2) assms(7,8)])
  note ins = insert_message_cases [OF st0(2)]
  show turns: "st_turns st1 = st_turns st" using touch_thread_views(3) [OF st0(1)] ins(1) by simp
  have r: "dget (st_turns st1) k = Some r" "ct_call r = cid" "ct_turn r = turn"
    using find_turn_Some [OF ok assms(2)] turns by simp_all
  show same: "same_turn r q" by (simp add: q_def same_turn_def close_turn_def)
  have tok: "turn_ok r" by (rule turns_ok_get [OF data_okD(2) [OF assms(1)]]) (use r(1) turns in simp)
  have "turn_ok q" using tok assms(3) by (simp add: q_def turn_ok_def close_turn_def open_turn_def)
  moreover have "turns_ok st1" using data_okD(2) [OF assms(1)] by (simp add: turns_ok_def turns)
  ultimately have "turns_ok (put_turn k q st1)" using turns_ok_put by blast
  moreover have "store_ok (put_turn k q st1)" by (rule put_turn_ok [OF ok1 r(1) same])
  moreover have "spoken_ok (put_turn k q st1)"
  proof (rule spoken_okI)
    fix m c t
    have view: "said_in (put_turn k q st1) m = (if m = mid then Some (cid, turn) else said_in st m)"
      "msg_thread (put_turn k q st1) m = (if m = mid then Some (ct_thread r) else msg_thread st m)"
      using assms(5,6) touch_thread_views(1) [OF st0(1)] by (simp_all add: put_turn_def ins(1) said_in_def msg_thread_def)
    have at: "find_turn cid turn (put_turn k q st1) = Some (k, q)"
      using find_turn_put [OF ok1 r(1) same, of cid turn] r by simp
    assume "said_in (put_turn k q st1) m = Some (c, t)"
    then consider "m = mid" "c = cid" "t = turn" | "m \<noteq> mid" "said_in st m = Some (c, t)"
      using view(1) by (auto split: if_split_asm)
    then show "answers m c t (put_turn k q st1)"
    proof cases
      case 1
      then show ?thesis using at view(2) by (simp add: answers_def q_def close_turn_def)
    next
      case 2
      have ans: "answers m c t st" by (rule spoken_okD [OF data_okD(3) [OF assms(1)] 2(2)])
      have "\<not> (c = cid \<and> t = turn)"
        using ans assms(2,3) tok by (auto simp: answers_def turn_ok_def)
      then have "find_turn c t (put_turn k q st1) = find_turn c t st"
        using find_turn_put [OF ok1 r(1) same, of c t] r(2,3) find_turn_turns [OF turns] by (simp add: if_not_P)
      then show ?thesis using ans 2(1) view(2) by (auto simp: answers_def split: option.splits)
    qed
  qed
  ultimately show "data_ok (put_turn k q st1)" by (simp add: data_ok_def)
qed

lemma mem_fields [simp]:
  "mem_keeps c (c\<lparr>ac_pending := p\<rparr>) t" "mem_keeps c (c\<lparr>ac_muted := m\<rparr>) t" "mem_keeps c (c\<lparr>ac_session := s\<rparr>) t"
  "mem_keeps c (c\<lparr>ac_tasks := k\<rparr>) t" "mem_keeps c (c\<lparr>ac_ended := e\<rparr>) t" "mem_keeps c (c\<lparr>ac_staged := z\<rparr>) t"
  "mem_keeps c (c\<lparr>ac_pending := p, ac_completed := d\<rparr>) t" "mem_keeps c (c\<lparr>ac_pending := p, ac_staged := z\<rparr>) t"
  "mem_keeps c (c\<lparr>ac_staged := z, ac_pending := p, ac_completed := d\<rparr>) t"
  "mem_keeps c (c\<lparr>ac_staged := z, ac_pending := p\<rparr>) t"
  by (simp_all add: mem_keeps_def)

lemma complete_begin_server_ok:
  assumes "server_ok sv"
  shows "server_ok (snd (complete_begin cid turn owner completed sv))"
proof (cases "dget (sv_calls sv) cid")
  case (Some c)
  have "server_ok (put_call cid (c\<lparr>ac_pending := p\<rparr>) sv)" for p
    by (rule server_ok_memory [OF assms Some staged_row_same [OF staged_okD [OF server_okD(2) [OF assms] Some]]]) simp_all
  then show ?thesis using Some assms by (simp add: complete_begin_def)
qed (simp add: complete_begin_def assms)

lemma refuse_server_ok:
  assumes "server_ok sv" "dget (sv_calls sv) cid = Some c" "c' = c \<or> c' = c\<lparr>ac_staged := None\<rparr>"
  shows "server_ok (put_call cid (drop_pending turn c') sv)" "server_ok (snd (refuse_completion e cid turn c' sv))"
proof -
  have staged: "staged_row_ok cid d" if "ac_staged d = ac_staged c'" "ac_thread d = ac_thread c'" for d
    using assms(3) that staged_row_same [OF staged_okD [OF server_okD(2) [OF assms(1)] assms(2)], of d]
    by (auto simp: staged_row_ok_def)
  have "server_ok (put_call cid d sv)" if "ac_staged d = ac_staged c'" "ac_thread d = ac_thread c'" "\<And>t. mem_keeps c d t" for d
    by (rule server_ok_memory [OF assms(1,2) staged [OF that(1,2)] that(3)])
  then show "server_ok (put_call cid (drop_pending turn c') sv)" "server_ok (snd (refuse_completion e cid turn c' sv))"
    using assms(3) by (auto simp: refuse_completion_def drop_pending_def)
qed

lemma stage_server_ok:
  assumes "server_ok sv"
  shows "server_ok (snd (complete_stage mid cid turn body owner now sv))"
proof (cases "dget (sv_calls sv) cid")
  case (Some c)
  note refused = refuse_server_ok [OF assms Some, of c]
  let ?row = "staged_message (ac_thread c) ''ai_speech'' ''assistant'' body (Some cid) (Some turn) now (sv_store sv)"
  have "server_ok (put_call cid (c\<lparr>ac_staged := Some (turn, owner, mid, ?row)\<rparr>) sv)"
    by (rule server_ok_memory [OF assms Some])
      (simp_all add: staged_row_ok_def staged_message_def row_turn_def next_sequence_nonneg [OF server_okD(4) [OF assms]])
  then show ?thesis
    using Some assms refused by (simp add: complete_stage_def Let_def split: sum.split)
qed (simp add: complete_stage_def assms)

lemma abort_server_ok:
  assumes "server_ok sv"
  shows "server_ok (complete_abort cid turn sv)"
proof (cases "dget (sv_calls sv) cid")
  case (Some c)
  have "server_ok (put_call cid (drop_pending turn c\<lparr>ac_staged := z\<rparr>) sv)" if "z = None \<or> z = ac_staged c" for z
    by (rule server_ok_memory [OF assms Some])
      (use that staged_okD [OF server_okD(2) [OF assms] Some] in \<open>auto simp: drop_pending_def staged_row_ok_def split: option.splits\<close>)
  then show ?thesis using Some by (simp add: complete_abort_def split: option.split)
qed (simp add: complete_abort_def assms)

lemma commit_server_ok:
  assumes "server_ok sv"
  shows "server_ok (snd (complete_commit cid now sv))"
proof (cases "dget (sv_calls sv) cid")
  case (Some c)
  note call = Some
  show ?thesis
  proof (cases "ac_staged c")
    case (Some z)
    obtain turn owner mid row where z: "z = (turn, owner, mid, row)" by (cases z)
    have staged: "ms_thread row = ac_thread c" "row_turn row = Some (cid, turn)" "0 \<le> ms_sequence row" "ms_selected row = None"
      using staged_okD [OF server_okD(2) [OF assms] call] by (simp_all add: staged_row_ok_def Some z)
    let ?c1 = "c\<lparr>ac_staged := None\<rparr>"
    note refused = refuse_server_ok [OF assms call, of ?c1]
    show ?thesis
    proof (cases "find_turn cid turn (sv_store sv)")
      case None
      then show ?thesis using call Some z refused by (simp add: complete_commit_def Let_def)
    next
      case found: (Some p)
      obtain k r where p: "p = (k, r)" by (cases p)
      note r = found [unfolded p]
      note agrees = calls_agreeD [OF server_okD(3) [OF assms] call]
      show ?thesis
      proof (cases "ac_ended c \<noteq> None \<or> ct_state r \<noteq> Turn_running \<or> ct_owner r \<noteq> Some owner")
        case True
        then show ?thesis using call Some z r refused by (auto simp: complete_commit_def Let_def)
      next
        case run: False
        show ?thesis
        proof (cases "bind_res (touch_thread (ac_thread c) (ms_created row) (sv_store sv)) (insert_message mid row)")
          case (Inl e)
          then show ?thesis using call Some z r run refused by (simp add: complete_commit_def Let_def split_beta)
        next
          case (Inr st1)
          let ?q = "(close_turn Turn_done now r)\<lparr>ct_assistant := Some mid\<rparr>"
          let ?c = "set_turn_state turn Turn_done (drop_pending turn ?c1\<lparr>ac_completed := insert turn (ac_completed ?c1)\<rparr>)"
          have "turn_agrees cid turn c (sv_store sv)" using agrees by (simp add: call_agrees_def)
          then have thread: "ms_thread row = ct_thread r" using r staged(1) by (simp add: turn_agrees_def)
          have said: "data_ok (put_turn k ?q st1)" "store_ok st1" "st_turns st1 = st_turns (sv_store sv)" "same_turn r ?q"
            by (rule data_complete [OF server_okD(1) [OF assms] r _ Inr staged(2) thread staged(3,4)]; use run in simp)+
          have found1: "find_turn cid turn st1 = Some (k, r)" using r find_turn_turns [OF said(3)] by simp
          have "server_ok (put_call cid ?c (sv\<lparr>sv_store := put_turn k ?q st1\<rparr>))"
          proof (rule server_ok_put [OF assms said(1)])
            show "staged_row_ok cid ?c" by (simp add: staged_row_ok_def set_turn_state_def drop_pending_def)
            have "call_agrees cid c st1" using agrees call_agrees_turns [OF find_turn_turns [OF said(3)]] by simp
            then show "call_agrees cid ?c (put_turn k ?q st1)"
            proof (rule call_agrees_row [OF said(2) _ found1 said(4)])
              show "mem_agrees (dget (ac_owners ?c) turn) (dget (ac_states ?c) turn) ?q"
                by (cases "dget (ac_owners ?c) turn") (simp_all add: set_turn_state_def drop_pending_def close_turn_def open_turn_def)
            qed (simp_all add: set_turn_state_def drop_pending_def mem_keeps_def)
            show "find_turn x u (put_turn k ?q st1) = find_turn x u (sv_store sv)" if "x \<noteq> cid" for x u
              using other_row [OF said(2) found1 said(4) that] find_turn_turns [OF said(3)] by simp
          qed
          then show ?thesis using call Some z r run Inr by (simp add: complete_commit_def Let_def)
        qed
      qed
    qed
  qed (use call assms in \<open>simp add: complete_commit_def\<close>)
qed (simp add: complete_commit_def assms)

lemma finish_server_ok:
  assumes "server_ok sv" "\<not> open_turn state"
    and "state = Turn_done \<Longrightarrow> (case dget (sv_calls sv) cid of None \<Rightarrow> True | Some c \<Rightarrow> \<not> open_in_memory turn c)"
  shows "server_ok (snd (finish_call_turn cid turn state owner now sv))"
proof (cases "dget (sv_calls sv) cid")
  case (Some c)
  note call = Some
  let ?w = "resolve_owner owner turn c"
  show ?thesis
  proof (cases "open_in_memory turn c \<and> owns_turn ?w turn c")
    case True
    show ?thesis
    proof (cases "find_turn cid turn (sv_store sv)")
      case (Some p)
      obtain k r where p: "p = (k, r)" by (cases p)
      note r = Some [unfolded p]
      have undone: "state \<noteq> Turn_done" using True assms(3) call by auto
      have "server_ok (put_call cid (set_turn_state turn state c)
          (sv\<lparr>sv_store := put_turn k (close_turn state now r) (sv_store sv)\<rparr>))" if "open_turn (ct_state r)"
      proof (rule server_ok_close [OF assms(1) call r that assms(2) undone])
        show "mem_agrees (dget (ac_owners (set_turn_state turn state c)) turn) (dget (ac_states (set_turn_state turn state c)) turn)
            (close_turn state now r)"
          by (cases "dget (ac_owners (set_turn_state turn state c)) turn")
            (use assms(2) in \<open>simp_all add: set_turn_state_def close_turn_def\<close>)
      qed (simp_all add: set_turn_state_def mem_keeps_def)
      then show ?thesis
        using call True r assms(1) by (auto simp: finish_call_turn_def open_in_memory_def Let_def split: option.split)
    qed (use call True assms(1) in \<open>auto simp: finish_call_turn_def Let_def\<close>)
  next
    case False
    then have "(case dget (ac_states c) turn of None \<Rightarrow> True | Some s \<Rightarrow> \<not> open_turn s) \<or> \<not> owns_turn ?w turn c"
      by (auto simp: open_in_memory_def split: option.splits)
    then show ?thesis using call assms(1) by (simp add: finish_call_turn_def Let_def)
  qed
qed (simp add: finish_call_turn_def assms(1))

section \<open>The end of a call\<close>

lemma cancel_row_same: "same_turn r (if P then close_turn s now r else r)"
  by (simp add: same_turn_def close_turn_def)

lemma cancel_store_ok: "store_ok st \<Longrightarrow> store_ok (cancel_open_turns cid now st)"
  unfolding cancel_open_turns_def by (rule map_turns_ok [OF _ cancel_row_same])

lemma cancel_find:
  "find_turn c t (cancel_open_turns cid now st)
     = map_option (\<lambda>(k, r). (k, if c = cid \<and> open_turn (ct_state r) then close_turn Turn_cancelled now r else r)) (find_turn c t st)"
proof -
  have "ct_call r = c" if "find_turn c t st = Some (k, r)" for k r
    using that by (auto simp: find_turn_def find_Some_iff)
  then show ?thesis
    unfolding cancel_open_turns_def
    by (subst find_turn_map [OF cancel_row_same]) (auto intro!: option.map_cong0)
qed

lemma cancel_data_ok:
  assumes "data_ok st"
  shows "data_ok (cancel_open_turns cid now st)"
proof -
  have "turns_ok (cancel_open_turns cid now st)"
    using data_okD(2) [OF assms] turn_ok_close [of _ Turn_cancelled now]
    unfolding turns_ok_def cancel_open_turns_def by (auto simp: open_turn_def intro!: list_all_dmap [of turn_ok])
  moreover have "spoken_ok (cancel_open_turns cid now st)"
  proof (rule spoken_okI)
    fix m c t assume "said_in (cancel_open_turns cid now st) m = Some (c, t)"
    then have "answers m c t st" using spoken_okD [OF data_okD(3) [OF assms]] by (simp add: cancel_open_turns_def said_in_def)
    then show "answers m c t (cancel_open_turns cid now st)"
      by (auto simp: answers_def cancel_find close_turn_def split: option.splits)
        (simp_all add: cancel_open_turns_def msg_thread_def)
  qed
  ultimately show ?thesis using cancel_store_ok [OF data_okD(1) [OF assms]] by (simp add: data_ok_def)
qed

lemma end_write_server_ok:
  assumes "server_ok sv"
    and "case dget (sv_calls sv) cid of None \<Rightarrow> True | Some c \<Rightarrow> list_all (\<lambda>(t, w). \<not> open_in_memory t c) (ac_owners c)"
  shows "server_ok (snd (end_call_write mid cid now sv))"
proof (cases "dget (sv_calls sv) cid")
  case (Some c)
  note call = Some
  let ?st = "cancel_open_turns cid now (sv_store sv)"
  have other: "find_turn x u ?st = find_turn x u (sv_store sv)" if "x \<noteq> cid" for x u
    using that by (cases "find_turn x u (sv_store sv)") (auto simp: cancel_find)
  have agrees: "call_agrees cid c ?st"
    unfolding call_agrees_def
  proof
    fix t
    have old: "turn_agrees cid t c (sv_store sv)"
      using calls_agreeD [OF server_okD(3) [OF assms(1)] call] by (simp add: call_agrees_def)
    show "turn_agrees cid t c ?st"
    proof (cases "dget (ac_owners c) t")
      case None
      then show ?thesis using old by (auto simp: turn_agrees_def cancel_find close_turn_def split: option.splits)
    next
      case (Some w)
      then have "\<not> open_in_memory t c"
        using assms(2) call map_of_SomeD [OF Some] by (auto simp: list_all_iff)
      then show ?thesis
        using old Some by (auto simp: turn_agrees_def cancel_find open_in_memory_def split: option.splits)
    qed
  qed
  have "server_ok (put_call cid c (sv\<lparr>sv_store := ?st\<rparr>))"
    by (rule server_ok_put [OF assms(1) cancel_data_ok [OF server_okD(1) [OF assms(1)]]
          staged_okD [OF server_okD(2) [OF assms(1)] call] agrees other])
  have ended: "server_ok (put_call cid (c\<lparr>ac_end_recorded := True\<rparr>) (sv\<lparr>sv_store := st\<rparr>))"
    if "append_message mid tid kind role body now ?st = Inr st" for st tid kind role body
  proof (rule server_ok_put [OF assms(1)])
    note quiet = append_quiet [OF that]
    show "data_ok st"
      by (rule data_quiet [OF cancel_data_ok [OF server_okD(1) [OF assms(1)]] quiet
            append_message_ok [OF cancel_store_ok [OF server_okD(4) [OF assms(1)]] that]])
    show "staged_row_ok cid (c\<lparr>ac_end_recorded := True\<rparr>)"
      by (rule staged_row_same [OF staged_okD [OF server_okD(2) [OF assms(1)] call]]) simp_all
    have "call_agrees cid c st" using agrees call_agrees_turns [OF find_turn_turns [OF quietD(1) [OF quiet]]] by simp
    then show "call_agrees cid (c\<lparr>ac_end_recorded := True\<rparr>) st"
      by (rule call_agrees_keep) (simp add: mem_keeps_def)
    show "find_turn x u st = find_turn x u (sv_store sv)" if "x \<noteq> cid" for x u
      using other [OF that] find_turn_turns [OF quietD(1) [OF quiet]] by simp
  qed
  then show ?thesis using call assms(1) by (simp add: end_call_write_def split: sum.split)
qed (simp add: end_call_write_def assms(1))

lemma dget_dfilter_keys: "dget (dfilter (\<lambda>k _. k \<notin> s) d) k = (if k \<in> s then None else dget d k)"
  by (induction d) (auto simp: dfilter_def)

lemma cancel_in_memory_keeps: "mem_keeps c (cancel_in_memory c) t"
proof (cases "t \<in> set (map fst (filter (\<lambda>(t, s). open_turn s) (ac_states c)))")
  case False
  have "map_option (\<lambda>s. if open_turn s then Turn_cancelled else s) (dget (ac_states c) t) = dget (ac_states c) t"
  proof (cases "dget (ac_states c) t")
    case (Some s)
    then have "\<not> open_turn s" using False map_of_SomeD [OF Some] by force
    then show ?thesis using Some by simp
  qed simp
  then show ?thesis using False by (simp add: mem_keeps_def cancel_in_memory_def Let_def dget_dfilter_keys)
qed (simp add: mem_keeps_def cancel_in_memory_def Let_def dget_dfilter_keys)

lemma with_call_server_ok:
  assumes "server_ok sv" "\<And>c. ac_thread (f c) = ac_thread c" "\<And>c. ac_staged (f c) = ac_staged c" "\<And>c t. mem_keeps c (f c) t"
  shows "server_ok (snd (with_call cid f sv))"
proof (cases "dget (sv_calls sv) cid")
  case (Some c)
  have "server_ok (put_call cid (f c) sv)"
    by (rule server_ok_memory [OF assms(1) Some staged_row_same [OF staged_okD [OF server_okD(2) [OF assms(1)] Some]]])
      (simp_all add: assms)
  then show ?thesis using Some by (simp add: with_call_def)
qed (simp add: with_call_def assms(1))

lemma mem_keeps_trans: "mem_keeps c d t \<Longrightarrow> mem_keeps d e t \<Longrightarrow> mem_keeps c e t"
  by (auto simp: mem_keeps_def)

lemma mem_keeps_drop [simp]: "mem_keeps c (drop_owner t c) u"
  by (simp add: mem_keeps_def drop_owner_def)

lemma call_memory_ok:
  assumes "server_ok sv"
  shows "server_ok (snd (set_muted_flag cid muted sv))" "server_ok (snd (attach_session cid sid sv))"
    "server_ok (snd (unregister_active_turn cid task tn ow sv))" "server_ok (snd (drop_tasks cid tasks sv))"
    "server_ok (snd (begin_end_settle cid tasks sv))" "server_ok (snd (register_active_turn cid task sv))"
    "server_ok (snd (begin_end_mark cid now sv))"
proof -
  show "server_ok (snd (set_muted_flag cid muted sv))" "server_ok (snd (attach_session cid sid sv))"
    "server_ok (snd (drop_tasks cid tasks sv))"
    unfolding set_muted_flag_def attach_session_def drop_tasks_def by (rule with_call_server_ok [OF assms]; simp)+
  show "server_ok (snd (begin_end_settle cid tasks sv))"
    unfolding begin_end_settle_def
    by (rule with_call_server_ok [OF assms])
      (simp add: cancel_in_memory_def Let_def, simp add: cancel_in_memory_def Let_def,
        rule mem_keeps_trans [OF _ cancel_in_memory_keeps], simp)
  have "mem_keeps c (drop_owner t (c\<lparr>ac_tasks := k\<rparr>)) u" for c t k u
    by (rule mem_keeps_trans [OF _ mem_keeps_drop]) simp
  then show "server_ok (snd (unregister_active_turn cid task tn ow sv))"
    unfolding unregister_active_turn_def
    by (intro with_call_server_ok [OF assms]) (auto simp: Let_def drop_owner_def split: option.split)
  have put: "server_ok (put_call cid c' sv)"
    if "dget (sv_calls sv) cid = Some c" "ac_thread c' = ac_thread c" "ac_staged c' = ac_staged c" "\<And>t. mem_keeps c c' t" for c c'
    by (rule server_ok_memory [OF assms that(1) staged_row_same [OF staged_okD [OF server_okD(2) [OF assms] that(1)] that(2,3)] that(4)])
  show "server_ok (snd (register_active_turn cid task sv))"
    using assms put by (auto simp: register_active_turn_def split: option.split)
  show "server_ok (snd (begin_end_mark cid now sv))"
    using assms put by (auto simp: begin_end_mark_def split: option.split)
qed

section \<open>The start of a call\<close>

lemma no_turns:
  assumes "list_all (\<lambda>(k, r). ct_call r \<noteq> cid) (st_turns st)"
  shows "find_turn cid t st = None"
  using assms by (auto simp: find_turn_def find_None_iff list_all_iff)

lemma reconcile_turn_other:
  assumes "server_ok sv"
  shows "find_turn x t (sv_store sv) = None \<Longrightarrow> find_turn x t (sv_store (reconcile_turn now done k sv)) = None"
proof -
  assume none: "find_turn x t (sv_store sv) = None"
  have "find_turn x t (put_turn k (close_turn s now r) (sv_store sv)) = None" if "dget (st_turns (sv_store sv)) k = Some r" for s r
  proof -
    have "find_turn (ct_call r) (ct_turn r) (sv_store sv) = Some (k, r)"
      using that by (simp add: find_turn_iff [OF server_okD(4) [OF assms]])
    then have "\<not> (x = ct_call r \<and> t = ct_turn r)" using none by auto
    then show ?thesis
      using find_turn_put [OF server_okD(4) [OF assms] that close_turn_same, of x t] none by (simp add: if_not_P)
  qed
  then show ?thesis
    using none by (auto simp: reconcile_turn_def terminalize_stale_turn_def Let_def split_beta split: option.split)
qed

lemma reconcile_other:
  assumes "server_ok sv" "find_turn x t (sv_store sv) = None"
  shows "find_turn x t (sv_store (reconcile_stale_call_turns now done sv)) = None"
  unfolding reconcile_stale_call_turns_def
  using fold_keeps [where P = "\<lambda>s. server_ok s \<and> find_turn x t (sv_store s) = None" and f = "reconcile_turn now done"]
    reconcile_turn_other reconcile_turn_server_ok assms by blast

lemma start_on_server_ok:
  assumes "server_ok sv" "\<And>t. find_turn cid t (sv_store sv) = None"
  shows "server_ok (snd (start_call_on cid sid mid tid preflight now sv))"
proof (cases "call_voice tid (sv_store sv)")
  case (Inr voice)
  let ?c = "new_call sid tid (fst voice) (snd voice) now"
  have "server_ok (put_call cid ?c (sv\<lparr>sv_store := sv_store sv\<rparr>))"
    by (rule server_ok_put [OF assms(1) server_okD(1) [OF assms(1)]])
      (simp_all add: staged_row_ok_def new_call_def call_agrees_def turn_agrees_def assms(2))
  then have new: "server_ok (put_call cid ?c sv)" by simp
  have "server_ok (put_call cid ?c sv\<lparr>sv_store := st\<rparr>)"
    if "append_message mid tid kind role body now (sv_store sv) = Inr st" for st kind role body
    by (rule server_ok_quiet [OF new]) (use append_quiet [OF that] append_message_ok [OF server_okD(4) [OF assms(1)] that] in simp_all)
  then show ?thesis
    using Inr new assms(1) by (auto simp: start_call_on_def Let_def split: sum.split)
qed (simp add: start_call_on_def assms(1))

lemma start_server_ok:
  assumes "server_ok sv" "call_id_unused cid sv"
  shows "server_ok (snd (start_call cid sid mid thread fresh character preflight now done sv))"
proof -
  let ?sv = "reconcile_stale_call_turns now done sv"
  have unused: "find_turn cid t (sv_store sv) = None" for t
    using assms(2) by (intro no_turns) (simp add: call_id_unused_def)
  note ok = reconcile_server_ok [OF assms(1), of now "done"]
  note free = reconcile_other [OF assms(1) unused, of _ now "done"]
  have "server_ok (snd (start_call_on cid sid mid tid preflight now (?sv\<lparr>sv_store := st\<rparr>)))"
    if "create_thread tid first alt char_id title greeting now (sv_store ?sv) = Inr st" for tid first alt char_id title greeting st
  proof (rule start_on_server_ok)
    note quiet = create_thread_quiet [OF that]
    show "server_ok (?sv\<lparr>sv_store := st\<rparr>)"
      by (rule server_ok_quiet [OF ok quiet create_thread_ok [OF server_okD(4) [OF ok] that]])
    show "find_turn cid t (sv_store (?sv\<lparr>sv_store := st\<rparr>)) = None" for t
      using free find_turn_turns [OF quietD(1) [OF quiet]] by simp
  qed
  then show ?thesis
    using ok start_on_server_ok [OF ok free] by (cases fresh) (simp add: start_call_def Let_def split: option.split sum.split)
qed

section \<open>The machine of the server\<close>

lemma record_event_server_ok:
  assumes "server_ok sv"
  shows "server_ok (snd (record_event mid cid type body now sv))"
proof -
  have "server_ok (sv\<lparr>sv_store := st\<rparr>)" if "append_message mid tid kind role body now (sv_store sv) = Inr st" for st tid kind role
    by (rule server_ok_quiet [OF assms append_quiet [OF that] append_message_ok [OF server_okD(4) [OF assms] that]])
  then show ?thesis
    using assms by (auto simp: record_event_def Let_def split: option.split sum.split)
qed

lemma table_server_ok:
  assumes "server_ok sv" "\<And>st. f (sv_store sv) = Inr st \<Longrightarrow> quiet (sv_store sv) st \<and> store_ok st"
  shows "server_ok (on_store f sv)"
  using assms(1) server_ok_quiet [OF assms(1)] assms(2) by (auto simp: on_store_def split: sum.split)

lemma delete_server_ok:
  assumes "server_ok sv"
  shows "server_ok (on_store (delete_thread tid) sv)"
proof -
  have "server_ok (sv\<lparr>sv_store := st\<rparr>)" if "delete_thread tid (sv_store sv) = Inr st" for st
  proof (rule server_ok_store [OF assms])
    note st = delete_thread_Inr [OF server_okD(4) [OF assms] that]
    note ok = delete_thread_ok [OF server_okD(4) [OF assms] that]
    have filtered: "st_turns st = dfilter (\<lambda>_ r. ct_thread r \<noteq> tid) (st_turns (sv_store sv))" by (simp add: st)
    have "turns_ok st"
      using data_okD(2) [OF server_okD(1) [OF assms]] by (simp add: turns_ok_def filtered list_all_dfilter)
    then show "data_ok st"
      using ok spoken_delete_thread [OF server_okD(4) [OF assms] data_okD(3) [OF server_okD(1) [OF assms]] that]
      by (simp add: data_ok_def)
    show "find_turn x t st = find_turn x t (sv_store sv) \<or> find_turn x t st = None" for x t
    proof (cases "find_turn x t st")
      case (Some p)
      then show ?thesis
        using find_turn_filter [OF server_okD(4) [OF assms] ok filtered, of x t "fst p" "snd p"] by simp
    qed simp
  qed
  then show ?thesis using assms by (simp add: on_store_def split: sum.split)
qed

lemma op_server_ok:
  assumes "server_enabled a sv" "server_ok sv"
  shows "server_ok (serve a sv)"
proof -
  note ok = assms(2) server_okD(4) [OF assms(2)]
  have generated: "server_ok (on_store (regenerate_end x y z w) sv)" "server_ok (on_store (swipe_end x y z w) sv)"
    "server_ok (on_store (continue_end x y z v w) sv)" for x y z v w
    using replace_quiet [OF ok(2)] replace_selected_ok [OF ok(2)] add_quiet [OF ok(2)] add_selected_ok [OF ok(2)]
    by (auto simp: regenerate_end_def swipe_end_def continue_end_def intro!: table_server_ok [OF ok(1)])
  have quiet_seed: "quiet (sv_store sv) ((sv_store sv)\<lparr>st_characters := x\<rparr>)" "quiet (sv_store sv) ((sv_store sv)\<lparr>st_voices := y\<rparr>)" for x y
    by (rule quiet_rows; simp add: other_tables)+
  show ?thesis
  proof (cases a)
    case (Set_character cid r)
    then show ?thesis using server_ok_quiet [OF ok(1) quiet_seed(1) put_character_ok [OF ok(2)]] by simp
  next
    case (Set_voice vid r)
    then show ?thesis using server_ok_quiet [OF ok(1) quiet_seed(2) put_voice_ok [OF ok(2)]] by simp
  next
    case (Create_thread tid mid aid cid title index now)
    then show ?thesis using table_server_ok [OF ok(1)] create_thread_quiet create_thread_ok [OF ok(2)] by simp
  next
    case (Rename_thread tid title now)
    then show ?thesis using table_server_ok [OF ok(1)] rename_quiet rename_ok [OF ok(2)] by simp
  next
    case (Delete_thread tid)
    then show ?thesis using delete_server_ok [OF ok(1)] by simp
  next
    case (Append_user mid tid body now)
    then show ?thesis using table_server_ok [OF ok(1)] append_quiet append_message_ok [OF ok(2)] by simp
  next
    case (Append_ai mid tid body now)
    then show ?thesis using table_server_ok [OF ok(1)] append_quiet append_message_ok [OF ok(2)] by simp
  next
    case (Regenerate aid mid body now)
    then show ?thesis using generated by simp
  next
    case (Swipe aid mid body now)
    then show ?thesis using generated by simp
  next
    case (Continue_turn aid mid prefix body now)
    then show ?thesis using generated by simp
  next
    case (Select_alternate mid aid now)
    then show ?thesis using table_server_ok [OF ok(1)] select_quiet select_alternate_ok [OF ok(2)] by simp
  next
    case (Edit_message mid body now)
    then show ?thesis using table_server_ok [OF ok(1)] edit_quiet [OF ok(2)] edit_message_ok [OF ok(2)] by simp
  next
    case (Truncate_stale mid now)
    then show ?thesis using table_server_ok [OF ok(1)] truncate_quiet [OF ok(2)] truncate_ok [OF ok(2)] by simp
  next
    case (Keep_stale mid now)
    then show ?thesis using table_server_ok [OF ok(1)] keep_quiet keep_ok [OF ok(2)] by simp
  next
    case (Start_call cid sid mid thread fresh character preflight now "done")
    then show ?thesis using start_server_ok [OF ok(1), of cid] assms(1) by simp
  next
    case Restart
    then show ?thesis using server_okD(1) [OF ok(1)] by (simp add: server_ok_def staged_ok_def calls_agree_def)
  qed (use assms call_memory_ok [OF ok(1)] in \<open>simp_all add: record_event_server_ok reserve_server_ok status_server_ok
      reconcile_server_ok user_speech_server_ok complete_begin_server_ok stage_server_ok commit_server_ok abort_server_ok
      finish_server_ok end_write_server_ok split: option.split_asm\<close>)
qed

lemma server_ok_init: "server_init sv \<Longrightarrow> server_ok sv"
  by (auto simp: server_init_def empty_store_def server_ok_def data_ok_def store_ok_def keys_ok_def unique_ok_def uniquely_def
      refs_ok_def columns_ok_def turns_ok_def spoken_ok_def staged_ok_def calls_agree_def view_defs)

interpretation chat: machine server_init server_step server_ok
proof unfold_locales
  show "server_init s \<Longrightarrow> server_ok s" for s by (rule server_ok_init)
  show "server_ok t" if "server_step s l t" "server_ok s" for s l t
    using that(1) by (rule server_stepE) (use that(2) op_server_ok in simp)
qed

end
