(* ===== verification/ChatTheorems.thy ===== *)
theory ChatTheorems
  imports CallSteps
begin

text \<open>
  The properties of the web server's tables and calls: the protocol of a turn's row, calls that have
  ended, leases that have run out, and edits of a thread; with a run of one call as their witness.
\<close>

section \<open>The protocol of a turn\<close>

inductive turn_move :: "turn_row \<Rightarrow> turn_row \<Rightarrow> bool" where
  turn_stays: "turn_move r r"
| turn_runs: "ct_state r = Turn_reserved \<Longrightarrow>
    turn_move r (r\<lparr>ct_user := Some m, ct_state := Turn_running, ct_lease := Some e, ct_updated := now\<rparr>)"
| turn_completes: "ct_state r = Turn_running \<Longrightarrow>
    turn_move r ((close_turn Turn_done now r)\<lparr>ct_assistant := Some m\<rparr>)"
| turn_closes: "open_turn (ct_state r) \<Longrightarrow> s = Turn_failed \<or> s = Turn_cancelled \<Longrightarrow> turn_move r (close_turn s now r)"

inductive_cases turn_moveE: "turn_move r q"

fun row_step :: "server_op \<Rightarrow> turn_row option \<Rightarrow> turn_row option \<Rightarrow> bool" where
  "row_step a None None = True"
| "row_step a None (Some q)
     = (ct_user q = None \<and> ct_assistant q = None \<and> ct_state q \<in> {Turn_reserved, Turn_failed, Turn_cancelled})"
| "row_step a (Some r) None = (a = Delete_thread (ct_thread r))"
| "row_step a (Some r) (Some q) = turn_move r q"

lemma row_step_same [simp]: "row_step a x x"
  by (cases x) (simp_all add: turn_stays)

definition rows_step :: "server_op \<Rightarrow> store \<Rightarrow> store \<Rightarrow> bool" where
  "rows_step a st st' \<longleftrightarrow> (\<forall>k. row_step a (dget (st_turns st) k) (dget (st_turns st') k))"

lemma rows_step_turns: "st_turns st' = st_turns st \<Longrightarrow> rows_step a st st'"
  by (simp add: rows_step_def)

lemma rows_step_put: "dget (st_turns st) j = Some r \<Longrightarrow> turn_move r q \<Longrightarrow> rows_step a st (put_turn j q st)"
  by (simp add: rows_step_def put_turn_def)

lemma rows_step_put_after:
  "st_turns st1 = st_turns st \<Longrightarrow> dget (st_turns st) j = Some r \<Longrightarrow> turn_move r q \<Longrightarrow> rows_step a st (put_turn j q st1)"
  by (simp add: rows_step_def put_turn_def)

lemma not_open: "\<not> open_turn s \<Longrightarrow> s \<noteq> Turn_done \<Longrightarrow> s = Turn_failed \<or> s = Turn_cancelled"
  by (cases s) (simp_all add: open_turn_def)

lemma stale_move: "turn_is_stale now done r c \<Longrightarrow> turn_move r (close_turn Turn_failed now r)"
  using stale_open turn_closes by blast

lemma rows_step_existing:
  assumes "server_ok sv" "find_turn cid t (sv_store sv) = Some (k, r)"
  shows "rows_step a (sv_store sv) (sv_store (snd (existing_turn_reservation now done sha cid k r c sv)))"
  using call_row [OF assms] stale_move [of now "done" r c] rows_step_put [of "sv_store sv" k r]
  by (simp add: existing_store terminalize_stale_turn_def Let_def rows_step_turns)

text \<open>A reconciliation closes rows as failed, each at most once.\<close>

definition rows_lapse :: "rat \<Rightarrow> store \<Rightarrow> store \<Rightarrow> bool" where
  "rows_lapse now st st' \<longleftrightarrow> (\<forall>k. case dget (st_turns st) k of
       None \<Rightarrow> dget (st_turns st') k = None
     | Some r \<Rightarrow> dget (st_turns st') k = Some r
         \<or> (open_turn (ct_state r) \<and> dget (st_turns st') k = Some (close_turn Turn_failed now r)))"

lemma rows_lapse_refl: "rows_lapse now st st"
  by (simp add: rows_lapse_def split: option.split)

lemma rows_lapse_trans:
  assumes "rows_lapse now st st1" "rows_lapse now st1 st2"
  shows "rows_lapse now st st2"
  unfolding rows_lapse_def
proof
  fix k
  have "\<not> open_turn (ct_state (close_turn Turn_failed now r))" for r by (simp add: close_turn_def open_turn_def)
  then show "case dget (st_turns st) k of
       None \<Rightarrow> dget (st_turns st2) k = None
     | Some r \<Rightarrow> dget (st_turns st2) k = Some r
         \<or> (open_turn (ct_state r) \<and> dget (st_turns st2) k = Some (close_turn Turn_failed now r))"
    using spec [OF assms(1) [unfolded rows_lapse_def], of k] spec [OF assms(2) [unfolded rows_lapse_def], of k]
    by (auto split: option.splits)
qed

lemma reconcile_turn_lapse: "rows_lapse now (sv_store sv) (sv_store (reconcile_turn now done k sv))"
proof (cases "dget (st_turns (sv_store sv)) k")
  case (Some r)
  have put: "rows_lapse now (sv_store sv) (put_turn k (close_turn Turn_failed now r) (sv_store sv))" if "open_turn (ct_state r)"
    using Some that by (simp add: rows_lapse_def put_turn_def split: option.split)
  show ?thesis
    using put rows_lapse_refl Some
    by (simp add: reconcile_turn_def terminalize_stale_turn_def Let_def split_beta split: option.split)
qed (simp add: reconcile_turn_def rows_lapse_refl)

lemma reconcile_lapse: "rows_lapse now (sv_store sv) (sv_store (reconcile_stale_call_turns now done sv))"
  unfolding reconcile_stale_call_turns_def
  by (rule fold_keeps [where P = "\<lambda>s. rows_lapse now (sv_store sv) (sv_store s)"])
    (blast intro: rows_lapse_trans reconcile_turn_lapse, rule rows_lapse_refl)

lemma rows_step_lapse: "rows_lapse now st st' \<Longrightarrow> rows_step a st st'"
  unfolding rows_step_def
proof
  fix k
  assume "rows_lapse now st st'"
  then have "case dget (st_turns st) k of
       None \<Rightarrow> dget (st_turns st') k = None
     | Some r \<Rightarrow> dget (st_turns st') k = Some r
         \<or> (open_turn (ct_state r) \<and> dget (st_turns st') k = Some (close_turn Turn_failed now r))"
    by (simp add: rows_lapse_def)
  then show "row_step a (dget (st_turns st) k) (dget (st_turns st') k)"
    by (auto simp: turn_stays turn_closes split: option.split_asm)
qed

lemma rows_step_insert:
  assumes "store_ok st" "insert_turn k q st = Inr st'" "row_step a None (Some q)"
  shows "rows_step a st st'"
  using insert_turn_ok(2,3) [OF assms(1,2)] assms(3) by (simp add: rows_step_def)

lemma rows_step_reserve:
  assumes "server_ok sv"
  shows "rows_step a (sv_store sv) (sv_store (snd (reserve_call_turn cid turn sha rid owner task commit done now sv)))"
proof (cases "dget (sv_calls sv) cid")
  case (Some c)
  note call = Some
  let ?row = "\<lparr>ct_call = cid, ct_turn = turn, ct_thread = ac_thread c, ct_sha = sha,
      ct_state = Turn_reserved, ct_owner = Some owner, ct_lease = Some (now + lease_seconds), ct_user = None,
      ct_assistant = None, ct_created = now, ct_updated = now\<rparr>"
  show ?thesis
  proof (cases "ac_ended c = None")
    case live: True
    show ?thesis
    proof (cases "find_turn cid turn (sv_store sv)")
      case (Some p)
      then show ?thesis
        using call live rows_step_existing [OF assms, of cid turn "fst p" "snd p"] by (simp add: reserve_call_turn_def split_beta)
    next
      case None
      show ?thesis
      proof (cases "insert_turn rid ?row (sv_store sv)")
        case (Inl e)
        then show ?thesis
          using call live None by (cases commit) (simp_all add: reserve_call_turn_def Let_def rows_step_turns)
      next
        case (Inr st1)
        note ins = insert_turn_ok(2,3) [OF server_okD(4) [OF assms] Inr]
        have new: "rows_step a (sv_store sv) st1"
          by (rule rows_step_insert [OF server_okD(4) [OF assms] Inr]) simp
        have "rows_step a (sv_store sv) (put_turn rid (close_turn s now ?row) st1)" if "s = Turn_failed \<or> s = Turn_cancelled" for s
          using that ins by (auto simp: rows_step_def put_turn_def close_turn_def)
        then show ?thesis
          using call live None Inr new by (cases commit) (simp_all add: reserve_call_turn_def Let_def rows_step_turns)
      qed
    qed
  qed (use call in \<open>simp add: reserve_call_turn_def rows_step_turns\<close>)
qed (simp add: reserve_call_turn_def rows_step_turns)

lemma rows_step_user:
  assumes "server_ok sv"
  shows "rows_step a (sv_store sv) (sv_store (snd (record_reserved_user_speech mid cid turn body owner now sv)))"
proof -
  have "rows_step a (sv_store sv) (put_turn k (r\<lparr>ct_user := Some mid, ct_state := Turn_running,
          ct_lease := Some (now + lease_seconds), ct_updated := now\<rparr>) st)"
    if app: "append_message mid tid kind role body now (sv_store sv) = Inr st" and found: "find_turn cid turn st = Some (k, r)"
      and open_: "ct_state r = Turn_reserved" for k r st tid kind role
  proof -
    note same = quietD(1) [OF append_quiet [OF app]]
    have "find_turn cid turn (sv_store sv) = Some (k, r)" using found find_turn_turns [OF same] by simp
    then have "dget (st_turns (sv_store sv)) k = Some r" using call_row [OF assms] by blast
    then show ?thesis by (rule rows_step_put_after [OF same _ turn_runs [OF open_]])
  qed
  then show ?thesis
    by (auto simp: record_reserved_user_speech_def Let_def rows_step_turns split: option.split sum.split)
qed

lemma rows_step_commit:
  assumes "server_ok sv"
  shows "rows_step a (sv_store sv) (sv_store (snd (complete_commit cid now sv)))"
proof -
  have "rows_step a (sv_store sv) (put_turn k ((close_turn Turn_done now r)\<lparr>ct_assistant := Some mid\<rparr>) st1)"
    if found: "find_turn cid turn (sv_store sv) = Some (k, r)" and run: "ct_state r = Turn_running"
      and ins: "bind_res (touch_thread tid t (sv_store sv)) (insert_message mid row) = Inr st1" for k r st1 turn mid tid t row
  proof -
    obtain st0 where st0: "touch_thread tid t (sv_store sv) = Inr st0" "insert_message mid row st0 = Inr st1"
      using ins by (auto simp: bind_res_Inr_iff)
    have "st_turns st1 = st_turns (sv_store sv)"
      using touch_thread_views(3) [OF st0(1)] insert_message_cases(1) [OF st0(2)] by simp
    then show ?thesis using call_row [OF assms found] by (intro rows_step_put_after [OF _ _ turn_completes [OF run]]) simp_all
  qed
  then show ?thesis
    by (auto simp: complete_commit_def Let_def split_beta rows_step_turns split: option.split sum.split)
qed

lemma rows_step_finish:
  assumes "server_ok sv" "\<not> open_turn state"
    and "state = Turn_done \<Longrightarrow> (case dget (sv_calls sv) cid of None \<Rightarrow> True | Some c \<Rightarrow> \<not> open_in_memory turn c)"
  shows "rows_step a (sv_store sv) (sv_store (snd (finish_call_turn cid turn state owner now sv)))"
proof (cases "state = Turn_done")
  case True
  then show ?thesis
    using assms(3) by (auto simp: finish_call_turn_def Let_def open_in_memory_def rows_step_turns split: option.splits)
next
  case False
  then have "rows_step a (sv_store sv) (put_turn k (close_turn state now r) (sv_store sv))"
    if "find_turn cid turn (sv_store sv) = Some (k, r)" "open_turn (ct_state r)" for k r
    using call_row [OF assms(1) that(1)] not_open [OF assms(2)] that(2) by (blast intro: rows_step_put turn_closes)
  then show ?thesis
    by (auto simp: finish_call_turn_def Let_def rows_step_turns split: option.split)
qed

lemma rows_step_end_write: "rows_step a (sv_store sv) (sv_store (snd (end_call_write mid cid now sv)))"
proof -
  have cancel: "rows_step a (sv_store sv) (cancel_open_turns cid now (sv_store sv))"
    unfolding rows_step_def
  proof
    fix k
    show "row_step a (dget (st_turns (sv_store sv)) k) (dget (st_turns (cancel_open_turns cid now (sv_store sv))) k)"
      by (cases "dget (st_turns (sv_store sv)) k") (simp_all add: cancel_open_turns_def turn_stays turn_closes)
  qed
  have "rows_step a (sv_store sv) st"
    if "append_message mid tid kind role body now (cancel_open_turns cid now (sv_store sv)) = Inr st" for st tid kind role body
    using cancel quietD(1) [OF append_quiet [OF that]] by (simp add: rows_step_def)
  then show ?thesis
    by (auto simp: end_call_write_def rows_step_turns split: option.split sum.split)
qed

lemma rows_step_table:
  assumes "\<And>st. f (sv_store sv) = Inr st \<Longrightarrow> quiet (sv_store sv) st"
  shows "rows_step a (sv_store sv) (sv_store (on_store f sv))"
  using assms quietD(1) by (auto simp: on_store_def rows_step_turns split: sum.split)

lemma rows_step_delete:
  assumes "server_ok sv"
  shows "rows_step (Delete_thread tid) (sv_store sv) (sv_store (on_store (delete_thread tid) sv))"
proof -
  have "rows_step (Delete_thread tid) (sv_store sv) st" if "delete_thread tid (sv_store sv) = Inr st" for st
    using delete_thread_Inr [OF server_okD(4) [OF assms] that] server_okD(4) [OF assms]
    by (auto simp: rows_step_def dget_dfilter store_ok_def keys_ok_def turn_stays split: option.split)
  then show ?thesis by (auto simp: on_store_def rows_step_turns split: sum.split)
qed

lemma start_on_turns: "st_turns (sv_store (snd (start_call_on cid sid mid tid preflight now sv))) = st_turns (sv_store sv)"
  using quietD(1) [OF append_quiet]
  by (auto simp: start_call_on_def Let_def split: sum.split)

lemma rows_step_start:
  "rows_step a (sv_store sv) (sv_store (snd (start_call cid sid mid thread fresh character preflight now done sv)))"
proof -
  let ?sv = "reconcile_stale_call_turns now done sv"
  have "st_turns (sv_store (snd (start_call cid sid mid thread fresh character preflight now done sv))) = st_turns (sv_store ?sv)"
    using quietD(1) [OF create_thread_quiet] start_on_turns
    by (cases fresh) (auto simp: start_call_def Let_def split: option.split sum.split)
  then show ?thesis
    using rows_step_lapse [OF reconcile_lapse] by (simp add: rows_step_def)
qed

lemma op_rows_step:
  assumes "server_enabled a sv" "server_ok sv"
  shows "rows_step a (sv_store sv) (sv_store (serve a sv))"
proof -
  note ok = assms(2) server_okD(4) [OF assms(2)]
  have table: "rows_step b (sv_store sv) (sv_store (on_store f sv))"
    if "\<And>st. f (sv_store sv) = Inr st \<Longrightarrow> quiet (sv_store sv) st" for f b
    using that by (rule rows_step_table)
  have generated: "regenerate_end x y z w (sv_store sv) = Inr st \<Longrightarrow> quiet (sv_store sv) st"
    "swipe_end x y z w (sv_store sv) = Inr st \<Longrightarrow> quiet (sv_store sv) st"
    "continue_end x y z v w (sv_store sv) = Inr st \<Longrightarrow> quiet (sv_store sv) st" for x y z v w st
    unfolding regenerate_end_def swipe_end_def continue_end_def
    by (erule replace_quiet [OF ok(2)] add_quiet [OF ok(2)])+
  note actions = generated create_thread_quiet rename_quiet append_quiet select_quiet edit_quiet [OF ok(2)]
    truncate_quiet [OF ok(2)] keep_quiet
  have existing: "rows_step b (sv_store sv) (sv_store (snd (call_turn_status cid turn sha done now sv)))" for b cid turn sha "done" now
    using rows_step_existing [OF ok(1)] by (auto simp: call_turn_status_def split_beta rows_step_turns split: option.split)
  have event: "rows_step b (sv_store sv) (sv_store (snd (record_event mid cid type body now sv)))" for b mid cid type body now
    using quietD(1) [OF append_quiet] by (auto simp: record_event_def Let_def rows_step_turns split: option.split sum.split)
  show ?thesis
    using assms(1)
    by (cases a)
      (simp_all add: rows_step_turns rows_step_start rows_step_reserve [OF ok(1)] rows_step_user [OF ok(1)]
        rows_step_commit [OF ok(1)] rows_step_end_write existing event rows_step_delete [OF ok(1)]
        rows_step_lapse [OF reconcile_lapse], (rule table, erule actions)+, rule rows_step_finish [OF ok(1)], force+)
qed

section \<open>Calls that have ended\<close>

definition over_call :: "string \<Rightarrow> server \<Rightarrow> bool" where
  "over_call cid sv = (case dget (sv_calls sv) cid of None \<Rightarrow> True | Some c \<Rightarrow> ac_ended c \<noteq> None)"

text \<open>Nothing new is said in a call: no message, no row, and a row only closes.\<close>

definition call_rests :: "string \<Rightarrow> store \<Rightarrow> store \<Rightarrow> bool" where
  "call_rests cid st st' \<longleftrightarrow>
     (\<forall>m t. said_in st' m = Some (cid, t) \<longrightarrow> said_in st m = Some (cid, t))
     \<and> (\<forall>k. case dget (st_turns st') k of
              None \<Rightarrow> True
            | Some q \<Rightarrow> ct_call q = cid \<longrightarrow>
                (case dget (st_turns st) k of
                   None \<Rightarrow> False
                 | Some r \<Rightarrow> ct_call r = cid \<and> (ct_state q = ct_state r \<or> ct_state q \<in> {Turn_failed, Turn_cancelled})))"

lemma call_restsI:
  assumes "\<And>m t. said_in st' m = Some (cid, t) \<Longrightarrow> said_in st m = Some (cid, t)"
    and "\<And>k. case dget (st_turns st') k of
              None \<Rightarrow> True
            | Some q \<Rightarrow> ct_call q = cid \<longrightarrow>
                (case dget (st_turns st) k of
                   None \<Rightarrow> False
                 | Some r \<Rightarrow> ct_call r = cid \<and> (ct_state q = ct_state r \<or> ct_state q \<in> {Turn_failed, Turn_cancelled}))"
  shows "call_rests cid st st'"
  unfolding call_rests_def using assms by blast

lemma call_restsD:
  assumes "call_rests cid st st'"
  shows "said_in st' m = Some (cid, t) \<Longrightarrow> said_in st m = Some (cid, t)"
    and "dget (st_turns st') k = Some q \<Longrightarrow> ct_call q = cid \<Longrightarrow>
      (case dget (st_turns st) k of
         None \<Rightarrow> False
       | Some r \<Rightarrow> ct_call r = cid \<and> (ct_state q = ct_state r \<or> ct_state q \<in> {Turn_failed, Turn_cancelled}))"
  using conjunct1 [OF assms [unfolded call_rests_def]] spec [OF conjunct2 [OF assms [unfolded call_rests_def]], of k]
  by (blast, simp)

lemma call_rests_trans:
  assumes "call_rests cid st st1" "call_rests cid st1 st2"
  shows "call_rests cid st st2"
proof (rule call_restsI)
  show "said_in st2 m = Some (cid, t) \<Longrightarrow> said_in st m = Some (cid, t)" for m t
    using call_restsD(1) [OF assms(1)] call_restsD(1) [OF assms(2)] by blast
  show "case dget (st_turns st2) k of
              None \<Rightarrow> True
            | Some q \<Rightarrow> ct_call q = cid \<longrightarrow>
                (case dget (st_turns st) k of
                   None \<Rightarrow> False
                 | Some r \<Rightarrow> ct_call r = cid \<and> (ct_state q = ct_state r \<or> ct_state q \<in> {Turn_failed, Turn_cancelled}))" for k
    using call_restsD(2) [OF assms(1), of k] call_restsD(2) [OF assms(2), of k]
    by (auto split: option.splits)
qed

lemma call_rests_quiet:
  assumes "quiet st st'"
  shows "call_rests cid st st'"
  by (rule call_restsI) (use quietD [OF assms] in \<open>auto split: option.split\<close>)

lemma call_rests_same: "call_rests cid st st"
  by (rule call_rests_quiet) simp

lemma call_rests_put:
  assumes "dget (st_turns st) k = Some r" "same_turn r q"
    and "ct_call r \<noteq> cid \<or> ct_state q \<in> {Turn_failed, Turn_cancelled}"
  shows "call_rests cid st (put_turn k q st)"
  by (rule call_restsI)
    (use assms in \<open>auto simp: put_turn_def said_in_def same_turn_def split: option.split\<close>)

lemma call_rests_close:
  assumes "dget (st_turns st) k = Some r" "s = Turn_failed \<or> s = Turn_cancelled"
  shows "call_rests cid st (put_turn k (close_turn s now r) st)"
  by (rule call_rests_put [OF assms(1) close_turn_same]) (use assms(2) in \<open>auto simp: close_turn_def\<close>)

lemma call_rests_insert:
  assumes "store_ok st" "insert_turn k q st = Inr st'" "ct_call q \<noteq> cid"
  shows "call_rests cid st st'"
  by (rule call_restsI)
    (use assms(3) insert_turn_ok(2) [OF assms(1,2)] in \<open>auto simp: said_in_def split: option.split\<close>)

lemma call_rests_message:
  assumes "bind_res (touch_thread tid t st) (insert_message mid row) = Inr st'" "row_turn row = Some (x, u)" "x \<noteq> cid"
  shows "call_rests cid st st'" "st_turns st' = st_turns st"
proof -
  obtain st0 where st0: "touch_thread tid t st = Inr st0" "insert_message mid row st0 = Inr st'"
    using assms(1) by (auto simp: bind_res_Inr_iff)
  have view: "st_turns st' = st_turns st" "st_messages st' = dset mid row (st_messages st)"
    using touch_thread_views [OF st0(1)] insert_message_cases(1) [OF st0(2)] by simp_all
  then show "st_turns st' = st_turns st" by simp
  show "call_rests cid st st'"
    by (rule call_restsI) (use assms(2,3) view in \<open>auto simp: said_in_def split: option.split if_split_asm\<close>)
qed

lemma call_rests_lapse:
  assumes "rows_lapse now st st'" "st_messages st' = st_messages st"
  shows "call_rests cid st st'"
proof (rule call_restsI)
  show "said_in st' m = Some (cid, t) \<Longrightarrow> said_in st m = Some (cid, t)" for m t
    using assms(2) by (simp add: said_in_def)
  show "case dget (st_turns st') k of
              None \<Rightarrow> True
            | Some q \<Rightarrow> ct_call q = cid \<longrightarrow>
                (case dget (st_turns st) k of
                   None \<Rightarrow> False
                 | Some r \<Rightarrow> ct_call r = cid \<and> (ct_state q = ct_state r \<or> ct_state q \<in> {Turn_failed, Turn_cancelled}))" for k
    using spec [OF assms(1) [unfolded rows_lapse_def], of k] by (auto simp: close_turn_def split: option.splits)
qed

lemma reconcile_turn_messages: "st_messages (sv_store (reconcile_turn now done k sv)) = st_messages (sv_store sv)"
  by (simp add: reconcile_turn_def terminalize_stale_turn_def Let_def split_beta put_turn_def split: option.split)

lemma reconcile_rests: "call_rests cid (sv_store sv) (sv_store (reconcile_stale_call_turns now done sv))"
proof (rule call_rests_lapse [OF reconcile_lapse])
  show "st_messages (sv_store (reconcile_stale_call_turns now done sv)) = st_messages (sv_store sv)"
    unfolding reconcile_stale_call_turns_def
    by (rule fold_keeps [where P = "\<lambda>s. st_messages (sv_store s) = st_messages (sv_store sv)"])
      (simp_all add: reconcile_turn_messages)
qed

lemma existing_rests:
  assumes "server_ok sv" "find_turn x t (sv_store sv) = Some (k, r)"
  shows "call_rests cid (sv_store sv) (sv_store (snd (existing_turn_reservation now done sha x k r c sv)))"
  using call_row [OF assms] call_rests_close [of "sv_store sv" k r Turn_failed cid now]
  by (simp add: existing_store terminalize_stale_turn_def Let_def call_rests_same)

lemma table_rests:
  assumes "\<And>st. f (sv_store sv) = Inr st \<Longrightarrow> quiet (sv_store sv) st"
  shows "call_rests cid (sv_store sv) (sv_store (on_store f sv))"
  using assms call_rests_quiet call_rests_same by (auto simp: on_store_def split: sum.split)

lemma delete_rests:
  assumes "server_ok sv"
  shows "call_rests cid (sv_store sv) (sv_store (on_store (delete_thread tid) sv))"
proof -
  have "call_rests cid (sv_store sv) st" if "delete_thread tid (sv_store sv) = Inr st" for st
  proof (rule call_restsI)
    note st = delete_thread_Inr [OF server_okD(4) [OF assms] that]
    have said: "said_in st m = said_in (delete_messages (set (map fst (thread_messages tid (sv_store sv)))) (sv_store sv)) m" for m
      by (simp add: st said_in_def)
    show "said_in st m = Some (cid, t) \<Longrightarrow> said_in (sv_store sv) m = Some (cid, t)" for m t
      by (simp add: said delete_messages_views [OF server_okD(4) [OF assms]] split: if_split_asm)
    show "case dget (st_turns st) k of
              None \<Rightarrow> True
            | Some q \<Rightarrow> ct_call q = cid \<longrightarrow>
                (case dget (st_turns (sv_store sv)) k of
                   None \<Rightarrow> False
                 | Some r \<Rightarrow> ct_call r = cid \<and> (ct_state q = ct_state r \<or> ct_state q \<in> {Turn_failed, Turn_cancelled}))" for k
      using server_okD(4) [OF assms] by (simp add: st dget_dfilter store_ok_def keys_ok_def split: option.split)
  qed
  then show ?thesis using call_rests_same by (simp add: on_store_def split: sum.split)
qed

lemma over_cases: "over_call cid sv \<Longrightarrow> dget (sv_calls sv) cid = Some c \<Longrightarrow> ac_ended c \<noteq> None"
  by (simp add: over_call_def)

lemma reserve_rests:
  assumes "server_ok sv" "over_call cid sv"
  shows "call_rests cid (sv_store sv) (sv_store (snd (reserve_call_turn x turn sha rid owner task commit done now sv)))"
proof (cases "dget (sv_calls sv) x")
  case (Some c)
  note call = Some
  let ?row = "\<lparr>ct_call = x, ct_turn = turn, ct_thread = ac_thread c, ct_sha = sha,
      ct_state = Turn_reserved, ct_owner = Some owner, ct_lease = Some (now + lease_seconds), ct_user = None,
      ct_assistant = None, ct_created = now, ct_updated = now\<rparr>"
  show ?thesis
  proof (cases "ac_ended c = None")
    case live: True
    then have other: "x \<noteq> cid" using over_cases [OF assms(2)] call by auto
    show ?thesis
    proof (cases "find_turn x turn (sv_store sv)")
      case (Some p)
      then show ?thesis
        using call live existing_rests [OF assms(1), of x turn "fst p" "snd p"] by (simp add: reserve_call_turn_def split_beta)
    next
      case None
      show ?thesis
      proof (cases "insert_turn rid ?row (sv_store sv)")
        case (Inl e)
        then show ?thesis
          using call live None by (cases commit) (simp_all add: reserve_call_turn_def Let_def call_rests_same)
      next
        case (Inr st1)
        have new: "call_rests cid (sv_store sv) st1"
          by (rule call_rests_insert [OF server_okD(4) [OF assms(1)] Inr]) (simp add: other)
        have row: "dget (st_turns st1) rid = Some ?row" using insert_turn_ok(2) [OF server_okD(4) [OF assms(1)] Inr] by simp
        have "call_rests cid (sv_store sv) (put_turn rid (close_turn s now ?row) st1)" if "s = Turn_failed \<or> s = Turn_cancelled" for s
          by (rule call_rests_trans [OF new call_rests_close [OF row that]])
        then show ?thesis
          using call live None Inr new by (cases commit) (simp_all add: reserve_call_turn_def Let_def call_rests_same)
      qed
    qed
  qed (use call in \<open>simp add: reserve_call_turn_def call_rests_same\<close>)
qed (simp add: reserve_call_turn_def call_rests_same)

lemma user_rests:
  assumes "server_ok sv" "over_call cid sv"
  shows "call_rests cid (sv_store sv) (sv_store (snd (record_reserved_user_speech mid x turn body owner now sv)))"
proof (cases "dget (sv_calls sv) x")
  case (Some c)
  note call = Some
  show ?thesis
  proof (cases "ac_ended c = None")
    case True
    then have other: "x \<noteq> cid" using over_cases [OF assms(2)] call by auto
    have "call_rests cid (sv_store sv) (put_turn k (r\<lparr>ct_user := Some mid, ct_state := Turn_running,
            ct_lease := Some (now + lease_seconds), ct_updated := now\<rparr>) st)"
      if app: "append_message mid tid kind role body now (sv_store sv) = Inr st" and found: "find_turn x turn st = Some (k, r)"
      for k r st tid kind role
    proof -
      have row: "dget (st_turns st) k = Some r" "ct_call r = x"
        using find_turn_Some [OF append_message_ok [OF server_okD(4) [OF assms(1)] app] found] by simp_all
      show ?thesis
        by (rule call_rests_trans [OF call_rests_quiet [OF append_quiet [OF app]] call_rests_put [OF row(1)]])
          (use other row(2) in \<open>simp_all add: same_turn_def\<close>)
    qed
    then show ?thesis
      by (auto simp: record_reserved_user_speech_def Let_def call_rests_same split: option.split sum.split)
  qed (use call in \<open>simp add: record_reserved_user_speech_def Let_def call_rests_same\<close>)
qed (simp add: record_reserved_user_speech_def call_rests_same)

lemma commit_rests:
  assumes "server_ok sv" "over_call cid sv"
  shows "call_rests cid (sv_store sv) (sv_store (snd (complete_commit x now sv)))"
proof (cases "dget (sv_calls sv) x")
  case (Some c)
  note call = Some
  show ?thesis
  proof (cases "ac_staged c")
    case (Some z)
    obtain turn owner mid row where z: "z = (turn, owner, mid, row)" by (cases z)
    have said: "row_turn row = Some (x, turn)"
      using staged_okD [OF server_okD(2) [OF assms(1)] call] by (simp add: staged_row_ok_def Some z)
    show ?thesis
    proof (cases "ac_ended c = None")
      case True
      then have other: "x \<noteq> cid" using over_cases [OF assms(2)] call by auto
      have "call_rests cid (sv_store sv) (put_turn k ((close_turn Turn_done now r)\<lparr>ct_assistant := Some mid\<rparr>) st1)"
        if found: "find_turn x turn (sv_store sv) = Some (k, r)"
          and ins: "bind_res (touch_thread tid t (sv_store sv)) (insert_message mid row) = Inr st1" for k r st1 tid t
      proof -
        note new = call_rests_message [OF ins said other]
        have row: "dget (st_turns st1) k = Some r" "ct_call r = x" using call_row [OF assms(1) found] new(2) by simp_all
        show ?thesis
          by (rule call_rests_trans [OF new(1) call_rests_put [OF row(1)]])
            (use other row(2) in \<open>simp_all add: same_turn_def close_turn_def\<close>)
      qed
      then show ?thesis
        using call Some z
        by (auto simp: complete_commit_def Let_def split_beta call_rests_same split: option.split sum.split)
    qed (use call Some z in \<open>simp add: complete_commit_def Let_def call_rests_same\<close>)
  qed (use call in \<open>simp add: complete_commit_def call_rests_same\<close>)
qed (simp add: complete_commit_def call_rests_same)

lemma finish_rests:
  assumes "server_ok sv" "\<not> open_turn state"
    and "state = Turn_done \<Longrightarrow> (case dget (sv_calls sv) x of None \<Rightarrow> True | Some c \<Rightarrow> \<not> open_in_memory turn c)"
  shows "call_rests cid (sv_store sv) (sv_store (snd (finish_call_turn x turn state owner now sv)))"
proof (cases "state = Turn_done")
  case True
  then show ?thesis
    using assms(3) by (auto simp: finish_call_turn_def Let_def open_in_memory_def call_rests_same split: option.splits)
next
  case False
  then have "call_rests cid (sv_store sv) (put_turn k (close_turn state now r) (sv_store sv))"
    if "find_turn x turn (sv_store sv) = Some (k, r)" for k r
    using call_row [OF assms(1) that] not_open [OF assms(2)] by (blast intro: call_rests_close)
  then show ?thesis
    by (auto simp: finish_call_turn_def Let_def call_rests_same split: option.split)
qed

lemma end_write_rests: "call_rests cid (sv_store sv) (sv_store (snd (end_call_write mid x now sv)))"
proof -
  have cancel: "call_rests cid (sv_store sv) (cancel_open_turns x now (sv_store sv))"
    by (rule call_restsI) (auto simp: cancel_open_turns_def said_in_def close_turn_def split: option.split)
  have "call_rests cid (sv_store sv) st"
    if "append_message mid tid kind role body now (cancel_open_turns x now (sv_store sv)) = Inr st" for st tid kind role body
    by (rule call_rests_trans [OF cancel call_rests_quiet [OF append_quiet [OF that]]])
  then show ?thesis
    by (auto simp: end_call_write_def call_rests_same split: option.split sum.split)
qed

lemma start_rests:
  "call_rests cid (sv_store sv) (sv_store (snd (start_call x sid mid thread fresh character preflight now done sv)))"
proof -
  have on: "call_rests cid (sv_store s) (sv_store (snd (start_call_on x sid mid tid preflight now s)))" for s tid
    using call_rests_quiet [OF append_quiet]
    by (auto simp: start_call_on_def Let_def call_rests_same split: sum.split)
  let ?sv = "reconcile_stale_call_turns now done sv"
  have "call_rests cid (sv_store ?sv) (sv_store (snd (start_call_on x sid mid tid preflight now (?sv\<lparr>sv_store := st\<rparr>))))"
    if "create_thread tid first alt char_id title greeting now (sv_store ?sv) = Inr st" for tid first alt char_id title greeting st
    using call_rests_trans [OF call_rests_quiet [OF create_thread_quiet [OF that]] on [of "?sv\<lparr>sv_store := st\<rparr>" tid, simplified]] .
  then have "call_rests cid (sv_store ?sv) (sv_store (snd (start_call x sid mid thread fresh character preflight now done sv)))"
    using on by (cases fresh) (auto simp: start_call_def Let_def call_rests_same split: option.split sum.split)
  then show ?thesis by (rule call_rests_trans [OF reconcile_rests])
qed

lemma op_rests:
  assumes "server_enabled a sv" "server_ok sv" "over_call cid sv"
  shows "call_rests cid (sv_store sv) (sv_store (serve a sv))"
proof -
  note ok = assms(2) server_okD(4) [OF assms(2)]
  have table: "call_rests cid (sv_store sv) (sv_store (on_store f sv))"
    if "\<And>st. f (sv_store sv) = Inr st \<Longrightarrow> quiet (sv_store sv) st" for f
    using that by (rule table_rests)
  have generated: "regenerate_end x y z w (sv_store sv) = Inr st \<Longrightarrow> quiet (sv_store sv) st"
    "swipe_end x y z w (sv_store sv) = Inr st \<Longrightarrow> quiet (sv_store sv) st"
    "continue_end x y z v w (sv_store sv) = Inr st \<Longrightarrow> quiet (sv_store sv) st" for x y z v w st
    unfolding regenerate_end_def swipe_end_def continue_end_def
    by (erule replace_quiet [OF ok(2)] add_quiet [OF ok(2)])+
  note actions = generated create_thread_quiet rename_quiet append_quiet select_quiet edit_quiet [OF ok(2)]
    truncate_quiet [OF ok(2)] keep_quiet
  have status: "call_rests cid (sv_store sv) (sv_store (snd (call_turn_status x turn sha done now sv)))" for x turn sha "done" now
    using existing_rests [OF ok(1)] by (auto simp: call_turn_status_def split_beta call_rests_same split: option.split)
  have event: "call_rests cid (sv_store sv) (sv_store (snd (record_event mid x type body now sv)))" for mid x type body now
    using call_rests_quiet [OF append_quiet] by (auto simp: record_event_def Let_def call_rests_same split: option.split sum.split)
  have seed: "call_rests cid (sv_store sv) ((sv_store sv)\<lparr>st_characters := u\<rparr>)" "call_rests cid (sv_store sv) ((sv_store sv)\<lparr>st_voices := v\<rparr>)" for u v
    by (rule call_rests_quiet, rule quiet_rows; simp add: other_tables)+
  show ?thesis
    using assms(1)
    by (cases a)
      (simp_all add: call_rests_same seed start_rests reserve_rests [OF ok(1) assms(3)] user_rests [OF ok(1) assms(3)]
        commit_rests [OF ok(1) assms(3)] end_write_rests status event delete_rests [OF ok(1)]
        reconcile_rests, (rule table, erule actions)+, rule finish_rests [OF ok(1)], force+)
qed

lemma over_put [simp]: "over_call cid (put_call x c sv) = (if x = cid then ac_ended c \<noteq> None else over_call cid sv)"
  by (simp add: over_call_def)

lemma over_store [simp]: "over_call cid (sv\<lparr>sv_store := st\<rparr>) = over_call cid sv"
  by (simp add: over_call_def)

lemma over_on_store [simp]: "over_call cid (on_store f sv) = over_call cid sv"
  by (simp add: on_store_def split: sum.split)

lemma ended_fields [simp]:
  "ac_ended (drop_owner t c) = ac_ended c" "ac_ended (set_turn_state t s c) = ac_ended c"
  "ac_ended (drop_pending t c) = ac_ended c" "ac_ended (own_reservation t w k c) = ac_ended c"
  "ac_ended (discard_turn_owner t w k c) = ac_ended c" "ac_ended (cancel_in_memory c) = ac_ended c"
  by (simp_all add: drop_owner_def set_turn_state_def drop_pending_def own_reservation_def discard_turn_owner_def
      cancel_in_memory_def Let_def split: option.split)

lemma terminalize_ended [simp]: "ac_ended (fst (snd (terminalize_stale_turn now done k r c st))) = ac_ended c"
  by (simp add: terminalize_stale_turn_def Let_def)

lemma over_with_call: "over_call cid sv \<Longrightarrow> (\<And>c. ac_ended (f c) = ac_ended c) \<Longrightarrow> over_call cid (snd (with_call x f sv))"
  using over_cases [of cid sv] by (auto simp: with_call_def split: option.split)

lemma over_existing [simp]:
  "over_call cid (snd (existing_turn_reservation now done sha x k r c sv))
     = (if x = cid then ac_ended c \<noteq> None else over_call cid sv)"
  by (simp add: existing_turn_reservation_def split_beta)

lemma over_reconcile_turn: "over_call cid sv \<Longrightarrow> over_call cid (reconcile_turn now done k sv)"
  using over_cases [of cid sv] by (auto simp: reconcile_turn_def split_beta split: option.split)

lemma over_reconcile: "over_call cid sv \<Longrightarrow> over_call cid (reconcile_stale_call_turns now done sv)"
  unfolding reconcile_stale_call_turns_def by (rule fold_keeps [where P = "over_call cid"]) (simp_all add: over_reconcile_turn)

lemma over_reserve: "over_call cid sv \<Longrightarrow> over_call cid (snd (reserve_call_turn x turn sha rid owner task commit done now sv))"
  using over_cases [of cid sv]
  by (auto simp: reserve_call_turn_def Let_def split_beta split: option.split sum.split commit_end.split)

lemma over_status: "over_call cid sv \<Longrightarrow> over_call cid (snd (call_turn_status x turn sha done now sv))"
  using over_cases [of cid sv]
  by (auto simp: call_turn_status_def split_beta split: option.split)

lemma over_start:
  assumes "over_call cid sv" "x \<noteq> cid"
  shows "over_call cid (snd (start_call x sid mid thread fresh character preflight now done sv))"
proof -
  have on: "over_call cid s \<Longrightarrow> over_call cid (snd (start_call_on x sid mid tid preflight now s))" for s tid
    using assms(2) by (auto simp: start_call_on_def Let_def split: sum.split)
  then show ?thesis
    using over_reconcile [OF assms(1), of now "done"]
    by (cases fresh) (auto simp: start_call_def Let_def split: option.split sum.split)
qed

lemma over_refuse [simp]:
  "over_call cid (snd (refuse_completion e x turn c sv)) = (if x = cid then ac_ended c \<noteq> None else over_call cid sv)"
  by (simp add: refuse_completion_def)

lemma over_speech:
  assumes "over_call cid sv"
  shows "over_call cid (snd (record_event mid x type body now sv))"
    "over_call cid (snd (record_reserved_user_speech mid x turn body owner now sv))"
    "over_call cid (snd (complete_begin x turn owner completed sv))"
    "over_call cid (snd (complete_stage mid x turn body w now sv))"
    "over_call cid (snd (complete_commit x now sv))" "over_call cid (complete_abort x turn sv)"
    "over_call cid (snd (finish_call_turn x turn state owner now sv))"
    "over_call cid (snd (end_call_write mid x now sv))"
    "over_call cid (snd (register_active_turn x task sv))" "over_call cid (snd (begin_end_mark x now sv))"
  using assms over_cases [OF assms]
  by (auto simp: record_event_def record_reserved_user_speech_def complete_begin_def complete_stage_def complete_commit_def
      complete_abort_def finish_call_turn_def end_call_write_def register_active_turn_def begin_end_mark_def Let_def split_beta
      split: option.split sum.split)

lemma over_memory:
  assumes "over_call cid sv"
  shows "over_call cid (snd (set_muted_flag x muted sv))" "over_call cid (snd (attach_session x sid sv))"
    "over_call cid (snd (drop_tasks x tasks sv))" "over_call cid (snd (begin_end_settle x tasks sv))"
    "over_call cid (snd (unregister_active_turn x task tn ow sv))"
  unfolding set_muted_flag_def attach_session_def drop_tasks_def begin_end_settle_def unregister_active_turn_def
  by (rule over_with_call [OF assms]; simp add: Let_def split: option.split)+

definition starts_call :: "string \<Rightarrow> server_op \<Rightarrow> bool" where
  "starts_call cid a = (case a of
       Start_call x sid mid thread fresh character preflight now done \<Rightarrow> x = cid
     | _ \<Rightarrow> False)"

lemma op_over:
  assumes "over_call cid sv" "\<not> starts_call cid a"
  shows "over_call cid (serve a sv)"
  using assms(2) over_speech [OF assms(1)] over_memory [OF assms(1)]
  by (cases a) (simp_all add: assms(1) starts_call_def over_reserve over_status over_reconcile over_start, simp add: over_call_def)

lemma run_rests:
  "run_of server_step sv ops sv' \<Longrightarrow> server_ok sv \<Longrightarrow> over_call cid sv \<Longrightarrow> \<forall>a \<in> set ops. \<not> starts_call cid a
   \<Longrightarrow> call_rests cid (sv_store sv) (sv_store sv') \<and> over_call cid sv'"
proof (induction rule: run_of.induct)
  case (run_nil s)
  then show ?case by (simp add: call_rests_same)
next
  case (run_cons s a t ops u)
  have t: "t = serve a s" "server_enabled a s" using run_cons.hyps(1) by (auto elim: server_stepE)
  have "server_ok t" using op_server_ok [OF t(2) run_cons.prems(1)] t(1) by simp
  moreover have "over_call cid t" using op_over [OF run_cons.prems(2)] run_cons.prems(3) t(1) by simp
  moreover have "call_rests cid (sv_store s) (sv_store t)"
    using op_rests [OF t(2) run_cons.prems(1,2)] t(1) by simp
  ultimately show ?case
    using run_cons.IH run_cons.prems(3) by (auto intro: call_rests_trans)
qed

section \<open>Leases that have run out\<close>

definition settled :: "rat \<Rightarrow> nat set \<Rightarrow> server \<Rightarrow> string \<Rightarrow> bool" where
  "settled now done sv k = (case dget (st_turns (sv_store sv)) k of
       None \<Rightarrow> True
     | Some r \<Rightarrow> open_turn (ct_state r) \<and> lease_over now r \<longrightarrow>
         (case dget (sv_calls sv) (ct_call r) of None \<Rightarrow> False | Some c \<Rightarrow> turn_owner_is_live done r c))"

lemma closed_turn [simp]: "\<not> open_turn (ct_state (close_turn Turn_failed now r))"
  by (simp add: close_turn_def open_turn_def)

lemma reconcile_turn_settles: "settled now done (reconcile_turn now done k sv) k"
  by (auto simp: settled_def reconcile_turn_def terminalize_stale_turn_def turn_is_stale_def put_turn_def Let_def split_beta
      split: option.split)

lemma live_other:
  "t \<noteq> ct_turn r \<Longrightarrow> turn_owner_is_live done r (drop_owner t (set_turn_state t s c)) = turn_owner_is_live done r c"
  by (simp add: turn_owner_is_live_def drop_owner_def set_turn_state_def)

lemma reconcile_turn_keeps_settled:
  assumes "server_ok sv" "settled now done sv k"
  shows "settled now done (reconcile_turn now done j sv) k"
proof (cases "j = k")
  case False
  let ?sv = "reconcile_turn now done j sv"
  show ?thesis
  proof (cases "dget (st_turns (sv_store sv)) k")
    case None
    then have "dget (st_turns (sv_store ?sv)) k = None"
      using spec [OF reconcile_turn_lapse [of now sv "done" j, unfolded rows_lapse_def], of k] by simp
    then show ?thesis by (simp add: settled_def)
  next
    case (Some r)
    have row: "dget (st_turns (sv_store ?sv)) k = Some r"
      using Some False
      by (auto simp: reconcile_turn_def terminalize_stale_turn_def put_turn_def Let_def split_beta split: option.split)
    have live: "case dget (sv_calls ?sv) (ct_call r) of None \<Rightarrow> False | Some c \<Rightarrow> turn_owner_is_live done r c"
      if "dget (sv_calls sv) (ct_call r) = Some c" "turn_owner_is_live done r c" for c
    proof (cases "dget (st_turns (sv_store sv)) j")
      case (Some q)
      have "\<not> (ct_call q = ct_call r \<and> ct_turn q = ct_turn r)"
        using find_turn_iff [OF server_okD(4) [OF assms(1)], of "ct_call r" "ct_turn r"] Some
          \<open>dget (st_turns (sv_store sv)) k = Some r\<close> False by (metis option.inject prod.inject)
      then show ?thesis
        using that Some live_other [of "ct_turn q" r "done" Turn_failed c]
        by (cases "ct_call q = ct_call r")
          (simp_all add: reconcile_turn_def terminalize_stale_turn_def Let_def split_beta split: option.split)
    qed (use that in \<open>simp add: reconcile_turn_def\<close>)
    show ?thesis
      using assms(2) Some row live by (auto simp: settled_def split: option.split_asm)
  qed
qed (simp add: reconcile_turn_settles)

lemma fold_reconcile_settles:
  "server_ok sv \<Longrightarrow> settled now done sv k \<or> k \<in> set ks \<Longrightarrow> settled now done (fold (reconcile_turn now done) ks sv) k"
proof (induction ks arbitrary: sv)
  case (Cons j ks)
  have "settled now done (reconcile_turn now done j sv) k \<or> k \<in> set ks"
    using Cons.prems reconcile_turn_settles reconcile_turn_keeps_settled by auto
  then show ?case using Cons.IH [OF reconcile_turn_server_ok [OF Cons.prems(1)]] by simp
qed simp

lemma reconcile_settles:
  assumes "server_ok sv"
  shows "settled now done (reconcile_stale_call_turns now done sv) k"
  unfolding reconcile_stale_call_turns_def
proof (rule fold_reconcile_settles [OF assms])
  have "dict_ok (st_turns (sv_store sv))" using server_okD(4) [OF assms] by (simp add: store_ok_def keys_ok_def)
  from dfilter_keys [OF this, of k "\<lambda>_ r. open_turn (ct_state r) \<and> lease_over now r"]
  show "settled now done sv k
    \<or> k \<in> set (map fst (dfilter (\<lambda>_ r. open_turn (ct_state r) \<and> lease_over now r) (st_turns (sv_store sv))))"
    by (auto simp: settled_def split: option.split)
qed

section \<open>Edits\<close>

definition later :: "message_row \<Rightarrow> message_row \<Rightarrow> bool" where
  "later m n \<longleftrightarrow> ms_thread n = ms_thread m \<and> ms_sequence m < ms_sequence n"

lemma update_message_get:
  "dget (st_messages (update_message mid f st)) k
     = (if k = mid then map_option f (dget (st_messages st) mid) else dget (st_messages st) k)"
  by (simp add: update_message_def split: option.split)

lemma mark_later_get:
  "dget (st_messages (mark_later_stale m now st)) k
     = map_option (\<lambda>n. if later m n then n\<lparr>ms_stale := True, ms_updated := now\<rparr> else n) (dget (st_messages st) k)"
  by (simp add: mark_later_stale_def later_def)

lemma edit_user_get:
  assumes "store_ok st" "edit_message mid body now st = Inr st1" "dget (st_messages st) mid = Some m" "ms_role m = ''user''"
  shows "dget (st_messages st1) mid = Some (m\<lparr>ms_content := Some body, ms_updated := now, ms_stale := False\<rparr>)"
    and "k \<noteq> mid \<Longrightarrow> dget (st_messages st1) k
      = map_option (\<lambda>n. if later m n then n\<lparr>ms_stale := True, ms_updated := now\<rparr> else n) (dget (st_messages st) k)"
proof -
  let ?st0 = "update_message mid (\<lambda>n. n\<lparr>ms_content := Some body, ms_updated := now\<rparr>) st"
  let ?st1 = "edit_selected mid m body now ?st0"
  have "touch_thread (ms_thread m) now (mark_later_stale m now (update_message mid (\<lambda>n. n\<lparr>ms_stale := False\<rparr>) ?st1)) = Inr st1"
    using assms(2-4) by (auto simp: edit_message_def get_message_def bind_res_Inr_iff Let_def)
  note touched = touch_thread_views(1) [OF this]
  have "store_ok ?st0" by (rule update_message_ok [OF assms(1,3)]) (simp_all add: same_place_def)
  note selected = edit_selected_ok(2) [OF this, of mid m body now]
  have get: "dget (st_messages st1) j
      = map_option (\<lambda>n. if later m n then n\<lparr>ms_stale := True, ms_updated := now\<rparr> else n)
          (if j = mid then Some (m\<lparr>ms_content := Some body, ms_updated := now, ms_stale := False\<rparr>) else dget (st_messages st) j)" for j
    unfolding touched mark_later_get update_message_get selected using assms(3) by (simp add: update_message_get)
  show "dget (st_messages st1) mid = Some (m\<lparr>ms_content := Some body, ms_updated := now, ms_stale := False\<rparr>)"
    by (simp add: get later_def)
  show "k \<noteq> mid \<Longrightarrow> dget (st_messages st1) k
      = map_option (\<lambda>n. if later m n then n\<lparr>ms_stale := True, ms_updated := now\<rparr> else n) (dget (st_messages st) k)"
    by (simp add: get)
qed

lemma truncate_get:
  assumes "store_ok st" "truncate_stale_after mid now st = Inr st'" "dget (st_messages st) mid = Some m"
  shows "dget (st_messages st') k
    = (case dget (st_messages st) k of None \<Rightarrow> None | Some n \<Rightarrow> if stale_after m n then None else Some n)"
  using assms(2)
proof (rule truncate_Inr)
  fix m'
  assume m': "dget (st_messages st) mid = Some m'"
    and t: "touch_thread (ms_thread m') now
       (delete_messages (set (map fst (dfilter (\<lambda>_ n. stale_after m' n) (st_messages st)))) st) = Inr st'"
  have "m' = m" using m' assms(3) by simp
  have ok: "dict_ok (st_messages st)" using assms(1) by (simp add: store_ok_def keys_ok_def)
  show ?thesis
    unfolding touch_thread_views(1) [OF t] delete_messages_def
    using dfilter_keys [OF ok, of k "\<lambda>_ n. stale_after m' n"] dget_dfilter [OF ok] \<open>m' = m\<close>
    by (auto split: option.split)
qed

end
