(* ===== verification/ChatProperties.thy ===== *)
theory ChatProperties
  imports ChatTheorems
begin

text \<open>
  The properties of the web server's tables, calls and turns over its reachable states and runs, and
  one call from its start to its end as the concrete run at which they apply.
\<close>

section \<open>A run of one call\<close>

primrec served :: "server_op list \<Rightarrow> server \<Rightarrow> bool" where
  "served [] sv = True"
| "served (a # ops) sv = (server_enabled a sv \<and> served ops (serve a sv))"

lemma run_served: "served ops sv \<Longrightarrow> run_of server_step sv ops (fold serve ops sv)"
  by (induction ops arbitrary: sv) (auto intro: run_of.intros served_op)

definition first_server :: server where
  "first_server = \<lparr>sv_store = \<lparr>st_characters = [], st_voices = [], st_threads = [], st_messages = [],
     st_alternates = [], st_turns = []\<rparr>, sv_calls = []\<rparr>"

definition demo_ops :: "server_op list" where
  "demo_ops =
    [Set_voice ''v'' \<lparr>vo_name = lit ''Ann'', vo_engine = lit ''qwen3_1_7b'', vo_deleted = None\<rparr>,
     Set_character ''h'' \<lparr>cr_card = \<lparr>cd_name = lit ''Bo'', cd_description = None, cd_personality = None,
         cd_scenario = None, cd_first_mes = Some (lit ''Hi''), cd_mes_example = None, cd_system_prompt = None,
         cd_post_history = None, cd_lorebook = None, cd_raw_source = None\<rparr>,
       cr_greetings = [], cr_voice = Some ''v'', cr_deleted = None\<rparr>,
     Create_thread ''t'' ''m0'' ''a0'' ''h'' None None 0,
     Start_call ''c'' ''s'' ''m1'' (Some ''t'') ([], [], []) None (''v'', lit ''qwen3_1_7b'') 1 {},
     Reserve ''c'' ''u'' ''d'' ''r'' ''w'' None Commit_returns {} 2,
     User_speech ''m2'' ''c'' ''u'' (lit ''Hey'') (Some ''w'') 3,
     Complete_begin ''c'' ''u'' (Some ''w'') True,
     Complete_stage ''m3'' ''c'' ''u'' (lit ''Yes'') ''w'' 4,
     Complete_commit ''c'' 5,
     End_mark ''c'' 6,
     End_settle ''c'' {},
     End_write ''m4'' ''c'' 7]"

definition demo :: "nat \<Rightarrow> server" where
  "demo n = fold serve (take n demo_ops) first_server"

lemma demo_served: "served demo_ops first_server"
  by code_simp


lemma served_take: "served ops sv \<Longrightarrow> served (take n ops) sv"
  by (induction ops arbitrary: sv n) (auto simp: take_Cons split: nat.split)

lemma demo_reach: "reach server_init server_step (demo n)"
proof (rule run_of_reach)
  show "run_of server_step first_server (take n demo_ops) (demo n)"
    unfolding demo_def by (rule run_served [OF served_take [OF demo_served]])
  show "reach server_init server_step first_server"
    by (rule reach.reach_init) (simp add: server_init_def empty_store_def first_server_def)
qed

text \<open>The tables after the answer of the run.\<close>

definition told :: "int \<Rightarrow> string \<Rightarrow> string \<Rightarrow> string \<Rightarrow> rat \<Rightarrow> message_row" where
  "told n kind role s now = \<lparr>ms_thread = ''t'', ms_call = None, ms_call_turn = None, ms_kind = kind, ms_role = role,
     ms_sequence = n, ms_content = Some (lit s), ms_selected = None, ms_stale = False, ms_created = now, ms_updated = now\<rparr>"

definition bo :: card where
  "bo = \<lparr>cd_name = lit ''Bo'', cd_description = None, cd_personality = None, cd_scenario = None,
     cd_first_mes = Some (lit ''Hi''), cd_mes_example = None, cd_system_prompt = None, cd_post_history = None,
     cd_lorebook = None, cd_raw_source = None\<rparr>"

definition answered :: store where
  "answered =
    \<lparr>st_characters = [(''h'', \<lparr>cr_card = bo, cr_greetings = [], cr_voice = Some ''v'', cr_deleted = None\<rparr>)],
     st_voices = [(''v'', \<lparr>vo_name = lit ''Ann'', vo_engine = lit ''qwen3_1_7b'', vo_deleted = None\<rparr>)],
     st_threads = [(''t'', \<lparr>th_character = Some ''h'', th_title = lit ''Bo'', th_snapshot = bo, th_last = Some 4,
       th_deleted = None, th_created = 0, th_updated = 4\<rparr>)],
     st_messages =
       [(''m0'', (told 0 ''ai_text'' ''assistant'' ''Hi'' 0)\<lparr>ms_selected := Some ''a0''\<rparr>),
        (''m1'', told 1 ''call_start'' ''event'' ''Call started'' 1),
        (''m2'', told 2 ''user_speech'' ''user'' ''Hey'' 3),
        (''m3'', (told 3 ''ai_speech'' ''assistant'' ''Yes'' 4)\<lparr>ms_call := Some ''c'', ms_call_turn := Some ''u''\<rparr>)],
     st_alternates = [(''a0'', \<lparr>al_message = ''m0'', al_index = 0, al_content = lit ''Hi'', al_action = ''first_mes'',
       al_root = None, al_created = 0, al_updated = 0\<rparr>)],
     st_turns = [(''r'', \<lparr>ct_call = ''c'', ct_turn = ''u'', ct_thread = ''t'', ct_sha = ''d'', ct_state = Turn_done,
       ct_owner = None, ct_lease = None, ct_user = Some ''m2'', ct_assistant = Some ''m3'', ct_created = 2,
       ct_updated = 5\<rparr>)]\<rparr>"

lemma demo_answered: "sv_store (demo 9) = answered"
  by code_simp

section \<open>Reachable states\<close>

text \<open>
  \<^bold>\<open>C19\<close>. The tables are well-formed. In every reachable state of the web server the primary keys, the
  sequence numbers of a thread, the turn identifiers of a call and the indices of a message's
  alternates are unique, every message, alternate and turn refers to rows that exist, the selected
  alternate of a message is one of its own, and the columns have declared values; whatever requests
  have created, generated, edited, truncated, deleted, said and ended, in any order.
\<close>

theorem tables_are_well_formed:
  assumes "reach server_init server_step sv"
  shows "store_ok (sv_store sv)"
  using chat.inv_reach [OF assms] by (simp add: server_ok_def data_ok_def)

text \<open>
  \<^bold>\<open>C4\<close>. An assistant's message proves a completed turn. In every reachable state, a message that
  carries a call and a turn is the assistant's message of the row of this turn, in the thread of the
  row; the row is completed, has the user's message, and has no owner left.
\<close>

theorem assistant_message_means_completed:
  assumes "reach server_init server_step sv" "dget (st_messages (sv_store sv)) m = Some n"
    and "ms_call n = Some c" "ms_call_turn n = Some t"
  shows "case find_turn c t (sv_store sv) of
           None \<Rightarrow> False
         | Some (k, r) \<Rightarrow> ct_state r = Turn_done \<and> ct_assistant r = Some m \<and> ct_thread r = ms_thread n
             \<and> ct_user r \<noteq> None \<and> ct_owner r = None"
proof -
  note ok = chat.inv_reach [OF assms(1)]
  have said: "said_in (sv_store sv) m = Some (c, t)" using assms(2-4) by (simp add: said_in_def row_turn_def)
  have "answers m c t (sv_store sv)" by (rule spoken_okD [OF data_okD(3) [OF server_okD(1) [OF ok]] said])
  then obtain k r where r: "find_turn c t (sv_store sv) = Some (k, r)" "ct_assistant r = Some m"
    "msg_thread (sv_store sv) m = Some (ct_thread r)"
    by (auto simp: answers_def split: option.split_asm)
  have "turn_ok r" by (rule turns_ok_get [OF data_okD(2) [OF server_okD(1) [OF ok]]]) (use call_row [OF ok r(1)] in blast)
  then have "ct_state r = Turn_done" "ct_user r \<noteq> None" "ct_owner r = None"
    using r(2) by (auto simp: turn_ok_def open_turn_def)
  then show ?thesis using r assms(2) by (simp add: msg_thread_def)
qed


text \<open>
  \<^bold>\<open>C6\<close>. The row of a turn follows its protocol. Whatever step the server makes from a reachable
  state, a row of a turn stays, or goes from reserved to running with the user's message, from running
  to completed with the assistant's, or from open to failed or cancelled without an owner; a new row
  has no messages and is reserved, or closed already by a failed reservation; and a row goes only with
  its thread. A turn that is over never changes again.
\<close>

theorem turn_follows_protocol:
  assumes "reach server_init server_step sv" "server_step sv a sv'"
  shows "row_step a (dget (st_turns (sv_store sv)) k) (dget (st_turns (sv_store sv')) k)
    \<and> (case (dget (st_turns (sv_store sv)) k, dget (st_turns (sv_store sv')) k) of
         (Some r, Some q) \<Rightarrow> open_turn (ct_state r) \<or> q = r
       | _ \<Rightarrow> True)"
proof -
  have sv': "server_enabled a sv" "sv' = serve a sv" using assms(2) by (auto elim: server_stepE)
  have step: "row_step a (dget (st_turns (sv_store sv)) k) (dget (st_turns (sv_store sv')) k)"
    using op_rows_step [OF sv'(1) chat.inv_reach [OF assms(1)]] by (simp add: rows_step_def sv'(2))
  have final: "turn_move r q \<Longrightarrow> open_turn (ct_state r) \<or> q = r" for r q
    by (erule turn_moveE) (simp_all add: open_turn_def)
  then show ?thesis using step by (auto split: option.split dest: final)
qed

text \<open>
  \<^bold>\<open>C9\<close>. Nothing is said in a call that has ended. From a state in which the call has ended, on every
  run that does not start a call under the same identifier: no message of one of its turns is added,
  no turn is reserved, and the rows of its turns stay or close as failed or cancelled; late requests
  of the call, reservations, commits of answers that were staged before the end, and the steps of
  other calls included.
\<close>

theorem ended_call_adds_nothing:
  assumes "reach server_init server_step sv" "dget (sv_calls sv) cid = Some c" "ac_ended c \<noteq> None"
    and "run_of server_step sv ops sv'" "\<forall>a \<in> set ops. \<not> starts_call cid a"
  shows "(said_in (sv_store sv') m = Some (cid, t) \<longrightarrow> said_in (sv_store sv) m = Some (cid, t))
    \<and> (case dget (st_turns (sv_store sv')) k of
         None \<Rightarrow> True
       | Some q \<Rightarrow> ct_call q = cid \<longrightarrow>
           (case dget (st_turns (sv_store sv)) k of
              None \<Rightarrow> False
            | Some r \<Rightarrow> ct_call r = cid \<and> (ct_state q = ct_state r \<or> ct_state q \<in> {Turn_failed, Turn_cancelled})))"
proof -
  have "over_call cid sv" using assms(2,3) by (simp add: over_call_def)
  from run_rests [OF assms(4) chat.inv_reach [OF assms(1)] this assms(5)]
  have "call_rests cid (sv_store sv) (sv_store sv')" by simp
  then show ?thesis using call_restsD by (auto split: option.split)
qed

text \<open>
  \<^bold>\<open>C27\<close>. A turn whose owner is gone is failed. After the reconciliation that every start of a call
  runs, each turn that is still open and whose lease has run out has a live owner: its call is in
  memory, the owner in memory is the owner of the row, and its task has not finished. In particular no
  turn of an earlier process stays open past its lease.
\<close>

theorem expired_turns_are_failed:
  assumes "reach server_init server_step sv"
    and "dget (st_turns (sv_store (reconcile_stale_call_turns now done sv))) k = Some r"
    and "open_turn (ct_state r)" "lease_over now r"
  shows "case dget (sv_calls (reconcile_stale_call_turns now done sv)) (ct_call r) of
           None \<Rightarrow> False | Some c \<Rightarrow> turn_owner_is_live done r c"
  using reconcile_settles [OF chat.inv_reach [OF assms(1)], of now "done" k] assms(2-4) by (simp add: settled_def)

text \<open>
  \<^bold>\<open>C39\<close>. The end of a call closes its turns. When the write of the end succeeds for the first time, no
  turn of the call is open afterwards, and the message of the end is in the thread of the call.
\<close>

theorem recorded_end_closes_turns:
  assumes "reach server_init server_step sv" "dget (sv_calls sv) cid = Some c" "\<not> ac_end_recorded c"
    and "end_call_write mid cid now sv = (Inr (), sv')"
  shows "(case find_turn cid t (sv_store sv') of None \<Rightarrow> True | Some (k, r) \<Rightarrow> \<not> open_turn (ct_state r))
    \<and> msg_thread (sv_store sv') mid = Some (ac_thread c)"
proof -
  let ?st = "cancel_open_turns cid now (sv_store sv)"
  obtain st where st: "append_message mid (ac_thread c) ''call_end'' ''event'' (lit ''Call ended'') now ?st = Inr st"
    "sv_store sv' = st"
    using assms(2-4) by (auto simp: end_call_write_def split: sum.split_asm)
  obtain st1 where st1: "insert_message mid (staged_message (ac_thread c) ''call_end'' ''event'' (lit ''Call ended'')
      None None now ?st) st1 = Inr st"
    using st(1) by (auto simp: append_message_def bind_res_Inr_iff)
  have "find_turn cid t st = find_turn cid t ?st" by (rule find_turn_turns [OF quietD(1) [OF append_quiet [OF st(1)]]])
  then show ?thesis
    using insert_message_cases(1) [OF st1]
    by (auto simp: st(2) cancel_find close_turn_def open_turn_def msg_thread_def staged_message_def split: option.split)
qed

section \<open>Edits of a thread\<close>

text \<open>
  \<^bold>\<open>C40\<close>. An edit and a truncation keep the thread up to the edited message. After the edit of a user's
  message and the truncation that follows it, the messages that are left are those of other threads,
  unchanged, and those of the thread up to the edited one, which has the new content and is not stale;
  the later ones are gone.
\<close>

theorem edit_then_truncate_keeps_prefix:
  assumes "store_ok st" "dget (st_messages st) mid = Some m" "ms_role m = ''user''"
    and "edit_message mid body now st = Inr st1" "truncate_stale_after mid now' st1 = Inr st2"
  shows "dget (st_messages st2) k =
    (if k = mid then Some (m\<lparr>ms_content := Some body, ms_updated := now, ms_stale := False\<rparr>)
     else case dget (st_messages st) k of
            None \<Rightarrow> None
          | Some n \<Rightarrow> if ms_thread n = ms_thread m \<and> ms_sequence m < ms_sequence n then None else Some n)"
proof -
  note edited = edit_user_get [OF assms(1,4,2,3)]
  note cut = truncate_get [OF edit_message_ok [OF assms(1,4)] assms(5) edited(1), of k]
  show ?thesis
  proof (cases "k = mid")
    case True
    then show ?thesis using cut edited(1) by (simp add: stale_after_def)
  next
    case False
    then show ?thesis using cut edited(2) [OF False] by (auto simp: stale_after_def later_def split: option.split)
  qed
qed

text \<open>
  A swiped answer to an edited message stays stale. For a message that an edit has marked stale,
  a regeneration clears the mark, but a swipe does not, although it generates a new answer in the same
  way: the message stays stale with the new answer selected, so that it is left out of later prompts,
  and the truncation at an earlier message of the thread deletes it.
\<close>

theorem swiped_answer_stays_stale:
  assumes "store_ok st" "dget (st_messages st) mid = Some m" "ms_stale m" "ai_kind m"
    and "swipe_end aid mid generated now st = Inr st1" "regenerate_end aid mid generated now st = Inr st2"
    and "dget (st_messages st) uid = Some u" "ms_thread u = ms_thread m" "ms_sequence u < ms_sequence m"
    and "truncate_stale_after uid now' st1 = Inr st3"
  shows "dget (st_messages st1) mid = Some (m\<lparr>ms_selected := Some aid, ms_updated := now\<rparr>)
    \<and> map_option ms_stale (dget (st_messages st2) mid) = Some False
    \<and> dget (st_messages st3) mid = None"
proof -
  have m: "get_ai_message mid st = Inr m" using assms(2,4) by (simp add: get_ai_message_Inr)
  obtain s1 where s1: "new_alternate aid mid generated ''swipe'' now st = Inr s1"
    "touch_thread (ms_thread m) now (update_message mid (\<lambda>n. n\<lparr>ms_selected := Some aid, ms_updated := now\<rparr>) s1) = Inr st1"
    using assms(5) m by (auto simp: swipe_end_def add_selected_alternate_def bind_res_Inr_iff)
  obtain s2 where s2: "new_alternate aid mid generated ''regenerate'' now st = Inr s2"
    "touch_thread (ms_thread m) now (update_message mid (\<lambda>n. n\<lparr>ms_content := Some generated, ms_selected := Some aid,
       ms_stale := False, ms_updated := now\<rparr>) s2) = Inr st2"
    using assms(6) m by (auto simp: regenerate_end_def replace_selected_ai_response_def bind_res_Inr_iff)
  have rows: "st_messages s1 = st_messages st" "st_messages s2 = st_messages st"
    using new_alternate_ok(2) [OF assms(1)] s1(1) s2(1) by simp_all
  have swiped: "dget (st_messages st1) k
      = (if k = mid then Some (m\<lparr>ms_selected := Some aid, ms_updated := now\<rparr>) else dget (st_messages st) k)" for k
    unfolding touch_thread_views(1) [OF s1(2)] update_message_get rows using assms(2) by simp
  have regenerated: "map_option ms_stale (dget (st_messages st2) mid) = Some False"
    unfolding touch_thread_views(1) [OF s2(2)] update_message_get rows using assms(2) by simp
  have ok1: "store_ok st1" using add_selected_ok [OF assms(1)] assms(5) by (simp add: swipe_end_def)
  have "uid \<noteq> mid" using assms(2,7,9) by auto
  then have "dget (st_messages st1) uid = Some u" using swiped assms(7) by simp
  from truncate_get [OF ok1 assms(10) this, of mid]
  have "dget (st_messages st3) mid = None" using swiped [of mid] assms(3,8,9) by (simp add: stale_after_def)
  then show ?thesis using swiped [of mid] regenerated by simp
qed


section \<open>The properties on the run\<close>

lemma tables_ok9: "store_ok answered"
  using server_okD(4) [OF chat.inv_reach [OF demo_reach [of 9]]] by (simp add: demo_answered)

lemma demo_row: "find_turn ''c'' ''u'' answered = Some (''r'', the (dget (st_turns answered) ''r''))"
  by code_simp

theorem tables_are_well_formed_witness: "store_ok (sv_store (demo 12))"
  by (rule tables_are_well_formed [OF demo_reach])

theorem assistant_message_means_completed_witness:
  "ct_state (the (dget (st_turns answered) ''r'')) = Turn_done"
proof -
  have "dget (st_messages answered) ''m3'' = Some (the (dget (st_messages answered) ''m3''))"
    "ms_call (the (dget (st_messages answered) ''m3'')) = Some ''c''"
    "ms_call_turn (the (dget (st_messages answered) ''m3'')) = Some ''u''"
    by code_simp+
  from assistant_message_means_completed [OF demo_reach [of 9], unfolded demo_answered, OF this] show ?thesis by (simp add: demo_row)
qed


lemma demo_step: "server_step (demo 8) (Complete_commit ''c'' 5) (demo 9)"
proof -
  have "demo 9 = serve (Complete_commit ''c'' 5) (demo 8)" by (simp add: demo_def demo_ops_def)
  then show ?thesis using served_op [of "Complete_commit ''c'' 5" "demo 8"] by simp
qed

theorem turn_follows_protocol_witness:
  "turn_move (the (dget (st_turns (sv_store (demo 8))) ''r'')) (the (dget (st_turns answered) ''r''))"
proof -
  have "dget (st_turns (sv_store (demo 8))) ''r'' = Some (the (dget (st_turns (sv_store (demo 8))) ''r''))"
    "dget (st_turns answered) ''r'' = Some (the (dget (st_turns answered) ''r''))"
    by code_simp+
  then obtain r q where rows: "dget (st_turns (sv_store (demo 8))) ''r'' = Some r" "dget (st_turns answered) ''r'' = Some q"
    by blast
  show ?thesis using turn_follows_protocol [OF demo_reach demo_step, of "''r''"] by (simp add: rows demo_answered)
qed

definition after_end :: "server_op list" where
  "after_end = [Reserve ''c'' ''x'' ''d'' ''q'' ''w'' None Commit_returns {} 8,
     User_speech ''m5'' ''c'' ''x'' (lit ''Hey'') None 9]"

theorem ended_call_adds_nothing_witness:
  "case dget (st_turns (sv_store (fold serve after_end (demo 10)))) ''q'' of
     None \<Rightarrow> True | Some q \<Rightarrow> ct_call q \<noteq> ''c''"
proof -
  have c: "dget (sv_calls (demo 10)) ''c'' = Some (the (dget (sv_calls (demo 10)) ''c''))"
    "ac_ended (the (dget (sv_calls (demo 10)) ''c'')) \<noteq> None" "served after_end (demo 10)"
    "dget (st_turns (sv_store (demo 10))) ''q'' = None"
    by code_simp+
  have "\<forall>a \<in> set after_end. \<not> starts_call ''c'' a" by (simp add: after_end_def starts_call_def)
  from ended_call_adds_nothing [OF demo_reach c(1,2) run_served [OF c(3)] this, of "''m5''" "''x''" "''q''"] c(4)
  show ?thesis by (auto split: option.splits)
qed

theorem expired_turns_are_failed_witness:
  "case dget (sv_calls (reconcile_stale_call_turns 1000 {} (demo 6))) ''c'' of
     None \<Rightarrow> False
   | Some c \<Rightarrow> turn_owner_is_live {} (the (dget (st_turns (sv_store (reconcile_stale_call_turns 1000 {} (demo 6)))) ''r'')) c"
proof -
  have r: "dget (st_turns (sv_store (reconcile_stale_call_turns 1000 {} (demo 6)))) ''r''
      = Some (the (dget (st_turns (sv_store (reconcile_stale_call_turns 1000 {} (demo 6)))) ''r''))"
    "open_turn (ct_state (the (dget (st_turns (sv_store (reconcile_stale_call_turns 1000 {} (demo 6)))) ''r'')))"
    "lease_over 1000 (the (dget (st_turns (sv_store (reconcile_stale_call_turns 1000 {} (demo 6)))) ''r''))"
    "ct_call (the (dget (st_turns (sv_store (reconcile_stale_call_turns 1000 {} (demo 6)))) ''r'')) = ''c''"
    by code_simp+
  from expired_turns_are_failed [OF demo_reach r(1-3)] r(4) show ?thesis by simp
qed

theorem recorded_end_closes_turns_witness:
  "msg_thread (sv_store (snd (end_call_write ''m4'' ''c'' 7 (demo 11)))) ''m4'' = Some ''t''"
proof -
  have c: "dget (sv_calls (demo 11)) ''c'' = Some (the (dget (sv_calls (demo 11)) ''c''))"
    "\<not> ac_end_recorded (the (dget (sv_calls (demo 11)) ''c''))"
    "isl (fst (end_call_write ''m4'' ''c'' 7 (demo 11))) = False"
    "ac_thread (the (dget (sv_calls (demo 11)) ''c'')) = ''t''"
    by code_simp+
  have "end_call_write ''m4'' ''c'' 7 (demo 11) = (Inr (), snd (end_call_write ''m4'' ''c'' 7 (demo 11)))"
    using c(3) by (cases "fst (end_call_write ''m4'' ''c'' 7 (demo 11))") (auto simp: prod_eq_iff)
  from recorded_end_closes_turns [OF demo_reach c(1,2) this] c(4) show ?thesis by simp
qed

text \<open>A thread with a user's message and an answer that was edited away.\<close>

definition edited :: store where
  "edited = (case edit_message ''m2'' (lit ''Bye'') 8 answered of Inr st \<Rightarrow> st | Inl e \<Rightarrow> answered)"

definition right :: "'e + 'a \<Rightarrow> 'a" where
  "right r = (case r of Inr x \<Rightarrow> x)"

theorem edit_then_truncate_keeps_prefix_witness:
  "dget (st_messages (right (truncate_stale_after ''m2'' 9 (right (edit_message ''m2'' (lit ''Bye'') 8 answered))))) ''m3''
     = None"
proof -
  let ?st1 = "right (edit_message ''m2'' (lit ''Bye'') 8 answered)"
  let ?st2 = "right (truncate_stale_after ''m2'' 9 ?st1)"
  let ?m = "the (dget (st_messages answered) ''m2'')" and ?n = "the (dget (st_messages answered) ''m3'')"
  have c: "dget (st_messages answered) ''m2'' = Some ?m" "ms_role ?m = ''user''"
    "edit_message ''m2'' (lit ''Bye'') 8 answered = Inr ?st1" "truncate_stale_after ''m2'' 9 ?st1 = Inr ?st2"
    "dget (st_messages answered) ''m3'' = Some ?n" "ms_thread ?n = ms_thread ?m" "ms_sequence ?m < ms_sequence ?n"
    by code_simp+
  have ok: "store_ok answered" using tables_ok9 .
  obtain m n where mn: "dget (st_messages answered) ''m2'' = Some m"
    "dget (st_messages answered) ''m3'' = Some n"
    using c(1,5) by blast
  have "ms_thread n = ms_thread m" "ms_sequence m < ms_sequence n" using c(6,7) by (simp_all add: mn)
  then show ?thesis using edit_then_truncate_keeps_prefix [OF ok c(1-4), of "''m3''"] by (simp add: mn)
qed

theorem swiped_answer_stays_stale_witness:
  "map_option ms_stale (dget (st_messages (right (regenerate_end ''a1'' ''m3'' (lit ''Ok'') 10 edited))) ''m3'') = Some False"
proof -
  let ?m = "the (dget (st_messages edited) ''m3'')" and ?u = "the (dget (st_messages edited) ''m2'')"
  let ?st1 = "right (swipe_end ''a1'' ''m3'' (lit ''Ok'') 10 edited)"
  let ?st2 = "right (regenerate_end ''a1'' ''m3'' (lit ''Ok'') 10 edited)"
  have c: "dget (st_messages edited) ''m3'' = Some ?m" "ms_stale ?m" "ai_kind ?m"
    "swipe_end ''a1'' ''m3'' (lit ''Ok'') 10 edited = Inr ?st1" "regenerate_end ''a1'' ''m3'' (lit ''Ok'') 10 edited = Inr ?st2"
    "dget (st_messages edited) ''m2'' = Some ?u" "ms_thread ?u = ms_thread ?m" "ms_sequence ?u < ms_sequence ?m"
    "truncate_stale_after ''m2'' 11 ?st1 = Inr (right (truncate_stale_after ''m2'' 11 ?st1))"
    "edit_message ''m2'' (lit ''Bye'') 8 answered = Inr edited"
    by code_simp+
  have ok: "store_ok edited" by (rule edit_message_ok [OF tables_ok9 c(10)])
  from swiped_answer_stays_stale [OF ok c(1-9)] show ?thesis by blast
qed

end
