(* ===== verification/SpeechScheduler.thy ===== *)
theory SpeechScheduler
  imports SpeechTerminal "HOL-Library.Sublist"
begin

text \<open>
  \<open>SpeechTurn\<close> of \<open>web-ui/server/app/domain/ai_backend_client.py\<close>: the bounded scheduler between the
  request that streams an answer and the speak endpoint of the AI backend. The request submits
  segments and finalizes the turn; one background task takes them from a queue of bounded capacity and
  makes one call of the backend at a time; a cancellation stops that task, asks the backend once to
  cancel the turn, and waits a bounded time for it.

  An operation is the code between two awaits. The state holds, beside the fields of the object,
  where the caller and the cancellation wait, and two histories: the submissions that were made and
  those that the backend was called with. Calls of the backend end with arguments of the operations.
\<close>

section \<open>State\<close>

record submission =
  su_text :: ptext
  su_final :: bool
  su_id :: ptext
  su_ordinal :: nat

datatype worker_end = Worker_returned | Worker_cancelled | Worker_raised py_error

datatype worker_task = No_worker | Worker_waits | Worker_speaks submission | Worker_over worker_end

datatype speech_caller = Caller_free | Caller_puts submission | Caller_joins | Caller_gone

datatype cancel_phase = Cancel_none | Cancel_gathers | Cancel_asks

record speech_turn =
  sq_turn :: string
  sq_common :: "(ptext \<times> pv) list"
  sq_capacity :: nat
  sq_queue :: "submission list"
  sq_worker :: worker_task
  sq_stop :: bool
  sq_closed :: bool
  sq_terminal :: "speech_terminal option"
  sq_next :: nat
  sq_cancel_task :: bool
  sq_caller :: speech_caller
  sq_cancel :: cancel_phase
  sq_submitted :: "submission list"
  sq_spoken :: "submission list"

definition SPEECH_TURN_QUEUE_CAPACITY :: int where
  "SPEECH_TURN_QUEUE_CAPACITY = 2"

text \<open>\<open>{key: value, **extra}\<close>: the later members replace those of the same key.\<close>

definition dict_merge :: "(ptext \<times> pv) list \<Rightarrow> (ptext \<times> pv) list \<Rightarrow> (ptext \<times> pv) list" where
  "dict_merge d extra = fold (\<lambda>(k, v). dset k v) extra d"

definition new_speech_turn ::
  "string \<Rightarrow> ptext \<Rightarrow> ptext \<Rightarrow> (ptext \<times> pv) list \<Rightarrow> int \<Rightarrow> py_error + speech_turn" where
  "new_speech_turn turn voice engine reference capacity =
     (if capacity < 1 then Inl (Value_error ''speech turn queue capacity must be positive'')
      else Inr \<lparr>sq_turn = turn,
                sq_common = dict_merge [(lit ''voice_id'', PStr voice), (lit ''engine_id'', PStr engine)] reference,
                sq_capacity = nat capacity, sq_queue = [], sq_worker = No_worker, sq_stop = False,
                sq_closed = False, sq_terminal = None, sq_next = 0, sq_cancel_task = False,
                sq_caller = Caller_free, sq_cancel = Cancel_none, sq_submitted = [], sq_spoken = []\<rparr>)"

text \<open>What a call of a coroutine has come to at its next await or at its end.\<close>

datatype speech_outcome =
    Goes_on
  | Suspends
  | Refused_closed
  | Gives speech_terminal
  | Fails py_error
  | Is_cancelled

section \<open>Submissions\<close>

definition require_open :: "speech_turn \<Rightarrow> bool" where
  "require_open s \<longleftrightarrow> \<not> (sq_closed s \<or> sq_terminal s \<noteq> None)"

definition ensure_speech_worker :: "speech_turn \<Rightarrow> speech_turn" where
  "ensure_speech_worker s = (if sq_worker s = No_worker then s\<lparr>sq_worker := Worker_waits\<rparr> else s)"

definition new_submission :: "ptext \<Rightarrow> bool \<Rightarrow> speech_turn \<Rightarrow> submission \<times> speech_turn" where
  "new_submission text final s =
     (let u = \<lparr>su_text = text, su_final = final,
               su_id = lit (sq_turn s) @ lit '':'' @ lit (nat_str (sq_next s)), su_ordinal = sq_next s\<rparr> in
      (u, s\<lparr>sq_next := sq_next s + 1, sq_submitted := sq_submitted s @ [u]\<rparr>))"

definition speech_cancelled :: speech_terminal where
  "speech_cancelled = \<lparr>status = Cancelled_end, playout_completed = False, response = None, error_code = None,
     error_message = None\<rparr>"

text \<open>The code of \<open>submit\<close> and of \<open>finalize\<close> after their \<open>put\<close>.\<close>

definition after_put :: "submission \<Rightarrow> speech_turn \<Rightarrow> speech_outcome \<times> speech_turn" where
  "after_put u s =
     (if su_final u
      then (Suspends, (ensure_speech_worker (s\<lparr>sq_closed := True\<rparr>))\<lparr>sq_caller := Caller_joins\<rparr>)
      else let s1 = (ensure_speech_worker s)\<lparr>sq_caller := Caller_free\<rparr> in
           (if sq_terminal s1 \<noteq> None then Refused_closed else Goes_on, s1))"

definition queue_full :: "speech_turn \<Rightarrow> bool" where
  "queue_full s \<longleftrightarrow> sq_capacity s \<le> length (sq_queue s)"

definition put_submission :: "submission \<Rightarrow> speech_turn \<Rightarrow> speech_outcome \<times> speech_turn" where
  "put_submission u s =
     (if queue_full s then (Suspends, s\<lparr>sq_caller := Caller_puts u\<rparr>)
      else after_put u (s\<lparr>sq_queue := sq_queue s @ [u]\<rparr>))"

definition submit_segment :: "ptext \<Rightarrow> speech_turn \<Rightarrow> speech_outcome \<times> speech_turn" where
  "submit_segment text s =
     (let segment = strip text in
      if segment = [] then (Goes_on, s)
      else if \<not> require_open s then (Refused_closed, s)
      else let (u, s1) = new_submission segment False s in put_submission u s1)"

definition finalize_turn :: "ptext option \<Rightarrow> speech_turn \<Rightarrow> speech_outcome \<times> speech_turn" where
  "finalize_turn tail s =
     (if \<not> require_open s then (Refused_closed, s)
      else let (u, s1) = new_submission (strip (case tail of None \<Rightarrow> [] | Some t \<Rightarrow> t)) True s in
           put_submission u s1)"

text \<open>A suspended \<open>put\<close> goes on when there is room.\<close>

definition put_resumes :: "speech_turn \<Rightarrow> speech_outcome \<times> speech_turn" where
  "put_resumes s =
     (case sq_caller s of
        Caller_puts u \<Rightarrow> if queue_full s then (Suspends, s) else after_put u (s\<lparr>sq_queue := sq_queue s @ [u]\<rparr>)
      | _ \<Rightarrow> (Suspends, s))"

text \<open>The code of \<open>finalize\<close> after its wait for the background task.\<close>

definition join_resumes :: "speech_turn \<Rightarrow> speech_outcome \<times> speech_turn" where
  "join_resumes s =
     (if sq_caller s \<noteq> Caller_joins then (Suspends, s)
      else case sq_worker s of
        Worker_over e \<Rightarrow>
          (let s1 = s\<lparr>sq_caller := Caller_free\<rparr> in
           case e of
             Worker_cancelled \<Rightarrow> (Is_cancelled, s1)
           | Worker_raised x \<Rightarrow> (Fails x, s1)
           | Worker_returned \<Rightarrow>
               let t = (case sq_terminal s of None \<Rightarrow> speech_error_terminal ''call_tts_failed'' None | Some t \<Rightarrow> t) in
               (Gives t, s1\<lparr>sq_terminal := Some t\<rparr>))
      | _ \<Rightarrow> (Suspends, s))"

text \<open>The request of the caller is cancelled while its \<open>put\<close> of a segment is suspended.\<close>

definition caller_leaves :: "speech_turn \<Rightarrow> speech_turn" where
  "caller_leaves s = s\<lparr>sq_caller := Caller_gone\<rparr>"

section \<open>The background task\<close>

definition discard_pending :: "speech_turn \<Rightarrow> speech_turn" where
  "discard_pending s = s\<lparr>sq_queue := []\<rparr>"

definition end_worker :: "worker_end \<Rightarrow> speech_turn \<Rightarrow> speech_turn" where
  "end_worker e s = discard_pending (s\<lparr>sq_worker := Worker_over e\<rparr>)"

definition speak_payload :: "submission \<Rightarrow> speech_turn \<Rightarrow> (ptext \<times> pv) list" where
  "speak_payload u s =
     dict_merge
       [(lit ''turn_id'', pstr (sq_turn s)), (lit ''text'', PStr (su_text u)),
        (lit ''final_chunk'', PBool (su_final u)), (lit ''segment_id'', PStr (su_id u)),
        (lit ''segment_ordinal'', PInt (int (su_ordinal u)))]
       (sq_common s)"

text \<open>\<open>_run\<close> up to the call of the backend.\<close>

definition worker_takes :: "speech_turn \<Rightarrow> speech_turn" where
  "worker_takes s =
     (case sq_queue s of
        [] \<Rightarrow> s
      | u # q \<Rightarrow>
          let s1 = s\<lparr>sq_queue := q\<rparr> in
          if sq_terminal s \<noteq> None then end_worker Worker_returned s1
          else s1\<lparr>sq_worker := Worker_speaks u, sq_spoken := sq_spoken s @ [u]\<rparr>)"

text \<open>
  How \<open>speak_call\<close> ends: with a response, which the client makes a mapping or refuses, or by an
  exception; a client without the method raises its error before any call.
\<close>

datatype speak_end = Responds pv | Client_raises string | Other_raises

definition worker_hears :: "speak_end \<Rightarrow> speech_turn \<Rightarrow> speech_turn" where
  "worker_hears e s =
     (case sq_worker s of
        Worker_speaks u \<Rightarrow>
          (let failed = (\<lambda>code. end_worker Worker_returned
                                   (s\<lparr>sq_terminal := Some (speech_error_terminal code None)\<rparr>)) in
           case e of
             Client_raises code \<Rightarrow> failed code
           | Other_raises \<Rightarrow> failed ''call_tts_failed''
           | Responds (PDict r) \<Rightarrow>
               (case speech_terminal_from_response (Some r) (su_final u) of
                  Inl x \<Rightarrow> end_worker (Worker_raised x) s
                | Inr t \<Rightarrow>
                    if status t \<noteq> Normal_end \<or> su_final u
                    then end_worker Worker_returned (s\<lparr>sq_terminal := Some t\<rparr>)
                    else s\<lparr>sq_worker := Worker_waits\<rparr>)
           | Responds _ \<Rightarrow> failed ''invalid_response'')
      | _ \<Rightarrow> s)"

text \<open>The cancellation that \<open>cancel\<close> has requested reaches the task.\<close>

definition worker_stops :: "speech_turn \<Rightarrow> speech_turn" where
  "worker_stops s =
     (case sq_worker s of
        Worker_speaks u \<Rightarrow> end_worker Worker_cancelled (s\<lparr>sq_terminal := Some speech_cancelled, sq_stop := False\<rparr>)
      | Worker_waits \<Rightarrow> end_worker Worker_cancelled (s\<lparr>sq_stop := False\<rparr>)
      | _ \<Rightarrow> s)"

section \<open>Cancellation\<close>

definition worker_lives :: "speech_turn \<Rightarrow> bool" where
  "worker_lives s = (case sq_worker s of No_worker \<Rightarrow> False | Worker_over _ \<Rightarrow> False | _ \<Rightarrow> True)"

definition ask_backend :: "speech_turn \<Rightarrow> speech_turn" where
  "ask_backend s = s\<lparr>sq_cancel := Cancel_asks, sq_cancel_task := True\<rparr>"

definition cancel_begins :: "speech_turn \<Rightarrow> speech_turn" where
  "cancel_begins s =
     (let s1 = s\<lparr>sq_closed := True\<rparr> in
      if worker_lives s then s1\<lparr>sq_stop := True, sq_cancel := Cancel_gathers\<rparr> else ask_backend s1)"

text \<open>The wait for the task is over; a second cancellation of the request ends \<open>cancel\<close> here.\<close>

definition cancel_gathered :: "bool \<Rightarrow> speech_turn \<Rightarrow> speech_outcome \<times> speech_turn" where
  "cancel_gathered interrupted s =
     (if sq_cancel s \<noteq> Cancel_gathers \<or> worker_lives s then (Suspends, s)
      else if interrupted then (Is_cancelled, s\<lparr>sq_cancel := Cancel_none\<rparr>)
      else (Suspends, ask_backend s))"

text \<open>
  The wait for the backend is over: it answered, raised a client error, did not answer in time, or the
  request was cancelled again, all of which are swallowed; or it raised anything else.
\<close>

datatype ask_end = Ask_settled | Ask_raises py_error

definition cancel_ends :: "ask_end \<Rightarrow> speech_turn \<Rightarrow> speech_outcome \<times> speech_turn" where
  "cancel_ends e s =
     (if sq_cancel s \<noteq> Cancel_asks then (Suspends, s)
      else let s1 = s\<lparr>sq_cancel := Cancel_none\<rparr> in
      case e of
        Ask_raises x \<Rightarrow> (Fails x, s1)
      | Ask_settled \<Rightarrow>
          let t = (case sq_terminal s of
                     None \<Rightarrow> speech_cancelled
                   | Some t \<Rightarrow> if status t = Normal_end then speech_cancelled else t) in
          (Gives t, discard_pending (s1\<lparr>sq_terminal := Some t\<rparr>)))"

section \<open>The machine\<close>

datatype speech_move =
    Submit ptext
  | Finalize "ptext option"
  | Put_resumes
  | Join_resumes
  | Caller_leaves
  | Worker_takes
  | Worker_hears speak_end
  | Worker_stops
  | Cancel_begins
  | Cancel_gathered bool
  | Cancel_ends ask_end

primrec speech_do :: "speech_move \<Rightarrow> speech_turn \<Rightarrow> speech_outcome \<times> speech_turn" where
  "speech_do (Submit text) s = submit_segment text s"
| "speech_do (Finalize tail) s = finalize_turn tail s"
| "speech_do Put_resumes s = put_resumes s"
| "speech_do Join_resumes s = join_resumes s"
| "speech_do Caller_leaves s = (Is_cancelled, caller_leaves s)"
| "speech_do Worker_takes s = (Goes_on, worker_takes s)"
| "speech_do (Worker_hears e) s = (Goes_on, worker_hears e s)"
| "speech_do Worker_stops s = (Goes_on, worker_stops s)"
| "speech_do Cancel_begins s = (Suspends, cancel_begins s)"
| "speech_do (Cancel_gathered i) s = cancel_gathered i s"
| "speech_do (Cancel_ends e) s = cancel_ends e s"

text \<open>
  When a step may run. There is one caller, which makes its next call after the previous one has
  returned; a cancellation that was requested is the next thing that the task sees.
\<close>

primrec speech_enabled :: "speech_move \<Rightarrow> speech_turn \<Rightarrow> bool" where
  "speech_enabled (Submit text) s = (sq_caller s = Caller_free)"
| "speech_enabled (Finalize tail) s = (sq_caller s = Caller_free)"
| "speech_enabled Put_resumes s = (case sq_caller s of Caller_puts u \<Rightarrow> \<not> queue_full s | _ \<Rightarrow> False)"
| "speech_enabled Join_resumes s
     = (sq_caller s = Caller_joins \<and> (case sq_worker s of Worker_over e \<Rightarrow> True | _ \<Rightarrow> False))"
| "speech_enabled Caller_leaves s = (case sq_caller s of Caller_puts u \<Rightarrow> \<not> su_final u | _ \<Rightarrow> False)"
| "speech_enabled Worker_takes s = (sq_worker s = Worker_waits \<and> \<not> sq_stop s \<and> sq_queue s \<noteq> [])"
| "speech_enabled (Worker_hears e) s = ((case sq_worker s of Worker_speaks u \<Rightarrow> True | _ \<Rightarrow> False) \<and> \<not> sq_stop s)"
| "speech_enabled Worker_stops s = (worker_lives s \<and> sq_stop s)"
| "speech_enabled Cancel_begins s = (sq_cancel s = Cancel_none)"
| "speech_enabled (Cancel_gathered i) s = (sq_cancel s = Cancel_gathers \<and> \<not> worker_lives s)"
| "speech_enabled (Cancel_ends e) s = (sq_cancel s = Cancel_asks)"

inductive speech_step :: "speech_turn \<Rightarrow> speech_move \<Rightarrow> speech_turn \<Rightarrow> bool" where
  speech_moved: "speech_enabled a s \<Longrightarrow> speech_step s a (snd (speech_do a s))"

inductive_cases speech_stepE: "speech_step s a t"

definition fresh_speech :: "speech_turn \<Rightarrow> bool" where
  "fresh_speech s \<longleftrightarrow> 0 < sq_capacity s \<and> sq_queue s = [] \<and> sq_worker s = No_worker \<and> \<not> sq_stop s \<and> \<not> sq_closed s
     \<and> sq_terminal s = None \<and> sq_next s = 0 \<and> \<not> sq_cancel_task s \<and> sq_caller s = Caller_free
     \<and> sq_cancel s = Cancel_none \<and> sq_submitted s = [] \<and> sq_spoken s = []"

lemma new_speech_turn_fresh: "new_speech_turn turn v e r c = Inr s \<Longrightarrow> fresh_speech s"
  by (auto simp: new_speech_turn_def fresh_speech_def split: if_splits)

end
