(* ===== verification/SpeechSchedulerLaws.thy ===== *)
theory SpeechSchedulerLaws
  imports SpeechScheduler
begin

text \<open>
  The laws of the speech scheduler: its invariant and the interpretation \<open>speech_machine\<close>; segments
  reach the backend once and in order, a normal end means that all of them did, and a waiting caller
  goes on after a bounded number of steps, unless a response killed the background task.
\<close>

section \<open>Invariant\<close>

definition waiting_put :: "speech_turn \<Rightarrow> submission list" where
  "waiting_put s = (case sq_caller s of Caller_puts u \<Rightarrow> [u] | _ \<Rightarrow> [])"

primrec is_over :: "worker_task \<Rightarrow> bool" where
  "is_over No_worker = False"
| "is_over Worker_waits = False"
| "is_over (Worker_speaks u) = False"
| "is_over (Worker_over e) = True"

primrec raised_end :: "worker_end \<Rightarrow> bool" where
  "raised_end Worker_returned = False"
| "raised_end Worker_cancelled = False"
| "raised_end (Worker_raised x) = True"

text \<open>The submissions: numbered from zero, and the last is the only one that may be final.\<close>

definition submitted_ok :: "speech_turn \<Rightarrow> bool" where
  "submitted_ok s \<longleftrightarrow> map su_ordinal (sq_submitted s) = [0..<sq_next s]
     \<and> list_all (\<lambda>u. \<not> su_final u) (butlast (sq_submitted s))
     \<and> set (waiting_put s) \<subseteq> set (sq_submitted s)
     \<and> (list_ex su_final (sq_submitted s) \<longrightarrow> sq_closed s \<or> list_ex su_final (waiting_put s))"

text \<open>Where they are: with the backend, in the queue, or with the waiting caller.\<close>

definition placed :: "speech_turn \<Rightarrow> bool" where
  "placed s \<longleftrightarrow> prefix (sq_spoken s) (sq_submitted s)
     \<and> (\<not> is_over (sq_worker s) \<longrightarrow>
          (if sq_caller s = Caller_gone then prefix (sq_spoken s @ sq_queue s) (sq_submitted s)
           else sq_submitted s = sq_spoken s @ sq_queue s @ waiting_put s))"

primrec task_ok :: "worker_task \<Rightarrow> speech_turn \<Rightarrow> bool" where
  "task_ok No_worker s = (sq_queue s = [] \<and> sq_submitted s = [] \<and> sq_caller s = Caller_free)"
| "task_ok Worker_waits s = (sq_terminal s = None \<and> list_all (\<lambda>u. \<not> su_final u) (sq_spoken s))"
| "task_ok (Worker_speaks u) s
     = (sq_terminal s = None \<and> (\<exists>us. sq_spoken s = us @ [u] \<and> list_all (\<lambda>u. \<not> su_final u) us))"
| "task_ok (Worker_over e) s
     = ((e = Worker_returned \<longrightarrow> sq_terminal s \<noteq> None) \<and> (e = Worker_cancelled \<longrightarrow> sq_closed s)
        \<and> (sq_caller s = Caller_free \<or> sq_caller s = Caller_gone \<or> sq_caller s = Caller_joins
           \<or> raised_end e \<or> sq_queue s = []))"

fun normal_at :: "speech_terminal option \<Rightarrow> submission list \<Rightarrow> bool" where
  "normal_at None us = True"
| "normal_at (Some t) us
     = (status t = Normal_end \<longrightarrow> playout_completed t \<and> us \<noteq> [] \<and> su_final (last us))"

definition normal_ok :: "speech_turn \<Rightarrow> bool" where
  "normal_ok s = normal_at (sq_terminal s) (sq_spoken s)"

definition cancel_ok :: "speech_turn \<Rightarrow> bool" where
  "cancel_ok s \<longleftrightarrow> (sq_stop s \<longleftrightarrow> sq_cancel s = Cancel_gathers \<and> worker_lives s)
     \<and> (sq_cancel s \<noteq> Cancel_none \<longrightarrow> sq_closed s) \<and> (sq_cancel s = Cancel_asks \<longrightarrow> \<not> worker_lives s)
     \<and> (sq_caller s = Caller_joins \<longrightarrow> sq_closed s \<and> list_ex su_final (sq_submitted s))"

definition speech_ok :: "speech_turn \<Rightarrow> bool" where
  "speech_ok s \<longleftrightarrow> 0 < sq_capacity s \<and> submitted_ok s \<and> placed s \<and> task_ok (sq_worker s) s \<and> normal_ok s \<and> cancel_ok s"

lemma worker_lives_iff: "worker_lives s \<longleftrightarrow> sq_worker s \<noteq> No_worker \<and> \<not> is_over (sq_worker s)"
  by (cases "sq_worker s") (simp_all add: worker_lives_def)

lemma fresh_speech_ok: "fresh_speech s \<Longrightarrow> speech_ok s"
  by (simp add: fresh_speech_def speech_ok_def submitted_ok_def placed_def normal_ok_def cancel_ok_def
      waiting_put_def worker_lives_def)

lemmas speech_defs = speech_ok_def submitted_ok_def placed_def normal_ok_def cancel_ok_def worker_lives_iff

section \<open>Every step keeps the invariant\<close>


text \<open>A submission that is made and waits to be put.\<close>

definition waits_with :: "submission \<Rightarrow> speech_turn \<Rightarrow> speech_turn" where
  "waits_with u s = s\<lparr>sq_next := sq_next s + 1, sq_submitted := sq_submitted s @ [u], sq_caller := Caller_puts u\<rparr>"

lemma not_final_ex: "\<not> list_ex su_final us \<longleftrightarrow> list_all (\<lambda>u. \<not> su_final u) us"
  by (induction us) auto

lemma waits_with_ok:
  assumes "speech_ok s" "require_open s" "sq_caller s = Caller_free" "su_ordinal u = sq_next s" "sq_worker s \<noteq> No_worker"
  shows "speech_ok (waits_with u s)"
proof -
  have cap: "0 < sq_capacity s" and sub: "submitted_ok s" and pl: "placed s" and task: "task_ok (sq_worker s) s"
    and nrm: "normal_ok s" and can: "cancel_ok s" using assms(1) by (simp_all add: speech_ok_def)
  have open': "\<not> sq_closed s" "sq_terminal s = None" using assms(2) by (simp_all add: require_open_def)
  have none: "list_all (\<lambda>u. \<not> su_final u) (sq_submitted s)"
    using sub open' assms(3) by (simp add: submitted_ok_def waiting_put_def flip: not_final_ex)
  have "submitted_ok (waits_with u s)"
    using sub assms(4) none by (simp add: submitted_ok_def waits_with_def waiting_put_def not_final_ex [symmetric])
  moreover have "placed (waits_with u s)"
    using pl assms(3) by (auto simp: placed_def waits_with_def waiting_put_def)
  moreover have "task_ok (sq_worker s) (waits_with u s)"
  proof (cases "sq_worker s")
    case (Worker_over e)
    then show ?thesis using task open' by (cases e) (simp_all add: waits_with_def)
  qed (use task assms(5) in \<open>simp_all add: waits_with_def\<close>)
  moreover have "normal_ok (waits_with u s)" using open' by (simp add: normal_ok_def waits_with_def)
  moreover have "cancel_ok (waits_with u s)" using can open' by (simp add: cancel_ok_def waits_with_def worker_lives_def)
  ultimately show ?thesis using cap by (simp add: speech_ok_def) (simp add: waits_with_def)
qed

lemma ensure_ok:
  assumes "speech_ok s" "require_open s"
  shows "speech_ok (ensure_speech_worker s)"
proof (cases "sq_worker s = No_worker")
  case True
  then show ?thesis using assms
    by (auto simp: speech_defs require_open_def ensure_speech_worker_def waiting_put_def)
qed (use assms in \<open>simp add: ensure_speech_worker_def\<close>)

lemma put_ok:
  assumes "speech_ok s" "sq_caller s = Caller_puts u"
  shows "speech_ok (snd (after_put u (s\<lparr>sq_queue := sq_queue s @ [u]\<rparr>)))"
proof -
  have cap: "0 < sq_capacity s" and sub: "submitted_ok s" and pl: "placed s" and task: "task_ok (sq_worker s) s"
    and nrm: "normal_ok s" and can: "cancel_ok s" using assms(1) by (simp_all add: speech_ok_def)
  have w: "sq_worker s \<noteq> No_worker" using task assms(2) by (cases "sq_worker s") simp_all
  let ?t = "s\<lparr>sq_queue := sq_queue s @ [u], sq_closed := sq_closed s \<or> su_final u,
                sq_caller := if su_final u then Caller_joins else Caller_free\<rparr>"
  have t: "snd (after_put u (s\<lparr>sq_queue := sq_queue s @ [u]\<rparr>)) = ?t"
    using w by (simp add: after_put_def ensure_speech_worker_def Let_def)
  have "submitted_ok ?t"
    using sub assms(2) by (auto simp: submitted_ok_def waiting_put_def)
  moreover have "placed ?t" using pl assms(2) by (auto simp: placed_def waiting_put_def)
  moreover have "task_ok (sq_worker s) ?t"
  proof (cases "sq_worker s")
    case (Worker_over e)
    then show ?thesis using task by (cases e) simp_all
  qed (use task w in simp_all)
  moreover have "normal_ok ?t" using nrm by (simp add: normal_ok_def)
  moreover have "su_final u \<Longrightarrow> list_ex su_final (sq_submitted s)"
    using sub assms(2) by (auto simp: submitted_ok_def waiting_put_def list_ex_iff)
  then have "cancel_ok ?t" using can by (auto simp: cancel_ok_def worker_lives_iff)
  ultimately show ?thesis using cap by (simp add: speech_ok_def t)
qed

section \<open>The steps\<close>

lemma put_submission_ok:
  assumes "speech_ok s" "require_open s" "sq_caller s = Caller_free" "new_submission t f s = (u, s1)"
  shows "speech_ok (snd (put_submission u s1))"
proof -
  have u: "su_ordinal u = sq_next s"
    and s1: "s1 = s\<lparr>sq_next := sq_next s + 1, sq_submitted := sq_submitted s @ [u]\<rparr>"
    using assms(4) by (auto simp: new_submission_def Let_def)
  have w: "waits_with u s = s1\<lparr>sq_caller := Caller_puts u\<rparr>" by (simp add: s1 waits_with_def)
  show ?thesis
  proof (cases "queue_full s1")
    case True
    then have "sq_worker s \<noteq> No_worker"
      using assms(1) by (auto simp: speech_ok_def queue_full_def s1)
    then have "speech_ok (waits_with u s)" using assms(1-3) u by (intro waits_with_ok)
    then show ?thesis using True w by (simp add: put_submission_def)
  next
    case False
    let ?s = "ensure_speech_worker s"
    have "speech_ok (waits_with u ?s)"
      using ensure_ok [OF assms(1,2)] assms(2,3) u
      by (intro waits_with_ok) (auto simp: ensure_speech_worker_def require_open_def)
    from put_ok [OF this]
    have "speech_ok (snd (after_put u ((waits_with u ?s)\<lparr>sq_queue := sq_queue (waits_with u ?s) @ [u]\<rparr>)))"
      by (simp add: waits_with_def)
    moreover have "snd (after_put u ((waits_with u ?s)\<lparr>sq_queue := sq_queue (waits_with u ?s) @ [u]\<rparr>))
        = snd (after_put u (s1\<lparr>sq_queue := sq_queue s1 @ [u]\<rparr>))"
      by (simp add: s1 waits_with_def after_put_def ensure_speech_worker_def Let_def)
    ultimately show ?thesis using False by (simp add: put_submission_def)
  qed
qed

lemma submit_ok: "speech_ok s \<Longrightarrow> sq_caller s = Caller_free \<Longrightarrow> speech_ok (snd (submit_segment t s))"
  using put_submission_ok by (auto simp: submit_segment_def Let_def split: prod.split)

lemma finalize_ok: "speech_ok s \<Longrightarrow> sq_caller s = Caller_free \<Longrightarrow> speech_ok (snd (finalize_turn t s))"
  using put_submission_ok by (auto simp: finalize_turn_def split: prod.split)

text \<open>The end of the background task, whatever terminal it leaves.\<close>

definition same_work :: "speech_turn \<Rightarrow> speech_turn \<Rightarrow> bool" where
  "same_work s t \<longleftrightarrow> sq_capacity t = sq_capacity s \<and> sq_submitted t = sq_submitted s \<and> sq_spoken t = sq_spoken s
     \<and> sq_next t = sq_next s \<and> sq_caller t = sq_caller s \<and> sq_closed t = sq_closed s \<and> sq_cancel t = sq_cancel s"

lemma over_ok:
  assumes "speech_ok s" "same_work s t" "sq_worker t = Worker_over e" "sq_queue t = []" "\<not> sq_stop t"
    and "normal_at (sq_terminal t) (sq_spoken s)"
    and "e = Worker_returned \<Longrightarrow> sq_terminal t \<noteq> None" "e = Worker_cancelled \<Longrightarrow> sq_closed s"
  shows "speech_ok t"
proof -
  have w: "waiting_put t = waiting_put s" using assms(2) by (simp add: same_work_def waiting_put_def)
  have sub: "submitted_ok s" and pre: "prefix (sq_spoken s) (sq_submitted s)" and cap: "0 < sq_capacity s"
    and can: "cancel_ok s" using assms(1) by (simp_all add: speech_ok_def placed_def)
  have "submitted_ok t" using sub assms(2) by (simp add: submitted_ok_def w same_work_def)
  moreover have "placed t" using pre assms(2,3) by (simp add: placed_def same_work_def)
  moreover have "task_ok (sq_worker t) t" using assms(2-4,7,8) by (simp add: same_work_def)
  moreover have "normal_ok t" using assms(2,6) by (simp add: normal_ok_def same_work_def)
  moreover have "cancel_ok t" using can assms(2,3,5) by (simp add: cancel_ok_def same_work_def worker_lives_iff)
  ultimately show ?thesis using cap assms(2) by (simp add: speech_ok_def same_work_def)
qed

lemma end_worker_ok:
  assumes "speech_ok s" "\<not> sq_stop s" "normal_at t (sq_spoken s)"
    and "e = Worker_returned \<Longrightarrow> t \<noteq> None" "e = Worker_cancelled \<Longrightarrow> sq_closed s"
  shows "speech_ok (end_worker e (s\<lparr>sq_terminal := t\<rparr>))"
  by (rule over_ok [OF assms(1)]) (use assms in \<open>simp_all add: same_work_def end_worker_def discard_pending_def\<close>)

lemma takes_ok:
  assumes "speech_ok s" "sq_worker s = Worker_waits" "\<not> sq_stop s" "sq_queue s = u # q"
  shows "worker_takes s = s\<lparr>sq_queue := q, sq_worker := Worker_speaks u, sq_spoken := sq_spoken s @ [u]\<rparr>"
    "speech_ok (worker_takes s)"
proof -
  have none: "sq_terminal s = None" using assms(1,2) by (simp add: speech_ok_def)
  then show t: "worker_takes s = s\<lparr>sq_queue := q, sq_worker := Worker_speaks u, sq_spoken := sq_spoken s @ [u]\<rparr>"
    using assms(4) by (simp add: worker_takes_def Let_def)
  have pl: "placed s" using assms(1) by (simp add: speech_ok_def)
  have "placed (worker_takes s)"
  proof (cases "sq_caller s = Caller_gone")
    case True
    then have "prefix ((sq_spoken s @ [u]) @ q) (sq_submitted s)" using pl assms(2,4) by (simp add: placed_def)
    then show ?thesis using True append_prefixD [of "sq_spoken s @ [u]" q] by (simp add: t placed_def)
  next
    case False
    then have "sq_submitted s = (sq_spoken s @ [u]) @ q @ waiting_put s" using pl assms(2,4) by (simp add: placed_def)
    then show ?thesis using False by (simp add: t placed_def waiting_put_def)
  qed
  then show "speech_ok (worker_takes s)"
    using assms none
    by (simp add: speech_ok_def t submitted_ok_def normal_ok_def cancel_ok_def worker_lives_iff waiting_put_def)
qed

lemma final_played:
  "speech_terminal_from_response (Some r) True = Inr t \<Longrightarrow> status t = Normal_end \<Longrightarrow> playout_completed t"
  by (auto simp: speech_terminal_from_response_def Let_def speech_error_terminal_def split: pv.splits if_splits)

lemma waits_again_ok:
  assumes "speech_ok s" "sq_worker s = Worker_speaks u" "\<not> su_final u"
  shows "speech_ok (s\<lparr>sq_worker := Worker_waits\<rparr>)"
proof -
  let ?t = "s\<lparr>sq_worker := Worker_waits\<rparr>"
  have "sq_terminal s = None" "list_all (\<lambda>u. \<not> su_final u) (sq_spoken s)"
    using assms by (auto simp: speech_ok_def)
  moreover have "waiting_put ?t = waiting_put s" by (simp add: waiting_put_def)
  then have "submitted_ok ?t = submitted_ok s" "placed ?t = placed s"
    using assms(2) by (simp_all add: submitted_ok_def placed_def)
  moreover have "normal_ok ?t = normal_ok s" "cancel_ok ?t = cancel_ok s"
    using assms(2) by (simp_all add: normal_ok_def cancel_ok_def worker_lives_iff)
  ultimately show ?thesis using assms(1) by (simp add: speech_ok_def)
qed

lemma hears_ok:
  assumes "speech_ok s" "sq_worker s = Worker_speaks u" "\<not> sq_stop s"
  shows "speech_ok (worker_hears e s)"
proof -
  have none: "sq_terminal s = None" and last: "sq_spoken s \<noteq> []" "last (sq_spoken s) = u"
    using assms(1,2) by (auto simp: speech_ok_def)
  have ended: "status t = Normal_end \<longrightarrow> playout_completed t \<and> su_final u
      \<Longrightarrow> speech_ok (end_worker Worker_returned (s\<lparr>sq_terminal := Some t\<rparr>))" for t
    using end_worker_ok [OF assms(1,3), of "Some t" Worker_returned] last by simp
  have failed: "speech_ok (end_worker Worker_returned (s\<lparr>sq_terminal := Some (speech_error_terminal c None)\<rparr>))" for c
    by (rule ended) (simp add: speech_error_terminal_def)
  have raised: "speech_ok (end_worker (Worker_raised x) s)" for x
    by (rule over_ok [OF assms(1), of _ "Worker_raised x"]) (use none assms(3) in \<open>simp_all add: same_work_def end_worker_def discard_pending_def\<close>)
  have responds: "speech_ok (worker_hears (Responds (PDict r)) s)" for r
  proof (cases "speech_terminal_from_response (Some r) (su_final u)")
    case (Inl x)
    then show ?thesis using raised by (simp add: worker_hears_def assms(2) Let_def)
  next
    case (Inr t)
    show ?thesis
    proof (cases "status t \<noteq> Normal_end \<or> su_final u")
      case True
      then show ?thesis using ended [of t] Inr final_played [of r t]
        by (auto simp: worker_hears_def assms(2) Let_def)
    next
      case False
      then show ?thesis using Inr waits_again_ok [OF assms(1,2)] by (simp add: worker_hears_def assms(2) Let_def)
    qed
  qed
  show ?thesis
  proof (cases e)
    case (Responds v)
    then show ?thesis using responds failed by (cases v) (simp_all add: worker_hears_def assms(2) Let_def)
  qed (use failed in \<open>simp_all add: worker_hears_def assms(2) Let_def\<close>)
qed

lemma stops_ok:
  assumes "speech_ok s" "worker_lives s" "sq_stop s"
  shows "speech_ok (worker_stops s)"
proof -
  have "sq_closed s" using assms by (auto simp: speech_ok_def cancel_ok_def)
  moreover have "sq_worker s = Worker_waits \<or> (\<exists>u. sq_worker s = Worker_speaks u)"
    using assms(2) by (cases "sq_worker s") (simp_all add: worker_lives_def)
  moreover have "normal_at (sq_terminal s) (sq_spoken s)" using assms(1) by (simp add: speech_ok_def normal_ok_def)
  ultimately show ?thesis
    by (intro over_ok [OF assms(1), of _ Worker_cancelled])
       (auto simp: worker_stops_def same_work_def end_worker_def discard_pending_def speech_cancelled_def)
qed

lemma joins_ok:
  assumes "speech_ok s" "sq_caller s = Caller_joins" "sq_worker s = Worker_over e"
  shows "speech_ok (snd (join_resumes s))"
proof -
  have sub: "submitted_ok s" and pre: "prefix (sq_spoken s) (sq_submitted s)" and can: "cancel_ok s"
    and nrm: "normal_ok s" and tsk: "task_ok (Worker_over e) s" and cap: "0 < sq_capacity s"
    using assms by (simp_all add: speech_ok_def placed_def)
  have "sq_closed s" using can assms(2) by (simp add: cancel_ok_def)
  then have "speech_ok (s\<lparr>sq_caller := Caller_free, sq_terminal := t\<rparr>)"
    if "normal_at t (sq_spoken s)" "e = Worker_returned \<longrightarrow> t \<noteq> None" for t
    using sub pre can tsk cap that assms(2,3)
    by (simp add: speech_ok_def submitted_ok_def placed_def normal_ok_def cancel_ok_def worker_lives_iff waiting_put_def)
  moreover have "s\<lparr>sq_caller := Caller_free, sq_terminal := sq_terminal s\<rparr> = s\<lparr>sq_caller := Caller_free\<rparr>"
    by (cases s) simp
  ultimately have "speech_ok (s\<lparr>sq_caller := Caller_free\<rparr>)"
    "e = Worker_returned \<Longrightarrow> normal_at (Some t) (sq_spoken s)
      \<Longrightarrow> speech_ok (s\<lparr>sq_caller := Caller_free, sq_terminal := Some t\<rparr>)" for t
    using nrm tsk by (metis normal_ok_def task_ok.simps(4), simp)
  then show ?thesis
    using assms(2,3) nrm tsk
    by (cases e; cases "sq_terminal s") (simp_all add: join_resumes_def normal_ok_def speech_error_terminal_def Let_def)
qed

lemma leaves_ok: "speech_ok s \<Longrightarrow> sq_caller s = Caller_puts u \<Longrightarrow> \<not> su_final u \<Longrightarrow> speech_ok (caller_leaves s)"
proof -
  assume s: "speech_ok s" "sq_caller s = Caller_puts u" "\<not> su_final u"
  then have "placed (caller_leaves s)"
    by (auto simp: speech_ok_def placed_def caller_leaves_def waiting_put_def)
  moreover have "submitted_ok (caller_leaves s)"
    using s by (auto simp: speech_ok_def submitted_ok_def caller_leaves_def waiting_put_def)
  moreover have "task_ok (sq_worker s) (caller_leaves s)"
    using s by (cases "sq_worker s") (auto simp: speech_ok_def caller_leaves_def)
  ultimately show ?thesis
    using s by (simp add: speech_ok_def normal_ok_def cancel_ok_def worker_lives_iff) (simp add: caller_leaves_def)
qed

text \<open>The steps of a cancellation change neither the submissions nor their places.\<close>

lemma cancelling_ok:
  assumes "speech_ok s" "cancel_ok t" "sq_closed s \<longrightarrow> sq_closed t"
    and "sq_capacity t = sq_capacity s" "sq_submitted t = sq_submitted s" "sq_spoken t = sq_spoken s"
    "sq_next t = sq_next s" "sq_caller t = sq_caller s" "sq_queue t = sq_queue s" "sq_worker t = sq_worker s"
    "sq_terminal t = sq_terminal s"
  shows "speech_ok t"
proof -
  have w: "waiting_put t = waiting_put s" by (simp add: waiting_put_def assms(8))
  have "submitted_ok t" using assms(1,3) by (auto simp: speech_ok_def submitted_ok_def w assms)
  moreover have "placed t" using assms(1) by (simp add: speech_ok_def placed_def w assms)
  moreover have "task_ok (sq_worker s) t" using assms by (cases "sq_worker s") (auto simp: speech_ok_def)
  moreover have "normal_ok t" using assms(1) by (simp add: speech_ok_def normal_ok_def assms)
  ultimately show ?thesis using assms(1,2) by (simp add: speech_ok_def assms)
qed

lemma speech_cancel_ok: "speech_ok s \<Longrightarrow> cancel_ok s"
  by (simp add: speech_ok_def)

lemma cancel_begins_ok:
  assumes "speech_ok s" "sq_cancel s = Cancel_none"
  shows "speech_ok (cancel_begins s)"
  by (rule cancelling_ok [OF assms(1)])
     (use speech_cancel_ok [OF assms(1)] assms(2) in
      \<open>auto simp: cancel_begins_def ask_backend_def cancel_ok_def worker_lives_def Let_def\<close>)

lemma gathered_ok:
  assumes "speech_ok s" "sq_cancel s = Cancel_gathers" "\<not> worker_lives s"
  shows "speech_ok (snd (cancel_gathered i s))"
  by (rule cancelling_ok [OF assms(1)])
     (use speech_cancel_ok [OF assms(1)] assms(2,3) in
      \<open>auto simp: cancel_gathered_def ask_backend_def cancel_ok_def worker_lives_def\<close>)

text \<open>The end of a cancellation leaves a terminal that is not normal, and an empty queue.\<close>

lemma cancel_ends_ok:
  assumes "speech_ok s" "sq_cancel s = Cancel_asks"
  shows "speech_ok (snd (cancel_ends e s))"
proof -
  have can: "cancel_ok s" and cap: "0 < sq_capacity s" and sub: "submitted_ok s" and pl: "placed s"
    and tsk: "task_ok (sq_worker s) s" and dead: "\<not> worker_lives s"
    using assms by (simp_all add: speech_ok_def cancel_ok_def)
  have left: "speech_ok (s\<lparr>sq_cancel := Cancel_none\<rparr>)"
    by (rule cancelling_ok [OF assms(1)]) (use can assms(2) in \<open>auto simp: cancel_ok_def worker_lives_def\<close>)
  have "speech_ok (discard_pending (s\<lparr>sq_cancel := Cancel_none, sq_terminal := Some t\<rparr>))"
    if "status t \<noteq> Normal_end" for t
  proof -
    let ?t = "discard_pending (s\<lparr>sq_cancel := Cancel_none, sq_terminal := Some t\<rparr>)"
    have w: "waiting_put ?t = waiting_put s" by (simp add: waiting_put_def discard_pending_def)
    have "submitted_ok ?t" using sub by (simp add: submitted_ok_def w) (simp add: discard_pending_def)
    moreover have "placed ?t" using pl dead tsk
      by (cases "sq_worker s") (simp_all add: placed_def w worker_lives_def, simp_all add: discard_pending_def)
    moreover have "task_ok (sq_worker s) ?t" using tsk dead
      by (cases "sq_worker s") (auto simp: discard_pending_def worker_lives_def)
    moreover have "normal_ok ?t" using that by (simp add: normal_ok_def discard_pending_def)
    moreover have "cancel_ok ?t" using can assms(2) by (simp add: cancel_ok_def discard_pending_def worker_lives_iff)
    ultimately show ?thesis using cap by (simp add: speech_ok_def discard_pending_def)
  qed
  then show ?thesis
    using left assms(2)
    by (auto simp: cancel_ends_def Let_def speech_cancelled_def split: ask_end.split option.split)
qed

lemma enabled_ok: "speech_enabled a s \<Longrightarrow> speech_ok s \<Longrightarrow> speech_ok (snd (speech_do a s))"
proof (cases a)
  case Put_resumes
  assume "speech_enabled a s" "speech_ok s"
  then show ?thesis using Put_resumes put_ok [of s] by (cases "sq_caller s") (simp_all add: put_resumes_def)
next
  case Join_resumes
  assume "speech_enabled a s" "speech_ok s"
  then show ?thesis using Join_resumes joins_ok [of s] by (cases "sq_worker s") simp_all
next
  case Caller_leaves
  assume "speech_enabled a s" "speech_ok s"
  then show ?thesis using Caller_leaves leaves_ok [of s] by (cases "sq_caller s") simp_all
next
  case Worker_takes
  assume "speech_enabled a s" "speech_ok s"
  then show ?thesis using Worker_takes takes_ok(2) [of s] by (cases "sq_queue s") simp_all
next
  case (Worker_hears e)
  assume "speech_enabled a s" "speech_ok s"
  then show ?thesis using Worker_hears hears_ok [of s] by (cases "sq_worker s") simp_all
qed (simp_all add: submit_ok finalize_ok stops_ok cancel_begins_ok gathered_ok cancel_ends_ok)

interpretation speech_machine: machine fresh_speech speech_step speech_ok
  by unfold_locales (auto simp: fresh_speech_ok enabled_ok elim: speech_stepE)

section \<open>What the scheduler promises\<close>

lemma spoken_all:
  assumes "speech_ok s" "sq_terminal s = Some t" "status t = Normal_end"
  shows "sq_spoken s = sq_submitted s"
proof -
  have last: "sq_spoken s \<noteq> []" "su_final (last (sq_spoken s))"
    using assms by (simp_all add: speech_ok_def normal_ok_def)
  obtain us where us: "sq_submitted s = sq_spoken s @ us"
    using assms(1) by (auto simp: speech_ok_def placed_def elim: prefixE)
  have "us = []"
  proof (rule ccontr)
    assume "us \<noteq> []"
    then have "last (sq_spoken s) \<in> set (butlast (sq_submitted s))"
      using last(1) by (simp add: us butlast_append)
    then show False using last(2) assms(1) by (auto simp: speech_ok_def submitted_ok_def list_all_iff)
  qed
  then show ?thesis using us by simp
qed

text \<open>The steps that need no one but the scheduler, and what they have left to do.\<close>

primrec inner_move :: "speech_move \<Rightarrow> bool" where
  "inner_move (Submit text) = False"
| "inner_move (Finalize tail) = False"
| "inner_move Put_resumes = True"
| "inner_move Join_resumes = True"
| "inner_move Caller_leaves = False"
| "inner_move Worker_takes = True"
| "inner_move (Worker_hears e) = True"
| "inner_move Worker_stops = True"
| "inner_move Cancel_begins = False"
| "inner_move (Cancel_gathered i) = False"
| "inner_move (Cancel_ends e) = False"

definition speech_work :: "speech_turn \<Rightarrow> nat" where
  "speech_work s = 4 * length (waiting_put s) + 2 * length (sq_queue s)
     + (case sq_worker s of No_worker \<Rightarrow> 1 | Worker_waits \<Rightarrow> 1 | Worker_speaks u \<Rightarrow> 2 | Worker_over e \<Rightarrow> 0)
     + (if sq_caller s = Caller_joins then 1 else 0)"

lemma hears_work: "sq_worker s = Worker_speaks u \<Longrightarrow> speech_work (worker_hears e s) < speech_work s"
  by (auto simp: worker_hears_def speech_work_def end_worker_def discard_pending_def waiting_put_def Let_def
      split: speak_end.split pv.split sum.split)

lemma inner_works:
  assumes "speech_enabled a s" "speech_ok s" "inner_move a"
  shows "speech_work (snd (speech_do a s)) < speech_work s"
proof (cases a)
  case Put_resumes
  then show ?thesis using assms
    by (cases "sq_caller s")
       (auto simp: put_resumes_def after_put_def speech_work_def ensure_speech_worker_def waiting_put_def Let_def
          split: worker_task.splits)
next
  case Join_resumes
  then show ?thesis using assms
    by (cases "sq_worker s")
       (auto simp: join_resumes_def speech_work_def waiting_put_def Let_def split: worker_end.splits)
next
  case Worker_takes
  then show ?thesis using assms takes_ok(1) [of s]
    by (cases "sq_queue s") (simp_all add: speech_work_def waiting_put_def)
next
  case (Worker_hears e)
  then show ?thesis using assms hears_work by (cases "sq_worker s") auto
next
  case Worker_stops
  then show ?thesis using assms
    by (cases "sq_worker s")
       (auto simp: worker_stops_def speech_work_def waiting_put_def end_worker_def discard_pending_def worker_lives_def)
qed (use assms in simp_all)

text \<open>What a waiting caller waits for.\<close>

definition caller_waits :: "speech_turn \<Rightarrow> bool" where
  "caller_waits s \<longleftrightarrow> sq_caller s = Caller_joins \<or> waiting_put s \<noteq> []"

definition caller_awaits :: "speech_turn \<Rightarrow> bool" where
  "caller_awaits s \<longleftrightarrow> speech_enabled Put_resumes s \<or> speech_enabled Join_resumes s \<or> speech_enabled Worker_takes s
     \<or> speech_enabled Worker_stops s \<or> speech_enabled (Worker_hears Other_raises) s"

definition worker_crashed :: "speech_turn \<Rightarrow> bool" where
  "worker_crashed s = (case sq_worker s of Worker_over e \<Rightarrow> raised_end e | _ \<Rightarrow> False)"

lemma waits_for_work:
  assumes "speech_ok s" "caller_waits s" "\<not> worker_crashed s"
  shows "caller_awaits s"
proof (cases "sq_worker s")
  case No_worker
  then show ?thesis using assms by (simp add: speech_ok_def caller_waits_def waiting_put_def)
next
  case Worker_waits
  show ?thesis
  proof (cases "sq_stop s")
    case True
    then show ?thesis using Worker_waits by (simp add: caller_awaits_def worker_lives_def)
  next
    case False
    have nofinal: "list_all (\<lambda>u. \<not> su_final u) (sq_spoken s)" and pl: "placed s" and can: "cancel_ok s"
      and cap: "0 < sq_capacity s" using assms(1) Worker_waits by (simp_all add: speech_ok_def)
    show ?thesis
    proof (cases "sq_caller s = Caller_joins")
      case True
      then have "sq_submitted s = sq_spoken s @ sq_queue s" "list_ex su_final (sq_submitted s)"
        using pl can Worker_waits by (simp_all add: placed_def cancel_ok_def waiting_put_def)
      then have "sq_queue s \<noteq> []" using nofinal by (auto simp flip: not_final_ex)
      then show ?thesis using Worker_waits False by (simp add: caller_awaits_def)
    next
      case out: False
      then obtain u where u: "sq_caller s = Caller_puts u"
        using assms(2) by (cases "sq_caller s") (simp_all add: caller_waits_def waiting_put_def)
      show ?thesis
      proof (cases "queue_full s")
        case True
        then have "sq_queue s \<noteq> []" using cap by (auto simp: queue_full_def)
        then show ?thesis using Worker_waits False by (simp add: caller_awaits_def)
      qed (use u in \<open>simp add: caller_awaits_def\<close>)
    qed
  qed
next
  case (Worker_speaks u)
  then show ?thesis by (simp add: caller_awaits_def worker_lives_def)
next
  case (Worker_over e)
  then have e: "\<not> raised_end e" using assms(3) by (simp add: worker_crashed_def)
  have t: "task_ok (Worker_over e) s" "0 < sq_capacity s" using assms(1) Worker_over by (simp_all add: speech_ok_def)
  show ?thesis
  proof (cases "sq_caller s")
    case (Caller_puts u)
    then have "\<not> queue_full s" using t e by (simp add: queue_full_def)
    then show ?thesis using Caller_puts by (simp add: caller_awaits_def)
  qed (use assms(2) Worker_over in \<open>simp_all add: caller_awaits_def caller_waits_def waiting_put_def\<close>)
qed

lemma inner_run_works:
  "run_of speech_step s ops t \<Longrightarrow> list_all inner_move ops \<Longrightarrow> speech_ok s
    \<Longrightarrow> length ops + speech_work t \<le> speech_work s \<and> speech_ok t"
proof (induction rule: run_of.induct)
  case (run_cons s a u ops t)
  have "speech_work u < speech_work s" "speech_ok u"
    using run_cons.hyps(1) run_cons.prems by (auto simp: inner_works enabled_ok elim: speech_stepE)
  then show ?case using run_cons by simp
qed simp

lemma capacity_work: "speech_ok s \<Longrightarrow> length (sq_queue s) \<le> n \<Longrightarrow> speech_work s \<le> 2 * n + 7"
  by (auto simp: speech_work_def waiting_put_def split: worker_task.split speech_caller.split)

section \<open>A concrete turn\<close>

definition demo_speech :: speech_turn where
  "demo_speech = \<lparr>sq_turn = ''t'', sq_common = [], sq_capacity = 2, sq_queue = [], sq_worker = No_worker,
     sq_stop = False, sq_closed = False, sq_terminal = None, sq_next = 0, sq_cancel_task = False,
     sq_caller = Caller_free, sq_cancel = Cancel_none, sq_submitted = [], sq_spoken = []\<rparr>"

primrec speech_allowed :: "speech_move list \<Rightarrow> speech_turn \<Rightarrow> bool" where
  "speech_allowed [] s = True"
| "speech_allowed (a # ops) s = (speech_enabled a s \<and> speech_allowed ops (snd (speech_do a s)))"

lemma allowed_run: "speech_allowed ops s \<Longrightarrow> run_of speech_step s ops (fold (\<lambda>a t. snd (speech_do a t)) ops s)"
  by (induction ops arbitrary: s) (auto intro: run_of.intros speech_moved)

lemma demo_speech_reach:
  "speech_allowed ops demo_speech \<Longrightarrow> reach fresh_speech speech_step (fold (\<lambda>a t. snd (speech_do a t)) ops demo_speech)"
  by (rule run_of_reach [OF allowed_run]) (auto intro!: reach.reach_init simp: fresh_speech_def demo_speech_def)

definition demo_say :: "speech_move list" where
  "demo_say = [Submit (lit ''Hi.''), Worker_takes]"

definition demo_wait :: "speech_move list" where
  "demo_wait = demo_say @ [Finalize None]"

definition demo_answer :: "(ptext \<times> pv) list" where
  "demo_answer = [(lit ''event'', PDict [(lit ''type'', PList [])])]"

section \<open>The properties\<close>

text \<open>
  \<^bold>\<open>C26\<close>. A normal end means that everything was spoken. In every reachable state of the scheduler the
  backend was called with the submissions in their order, each once, numbered from zero, whatever
  calls failed, were answered or cancelled; and when the terminal is normal, it was called with all of
  them, the last of which is the final one, and the playout was completed.
\<close>

theorem normal_end_means_all_spoken:
  assumes "reach fresh_speech speech_step s"
  shows "prefix (sq_spoken s) (sq_submitted s) \<and> map su_ordinal (sq_submitted s) = [0..<sq_next s]
    \<and> (case sq_terminal s of None \<Rightarrow> True | Some t \<Rightarrow>
         status t = Normal_end \<longrightarrow> sq_spoken s = sq_submitted s \<and> playout_completed t
           \<and> sq_spoken s \<noteq> [] \<and> su_final (last (sq_spoken s)))"
proof -
  note ok = speech_machine.inv_reach [OF assms]
  have "prefix (sq_spoken s) (sq_submitted s)" "map su_ordinal (sq_submitted s) = [0..<sq_next s]"
    "normal_at (sq_terminal s) (sq_spoken s)"
    using ok by (simp_all add: speech_ok_def placed_def submitted_ok_def normal_ok_def)
  then show ?thesis using spoken_all [OF ok] by (cases "sq_terminal s") simp_all
qed

theorem normal_end_means_all_spoken_witness:
  "let s = fold (\<lambda>a t. snd (speech_do a t)) demo_say demo_speech in
   prefix (sq_spoken s) (sq_submitted s) \<and> length (sq_spoken s) = 1"
  using normal_end_means_all_spoken [OF demo_speech_reach [of demo_say]] by code_simp



text \<open>
  \<^bold>\<open>C23\<close>. A response that the classification cannot hash wedges the turn. \<open>_run\<close> classifies a response outside
  its \<open>try\<close>, so that a response whose event type is a list or an object ends the background task with
  an exception and without a terminal. The turn still takes submissions and makes no new task: the
  third one finds the queue full, and from then on nothing but a cancellation of the request is
  possible.
\<close>

theorem crashed_worker_blocks_submit:
  assumes "reach fresh_speech speech_step s" "sq_worker s = Worker_speaks u" "sq_caller s = Caller_free"
    and "\<not> sq_closed s" "sq_capacity s = 2" "speech_terminal_from_response (Some r) (su_final u) = Inl x"
    and "strip a \<noteq> []" "strip b \<noteq> []" "strip c \<noteq> []"
    and "t = snd (submit_segment c (snd (submit_segment b (snd (submit_segment a
               (worker_hears (Responds (PDict r)) s))))))"
    and "speech_enabled m t"
  shows "caller_waits t \<and> (m = Caller_leaves \<or> m = Cancel_begins)"
proof -
  have none: "sq_terminal s = None" and cancel: "sq_cancel s = Cancel_none"
    using speech_machine.inv_reach [OF assms(1)] assms(2,4) by (auto simp: speech_ok_def cancel_ok_def)
  have h: "worker_hears (Responds (PDict r)) s = end_worker (Worker_raised x) s"
    by (simp add: worker_hears_def assms(2,6) Let_def)
  have "sq_caller t = Caller_puts (fst (new_submission (strip c) False
            (snd (submit_segment b (snd (submit_segment a (worker_hears (Responds (PDict r)) s)))))))"
    "queue_full t" "sq_worker t = Worker_over (Worker_raised x)" "sq_cancel t = Cancel_none"
    by (simp_all add: assms(3-5,7-10) none cancel h submit_segment_def require_open_def new_submission_def
        put_submission_def queue_full_def after_put_def end_worker_def discard_pending_def ensure_speech_worker_def Let_def)
  then show ?thesis using assms(11)
    by (cases m) (simp_all add: caller_waits_def waiting_put_def worker_lives_def)
qed

theorem crashed_worker_blocks_submit_witness:
  "let s = fold (\<lambda>a t. snd (speech_do a t)) demo_say demo_speech;
       t = snd (submit_segment (lit ''c'') (snd (submit_segment (lit ''b'') (snd (submit_segment (lit ''a'')
             (worker_hears (Responds (PDict demo_answer)) s))))))
   in caller_waits t \<and> speech_enabled Cancel_begins t"
proof -
  let ?s = "fold (\<lambda>a t. snd (speech_do a t)) demo_say demo_speech"
  have *: "reach fresh_speech speech_step ?s" by (rule demo_speech_reach) code_simp
  show ?thesis
    using crashed_worker_blocks_submit [OF *, of _ demo_answer "Type_error ''unhashable type''" "lit ''a''" "lit ''b''" "lit ''c''"
        _ Cancel_begins]
    unfolding Let_def by code_simp
qed

end
