(* ===== verification/CallTurnStream.thy ===== *)
theory CallTurnStream
  imports ChatServer SpeechScheduler TtsSegmenter PyText
begin

text \<open>
  \<open>create_call_turn\<close> of \<open>web-ui/server/app/api/calls.py\<close>: the request that answers what the user said in
  a call. It reserves the turn, records the user's message, streams the completion of the language
  model as frames to the browser, hands the segments of the text to the speech scheduler, waits for
  the playout, and records the answer; a request for a turn that exists joins it.

  The generator runs from one await or \<open>yield\<close> to the next; the place of a state says where it stands,
  with what its local variables hold there. At an await the task may be cancelled, and at a \<open>yield\<close>
  the consumer may go away, which closes the generator; both run the handlers and the \<open>finally\<close> block
  of the code. The results of the service and of the backend are arguments here; \<open>CallTurnWorld\<close>
  joins the generator with the tables and the other requests.
\<close>

section \<open>Frames\<close>

type_synonym event = "(ptext \<times> pv) list"

datatype turn_frame = Event_frame event | Keepalive_frame

definition turn_event :: "string \<Rightarrow> string \<Rightarrow> event \<Rightarrow> event" where
  "turn_event type turn members = (lit ''type'', pstr type) # (lit ''turn_id'', pstr turn) # members"

definition ai_token_event :: "string \<Rightarrow> ptext \<Rightarrow> event" where
  "ai_token_event turn t = turn_event ''ai_token'' turn [(lit ''text'', PStr t)]"

definition rehearsing_event :: "string \<Rightarrow> event" where
  "rehearsing_event turn = turn_event ''state'' turn [(lit ''state'', pstr ''rehearsing'')]"

definition turn_error_event :: "string \<Rightarrow> string \<Rightarrow> string \<Rightarrow> event" where
  "turn_error_event turn code message
     = turn_event ''error'' turn [(lit ''code'', pstr code), (lit ''message'', pstr message)]"

definition answer_done_event :: "string \<Rightarrow> pv \<Rightarrow> event \<Rightarrow> event" where
  "answer_done_event turn message extra = turn_event ''ai_done'' turn ((lit ''message'', message) # extra)"

definition durable_state_name :: "turn_status \<Rightarrow> string" where
  "durable_state_name st = (case st of
     Turn_reserved \<Rightarrow> ''reserved'' | Turn_running \<Rightarrow> ''running'' | Turn_done \<Rightarrow> ''completed''
   | Turn_failed \<Rightarrow> ''failed'' | Turn_cancelled \<Rightarrow> ''cancelled'')"

definition turn_existing_event :: "string \<Rightarrow> turn_status \<Rightarrow> bool \<Rightarrow> py_error + event" where
  "turn_existing_event turn st recoverable =
     (if st = Turn_done then Inl (Value_error ''unsupported duplicate call turn state: completed'')
      else Inr (turn_event ''turn_existing'' turn
                  [(lit ''state'', pstr (durable_state_name st)), (lit ''recoverable'', PBool recoverable)]))"

text \<open>The row of a message as the frames show it; \<open>clock\<close> is \<open>datetime.isoformat\<close>.\<close>

definition message_dict :: "(rat \<Rightarrow> ptext) \<Rightarrow> string \<Rightarrow> message_row \<Rightarrow> event" where
  "message_dict clock mid m =
     [(lit ''id'', pstr mid), (lit ''thread_id'', pstr (ms_thread m)), (lit ''message_kind'', pstr (ms_kind m)),
      (lit ''role'', pstr (ms_role m)), (lit ''sequence'', PInt (ms_sequence m)),
      (lit ''content_text'', case ms_content m of None \<Rightarrow> PNone | Some t \<Rightarrow> PStr t),
      (lit ''created_at'', PStr (clock (ms_created m))), (lit ''updated_at'', PStr (clock (ms_updated m)))]"

definition call_sse :: "(pyfloat \<Rightarrow> ptext) \<Rightarrow> event \<Rightarrow> ptext" where
  "call_sse fr event = lit ''data: '' @ json_dumps fr (PDict event) @ [10, 10]"

definition frame_text :: "(pyfloat \<Rightarrow> ptext) \<Rightarrow> turn_frame \<Rightarrow> ptext" where
  "frame_text fr f = (case f of Event_frame e \<Rightarrow> call_sse fr e | Keepalive_frame \<Rightarrow> lit '': keepalive'' @ [10, 10])"

text \<open>\<open>loads\<close> is \<open>json.loads\<close>, with no result where it raises \<open>ValueError\<close>.\<close>

fun decode_lines :: "(ptext \<Rightarrow> pv option) \<Rightarrow> ptext list \<Rightarrow> event" where
  "decode_lines loads [] = []"
| "decode_lines loads (l # ls) =
     (if \<not> starts_with (lit ''data: '') l then decode_lines loads ls
      else case loads (drop 6 l) of Some (PDict d) \<Rightarrow> d | _ \<Rightarrow> [])"

definition decode_sse_event :: "(ptext \<Rightarrow> pv option) \<Rightarrow> ptext \<Rightarrow> event" where
  "decode_sse_event loads raw = decode_lines loads (splitlines raw)"

definition audio_started_in :: "pv \<Rightarrow> event option" where
  "audio_started_in v = (case v of
     PDict d \<Rightarrow> if vget d ''type'' = pstr ''ai_audio_started'' then Some d else None
   | _ \<Rightarrow> None)"

definition extract_ai_audio_started_event :: "event option \<Rightarrow> event option" where
  "extract_ai_audio_started_event result =
     (case result of
        None \<Rightarrow> None
      | Some r \<Rightarrow>
          case audio_started_in (vget r ''ai_audio_started_event'') of
            Some d \<Rightarrow> Some d
          | None \<Rightarrow>
              case vget r ''event'' of PDict e \<Rightarrow> audio_started_in (vget e ''ai_audio_started_event'') | _ \<Rightarrow> None)"

section \<open>State\<close>

record turn_request =
  rq_call :: string
  rq_turn :: string
  rq_text :: ptext
  rq_sha :: string
  rq_task :: "nat option"

text \<open>Why \<open>cancel\<close> of the scheduler was called: what follows it depends on that.\<close>

datatype stop_reason = Stop_error_event | Stop_cancelled | Stop_backend | Stop_other | Stop_leaving

datatype turn_place =
    At_reserve
  | At_rejoin "turn_status option"
  | At_user_message
  | At_load
  | At_stream
  | At_put "ptext list"
  | At_interrupt
  | At_stop stop_reason
  | At_sleep
  | At_claim
  | At_stage
  | At_commit
  | At_finish
  | At_unregister
  | At_end
  | Yielded after_yield
and after_yield =
    Then_rejoin turn_status
  | Then_feed ptext
  | Then_submit "ptext list"
  | Then_finalize
  | Then_poll
  | Then_judge speech_terminal
  | Then_leave

datatype final_task = No_task | Task_made "ptext option" | Task_waits | Task_over speech_outcome

record turn_stream =
  ts_request :: turn_request
  ts_place :: turn_place
  ts_created :: bool
  ts_owner :: "string option"
  ts_end :: turn_status
  ts_voice :: string
  ts_engine :: ptext
  ts_reference :: event
  ts_accumulated :: "ptext list"
  ts_blank :: "ptext list"
  ts_segmenter :: "segmenter option"
  ts_speech :: "speech_turn option"
  ts_rehearsing :: bool
  ts_task :: final_task
  ts_frames :: "turn_frame list"

definition new_turn_stream :: "turn_request \<Rightarrow> turn_stream" where
  "new_turn_stream r = \<lparr>ts_request = r, ts_place = At_reserve, ts_created = False, ts_owner = None,
     ts_end = Turn_failed, ts_voice = [], ts_engine = [], ts_reference = [], ts_accumulated = [], ts_blank = [],
     ts_segmenter = None, ts_speech = None, ts_rehearsing = False, ts_task = No_task, ts_frames = []\<rparr>"

definition go :: "turn_place \<Rightarrow> turn_stream \<Rightarrow> turn_stream" where
  "go p s = s\<lparr>ts_place := p\<rparr>"

definition yields :: "event \<Rightarrow> after_yield \<Rightarrow> turn_stream \<Rightarrow> turn_stream" where
  "yields e p s = s\<lparr>ts_place := Yielded p, ts_frames := ts_frames s @ [Event_frame e]\<rparr>"

abbreviation turn_of :: "turn_stream \<Rightarrow> string" where
  "turn_of s \<equiv> rq_turn (ts_request s)"

section \<open>Handlers and the end\<close>

text \<open>The \<open>finally\<close> block, up to its first await.\<close>

definition finish_or_end :: "turn_stream \<Rightarrow> turn_stream" where
  "finish_or_end s = go (if ts_created s then At_finish else At_end) s"

definition stop_speech :: "stop_reason \<Rightarrow> speech_turn \<Rightarrow> turn_stream \<Rightarrow> turn_stream" where
  "stop_speech r sp s = s\<lparr>ts_speech := Some (cancel_begins sp), ts_place := At_stop r\<rparr>"

definition leave_turn :: "turn_stream \<Rightarrow> turn_stream" where
  "leave_turn s =
     (case ts_speech s of
        None \<Rightarrow> finish_or_end s
      | Some sp \<Rightarrow> if sq_terminal sp = None then stop_speech Stop_leaving sp s else finish_or_end s)"

text \<open>The exceptions that the handlers tell apart.\<close>

datatype turn_exc = Exc_cancelled | Exc_service string string | Exc_backend | Exc_other

definition playback_failed_event :: "turn_stream \<Rightarrow> event" where
  "playback_failed_event s = turn_error_event (turn_of s) ''call_tts_failed'' ''Speech playback failed''"

definition generation_failed_event :: "turn_stream \<Rightarrow> event" where
  "generation_failed_event s = turn_error_event (turn_of s) ''call_generation_failed'' ''AI generation failed''"

definition raise_turn :: "turn_exc \<Rightarrow> turn_stream \<Rightarrow> turn_stream" where
  "raise_turn x s =
     (case x of
        Exc_cancelled \<Rightarrow>
          (let s1 = s\<lparr>ts_end := Turn_cancelled\<rparr> in
           case ts_speech s of None \<Rightarrow> leave_turn s1 | Some sp \<Rightarrow> stop_speech Stop_cancelled sp s1)
      | Exc_service code message \<Rightarrow>
          yields (turn_error_event (turn_of s) code message) Then_leave (s\<lparr>ts_end := Turn_cancelled\<rparr>)
      | Exc_backend \<Rightarrow>
          (case ts_speech s of
             None \<Rightarrow> yields (playback_failed_event s) Then_leave s
           | Some sp \<Rightarrow> stop_speech Stop_backend sp s)
      | Exc_other \<Rightarrow>
          (case ts_speech s of
             None \<Rightarrow> yields (generation_failed_event s) Then_leave s
           | Some sp \<Rightarrow> stop_speech Stop_other sp s))"

definition exc_of_call :: "call_error \<Rightarrow> turn_exc" where
  "exc_of_call e = (case e of
     Call_not_found \<Rightarrow> Exc_service ''call_session_not_found'' ''Call session was not found''
   | Voice_required \<Rightarrow> Exc_service ''call_voice_required'' ''Assign a voice before calling this character.''
   | Voice_unavailable \<Rightarrow> Exc_service ''call_voice_unavailable''
       ''The assigned voice is unavailable. Choose another voice before calling.''
   | _ \<Rightarrow> Exc_other)"

text \<open>\<open>cancel\<close> of the scheduler has returned, or raised.\<close>

definition speech_stopped :: "stop_reason \<Rightarrow> turn_stream \<Rightarrow> turn_stream" where
  "speech_stopped r s =
     (case r of
        Stop_error_event \<Rightarrow> go At_interrupt s
      | Stop_cancelled \<Rightarrow> leave_turn s
      | Stop_backend \<Rightarrow> yields (playback_failed_event s) Then_leave s
      | Stop_other \<Rightarrow> yields (generation_failed_event s) Then_leave s
      | Stop_leaving \<Rightarrow> finish_or_end s)"

definition stop_raised :: "stop_reason \<Rightarrow> turn_exc \<Rightarrow> turn_stream \<Rightarrow> turn_stream" where
  "stop_raised r x s =
     (case r of
        Stop_error_event \<Rightarrow> raise_turn x s
      | Stop_leaving \<Rightarrow> go At_end s
      | _ \<Rightarrow> leave_turn s)"

section \<open>Reservation\<close>

text \<open>\<open>clock\<close> again renders the times of the message of a turn that is complete.\<close>

definition rejoin :: "(rat \<Rightarrow> ptext) \<Rightarrow> reservation \<Rightarrow> turn_status option \<Rightarrow> turn_stream \<Rightarrow> turn_stream" where
  "rejoin clock rv emitted s =
     (let st = rv_state rv;
          existing = (\<lambda>recoverable next. case turn_existing_event (turn_of s) st recoverable of
             Inl e \<Rightarrow> raise_turn Exc_other s
           | Inr e \<Rightarrow> yields e next s) in
      if open_turn st
      then (if emitted = Some st then go (At_rejoin emitted) s else existing False (Then_rejoin st))
      else if st = Turn_done
      then yields (answer_done_event (turn_of s)
               (case rv_message rv of None \<Rightarrow> PNone | Some (mid, m) \<Rightarrow> PDict (message_dict clock mid m))
               [(lit ''existing'', PBool True)]) Then_leave s
      else existing True Then_leave)"

definition turn_reserved ::
  "(rat \<Rightarrow> ptext) \<Rightarrow> call_error + reservation \<Rightarrow> active_call option \<Rightarrow> bool \<Rightarrow> turn_stream \<Rightarrow> turn_stream" where
  "turn_reserved clock r call cancelled s =
     (case r of
        Inl e \<Rightarrow> raise_turn (if cancelled then Exc_cancelled else exc_of_call e) s
      | Inr rv \<Rightarrow>
          if \<not> rv_created rv
          then (if rv_matches rv then rejoin clock rv None s
                else yields (turn_error_event (turn_of s) ''call_turn_conflict'' ''Turn identifier is already in use'')
                       Then_leave s)
          else
            let s1 = s\<lparr>ts_created := True, ts_owner := rv_owner rv\<rparr> in
            if rv_owner rv = None then raise_turn Exc_other s1
            else case call of
                   None \<Rightarrow> raise_turn (exc_of_call Call_not_found) s1
                 | Some c \<Rightarrow> go At_user_message (s1\<lparr>ts_voice := ac_voice c, ts_engine := ac_engine c\<rparr>))"

definition turn_polled :: "(rat \<Rightarrow> ptext) \<Rightarrow> call_error + reservation \<Rightarrow> turn_stream \<Rightarrow> turn_stream" where
  "turn_polled clock r s =
     (case r of
        Inl e \<Rightarrow> raise_turn (exc_of_call e) s
      | Inr rv \<Rightarrow> rejoin clock rv (case ts_place s of At_rejoin emitted \<Rightarrow> emitted | _ \<Rightarrow> None) s)"

definition user_message_recorded :: "call_error + string option \<Rightarrow> turn_stream \<Rightarrow> turn_stream" where
  "user_message_recorded r s =
     (case r of
        Inl e \<Rightarrow> raise_turn (exc_of_call e) s
      | Inr None \<Rightarrow>
          yields (turn_error_event (turn_of s) ''call_session_not_found'' ''Call session was not found'') Then_leave
            (s\<lparr>ts_end := Turn_cancelled\<rparr>)
      | Inr (Some mid) \<Rightarrow> go At_load s)"

text \<open>
  The settings, the prompt and the reference of the voice: loaded, the voice refused by the service,
  or another exception, such as a prompt over its budget.
\<close>

datatype turn_load = Loaded event | Voice_refused | Load_raises turn_exc

definition turn_loaded :: "turn_load \<Rightarrow> turn_stream \<Rightarrow> turn_stream" where
  "turn_loaded l s =
     (case l of
        Load_raises x \<Rightarrow> raise_turn x s
      | Voice_refused \<Rightarrow>
          yields (turn_error_event (turn_of s) ''call_tts_failed''
                    ''Speech playback failed: voice audio unavailable.'') Then_leave s
      | Loaded reference \<Rightarrow>
          go At_stream
            (s\<lparr>ts_reference := reference,
               ts_segmenter := if ts_engine s = lit ''qwen3_1_7b''
                 then (case new_segmenter 60 4 of Inl e \<Rightarrow> None | Inr g \<Rightarrow> Some g) else None\<rparr>))"

section \<open>The stream\<close>

definition start_speech :: "turn_stream \<Rightarrow> turn_stream" where
  "start_speech s =
     (case ts_speech s of
        Some sp \<Rightarrow> s
      | None \<Rightarrow>
          (case new_speech_turn (turn_of s) (lit (ts_voice s)) (ts_engine s) (ts_reference s)
                  SPEECH_TURN_QUEUE_CAPACITY of
             Inl e \<Rightarrow> s
           | Inr sp \<Rightarrow> s\<lparr>ts_speech := Some sp\<rparr>))"

text \<open>The loop over the segments of one token; a full queue suspends it.\<close>

fun submit_all :: "ptext list \<Rightarrow> turn_stream \<Rightarrow> turn_stream" where
  "submit_all [] s = go At_stream s"
| "submit_all (seg # segs) s =
     (let s1 = start_speech s in
      if \<not> ts_rehearsing s1
      then yields (rehearsing_event (turn_of s)) (Then_submit (seg # segs)) (s1\<lparr>ts_rehearsing := True\<rparr>)
      else
        case ts_speech s1 of
          None \<Rightarrow> raise_turn Exc_other s1
        | Some sp \<Rightarrow>
            (case submit_segment seg sp of
               (Goes_on, sp1) \<Rightarrow> submit_all segs (s1\<lparr>ts_speech := Some sp1\<rparr>)
             | (Suspends, sp1) \<Rightarrow> go (At_put segs) (s1\<lparr>ts_speech := Some sp1\<rparr>)
             | (_, sp1) \<Rightarrow> raise_turn Exc_backend (s1\<lparr>ts_speech := Some sp1\<rparr>)))"

definition feed_turn :: "ptext \<Rightarrow> turn_stream \<Rightarrow> turn_stream" where
  "feed_turn token s =
     (case ts_segmenter s of
        None \<Rightarrow> go At_stream s
      | Some g \<Rightarrow>
          case feed token g of
            Inl e \<Rightarrow> raise_turn Exc_other s
          | Inr (segs, g1) \<Rightarrow> submit_all segs (s\<lparr>ts_segmenter := Some g1\<rparr>))"

text \<open>The suspended \<open>put\<close> of a segment goes on.\<close>

definition put_went_on :: "ptext list \<Rightarrow> speech_turn \<Rightarrow> turn_stream \<Rightarrow> turn_stream" where
  "put_went_on segs sp s =
     (case put_resumes sp of
        (Goes_on, sp1) \<Rightarrow> submit_all segs (s\<lparr>ts_speech := Some sp1\<rparr>)
      | (Suspends, sp1) \<Rightarrow> s
      | (_, sp1) \<Rightarrow> raise_turn Exc_backend (s\<lparr>ts_speech := Some sp1\<rparr>))"

text \<open>\<open>str(event.get("text") or "")\<close>; \<open>show\<close> is \<open>str\<close> of a value that is no string.\<close>

definition token_text :: "(pv \<Rightarrow> ptext) \<Rightarrow> event \<Rightarrow> ptext" where
  "token_text show e =
     (let v = vget e ''text'' in
      if \<not> truthy v then [] else case v of PStr t \<Rightarrow> t | _ \<Rightarrow> show v)"

definition on_token :: "ptext \<Rightarrow> turn_stream \<Rightarrow> turn_stream" where
  "on_token token s =
     (if token = [] then s
      else if ts_accumulated s = [] \<and> strip token = [] then s\<lparr>ts_blank := ts_blank s @ [token]\<rparr>
      else
        let whole = concat (ts_blank s) @ token in
        yields (ai_token_event (turn_of s) whole) (Then_feed whole)
          (s\<lparr>ts_blank := [], ts_accumulated := ts_accumulated s @ [whole]\<rparr>))"

definition on_event :: "(pv \<Rightarrow> ptext) \<Rightarrow> event \<Rightarrow> turn_stream \<Rightarrow> turn_stream" where
  "on_event show e s =
     (if vget e ''type'' = pstr ''token'' then on_token (token_text show e) s
      else if vget e ''type'' = pstr ''error''
      then (let s1 = s\<lparr>ts_blank := []\<rparr> in
            case ts_speech s of None \<Rightarrow> go At_interrupt s1 | Some sp \<Rightarrow> stop_speech Stop_error_event sp s1)
      else s)"

text \<open>The end of \<open>_interrupt_call\<close>, whose client errors are only logged.\<close>

datatype interrupt_end = Interrupt_settled | Interrupt_raises

definition interrupted :: "interrupt_end \<Rightarrow> turn_stream \<Rightarrow> turn_stream" where
  "interrupted e s =
     (case e of
        Interrupt_settled \<Rightarrow> yields (generation_failed_event s) Then_leave s
      | Interrupt_raises \<Rightarrow> raise_turn Exc_other s)"

definition finalize_speech :: "turn_stream \<Rightarrow> turn_stream" where
  "finalize_speech s =
     (let (tail, g) = (case ts_segmenter s of
                         None \<Rightarrow> (Some (concat (ts_accumulated s)), None)
                       | Some g \<Rightarrow> let (t, g1) = finish g in (t, Some g1)) in
      s\<lparr>ts_segmenter := g, ts_task := Task_made tail, ts_place := At_sleep\<rparr>)"

definition on_stream_end :: "turn_stream \<Rightarrow> turn_stream" where
  "on_stream_end s =
     (if strip (concat (ts_accumulated s)) = [] then go At_interrupt (s\<lparr>ts_blank := []\<rparr>)
      else
        let s1 = start_speech s in
        if \<not> ts_rehearsing s1
        then yields (rehearsing_event (turn_of s)) Then_finalize (s1\<lparr>ts_rehearsing := True\<rparr>)
        else finalize_speech s1)"

section \<open>The answer\<close>

definition judge :: "speech_terminal \<Rightarrow> turn_stream \<Rightarrow> turn_stream" where
  "judge t s =
     (if status t = Cancelled_end then leave_turn (s\<lparr>ts_end := Turn_cancelled\<rparr>)
      else if status t \<noteq> Normal_end \<or> \<not> playout_completed t then yields (playback_failed_event s) Then_leave s
      else go At_claim s)"

definition settle_task :: "speech_outcome \<Rightarrow> turn_stream \<Rightarrow> turn_stream" where
  "settle_task out s =
     (case out of
        Gives t \<Rightarrow>
          (case extract_ai_audio_started_event (response t) of
             Some e \<Rightarrow> yields e (Then_judge t) s
           | None \<Rightarrow> judge t s)
      | Refused_closed \<Rightarrow> raise_turn Exc_backend s
      | Is_cancelled \<Rightarrow> raise_turn Exc_cancelled s
      | _ \<Rightarrow> raise_turn Exc_other s)"

definition poll_task :: "turn_stream \<Rightarrow> turn_stream" where
  "poll_task s = (case ts_task s of Task_over out \<Rightarrow> settle_task out s | _ \<Rightarrow> go At_sleep s)"

definition claimed :: "call_error + bool \<Rightarrow> turn_place \<Rightarrow> turn_stream \<Rightarrow> turn_stream" where
  "claimed r next s =
     (case r of
        Inl e \<Rightarrow> raise_turn (exc_of_call e) s
      | Inr False \<Rightarrow> leave_turn (s\<lparr>ts_end := Turn_cancelled\<rparr>)
      | Inr True \<Rightarrow> go next s)"

definition answer_recorded :: "call_error + event option \<Rightarrow> turn_stream \<Rightarrow> turn_stream" where
  "answer_recorded r s =
     (case r of
        Inl e \<Rightarrow> raise_turn (exc_of_call e) s
      | Inr None \<Rightarrow> leave_turn (s\<lparr>ts_end := Turn_cancelled\<rparr>)
      | Inr (Some message) \<Rightarrow>
          yields (answer_done_event (turn_of s) (PDict message) []) Then_leave (s\<lparr>ts_end := Turn_done\<rparr>))"

definition turn_finished :: "call_error + unit \<Rightarrow> turn_stream \<Rightarrow> turn_stream" where
  "turn_finished r s =
     (case r of
        Inl e \<Rightarrow> go At_end s
      | Inr _ \<Rightarrow> go (if rq_task (ts_request s) = None then At_end else At_unregister) s)"

section \<open>After a yield, and when the request goes away\<close>

definition resume_turn :: "after_yield \<Rightarrow> turn_stream \<Rightarrow> turn_stream" where
  "resume_turn p s =
     (case p of
        Then_rejoin st \<Rightarrow> go (At_rejoin (Some st)) s
      | Then_feed token \<Rightarrow> feed_turn token s
      | Then_submit segs \<Rightarrow> submit_all segs s
      | Then_finalize \<Rightarrow> finalize_speech s
      | Then_poll \<Rightarrow> poll_task s
      | Then_judge t \<Rightarrow> judge t s
      | Then_leave \<Rightarrow> leave_turn s)"

text \<open>
  The cancellation of the task at an await. The wait for the background task of the scheduler passes
  it on, while the wait for the backend in \<open>cancel\<close> swallows it, so that it is no step of its own there.
\<close>

definition kill_turn :: "turn_stream \<Rightarrow> turn_stream" where
  "kill_turn s =
     (case ts_place s of
        At_put segs \<Rightarrow> raise_turn Exc_cancelled (s\<lparr>ts_speech := map_option caller_leaves (ts_speech s)\<rparr>)
      | At_finish \<Rightarrow> go At_end s
      | At_unregister \<Rightarrow> go At_end s
      | _ \<Rightarrow> raise_turn Exc_cancelled s)"

primrec awaits_killable :: "turn_place \<Rightarrow> bool" where
  "awaits_killable At_reserve = True"
| "awaits_killable (At_rejoin e) = True"
| "awaits_killable At_user_message = True"
| "awaits_killable At_load = True"
| "awaits_killable At_stream = True"
| "awaits_killable (At_put segs) = True"
| "awaits_killable At_interrupt = True"
| "awaits_killable (At_stop r) = False"
| "awaits_killable At_sleep = True"
| "awaits_killable At_claim = True"
| "awaits_killable At_stage = True"
| "awaits_killable At_commit = True"
| "awaits_killable At_finish = True"
| "awaits_killable At_unregister = True"
| "awaits_killable At_end = False"
| "awaits_killable (Yielded p) = False"

end
