(* ===== verification/CallTurnWorld.thy ===== *)
theory CallTurnWorld
  imports CallTurnStream
begin

text \<open>
  The request of a call turn in its surroundings: the generator of \<open>CallTurnStream\<close>, the tables and
  the memory of calls of \<open>ChatServer\<close>, the scheduler of \<open>SpeechScheduler\<close> with its background task,
  and the other requests of the server, in any order. The language model, the AI backend, the
  settings and the consumer of the frames are arguments of the steps.
\<close>

section \<open>State and steps\<close>

record turn_world =
  tw_server :: server
  tw_stream :: turn_stream

text \<open>The rendering of times and of values that are no strings.\<close>

record turn_env =
  te_clock :: "rat \<Rightarrow> ptext"
  te_show :: "pv \<Rightarrow> ptext"

datatype turn_move =
    Reserve_turn string string commit_end "nat set" rat
  | Poll_turn "nat set" rat
  | Record_user string rat
  | Load_turn turn_load
  | Next_event event
  | Stream_ends
  | Stream_raises turn_exc
  | Resume_turn
  | Put_goes_on
  | Interrupt_ends interrupt_end
  | Stop_gathered bool
  | Stop_ends ask_end
  | Wake_turn
  | Task_runs
  | Speech_works speech_move
  | Claim_answer
  | Stage_answer string rat
  | Commit_answer rat
  | Finish_row rat
  | Unregister_turn
  | Kill_turn
  | Close_turn
  | Foreign server_op

definition cancelled_commit :: "commit_end \<Rightarrow> bool" where
  "cancelled_commit c = (case c of Commit_returns \<Rightarrow> False | Commit_raises cancelled landed repairs \<Rightarrow> cancelled)"

definition staged_answer :: "string \<Rightarrow> server \<Rightarrow> (string \<times> string \<times> string \<times> message_row) option" where
  "staged_answer cid sv = (case dget (sv_calls sv) cid of None \<Rightarrow> None | Some c \<Rightarrow> ac_staged c)"

definition answer_message :: "turn_env \<Rightarrow> string \<Rightarrow> server \<Rightarrow> event" where
  "answer_message env cid sv =
     (case staged_answer cid sv of None \<Rightarrow> [] | Some (turn, owner, mid, row) \<Rightarrow> message_dict (te_clock env) mid row)"

text \<open>The task of \<open>finalize\<close>: its first stretch, or the one after a wait.\<close>

definition run_task :: "turn_stream \<Rightarrow> turn_stream" where
  "run_task s =
     (case ts_speech s of
        None \<Rightarrow> s
      | Some sp \<Rightarrow>
          (let after = (\<lambda>(out, sp1). s\<lparr>ts_speech := Some sp1,
                                      ts_task := if out = Suspends then Task_waits else Task_over out\<rparr>) in
           case ts_task s of
             Task_made tail \<Rightarrow> after (finalize_turn tail sp)
           | Task_waits \<Rightarrow> after (if sq_caller sp = Caller_joins then join_resumes sp else put_resumes sp)
           | _ \<Rightarrow> s))"

definition stop_gathered :: "bool \<Rightarrow> turn_stream \<Rightarrow> turn_stream" where
  "stop_gathered again s =
     (case (ts_place s, ts_speech s) of
        (At_stop r, Some sp) \<Rightarrow>
          (let (out, sp1) = cancel_gathered again sp; s1 = s\<lparr>ts_speech := Some sp1\<rparr> in
           if out = Is_cancelled then stop_raised r Exc_cancelled s1 else s1)
      | _ \<Rightarrow> s)"

definition stop_ends :: "ask_end \<Rightarrow> turn_stream \<Rightarrow> turn_stream" where
  "stop_ends e s =
     (case (ts_place s, ts_speech s) of
        (At_stop r, Some sp) \<Rightarrow>
          (let (out, sp1) = cancel_ends e sp; s1 = s\<lparr>ts_speech := Some sp1\<rparr> in
           case out of Gives t \<Rightarrow> speech_stopped r s1 | _ \<Rightarrow> stop_raised r Exc_other s1)
      | _ \<Rightarrow> s)"

definition on_stream :: "(turn_stream \<Rightarrow> turn_stream) \<Rightarrow> turn_world \<Rightarrow> turn_world" where
  "on_stream f w = w\<lparr>tw_stream := f (tw_stream w)\<rparr>"

text \<open>A step with an operation of the service: its result goes to the generator.\<close>

definition with_service :: "(server \<Rightarrow> 'r \<times> server) \<Rightarrow> ('r \<Rightarrow> server \<Rightarrow> turn_stream \<Rightarrow> turn_stream) \<Rightarrow> turn_world \<Rightarrow> turn_world" where
  "with_service op k w = (let (r, sv) = op (tw_server w) in w\<lparr>tw_server := sv, tw_stream := k r sv (tw_stream w)\<rparr>)"

definition owner_of :: "turn_stream \<Rightarrow> string" where
  "owner_of s = (case ts_owner s of None \<Rightarrow> [] | Some w \<Rightarrow> w)"

primrec turn_do :: "turn_env \<Rightarrow> turn_move \<Rightarrow> turn_world \<Rightarrow> turn_world" where
  "turn_do env (Reserve_turn rid owner commit done now) w =
     (let q = ts_request (tw_stream w) in
      with_service (reserve_call_turn (rq_call q) (rq_turn q) (rq_sha q) rid owner (rq_task q) commit done now)
        (\<lambda>r sv. turn_reserved (te_clock env) r (dget (sv_calls sv) (rq_call q)) (cancelled_commit commit)) w)"
| "turn_do env (Poll_turn done now) w =
     (let q = ts_request (tw_stream w) in
      with_service (call_turn_status (rq_call q) (rq_turn q) (rq_sha q) done now)
        (\<lambda>r sv. turn_polled (te_clock env) r) w)"
| "turn_do env (Record_user mid now) w =
     (let q = ts_request (tw_stream w) in
      with_service (record_reserved_user_speech mid (rq_call q) (rq_turn q) (rq_text q) (ts_owner (tw_stream w)) now)
        (\<lambda>r sv. user_message_recorded r) w)"
| "turn_do env (Load_turn l) w = on_stream (turn_loaded l) w"
| "turn_do env (Next_event e) w = on_stream (on_event (te_show env) e) w"
| "turn_do env Stream_ends w = on_stream on_stream_end w"
| "turn_do env (Stream_raises x) w = on_stream (raise_turn x) w"
| "turn_do env Resume_turn w =
     on_stream (\<lambda>s. case ts_place s of Yielded p \<Rightarrow> resume_turn p s | _ \<Rightarrow> s) w"
| "turn_do env Put_goes_on w =
     on_stream (\<lambda>s. case (ts_place s, ts_speech s) of (At_put segs, Some sp) \<Rightarrow> put_went_on segs sp s | _ \<Rightarrow> s) w"
| "turn_do env (Interrupt_ends e) w = on_stream (interrupted e) w"
| "turn_do env (Stop_gathered i) w = on_stream (stop_gathered i) w"
| "turn_do env (Stop_ends e) w = on_stream (stop_ends e) w"
| "turn_do env Wake_turn w =
     on_stream (\<lambda>s. s\<lparr>ts_place := Yielded Then_poll, ts_frames := ts_frames s @ [Keepalive_frame]\<rparr>) w"
| "turn_do env Task_runs w = on_stream run_task w"
| "turn_do env (Speech_works m) w =
     on_stream (\<lambda>s. s\<lparr>ts_speech := map_option (\<lambda>sp. snd (speech_do m sp)) (ts_speech s)\<rparr>) w"
| "turn_do env Claim_answer w =
     (let q = ts_request (tw_stream w) in
      with_service (complete_begin (rq_call q) (rq_turn q) (ts_owner (tw_stream w)) True)
        (\<lambda>r sv. claimed r At_stage) w)"
| "turn_do env (Stage_answer mid now) w =
     (let q = ts_request (tw_stream w) in
      with_service (complete_stage mid (rq_call q) (rq_turn q) (concat (ts_accumulated (tw_stream w)))
                      (owner_of (tw_stream w)) now)
        (\<lambda>r sv. claimed r At_commit) w)"
| "turn_do env (Commit_answer now) w =
     (let q = ts_request (tw_stream w); message = answer_message env (rq_call q) (tw_server w) in
      with_service (complete_commit (rq_call q) now)
        (\<lambda>r sv. answer_recorded (map_sum id (map_option (\<lambda>mid. message)) r)) w)"
| "turn_do env (Finish_row now) w =
     (let q = ts_request (tw_stream w) in
      with_service (finish_call_turn (rq_call q) (rq_turn q) (ts_end (tw_stream w)) (ts_owner (tw_stream w)) now)
        (\<lambda>r sv. turn_finished r) w)"
| "turn_do env Unregister_turn w =
     (let q = ts_request (tw_stream w) in
      with_service (unregister_active_turn (rq_call q) (case rq_task q of None \<Rightarrow> 0 | Some t \<Rightarrow> t)
                      (Some (rq_turn q)) (ts_owner (tw_stream w)))
        (\<lambda>r sv. go At_end) w)"
| "turn_do env Kill_turn w =
     (let q = ts_request (tw_stream w) in
      w\<lparr>tw_server := if ts_place (tw_stream w) \<in> {At_stage, At_commit}
                     then complete_abort (rq_call q) (rq_turn q) (tw_server w) else tw_server w,
        tw_stream := kill_turn (tw_stream w)\<rparr>)"
| "turn_do env Close_turn w = on_stream leave_turn w"
| "turn_do env (Foreign op) w = w\<lparr>tw_server := serve op (tw_server w)\<rparr>"

section \<open>When a step may run\<close>

text \<open>
  The steps of other requests: the operations of this turn are its own, the staged answer belongs to
  the request that holds the persistence lock, and a restart of the server would end this request too.
\<close>

definition staged_turn :: "string \<Rightarrow> server \<Rightarrow> string option" where
  "staged_turn cid sv = map_option fst (staged_answer cid sv)"

definition foreign_op :: "string \<Rightarrow> string \<Rightarrow> server_op \<Rightarrow> server \<Rightarrow> bool" where
  "foreign_op c t op sv =
     (case op of
        User_speech mid cid turn text owner now \<Rightarrow> cid \<noteq> c \<or> turn \<noteq> t
      | Complete_begin cid turn owner completed \<Rightarrow> cid \<noteq> c \<or> turn \<noteq> t
      | Complete_stage mid cid turn text owner now \<Rightarrow> cid \<noteq> c \<or> turn \<noteq> t
      | Complete_commit cid now \<Rightarrow> cid \<noteq> c \<or> staged_turn c sv \<noteq> Some t
      | Complete_abort cid turn \<Rightarrow> cid \<noteq> c \<or> turn \<noteq> t
      | Finish_turn cid turn state owner now \<Rightarrow> cid \<noteq> c \<or> turn \<noteq> t
      | Restart \<Rightarrow> False
      | _ \<Rightarrow> True)"

primrec task_move :: "speech_move \<Rightarrow> bool" where
  "task_move (Submit text) = False"
| "task_move (Finalize tail) = False"
| "task_move Put_resumes = False"
| "task_move Join_resumes = False"
| "task_move Caller_leaves = False"
| "task_move Worker_takes = True"
| "task_move (Worker_hears e) = True"
| "task_move Worker_stops = True"
| "task_move Cancel_begins = False"
| "task_move (Cancel_gathered i) = False"
| "task_move (Cancel_ends e) = False"

definition speech_can :: "speech_move \<Rightarrow> turn_stream \<Rightarrow> bool" where
  "speech_can m s = (case ts_speech s of None \<Rightarrow> False | Some sp \<Rightarrow> speech_enabled m sp)"

definition task_can :: "turn_stream \<Rightarrow> bool" where
  "task_can s = (case ts_task s of
     Task_made tail \<Rightarrow> speech_can (Finalize tail) s
   | Task_waits \<Rightarrow> speech_can Put_resumes s \<or> speech_can Join_resumes s
   | _ \<Rightarrow> False)"

definition is_yielded :: "turn_place \<Rightarrow> bool" where
  "is_yielded p = (case p of Yielded q \<Rightarrow> True | _ \<Rightarrow> False)"

definition is_rejoin :: "turn_place \<Rightarrow> bool" where
  "is_rejoin p = (case p of At_rejoin e \<Rightarrow> True | _ \<Rightarrow> False)"

definition is_put :: "turn_place \<Rightarrow> bool" where
  "is_put p = (case p of At_put segs \<Rightarrow> True | _ \<Rightarrow> False)"

definition is_stop :: "turn_place \<Rightarrow> bool" where
  "is_stop p = (case p of At_stop r \<Rightarrow> True | _ \<Rightarrow> False)"

definition turn_can :: "turn_move \<Rightarrow> turn_place \<Rightarrow> turn_stream \<Rightarrow> server \<Rightarrow> bool" where
  "turn_can m p s sv =
     (case m of
        Reserve_turn rid owner commit done now \<Rightarrow> p = At_reserve \<and> owner \<noteq> []
      | Poll_turn done now \<Rightarrow> is_rejoin p
      | Record_user mid now \<Rightarrow> p = At_user_message \<and> lock_free (rq_call (ts_request s)) sv
      | Load_turn l \<Rightarrow> p = At_load
      | Next_event e \<Rightarrow> p = At_stream
      | Stream_ends \<Rightarrow> p = At_stream
      | Stream_raises x \<Rightarrow> p = At_stream
      | Resume_turn \<Rightarrow> is_yielded p
      | Put_goes_on \<Rightarrow> is_put p \<and> speech_can Put_resumes s
      | Interrupt_ends e \<Rightarrow> p = At_interrupt
      | Stop_gathered i \<Rightarrow> is_stop p \<and> speech_can (Cancel_gathered i) s
      | Stop_ends e \<Rightarrow> is_stop p \<and> speech_can (Cancel_ends e) s
      | Wake_turn \<Rightarrow> p = At_sleep
      | Task_runs \<Rightarrow> task_can s
      | Speech_works x \<Rightarrow> task_move x \<and> speech_can x s
      | Claim_answer \<Rightarrow> p = At_claim
      | Stage_answer mid now \<Rightarrow> p = At_stage \<and> lock_free (rq_call (ts_request s)) sv
      | Commit_answer now \<Rightarrow> p = At_commit
      | Finish_row now \<Rightarrow> p = At_finish \<and> lock_free (rq_call (ts_request s)) sv
      | Unregister_turn \<Rightarrow> p = At_unregister
      | Kill_turn \<Rightarrow> awaits_killable p
      | Close_turn \<Rightarrow> is_yielded p
      | Foreign op \<Rightarrow> foreign_op (rq_call (ts_request s)) (rq_turn (ts_request s)) op sv \<and> server_enabled op sv)"

definition turn_enabled :: "turn_move \<Rightarrow> turn_world \<Rightarrow> bool" where
  "turn_enabled m w = turn_can m (ts_place (tw_stream w)) (tw_stream w) (tw_server w)"

inductive turn_step :: "turn_env \<Rightarrow> turn_world \<Rightarrow> turn_move \<Rightarrow> turn_world \<Rightarrow> bool" for env where
  turn_moved: "turn_enabled m w \<Longrightarrow> turn_step env w m (turn_do env m w)"

inductive_cases turn_stepE: "turn_step env w m w'"

text \<open>A request begins on any server whose persistence lock it does not hold.\<close>

definition turn_begins :: "turn_world \<Rightarrow> bool" where
  "turn_begins w \<longleftrightarrow> (\<exists>q. tw_stream w = new_turn_stream q)"

end
