(* ===== verification/CallTurnLaws.thy ===== *)
theory CallTurnLaws
  imports CallTurnWorld SpeechSchedulerLaws
begin

text \<open>
  The laws of a call turn: other requests leave a staged answer alone; the frames carry the tokens;
  while the answer is streamed, the submissions of the scheduler and what is still held back have the
  visible characters of the tokens; the interpretation \<open>turn_machine\<close> of the invariant.
\<close>

section \<open>Other requests leave a staged answer alone\<close>

lemma staged_put: "staged_answer cid (put_call k c sv) = (if cid = k then ac_staged c else staged_answer cid sv)"
  by (simp add: staged_answer_def put_call_def)

lemma staged_store [simp]: "staged_answer cid (sv\<lparr>sv_store := st\<rparr>) = staged_answer cid sv"
  by (simp add: staged_answer_def)

lemma staged_call: "dget (sv_calls sv) cid = Some c \<Longrightarrow> staged_answer cid sv = ac_staged c"
  by (simp add: staged_answer_def)

lemma staged_on_store [simp]: "staged_answer cid (on_store f sv) = staged_answer cid sv"
  by (simp add: on_store_def split: sum.split)

lemma staged_with_call:
  "(\<And>c. ac_staged (f c) = ac_staged c) \<Longrightarrow> staged_answer cid (snd (with_call k f sv)) = staged_answer cid sv"
  by (cases "dget (sv_calls sv) k") (auto simp: with_call_def staged_put staged_call)

lemma staged_owner [simp]:
  "ac_staged (drop_owner t c) = ac_staged c" "ac_staged (set_turn_state t s c) = ac_staged c"
  "ac_staged (discard_turn_owner t w k c) = ac_staged c" "ac_staged (own_reservation t w k c) = ac_staged c"
  "ac_staged (drop_pending t c) = ac_staged c" "ac_staged (cancel_in_memory c) = ac_staged c"
  by (auto simp: drop_owner_def set_turn_state_def discard_turn_owner_def own_reservation_def drop_pending_def
      cancel_in_memory_def Let_def split: option.split)

lemma staged_terminalize: "terminalize_stale_turn now d rid r c st = (r', c', st') \<Longrightarrow> ac_staged c' = ac_staged c"
  by (auto simp: terminalize_stale_turn_def Let_def split: if_splits)

lemma staged_existing:
  assumes "dget (sv_calls sv) k = Some c"
  shows "staged_answer cid (snd (existing_turn_reservation now d sha k rid r c sv)) = staged_answer cid sv"
proof -
  obtain r' c' st' where t: "terminalize_stale_turn now d rid r c (sv_store sv) = (r', c', st')"
    by (cases "terminalize_stale_turn now d rid r c (sv_store sv)")
  then show ?thesis using staged_terminalize [OF t] assms
    by (simp add: existing_turn_reservation_def staged_put staged_call)
qed

lemma staged_reserve: "staged_answer cid (snd (reserve_call_turn k t sha rid w task cm d now sv)) = staged_answer cid sv"
proof (cases "dget (sv_calls sv) k")
  case (Some c)
  show ?thesis
  proof (cases "ac_ended c = None")
    case live: True
    show ?thesis
    proof (cases "find_turn k t (sv_store sv)")
      case None
      then show ?thesis using Some live
        by (cases cm; auto simp: reserve_call_turn_def staged_put staged_call Let_def split: sum.split)
    next
      case r: (Some p)
      then show ?thesis using staged_existing [OF Some] Some live
        by (cases p) (simp add: reserve_call_turn_def split_beta)
    qed
  qed (use Some in \<open>simp add: reserve_call_turn_def\<close>)
qed (simp add: reserve_call_turn_def)

lemma staged_status: "staged_answer cid (snd (call_turn_status k t sha d now sv)) = staged_answer cid sv"
  using staged_existing by (auto simp: call_turn_status_def split_beta split: option.split)

lemma staged_reconcile_turn: "staged_answer cid (reconcile_turn now d rid sv) = staged_answer cid sv"
  by (auto simp: reconcile_turn_def staged_put staged_call dest: staged_terminalize split: option.split prod.split)

lemma staged_reconcile: "staged_answer cid (reconcile_stale_call_turns now d sv) = staged_answer cid sv"
proof -
  have "staged_answer cid (fold (reconcile_turn now d) ks s) = staged_answer cid s" for ks s
    by (induction ks arbitrary: s) (simp_all add: staged_reconcile_turn)
  then show ?thesis by (simp add: reconcile_stale_call_turns_def)
qed

lemma staged_start_on:
  "k \<noteq> cid \<Longrightarrow> staged_answer cid (snd (start_call_on k sid mid tid pf now sv)) = staged_answer cid sv"
  by (auto simp: start_call_on_def staged_put Let_def split: sum.split)

lemma staged_start:
  "k \<noteq> cid \<Longrightarrow> staged_answer cid (snd (start_call k sid mid th fr ch pf now d sv)) = staged_answer cid sv"
  by (auto simp: start_call_def staged_start_on staged_reconcile Let_def split: option.split sum.split prod.split)

lemma staged_record_event: "staged_answer cid (snd (record_event mid k ty text now sv)) = staged_answer cid sv"
  by (auto simp: record_event_def Let_def split: option.split sum.split)

lemma staged_user: "staged_answer cid (snd (record_reserved_user_speech mid k t text w now sv)) = staged_answer cid sv"
  by (auto simp: record_reserved_user_speech_def staged_put staged_call Let_def split: option.split sum.split)

lemma staged_begin: "staged_answer cid (snd (complete_begin k t w b sv)) = staged_answer cid sv"
  by (auto simp: complete_begin_def staged_put staged_call split: option.split)

lemma staged_finish: "staged_answer cid (snd (finish_call_turn k t s w now sv)) = staged_answer cid sv"
  by (auto simp: finish_call_turn_def staged_put staged_call Let_def split: option.split)

lemma staged_end_write: "staged_answer cid (snd (end_call_write mid k now sv)) = staged_answer cid sv"
  by (auto simp: end_call_write_def staged_put staged_call split: option.split sum.split)

lemma staged_tasks:
  "staged_answer cid (snd (register_active_turn k t sv)) = staged_answer cid sv"
  "staged_answer cid (snd (begin_end_mark k now sv)) = staged_answer cid sv"
  by (auto simp: register_active_turn_def begin_end_mark_def staged_put staged_call split: option.split)

lemma staged_calls:
  "staged_answer cid (snd (set_muted_flag k m sv)) = staged_answer cid sv"
  "staged_answer cid (snd (attach_session k x sv)) = staged_answer cid sv"
  "staged_answer cid (snd (unregister_active_turn k n t w sv)) = staged_answer cid sv"
  "staged_answer cid (snd (drop_tasks k ns sv)) = staged_answer cid sv"
  "staged_answer cid (snd (begin_end_settle k ns sv)) = staged_answer cid sv"
  unfolding set_muted_flag_def attach_session_def unregister_active_turn_def drop_tasks_def begin_end_settle_def
  by (auto intro!: staged_with_call simp: Let_def split: option.split)

text \<open>The completion of another turn: it finds the lock taken, or works on another call.\<close>

lemma staged_refuse: "dget (sv_calls sv) k = Some c0 \<Longrightarrow> ac_staged c = ac_staged c0
    \<Longrightarrow> staged_answer cid (snd (refuse_completion e k t c sv)) = staged_answer cid sv"
  by (auto simp: refuse_completion_def staged_put staged_call split: if_splits)

lemma staged_stage_other: "k \<noteq> cid \<Longrightarrow> staged_answer cid (snd (complete_stage mid k t text w now sv)) = staged_answer cid sv"
  by (auto simp: complete_stage_def staged_put refuse_completion_def Let_def split: option.split sum.split)

lemma staged_commit_other: "k \<noteq> cid \<Longrightarrow> staged_answer cid (snd (complete_commit k now sv)) = staged_answer cid sv"
  by (auto simp: complete_commit_def staged_put refuse_completion_def Let_def split: option.split sum.split prod.split)

lemma staged_abort_other:
  assumes "k \<noteq> cid \<or> t \<noteq> turn" "staged_answer cid sv = Some (turn, w, mid, row)"
  shows "staged_answer cid (complete_abort k t sv) = staged_answer cid sv"
proof (cases "dget (sv_calls sv) k")
  case (Some c)
  then show ?thesis using assms by (cases "k = cid") (auto simp: complete_abort_def staged_put staged_call)
qed (simp add: complete_abort_def)

lemma lock_taken: "staged_answer cid sv = Some x \<Longrightarrow> \<not> lock_free cid sv"
  by (cases x) (auto simp: staged_answer_def lock_free_def split: option.splits)

lemma unused_unstaged: "call_id_unused cid sv \<Longrightarrow> staged_answer cid sv = None"
  by (simp add: call_id_unused_def staged_answer_def)

lemma foreign_keeps_staged:
  assumes "foreign_op cid turn op sv" "server_enabled op sv" "staged_answer cid sv = Some (turn, w, mid, row)"
  shows "staged_answer cid (serve op sv) = Some (turn, w, mid, row)"
proof (cases op)
  case (Start_call k sid m th fr ch pf now d)
  then have "k \<noteq> cid" using assms(2,3) unused_unstaged by auto
  then show ?thesis using assms(3) by (simp add: Start_call staged_start)
next
  case (Complete_stage m k t body v now)
  then have "k \<noteq> cid" using assms(2,3) lock_taken by auto
  then show ?thesis using assms(3) by (simp add: Complete_stage staged_stage_other)
next
  case (Complete_commit k now)
  then have "k \<noteq> cid" using assms(1,3) by (auto simp: foreign_op_def staged_turn_def)
  then show ?thesis using assms(3) by (simp add: Complete_commit staged_commit_other)
next
  case (Complete_abort k t)
  then show ?thesis using assms staged_abort_other [of k cid t turn sv] by (simp add: foreign_op_def)
qed (use assms in \<open>simp_all add: foreign_op_def staged_reserve staged_status staged_reconcile staged_record_event
    staged_user staged_begin staged_finish staged_end_write staged_tasks staged_calls\<close>)

section \<open>The frames carry the tokens\<close>

definition token_of :: "turn_frame \<Rightarrow> ptext list" where
  "token_of f = (case f of
     Keepalive_frame \<Rightarrow> []
   | Event_frame e \<Rightarrow>
       if vget e ''type'' = pstr ''ai_token'' then [case vget e ''text'' of PStr t \<Rightarrow> t | _ \<Rightarrow> []] else [])"

definition tokens_of :: "turn_frame list \<Rightarrow> ptext list" where
  "tokens_of fs = concat (map token_of fs)"

lemma tokens_of_append [simp]: "tokens_of [] = []" "tokens_of (fs @ [f]) = tokens_of fs @ token_of f"
  by (simp_all add: tokens_of_def)

lemma turn_event_type [simp]: "vget (turn_event ty turn ms) ''type'' = pstr ty"
  by (simp add: turn_event_def vget_or_def)

lemma token_of_events [simp]:
  "token_of Keepalive_frame = []"
  "token_of (Event_frame (ai_token_event turn t)) = [t]"
  "token_of (Event_frame (rehearsing_event turn)) = []"
  "token_of (Event_frame (turn_error_event turn c m)) = []"
  "token_of (Event_frame (answer_done_event turn msg ms)) = []"
  by (simp_all add: token_of_def ai_token_event_def rehearsing_event_def turn_error_event_def answer_done_event_def)
     (simp add: turn_event_def vget_or_def)

lemma token_of_existing: "turn_existing_event turn st r = Inr e \<Longrightarrow> token_of (Event_frame e) = []"
  by (auto simp: turn_existing_event_def token_of_def split: if_splits)

lemma token_of_started: "extract_ai_audio_started_event r = Some e \<Longrightarrow> token_of (Event_frame e) = []"
  by (auto simp: extract_ai_audio_started_event_def audio_started_in_def token_of_def
      split: option.splits pv.splits if_splits)

section \<open>The invariant of the generator\<close>

text \<open>The scheduler: in order, and being cancelled exactly while the generator waits for that.\<close>

fun speech_at :: "turn_place \<Rightarrow> speech_turn option \<Rightarrow> bool" where
  "speech_at p None = (\<not> is_stop p)"
| "speech_at p (Some sp) = (speech_ok sp \<and> (sq_cancel sp = Cancel_none \<longleftrightarrow> \<not> is_stop p))"

text \<open>
  While the answer is streamed, spoken and recorded: what the loop over the segments still holds, the
  token that was not fed yet, and what the segmenter and the task of \<open>finalize\<close> hold.
\<close>

fun held_segments :: "turn_place \<Rightarrow> ptext list" where
  "held_segments (At_put segs) = segs"
| "held_segments (Yielded (Then_submit segs)) = segs"
| "held_segments p = []"

fun held_token :: "turn_place \<Rightarrow> ptext" where
  "held_token (Yielded (Then_feed t)) = t"
| "held_token p = []"

fun streaming :: "turn_place \<Rightarrow> bool" where
  "streaming At_stream = True"
| "streaming (At_put segs) = True"
| "streaming (Yielded (Then_feed t)) = True"
| "streaming (Yielded (Then_submit segs)) = True"
| "streaming (Yielded Then_finalize) = True"
| "streaming p = False"

fun playing :: "turn_place \<Rightarrow> bool" where
  "playing At_sleep = True"
| "playing (Yielded Then_poll) = True"
| "playing p = False"

fun recording :: "turn_place \<Rightarrow> bool" where
  "recording At_claim = True"
| "recording At_stage = True"
| "recording At_commit = True"
| "recording p = False"

fun judging :: "turn_place \<Rightarrow> speech_terminal option" where
  "judging (Yielded (Then_judge t)) = Some t"
| "judging p = None"

fun submitting :: "turn_place \<Rightarrow> bool" where
  "submitting (At_put segs) = True"
| "submitting (Yielded (Then_submit segs)) = True"
| "submitting p = False"

fun said_by :: "speech_turn option \<Rightarrow> ptext" where
  "said_by None = []"
| "said_by (Some sp) = visible (concat (map su_text (sq_submitted sp)))"

fun held_text :: "turn_place \<Rightarrow> segmenter option \<Rightarrow> ptext list \<Rightarrow> ptext" where
  "held_text p None acc = visible (concat acc)"
| "held_text p (Some g) acc = visible (concat (held_segments p)) @ visible (buffer g) @ visible (held_token p)"

fun said_all :: "final_task \<Rightarrow> turn_place \<Rightarrow> turn_stream \<Rightarrow> bool" where
  "said_all No_task p s
     = (said_by (ts_speech s) @ held_text p (ts_segmenter s) (ts_accumulated s) = visible (concat (ts_accumulated s)))"
| "said_all (Task_made tail) p s
     = (said_by (ts_speech s) @ visible (case tail of None \<Rightarrow> [] | Some t \<Rightarrow> t) = visible (concat (ts_accumulated s)))"
| "said_all Task_waits p s = (said_by (ts_speech s) = visible (concat (ts_accumulated s)))"
| "said_all (Task_over (Gives t)) p s = (said_by (ts_speech s) = visible (concat (ts_accumulated s)))"
| "said_all (Task_over out) p s = True"

definition puts :: "bool \<Rightarrow> speech_caller \<Rightarrow> bool" where
  "puts final c = (case c of Caller_puts u \<Rightarrow> su_final u = final | _ \<Rightarrow> False)"

fun caller_fits :: "final_task \<Rightarrow> bool \<Rightarrow> speech_turn option \<Rightarrow> bool" where
  "caller_fits k p None = (k = No_task \<and> \<not> p)"
| "caller_fits No_task p (Some sp) = (if p then puts False (sq_caller sp) else sq_caller sp = Caller_free)"
| "caller_fits (Task_made tail) p (Some sp) = (sq_caller sp = Caller_free)"
| "caller_fits Task_waits p (Some sp) = (sq_caller sp = Caller_joins \<or> puts True (sq_caller sp))"
| "caller_fits (Task_over (Gives t)) p (Some sp) = (sq_caller sp = Caller_free \<and> sq_terminal sp = Some t)"
| "caller_fits (Task_over out) p (Some sp) = True"

fun proved :: "final_task \<Rightarrow> bool" where
  "proved (Task_over (Gives t)) = (status t = Normal_end \<and> playout_completed t)"
| "proved k = False"

fun judged :: "speech_terminal option \<Rightarrow> final_task \<Rightarrow> bool" where
  "judged None k = True"
| "judged (Some t) k = (k = Task_over (Gives t))"

fun segmenter_fits :: "turn_place \<Rightarrow> segmenter option \<Rightarrow> bool" where
  "segmenter_fits p None = (\<not> submitting p)"
| "segmenter_fits p (Some g) = (segmenter_ok g \<and> \<not> finished g)"

definition live_ok :: "turn_place \<Rightarrow> turn_stream \<Rightarrow> bool" where
  "live_ok p s \<longleftrightarrow> said_all (ts_task s) p s \<and> caller_fits (ts_task s) (is_put p) (ts_speech s)
     \<and> (streaming p \<longrightarrow> ts_task s = No_task \<and> segmenter_fits p (ts_segmenter s))
     \<and> (p = Yielded Then_finalize \<longrightarrow> ts_speech s \<noteq> None) \<and> (playing p \<longrightarrow> ts_task s \<noteq> No_task)
     \<and> (recording p \<longrightarrow> proved (ts_task s))
     \<and> judged (judging p) (ts_task s) \<and> ts_end s = Turn_failed"

definition live :: "turn_place \<Rightarrow> bool" where
  "live p \<longleftrightarrow> streaming p \<or> playing p \<or> recording p \<or> judging p \<noteq> None"

text \<open>Before the stream nothing is said and no scheduler exists.\<close>

fun early :: "turn_place \<Rightarrow> bool" where
  "early At_reserve = True"
| "early (At_rejoin e) = True"
| "early At_user_message = True"
| "early At_load = True"
| "early (Yielded (Then_rejoin st)) = True"
| "early p = False"

definition early_ok :: "turn_stream \<Rightarrow> bool" where
  "early_ok s \<longleftrightarrow> ts_speech s = None \<and> ts_task s = No_task \<and> ts_accumulated s = [] \<and> ts_segmenter s = None
     \<and> ts_end s = Turn_failed"

definition stream_ok :: "turn_stream \<Rightarrow> bool" where
  "stream_ok s \<longleftrightarrow> tokens_of (ts_frames s) = ts_accumulated s \<and> speech_at (ts_place s) (ts_speech s)
     \<and> (early (ts_place s) \<longrightarrow> early_ok s) \<and> (live (ts_place s) \<longrightarrow> live_ok (ts_place s) s)"

lemma new_stream_ok: "stream_ok (new_turn_stream q)"
  by (simp add: stream_ok_def new_turn_stream_def early_ok_def live_def is_stop_def)

lemma new_stream_place: "ts_place (new_turn_stream q) = At_reserve"
  by (simp add: new_turn_stream_def)

text \<open>What the handlers need: the frames, and a scheduler that is not being cancelled.\<close>

definition idle_ok :: "turn_stream \<Rightarrow> bool" where
  "idle_ok s \<longleftrightarrow> tokens_of (ts_frames s) = ts_accumulated s \<and> speech_at At_stream (ts_speech s)"

lemma stream_idle: "stream_ok s \<Longrightarrow> \<not> is_stop (ts_place s) \<Longrightarrow> idle_ok s"
  by (cases "ts_speech s") (simp_all add: stream_ok_def idle_ok_def is_stop_def)

definition quiet_place :: "turn_place \<Rightarrow> bool" where
  "quiet_place p \<longleftrightarrow> \<not> early p \<and> \<not> live p \<and> \<not> is_stop p"

lemma go_quiet: "idle_ok s \<Longrightarrow> quiet_place p \<Longrightarrow> stream_ok (go p s)"
  by (cases "ts_speech s") (simp_all add: stream_ok_def idle_ok_def go_def quiet_place_def is_stop_def)

lemma yields_quiet: "idle_ok s \<Longrightarrow> token_of (Event_frame e) = [] \<Longrightarrow> stream_ok (yields e Then_leave s)"
  by (cases "ts_speech s") (simp_all add: stream_ok_def idle_ok_def yields_def is_stop_def live_def)

lemma begins_cancelling: "sq_cancel (cancel_begins sp) \<noteq> Cancel_none"
  by (simp add: cancel_begins_def ask_backend_def Let_def)

lemma stop_ok: "idle_ok s \<Longrightarrow> ts_speech s = Some sp \<Longrightarrow> stream_ok (stop_speech r sp s)"
  by (auto simp: stream_ok_def idle_ok_def stop_speech_def is_stop_def live_def cancel_begins_ok begins_cancelling)

lemma idle_end [simp]: "idle_ok (s\<lparr>ts_end := x\<rparr>) = idle_ok s" "idle_ok (s\<lparr>ts_blank := b\<rparr>) = idle_ok s"
  by (simp_all add: idle_ok_def)

lemma finish_ok: "idle_ok s \<Longrightarrow> stream_ok (finish_or_end s)"
  by (auto simp: finish_or_end_def quiet_place_def live_def is_stop_def intro!: go_quiet)

lemma leave_ok: "idle_ok s \<Longrightarrow> stream_ok (leave_turn s)"
  by (cases "ts_speech s") (auto simp: leave_turn_def finish_ok stop_ok)

lemma raise_ok: "idle_ok s \<Longrightarrow> stream_ok (raise_turn x s)"
  by (cases "ts_speech s")
     (auto simp: raise_turn_def leave_ok stop_ok yields_quiet playback_failed_event_def generation_failed_event_def Let_def
      split: turn_exc.split)

section \<open>Submissions\<close>

text \<open>What a submission of a segment does, as the generator sees it.\<close>

lemma submit_cases:
  assumes "speech_ok sp" "sq_cancel sp = Cancel_none" "sq_caller sp = Caller_free" "submit_segment seg sp = (out, sp1)"
  shows "speech_ok sp1" "sq_cancel sp1 = Cancel_none"
    "out = Goes_on \<Longrightarrow> sq_caller sp1 = Caller_free
       \<and> visible (concat (map su_text (sq_submitted sp1))) = visible (concat (map su_text (sq_submitted sp))) @ visible seg"
    "out = Suspends \<Longrightarrow> puts False (sq_caller sp1)
       \<and> visible (concat (map su_text (sq_submitted sp1))) = visible (concat (map su_text (sq_submitted sp))) @ visible seg"
proof -
  show "speech_ok sp1" using submit_ok [OF assms(1,3), of seg] assms(4) by simp
  show "sq_cancel sp1 = Cancel_none"
    "out = Goes_on \<Longrightarrow> sq_caller sp1 = Caller_free
       \<and> visible (concat (map su_text (sq_submitted sp1))) = visible (concat (map su_text (sq_submitted sp))) @ visible seg"
    "out = Suspends \<Longrightarrow> puts False (sq_caller sp1)
       \<and> visible (concat (map su_text (sq_submitted sp1))) = visible (concat (map su_text (sq_submitted sp))) @ visible seg"
    using assms(2-4)
    by (auto simp: submit_segment_def new_submission_def put_submission_def after_put_def ensure_speech_worker_def
        puts_def strip_Nil_visible Let_def split: if_splits)
qed

lemma put_cases:
  assumes "speech_ok sp" "sq_cancel sp = Cancel_none" "puts False (sq_caller sp)" "\<not> queue_full sp"
    and "put_resumes sp = (out, sp1)"
  shows "speech_ok sp1" "sq_cancel sp1 = Cancel_none" "sq_caller sp1 = Caller_free" "sq_submitted sp1 = sq_submitted sp"
    "out = Goes_on \<or> out = Refused_closed"
proof -
  obtain u where u: "sq_caller sp = Caller_puts u" "\<not> su_final u"
    using assms(3) by (cases "sq_caller sp") (simp_all add: puts_def)
  show "speech_ok sp1" using put_ok [OF assms(1) u(1)] assms(4,5) u(1) by (simp add: put_resumes_def)
  show "sq_cancel sp1 = Cancel_none" "sq_caller sp1 = Caller_free" "sq_submitted sp1 = sq_submitted sp"
    "out = Goes_on \<or> out = Refused_closed"
    using assms(2,4,5) u by (auto simp: put_resumes_def after_put_def ensure_speech_worker_def Let_def split: if_splits)
qed

lemma new_turn_speech:
  obtains sp where "new_speech_turn t v e r SPEECH_TURN_QUEUE_CAPACITY = Inr sp" "fresh_speech sp"
proof (cases "new_speech_turn t v e r SPEECH_TURN_QUEUE_CAPACITY")
  case (Inl x)
  then show thesis by (simp add: new_speech_turn_def SPEECH_TURN_QUEUE_CAPACITY_def)
next
  case (Inr sp)
  then show thesis using that new_speech_turn_fresh by blast
qed

text \<open>The state in which the loop over the segments stands before one of them.\<close>

definition loop_ok :: "ptext list \<Rightarrow> turn_stream \<Rightarrow> bool" where
  "loop_ok segs s \<longleftrightarrow> idle_ok s \<and> ts_end s = Turn_failed \<and> ts_task s = No_task \<and> caller_fits No_task False (ts_speech s)
     \<and> (case ts_segmenter s of
          None \<Rightarrow> False
        | Some g \<Rightarrow> segmenter_ok g \<and> \<not> finished g
            \<and> said_by (ts_speech s) @ visible (concat segs) @ visible (buffer g) = visible (concat (ts_accumulated s)))"

lemma start_speech_loop: "loop_ok segs s \<Longrightarrow> loop_ok segs (start_speech s) \<and> ts_speech (start_speech s) \<noteq> None"
proof (cases "ts_speech s")
  case None
  assume s: "loop_ok segs s"
  obtain sp where sp: "new_speech_turn (turn_of s) (lit (ts_voice s)) (ts_engine s) (ts_reference s)
      SPEECH_TURN_QUEUE_CAPACITY = Inr sp" "fresh_speech sp" by (rule new_turn_speech)
  then show ?thesis using s None fresh_speech_ok [OF sp(2)]
    by (auto simp: loop_ok_def start_speech_def idle_ok_def fresh_speech_def is_stop_def split: option.splits)
qed (simp add: start_speech_def)

lemma loop_end: "loop_ok [] s \<Longrightarrow> stream_ok (go At_stream s)"
  by (cases "ts_speech s"; cases "ts_segmenter s")
     (simp_all add: loop_ok_def stream_ok_def go_def idle_ok_def live_def live_ok_def is_stop_def is_put_def)

lemma loop_yields:
  "loop_ok segs s \<Longrightarrow> token_of (Event_frame e) = [] \<Longrightarrow> stream_ok (yields e (Then_submit segs) (s\<lparr>ts_rehearsing := b\<rparr>))"
  by (cases "ts_speech s"; cases "ts_segmenter s")
     (simp_all add: loop_ok_def stream_ok_def yields_def idle_ok_def live_def live_ok_def is_stop_def is_put_def)

lemma loop_suspends:
  assumes "loop_ok (seg # segs) s" "ts_speech s = Some sp" "submit_segment seg sp = (Suspends, sp1)"
  shows "stream_ok (go (At_put segs) (s\<lparr>ts_speech := Some sp1\<rparr>))"
proof -
  have sp: "speech_ok sp" "sq_cancel sp = Cancel_none" "sq_caller sp = Caller_free"
    using assms(1,2) by (simp_all add: loop_ok_def idle_ok_def is_stop_def)
  note c = submit_cases [OF sp assms(3)]
  show ?thesis using assms(1,2) c
    by (cases "ts_segmenter s")
       (simp_all add: loop_ok_def stream_ok_def go_def idle_ok_def live_def live_ok_def is_stop_def is_put_def)
qed

lemma loop_next:
  assumes "loop_ok (seg # segs) s" "ts_speech s = Some sp" "submit_segment seg sp = (Goes_on, sp1)"
  shows "loop_ok segs (s\<lparr>ts_speech := Some sp1\<rparr>)"
proof -
  have sp: "speech_ok sp" "sq_cancel sp = Cancel_none" "sq_caller sp = Caller_free"
    using assms(1,2) by (simp_all add: loop_ok_def idle_ok_def is_stop_def)
  note c = submit_cases [OF sp assms(3)]
  show ?thesis using assms(1,2) c
    by (cases "ts_segmenter s") (simp_all add: loop_ok_def idle_ok_def is_stop_def)
qed

lemma loop_raises:
  assumes "loop_ok (seg # segs) s" "ts_speech s = Some sp" "submit_segment seg sp = (out, sp1)"
  shows "stream_ok (raise_turn x (s\<lparr>ts_speech := Some sp1\<rparr>))"
proof -
  have sp: "speech_ok sp" "sq_cancel sp = Cancel_none" "sq_caller sp = Caller_free"
    using assms(1,2) by (simp_all add: loop_ok_def idle_ok_def is_stop_def)
  note c = submit_cases [OF sp assms(3)]
  show ?thesis by (rule raise_ok) (use assms(1) c in \<open>simp add: loop_ok_def idle_ok_def is_stop_def\<close>)
qed

lemma submit_all_ok: "loop_ok segs s \<Longrightarrow> stream_ok (submit_all segs s)"
proof (induction segs arbitrary: s)
  case Nil
  then show ?case by (simp add: loop_end)
next
  case (Cons seg segs)
  let ?s = "start_speech s"
  have l: "loop_ok (seg # segs) ?s" "ts_speech ?s \<noteq> None" using start_speech_loop [OF Cons.prems] by simp_all
  then obtain sp where sp: "ts_speech ?s = Some sp" by auto
  show ?case
  proof (cases "ts_rehearsing ?s")
    case True
    obtain out sp1 where o: "submit_segment seg sp = (out, sp1)" by (cases "submit_segment seg sp")
    show ?thesis
      using True sp o Cons.IH [OF loop_next [OF l(1) sp, of sp1]] loop_suspends [OF l(1) sp, of sp1]
        loop_raises [OF l(1) sp o]
      by (cases out) (simp_all add: Let_def)
  qed (use loop_yields [OF l(1)] in \<open>simp add: Let_def\<close>)
qed

section \<open>The steps of the stream\<close>

lemma stream_live: "stream_ok s \<Longrightarrow> live (ts_place s) \<Longrightarrow> live_ok (ts_place s) s"
  by (simp add: stream_ok_def)

lemma feed_ok:
  assumes "stream_ok s" "ts_place s = Yielded (Then_feed token)"
  shows "stream_ok (feed_turn token s)"
proof -
  have idle: "idle_ok s" using stream_idle [OF assms(1)] assms(2) by (simp add: is_stop_def)
  have lv: "live_ok (Yielded (Then_feed token)) s" using stream_live [OF assms(1)] assms(2) by (simp add: live_def)
  then have k: "ts_task s = No_task" "caller_fits No_task False (ts_speech s)" "ts_end s = Turn_failed"
    by (auto simp: live_ok_def is_put_def)
  show ?thesis
  proof (cases "ts_segmenter s")
    case None
    then show ?thesis using idle k lv
      by (cases "ts_speech s")
         (simp_all add: feed_turn_def stream_ok_def go_def idle_ok_def live_def live_ok_def is_stop_def is_put_def)
  next
    case (Some g)
    then have g: "segmenter_ok g" "\<not> finished g"
      and said: "said_by (ts_speech s) @ visible (buffer g) @ visible token = visible (concat (ts_accumulated s))"
      using lv k by (auto simp: live_ok_def)
    let ?g = "g\<lparr>buffer := buffer g @ token\<rparr>"
    obtain segs g1 where f: "feed_loop ?g = (segs, g1)" by (cases "feed_loop ?g")
    have "segmenter_ok ?g" using g by (simp add: segmenter_ok_def)
    note fl = feed_loop_correct [OF this f]
    have "loop_ok segs (s\<lparr>ts_segmenter := Some g1\<rparr>)"
      using idle k g fl said by (auto simp: loop_ok_def idle_ok_def segmenter_ok_def)
    then show ?thesis using Some f g submit_all_ok by (simp add: feed_turn_def feed_def)
  qed
qed

lemma put_on_ok:
  assumes "stream_ok s" "ts_place s = At_put segs" "ts_speech s = Some sp" "\<not> queue_full sp"
  shows "stream_ok (put_went_on segs sp s)"
proof -
  obtain out sp1 where o: "put_resumes sp = (out, sp1)" by (cases "put_resumes sp")
  have idle: "idle_ok s" using stream_idle [OF assms(1)] assms(2) by (simp add: is_stop_def)
  have lv: "live_ok (At_put segs) s" using stream_live [OF assms(1)] assms(2) by (simp add: live_def)
  then have k: "ts_task s = No_task" "said_all No_task (At_put segs) s" "segmenter_fits (At_put segs) (ts_segmenter s)"
    "ts_end s = Turn_failed" by (auto simp: live_ok_def)
  have sp: "speech_ok sp" "sq_cancel sp = Cancel_none" "puts False (sq_caller sp)"
    using idle lv assms(3) by (auto simp: idle_ok_def live_ok_def is_stop_def is_put_def)
  note c = put_cases [OF sp assms(4) o]
  have "loop_ok segs (s\<lparr>ts_speech := Some sp1\<rparr>)"
    using idle k assms(3) c
    by (cases "ts_segmenter s") (simp_all add: loop_ok_def idle_ok_def is_stop_def)
  then show ?thesis using o c(5) submit_all_ok raise_ok [of "s\<lparr>ts_speech := Some sp1\<rparr>" Exc_backend]
    by (auto simp: put_went_on_def loop_ok_def)
qed

lemma token_ok:
  assumes "stream_ok s" "ts_place s = At_stream"
  shows "stream_ok (on_token token s)"
proof -
  have idle: "idle_ok s" using stream_idle [OF assms(1)] assms(2) by (simp add: is_stop_def)
  have lv: "live_ok At_stream s" using stream_live [OF assms(1)] assms(2) by (simp add: live_def)
  then have k: "ts_task s = No_task" "said_all No_task At_stream s" "segmenter_fits At_stream (ts_segmenter s)"
    "caller_fits No_task False (ts_speech s)" "ts_end s = Turn_failed" by (auto simp: live_ok_def is_put_def)
  show ?thesis
  proof (cases "token = [] \<or> ts_accumulated s = [] \<and> strip token = []")
    case True
    then show ?thesis using assms idle lv
      by (auto simp: on_token_def stream_ok_def live_ok_def live_def is_put_def split: option.split)
  next
    case False
    then have t: "on_token token s = yields (ai_token_event (turn_of s) (concat (ts_blank s) @ token))
        (Then_feed (concat (ts_blank s) @ token))
        (s\<lparr>ts_blank := [], ts_accumulated := ts_accumulated s @ [concat (ts_blank s) @ token]\<rparr>)"
      by (auto simp: on_token_def Let_def)
    show ?thesis
      using idle k unfolding t
      by (cases "ts_speech s"; cases "ts_segmenter s")
         (simp_all add: stream_ok_def yields_def idle_ok_def live_def live_ok_def is_stop_def is_put_def
            flip: append_assoc)
  qed
qed

lemma event_ok:
  assumes "stream_ok s" "ts_place s = At_stream"
  shows "stream_ok (on_event show e s)"
proof -
  have idle: "idle_ok (s\<lparr>ts_blank := []\<rparr>)" using stream_idle [OF assms(1)] assms(2) by (simp add: is_stop_def)
  have "stream_ok (go At_interrupt (s\<lparr>ts_blank := []\<rparr>))"
    by (rule go_quiet [OF idle]) (simp add: quiet_place_def live_def is_stop_def)
  then show ?thesis using token_ok [OF assms] assms(1) stop_ok [OF idle]
    by (auto simp: on_event_def Let_def split: option.split)
qed

lemma finalize_speech_ok:
  assumes "idle_ok s" "live_ok p s" "streaming p" "held_segments p = []" "held_token p = []" "\<not> is_put p"
    and "ts_speech s \<noteq> None"
  shows "stream_ok (finalize_speech s)"
proof -
  obtain sp where sp: "ts_speech s = Some sp" using assms(7) by auto
  have k: "ts_task s = No_task" "segmenter_fits p (ts_segmenter s)" using assms(2,3) by (simp_all add: live_ok_def)
  show ?thesis
  proof (cases "ts_segmenter s")
    case None
    then show ?thesis using assms sp k
      by (simp add: finalize_speech_def stream_ok_def idle_ok_def live_def live_ok_def is_stop_def is_put_def)
  next
    case (Some g)
    obtain t g1 where f: "finish g = (t, g1)" by (cases "finish g")
    have "visible (case t of None \<Rightarrow> [] | Some x \<Rightarrow> x) = visible (buffer g)"
      using f k(2) Some strip_Nil_visible [of "buffer g"] by (auto simp: finish_def Let_def split: if_splits)
    then show ?thesis using assms sp k Some f
      by (simp add: finalize_speech_def stream_ok_def idle_ok_def live_def live_ok_def is_stop_def is_put_def)
  qed
qed

lemma start_speech_live:
  assumes "idle_ok s" "live_ok At_stream s"
  shows "idle_ok (start_speech s)" "live_ok At_stream (start_speech s)" "ts_speech (start_speech s) \<noteq> None"
proof -
  have *: "idle_ok (start_speech s) \<and> live_ok At_stream (start_speech s) \<and> ts_speech (start_speech s) \<noteq> None"
  proof (cases "ts_speech s")
    case None
    obtain sp where sp: "new_speech_turn (turn_of s) (lit (ts_voice s)) (ts_engine s) (ts_reference s)
        SPEECH_TURN_QUEUE_CAPACITY = Inr sp" "fresh_speech sp" by (rule new_turn_speech)
    show ?thesis using assms None sp(1) fresh_speech_ok [OF sp(2)] sp(2)
      by (auto simp: start_speech_def idle_ok_def live_ok_def fresh_speech_def is_stop_def is_put_def)
  qed (use assms in \<open>simp add: start_speech_def\<close>)
  then show "idle_ok (start_speech s)" "live_ok At_stream (start_speech s)" "ts_speech (start_speech s) \<noteq> None"
    by simp_all
qed

lemma stream_end_ok:
  assumes "stream_ok s" "ts_place s = At_stream"
  shows "stream_ok (on_stream_end s)"
proof -
  have idle: "idle_ok s" using stream_idle [OF assms(1)] assms(2) by (simp add: is_stop_def)
  have lv: "live_ok At_stream s" using stream_live [OF assms(1)] assms(2) by (simp add: live_def)
  note st = start_speech_live [OF idle lv]
  have a: "stream_ok (go At_interrupt (s\<lparr>ts_blank := []\<rparr>))"
    by (rule go_quiet) (use idle in \<open>simp_all add: quiet_place_def live_def is_stop_def\<close>)
  have b: "stream_ok (yields (rehearsing_event (turn_of s)) Then_finalize ((start_speech s)\<lparr>ts_rehearsing := True\<rparr>))"
    using st
    by (cases "ts_speech (start_speech s)"; cases "ts_segmenter (start_speech s)")
       (simp_all add: stream_ok_def yields_def idle_ok_def live_def live_ok_def is_stop_def is_put_def)
  have c: "stream_ok (finalize_speech (start_speech s))"
    by (rule finalize_speech_ok [OF st(1,2)]) (use st(3) in \<open>simp_all add: is_put_def\<close>)
  show ?thesis using a b c by (simp add: on_stream_end_def Let_def)
qed

section \<open>Reservation, the answer and the end\<close>

lemma early_idle: "stream_ok s \<Longrightarrow> early (ts_place s) \<Longrightarrow> early_ok s \<and> idle_ok s"
  by (cases "ts_speech s") (auto simp: stream_ok_def idle_ok_def early_ok_def is_stop_def)

lemma early_go: "early_ok s \<Longrightarrow> idle_ok s \<Longrightarrow> early p \<Longrightarrow> \<not> live p \<Longrightarrow> \<not> is_stop p \<Longrightarrow> stream_ok (go p s)"
  by (simp add: stream_ok_def go_def early_ok_def idle_ok_def)

lemma rejoin_ok:
  assumes "early_ok s" "idle_ok s"
  shows "stream_ok (rejoin clock rv emitted s)"
proof -
  have y: "stream_ok (yields e (Then_rejoin st) s)" if "token_of (Event_frame e) = []" for e st
    using assms that by (simp add: stream_ok_def yields_def early_ok_def idle_ok_def live_def is_stop_def)
  have g: "stream_ok (go (At_rejoin emitted) s)"
    by (rule early_go [OF assms]) (simp_all add: live_def is_stop_def)
  show ?thesis
    using y g yields_quiet [OF assms(2)] raise_ok [OF assms(2)] token_of_existing
    by (auto simp: rejoin_def Let_def split: sum.split option.split)
qed

lemma reserved_ok:
  assumes "early_ok s" "idle_ok s"
  shows "stream_ok (turn_reserved clock r call b s)"
proof -
  have e: "early_ok (s\<lparr>ts_created := True, ts_owner := w\<rparr>)" "idle_ok (s\<lparr>ts_created := True, ts_owner := w\<rparr>)"
    "early_ok (s\<lparr>ts_created := True, ts_owner := w, ts_voice := v, ts_engine := g\<rparr>)"
    "idle_ok (s\<lparr>ts_created := True, ts_owner := w, ts_voice := v, ts_engine := g\<rparr>)" for w v g
    using assms by (simp_all add: early_ok_def idle_ok_def)
  have "stream_ok (go At_user_message (s\<lparr>ts_created := True, ts_owner := w, ts_voice := v, ts_engine := g\<rparr>))" for w v g
    by (rule early_go [OF e(3,4)]) (simp_all add: live_def is_stop_def)
  then show ?thesis
    using rejoin_ok [OF assms] raise_ok [OF assms(2)] raise_ok [OF e(2)] yields_quiet [OF assms(2)]
    by (auto simp: turn_reserved_def Let_def split: sum.split option.split)
qed

lemma polled_ok: "early_ok s \<Longrightarrow> idle_ok s \<Longrightarrow> stream_ok (turn_polled clock r s)"
  by (auto simp: turn_polled_def rejoin_ok raise_ok split: sum.split)

lemma user_ok:
  assumes "early_ok s" "idle_ok s"
  shows "stream_ok (user_message_recorded r s)"
proof -
  have "stream_ok (go At_load s)" by (rule early_go [OF assms]) (simp_all add: live_def is_stop_def)
  then show ?thesis using raise_ok [OF assms(2)] assms(2)
    by (auto simp: user_message_recorded_def yields_quiet split: sum.split option.split)
qed

lemma loaded_ok:
  assumes "early_ok s" "idle_ok s"
  shows "stream_ok (turn_loaded l s)"
proof -
  have fresh: "new_segmenter 60 4 = Inr g \<Longrightarrow> segmenter_ok g \<and> \<not> finished g \<and> buffer g = []" for g
    by (rule new_segmenter_ok)
  have "stream_ok (go At_stream (s\<lparr>ts_reference := r, ts_segmenter := g\<rparr>))"
    if "g = None \<or> (\<exists>h. g = Some h \<and> segmenter_ok h \<and> \<not> finished h \<and> buffer h = [])" for r g
    using assms that
    by (auto simp: stream_ok_def go_def early_ok_def idle_ok_def live_def live_ok_def is_stop_def is_put_def)
  then show ?thesis using raise_ok [OF assms(2)] yields_quiet [OF assms(2)] fresh
    by (auto simp: turn_loaded_def split: turn_load.split sum.split)
qed

lemma interrupted_ok: "idle_ok s \<Longrightarrow> stream_ok (interrupted e s)"
  by (auto simp: interrupted_def raise_ok yields_quiet generation_failed_event_def split: interrupt_end.split)

lemma judge_ok:
  assumes "idle_ok s" "live_ok (Yielded (Then_judge t)) s"
  shows "stream_ok (judge t s)"
proof -
  have k: "ts_task s = Task_over (Gives t)" using assms(2) by (simp add: live_ok_def)
  have "stream_ok (go At_claim s)" if "status t = Normal_end" "playout_completed t"
    using assms k that
    by (cases "ts_speech s")
       (simp_all add: stream_ok_def go_def idle_ok_def live_def live_ok_def is_stop_def is_put_def)
  then show ?thesis using assms(1) by (auto simp: judge_def leave_ok yields_quiet playback_failed_event_def)
qed

lemma settle_ok:
  assumes "idle_ok s" "ts_task s = Task_over out" "said_all (Task_over out) p s"
    and "caller_fits (Task_over out) False (ts_speech s)" "ts_end s = Turn_failed"
  shows "stream_ok (settle_task out s)"
proof (cases out)
  case (Gives t)
  have lv: "live_ok (Yielded (Then_judge t)) s"
    using assms Gives by (simp add: live_ok_def is_put_def)
  have k: "ts_task s = Task_over (Gives t)" "said_all (Task_over (Gives t)) p s"
    "caller_fits (Task_over (Gives t)) False (ts_speech s)" "ts_end s = Turn_failed" using assms Gives by simp_all
  have "stream_ok (yields e (Then_judge t) s)" if "token_of (Event_frame e) = []" for e
    using assms(1) k that
    by (cases "ts_speech s") (simp_all add: stream_ok_def yields_def idle_ok_def live_def live_ok_def is_stop_def is_put_def)
  then show ?thesis using Gives judge_ok [OF assms(1) lv] token_of_started
    by (auto simp: settle_task_def split: option.split)
qed (use assms(1) in \<open>simp_all add: settle_task_def raise_ok\<close>)

lemma poll_ok:
  assumes "idle_ok s" "live_ok (Yielded Then_poll) s"
  shows "stream_ok (poll_task s)"
proof -
  have k: "said_all (ts_task s) (Yielded Then_poll) s" "caller_fits (ts_task s) False (ts_speech s)" "ts_task s \<noteq> No_task"
    "ts_end s = Turn_failed"
    using assms(2) by (simp_all add: live_ok_def is_put_def)
  have s: "stream_ok (go At_sleep s)" if "\<forall>out. ts_task s \<noteq> Task_over out"
    using assms(1) k that
    by (cases "ts_speech s"; cases "ts_task s")
       (simp_all add: stream_ok_def go_def idle_ok_def live_def live_ok_def is_stop_def is_put_def)
  show ?thesis
  proof (cases "ts_task s")
    case (Task_over out)
    show ?thesis using settle_ok [OF assms(1) Task_over] k Task_over by (simp add: poll_task_def)
  qed (use s k in \<open>simp_all add: poll_task_def\<close>)
qed

lemma recording_facts:
  assumes "live_ok p s" "recording p"
  obtains t where "ts_task s = Task_over (Gives t)" "status t = Normal_end" "playout_completed t"
    "said_all (Task_over (Gives t)) p s" "caller_fits (Task_over (Gives t)) False (ts_speech s)"
    "ts_end s = Turn_failed"
proof -
  have "proved (ts_task s)" "\<not> is_put p" using assms by (cases p; auto simp: live_ok_def is_put_def)+
  then show thesis using that assms(1) by (cases "ts_task s" rule: proved.cases) (auto simp: live_ok_def)
qed

lemma recording_go:
  assumes "idle_ok s" "live_ok p s" "recording p" "recording q"
  shows "stream_ok (go q s)"
proof -
  obtain t where t: "ts_task s = Task_over (Gives t)" "status t = Normal_end" "playout_completed t"
    "said_all (Task_over (Gives t)) p s" "caller_fits (Task_over (Gives t)) False (ts_speech s)"
    "ts_end s = Turn_failed"
    by (rule recording_facts [OF assms(2,3)])
  show ?thesis using assms(1,4) t
    by (cases "ts_speech s"; cases q rule: recording.cases)
       (simp_all add: stream_ok_def go_def idle_ok_def live_def live_ok_def is_stop_def is_put_def)
qed

lemma claimed_ok:
  "idle_ok s \<Longrightarrow> live_ok p s \<Longrightarrow> recording p \<Longrightarrow> recording q \<Longrightarrow> stream_ok (claimed r q s)"
  by (auto simp: claimed_def raise_ok leave_ok recording_go split: sum.split bool.split)

lemma recorded_ok: "idle_ok s \<Longrightarrow> stream_ok (answer_recorded r s)"
  by (auto simp: answer_recorded_def raise_ok leave_ok yields_quiet split: sum.split option.split)

lemma finished_ok: "idle_ok s \<Longrightarrow> stream_ok (turn_finished r s)"
  by (auto simp: turn_finished_def quiet_place_def live_def is_stop_def split: sum.split intro!: go_quiet)

lemma speech_stopped_ok: "idle_ok s \<Longrightarrow> stream_ok (speech_stopped r s)"
  by (auto simp: speech_stopped_def leave_ok finish_ok yields_quiet playback_failed_event_def generation_failed_event_def
      quiet_place_def live_def is_stop_def split: stop_reason.split intro!: go_quiet)

lemma stop_raised_ok: "idle_ok s \<Longrightarrow> stream_ok (stop_raised r x s)"
  by (auto simp: stop_raised_def leave_ok raise_ok quiet_place_def live_def is_stop_def
      split: stop_reason.split intro!: go_quiet)

lemma stop_gathered_ok:
  assumes "stream_ok s" "ts_place s = At_stop r" "ts_speech s = Some sp" "speech_enabled (Cancel_gathered i) sp"
  shows "stream_ok (stop_gathered i s)"
proof -
  have sp: "speech_ok sp" and t: "tokens_of (ts_frames s) = ts_accumulated s"
    using assms(1-3) by (auto simp: stream_ok_def)
  have sp1: "speech_ok (snd (cancel_gathered i sp))" using gathered_ok [OF sp] assms(4) by simp
  have en: "sq_cancel sp = Cancel_gathers" "\<not> worker_lives sp" using assms(4) by simp_all
  show ?thesis
  proof (cases i)
    case True
    then have "idle_ok (s\<lparr>ts_speech := Some (snd (cancel_gathered i sp))\<rparr>)"
      using sp1 t en by (simp add: idle_ok_def cancel_gathered_def is_stop_def)
    then show ?thesis using True en assms(2,3) stop_raised_ok
      by (auto simp: stop_gathered_def cancel_gathered_def)
  next
    case False
    then show ?thesis using sp1 t en assms(2,3)
      by (simp add: stop_gathered_def cancel_gathered_def stream_ok_def is_stop_def live_def ask_backend_def)
  qed
qed

lemma stop_ends_ok:
  assumes "stream_ok s" "ts_place s = At_stop r" "ts_speech s = Some sp" "speech_enabled (Cancel_ends e) sp"
  shows "stream_ok (stop_ends e s)"
proof -
  have sp: "speech_ok sp" and t: "tokens_of (ts_frames s) = ts_accumulated s" and en: "sq_cancel sp = Cancel_asks"
    using assms by (auto simp: stream_ok_def)
  have "idle_ok (s\<lparr>ts_speech := Some (snd (cancel_ends e sp))\<rparr>)"
    using cancel_ends_ok [OF sp en, of e] t en
    by (cases e) (simp_all add: idle_ok_def cancel_ends_def discard_pending_def Let_def is_stop_def)
  then show ?thesis
    using assms(2,3) speech_stopped_ok stop_raised_ok
    by (auto simp: stop_ends_def split_beta Let_def split: speech_outcome.split)
qed

section \<open>The tasks beside the generator\<close>

lemma finalize_cases:
  assumes "speech_ok sp" "sq_caller sp = Caller_free" "finalize_turn tail sp = (out, sp1)"
  shows "speech_ok sp1" "sq_cancel sp1 = sq_cancel sp" "out = Refused_closed \<or> out = Suspends"
    "out = Suspends \<Longrightarrow> (sq_caller sp1 = Caller_joins \<or> puts True (sq_caller sp1))
       \<and> visible (concat (map su_text (sq_submitted sp1)))
           = visible (concat (map su_text (sq_submitted sp))) @ visible (case tail of None \<Rightarrow> [] | Some t \<Rightarrow> t)"
proof -
  show "speech_ok sp1" using finalize_ok [OF assms(1,2), of tail] assms(3) by simp
  show "sq_cancel sp1 = sq_cancel sp" "out = Refused_closed \<or> out = Suspends"
    "out = Suspends \<Longrightarrow> (sq_caller sp1 = Caller_joins \<or> puts True (sq_caller sp1))
       \<and> visible (concat (map su_text (sq_submitted sp1)))
           = visible (concat (map su_text (sq_submitted sp))) @ visible (case tail of None \<Rightarrow> [] | Some t \<Rightarrow> t)"
    using assms(3)
    by (auto simp: finalize_turn_def new_submission_def put_submission_def after_put_def ensure_speech_worker_def
        puts_def Let_def split: if_splits)
qed

lemma join_cases:
  assumes "speech_ok sp" "speech_enabled Join_resumes sp" "join_resumes sp = (out, sp1)"
  shows "speech_ok sp1" "sq_cancel sp1 = sq_cancel sp" "sq_submitted sp1 = sq_submitted sp"
    "out \<noteq> Suspends" "caller_fits (Task_over out) False (Some sp1)"
proof -
  obtain e where e: "sq_caller sp = Caller_joins" "sq_worker sp = Worker_over e"
    using assms(2) by (cases "sq_worker sp") simp_all
  show "speech_ok sp1" using joins_ok [OF assms(1) e] assms(3) by simp
  show "sq_cancel sp1 = sq_cancel sp" "sq_submitted sp1 = sq_submitted sp"
    "out \<noteq> Suspends" "caller_fits (Task_over out) False (Some sp1)"
    using assms(3) e by (cases e; auto simp: join_resumes_def Let_def)+
qed

lemma final_put_cases:
  assumes "speech_ok sp" "speech_enabled Put_resumes sp" "put_resumes sp = (out, sp1)"
  shows "speech_ok sp1" "sq_cancel sp1 = sq_cancel sp" "sq_submitted sp1 = sq_submitted sp"
    "puts True (sq_caller sp) \<Longrightarrow> out = Suspends \<and> sq_caller sp1 = Caller_joins"
proof -
  obtain u where u: "sq_caller sp = Caller_puts u" "\<not> queue_full sp" using assms(2) by (cases "sq_caller sp") simp_all
  show "speech_ok sp1" using put_ok [OF assms(1) u(1)] assms(3) u by (simp add: put_resumes_def)
  show "sq_cancel sp1 = sq_cancel sp" "sq_submitted sp1 = sq_submitted sp"
    "puts True (sq_caller sp) \<Longrightarrow> out = Suspends \<and> sq_caller sp1 = Caller_joins"
    using assms(3) u by (auto simp: put_resumes_def after_put_def ensure_speech_worker_def puts_def Let_def split: if_splits)
qed

text \<open>A change of the scheduler and of the task, with the generator where it is.\<close>

lemma beside_ok:
  assumes "stream_ok s" "ts_speech s = Some sp" "speech_ok sp1" "sq_cancel sp1 = sq_cancel sp"
    and "live (ts_place s) \<Longrightarrow> live_ok (ts_place s) (s\<lparr>ts_speech := Some sp1, ts_task := k\<rparr>)"
  shows "stream_ok (s\<lparr>ts_speech := Some sp1, ts_task := k\<rparr>)"
  using assms by (auto simp: stream_ok_def early_ok_def)

lemma run_task_ok:
  assumes "stream_ok s" "task_can s"
  shows "stream_ok (run_task s)"
proof (cases "ts_speech s")
  case (Some sp)
  have sp: "speech_ok sp" using assms(1) Some by (simp add: stream_ok_def)
  have lv: "live (ts_place s) \<Longrightarrow> live_ok (ts_place s) s" by (rule stream_live [OF assms(1)])
  show ?thesis
  proof (cases "ts_task s")
    case (Task_made tail)
    obtain out sp1 where o: "finalize_turn tail sp = (out, sp1)" by (cases "finalize_turn tail sp")
    have free: "sq_caller sp = Caller_free" using assms(2) Some Task_made by (simp add: task_can_def speech_can_def)
    note c = finalize_cases [OF sp free o]
    let ?k = "if out = Suspends then Task_waits else Task_over out"
    have "stream_ok (s\<lparr>ts_speech := Some sp1, ts_task := ?k\<rparr>)"
    proof (rule beside_ok [OF assms(1) Some c(1,2)])
      assume "live (ts_place s)"
      from lv [OF this] have l: "live_ok (ts_place s) s" .
      then have pl: "playing (ts_place s) \<or> \<not> live (ts_place s)"
        using Task_made by (cases "judging (ts_place s)") (auto simp: live_ok_def live_def)
      have said: "said_all (Task_made tail) (ts_place s) s" and e: "ts_end s = Turn_failed"
        using l Task_made by (simp_all add: live_ok_def)
      from pl \<open>live (ts_place s)\<close> have "ts_place s = At_sleep \<or> ts_place s = Yielded Then_poll"
        by (cases "ts_place s" rule: playing.cases) simp_all
      then show "live_ok (ts_place s) (s\<lparr>ts_speech := Some sp1, ts_task := ?k\<rparr>)"
        using said e c(3,4) Some by (auto simp: live_ok_def)
    qed
    then show ?thesis using Some Task_made o by (simp add: run_task_def Let_def)
  next
    case Task_waits
    let ?r = "if sq_caller sp = Caller_joins then join_resumes sp else put_resumes sp"
    obtain out sp1 where o: "?r = (out, sp1)" by (cases ?r)
    let ?k = "if out = Suspends then Task_waits else Task_over out"
    have en: "speech_enabled Put_resumes sp \<or> speech_enabled Join_resumes sp"
      using assms(2) Some Task_waits by (simp add: task_can_def speech_can_def)
    have c: "speech_ok sp1" "sq_cancel sp1 = sq_cancel sp" "sq_submitted sp1 = sq_submitted sp"
      using en o join_cases(1-3) [OF sp, of out sp1] final_put_cases(1-3) [OF sp, of out sp1]
      by (auto split: if_splits)
    have "stream_ok (s\<lparr>ts_speech := Some sp1, ts_task := ?k\<rparr>)"
    proof (rule beside_ok [OF assms(1) Some c(1,2)])
      assume "live (ts_place s)"
      from lv [OF this] have l: "live_ok (ts_place s) s" .
      then have pl: "playing (ts_place s) \<or> \<not> live (ts_place s)"
        using Task_waits by (cases "judging (ts_place s)") (auto simp: live_ok_def live_def)
      have said: "said_all Task_waits (ts_place s) s" and e: "ts_end s = Turn_failed" and
        fit: "sq_caller sp = Caller_joins \<or> puts True (sq_caller sp)"
        using l Task_waits Some by (simp_all add: live_ok_def)
      have k: "caller_fits ?k False (Some sp1)"
        using en o fit join_cases(4,5) [OF sp, of out sp1] final_put_cases(4) [OF sp, of out sp1]
        by (auto simp: puts_def split: if_splits)
      have said': "said_all ?k p (s\<lparr>ts_speech := Some sp1, ts_task := ?k\<rparr>)" for p
        using said c(3) Some by (cases out) simp_all
      from pl \<open>live (ts_place s)\<close> have "ts_place s = At_sleep \<or> ts_place s = Yielded Then_poll"
        by (cases "ts_place s" rule: playing.cases) simp_all
      then show "live_ok (ts_place s) (s\<lparr>ts_speech := Some sp1, ts_task := ?k\<rparr>)"
        using said' k e by (auto simp: live_ok_def is_put_def)
    qed
    then show ?thesis using Some Task_waits o by (simp add: run_task_def Let_def)
  qed (use assms(1) Some in \<open>simp_all add: run_task_def\<close>)
qed (use assms(1) in \<open>simp add: run_task_def\<close>)

lemma works_cases:
  assumes "speech_ok sp" "task_move m" "speech_enabled m sp" "sp1 = snd (speech_do m sp)"
  shows "speech_ok sp1" "sq_cancel sp1 = sq_cancel sp" "sq_submitted sp1 = sq_submitted sp"
    "sq_caller sp1 = sq_caller sp" "sq_terminal sp = None"
proof -
  show "speech_ok sp1" using enabled_ok [OF assms(3,1)] assms(4) by simp
  have lives: "worker_lives sp"
    using assms(2,3) by (cases m; cases "sq_worker sp") (simp_all add: worker_lives_def)
  then show "sq_terminal sp = None"
    using assms(1) by (cases "sq_worker sp") (simp_all add: speech_ok_def worker_lives_def)
  show "sq_cancel sp1 = sq_cancel sp" "sq_submitted sp1 = sq_submitted sp" "sq_caller sp1 = sq_caller sp"
    using assms(2,4)
    by (cases m; auto simp: worker_takes_def worker_hears_def worker_stops_def end_worker_def discard_pending_def Let_def
      split: list.split worker_task.split speak_end.split pv.split sum.split)+
qed

lemma works_ok:
  assumes "stream_ok s" "task_move m" "speech_can m s"
  shows "stream_ok (s\<lparr>ts_speech := map_option (\<lambda>sp. snd (speech_do m sp)) (ts_speech s)\<rparr>)"
proof (cases "ts_speech s")
  case (Some sp)
  let ?sp = "snd (speech_do m sp)"
  have sp: "speech_ok sp" "speech_enabled m sp" using assms(1,3) Some by (simp_all add: stream_ok_def speech_can_def)
  note c = works_cases [OF sp(1) assms(2) sp(2) refl]
  have "stream_ok (s\<lparr>ts_speech := Some ?sp, ts_task := ts_task s\<rparr>)"
  proof (rule beside_ok [OF assms(1) Some c(1,2)])
    assume "live (ts_place s)"
    from stream_live [OF assms(1) this] have l: "live_ok (ts_place s) s" .
    have said: "said_all k p (s\<lparr>ts_speech := Some ?sp\<rparr>) = said_all k p s" for k p
      by (cases k rule: caller_fits.cases [of "(k, p, Some sp)" for k p]) (simp_all add: Some c)
    have fits: "caller_fits k b (Some sp) \<Longrightarrow> caller_fits k b (Some ?sp)" for k b
      using c(4,5) by (cases "(k, b, Some sp)" rule: caller_fits.cases) auto
    show "live_ok (ts_place s) (s\<lparr>ts_speech := Some ?sp, ts_task := ts_task s\<rparr>)"
      using l said fits Some by (auto simp: live_ok_def)
  qed
  then show ?thesis using Some by simp
qed (use assms in \<open>simp add: speech_can_def\<close>)

lemma resume_ok:
  assumes "stream_ok s" "ts_place s = Yielded p"
  shows "stream_ok (resume_turn p s)"
proof -
  have idle: "idle_ok s" using stream_idle [OF assms(1)] assms(2) by (simp add: is_stop_def)
  have lv: "live (Yielded p) \<Longrightarrow> live_ok (Yielded p) s" using stream_live [OF assms(1)] assms(2) by simp
  show ?thesis
  proof (cases p)
    case (Then_rejoin st)
    then show ?thesis using assms early_idle [OF assms(1)]
      by (auto simp: resume_turn_def live_def is_stop_def intro!: early_go)
  next
    case (Then_feed t)
    then show ?thesis using feed_ok [OF assms(1)] assms(2) by (simp add: resume_turn_def)
  next
    case (Then_submit segs)
    have "live_ok (Yielded (Then_submit segs)) s" using lv Then_submit by (simp add: live_def)
    then have "ts_task s = No_task" "said_all No_task (Yielded (Then_submit segs)) s"
      "segmenter_fits (Yielded (Then_submit segs)) (ts_segmenter s)" "caller_fits No_task False (ts_speech s)"
      "ts_end s = Turn_failed" by (auto simp: live_ok_def is_put_def)
    then have "loop_ok segs s" using idle by (cases "ts_segmenter s") (simp_all add: loop_ok_def)
    then show ?thesis using Then_submit by (simp add: resume_turn_def submit_all_ok)
  next
    case Then_finalize
    have l: "live_ok (Yielded Then_finalize) s" using lv Then_finalize by (simp add: live_def)
    then have "ts_speech s \<noteq> None" by (simp add: live_ok_def)
    then show ?thesis using finalize_speech_ok [OF idle l] Then_finalize by (simp add: resume_turn_def is_put_def)
  next
    case Then_poll
    then show ?thesis using poll_ok [OF idle] lv by (simp add: resume_turn_def live_def)
  next
    case (Then_judge t)
    then show ?thesis using judge_ok [OF idle] lv by (simp add: resume_turn_def live_def)
  next
    case Then_leave
    then show ?thesis using leave_ok [OF idle] by (simp add: resume_turn_def)
  qed
qed

lemma kill_ok:
  assumes "stream_ok s" "awaits_killable (ts_place s)"
  shows "stream_ok (kill_turn s)"
proof -
  have idle: "idle_ok s" using stream_idle [OF assms(1)] assms(2) by (cases "ts_place s") (simp_all add: is_stop_def)
  have quiet: "stream_ok (go At_end s)"
    by (rule go_quiet [OF idle]) (simp add: quiet_place_def live_def is_stop_def)
  show ?thesis
  proof (cases "ts_place s")
    case (At_put segs)
    then have lv: "live_ok (At_put segs) s" using stream_live [OF assms(1)] by (simp add: live_def)
    then have "caller_fits No_task True (ts_speech s)" by (auto simp: live_ok_def is_put_def)
    then have "idle_ok (s\<lparr>ts_speech := map_option caller_leaves (ts_speech s)\<rparr>)"
      using idle leaves_ok
      by (cases "ts_speech s")
         (auto simp: idle_ok_def puts_def is_stop_def caller_leaves_def split: speech_caller.splits)
    then show ?thesis using At_put raise_ok by (simp add: kill_turn_def)
  qed (use raise_ok [OF idle] quiet in \<open>simp_all add: kill_turn_def\<close>)
qed

lemma wake_ok:
  assumes "stream_ok s" "ts_place s = At_sleep"
  shows "stream_ok (s\<lparr>ts_place := Yielded Then_poll, ts_frames := ts_frames s @ [Keepalive_frame]\<rparr>)"
proof -
  have lv: "live_ok At_sleep s" using stream_live [OF assms(1)] assms(2) by (simp add: live_def)
  have "said_all k (Yielded Then_poll) (s\<lparr>ts_place := x, ts_frames := y\<rparr>) = said_all k At_sleep s" if "k \<noteq> No_task" for k x y
    using that by (cases "(k, At_sleep, s)" rule: said_all.cases) simp_all
  then show ?thesis using assms lv
    by (cases "ts_speech s") (simp_all add: stream_ok_def live_def live_ok_def is_stop_def is_put_def)
qed

section \<open>The invariant of the world\<close>

text \<open>Only the staging of the answer leads to its commit.\<close>

lemma off_leave [simp]: "ts_place (leave_turn s) \<noteq> At_commit"
  by (auto simp: leave_turn_def finish_or_end_def go_def stop_speech_def split: option.split)

lemma off_simple [simp]:
  "ts_place (go p s) = p" "ts_place (yields e q s) = Yielded q" "ts_place (stop_speech r sp s) = At_stop r"
  "ts_place (finish_or_end s) \<noteq> At_commit"
  by (simp_all add: go_def yields_def stop_speech_def finish_or_end_def)

lemma off_raise [simp]: "ts_place (raise_turn x s) \<noteq> At_commit"
  by (auto simp: raise_turn_def Let_def split: turn_exc.split option.split)

lemma off_stop [simp]: "ts_place (speech_stopped r s) \<noteq> At_commit" "ts_place (stop_raised r x s) \<noteq> At_commit"
  by (auto simp: speech_stopped_def stop_raised_def split: stop_reason.split)

lemma off_rejoin [simp]: "ts_place (rejoin clock rv em s) \<noteq> At_commit"
  by (auto simp: rejoin_def Let_def split: sum.split)

lemma off_early [simp]:
  "ts_place (turn_reserved clock r c b s) \<noteq> At_commit" "ts_place (turn_polled clock r' s) \<noteq> At_commit"
  "ts_place (user_message_recorded r'' s) \<noteq> At_commit" "ts_place (turn_loaded l s) \<noteq> At_commit"
  by (auto simp: turn_reserved_def turn_polled_def user_message_recorded_def turn_loaded_def Let_def
      split: sum.split option.split turn_load.split)

lemma off_submit [simp]: "ts_place (submit_all segs s) \<noteq> At_commit"
  by (induction segs arbitrary: s) (auto simp: Let_def split: option.split prod.split speech_outcome.split)

lemma off_finalize [simp]: "ts_place (finalize_speech s) \<noteq> At_commit"
  by (simp add: finalize_speech_def split_beta)

lemma off_judge [simp]: "ts_place (judge t s) \<noteq> At_commit" "ts_place (settle_task out s) \<noteq> At_commit"
  "ts_place (poll_task s) \<noteq> At_commit"
proof -
  show j: "ts_place (judge t s) \<noteq> At_commit" for t by (simp add: judge_def)
  have st: "ts_place (settle_task out s) \<noteq> At_commit" for out
    using j by (auto simp: settle_task_def split: speech_outcome.split option.split)
  then show "ts_place (settle_task out s) \<noteq> At_commit" "ts_place (poll_task s) \<noteq> At_commit"
    by (auto simp: poll_task_def split: final_task.split)
qed

lemma off_stream [simp]:
  "ts_place (feed_turn t s) \<noteq> At_commit" "ts_place (on_stream_end s) \<noteq> At_commit"
  "ts_place (interrupted e s) \<noteq> At_commit" "ts_place (resume_turn p s) \<noteq> At_commit"
  "ts_place (answer_recorded r s) \<noteq> At_commit" "ts_place (turn_finished r' s) \<noteq> At_commit"
proof -
  show f: "ts_place (feed_turn t s) \<noteq> At_commit" for t
    by (auto simp: feed_turn_def split: option.split sum.split prod.split)
  show "ts_place (on_stream_end s) \<noteq> At_commit" by (simp add: on_stream_end_def Let_def)
  show "ts_place (resume_turn p s) \<noteq> At_commit" using f by (auto simp: resume_turn_def split: after_yield.split)
qed (auto simp: interrupted_def answer_recorded_def turn_finished_def split: interrupt_end.split sum.split option.split)

lemma off_token: "ts_place s = At_stream \<Longrightarrow> ts_place (on_event show e s) \<noteq> At_commit"
  by (auto simp: on_event_def on_token_def Let_def split: option.split)

lemma off_put: "ts_place s = At_put segs \<Longrightarrow> ts_place (put_went_on segs' sp s) \<noteq> At_commit"
  by (auto simp: put_went_on_def split: prod.split speech_outcome.split)

lemma off_gathered: "ts_place s = At_stop r \<Longrightarrow> ts_place (stop_gathered i s) \<noteq> At_commit"
  by (auto simp: stop_gathered_def Let_def split: option.split prod.split)

lemma off_ends: "ts_place s = At_stop r \<Longrightarrow> ts_place (stop_ends e s) \<noteq> At_commit"
  by (auto simp: stop_ends_def Let_def split: option.split prod.split speech_outcome.split)

lemma off_kill [simp]: "ts_place (kill_turn s) \<noteq> At_commit"
  by (auto simp: kill_turn_def split: turn_place.split)

text \<open>The answer that waits for its commit is the one that was streamed.\<close>

fun staged_is :: "string \<Rightarrow> string \<Rightarrow> ptext \<Rightarrow> (string \<times> string \<times> string \<times> message_row) option \<Rightarrow> bool" where
  "staged_is c t body None = False"
| "staged_is c t body (Some (turn, owner, mid, row))
     = (turn = t \<and> ms_content row = Some body \<and> ms_kind row = ''ai_speech'' \<and> ms_role row = ''assistant''
        \<and> ms_call row = Some c \<and> ms_call_turn row = Some t)"

definition commit_ok :: "turn_world \<Rightarrow> bool" where
  "commit_ok w \<longleftrightarrow> (ts_place (tw_stream w) = At_commit \<longrightarrow>
     staged_is (rq_call (ts_request (tw_stream w))) (turn_of (tw_stream w)) (concat (ts_accumulated (tw_stream w)))
       (staged_answer (rq_call (ts_request (tw_stream w))) (tw_server w)))"

definition world_ok :: "turn_world \<Rightarrow> bool" where
  "world_ok w \<longleftrightarrow> stream_ok (tw_stream w) \<and> commit_ok w"

lemma world_off: "stream_ok (tw_stream w) \<Longrightarrow> ts_place (tw_stream w) \<noteq> At_commit \<Longrightarrow> world_ok w"
  by (simp add: world_ok_def commit_ok_def)

lemma stage_stages:
  assumes "complete_stage mid cid turn body owner now sv = (Inr True, sv')"
  shows "staged_is cid turn body (staged_answer cid sv')"
  using assms
  by (auto simp: complete_stage_def refuse_completion_def staged_put staged_message_def Let_def
      split: option.splits sum.splits if_splits)

lemma with_service_stream:
  "tw_stream (with_service op k w) = k (fst (op (tw_server w))) (snd (op (tw_server w))) (tw_stream w)"
  "tw_server (with_service op k w) = snd (op (tw_server w))"
  by (simp_all add: with_service_def split_beta)

lemma on_stream_simps [simp]:
  "tw_stream (on_stream f w) = f (tw_stream w)" "tw_server (on_stream f w) = tw_server w"
  by (simp_all add: on_stream_def)

lemma run_task_keeps [simp]:
  "ts_place (run_task s) = ts_place s" "ts_request (run_task s) = ts_request s"
  "ts_accumulated (run_task s) = ts_accumulated s"
  by (simp_all add: run_task_def Let_def split_beta split: option.split final_task.split)

lemma commit_same:
  "commit_ok w \<Longrightarrow> tw_server w' = tw_server w \<Longrightarrow> ts_place (tw_stream w') = ts_place (tw_stream w)
    \<Longrightarrow> ts_request (tw_stream w') = ts_request (tw_stream w)
    \<Longrightarrow> ts_accumulated (tw_stream w') = ts_accumulated (tw_stream w) \<Longrightarrow> commit_ok w'"
  by (simp add: commit_ok_def)

lemma foreign_ok:
  assumes "commit_ok w" "turn_enabled (Foreign op) w"
  shows "commit_ok (turn_do env (Foreign op) w)"
proof (cases "ts_place (tw_stream w) = At_commit")
  case True
  let ?c = "rq_call (ts_request (tw_stream w))"
  obtain v mid row where s: "staged_answer ?c (tw_server w) = Some (turn_of (tw_stream w), v, mid, row)"
    using assms(1) True by (cases "staged_answer ?c (tw_server w)") (auto simp: commit_ok_def)
  have "staged_answer ?c (serve op (tw_server w)) = Some (turn_of (tw_stream w), v, mid, row)"
    by (rule foreign_keeps_staged [OF _ _ s]) (use assms(2) in \<open>simp_all add: turn_enabled_def turn_can_def\<close>)
  then show ?thesis using assms(1) True s by (simp add: commit_ok_def)
qed (simp add: commit_ok_def)

lemma claim_places:
  "ts_place (claimed r At_stage s) \<noteq> At_commit"
  "ts_place (claimed r At_commit s) = At_commit \<Longrightarrow> r = Inr True"
  by (auto simp: claimed_def split: sum.splits bool.splits)

lemma stage_ok:
  assumes "world_ok w" "turn_enabled (Stage_answer mid now) w"
  shows "world_ok (turn_do env (Stage_answer mid now) w)"
proof -
  let ?s = "tw_stream w" and ?q = "ts_request (tw_stream w)"
  have at: "ts_place ?s = At_stage" using assms(2) by (simp add: turn_enabled_def turn_can_def)
  have ok: "stream_ok ?s" using assms(1) by (simp add: world_ok_def)
  have idle: "idle_ok ?s" using stream_idle [OF ok] at by (simp add: is_stop_def)
  have lv: "live_ok At_stage ?s" using stream_live [OF ok] at by (simp add: live_def)
  obtain r sv where o: "complete_stage mid (rq_call ?q) (rq_turn ?q) (concat (ts_accumulated ?s)) (owner_of ?s) now
      (tw_server w) = (r, sv)" by (cases "complete_stage mid (rq_call ?q) (rq_turn ?q) (concat (ts_accumulated ?s)) (owner_of ?s) now
      (tw_server w)")
  have w': "turn_do env (Stage_answer mid now) w = w\<lparr>tw_server := sv, tw_stream := claimed r At_commit ?s\<rparr>"
    by (simp add: with_service_def o Let_def)
  have "stream_ok (claimed r At_commit ?s)" by (rule claimed_ok [OF idle lv]) simp_all
  moreover have "commit_ok (w\<lparr>tw_server := sv, tw_stream := claimed r At_commit ?s\<rparr>)"
  proof (cases "r = Inr True")
    case True
    then show ?thesis using stage_stages [of mid "rq_call ?q" "rq_turn ?q" _ "owner_of ?s" now "tw_server w" sv] o
      by (simp add: commit_ok_def claimed_def go_def)
  next
    case False
    then have "ts_place (claimed r At_commit ?s) \<noteq> At_commit" using claim_places(2) by blast
    then show ?thesis by (simp add: commit_ok_def)
  qed
  ultimately show ?thesis unfolding w' world_ok_def by simp
qed

lemma turn_do_ok:
  assumes "turn_enabled m w" "world_ok w"
  shows "world_ok (turn_do env m w)"
proof -
  let ?s = "tw_stream w"
  have ok: "stream_ok ?s" and com: "commit_ok w" using assms(2) by (simp_all add: world_ok_def)
  note can = assms(1) [unfolded turn_enabled_def turn_can_def]
  have early: "early (ts_place ?s) \<Longrightarrow> early_ok ?s" "early (ts_place ?s) \<Longrightarrow> idle_ok ?s"
    using early_idle [OF ok] by simp_all
  have idle: "\<not> is_stop (ts_place ?s) \<Longrightarrow> idle_ok ?s" by (rule stream_idle [OF ok])
  have lv: "live (ts_place ?s) \<Longrightarrow> live_ok (ts_place ?s) ?s" by (rule stream_live [OF ok])
  show ?thesis
  proof (cases m)
    case (Reserve_turn rid owner commit d now)
    then show ?thesis using can early reserved_ok by (intro world_off) (simp_all add: with_service_stream Let_def)
  next
    case (Poll_turn d now)
    then have "early (ts_place ?s)" using can by (cases "ts_place ?s") (simp_all add: is_rejoin_def)
    then show ?thesis using Poll_turn early polled_ok by (intro world_off) (simp_all add: with_service_stream Let_def)
  next
    case (Record_user mid now)
    then show ?thesis using can early user_ok by (intro world_off) (simp_all add: with_service_stream Let_def)
  next
    case (Load_turn l)
    then show ?thesis using can early loaded_ok by (intro world_off) simp_all
  next
    case (Next_event e)
    then show ?thesis using can event_ok [OF ok] off_token by (intro world_off) simp_all
  next
    case Stream_ends
    then show ?thesis using can stream_end_ok [OF ok] by (intro world_off) simp_all
  next
    case (Stream_raises x)
    then show ?thesis using can raise_ok idle by (intro world_off) (simp_all add: is_stop_def)
  next
    case Resume_turn
    then obtain p where "ts_place ?s = Yielded p" using can by (cases "ts_place ?s") (simp_all add: is_yielded_def)
    then show ?thesis using Resume_turn resume_ok [OF ok] by (intro world_off) simp_all
  next
    case Put_goes_on
    then obtain segs sp u where p: "ts_place ?s = At_put segs" "ts_speech ?s = Some sp" "sq_caller sp = Caller_puts u"
      "\<not> queue_full sp"
      using can by (cases "ts_place ?s"; cases "ts_speech ?s")
        (auto simp: is_put_def speech_can_def split: speech_caller.splits)
    then show ?thesis using Put_goes_on put_on_ok [OF ok p(1,2,4)] off_put [OF p(1)] by (intro world_off) simp_all
  next
    case (Interrupt_ends e)
    then show ?thesis using can interrupted_ok idle by (intro world_off) (simp_all add: is_stop_def)
  next
    case (Stop_gathered i)
    then obtain r sp where p: "ts_place ?s = At_stop r" "ts_speech ?s = Some sp" "speech_enabled (Cancel_gathered i) sp"
      using can by (cases "ts_place ?s"; cases "ts_speech ?s") (auto simp: is_stop_def speech_can_def)
    then show ?thesis using Stop_gathered stop_gathered_ok [OF ok p] off_gathered [OF p(1)] by (intro world_off) simp_all
  next
    case (Stop_ends e)
    then obtain r sp where p: "ts_place ?s = At_stop r" "ts_speech ?s = Some sp" "speech_enabled (Cancel_ends e) sp"
      using can by (cases "ts_place ?s"; cases "ts_speech ?s") (auto simp: is_stop_def speech_can_def)
    then show ?thesis using Stop_ends stop_ends_ok [OF ok p] off_ends [OF p(1)] by (intro world_off) simp_all
  next
    case Wake_turn
    then show ?thesis using can wake_ok [OF ok] by (intro world_off) simp_all
  next
    case Task_runs
    then have "stream_ok (run_task ?s)" using can run_task_ok [OF ok] by simp
    moreover have "commit_ok (turn_do env m w)" by (rule commit_same [OF com]) (simp_all add: Task_runs)
    ultimately show ?thesis using Task_runs by (simp add: world_ok_def)
  next
    case (Speech_works x)
    then have "stream_ok (?s\<lparr>ts_speech := map_option (\<lambda>sp. snd (speech_do x sp)) (ts_speech ?s)\<rparr>)"
      using can works_ok [OF ok] by simp
    moreover have "commit_ok (turn_do env m w)" by (rule commit_same [OF com]) (simp_all add: Speech_works)
    ultimately show ?thesis using Speech_works by (simp add: world_ok_def)
  next
    case Claim_answer
    then have "ts_place ?s = At_claim" using can by simp
    then show ?thesis using Claim_answer idle lv claimed_ok [of ?s At_claim At_stage] claim_places(1)
      by (intro world_off) (simp_all add: with_service_stream Let_def is_stop_def live_def)
  next
    case (Stage_answer mid now)
    then show ?thesis using stage_ok [OF assms(2)] assms(1) by simp
  next
    case (Commit_answer now)
    then show ?thesis using can idle recorded_ok
      by (intro world_off) (simp_all add: with_service_stream Let_def is_stop_def)
  next
    case (Finish_row now)
    then show ?thesis using can idle finished_ok
      by (intro world_off) (simp_all add: with_service_stream Let_def is_stop_def)
  next
    case Unregister_turn
    then have "stream_ok (go At_end ?s)" using can idle
      by (intro go_quiet) (simp_all add: is_stop_def quiet_place_def live_def)
    then show ?thesis using Unregister_turn by (intro world_off) (simp_all add: with_service_stream Let_def)
  next
    case Kill_turn
    then show ?thesis using can kill_ok [OF ok] by (intro world_off) (simp_all add: Let_def)
  next
    case Close_turn
    then have "\<not> is_stop (ts_place ?s)" using can by (cases "ts_place ?s") (simp_all add: is_yielded_def is_stop_def)
    then show ?thesis using Close_turn leave_ok idle by (intro world_off) simp_all
  next
    case (Foreign op)
    then show ?thesis using foreign_ok [OF com, of op env] assms(1) ok by (simp add: world_ok_def)
  qed
qed

interpretation turn_machine: machine turn_begins "turn_step env" world_ok
proof unfold_locales
  show "turn_begins w \<Longrightarrow> world_ok w" for w
    by (auto simp: turn_begins_def new_stream_ok new_stream_place intro!: world_off)
  show "turn_step env w m w' \<Longrightarrow> world_ok w \<Longrightarrow> world_ok w'" for w m w'
    by (auto elim!: turn_stepE intro: turn_do_ok)
qed

end
