(* ===== verification/CallTurnFrames.thy ===== *)
theory CallTurnFrames
  imports CallTurnLaws
begin

text \<open>
  The frames of a call turn as a protocol: whatever fails, is cancelled or goes away, a stream has at
  most one closing event, and nothing follows it; the interpretation \<open>frames_machine\<close>.
\<close>

section \<open>Closing events\<close>

definition closing :: "turn_frame \<Rightarrow> bool" where
  "closing f = (case f of
     Keepalive_frame \<Rightarrow> False
   | Event_frame e \<Rightarrow> vget e ''type'' = pstr ''error'' \<or> vget e ''type'' = pstr ''ai_done''
       \<or> vget e ''type'' = pstr ''turn_existing'' \<and> vget e ''recoverable'' = PBool True)"

fun leaving :: "turn_place \<Rightarrow> bool" where
  "leaving (Yielded Then_leave) = True"
| "leaving (At_stop Stop_leaving) = True"
| "leaving At_finish = True"
| "leaving At_unregister = True"
| "leaving At_end = True"
| "leaving p = False"

definition unclosed :: "turn_stream \<Rightarrow> bool" where
  "unclosed s \<longleftrightarrow> list_all (\<lambda>f. \<not> closing f) (ts_frames s)"

definition ends_ok :: "turn_stream \<Rightarrow> bool" where
  "ends_ok s \<longleftrightarrow> list_all (\<lambda>f. \<not> closing f) (butlast (ts_frames s)) \<and> (\<not> leaving (ts_place s) \<longrightarrow> unclosed s)"

lemma closing_events [simp]:
  "\<not> closing Keepalive_frame" "\<not> closing (Event_frame (ai_token_event turn t))"
  "\<not> closing (Event_frame (rehearsing_event turn))"
  by (simp_all add: closing_def ai_token_event_def rehearsing_event_def)

lemma closing_existing: "turn_existing_event turn st False = Inr e \<Longrightarrow> \<not> closing (Event_frame e)"
  by (auto simp: turn_existing_event_def closing_def split: if_splits) (simp add: turn_event_def vget_or_def)

lemma closing_started: "extract_ai_audio_started_event r = Some e \<Longrightarrow> \<not> closing (Event_frame e)"
  by (auto simp: extract_ai_audio_started_event_def audio_started_in_def closing_def split: option.splits pv.splits if_splits)

lemma unclosed_ends: "unclosed s \<Longrightarrow> ends_ok s"
  by (auto simp: unclosed_def ends_ok_def list_all_iff dest: in_set_butlastD)

lemma unclosed_fields [simp]:
  "unclosed (s\<lparr>ts_place := p\<rparr>) = unclosed s" "unclosed (s\<lparr>ts_end := x\<rparr>) = unclosed s"
  "unclosed (s\<lparr>ts_speech := sp\<rparr>) = unclosed s" "unclosed (s\<lparr>ts_blank := b\<rparr>) = unclosed s"
  "unclosed (s\<lparr>ts_segmenter := g\<rparr>) = unclosed s" "unclosed (s\<lparr>ts_rehearsing := r\<rparr>) = unclosed s"
  "unclosed (s\<lparr>ts_accumulated := a\<rparr>) = unclosed s" "unclosed (s\<lparr>ts_created := c\<rparr>) = unclosed s"
  "unclosed (s\<lparr>ts_owner := w\<rparr>) = unclosed s" "unclosed (s\<lparr>ts_voice := v\<rparr>) = unclosed s"
  "unclosed (s\<lparr>ts_engine := e\<rparr>) = unclosed s" "unclosed (s\<lparr>ts_reference := d\<rparr>) = unclosed s"
  "unclosed (s\<lparr>ts_task := k\<rparr>) = unclosed s"
  by (simp_all add: unclosed_def)

lemma ends_go: "unclosed s \<Longrightarrow> ends_ok (go p s)"
  by (rule unclosed_ends) (simp add: go_def)

lemma ends_yield: "unclosed s \<Longrightarrow> \<not> closing (Event_frame e) \<or> p = Then_leave \<Longrightarrow> ends_ok (yields e p s)"
  by (auto simp: ends_ok_def yields_def unclosed_def)

lemma ends_stop: "unclosed s \<Longrightarrow> ends_ok (stop_speech r sp s)"
  by (rule unclosed_ends) (simp add: stop_speech_def)

section \<open>The stretches of the generator\<close>

lemma ends_leave: "unclosed s \<Longrightarrow> ends_ok (leave_turn s)"
  by (auto simp: leave_turn_def finish_or_end_def ends_go ends_stop split: option.split)

lemma ends_raise: "unclosed s \<Longrightarrow> ends_ok (raise_turn x s)"
  by (auto simp: raise_turn_def ends_leave ends_stop ends_yield Let_def split: turn_exc.split option.split)

lemma ends_stopped: "unclosed s \<Longrightarrow> ends_ok (speech_stopped r s)" "unclosed s \<Longrightarrow> ends_ok (stop_raised r x s)"
  by (auto simp: speech_stopped_def stop_raised_def finish_or_end_def ends_go ends_leave ends_yield ends_raise
      split: stop_reason.split)

lemma ends_rejoin: "unclosed s \<Longrightarrow> ends_ok (rejoin clock rv em s)"
  by (auto simp: rejoin_def ends_go ends_yield ends_raise closing_existing Let_def split: sum.split)

lemma ends_early:
  "unclosed s \<Longrightarrow> ends_ok (turn_reserved clock r c b s)" "unclosed s \<Longrightarrow> ends_ok (turn_polled clock r' s)"
  "unclosed s \<Longrightarrow> ends_ok (user_message_recorded r'' s)" "unclosed s \<Longrightarrow> ends_ok (turn_loaded l s)"
  by (auto simp: turn_reserved_def turn_polled_def user_message_recorded_def turn_loaded_def ends_go ends_yield
      ends_raise ends_rejoin Let_def split: sum.split option.split turn_load.split)

lemma start_unclosed [simp]: "unclosed (start_speech s) = unclosed s"
  by (auto simp: start_speech_def split: option.split sum.split)

lemma ends_submit: "unclosed s \<Longrightarrow> ends_ok (submit_all segs s)"
  by (induction segs arbitrary: s)
     (auto simp: ends_go ends_yield ends_raise Let_def split: option.split prod.split speech_outcome.split)

lemma ends_finalize: "unclosed s \<Longrightarrow> ends_ok (finalize_speech s)"
  by (rule unclosed_ends) (simp add: finalize_speech_def split_beta)

lemma ends_judge: "unclosed s \<Longrightarrow> ends_ok (judge t s)"
  by (auto simp: judge_def ends_go ends_leave ends_yield)

lemma ends_poll: "unclosed s \<Longrightarrow> ends_ok (poll_task s)"
  by (auto simp: poll_task_def settle_task_def ends_go ends_judge ends_yield ends_raise closing_started
      split: final_task.split speech_outcome.split option.split)

lemma ends_stream:
  "unclosed s \<Longrightarrow> ends_ok (feed_turn t s)" "unclosed s \<Longrightarrow> ends_ok (on_event show e s)"
  "unclosed s \<Longrightarrow> ends_ok (on_stream_end s)" "unclosed s \<Longrightarrow> ends_ok (put_went_on segs sp s)"
  "unclosed s \<Longrightarrow> ends_ok (interrupted i s)" "unclosed s \<Longrightarrow> ends_ok (claimed r q s)"
  "unclosed s \<Longrightarrow> ends_ok (answer_recorded r' s)"
  by (auto simp: feed_turn_def on_event_def on_token_def on_stream_end_def put_went_on_def interrupted_def claimed_def
      answer_recorded_def ends_go ends_yield ends_raise ends_stop ends_leave ends_submit ends_finalize unclosed_ends Let_def
      split: option.split sum.split prod.split speech_outcome.split interrupt_end.split bool.split)

lemma ends_resume: "unclosed s \<Longrightarrow> ends_ok (resume_turn p s)"
  by (auto simp: resume_turn_def ends_go ends_stream ends_submit ends_finalize ends_poll ends_judge ends_leave
      split: after_yield.split)

lemma ends_kill: "unclosed s \<Longrightarrow> ends_ok (kill_turn s)"
  by (auto simp: kill_turn_def ends_raise ends_go split: turn_place.split)

lemma ends_stops: "unclosed s \<Longrightarrow> ends_ok (stop_gathered i s)" "unclosed s \<Longrightarrow> ends_ok (stop_ends e s)"
  by (auto simp: stop_gathered_def stop_ends_def ends_stopped unclosed_ends Let_def
      split: turn_place.split option.split prod.split speech_outcome.split)

section \<open>After the closing event\<close>

text \<open>A step from a place of the end adds nothing and leads to another such place.\<close>

definition only_leaves :: "turn_stream \<Rightarrow> turn_stream \<Rightarrow> bool" where
  "only_leaves s t \<longleftrightarrow> ts_frames t = ts_frames s \<and> leaving (ts_place t)"

lemma only_leaves_ok: "ends_ok s \<Longrightarrow> only_leaves s t \<Longrightarrow> ends_ok t"
  by (simp add: ends_ok_def only_leaves_def)

lemma leave_only: "only_leaves s (leave_turn s)"
  by (auto simp: only_leaves_def leave_turn_def finish_or_end_def go_def stop_speech_def split: option.split)

lemma finish_only: "only_leaves s (turn_finished r s)" "only_leaves s (go At_end s)" "only_leaves s (finish_or_end s)"
  by (auto simp: only_leaves_def turn_finished_def finish_or_end_def go_def split: sum.split)

lemma stops_only:
  assumes "ts_place s = At_stop Stop_leaving"
  shows "only_leaves s (stop_gathered i s)" "only_leaves s (stop_ends e s)"
  using assms
  by (auto simp: only_leaves_def stop_gathered_def stop_ends_def stop_raised_def speech_stopped_def finish_or_end_def go_def
      Let_def split: option.split prod.split speech_outcome.split)

lemma run_task_frames [simp]: "ts_frames (run_task s) = ts_frames s"
  by (simp add: run_task_def Let_def split_beta split: option.split final_task.split)

lemma leaving_stop: "leaving p \<Longrightarrow> is_stop p \<Longrightarrow> p = At_stop Stop_leaving"
  by (cases p rule: leaving.cases) (simp_all add: is_stop_def)

lemma move_leaves:
  assumes "leaving (ts_place (tw_stream w))" "turn_enabled m w"
  shows "only_leaves (tw_stream w) (tw_stream (turn_do env m w))"
proof -
  let ?s = "tw_stream w"
  note can = assms(2) [unfolded turn_enabled_def turn_can_def]
  have same: "only_leaves ?s t" if "ts_frames t = ts_frames ?s" "ts_place t = ts_place ?s" for t
    using that assms(1) by (simp add: only_leaves_def)
  show ?thesis
  proof (cases m)
    case Resume_turn
    then have "ts_place ?s = Yielded Then_leave"
      using can assms(1) by (cases "ts_place ?s" rule: leaving.cases) (simp_all add: is_yielded_def)
    then show ?thesis using Resume_turn leave_only by (simp add: resume_turn_def)
  next
    case (Stop_gathered i)
    then show ?thesis using can leaving_stop [OF assms(1)] stops_only(1) by simp
  next
    case (Stop_ends e)
    then show ?thesis using can leaving_stop [OF assms(1)] stops_only(2) by simp
  next
    case (Finish_row now)
    then show ?thesis using finish_only(1) by (simp add: with_service_stream Let_def)
  next
    case Unregister_turn
    then show ?thesis using finish_only(2) by (simp add: with_service_stream Let_def)
  next
    case Close_turn
    then show ?thesis using leave_only by simp
  next
    case Kill_turn
    then have "ts_place ?s = At_finish \<or> ts_place ?s = At_unregister"
      using can assms(1) by (cases "ts_place ?s" rule: leaving.cases) simp_all
    then show ?thesis using Kill_turn finish_only(2) by (auto simp: kill_turn_def Let_def)
  next
    case (Poll_turn d now)
    then show ?thesis using can assms(1) by (cases "ts_place ?s") (simp_all add: is_rejoin_def)
  next
    case Put_goes_on
    then show ?thesis using can assms(1) by (cases "ts_place ?s") (simp_all add: is_put_def)
  qed (use can assms(1) same in simp_all)
qed

lemma move_unclosed:
  assumes "unclosed (tw_stream w)" "turn_enabled m w"
  shows "ends_ok (tw_stream (turn_do env m w))"
proof (cases m)
  case Wake_turn
  then show ?thesis using assms(1) by (auto intro!: unclosed_ends simp: unclosed_def)
next
  case Task_runs
  then show ?thesis using assms(1) by (auto intro!: unclosed_ends simp: unclosed_def)
next
  case Resume_turn
  then show ?thesis using assms(1) by (auto simp: ends_resume unclosed_ends split: turn_place.split)
next
  case Put_goes_on
  then show ?thesis using assms(1) by (auto simp: ends_stream unclosed_ends split: turn_place.split option.split)
next
  case (Finish_row now)
  then show ?thesis using assms(1) by (auto simp: with_service_stream turn_finished_def ends_go Let_def split: sum.split)
next
  case (Speech_works x)
  then show ?thesis using assms(1) by (simp add: unclosed_ends)
qed (use assms(1) in \<open>simp_all add: with_service_stream ends_early ends_stream ends_raise ends_stops ends_kill
    ends_leave ends_go unclosed_ends Let_def\<close>)

lemma move_ends: "ends_ok (tw_stream w) \<Longrightarrow> turn_enabled m w \<Longrightarrow> ends_ok (tw_stream (turn_do env m w))"
  using move_unclosed only_leaves_ok [OF _ move_leaves] by (cases "leaving (ts_place (tw_stream w))") (auto simp: ends_ok_def)

interpretation frames_machine: machine turn_begins "turn_step env" "\<lambda>w. ends_ok (tw_stream w)"
proof unfold_locales
  show "turn_begins w \<Longrightarrow> ends_ok (tw_stream w)" for w
    by (auto simp: turn_begins_def new_turn_stream_def ends_ok_def unclosed_def)
  show "turn_step env w m w' \<Longrightarrow> ends_ok (tw_stream w) \<Longrightarrow> ends_ok (tw_stream w')" for w m w'
    by (auto elim!: turn_stepE intro: move_ends)
qed

end
