(* ===== verification/CallTurnProperties.thy ===== *)
theory CallTurnProperties
  imports CallTurnLaws CallTurnFrames ChatProperties
begin

text \<open>
  What a call turn promises in every order of the events, and one turn from its reservation to its
  recorded answer as the concrete run.
\<close>

section \<open>A run of one turn\<close>

definition plain_turn_env :: turn_env where
  "plain_turn_env = \<lparr>te_clock = (\<lambda>t. []), te_show = (\<lambda>v. [])\<rparr>"

definition demo_request :: turn_request where
  "demo_request = \<lparr>rq_call = ''c'', rq_turn = ''u'', rq_text = lit ''Hey'', rq_sha = ''d'', rq_task = None\<rparr>"

definition demo_begin :: turn_world where
  "demo_begin = \<lparr>tw_server = demo 4, tw_stream = new_turn_stream demo_request\<rparr>"

definition played_response :: pv where
  "played_response = PDict [(lit ''event'', PDict [(lit ''type'', pstr ''ai_done''),
     (lit ''tts_playback_final'', PDict [(lit ''playout_wait_completed'', PBool True)])])]"

definition demo_turn :: "turn_move list" where
  "demo_turn =
    [Reserve_turn ''r'' ''w'' Commit_returns {} 2, Record_user ''m2'' 3, Load_turn (Loaded []),
     Next_event [(lit ''type'', pstr ''token''), (lit ''text'', PStr (lit ''Yes''))], Resume_turn, Stream_ends, Resume_turn, Task_runs,
     Speech_works Worker_takes, Speech_works (Worker_hears (Responds played_response)), Task_runs,
     Wake_turn, Resume_turn, Claim_answer, Stage_answer ''m3'' 4]"

primrec turn_run :: "turn_move list \<Rightarrow> turn_world \<Rightarrow> turn_world option" where
  "turn_run [] w = Some w"
| "turn_run (m # ms) w = (if turn_enabled m w then turn_run ms (turn_do plain_turn_env m w) else None)"

lemma turn_run_reach: "turn_run ms w = Some w' \<Longrightarrow> reach turn_begins (turn_step plain_turn_env) w
    \<Longrightarrow> reach turn_begins (turn_step plain_turn_env) w'"
  by (induction ms arbitrary: w) (auto split: if_splits intro: reach.reach_step turn_moved)

lemma demo_turn_reach: "turn_run ms demo_begin = Some w \<Longrightarrow> reach turn_begins (turn_step plain_turn_env) w"
  by (erule turn_run_reach) (auto intro!: reach.reach_init simp: turn_begins_def demo_begin_def)

section \<open>What the user hears, sees and keeps\<close>

lemma commit_stores:
  assumes "complete_commit cid now sv = (Inr (Some mid), sv')"
  obtains turn owner row where "staged_answer cid sv = Some (turn, owner, mid, row)"
    "dget (st_messages (sv_store sv')) mid = Some row"
proof -
  obtain c turn owner mid' row where c: "dget (sv_calls sv) cid = Some c" "ac_staged c = Some (turn, owner, mid', row)"
    using assms by (auto simp: complete_commit_def split: option.splits)
  obtain k r st st1 where st: "insert_message mid' row st1 = Inr st" "mid' = mid"
    "sv' = put_call cid (set_turn_state turn Turn_done ((drop_pending turn (c\<lparr>ac_staged := None\<rparr>))
             \<lparr>ac_completed := insert turn (ac_completed (c\<lparr>ac_staged := None\<rparr>))\<rparr>))
             (sv\<lparr>sv_store := put_turn k ((close_turn Turn_done now r)\<lparr>ct_assistant := Some mid\<rparr>) st\<rparr>)"
    using assms c
    by (auto simp: complete_commit_def refuse_completion_def Let_def bind_res_Inr_iff split: option.splits sum.splits if_splits)
  have "dget (st_messages (sv_store sv')) mid = Some row"
    using insert_message_cases(1) [OF st(1)] st(2,3) by (simp add: put_call_def put_turn_def)
  then show thesis using that c st(2) by (simp add: staged_answer_def)
qed

text \<open>
  \<^bold>\<open>C2\<close>. The answer that is stored is the one that was shown and heard. When a turn commits its answer, then
  after any run of the request, the scheduler, the failures of the backend and the other requests of
  the server: the stored message of the turn has exactly the text of the \<open>ai_token\<close> frames that the
  browser got; the last frame is the \<open>ai_done\<close> event with that message; and the backend was called
  with segments that have, in order, exactly the visible characters of the text, the last of them the
  final one.
\<close>

theorem stored_answer_was_shown_and_spoken:
  assumes "reach turn_begins (turn_step env) w" "turn_enabled (Commit_answer now) w"
    and "complete_commit (rq_call (ts_request (tw_stream w))) now (tw_server w) = (Inr (Some mid), sv)"
    and "s = tw_stream (turn_do env (Commit_answer now) w)" "shown = concat (tokens_of (ts_frames s))"
  shows "(case dget (st_messages (sv_store sv)) mid of
            None \<Rightarrow> False
          | Some row \<Rightarrow> ms_content row = Some shown \<and> ms_kind row = ''ai_speech'' \<and> ms_call row = Some (rq_call (ts_request s))
              \<and> ms_call_turn row = Some (rq_turn (ts_request s))
              \<and> last (ts_frames s) = Event_frame (answer_done_event (rq_turn (ts_request s)) (PDict (message_dict (te_clock env) mid row)) []))
    \<and> (case ts_speech s of
         None \<Rightarrow> False
       | Some sp \<Rightarrow> visible (concat (map su_text (sq_spoken sp))) = visible shown
           \<and> sq_spoken sp = sq_submitted sp \<and> su_final (last (sq_spoken sp)))"
proof -
  let ?s = "tw_stream w" and ?c = "rq_call (ts_request (tw_stream w))"
  have ok: "stream_ok ?s" and com: "commit_ok w" using turn_machine.inv_reach [OF assms(1)] by (simp_all add: world_ok_def)
  have at: "ts_place ?s = At_commit" using assms(2) by (simp add: turn_enabled_def turn_can_def)
  obtain turn owner row where row: "staged_answer ?c (tw_server w) = Some (turn, owner, mid, row)"
    "dget (st_messages (sv_store sv)) mid = Some row" by (rule commit_stores [OF assms(3)])
  have staged: "staged_is ?c (turn_of ?s) (concat (ts_accumulated ?s)) (Some (turn, owner, mid, row))"
    using com at row(1) by (simp add: commit_ok_def)
  have s: "s = yields (answer_done_event (turn_of ?s) (PDict (message_dict (te_clock env) mid row)) []) Then_leave
      (?s\<lparr>ts_end := Turn_done\<rparr>)"
    using assms(3,4) row(1) by (simp add: with_service_def Let_def answer_recorded_def answer_message_def)
  have toks: "tokens_of (ts_frames ?s) = ts_accumulated ?s" using ok by (simp add: stream_ok_def)
  have shown: "shown = concat (ts_accumulated ?s)" using assms(5) s toks by (simp add: yields_def)
  have "live_ok At_commit ?s" using stream_live [OF ok] at by (simp add: live_def)
  then obtain t where t: "ts_task ?s = Task_over (Gives t)" "status t = Normal_end"
    "said_all (Task_over (Gives t)) At_commit ?s" "caller_fits (Task_over (Gives t)) False (ts_speech ?s)"
    by (rule recording_facts) simp_all
  obtain sp where sp: "ts_speech ?s = Some sp" "sq_terminal sp = Some t" using t(4) by (cases "ts_speech ?s") simp_all
  have "speech_ok sp" using ok sp(1) by (simp add: stream_ok_def)
  note all = spoken_all [OF this sp(2) t(2)]
  have "su_final (last (sq_spoken sp))"
    using \<open>speech_ok sp\<close> sp(2) t(2) by (simp add: speech_ok_def normal_ok_def)
  then show ?thesis using row(2) staged s shown sp(1) t(3) all by (simp add: yields_def)
qed

theorem stored_answer_was_shown_and_spoken_witness:
  "case turn_run demo_turn demo_begin of
     None \<Rightarrow> False
   | Some w \<Rightarrow>
       (case dget (st_messages (sv_store (snd (complete_commit ''c'' 5 (tw_server w))))) ''m3'' of
          None \<Rightarrow> False | Some row \<Rightarrow> ms_content row = Some (lit ''Yes''))"
proof -
  have run: "turn_run demo_turn demo_begin \<noteq> None" by code_simp
  then obtain w where w: "turn_run demo_turn demo_begin = Some w" by auto
  have "case turn_run demo_turn demo_begin of None \<Rightarrow> False | Some w \<Rightarrow>
      turn_enabled (Commit_answer 5) w \<and> rq_call (ts_request (tw_stream w)) = ''c''
      \<and> fst (complete_commit ''c'' 5 (tw_server w)) = Inr (Some ''m3'')
      \<and> concat (tokens_of (ts_frames (tw_stream (turn_do plain_turn_env (Commit_answer 5) w)))) = lit ''Yes''"
    by code_simp
  note f = this [unfolded w option.case, THEN conjunct1]
    this [unfolded w option.case, THEN conjunct2, THEN conjunct1]
    this [unfolded w option.case, THEN conjunct2, THEN conjunct2, THEN conjunct1]
    this [unfolded w option.case, THEN conjunct2, THEN conjunct2, THEN conjunct2]
  have c: "complete_commit (rq_call (ts_request (tw_stream w))) 5 (tw_server w)
      = (Inr (Some ''m3''), snd (complete_commit ''c'' 5 (tw_server w)))"
    using f(2,3) by (simp add: prod_eq_iff)
  show ?thesis
    using stored_answer_was_shown_and_spoken [OF demo_turn_reach [OF w] f(1) c refl refl] w f(4)
    by (auto split: option.splits)
qed

section \<open>The end of the stream\<close>

text \<open>
  \<^bold>\<open>C10\<close>. A stream of events ends once. Whatever order the failures of the completion service, of the backend
  and of the tables come in, whichever task cancels the request and wherever the browser closes it:
  an event that ends the turn for the browser (an \<open>error\<close>, the \<open>ai_done\<close>, or the notice that the turn
  may be taken up again) is the last frame, so there is at most one, and the generator is then at its
  cleanup, from which it only finishes the row, forgets the turn and ends.
\<close>

theorem stream_ends_once:
  assumes "reach turn_begins (turn_step env) w" "f \<in> set (ts_frames (tw_stream w))" "closing f"
  shows "f = last (ts_frames (tw_stream w)) \<and> length (filter closing (ts_frames (tw_stream w))) = 1
    \<and> leaving (ts_place (tw_stream w))
    \<and> (\<forall>m. turn_enabled m w \<longrightarrow> ts_frames (tw_stream (turn_do env m w)) = ts_frames (tw_stream w)
          \<and> leaving (ts_place (tw_stream (turn_do env m w))))"
proof -
  let ?fs = "ts_frames (tw_stream w)"
  have ok: "ends_ok (tw_stream w)" by (rule frames_machine.inv_reach [OF assms(1)])
  then have front: "list_all (\<lambda>f. \<not> closing f) (butlast ?fs)" and leaving: "leaving (ts_place (tw_stream w))"
    using assms(2,3) by (auto simp: ends_ok_def unclosed_def list_all_iff)
  have split: "?fs = butlast ?fs @ [last ?fs]" using assms(2) by (cases ?fs rule: rev_cases) auto
  then have "f \<in> set (butlast ?fs) \<or> f = last ?fs" using assms(2) by (metis UnE set_append set_ConsD set_empty empty_iff list.set(2) insertE)
  then have f: "f = last ?fs" using front assms(3) by (auto simp: list_all_iff)
  have "filter closing (butlast ?fs) = []" using front by (simp add: filter_empty_conv list_all_iff)
  then have "filter closing ?fs = [f]" using f assms(3) by (subst split) simp
  then show ?thesis using f leaving move_leaves [OF leaving] by (simp add: only_leaves_def)
qed

theorem stream_ends_once_witness:
  "case turn_run (demo_turn @ [Commit_answer 5]) demo_begin of None \<Rightarrow> False | Some w \<Rightarrow>
     length (ts_frames (tw_stream w)) > 1 \<and> length (filter closing (ts_frames (tw_stream w))) = 1"
proof -
  have run: "case turn_run (demo_turn @ [Commit_answer 5]) demo_begin of None \<Rightarrow> False | Some w \<Rightarrow>
      length (ts_frames (tw_stream w)) > 1 \<and> closing (last (ts_frames (tw_stream w)))"
    by code_simp
  then obtain w where w: "turn_run (demo_turn @ [Commit_answer 5]) demo_begin = Some w" by (auto split: option.splits)
  have many: "length (ts_frames (tw_stream w)) > 1" and closes: "closing (last (ts_frames (tw_stream w)))"
    using run unfolding w option.case by blast+
  have "last (ts_frames (tw_stream w)) \<in> set (ts_frames (tw_stream w))" using many by (intro last_in_set) auto
  from stream_ends_once [OF demo_turn_reach [OF w] this closes] show ?thesis using w many by simp
qed

section \<open>An interruption during the stream\<close>

definition cancelled_response :: pv where
  "cancelled_response = PDict [(lit ''event'', PDict [(lit ''status'', pstr ''cancelled'')])]"

definition demo_cut :: "turn_move list" where
  "demo_cut = take 3 demo_turn @
    [Next_event [(lit ''type'', pstr ''token''), (lit ''text'', PStr (lit ''a b c d. e''))], Resume_turn, Resume_turn,
     Speech_works Worker_takes, Speech_works (Worker_hears (Responds cancelled_response))]"

definition cut_moves :: "turn_move list" where
  "cut_moves = [Stream_ends, Task_runs, Wake_turn, Resume_turn, Stop_ends Ask_settled]"

lemma demo_cut_state:
  "case turn_run demo_cut demo_begin of None \<Rightarrow> False | Some w \<Rightarrow>
     ts_place (tw_stream w) = At_stream \<and> map_option (map_option status \<circ> sq_terminal) (ts_speech (tw_stream w)) = Some (Some Cancelled_end)
     \<and> ts_rehearsing (tw_stream w) \<and> strip (concat (ts_accumulated (tw_stream w))) \<noteq> []"
  by code_simp

text \<open>
  \<^bold>\<open>C17\<close>. An interruption that reaches an earlier segment is taken for a failure. When the backend answers a
  segment before the last with \<open>cancelled\<close>, because the user has interrupted the speech, the scheduler
  is closed for the rest of the stream; at its end \<open>finalize\<close> is refused like a failed playback: the
  backend is asked to cancel the turn, the browser gets the error \<open>call_tts_failed\<close>, and the turn
  ends as failed, while the same answer to the last segment ends it silently as cancelled.
\<close>

theorem interruption_of_a_segment_fails_the_turn:
  assumes "reach turn_begins (turn_step env) w" "s = tw_stream w" "ts_place s = At_stream"
    and "ts_speech s = Some sp" "sq_terminal sp = Some t" "status t = Cancelled_end"
    and "ts_rehearsing s" "strip (concat (ts_accumulated s)) \<noteq> []"
    and "w' = fold (turn_do env) cut_moves w"
  shows "run_of (turn_step env) w cut_moves w' \<and> ts_place (tw_stream w') = Yielded Then_leave
    \<and> ts_end (tw_stream w') = Turn_failed
    \<and> last (ts_frames (tw_stream w')) = Event_frame (playback_failed_event (tw_stream w'))"
proof -
  have ok: "stream_ok s" using turn_machine.inv_reach [OF assms(1)] assms(2) by (simp add: world_ok_def)
  have lv: "live_ok At_stream s" using stream_live [OF ok] assms(3) by (simp add: live_def)
  have k: "sq_caller sp = Caller_free" "ts_end s = Turn_failed"
    using lv assms(4) by (auto simp: live_ok_def is_put_def)
  have sp: "speech_ok sp" "sq_cancel sp = Cancel_none" using ok assms(3,4) by (simp_all add: stream_ok_def is_stop_def)
  have dead: "\<not> worker_lives sp"
    using sp(1) assms(5) by (cases "sq_worker sp") (simp_all add: speech_ok_def worker_lives_def)
  obtain tail g where f: "finalize_speech s = s\<lparr>ts_segmenter := g, ts_task := Task_made tail, ts_place := At_sleep\<rparr>"
    by (cases "ts_segmenter s") (auto simp: finalize_speech_def split_beta)
  let ?s1 = "s\<lparr>ts_segmenter := g, ts_task := Task_made tail, ts_place := At_sleep\<rparr>"
  let ?s2 = "?s1\<lparr>ts_task := Task_over Refused_closed\<rparr>"
  let ?s3 = "?s2\<lparr>ts_place := Yielded Then_poll, ts_frames := ts_frames s @ [Keepalive_frame]\<rparr>"
  let ?s4 = "stop_speech Stop_backend sp ?s3"
  let ?sp = "snd (cancel_ends Ask_settled (cancel_begins sp))"
  let ?s5 = "yields (playback_failed_event s) Then_leave (?s4\<lparr>ts_speech := Some ?sp\<rparr>)"
  have begins: "cancel_begins sp = ask_backend (sp\<lparr>sq_closed := True\<rparr>)" using dead by (simp add: cancel_begins_def Let_def)
  let ?w = "\<lambda>s. w\<lparr>tw_stream := s\<rparr>"
  have w: "w = ?w s" using assms(2) by simp
  have m1: "turn_enabled Stream_ends (?w s)" "turn_do env Stream_ends (?w s) = ?w ?s1"
    using assms(3,4,7,8) f by (simp_all add: turn_enabled_def turn_can_def on_stream_def on_stream_end_def start_speech_def Let_def)
  have m2: "turn_enabled Task_runs (?w ?s1)" "turn_do env Task_runs (?w ?s1) = ?w ?s2"
    using assms(4,5) k(1)
    by (simp_all add: turn_enabled_def turn_can_def task_can_def speech_can_def on_stream_def run_task_def
        finalize_turn_def require_open_def Let_def)
  have m3: "turn_enabled Wake_turn (?w ?s2)" "turn_do env Wake_turn (?w ?s2) = ?w ?s3"
    by (simp_all add: turn_enabled_def turn_can_def on_stream_def)
  have m4: "turn_enabled Resume_turn (?w ?s3)" "turn_do env Resume_turn (?w ?s3) = ?w ?s4"
    using assms(4)
    by (simp_all add: turn_enabled_def turn_can_def is_yielded_def on_stream_def resume_turn_def poll_task_def
        settle_task_def raise_turn_def)
  have m5: "turn_enabled (Stop_ends Ask_settled) (?w ?s4)" "turn_do env (Stop_ends Ask_settled) (?w ?s4) = ?w ?s5"
    using begins
    by (simp_all add: turn_enabled_def turn_can_def is_stop_def speech_can_def stop_speech_def on_stream_def stop_ends_def
        cancel_ends_def ask_backend_def speech_stopped_def playback_failed_event_def Let_def)
  have w': "w' = ?w ?s5"
    unfolding assms(9) cut_moves_def by (subst w) (simp only: fold_simps m1 m2 m3 m4 m5)
  have "run_of (turn_step env) (?w s) cut_moves (?w ?s5)"
    unfolding cut_moves_def
    by (rule run_of.intros, rule turn_step.intros [OF m1(1), of env, unfolded m1(2)],
        rule run_of.intros, rule turn_step.intros [OF m2(1), of env, unfolded m2(2)],
        rule run_of.intros, rule turn_step.intros [OF m3(1), of env, unfolded m3(2)],
        rule run_of.intros, rule turn_step.intros [OF m4(1), of env, unfolded m4(2)],
        rule run_of.intros, rule turn_step.intros [OF m5(1), of env, unfolded m5(2)], rule run_of.intros)
  then show ?thesis using w w' k(2)
    by (simp add: yields_def stop_speech_def playback_failed_event_def)
qed

theorem interruption_of_a_segment_fails_the_turn_witness:
  "case turn_run demo_cut demo_begin of None \<Rightarrow> False | Some w \<Rightarrow>
     ts_end (tw_stream (fold (turn_do plain_turn_env) cut_moves w)) = Turn_failed"
proof -
  obtain w where w: "turn_run demo_cut demo_begin = Some w"
    using demo_cut_state by (auto split: option.splits)
  have st: "ts_place (tw_stream w) = At_stream"
    "map_option (map_option status \<circ> sq_terminal) (ts_speech (tw_stream w)) = Some (Some Cancelled_end)"
    "ts_rehearsing (tw_stream w)" "strip (concat (ts_accumulated (tw_stream w))) \<noteq> []"
    using demo_cut_state unfolding w option.case by blast+
  obtain sp t where sp: "ts_speech (tw_stream w) = Some sp" "sq_terminal sp = Some t" "status t = Cancelled_end"
    using st(2) by auto
  show ?thesis
    using interruption_of_a_segment_fails_the_turn [OF demo_turn_reach [OF w] refl st(1) sp st(3,4) refl] w
    by simp
qed

end
