(* ===== verification/Spec2Isabelle.thy ===== *)
theory Spec2Isabelle
  imports Prelude SpeechLedger TtsSegmenter RefusalGuard RefusalCases PyText PyValue PromptProfiles PromptBuilder PromptLaws
    GenerationProfiles GenerationLaws RefusalActivity SpeechTerminal LlmStream
    CallEvents TurnAudio SessionState TerminalCall TerminalCleanup PeerSwitch UserTurns SpeechTurns
    CallSession SessionLaws SessionSafety SessionWaits SessionSpeech SessionManager SessionFaults
    ModelManager ModelManagerLaws
    QwenProtocol QwenWorker QwenWorkerLaws QwenAdapter QwenAdapterLaws QwenEngine
    ChatStore MessageActions CallTurns ChatServer ChatLaws CallLaws CallSteps ChatTheorems ChatProperties
    SpeechScheduler SpeechSchedulerLaws CallTurnStream CallTurnWorld CallTurnLaws CallTurnFrames CallTurnProperties
begin

text \<open>
  RayMe lets a user chat with, and call, a character that a language model plays and a speech engine
  voices. Two Python services do the work. The web server (\<open>web-ui/server/app\<close>) keeps characters,
  threads, messages and the turns of calls in tables, composes prompts, streams completions from an
  OpenAI-compatible service through a guard against refusals, and cuts the text of a spoken answer
  into segments. The AI backend (\<open>ai-backend/app\<close>) holds the peer connection of a call, collects the
  user's turns from microphone frames, has them transcribed, and speaks the segments it is sent. It
  drives a third process, the worker of the Qwen engine (\<open>models/tts_qwen3_worker.py\<close>), by lines of JSON. The
  development models this logic as HOL functions on explicit states; every definition is mapped to
  the lines it translates.

  \<^bold>\<open>Foundations\<close>. \<open>Prelude\<close> (text as code points, dictionaries with the locale \<open>dict_laws\<close>, results as
  sums, reachability and runs with the locale \<open>machine\<close>), \<open>PyText\<close> and \<open>PyValue\<close> (methods of
  \<open>str\<close>, JSON values), \<open>Regex\<close> (the backtracking matcher for the patterns that the program uses).

  \<^bold>\<open>Speech of the assistant\<close>. \<open>TtsSegmenter\<close> is \<open>domain/call_tts_segments.py\<close>: no visible character
  is lost and the number of words is bounded. \<open>SpeechLedger\<close> is the ledger of segments in
  \<open>call/session.py\<close>: committed segments form a prefix, are replayed, and waiting claims are woken.
  \<open>SpeechTerminal\<close> is \<open>domain/speech_terminal.py\<close>.

  \<^bold>\<open>Prompts and completions\<close>. \<open>PromptProfiles\<close>, \<open>PromptBuilder\<close> and \<open>GenerationProfiles\<close> are the
  modules of these names under \<open>domain\<close>; \<open>PromptLaws\<close> and \<open>GenerationLaws\<close> show what a composed
  prompt keeps and drops, when composition fails, and what reaches the wire. \<open>RefusalGuard\<close> and
  \<open>RefusalCases\<close> are \<open>domain/refusal_guard.py\<close>, \<open>RefusalActivity\<close> the ring of refusals, and
  \<open>LlmStream\<close> is \<open>domain/llm_stream.py\<close>: at most three attempts, only the last of which is heard.

  \<^bold>\<open>Calls in the AI backend\<close>. \<open>SessionState\<close> has the state of a \<open>CallSession\<close>; \<open>CallEvents\<close> the outbox
  of events (refined to an abstract log); \<open>TurnAudio\<close> the endpointing of microphone frames;
  \<open>UserTurns\<close> and \<open>SpeechTurns\<close> the admission of transcriptions and of speech; \<open>PeerSwitch\<close> the
  candidates and the reconnect; \<open>TerminalCall\<close> and \<open>TerminalCleanup\<close> the end of a call.
  \<open>CallSession\<close> composes these as one labelled step relation, a label being one stretch between two
  awaits; \<open>SessionLaws\<close> has its invariant. \<open>SessionSafety\<close> shows that the end is final and that the
  session refines an abstract protocol, \<open>SessionWaits\<close> and \<open>SessionSpeech\<close> who waits for whom,
  \<open>SessionFaults\<close> a transcription that a reconnect outruns, \<open>SessionManager\<close> the table of sessions.
  \<open>ModelManager\<close> is \<open>models/model_manager.py\<close>; \<open>ModelManagerLaws\<close> shows that one engine is in memory
  and that the prompt of a live call stays leased to it.

  \<^bold>\<open>The Qwen engine\<close>. \<open>QwenProtocol\<close> has the commands and events on the wire with their constraints,
  base64, and the validator of a stream, which accepts exactly the declared streams. \<open>QwenWorker\<close> is
  the worker process as a machine of lines and stretches of a generation; \<open>QwenWorkerLaws\<close> shows that
  what it writes is accepted and that a cancelled generation plays nothing more. \<open>QwenAdapter\<close> is the
  adapter in the AI backend, \<open>QwenAdapterLaws\<close> its waiting cancellations and the bounds of its
  commands. \<open>QwenEngine\<close> joins the two over the pipe: the audio of a run is played in order, and the
  three ways in which a cancellation or an exited process leaves the engine unusable.

  \<^bold>\<open>Tables and calls in the web server\<close>. \<open>ChatStore\<close> has the tables of \<open>storage/models.py\<close> and their
  constraints, \<open>MessageActions\<close> the services for threads and messages, \<open>CallTurns\<close> the operations of
  \<open>CallService\<close>, and \<open>ChatServer\<close> the step relation over all of them. \<open>ChatLaws\<close> shows that every
  operation keeps the tables consistent, \<open>CallLaws\<close> and \<open>CallSteps\<close> that it keeps the rows of turns,
  the messages and the memory of calls in agreement; \<open>ChatTheorems\<close> has the protocol of a turn, and
  \<open>ChatProperties\<close> what holds in every reachable state and on every run.

  \<^bold>\<open>A turn of a call\<close>. \<open>SpeechScheduler\<close> is \<open>SpeechTurn\<close> of \<open>domain/ai_backend_client.py\<close>, the bounded
  queue between a request and the speak endpoint, with its background task and its cancellation;
  \<open>SpeechSchedulerLaws\<close> shows what was spoken at a normal end, that a request which waits goes on, and
  the crash after which one does not. \<open>CallTurnStream\<close> is the generator of \<open>create_call_turn\<close> in
  \<open>api/calls.py\<close>, one definition for each stretch between two awaits or yields, with its handlers and
  its \<open>finally\<close> block. \<open>CallTurnWorld\<close> runs it with the tables, the scheduler and the other requests
  of the server in any order. \<open>CallTurnLaws\<close> has the invariant that ties the frames, the segments and
  the staged answer together, \<open>CallTurnFrames\<close> the protocol of the closing frames, and
  \<open>CallTurnProperties\<close> shows that a stored answer is the text that was shown and spoken, that a stream
  ends once, and how an interruption of an early segment is taken for a failure.

  \<^bold>\<open>Concurrency\<close>. Both services run on one event loop. Code between two awaits is one step; where a
  lock is held over awaits, the stretch under the lock is one step unless other operations can see its
  parts. Any step may follow any other that is enabled, so the invariants hold for every interleaving.

  \<^bold>\<open>Bounds and fuel\<close>. The matcher of \<open>Regex\<close> has fuel for the iterations of a star, at least the
  length of the text, which each iteration shortens. The clean-up of a call has the retry bound of the
  code, and its termination is a theorem. All other recursions are structural or have a measure.
  Python's integers are unbounded and are \<open>int\<close>; clocks are rational numbers and arguments.

  \<^bold>\<open>Not modelled\<close>. Code outside the repository is an argument of the definitions: the language model,
  the speech engines and the transcriber, WebRTC, the database engine (of which the declared
  constraints and the atomic transaction are used), \<open>uuid4\<close> and the clock. The synthesis loop and the
  handoff of prompt leases in \<open>call/session.py\<close>, the outbound track, the adapters of the other
  engines, audio conversion, the other HTTP routes, the HTTP client of the AI backend, imports
  of character cards, portraits, blobs and settings pages are input and output around this logic and
  are listed in the manifest with their reasons, as are the measuring scripts under \<open>.planning\<close> and
  \<open>scripts\<close>.
\<close>

end
